(* ===== verification/Prelude.thy ===== *)
theory Prelude
  imports Main
begin

text \<open>
  Shared vocabulary of the development: the types that stand for the program's
  strings and clocks, the result type of fallible services, the five table
  operations every query of the server is written with, and generic lemmas on
  lists and maps that the component theories use.

  A PostgreSQL \<open>timestamptz\<close> counts microseconds and a JavaScript \<open>Date\<close> counts
  milliseconds, so the two clocks are kept apart: \<open>to_pg\<close> is the conversion a
  driver makes when a \<open>Date\<close> is a query parameter, \<open>to_js\<close> the (rounding)
  conversion it makes when a \<open>timestamptz\<close> column is read.
\<close>

type_synonym ident = string
type_synonym js_date = int
type_synonym pg_time = int

named_theorems table_simps
named_theorems row_defs

definition to_pg :: "js_date \<Rightarrow> pg_time" where
  "to_pg d = d * 1000"

definition to_js :: "pg_time \<Rightarrow> js_date" where
  "to_js t = t div 1000"

text \<open>
  What a service can throw: an API error class with its code and HTTP status, or
  any other exception (a violated constraint, a missing row where one is
  required, a plain \<open>Error\<close>), which the routes do not map and which rolls the
  transaction back.
\<close>

datatype api_code =
    CONVERSATION_NOT_FOUND
  | MESSAGE_NOT_FOUND
  | RUN_NOT_FOUND
  | INPUT_NOT_FOUND
  | INPUT_ALREADY_RESOLVED
  | EMPTY_CONVERSATION
  | INVALID_CURSOR
  | INVALID_DATE_RANGE
  | NOT_FOUND
  | IDEMPOTENCY_CONFLICT
  | IDEMPOTENCY_KEY_REUSED
  | SITE_NOT_FOUND
  | ORIGIN_NOT_ALLOWED
  | WIDGET_NOT_FOUND
  | AGENT_ALIAS_NOT_ALLOWED

datatype failure = ApiError api_code nat | Unexpected

text \<open>Sequencing of fallible steps: a failure skips the rest (an \<open>await\<close> that throws).\<close>

fun and_then :: "'e + 'a \<Rightarrow> ('a \<Rightarrow> 'e + 'b) \<Rightarrow> 'e + 'b" where
  "and_then (Inl e) f = Inl e"
| "and_then (Inr a) f = f a"

text \<open>Table operations: a table is the list of its rows, oldest insertion first.\<close>

definition update_where :: "('r \<Rightarrow> bool) \<Rightarrow> ('r \<Rightarrow> 'r) \<Rightarrow> 'r list \<Rightarrow> 'r list" where
  "update_where p f rows = map (\<lambda>r. if p r then f r else r) rows"

definition delete_where :: "('r \<Rightarrow> bool) \<Rightarrow> 'r list \<Rightarrow> 'r list" where
  "delete_where p rows = filter (\<lambda>r. \<not> p r) rows"

definition count_where :: "('r \<Rightarrow> bool) \<Rightarrow> 'r list \<Rightarrow> nat" where
  "count_where p rows = length (filter p rows)"

definition exists_row :: "('r \<Rightarrow> bool) \<Rightarrow> 'r list \<Rightarrow> bool" where
  "exists_row p rows = list_ex p rows"

text \<open>\<open>ORDER BY key ASC\<close> and \<open>ORDER BY key DESC\<close>; ties keep the table's order.\<close>

definition order_asc :: "('r \<Rightarrow> 'k::linorder) \<Rightarrow> 'r list \<Rightarrow> 'r list" where
  "order_asc key rows = sort_key key rows"

definition order_desc :: "('r \<Rightarrow> 'k::linorder) \<Rightarrow> 'r list \<Rightarrow> 'r list" where
  "order_desc key rows = rev (sort_key key (rev rows))"

subsection \<open>Fallible steps\<close>

lemma and_then_Inr_iff [simp]: "and_then x f = Inr y \<longleftrightarrow> (\<exists>a. x = Inr a \<and> f a = Inr y)"
  by (cases x) auto

lemma and_then_Inl_iff: "and_then x f = Inl e \<longleftrightarrow> x = Inl e \<or> (\<exists>a. x = Inr a \<and> f a = Inl e)"
  by (cases x) auto

lemma and_then_assoc: "and_then (and_then x f) g = and_then x (\<lambda>a. and_then (f a) g)"
  by (cases x) auto

subsection \<open>Time\<close>

lemma to_js_to_pg [simp]: "to_js (to_pg d) = d"
  by (simp add: to_js_def to_pg_def)

lemma to_pg_less [simp]: "to_pg a < to_pg b \<longleftrightarrow> a < b"
  by (simp add: to_pg_def)

lemma to_pg_eq [simp]: "to_pg a = to_pg b \<longleftrightarrow> a = b"
  by (simp add: to_pg_def)

lemma to_pg_le [simp]: "to_pg a \<le> to_pg b \<longleftrightarrow> a \<le> b"
  by (simp add: to_pg_def)

lemma to_pg_to_js_le: "to_pg (to_js t) \<le> t"
proof -
  have "1000 * (t div 1000) + t mod 1000 = t" by (rule mult_div_mod_eq)
  moreover have "0 \<le> t mod 1000" by simp
  ultimately show ?thesis unfolding to_js_def to_pg_def by linarith
qed

lemma to_js_mono: "a \<le> b \<Longrightarrow> to_js a \<le> to_js b"
  by (simp add: to_js_def zdiv_mono1)

subsection \<open>Tables\<close>

lemma update_where_Nil [simp]: "update_where p f [] = []"
  by (simp add: update_where_def)

lemma update_where_append [simp]:
  "update_where p f (xs @ ys) = update_where p f xs @ update_where p f ys"
  by (simp add: update_where_def)

lemma length_update_where [simp]: "length (update_where p f xs) = length xs"
  by (simp add: update_where_def)

lemma set_update_where:
  "set (update_where p f xs) = {f x | x. x \<in> set xs \<and> p x} \<union> {x \<in> set xs. \<not> p x}"
  by (auto simp: update_where_def)

lemma update_where_memberD:
  assumes "y \<in> set (update_where p f xs)"
  obtains x where "x \<in> set xs" and "y = (if p x then f x else x)"
  using assms by (auto simp: update_where_def)

lemma update_where_none: "(\<And>x. x \<in> set xs \<Longrightarrow> \<not> p x) \<Longrightarrow> update_where p f xs = xs"
  by (auto simp: update_where_def intro: map_idI)

lemma map_update_where:
  "(\<And>x. g (f x) = g x) \<Longrightarrow> map g (update_where p f xs) = map g xs"
  by (simp add: update_where_def)

lemma filter_update_where:
  "(\<And>x. q (f x) = q x) \<Longrightarrow> filter q (update_where p f xs) = update_where p f (filter q xs)"
  by (induction xs) (auto simp: update_where_def)

lemma count_update_where:
  "(\<And>x. q (f x) = q x) \<Longrightarrow> count_where q (update_where p f xs) = count_where q xs"
  by (simp add: count_where_def filter_update_where)

lemma find_update_where:
  "(\<And>x. q (f x) = q x) \<Longrightarrow>
   find q (update_where p f xs) = map_option (\<lambda>x. if p x then f x else x) (find q xs)"
  by (induction xs) (auto simp: update_where_def)

lemma exists_row_iff [simp]: "exists_row p rows \<longleftrightarrow> (\<exists>r \<in> set rows. p r)"
  by (simp add: exists_row_def list_ex_iff)

lemma exists_row_update_where:
  "(\<And>x. q (f x) = q x) \<Longrightarrow> exists_row q (update_where p f xs) = exists_row q xs"
  by (auto simp: update_where_def)

lemma set_delete_where [simp]: "set (delete_where p xs) = {x \<in> set xs. \<not> p x}"
  by (simp add: delete_where_def)

lemma delete_where_append [simp]:
  "delete_where p (xs @ ys) = delete_where p xs @ delete_where p ys"
  by (simp add: delete_where_def)

lemma delete_where_none: "(\<And>x. x \<in> set xs \<Longrightarrow> \<not> p x) \<Longrightarrow> delete_where p xs = xs"
  by (simp add: delete_where_def)

lemma distinct_map_delete_where: "distinct (map g xs) \<Longrightarrow> distinct (map g (delete_where p xs))"
  by (simp add: delete_where_def distinct_map_filter)

lemma find_append: "find p (xs @ ys) = (case find p xs of None \<Rightarrow> find p ys | Some x \<Rightarrow> Some x)"
  by (induction xs) auto

lemma find_SomeD: "find p xs = Some x \<Longrightarrow> x \<in> set xs \<and> p x"
  by (induction xs) (auto split: if_splits)

lemma find_NoneD: "find p xs = None \<Longrightarrow> x \<in> set xs \<Longrightarrow> \<not> p x"
  by (auto simp: find_None_iff)

lemma distinct_map_inj: "distinct (map g xs) \<Longrightarrow> x \<in> set xs \<Longrightarrow> y \<in> set xs \<Longrightarrow> g x = g y \<Longrightarrow> x = y"
  by (simp add: distinct_map inj_on_def)

lemma find_distinct:
  assumes "distinct (map g xs)" and "x \<in> set xs" and "p x"
    and "\<And>y. y \<in> set xs \<Longrightarrow> p y \<Longrightarrow> g y = g x"
  shows "find p xs = Some x"
proof -
  have "find p xs \<noteq> None" using assms(2,3) by (auto simp: find_None_iff)
  then obtain y where y: "find p xs = Some y" by blast
  then have "y \<in> set xs" and "p y" by (auto dest: find_SomeD)
  then have "y = x" using distinct_map_inj [OF assms(1)] assms(2,4) by blast
  with y show ?thesis by simp
qed

lemma distinct_snoc: "distinct (xs @ [x]) \<longleftrightarrow> distinct xs \<and> x \<notin> set xs"
  by auto

subsection \<open>Ordered results\<close>

lemma set_order_asc [simp]: "set (order_asc k xs) = set xs"
  by (simp add: order_asc_def)

lemma length_order_asc [simp]: "length (order_asc k xs) = length xs"
  by (simp add: order_asc_def)

lemma sorted_order_asc: "sorted (map k (order_asc k xs))"
  by (simp add: order_asc_def)

lemma distinct_order_asc: "distinct (map k xs) \<Longrightarrow> distinct (map k (order_asc k xs))"
  by (simp add: order_asc_def distinct_map)

lemma sorted_distinct_strict:
  "sorted xs \<Longrightarrow> distinct xs \<Longrightarrow> sorted_wrt (<) (xs :: 'a::linorder list)"
  by (simp add: strict_sorted_iff)

lemma strict_order_asc:
  "distinct (map k xs) \<Longrightarrow> sorted_wrt (<) (map k (order_asc k xs))"
  by (intro sorted_distinct_strict sorted_order_asc distinct_order_asc)

lemma set_order_desc [simp]: "set (order_desc k xs) = set xs"
  by (simp add: order_desc_def)

lemma length_order_desc [simp]: "length (order_desc k xs) = length xs"
  by (simp add: order_desc_def)

lemma strict_order_desc:
  assumes "distinct (map k xs)"
  shows "sorted_wrt (>) (map k (order_desc k xs))"
proof -
  have "sorted_wrt (<) (map k (sort_key k (rev xs)))"
    using assms by (intro sorted_distinct_strict) (simp_all add: distinct_map)
  then show ?thesis
    by (simp add: order_desc_def rev_map [symmetric] sorted_wrt_rev)
qed

lemma strict_sorted_unique:
  "sorted_wrt (<) (map k xs) \<Longrightarrow> sorted_wrt (<) (map k ys) \<Longrightarrow> set xs = set ys \<Longrightarrow>
   xs = (ys :: 'a list)" for k :: "'a \<Rightarrow> 'b::linorder"
proof -
  assume xs: "sorted_wrt (<) (map k xs)" and ys: "sorted_wrt (<) (map k ys)"
    and eq: "set xs = set ys"
  have keys: "map k xs = map k ys"
    using xs ys eq by (intro sorted_distinct_set_unique) (auto simp: strict_sorted_iff)
  have inj: "inj_on k (set xs \<union> set ys)"
    using xs eq by (simp add: strict_sorted_iff distinct_map)
  show ?thesis using keys inj by (rule map_inj_on)
qed

lemma filter_strict_asc_take_drop:
  fixes k :: "'a \<Rightarrow> 'b::linorder"
  assumes "sorted_wrt (<) (map k xs)" and "n < length xs"
  shows "filter (\<lambda>x. k (xs ! n) < k x) xs = drop (Suc n) xs"
  using assms
proof (induction xs arbitrary: n)
  case (Cons a xs)
  show ?case
  proof (cases n)
    case 0
    moreover have "filter (\<lambda>x. k a < k x) xs = xs"
      using Cons.prems(1) by (simp add: filter_id_conv)
    ultimately show ?thesis by simp
  next
    case (Suc m)
    with Cons.prems have "k a < k (xs ! m)" by auto
    then have "\<not> k (xs ! m) < k a" by (rule less_not_sym)
    with Suc Cons.prems Cons.IH [of m] show ?thesis by simp
  qed
qed simp

lemma filter_strict_desc_drop:
  fixes k :: "'a \<Rightarrow> 'b::linorder"
  assumes "sorted_wrt (>) (map k xs)" and "n < length xs"
  shows "filter (\<lambda>x. k x < k (xs ! n)) xs = drop (Suc n) xs"
  using assms
proof (induction xs arbitrary: n)
  case (Cons a xs)
  show ?case
  proof (cases n)
    case 0
    moreover have "filter (\<lambda>x. k x < k a) xs = xs"
      using Cons.prems(1) by (simp add: filter_id_conv)
    ultimately show ?thesis by simp
  next
    case (Suc m)
    with Cons.prems have "k (xs ! m) < k a" by auto
    then have "\<not> k a < k (xs ! m)" by (rule less_not_sym)
    with Suc Cons.prems Cons.IH [of m] show ?thesis by simp
  qed
qed simp

lemma order_desc_filter: "order_desc k (filter P xs) = filter P (order_desc k xs)"
  by (simp add: order_desc_def rev_filter [symmetric] filter_sort)

lemma order_asc_filter: "order_asc k (filter P xs) = filter P (order_asc k xs)"
  by (simp add: order_asc_def filter_sort)

lemma count_where_filter: "count_where p (filter q xs) = count_where (\<lambda>x. q x \<and> p x) xs"
  by (simp add: count_where_def)

end
