(* ===== verification/Protocol.thy ===== *)
theory Protocol
  imports Prelude
begin

text \<open>
  The language-neutral contracts of \<open>packages/protocol/src\<close>: opaque identifiers
  and visibility (\<open>common/schemas.ts\<close>), content parts (\<open>chat/content.ts\<close>),
  connector and conversation events (\<open>chat/events.ts\<close>), the public resources
  (\<open>chat/resources.ts\<close>), connector requests (\<open>chat/connector.ts\<close>) and the
  context checks of \<open>chat/policy.ts\<close> and \<open>identity/policy.ts\<close>.

  A TypeBox schema is modelled by a datatype or record for its shape and a
  Boolean predicate \<open>*_ok\<close> for its patterns, lengths and cross-field rules. Whether
  a string is a URL in the sense of the host's \<open>URL\<close> class is the parameter
  \<open>uri\<close> of the predicates that use \<open>format: 'uri'\<close>. Timestamps, which the wire
  carries as ISO strings, are kept as the millisecond value they denote.
\<close>

subsection \<open>Common schemas\<close>

definition code_unit :: "char \<Rightarrow> nat" where
  "code_unit c = of_char c"

definition is_digit :: "char \<Rightarrow> bool" where
  "is_digit c \<longleftrightarrow> 48 \<le> code_unit c \<and> code_unit c \<le> 57"

definition is_upper :: "char \<Rightarrow> bool" where
  "is_upper c \<longleftrightarrow> 65 \<le> code_unit c \<and> code_unit c \<le> 90"

definition is_lower :: "char \<Rightarrow> bool" where
  "is_lower c \<longleftrightarrow> 97 \<le> code_unit c \<and> code_unit c \<le> 122"

definition is_alnum :: "char \<Rightarrow> bool" where
  "is_alnum c \<longleftrightarrow> is_upper c \<or> is_lower c \<or> is_digit c"

definition opaque_tail_char :: "char \<Rightarrow> bool" where
  "opaque_tail_char c \<longleftrightarrow> is_alnum c \<or> c \<in> set ''._~-''"

text \<open>\<open>^[A-Za-z0-9][A-Za-z0-9._~-]{0,127}$\<close>\<close>

definition opaque_id :: "string \<Rightarrow> bool" where
  "opaque_id s \<longleftrightarrow>
     (case s of [] \<Rightarrow> False
      | c # cs \<Rightarrow> is_alnum c \<and> list_all opaque_tail_char cs \<and> length cs \<le> 127)"

text \<open>\<open>^[A-Z][A-Z0-9_]*$\<close>\<close>

definition upper_code :: "string \<Rightarrow> bool" where
  "upper_code s \<longleftrightarrow>
     (case s of [] \<Rightarrow> False
      | c # cs \<Rightarrow> is_upper c \<and> list_all (\<lambda>d. is_upper d \<or> is_digit d \<or> d = CHR ''_'') cs)"

definition len_between :: "nat \<Rightarrow> nat \<Rightarrow> string \<Rightarrow> bool" where
  "len_between lo hi s \<longleftrightarrow> lo \<le> length s \<and> length s \<le> hi"

fun opt_ok :: "('a \<Rightarrow> bool) \<Rightarrow> 'a option \<Rightarrow> bool" where
  "opt_ok p None = True"
| "opt_ok p (Some x) = p x"

definition max_safe_integer :: int where
  "max_safe_integer = 9007199254740991"

datatype visibility = Public | Operator | Internal

subsection \<open>Content parts\<close>

record citation =
  cit_citationId :: ident
  cit_sourceId :: ident
  cit_title :: "string option"
  cit_url :: "string option"
  cit_excerpt :: "string option"

datatype tool_status = Tool_started | Tool_completed | Tool_failed

datatype input_part_status = Part_pending | Part_submitted | Part_declined

datatype content_part =
    TextPart string
  | CitationPart citation
  | FileReferencePart ident string "string option" "string option"
  | ToolStatusPart ident string tool_status
  | StructuredInputPart ident string bool input_part_status

definition https_url_ok :: "(string \<Rightarrow> bool) \<Rightarrow> string \<Rightarrow> bool" where
  "https_url_ok uri s \<longleftrightarrow> uri s \<and> take 8 s = ''https://'' \<and> length s \<le> 2048"

definition citation_ok :: "(string \<Rightarrow> bool) \<Rightarrow> citation \<Rightarrow> bool" where
  "citation_ok uri c \<longleftrightarrow>
     opaque_id (cit_citationId c) \<and> opaque_id (cit_sourceId c)
     \<and> opt_ok (len_between 1 500) (cit_title c)
     \<and> opt_ok (https_url_ok uri) (cit_url c)
     \<and> opt_ok (len_between 0 2000) (cit_excerpt c)"

fun content_part_ok :: "(string \<Rightarrow> bool) \<Rightarrow> content_part \<Rightarrow> bool" where
  "content_part_ok uri (TextPart t) = len_between 1 100000 t"
| "content_part_ok uri (CitationPart c) = citation_ok uri c"
| "content_part_ok uri (FileReferencePart fileId name mediaType url) =
     (opaque_id fileId \<and> len_between 1 500 name
      \<and> opt_ok (len_between 1 200) mediaType \<and> opt_ok (https_url_ok uri) url)"
| "content_part_ok uri (ToolStatusPart toolCallId label status) =
     (opaque_id toolCallId \<and> len_between 1 200 label)"
| "content_part_ok uri (StructuredInputPart requestId label required status) =
     (opaque_id requestId \<and> len_between 1 200 label)"

subsection \<open>Events\<close>

record contact_request =
  cr_requestId :: ident
  cr_prompt :: string
  cr_required :: bool

datatype event_data =
    RunStarted ident
  | RunCompleted
  | RunFailed string
  | MessageStarted
  | MessageDelta string
  | MessageCompleted "content_part list"
  | ToolStarted ident string
  | ToolCompleted ident
  | ToolFailed ident
  | CitationAdded citation
  | ContactRequested contact_request
  | HandoffRequested ident
  | HandoffCompleted ident
  | SyncRequired

fun event_type :: "event_data \<Rightarrow> string" where
  "event_type (RunStarted _) = ''run.started''"
| "event_type RunCompleted = ''run.completed''"
| "event_type (RunFailed _) = ''run.failed''"
| "event_type MessageStarted = ''message.started''"
| "event_type (MessageDelta _) = ''message.delta''"
| "event_type (MessageCompleted _) = ''message.completed''"
| "event_type (ToolStarted _ _) = ''tool.started''"
| "event_type (ToolCompleted _) = ''tool.completed''"
| "event_type (ToolFailed _) = ''tool.failed''"
| "event_type (CitationAdded _) = ''citation.added''"
| "event_type (ContactRequested _) = ''contact.requested''"
| "event_type (HandoffRequested _) = ''handoff.requested''"
| "event_type (HandoffCompleted _) = ''handoff.completed''"
| "event_type SyncRequired = ''sync.required''"

fun requires_message_id :: "event_data \<Rightarrow> bool" where
  "requires_message_id MessageStarted = True"
| "requires_message_id (MessageDelta _) = True"
| "requires_message_id (MessageCompleted _) = True"
| "requires_message_id (ToolStarted _ _) = True"
| "requires_message_id (ToolCompleted _) = True"
| "requires_message_id (ToolFailed _) = True"
| "requires_message_id (CitationAdded _) = True"
| "requires_message_id _ = False"

fun event_data_ok :: "(string \<Rightarrow> bool) \<Rightarrow> event_data \<Rightarrow> bool" where
  "event_data_ok uri (RunStarted agentRef) = opaque_id agentRef"
| "event_data_ok uri RunCompleted = True"
| "event_data_ok uri (RunFailed code) = (upper_code code \<and> length code \<le> 64)"
| "event_data_ok uri MessageStarted = True"
| "event_data_ok uri (MessageDelta delta) = len_between 1 20000 delta"
| "event_data_ok uri (MessageCompleted parts) =
     (1 \<le> length parts \<and> list_all (content_part_ok uri) parts)"
| "event_data_ok uri (ToolStarted toolCallId label) =
     (opaque_id toolCallId \<and> len_between 1 200 label)"
| "event_data_ok uri (ToolCompleted toolCallId) = opaque_id toolCallId"
| "event_data_ok uri (ToolFailed toolCallId) = opaque_id toolCallId"
| "event_data_ok uri (CitationAdded c) = citation_ok uri c"
| "event_data_ok uri (ContactRequested r) =
     (opaque_id (cr_requestId r) \<and> len_between 1 500 (cr_prompt r))"
| "event_data_ok uri (HandoffRequested handoffId) = opaque_id handoffId"
| "event_data_ok uri (HandoffCompleted handoffId) = opaque_id handoffId"
| "event_data_ok uri SyncRequired = True"

text \<open>An event as a connector emits it; \<open>ce_messageId\<close> is \<open>None\<close> when the key is absent.\<close>

record connector_event =
  ce_visibility :: visibility
  ce_conversationId :: ident
  ce_runId :: ident
  ce_messageId :: "ident option"
  ce_data :: event_data

definition connector_event_ok :: "(string \<Rightarrow> bool) \<Rightarrow> connector_event \<Rightarrow> bool" where
  "connector_event_ok uri e \<longleftrightarrow>
     ce_data e \<noteq> SyncRequired
     \<and> opaque_id (ce_conversationId e) \<and> opaque_id (ce_runId e)
     \<and> (if requires_message_id (ce_data e)
         then (case ce_messageId e of None \<Rightarrow> False | Some m \<Rightarrow> opaque_id m)
         else ce_messageId e = None)
     \<and> event_data_ok uri (ce_data e)"

text \<open>An event as it is stored, replayed and streamed (\<open>ConversationEvent\<close>).\<close>

record conversation_event =
  ev_eventId :: ident
  ev_sequence :: int
  ev_occurredAt :: js_date
  ev_visibility :: visibility
  ev_conversationId :: ident
  ev_runId :: "ident option"
  ev_messageId :: "ident option"
  ev_data :: event_data

definition public_event_ok :: "(string \<Rightarrow> bool) \<Rightarrow> conversation_event \<Rightarrow> bool" where
  "public_event_ok uri e \<longleftrightarrow>
     opaque_id (ev_eventId e) \<and> 1 \<le> ev_sequence e \<and> ev_sequence e \<le> max_safe_integer
     \<and> ev_visibility e = Public \<and> opaque_id (ev_conversationId e)
     \<and> (if ev_data e = SyncRequired
         then opt_ok opaque_id (ev_runId e) \<and> opt_ok opaque_id (ev_messageId e)
         else (case ev_runId e of None \<Rightarrow> False | Some r \<Rightarrow> opaque_id r)
              \<and> (if requires_message_id (ev_data e)
                  then (case ev_messageId e of None \<Rightarrow> False | Some m \<Rightarrow> opaque_id m)
                  else opt_ok opaque_id (ev_messageId e)))
     \<and> event_data_ok uri (ev_data e)"

subsection \<open>Resources\<close>

datatype participant_kind = User | Agent | OtherKind string

record participant =
  pt_participantId :: ident
  pt_kind :: participant_kind
  pt_principalId :: "ident option"
  pt_agentRef :: "ident option"

datatype conversation_status = Conv_active | Conv_completed | Conv_cancelled

record conversation =
  co_conversationId :: ident
  co_tenantId :: ident
  co_siteId :: ident
  co_principalId :: ident
  co_agentRef :: ident
  co_status :: conversation_status
  co_participants :: "participant list"
  co_createdAt :: js_date
  co_updatedAt :: js_date

datatype message_role = Role_user | Role_assistant | Role_system

datatype message_status =
    Msg_pending | Msg_streaming | Msg_completed | Msg_failed | Msg_cancelled

record message =
  ms_messageId :: ident
  ms_conversationId :: ident
  ms_sequence :: int
  ms_participantId :: ident
  ms_role :: message_role
  ms_status :: message_status
  ms_parts :: "content_part list"
  ms_createdAt :: js_date
  ms_completedAt :: "js_date option"

fun participant_ok :: "participant \<Rightarrow> bool" where
  "participant_ok p =
     (opaque_id (pt_participantId p)
      \<and> (case pt_kind p of
            User \<Rightarrow> opt_ok opaque_id (pt_principalId p) \<and> pt_principalId p \<noteq> None \<and> pt_agentRef p = None
          | Agent \<Rightarrow> opt_ok opaque_id (pt_agentRef p) \<and> pt_agentRef p \<noteq> None \<and> pt_principalId p = None
          | OtherKind k \<Rightarrow> (case k of [] \<Rightarrow> False
              | c # cs \<Rightarrow> is_lower c \<and> list_all (\<lambda>d. is_lower d \<or> is_digit d \<or> d = CHR ''_'') cs)
                \<and> length k \<le> 64 \<and> k \<noteq> ''user'' \<and> k \<noteq> ''agent''
                \<and> opt_ok opaque_id (pt_principalId p) \<and> opt_ok opaque_id (pt_agentRef p)))"

definition conversation_ok :: "conversation \<Rightarrow> bool" where
  "conversation_ok c \<longleftrightarrow>
     opaque_id (co_conversationId c) \<and> opaque_id (co_tenantId c) \<and> opaque_id (co_siteId c)
     \<and> opaque_id (co_principalId c) \<and> opaque_id (co_agentRef c)
     \<and> list_all participant_ok (co_participants c)
     \<and> 2 \<le> length (co_participants c)
     \<and> count_where (\<lambda>p. pt_kind p = User) (co_participants c) = 1
     \<and> count_where (\<lambda>p. pt_kind p = Agent) (co_participants c) = 1"

definition message_ok :: "(string \<Rightarrow> bool) \<Rightarrow> message \<Rightarrow> bool" where
  "message_ok uri m \<longleftrightarrow>
     opaque_id (ms_messageId m) \<and> opaque_id (ms_conversationId m)
     \<and> 1 \<le> ms_sequence m \<and> ms_sequence m \<le> max_safe_integer
     \<and> opaque_id (ms_participantId m)
     \<and> list_all (content_part_ok uri) (ms_parts m)
     \<and> (ms_status m = Msg_completed \<longrightarrow> ms_completedAt m \<noteq> None \<and> ms_parts m \<noteq> [])
     \<and> (ms_status m = Msg_pending \<or> ms_status m = Msg_streaming \<longrightarrow> ms_completedAt m = None)"

subsection \<open>Connector requests\<close>

datatype input_purpose = Purpose_handoff_email_delivery | Purpose_agent_email_handoff

datatype input_decision =
    Resolved_submitted string js_date
  | Resolved_declined js_date

record input_resolution =
  ir_requestId :: ident
  ir_purpose :: input_purpose
  ir_decision :: input_decision

datatype trigger_type = Trigger_message | Trigger_agent_email_handoff

record connector_run_request =
  rq_runId :: ident
  rq_conversationId :: ident
  rq_agentRef :: ident
  rq_triggerType :: trigger_type
  rq_currentMessage :: message
  rq_userParticipantId :: ident
  rq_history :: "message list"
  rq_principalId :: ident
  rq_resolvedInputs :: "input_resolution list"
  rq_trustedMetadata :: "(string \<times> string) list"

subsection \<open>Context checks\<close>

record run_context =
  rc_conversationId :: ident
  rc_runId :: ident
  rc_agentRef :: ident
  rc_userParticipantId :: ident
  rc_currentMessageId :: ident

record event_context =
  ec_conversationId :: ident
  ec_runId :: ident
  ec_assistantMessageId :: ident

definition validateConnectorRunRequestContext ::
  "connector_run_request \<Rightarrow> run_context \<Rightarrow> bool" where
  "validateConnectorRunRequestContext request expected \<longleftrightarrow>
     rq_conversationId request = rc_conversationId expected
     \<and> rq_runId request = rc_runId expected
     \<and> rq_agentRef request = rc_agentRef expected
     \<and> rq_userParticipantId request = rc_userParticipantId expected
     \<and> ms_messageId (rq_currentMessage request) = rc_currentMessageId expected
     \<and> ms_conversationId (rq_currentMessage request) = rc_conversationId expected
     \<and> ms_participantId (rq_currentMessage request) = rc_userParticipantId expected
     \<and> list_ex (\<lambda>m. ms_messageId m = rc_currentMessageId expected) (rq_history request)
     \<and> list_all (\<lambda>m. ms_conversationId m = rc_conversationId expected) (rq_history request)"

definition validateConnectorEventContext :: "connector_event \<Rightarrow> event_context \<Rightarrow> bool" where
  "validateConnectorEventContext event expected \<longleftrightarrow>
     ce_conversationId event = ec_conversationId expected
     \<and> ce_runId event = ec_runId expected
     \<and> (case ce_messageId event of None \<Rightarrow> True | Some m \<Rightarrow> m = ec_assistantMessageId expected)"

definition validateConversationParticipantContext :: "conversation \<Rightarrow> bool" where
  "validateConversationParticipantContext c \<longleftrightarrow>
     (let user = find (\<lambda>p. pt_kind p = User) (co_participants c);
          agent = find (\<lambda>p. pt_kind p = Agent) (co_participants c)
      in distinct (map pt_participantId (co_participants c))
         \<and> Option.bind user pt_principalId = Some (co_principalId c)
         \<and> Option.bind agent pt_agentRef = Some (co_agentRef c))"

definition validateMessageAttribution :: "message \<Rightarrow> conversation \<Rightarrow> bool" where
  "validateMessageAttribution m c =
     (case find (\<lambda>p. pt_participantId p = ms_participantId m) (co_participants c) of
        None \<Rightarrow> False
      | Some p \<Rightarrow>
          (ms_role m = Role_user \<and> pt_kind p = User)
          \<or> (ms_role m = Role_assistant \<and> pt_kind p = Agent)
          \<or> (ms_role m = Role_system \<and> pt_kind p = OtherKind ''system''))"

text \<open>
  An identity assertion's times are texts on the wire; \<open>Date.parse\<close> of each is
  \<open>None\<close> when it is not a date (\<open>NaN\<close>).
\<close>

record identity_assertion =
  ia_audience :: string
  ia_tenantId :: ident
  ia_siteId :: ident
  ia_issuedAt :: "js_date option"
  ia_expiresAt :: "js_date option"

record assertion_context =
  ac_audience :: string
  ac_tenantId :: ident
  ac_siteId :: ident
  ac_now :: js_date

definition validateIdentityAssertionContext ::
  "identity_assertion \<Rightarrow> assertion_context \<Rightarrow> bool" where
  "validateIdentityAssertionContext claims context =
     (case (ia_expiresAt claims, ia_issuedAt claims) of
        (Some expiresAt, Some issuedAt) \<Rightarrow>
          issuedAt \<le> ac_now context \<and> expiresAt > ac_now context
          \<and> ia_audience claims = ac_audience context
          \<and> ia_tenantId claims = ac_tenantId context
          \<and> ia_siteId claims = ac_siteId context
      | _ \<Rightarrow> False)"

end
