(* ===== verification/Schema.thy ===== *)
theory Schema
  imports Protocol
begin

text \<open>
  The PostgreSQL database: one record per table of \<open>apps/server/src/database/types.ts\<close>,
  the whole database as a record of tables, and one insertion per table that checks
  what the migrations declare (primary keys, unique constraints, foreign keys, check
  constraints, column widths). A violated constraint is an exception of the driver,
  so an insertion returns \<open>Inl Unexpected\<close> and the surrounding transaction rolls back.

  A \<open>Generated\<close> column with a default is filled by the caller, who writes out the
  default (\<open>current_timestamp\<close> is the argument \<open>clock\<close> of the services). An
  \<open>integer\<close> column holds at most \<open>int4_max\<close>.
\<close>

subsection \<open>Rows\<close>

record tenant_row =
  t_tenant_id :: ident
  t_display_name :: string
  t_created_at :: pg_time

record site_row =
  s_site_id :: ident
  s_tenant_id :: ident
  s_site_key :: ident
  s_display_name :: string
  s_allowed_origins :: "string list"
  s_agent_ref :: ident
  s_created_at :: pg_time

record agent_alias =
  al_alias :: ident
  al_label :: string
  al_agentRef :: ident
  al_emailHandoff :: bool

record widget_row =
  w_widget_id :: ident
  w_tenant_id :: ident
  w_site_id :: ident
  w_widget_key :: ident
  w_display_name :: string
  w_version :: ident
  w_theme :: ident
  w_launcher :: ident
  w_placement :: ident
  w_default_agent_alias :: ident
  w_agent_aliases :: "agent_alias list"
  w_created_at :: pg_time
  w_updated_at :: pg_time

text \<open>The check constraint \<open>kind = 'anonymous'\<close> leaves one principal kind.\<close>

record principal_row =
  pr_principal_id :: ident
  pr_tenant_id :: ident
  pr_site_id :: ident
  pr_browser_identity :: ident
  pr_created_at :: pg_time

record browser_session_row =
  bs_session_id :: ident
  bs_tenant_id :: ident
  bs_site_id :: ident
  bs_principal_id :: ident
  bs_created_at :: pg_time
  bs_expires_at :: pg_time

record bootstrap_key_row =
  bk_site_id :: ident
  bk_idempotency_key :: string
  bk_request_hash :: string
  bk_browser_identity :: ident
  bk_created_at :: pg_time

record conversation_row =
  c_conversation_id :: ident
  c_tenant_id :: ident
  c_site_id :: ident
  c_principal_id :: ident
  c_agent_ref :: ident
  c_status :: conversation_status
  c_next_message_sequence :: int
  c_next_event_sequence :: int
  c_created_at :: pg_time
  c_updated_at :: pg_time

text \<open>The check constraint ties the kind to which of the two references is set.\<close>

datatype participant_ref = User_ref ident | Agent_ref ident

record participant_row =
  cp_participant_id :: ident
  cp_tenant_id :: ident
  cp_site_id :: ident
  cp_conversation_id :: ident
  cp_ref :: participant_ref
  cp_created_at :: pg_time

record message_row =
  m_message_id :: ident
  m_tenant_id :: ident
  m_site_id :: ident
  m_conversation_id :: ident
  m_sequence :: int
  m_participant_id :: ident
  m_role :: message_role
  m_status :: message_status
  m_parts :: "content_part list"
  m_created_at :: pg_time
  m_completed_at :: "pg_time option"

record command_key_row =
  k_tenant_id :: ident
  k_site_id :: ident
  k_principal_id :: ident
  k_operation :: string
  k_idempotency_key :: string
  k_request_hash :: string
  k_resource_id :: string
  k_created_at :: pg_time

record event_row =
  e_event_id :: ident
  e_tenant_id :: ident
  e_site_id :: ident
  e_conversation_id :: ident
  e_sequence :: int
  e_visibility :: visibility
  e_run_id :: "ident option"
  e_message_id :: "ident option"
  e_data :: event_data
  e_occurred_at :: pg_time

datatype run_status =
    Run_queued
  | Run_running
  | Run_waiting_for_input
  | Run_completed
  | Run_failed
  | Run_cancel_requested
  | Run_cancelled

record run_row =
  r_run_id :: ident
  r_tenant_id :: ident
  r_site_id :: ident
  r_conversation_id :: ident
  r_trigger_message_id :: ident
  r_trigger_type :: trigger_type
  r_assistant_message_id :: ident
  r_agent_ref :: ident
  r_status :: run_status
  r_attempt :: int
  r_available_at :: pg_time
  r_claimed_at :: "pg_time option"
  r_lease_expires_at :: "pg_time option"
  r_cancel_requested_at :: "pg_time option"
  r_error_code :: "string option"
  r_created_at :: pg_time
  r_updated_at :: pg_time
  r_completed_at :: "pg_time option"

datatype handoff_kind = Handoff_human | Handoff_agent_email

datatype handoff_status =
    Handoff_requested
  | Handoff_awaiting_contact
  | Handoff_delivering
  | Handoff_completed
  | Handoff_failed

record handoff_row =
  h_handoff_id :: ident
  h_tenant_id :: ident
  h_site_id :: ident
  h_conversation_id :: ident
  h_run_id :: ident
  h_kind :: handoff_kind
  h_status :: handoff_status
  h_created_at :: pg_time
  h_updated_at :: pg_time

datatype input_status = Input_pending | Input_submitted | Input_declined | Input_expired

datatype consent_status = Consent_granted | Consent_declined

record input_row =
  i_request_id :: ident
  i_tenant_id :: ident
  i_site_id :: ident
  i_conversation_id :: ident
  i_run_id :: ident
  i_purpose :: input_purpose
  i_prompt :: string
  i_required :: bool
  i_status :: input_status
  i_value :: "string option"
  i_consent_status :: "consent_status option"
  i_consent_recorded_at :: "pg_time option"
  i_created_at :: pg_time
  i_updated_at :: pg_time

datatype actor_kind = Actor_anonymous | Actor_admin | Actor_system

datatype audit_outcome = Outcome_success | Outcome_denied | Outcome_failure

record audit_row =
  a_correlation_id :: ident
  a_actor_kind :: actor_kind
  a_actor_id :: "ident option"
  a_tenant_id :: "ident option"
  a_site_id :: "ident option"
  a_action :: string
  a_outcome :: audit_outcome
  a_status_code :: int
  a_occurred_at :: pg_time

record db =
  tenants :: "tenant_row list"
  sites :: "site_row list"
  site_widgets :: "widget_row list"
  principals :: "principal_row list"
  browser_sessions :: "browser_session_row list"
  session_bootstrap_idempotency :: "bootstrap_key_row list"
  conversations :: "conversation_row list"
  conversation_participants :: "participant_row list"
  messages :: "message_row list"
  command_idempotency :: "command_key_row list"
  conversation_events :: "event_row list"
  agent_runs :: "run_row list"
  handoffs :: "handoff_row list"
  structured_input_requests :: "input_row list"
  audit_events :: "audit_row list"

definition empty_db :: db where
  "empty_db = \<lparr>tenants = [], sites = [], site_widgets = [], principals = [],
     browser_sessions = [], session_bootstrap_idempotency = [], conversations = [],
     conversation_participants = [], messages = [], command_idempotency = [],
     conversation_events = [], agent_runs = [], handoffs = [],
     structured_input_requests = [], audit_events = []\<rparr>"

subsection \<open>Constraints\<close>

definition int4_max :: int where
  "int4_max = 2147483647"

definition fits :: "nat \<Rightarrow> string \<Rightarrow> bool" where
  "fits n s \<longleftrightarrow> length s \<le> n"

text \<open>Scope keys: the composite foreign keys of the migrations.\<close>

definition site_exists :: "db \<Rightarrow> ident \<Rightarrow> ident \<Rightarrow> bool" where
  "site_exists d tenant site \<longleftrightarrow>
     exists_row (\<lambda>s. s_tenant_id s = tenant \<and> s_site_id s = site) (sites d)"

definition principal_exists :: "db \<Rightarrow> ident \<Rightarrow> ident \<Rightarrow> ident \<Rightarrow> bool" where
  "principal_exists d tenant site prin \<longleftrightarrow>
     exists_row (\<lambda>p. pr_tenant_id p = tenant \<and> pr_site_id p = site \<and> pr_principal_id p = prin)
       (principals d)"

definition conversation_exists :: "db \<Rightarrow> ident \<Rightarrow> ident \<Rightarrow> ident \<Rightarrow> bool" where
  "conversation_exists d tenant site conversation \<longleftrightarrow>
     exists_row (\<lambda>c. c_tenant_id c = tenant \<and> c_site_id c = site \<and> c_conversation_id c = conversation)
       (conversations d)"

definition participant_exists :: "db \<Rightarrow> ident \<Rightarrow> ident \<Rightarrow> ident \<Rightarrow> ident \<Rightarrow> bool" where
  "participant_exists d tenant site conversation participant \<longleftrightarrow>
     exists_row (\<lambda>p. cp_tenant_id p = tenant \<and> cp_site_id p = site
         \<and> cp_conversation_id p = conversation \<and> cp_participant_id p = participant)
       (conversation_participants d)"

definition run_exists :: "db \<Rightarrow> ident \<Rightarrow> bool" where
  "run_exists d run \<longleftrightarrow> exists_row (\<lambda>r. r_run_id r = run) (agent_runs d)"

definition message_exists :: "db \<Rightarrow> ident \<Rightarrow> bool" where
  "message_exists d message \<longleftrightarrow> exists_row (\<lambda>m. m_message_id m = message) (messages d)"

definition input_resolution_check :: "input_row \<Rightarrow> bool" where
  "input_resolution_check i \<longleftrightarrow>
     (i_status i = Input_pending \<and> i_value i = None \<and> i_consent_status i = None
        \<and> i_consent_recorded_at i = None)
     \<or> (i_status i = Input_submitted \<and> i_value i \<noteq> None \<and> i_consent_status i = Some Consent_granted
        \<and> i_consent_recorded_at i \<noteq> None)
     \<or> (i_status i = Input_declined \<and> i_value i = None \<and> i_consent_status i = Some Consent_declined
        \<and> i_consent_recorded_at i \<noteq> None)
     \<or> i_status i = Input_expired"

subsection \<open>Insertions\<close>

definition insert_principal :: "principal_row \<Rightarrow> db \<Rightarrow> failure + db" where
  "insert_principal p d =
     (if exists_row (\<lambda>q. pr_principal_id q = pr_principal_id p) (principals d)
         \<or> exists_row (\<lambda>q. pr_tenant_id q = pr_tenant_id p \<and> pr_site_id q = pr_site_id p
              \<and> pr_browser_identity q = pr_browser_identity p) (principals d)
         \<or> \<not> site_exists d (pr_tenant_id p) (pr_site_id p)
         \<or> \<not> fits 128 (pr_principal_id p) \<or> \<not> fits 128 (pr_browser_identity p)
      then Inl Unexpected
      else Inr (d\<lparr>principals := principals d @ [p]\<rparr>))"

definition insert_browser_session :: "browser_session_row \<Rightarrow> db \<Rightarrow> failure + db" where
  "insert_browser_session b d =
     (if exists_row (\<lambda>q. bs_session_id q = bs_session_id b) (browser_sessions d)
         \<or> exists_row (\<lambda>q. bs_tenant_id q = bs_tenant_id b \<and> bs_site_id q = bs_site_id b
              \<and> bs_principal_id q = bs_principal_id b) (browser_sessions d)
         \<or> \<not> principal_exists d (bs_tenant_id b) (bs_site_id b) (bs_principal_id b)
         \<or> \<not> fits 128 (bs_session_id b)
      then Inl Unexpected
      else Inr (d\<lparr>browser_sessions := browser_sessions d @ [b]\<rparr>))"

definition insert_bootstrap_key :: "bootstrap_key_row \<Rightarrow> db \<Rightarrow> failure + db" where
  "insert_bootstrap_key b d =
     (if exists_row (\<lambda>q. bk_site_id q = bk_site_id b
              \<and> bk_idempotency_key q = bk_idempotency_key b) (session_bootstrap_idempotency d)
         \<or> \<not> exists_row (\<lambda>s. s_site_id s = bk_site_id b) (sites d)
         \<or> \<not> fits 255 (bk_idempotency_key b) \<or> \<not> fits 64 (bk_request_hash b)
         \<or> \<not> fits 128 (bk_browser_identity b)
      then Inl Unexpected
      else Inr (d\<lparr>session_bootstrap_idempotency := session_bootstrap_idempotency d @ [b]\<rparr>))"

definition insert_conversation :: "conversation_row \<Rightarrow> db \<Rightarrow> failure + db" where
  "insert_conversation c d =
     (if exists_row (\<lambda>q. c_conversation_id q = c_conversation_id c) (conversations d)
         \<or> \<not> principal_exists d (c_tenant_id c) (c_site_id c) (c_principal_id c)
         \<or> \<not> fits 128 (c_conversation_id c) \<or> \<not> fits 128 (c_agent_ref c)
      then Inl Unexpected
      else Inr (d\<lparr>conversations := conversations d @ [c]\<rparr>))"

fun participant_is_user :: "participant_ref \<Rightarrow> bool" where
  "participant_is_user (User_ref _) = True"
| "participant_is_user (Agent_ref _) = False"

definition insert_participant :: "participant_row \<Rightarrow> db \<Rightarrow> failure + db" where
  "insert_participant p d =
     (if exists_row (\<lambda>q. cp_participant_id q = cp_participant_id p) (conversation_participants d)
         \<or> exists_row (\<lambda>q. cp_conversation_id q = cp_conversation_id p
              \<and> participant_is_user (cp_ref q) = participant_is_user (cp_ref p))
              (conversation_participants d)
         \<or> \<not> conversation_exists d (cp_tenant_id p) (cp_site_id p) (cp_conversation_id p)
         \<or> \<not> fits 128 (cp_participant_id p)
      then Inl Unexpected
      else Inr (d\<lparr>conversation_participants := conversation_participants d @ [p]\<rparr>))"

definition insert_message :: "message_row \<Rightarrow> db \<Rightarrow> failure + db" where
  "insert_message m d =
     (if exists_row (\<lambda>q. m_message_id q = m_message_id m) (messages d)
         \<or> exists_row (\<lambda>q. m_conversation_id q = m_conversation_id m
              \<and> m_sequence q = m_sequence m) (messages d)
         \<or> \<not> participant_exists d (m_tenant_id m) (m_site_id m) (m_conversation_id m)
              (m_participant_id m)
         \<or> m_sequence m < 1 \<or> m_sequence m > int4_max
         \<or> \<not> fits 128 (m_message_id m)
      then Inl Unexpected
      else Inr (d\<lparr>messages := messages d @ [m]\<rparr>))"

definition insert_command_key :: "command_key_row \<Rightarrow> db \<Rightarrow> failure + db" where
  "insert_command_key k d =
     (if exists_row (\<lambda>q. k_tenant_id q = k_tenant_id k \<and> k_site_id q = k_site_id k
              \<and> k_principal_id q = k_principal_id k \<and> k_operation q = k_operation k
              \<and> k_idempotency_key q = k_idempotency_key k) (command_idempotency d)
         \<or> \<not> fits 200 (k_operation k) \<or> \<not> fits 255 (k_idempotency_key k)
         \<or> \<not> fits 64 (k_request_hash k) \<or> \<not> fits 128 (k_resource_id k)
      then Inl Unexpected
      else Inr (d\<lparr>command_idempotency := command_idempotency d @ [k]\<rparr>))"

definition insert_event :: "event_row \<Rightarrow> db \<Rightarrow> failure + db" where
  "insert_event e d =
     (if exists_row (\<lambda>q. e_event_id q = e_event_id e) (conversation_events d)
         \<or> exists_row (\<lambda>q. e_conversation_id q = e_conversation_id e
              \<and> e_sequence q = e_sequence e) (conversation_events d)
         \<or> \<not> conversation_exists d (e_tenant_id e) (e_site_id e) (e_conversation_id e)
         \<or> e_sequence e < 1 \<or> e_sequence e > int4_max
         \<or> \<not> fits 128 (e_event_id e)
         \<or> \<not> opt_ok (fits 128) (e_run_id e) \<or> \<not> opt_ok (fits 128) (e_message_id e)
      then Inl Unexpected
      else Inr (d\<lparr>conversation_events := conversation_events d @ [e]\<rparr>))"

definition insert_run :: "run_row \<Rightarrow> db \<Rightarrow> failure + db" where
  "insert_run r d =
     (if exists_row (\<lambda>q. r_run_id q = r_run_id r) (agent_runs d)
         \<or> exists_row (\<lambda>q. r_assistant_message_id q = r_assistant_message_id r) (agent_runs d)
         \<or> \<not> conversation_exists d (r_tenant_id r) (r_site_id r) (r_conversation_id r)
         \<or> \<not> message_exists d (r_trigger_message_id r)
         \<or> r_attempt r < 0
         \<or> \<not> fits 128 (r_run_id r) \<or> \<not> fits 128 (r_assistant_message_id r)
         \<or> \<not> fits 128 (r_agent_ref r) \<or> \<not> opt_ok (fits 64) (r_error_code r)
      then Inl Unexpected
      else Inr (d\<lparr>agent_runs := agent_runs d @ [r]\<rparr>))"

definition insert_handoff :: "handoff_row \<Rightarrow> db \<Rightarrow> failure + db" where
  "insert_handoff h d =
     (if exists_row (\<lambda>q. h_handoff_id q = h_handoff_id h) (handoffs d)
         \<or> exists_row (\<lambda>q. h_run_id q = h_run_id h) (handoffs d)
         \<or> \<not> run_exists d (h_run_id h)
         \<or> \<not> fits 128 (h_handoff_id h)
      then Inl Unexpected
      else Inr (d\<lparr>handoffs := handoffs d @ [h]\<rparr>))"

definition insert_input :: "input_row \<Rightarrow> db \<Rightarrow> failure + db" where
  "insert_input i d =
     (if exists_row (\<lambda>q. i_request_id q = i_request_id i) (structured_input_requests d)
         \<or> \<not> run_exists d (i_run_id i)
         \<or> \<not> input_resolution_check i
         \<or> \<not> fits 128 (i_request_id i) \<or> \<not> fits 500 (i_prompt i) \<or> \<not> opt_ok (fits 320) (i_value i)
      then Inl Unexpected
      else Inr (d\<lparr>structured_input_requests := structured_input_requests d @ [i]\<rparr>))"

definition insert_audit_event :: "audit_row \<Rightarrow> db \<Rightarrow> failure + db" where
  "insert_audit_event a d =
     (if \<not> fits 128 (a_correlation_id a) \<or> \<not> opt_ok (fits 128) (a_actor_id a)
         \<or> \<not> opt_ok (fits 128) (a_tenant_id a) \<or> \<not> opt_ok (fits 128) (a_site_id a)
         \<or> \<not> fits 200 (a_action a)
      then Inl Unexpected
      else Inr (d\<lparr>audit_events := audit_events d @ [a]\<rparr>))"

end
