(* ===== verification/Command.thy ===== *)
theory Command
  imports Schema
begin

text \<open>
  What the command services share: the authorised scope of a request, and the
  idempotency key that each of them looks up before and records after its work
  (\<open>conversation/service.ts\<close>, \<open>message/service.ts\<close>, \<open>run/service.ts\<close>,
  \<open>structured-input/service.ts\<close>, \<open>email-handoff/service.ts\<close>).

  A service runs its command inside one database transaction: a function from the
  database to a failure (rolled back) or to a result and the new database. The
  advisory lock on the key serialises the transactions of one key, so each command
  is one atomic step here.

  The locale \<open>idempotent_command\<close> is the contract of such a command and
  \<open>hash_checked_command\<close> the stronger one of a command that also compares the request
  hash. Both are interpreted on every service that promises them.
\<close>

record scope =
  sc_tenantId :: ident
  sc_siteId :: ident
  sc_principalId :: ident

record conversation_scope = scope +
  sc_agentRef :: ident

subsection \<open>Idempotency keys\<close>

definition findIdempotency ::
  "'a scope_scheme \<Rightarrow> string \<Rightarrow> string \<Rightarrow> db \<Rightarrow> command_key_row option" where
  "findIdempotency scope operation key d =
     find (\<lambda>k. k_tenant_id k = sc_tenantId scope \<and> k_site_id k = sc_siteId scope
         \<and> k_principal_id k = sc_principalId scope \<and> k_operation k = operation
         \<and> k_idempotency_key k = key) (command_idempotency d)"

definition key_row ::
  "'a scope_scheme \<Rightarrow> string \<Rightarrow> string \<Rightarrow> string \<Rightarrow> string \<Rightarrow> pg_time \<Rightarrow> command_key_row" where
  "key_row scope operation key requestHash resourceId clock =
     \<lparr>k_tenant_id = sc_tenantId scope, k_site_id = sc_siteId scope,
      k_principal_id = sc_principalId scope, k_operation = operation,
      k_idempotency_key = key, k_request_hash = requestHash,
      k_resource_id = resourceId, k_created_at = clock\<rparr>"

text \<open>The advisory lock's text; two commands with the same text run one after the other.\<close>

definition lockKey :: "'a scope_scheme \<Rightarrow> string \<Rightarrow> string \<Rightarrow> string" where
  "lockKey scope operation key =
     sc_tenantId scope @ '':'' @ sc_siteId scope @ '':'' @ sc_principalId scope @ '':''
       @ operation @ '':'' @ key"

lemma key_row_sel [simp]:
  "k_tenant_id (key_row s op k h r t) = sc_tenantId s"
  "k_site_id (key_row s op k h r t) = sc_siteId s"
  "k_principal_id (key_row s op k h r t) = sc_principalId s"
  "k_operation (key_row s op k h r t) = op"
  "k_idempotency_key (key_row s op k h r t) = k"
  "k_request_hash (key_row s op k h r t) = h"
  "k_resource_id (key_row s op k h r t) = r"
  by (simp_all add: key_row_def)

lemma findIdempotency_cong:
  "command_idempotency d = command_idempotency d' \<Longrightarrow>
   findIdempotency s op k d = findIdempotency s op k d'"
  by (simp add: findIdempotency_def)

lemma findIdempotency_snoc:
  "command_idempotency d' = command_idempotency d @ [row] \<Longrightarrow>
   findIdempotency s op k d' =
     (case findIdempotency s op k d of
        Some r \<Rightarrow> Some r
      | None \<Rightarrow>
          if k_tenant_id row = sc_tenantId s \<and> k_site_id row = sc_siteId s
             \<and> k_principal_id row = sc_principalId s \<and> k_operation row = op
             \<and> k_idempotency_key row = k
          then Some row else None)"
  by (simp add: findIdempotency_def find_append split: option.split)

lemma findIdempotency_recorded:
  "findIdempotency s op k d = None \<Longrightarrow>
   command_idempotency d' = command_idempotency d @ [key_row s op k h r t] \<Longrightarrow>
   findIdempotency s op k d' = Some (key_row s op k h r t)"
  by (simp add: findIdempotency_snoc)

lemma findIdempotency_kept:
  "findIdempotency s op k d = Some row \<Longrightarrow>
   command_idempotency d' = command_idempotency d @ rows \<Longrightarrow>
   findIdempotency s op k d' = Some row"
  by (simp add: findIdempotency_def find_append)

subsection \<open>The contract of an idempotent command\<close>

text \<open>A sequence of commands, each committing or rolling back.\<close>

definition commit :: "db \<Rightarrow> failure + ('r \<times> db) \<Rightarrow> db" where
  "commit d result = (case result of Inl _ \<Rightarrow> d | Inr (_, d') \<Rightarrow> d')"

lemma commit_simps [simp]:
  "commit d (Inl e) = d" "commit d (Inr (r, d')) = d'"
  by (simp_all add: commit_def)

fun exec_all :: "('arg \<Rightarrow> db \<Rightarrow> failure + ('res \<times> db)) \<Rightarrow> 'arg list \<Rightarrow> db \<Rightarrow> db" where
  "exec_all exec [] d = d"
| "exec_all exec (a # as) d = exec_all exec as (commit d (exec a d))"

locale idempotent_command =
  fixes exec :: "'arg \<Rightarrow> db \<Rightarrow> failure + ('res \<times> db)"
    and lookup :: "'arg \<Rightarrow> db \<Rightarrow> command_key_row option"
    and request_hash :: "'arg \<Rightarrow> string"
    and outcome :: "'arg \<Rightarrow> string \<Rightarrow> failure + 'res"
    and inv :: "db \<Rightarrow> bool"
  assumes records:
    "inv d \<Longrightarrow> lookup a d = None \<Longrightarrow> exec a d = Inr (r, d') \<Longrightarrow>
     \<exists>row. lookup a d' = Some row \<and> k_request_hash row = request_hash a
       \<and> outcome a (k_resource_id row) = Inr r"
    and replays:
    "lookup a d = Some row \<Longrightarrow> k_request_hash row = request_hash a \<Longrightarrow>
     exec a d = and_then (outcome a (k_resource_id row)) (\<lambda>r. Inr (r, d))"
    and keeps:
    "exec b d = Inr (r, d') \<Longrightarrow> lookup a d = Some row \<Longrightarrow> lookup a d' = Some row"
begin

lemma keeps_all: "lookup a d = Some row \<Longrightarrow> lookup a (exec_all exec as d) = Some row"
proof (induction as arbitrary: d)
  case (Cons b as)
  have "lookup a (commit d (exec b d)) = Some row"
    using Cons.prems by (cases "exec b d") (auto intro: keeps)
  then show ?case by (simp add: Cons.IH)
qed simp

lemma recorded:
  assumes "inv d" and "exec a d = Inr (r, d')"
    and "\<And>row. lookup a d = Some row \<Longrightarrow> k_request_hash row = request_hash a"
  shows "\<exists>row. lookup a d' = Some row \<and> k_request_hash row = request_hash a
       \<and> outcome a (k_resource_id row) = Inr r"
proof (cases "lookup a d")
  case None
  with assms(1,2) show ?thesis by (intro records)
next
  case (Some row)
  with assms have "and_then (outcome a (k_resource_id row)) (\<lambda>r. Inr (r, d)) = Inr (r, d')"
    by (simp add: replays)
  with Some assms(3) show ?thesis by auto
qed

text \<open>
  A repetition \<open>b\<close> of a command (its fresh identifiers and clock may differ), after any
  other commands, returns the first result and changes nothing.
\<close>

theorem retry:
  assumes "inv d" and "exec a d = Inr (r, d')"
    and "\<And>row. lookup a d = Some row \<Longrightarrow> k_request_hash row = request_hash a"
    and "lookup b = lookup a" and "request_hash b = request_hash a" and "outcome b = outcome a"
  shows "exec b (exec_all exec as d') = Inr (r, exec_all exec as d')"
proof -
  obtain row where "lookup a d' = Some row" and "k_request_hash row = request_hash a"
    and "outcome a (k_resource_id row) = Inr r"
    using recorded [OF assms(1-3)] by blast
  then show ?thesis using assms(4-6) replays [of b "exec_all exec as d'" row]
    by (simp add: keeps_all)
qed

end

locale hash_checked_command = idempotent_command exec lookup request_hash outcome inv
  for exec :: "'arg \<Rightarrow> db \<Rightarrow> failure + ('res \<times> db)"
    and lookup :: "'arg \<Rightarrow> db \<Rightarrow> command_key_row option"
    and request_hash :: "'arg \<Rightarrow> string"
    and outcome :: "'arg \<Rightarrow> string \<Rightarrow> failure + 'res"
    and inv :: "db \<Rightarrow> bool" +
  fixes conflict_error :: failure
  assumes rejects:
    "lookup a d = Some row \<Longrightarrow> k_request_hash row \<noteq> request_hash a \<Longrightarrow>
     exec a d = Inl conflict_error"
begin

lemma succeeds_hash:
  "exec a d = Inr (r, d') \<Longrightarrow> lookup a d = Some row \<Longrightarrow> k_request_hash row = request_hash a"
  using rejects by fastforce

theorem exactly_once:
  assumes "inv d" and "exec a d = Inr (r, d')"
    and "lookup b = lookup a" and "request_hash b = request_hash a" and "outcome b = outcome a"
  shows "exec b (exec_all exec as d') = Inr (r, exec_all exec as d')"
  using assms by (intro retry [OF assms(1,2)] succeeds_hash [OF assms(2)]) auto

lemma exactly_once_now:
  assumes "inv d" and "exec a d = Inr (r, d')"
    and "lookup b = lookup a" and "request_hash b = request_hash a" and "outcome b = outcome a"
  shows "exec b d' = Inr (r, d')"
  using exactly_once [OF assms, of "[]"] by simp

text \<open>Another request under a used key is refused for ever.\<close>

theorem conflict:
  assumes "inv d" and "exec a d = Inr (r, d')" and "lookup b = lookup a"
    and "request_hash b \<noteq> request_hash a"
  shows "exec b (exec_all exec as d') = Inl conflict_error"
proof -
  obtain row where "lookup a d' = Some row" and "k_request_hash row = request_hash a"
    using recorded [OF assms(1,2) succeeds_hash [OF assms(2)]] by blast
  then have "lookup b (exec_all exec as d') = Some row" and "k_request_hash row \<noteq> request_hash b"
    using assms(3,4) by (auto simp: keeps_all)
  then show ?thesis by (rule rejects)
qed

end

subsection \<open>Insertions\<close>

lemmas insert_defs = insert_principal_def insert_browser_session_def insert_bootstrap_key_def
  insert_conversation_def insert_participant_def insert_message_def insert_command_key_def
  insert_event_def insert_run_def insert_handoff_def insert_input_def insert_audit_event_def

lemma insert_conversation_Inr:
  "insert_conversation c d = Inr d' \<Longrightarrow> d' = d\<lparr>conversations := conversations d @ [c]\<rparr>"
  by (simp add: insert_conversation_def split: if_splits)

lemma insert_participant_Inr:
  "insert_participant p d = Inr d' \<Longrightarrow>
   d' = d\<lparr>conversation_participants := conversation_participants d @ [p]\<rparr>"
  by (simp add: insert_participant_def split: if_splits)

lemma insert_message_Inr:
  "insert_message m d = Inr d' \<Longrightarrow> d' = d\<lparr>messages := messages d @ [m]\<rparr>"
  by (simp add: insert_message_def split: if_splits)

lemma insert_command_key_Inr:
  "insert_command_key k d = Inr d' \<Longrightarrow> d' = d\<lparr>command_idempotency := command_idempotency d @ [k]\<rparr>"
  by (simp add: insert_command_key_def split: if_splits)

lemma insert_event_Inr:
  "insert_event e d = Inr d' \<Longrightarrow> d' = d\<lparr>conversation_events := conversation_events d @ [e]\<rparr>"
  by (simp add: insert_event_def split: if_splits)

lemma insert_run_Inr:
  "insert_run r d = Inr d' \<Longrightarrow> d' = d\<lparr>agent_runs := agent_runs d @ [r]\<rparr>"
  by (simp add: insert_run_def split: if_splits)

lemma insert_handoff_Inr:
  "insert_handoff h d = Inr d' \<Longrightarrow> d' = d\<lparr>handoffs := handoffs d @ [h]\<rparr>"
  by (simp add: insert_handoff_def split: if_splits)

lemma insert_input_Inr:
  "insert_input i d = Inr d' \<Longrightarrow>
   d' = d\<lparr>structured_input_requests := structured_input_requests d @ [i]\<rparr>"
  by (simp add: insert_input_def split: if_splits)

lemmas insert_Inr = insert_conversation_Inr insert_participant_Inr insert_message_Inr
  insert_command_key_Inr insert_event_Inr insert_run_Inr insert_handoff_Inr insert_input_Inr

subsection \<open>A sample database\<close>

definition sample_scope :: conversation_scope where
  "sample_scope = \<lparr>sc_tenantId = ''t1'', sc_siteId = ''s1'', sc_principalId = ''p1'',
     sc_agentRef = ''agent''\<rparr>"

definition sample_db :: db where
  "sample_db = empty_db
     \<lparr>tenants := [\<lparr>t_tenant_id = ''t1'', t_display_name = ''T'', t_created_at = 0\<rparr>],
      sites := [\<lparr>s_site_id = ''s1'', s_tenant_id = ''t1'', s_site_key = ''key'',
        s_display_name = ''S'', s_allowed_origins = [''https://a''], s_agent_ref = ''agent'',
        s_created_at = 0\<rparr>],
      principals := [\<lparr>pr_principal_id = ''p1'', pr_tenant_id = ''t1'', pr_site_id = ''s1'',
        pr_browser_identity = ''b1'', pr_created_at = 0\<rparr>]\<rparr>"

definition sample_conversation :: "ident \<Rightarrow> pg_time \<Rightarrow> conversation_row" where
  "sample_conversation cid t = \<lparr>c_conversation_id = cid, c_tenant_id = ''t1'', c_site_id = ''s1'',
     c_principal_id = ''p1'', c_agent_ref = ''agent'', c_status = Conv_active,
     c_next_message_sequence = 1, c_next_event_sequence = 1, c_created_at = t, c_updated_at = t\<rparr>"

definition sample_chat :: db where
  "sample_chat = sample_db
     \<lparr>conversations := [sample_conversation ''c1'' 1000],
      conversation_participants :=
        [\<lparr>cp_participant_id = ''u1'', cp_tenant_id = ''t1'', cp_site_id = ''s1'',
          cp_conversation_id = ''c1'', cp_ref = User_ref ''p1'', cp_created_at = 1000\<rparr>,
         \<lparr>cp_participant_id = ''a1'', cp_tenant_id = ''t1'', cp_site_id = ''s1'',
          cp_conversation_id = ''c1'', cp_ref = Agent_ref ''agent'', cp_created_at = 1000\<rparr>]\<rparr>"

lemmas sample_defs = sample_scope_def sample_db_def sample_conversation_def sample_chat_def
  empty_db_def

text \<open>What evaluates an insertion on a concrete database.\<close>

lemmas constraint_defs = insert_defs fits_def site_exists_def principal_exists_def
  conversation_exists_def participant_exists_def run_exists_def message_exists_def

end
