(* ===== verification/Paging.thy ===== *)
theory Paging
  imports Command "HOL-Library.Char_ord" "HOL-Library.List_Lexorder"
begin

text \<open>
  Keyset pagination as the listing operations write it: query \<open>limit + 1\<close> rows after
  the cursor, return the first \<open>limit\<close>, and hand out a cursor made of the last of
  them when there was one more. \<open>page_of\<close> is that tail of every listing.

  \<open>page_key\<close> is the order of the listings over \<open>(created_at, id)\<close>; an identifier is
  compared by its code units (the ids are ASCII, and the database compares them the
  same way in the order and in the cursor's condition).

  The locale \<open>keyset_listing\<close> is the contract between a listing and a client that
  follows its cursors: \<open>follow\<close> collects every page.
\<close>

datatype page_key = Page_key pg_time ident

instantiation page_key :: linorder
begin

definition less_eq_page_key :: "page_key \<Rightarrow> page_key \<Rightarrow> bool" where
  "less_eq_page_key a b =
     (case a of Page_key t i \<Rightarrow> case b of Page_key u j \<Rightarrow> t < u \<or> t = u \<and> i \<le> j)"

definition less_page_key :: "page_key \<Rightarrow> page_key \<Rightarrow> bool" where
  "less_page_key a b =
     (case a of Page_key t i \<Rightarrow> case b of Page_key u j \<Rightarrow> t < u \<or> t = u \<and> i < j)"

instance
  by standard (auto simp: less_eq_page_key_def less_page_key_def split: page_key.splits)

end

lemma Page_key_less [simp]: "Page_key t i < Page_key u j \<longleftrightarrow> t < u \<or> t = u \<and> i < j"
  by (simp add: less_page_key_def)

lemma Page_key_le [simp]: "Page_key t i \<le> Page_key u j \<longleftrightarrow> t < u \<or> t = u \<and> i \<le> j"
  by (simp add: less_eq_page_key_def)

definition page_of :: "nat \<Rightarrow> 'r list \<Rightarrow> 'r list \<times> 'r option" where
  "page_of limit query =
     (let rows = take (limit + 1) query;
          page = take limit rows
      in (page, if length rows > limit \<and> page \<noteq> [] then Some (last page) else None))"

text \<open>A client that follows the cursors, \<open>fuel\<close> pages at most.\<close>

fun follow ::
  "('c option \<Rightarrow> failure + ('r list \<times> 'c option)) \<Rightarrow> nat \<Rightarrow> 'c option \<Rightarrow> failure + 'r list" where
  "follow fetch 0 c = Inl Unexpected"
| "follow fetch (Suc n) c =
     and_then (fetch c) (\<lambda>(page, next).
       (case next of
          None \<Rightarrow> Inr page
        | Some c' \<Rightarrow> and_then (follow fetch n (Some c')) (\<lambda>rest. Inr (page @ rest))))"

lemma page_of_data [simp]: "fst (page_of limit query) = take limit query"
  by (simp add: page_of_def Let_def)

lemma page_of_more:
  assumes "0 < limit" and "limit < length query"
  shows "snd (page_of limit query) = Some (query ! (limit - 1))"
proof -
  have "length (take (limit + 1) query) > limit" and "take limit query \<noteq> []"
    using assms by (cases query; auto)+
  moreover have "last (take limit query) = query ! (limit - 1)"
    using assms \<open>take limit query \<noteq> []\<close> by (simp add: last_conv_nth)
  ultimately show ?thesis by (simp add: page_of_def Let_def)
qed

lemma page_of_last: "length query \<le> limit \<Longrightarrow> snd (page_of limit query) = None"
  by (simp add: page_of_def Let_def)

lemma page_of_drop:
  assumes "0 < limit"
  shows "page_of limit (drop n rows) =
     (take limit (drop n rows),
      if n + limit < length rows then Some (rows ! (n + limit - 1)) else None)"
proof (cases "n + limit < length rows")
  case True
  then have "snd (page_of limit (drop n rows)) = Some (drop n rows ! (limit - 1))"
    using assms by (intro page_of_more) auto
  moreover have "drop n rows ! (limit - 1) = rows ! (n + limit - 1)"
    using True assms by (simp add: Nat.add_diff_assoc)
  ultimately show ?thesis using True by (simp add: prod_eq_iff)
next
  case False
  then have "snd (page_of limit (drop n rows)) = None" by (intro page_of_last) auto
  then show ?thesis using False by (simp add: prod_eq_iff)
qed

text \<open>\<open>'s\<close> is what the listing reads: the database, the scope, the limit.\<close>

locale keyset_listing =
  fixes fetch :: "'s \<Rightarrow> 'c option \<Rightarrow> failure + ('r list \<times> 'c option)"
    and all_rows :: "'s \<Rightarrow> 'r list"
    and cursor :: "'s \<Rightarrow> nat \<Rightarrow> 'c"
    and limit :: "'s \<Rightarrow> nat"
    and valid :: "'s \<Rightarrow> bool"
  assumes limit_pos: "valid s \<Longrightarrow> 0 < limit s"
    and first_page: "valid s \<Longrightarrow> fetch s None = Inr (take (limit s) (all_rows s),
         if limit s < length (all_rows s) then Some (cursor s (limit s - 1)) else None)"
    and next_page: "valid s \<Longrightarrow> n < length (all_rows s) \<Longrightarrow> fetch s (Some (cursor s n)) =
         Inr (take (limit s) (drop (Suc n) (all_rows s)),
              if Suc n + limit s < length (all_rows s) then Some (cursor s (n + limit s)) else None)"
begin

lemma follow_from:
  assumes "valid s" and "n < length (all_rows s)"
    and "length (all_rows s) - Suc n < fuel * limit s"
  shows "follow (fetch s) fuel (Some (cursor s n)) = Inr (drop (Suc n) (all_rows s))"
  using assms(2,3)
proof (induction fuel arbitrary: n)
  case (Suc fuel)
  show ?case
  proof (cases "Suc n + limit s < length (all_rows s)")
    case True
    have "length (all_rows s) - Suc (n + limit s) < fuel * limit s"
      using Suc.prems(2) True by simp
    then have "follow (fetch s) fuel (Some (cursor s (n + limit s)))
        = Inr (drop (Suc (n + limit s)) (all_rows s))"
      using True by (intro Suc.IH) auto
    moreover have "take (limit s) (drop (Suc n) (all_rows s)) @ drop (Suc (n + limit s)) (all_rows s)
        = drop (Suc n) (all_rows s)"
      by (metis add.commute add_Suc append_take_drop_id drop_drop)
    ultimately show ?thesis using True Suc.prems by (simp add: next_page [OF assms(1)])
  next
    case False
    then show ?thesis using Suc.prems by (simp add: next_page [OF assms(1)])
  qed
qed simp

text \<open>Following the cursors yields every row, once, in order.\<close>

theorem follow_all:
  assumes "valid s" and "length (all_rows s) < fuel * limit s"
  shows "follow (fetch s) fuel None = Inr (all_rows s)"
proof -
  from assms(2) obtain n where fuel: "fuel = Suc n" by (cases fuel) auto
  show ?thesis
  proof (cases "limit s < length (all_rows s)")
    case True
    have "follow (fetch s) n (Some (cursor s (limit s - 1)))
        = Inr (drop (Suc (limit s - 1)) (all_rows s))"
      using True assms fuel limit_pos [OF assms(1)] by (intro follow_from) auto
    with True limit_pos [OF assms(1)] show ?thesis by (simp add: fuel first_page [OF assms(1)])
  next
    case False
    then show ?thesis by (simp add: fuel first_page [OF assms(1)])
  qed
qed

end

end
