(* ===== verification/Encoding.thy ===== *)
theory Encoding
  imports Protocol
begin

text \<open>
  The text encodings the server's cursors are made of: decimal numbers
  (\<open>String(n)\<close> and \<open>Number(s)\<close> on digit strings), UTF-8 and base64url
  (\<open>Buffer.from(s).toString('base64url')\<close> and back). A byte is a \<open>nat\<close> below 256.
  Node's base64 decoder is lenient: it accepts both alphabets, ignores any other
  character and stops at the first \<open>=\<close>.

  Strings of the model hold the code units below 256. A byte sequence that is not the
  UTF-8 form of such a string decodes to \<open>None\<close>: it denotes a text with some other
  character (the replacement character among them), which no cursor of this server
  contains.
\<close>

subsection \<open>Decimal numbers\<close>

definition digit_char :: "nat \<Rightarrow> char" where
  "digit_char d = char_of (48 + d)"

definition digit_value :: "char \<Rightarrow> nat" where
  "digit_value c = code_unit c - 48"

fun show_nat :: "nat \<Rightarrow> string" where
  "show_nat n = (if n < 10 then [digit_char n] else show_nat (n div 10) @ [digit_char (n mod 10)])"

declare show_nat.simps [simp del]

definition read_nat :: "string \<Rightarrow> nat" where
  "read_nat s = foldl (\<lambda>acc c. 10 * acc + digit_value c) 0 s"

definition show_int :: "int \<Rightarrow> string" where
  "show_int i = (if i < 0 then CHR ''-'' # show_nat (nat (- i)) else show_nat (nat i))"

definition read_int :: "string \<Rightarrow> int option" where
  "read_int s =
     (case s of
        [] \<Rightarrow> None
      | c # cs \<Rightarrow>
          if c = CHR ''-'' then Some (- int (read_nat cs))
          else if list_all is_digit s then Some (int (read_nat s)) else None)"

text \<open>\<open>^[1-9]\d*$\<close>\<close>

definition positive_decimal :: "string \<Rightarrow> bool" where
  "positive_decimal s \<longleftrightarrow>
     (case s of [] \<Rightarrow> False | c # cs \<Rightarrow> is_digit c \<and> c \<noteq> CHR ''0'' \<and> list_all is_digit cs)"

subsection \<open>UTF-8\<close>

fun utf8_encode :: "string \<Rightarrow> nat list" where
  "utf8_encode [] = []"
| "utf8_encode (c # cs) =
     (if code_unit c < 128 then code_unit c # utf8_encode cs
      else (192 + code_unit c div 64) # (128 + code_unit c mod 64) # utf8_encode cs)"

fun utf8_decode :: "nat list \<Rightarrow> string option" where
  "utf8_decode [] = Some []"
| "utf8_decode [b] = (if b < 128 then Some [char_of b] else None)"
| "utf8_decode (b # b' # bs) =
     (if b < 128 then map_option (Cons (char_of b)) (utf8_decode (b' # bs))
      else if (b = 194 \<or> b = 195) \<and> 128 \<le> b' \<and> b' < 192
        then map_option (Cons (char_of ((b - 192) * 64 + (b' - 128)))) (utf8_decode bs)
      else None)"

subsection \<open>base64url\<close>

definition b64_digit :: "nat \<Rightarrow> char" where
  "b64_digit n =
     (if n < 26 then char_of (65 + n)
      else if n < 52 then char_of (97 + (n - 26))
      else if n < 62 then char_of (48 + (n - 52))
      else if n = 62 then CHR ''-'' else CHR ''_'')"

definition b64_value :: "char \<Rightarrow> nat option" where
  "b64_value c =
     (if is_upper c then Some (code_unit c - 65)
      else if is_lower c then Some (code_unit c - 97 + 26)
      else if is_digit c then Some (code_unit c - 48 + 52)
      else if c = CHR ''-'' \<or> c = CHR ''+'' then Some 62
      else if c = CHR ''_'' \<or> c = CHR ''/'' then Some 63
      else None)"

fun b64_encode :: "nat list \<Rightarrow> string" where
  "b64_encode [] = []"
| "b64_encode [a] = [b64_digit (a div 4), b64_digit (a mod 4 * 16)]"
| "b64_encode [a, b] =
     [b64_digit (a div 4), b64_digit (a mod 4 * 16 + b div 16), b64_digit (b mod 16 * 4)]"
| "b64_encode (a # b # c # bs) =
     b64_digit (a div 4) # b64_digit (a mod 4 * 16 + b div 16)
       # b64_digit (b mod 16 * 4 + c div 64) # b64_digit (c mod 64) # b64_encode bs"

fun b64_bytes :: "nat list \<Rightarrow> nat list" where
  "b64_bytes [] = []"
| "b64_bytes [p] = []"
| "b64_bytes [p, q] = [p * 4 + q div 16]"
| "b64_bytes [p, q, r] = [p * 4 + q div 16, q mod 16 * 16 + r div 4]"
| "b64_bytes (p # q # r # s # ss) =
     (p * 4 + q div 16) # (q mod 16 * 16 + r div 4) # (r mod 4 * 64 + s) # b64_bytes ss"

definition b64_decode :: "string \<Rightarrow> nat list" where
  "b64_decode s = b64_bytes (List.map_filter b64_value (takeWhile (\<lambda>c. c \<noteq> CHR ''='') s))"

definition to_base64url :: "string \<Rightarrow> string" where
  "to_base64url s = b64_encode (utf8_encode s)"

definition from_base64url :: "string \<Rightarrow> string option" where
  "from_base64url s = utf8_decode (b64_decode s)"

subsection \<open>Facts on code units\<close>

lemma code_unit_less [simp]: "code_unit c < 256"
  by (simp add: code_unit_def)

lemma code_unit_char_of [simp]: "n < 256 \<Longrightarrow> code_unit (char_of n) = n"
  by (simp add: code_unit_def)

lemma char_of_code_unit [simp]: "char_of (code_unit c) = c"
  by (simp add: code_unit_def)

lemma code_unit_inj: "code_unit c = code_unit d \<Longrightarrow> c = d"
  by (metis char_of_code_unit)

lemma is_digit_digit_char [simp]: "d < 10 \<Longrightarrow> is_digit (digit_char d)"
  by (simp add: is_digit_def digit_char_def)

lemma digit_value_digit_char [simp]: "d < 10 \<Longrightarrow> digit_value (digit_char d) = d"
  by (simp add: digit_value_def digit_char_def)

lemma digit_char_0: "digit_char 0 = CHR ''0''"
proof -
  have "code_unit CHR ''0'' = 48" by (simp add: code_unit_def)
  then show ?thesis by (metis add_0_right char_of_code_unit digit_char_def)
qed

lemma digit_char_eq_0 [simp]: "d < 10 \<Longrightarrow> digit_char d = CHR ''0'' \<longleftrightarrow> d = 0"
  by (metis digit_char_0 digit_value_digit_char zero_less_numeral)

subsection \<open>Round trips\<close>

lemma show_nat_Nil [simp]: "show_nat n \<noteq> []"
  by (subst show_nat.simps) simp

lemma show_nat_digits: "list_all is_digit (show_nat n)"
proof (induction n rule: show_nat.induct)
  case (1 n)
  then show ?case by (subst show_nat.simps) simp
qed

lemma read_nat_snoc: "read_nat (s @ [c]) = 10 * read_nat s + digit_value c"
  by (simp add: read_nat_def)

lemma read_show_nat [simp]: "read_nat (show_nat n) = n"
proof (induction n rule: show_nat.induct)
  case (1 n)
  show ?case
  proof (cases "n < 10")
    case True
    then show ?thesis by (subst show_nat.simps) (simp add: read_nat_def)
  next
    case False
    with 1 show ?thesis by (subst show_nat.simps) (simp add: read_nat_snoc)
  qed
qed

lemma read_show_int [simp]: "read_int (show_int i) = Some i"
proof (cases "i < 0")
  case True
  then show ?thesis by (simp add: read_int_def show_int_def)
next
  case False
  obtain c cs where c: "show_nat (nat i) = c # cs" by (cases "show_nat (nat i)") auto
  with show_nat_digits [of "nat i"] have "list_all is_digit (c # cs)" by simp
  moreover from this have "c \<noteq> CHR ''-''" by (auto simp: is_digit_def code_unit_def)
  moreover have "read_nat (c # cs) = nat i" by (simp flip: c)
  ultimately show ?thesis using False by (simp add: read_int_def show_int_def c)
qed

lemma show_nat_inj: "show_nat m = show_nat n \<Longrightarrow> m = n"
  by (metis read_show_nat)

lemma hd_show_nat: "0 < n \<Longrightarrow> hd (show_nat n) \<noteq> CHR ''0''"
proof (induction n rule: show_nat.induct)
  case (1 n)
  show ?case
  proof (cases "n < 10")
    case True
    with 1 show ?thesis by (subst show_nat.simps) simp
  next
    case False
    with 1 show ?thesis by (subst show_nat.simps) (simp add: hd_append)
  qed
qed

lemma positive_decimal_show_nat: "0 < n \<Longrightarrow> positive_decimal (show_nat n)"
  using hd_show_nat [of n] show_nat_digits [of n]
  by (cases "show_nat n") (auto simp: positive_decimal_def)

lemma utf8_decode_encode [simp]: "utf8_decode (utf8_encode s) = Some s"
proof (induction s)
  case Nil
  then show ?case by simp
next
  case (Cons c s)
  show ?case
  proof (cases "code_unit c < 128")
    case True
    with Cons show ?thesis by (cases "utf8_encode s") auto
  next
    case False
    let ?n = "code_unit c"
    have "?n div 64 = 2 \<or> ?n div 64 = 3"
      using False code_unit_less [of c] by linarith
    moreover have "?n div 64 * 64 + ?n mod 64 = ?n" by simp
    then have "char_of (?n div 64 * 64 + ?n mod 64) = c" by (simp only: char_of_code_unit)
    ultimately show ?thesis using False Cons by auto
  qed
qed

lemma utf8_encode_bytes: "b \<in> set (utf8_encode s) \<Longrightarrow> b < 256"
proof (induction s)
  case (Cons c s)
  have "code_unit c div 64 < 4" and "code_unit c mod 64 < 64"
    using code_unit_less [of c] by linarith simp
  with Cons show ?case by (auto split: if_splits)
qed simp

lemmas char_class_defs = is_upper_def is_lower_def is_digit_def is_alnum_def

lemma b64_value_digit [simp]:
  assumes "n < 64"
  shows "b64_value (b64_digit n) = Some n"
proof -
  consider "n < 26" | "26 \<le> n" "n < 52" | "52 \<le> n" "n < 62" | "n = 62" | "n = 63"
    using assms by linarith
  then show ?thesis
  proof cases
    case 3
    define m where "m = n - 52"
    from 3 have "n = 52 + m" and "m < 10" by (simp_all add: m_def)
    then show ?thesis
      by (simp add: b64_digit_def b64_value_def char_class_defs)
  qed (simp_all add: b64_digit_def b64_value_def char_class_defs code_unit_def)
qed

lemma pack_div: "l < k \<Longrightarrow> (h * k + l) div k = h" for h k l :: nat
  by simp

lemma pack_mod: "l < k \<Longrightarrow> (h * k + l) mod k = l" for h k l :: nat
  by simp

lemma sextets:
  fixes a b c :: nat
  assumes "a < 256" "b < 256" "c < 256"
  shows "a div 4 < 64" and "a mod 4 * 16 < 64" and "b mod 16 * 4 < 64"
    and "a mod 4 * 16 + b div 16 < 64" and "b mod 16 * 4 + c div 64 < 64" and "c mod 64 < 64"
    and "a div 4 * 4 + a mod 4 * 16 div 16 = a"
    and "a div 4 * 4 + (a mod 4 * 16 + b div 16) div 16 = a"
    and "(a mod 4 * 16 + b div 16) mod 16 * 16 + b mod 16 * 4 div 4 = b"
    and "(a mod 4 * 16 + b div 16) mod 16 * 16 + (b mod 16 * 4 + c div 64) div 4 = b"
    and "(b mod 16 * 4 + c div 64) mod 4 * 64 + c mod 64 = c"
proof -
  have m: "a mod 4 < 4" "b mod 16 < 16" by simp_all
  have d: "b div 16 < 16" "c div 64 < 4" using assms by linarith+
  show "a div 4 < 64" using assms by linarith
  show "c mod 64 < 64" by simp
  show "a mod 4 * 16 < 64" "b mod 16 * 4 < 64" "a mod 4 * 16 + b div 16 < 64"
    "b mod 16 * 4 + c div 64 < 64" using m d by linarith+
  show "a div 4 * 4 + a mod 4 * 16 div 16 = a" by simp
  show "a div 4 * 4 + (a mod 4 * 16 + b div 16) div 16 = a"
    by (simp only: pack_div [OF d(1)] div_mult_mod_eq)
  show "(a mod 4 * 16 + b div 16) mod 16 * 16 + b mod 16 * 4 div 4 = b"
    by (simp only: pack_mod [OF d(1)]) simp
  show "(a mod 4 * 16 + b div 16) mod 16 * 16 + (b mod 16 * 4 + c div 64) div 4 = b"
    by (simp only: pack_mod [OF d(1)] pack_div [OF d(2)] div_mult_mod_eq)
  show "(b mod 16 * 4 + c div 64) mod 4 * 64 + c mod 64 = c"
    by (simp only: pack_mod [OF d(2)] div_mult_mod_eq)
qed

lemma b64_digit_not_pad [simp]:
  assumes "n < 64"
  shows "b64_digit n \<noteq> CHR ''=''"
proof -
  have "b64_value CHR ''='' = None"
    by (simp add: b64_value_def char_class_defs code_unit_def)
  then show ?thesis using b64_value_digit [OF assms] by auto
qed

lemma b64_encode_chars:
  "(\<And>b. b \<in> set bs \<Longrightarrow> b < 256) \<Longrightarrow> c \<in> set (b64_encode bs) \<Longrightarrow> \<exists>n < 64. c = b64_digit n"
proof (induction bs rule: b64_encode.induct)
  case (2 a)
  have "a div 4 < 64" and "a mod 4 * 16 < 64" using 2 sextets(1,2) [of a a a] by auto
  moreover have "c = b64_digit (a div 4) \<or> c = b64_digit (a mod 4 * 16)" using 2 by simp
  ultimately show ?case by blast
next
  case (3 a b)
  then have ab: "a < 256" "b < 256" by simp_all
  note f = sextets [OF ab ab(2)]
  have "c = b64_digit (a div 4) \<or> c = b64_digit (a mod 4 * 16 + b div 16)
      \<or> c = b64_digit (b mod 16 * 4)" using 3 by simp
  with f show ?case by blast
next
  case (4 a b c' bs)
  then have abc: "a < 256" "b < 256" "c' < 256" by simp_all
  note f = sextets [OF abc]
  have "c = b64_digit (a div 4) \<or> c = b64_digit (a mod 4 * 16 + b div 16)
      \<or> c = b64_digit (b mod 16 * 4 + c' div 64) \<or> c = b64_digit (c' mod 64)
      \<or> c \<in> set (b64_encode bs)" using 4 by simp
  with f 4 show ?case by (metis list.set_intros(2))
qed simp

lemma b64_bytes_encode:
  "(\<And>b. b \<in> set bs \<Longrightarrow> b < 256) \<Longrightarrow>
   b64_bytes (List.map_filter b64_value (b64_encode bs)) = bs"
proof (induction bs rule: b64_encode.induct)
  case 1
  then show ?case by (simp add: List.map_filter_def)
next
  case (2 a)
  then show ?case using sextets [of a a a] by (simp add: List.map_filter_def)
next
  case (3 a b)
  then have ab: "a < 256" "b < 256" by simp_all
  note f = sextets [OF ab ab(2)]
  have "List.map_filter b64_value (b64_encode [a, b]) =
      [a div 4, a mod 4 * 16 + b div 16, b mod 16 * 4]"
    by (simp add: List.map_filter_def f)
  then show ?case by (simp only: b64_bytes.simps f)
next
  case (4 a b c bs)
  then have abc: "a < 256" "b < 256" "c < 256" by simp_all
  note f = sextets [OF abc]
  have "List.map_filter b64_value (b64_encode (a # b # c # bs)) =
      (a div 4) # (a mod 4 * 16 + b div 16) # (b mod 16 * 4 + c div 64) # (c mod 64)
        # List.map_filter b64_value (b64_encode bs)"
    by (simp add: List.map_filter_def f)
  moreover have "b64_bytes (List.map_filter b64_value (b64_encode bs)) = bs"
    using 4 by simp
  ultimately show ?case by (simp only: b64_bytes.simps f)
qed

lemma b64_decode_encode:
  assumes "\<And>b. b \<in> set bs \<Longrightarrow> b < 256"
  shows "b64_decode (b64_encode bs) = bs"
proof -
  have pad: "CHR ''='' \<notin> set (b64_encode bs)"
  proof
    assume "CHR ''='' \<in> set (b64_encode bs)"
    then obtain n where "n < 64" and "CHR ''='' = b64_digit n"
      using b64_encode_chars [of bs, OF assms] by blast
    then show False using b64_digit_not_pad by metis
  qed
  have "takeWhile (\<lambda>c. c \<noteq> CHR ''='') (b64_encode bs) = b64_encode bs"
    using pad by (auto simp: takeWhile_eq_all_conv)
  then show ?thesis unfolding b64_decode_def by (simp only: b64_bytes_encode [OF assms])
qed

lemma from_to_base64url [simp]: "from_base64url (to_base64url s) = Some s"
  by (simp add: from_base64url_def to_base64url_def b64_decode_encode [OF utf8_encode_bytes])

lemma to_base64url_inj: "to_base64url s = to_base64url t \<Longrightarrow> s = t"
  by (metis from_to_base64url option.inject)

end
