(* ===== verification/Json.thy ===== *)
theory Json
  imports Encoding
begin

text \<open>
  \<open>JSON.stringify\<close> and \<open>JSON.parse\<close>, which the server uses to hash request bodies
  and to build cursors, the browser client to persist its state, and both to frame
  events. \<open>JNumber\<close> is a number whose value is an integer; any other number keeps its
  text in \<open>JFraction\<close>. A string is a list of code units below 256; the escapes are
  those of ECMAScript's \<open>QuoteJSONString\<close>. An escape \<open>\u\<close> above 00ff denotes a
  character outside the model's strings, and the parser rejects it.

  The parser takes fuel, one unit per call; \<open>json_parse\<close> starts with more than the
  text's length, and every call consumes a character or ends, so it never runs out
  (\<open>json_parse_stringify\<close> shows it for every printed value).
\<close>

datatype json =
    JNull
  | JBool bool
  | JNumber int
  | JFraction string
  | JString string
  | JArray "json list"
  | JObject "(string \<times> json) list"

subsection \<open>Printing\<close>

definition hex_char :: "nat \<Rightarrow> char" where
  "hex_char n = (if n < 10 then char_of (48 + n) else char_of (87 + n))"

definition escape_char :: "char \<Rightarrow> string" where
  "escape_char c =
     (if c = CHR 0x22 then [CHR 0x5C, CHR 0x22]
      else if c = CHR 0x5C then [CHR 0x5C, CHR 0x5C]
      else if c = CHR 0x08 then [CHR 0x5C, CHR ''b'']
      else if c = CHR 0x09 then [CHR 0x5C, CHR ''t'']
      else if c = CHR 0x0A then [CHR 0x5C, CHR ''n'']
      else if c = CHR 0x0C then [CHR 0x5C, CHR ''f'']
      else if c = CHR 0x0D then [CHR 0x5C, CHR ''r'']
      else if code_unit c < 32
        then [CHR 0x5C, CHR ''u'', CHR ''0'', CHR ''0'',
              hex_char (code_unit c div 16), hex_char (code_unit c mod 16)]
      else [c])"

definition quote_string :: "string \<Rightarrow> string" where
  "quote_string s = CHR 0x22 # concat (map escape_char s) @ [CHR 0x22]"

fun intersperse_comma :: "string list \<Rightarrow> string" where
  "intersperse_comma [] = []"
| "intersperse_comma [x] = x"
| "intersperse_comma (x # y # ys) = x @ CHR '','' # intersperse_comma (y # ys)"

fun stringify :: "json \<Rightarrow> string" where
  "stringify JNull = ''null''"
| "stringify (JBool b) = (if b then ''true'' else ''false'')"
| "stringify (JNumber i) = show_int i"
| "stringify (JFraction s) = s"
| "stringify (JString s) = quote_string s"
| "stringify (JArray js) = CHR ''['' # intersperse_comma (map stringify js) @ '']''"
| "stringify (JObject ps) =
     CHR ''{'' # intersperse_comma
       (map (\<lambda>p. quote_string (fst p) @ CHR '':'' # stringify (snd p)) ps) @ ''}''"

subsection \<open>Parsing\<close>

definition is_ws :: "char \<Rightarrow> bool" where
  "is_ws c \<longleftrightarrow> c = CHR 0x20 \<or> c = CHR 0x09 \<or> c = CHR 0x0A \<or> c = CHR 0x0D"

definition skip_ws :: "string \<Rightarrow> string" where
  "skip_ws s = dropWhile is_ws s"

definition hex_value :: "char \<Rightarrow> nat option" where
  "hex_value c =
     (if is_digit c then Some (code_unit c - 48)
      else if 97 \<le> code_unit c \<and> code_unit c \<le> 102 then Some (code_unit c - 87)
      else if 65 \<le> code_unit c \<and> code_unit c \<le> 70 then Some (code_unit c - 55)
      else None)"

definition simple_escape :: "char \<Rightarrow> char option" where
  "simple_escape c =
     (if c = CHR 0x22 then Some (CHR 0x22)
      else if c = CHR 0x5C then Some (CHR 0x5C)
      else if c = CHR ''/'' then Some (CHR ''/'')
      else if c = CHR ''b'' then Some (CHR 0x08)
      else if c = CHR ''t'' then Some (CHR 0x09)
      else if c = CHR ''n'' then Some (CHR 0x0A)
      else if c = CHR ''f'' then Some (CHR 0x0C)
      else if c = CHR ''r'' then Some (CHR 0x0D)
      else None)"

definition unicode_escape :: "char \<Rightarrow> char \<Rightarrow> char \<Rightarrow> char \<Rightarrow> char option" where
  "unicode_escape a b c d =
     (case (hex_value a, hex_value b, hex_value c, hex_value d) of
        (Some 0, Some 0, Some h, Some l) \<Rightarrow> Some (char_of (h * 16 + l))
      | _ \<Rightarrow> None)"

text \<open>The rest of a string after its opening quote: its value and what follows.\<close>

fun parse_string :: "string \<Rightarrow> (string \<times> string) option" where
  "parse_string [] = None"
| "parse_string (c # cs) =
     (if c = CHR 0x22 then Some ([], cs)
      else if code_unit c < 32 then None
      else if c = CHR 0x5C then
        (case cs of
           [] \<Rightarrow> None
         | e # cs' \<Rightarrow>
             (case simple_escape e of
                Some x \<Rightarrow> map_option (\<lambda>(s, r). (x # s, r)) (parse_string cs')
              | None \<Rightarrow>
                  (if e = CHR ''u'' then
                     (case cs' of
                        h1 # h2 # h3 # h4 # cs'' \<Rightarrow>
                          (case unicode_escape h1 h2 h3 h4 of
                             Some x \<Rightarrow> map_option (\<lambda>(s, r). (x # s, r)) (parse_string cs'')
                           | None \<Rightarrow> None)
                      | _ \<Rightarrow> None)
                   else None)))
      else map_option (\<lambda>(s, r). (c # s, r)) (parse_string cs))"

definition digits_prefix :: "string \<Rightarrow> string" where
  "digits_prefix s = takeWhile is_digit s"

definition integer_part_ok :: "string \<Rightarrow> bool" where
  "integer_part_ok ds \<longleftrightarrow> ds \<noteq> [] \<and> (hd ds = CHR ''0'' \<longrightarrow> ds = ''0'')"

text \<open>The fraction and exponent of a number: \<open>None\<close> when malformed.\<close>

definition parse_fraction :: "string \<Rightarrow> (string \<times> string) option" where
  "parse_fraction s =
     (case s of
        CHR ''.'' # r \<Rightarrow>
          (let ds = digits_prefix r in if ds = [] then None else Some (ds, drop (length ds) r))
      | _ \<Rightarrow> Some ([], s))"

definition parse_exponent :: "string \<Rightarrow> (int \<times> string) option" where
  "parse_exponent s =
     (case s of
        e # r \<Rightarrow>
          (if e = CHR ''e'' \<or> e = CHR ''E'' then
             (let neg = (r \<noteq> [] \<and> hd r = CHR ''-'');
                  r' = (if r \<noteq> [] \<and> (hd r = CHR ''-'' \<or> hd r = CHR ''+'') then tl r else r);
                  ds = digits_prefix r'
              in if ds = [] then None
                 else Some (if neg then - int (read_nat ds) else int (read_nat ds),
                            drop (length ds) r'))
           else Some (0, s))
      | [] \<Rightarrow> Some (0, s))"

definition number_value :: "bool \<Rightarrow> string \<Rightarrow> string \<Rightarrow> int \<Rightarrow> int option" where
  "number_value neg ds fs e =
     (let m = int (read_nat (ds @ fs));
          s = (if neg then - m else m);
          k = e - int (length fs)
      in if 0 \<le> k then Some (s * 10 ^ nat k)
         else if (10 ^ nat (- k)) dvd s then Some (s div 10 ^ nat (- k))
         else None)"

definition parse_number :: "string \<Rightarrow> (json \<times> string) option" where
  "parse_number s =
     (let neg = (s \<noteq> [] \<and> hd s = CHR ''-'');
          s' = (if neg then tl s else s);
          ds = digits_prefix s'
      in if \<not> integer_part_ok ds then None
         else (case parse_fraction (drop (length ds) s') of
             None \<Rightarrow> None
           | Some (fs, r) \<Rightarrow>
               (case parse_exponent r of
                  None \<Rightarrow> None
                | Some (e, r') \<Rightarrow>
                    Some (case number_value neg ds fs e of
                            Some i \<Rightarrow> JNumber i
                          | None \<Rightarrow> JFraction (take (length s - length r') s), r'))))"

definition strip_prefix :: "string \<Rightarrow> string \<Rightarrow> string option" where
  "strip_prefix p s = (if take (length p) s = p then Some (drop (length p) s) else None)"

fun parse_value :: "nat \<Rightarrow> string \<Rightarrow> (json \<times> string) option"
  and parse_elements :: "nat \<Rightarrow> string \<Rightarrow> (json list \<times> string) option"
  and parse_members :: "nat \<Rightarrow> string \<Rightarrow> ((string \<times> json) list \<times> string) option" where
  "parse_value 0 s = None"
| "parse_value (Suc f) s =
     (case skip_ws s of
        [] \<Rightarrow> None
      | c # cs \<Rightarrow>
          (if c = CHR 0x22 then map_option (\<lambda>(t, r). (JString t, r)) (parse_string cs)
           else if c = CHR ''['' then
             (case skip_ws cs of
                [] \<Rightarrow> None
              | d # ds \<Rightarrow>
                  (if d = CHR '']'' then Some (JArray [], ds)
                   else map_option (\<lambda>(js, r). (JArray js, r)) (parse_elements f cs)))
           else if c = CHR ''{'' then
             (case skip_ws cs of
                [] \<Rightarrow> None
              | d # ds \<Rightarrow>
                  (if d = CHR ''}'' then Some (JObject [], ds)
                   else map_option (\<lambda>(ps, r). (JObject ps, r)) (parse_members f cs)))
           else if c = CHR ''n'' then map_option (\<lambda>r. (JNull, r)) (strip_prefix ''ull'' cs)
           else if c = CHR ''t'' then map_option (\<lambda>r. (JBool True, r)) (strip_prefix ''rue'' cs)
           else if c = CHR ''f'' then map_option (\<lambda>r. (JBool False, r)) (strip_prefix ''alse'' cs)
           else parse_number (c # cs)))"
| "parse_elements 0 s = None"
| "parse_elements (Suc f) s =
     (case parse_value f s of
        None \<Rightarrow> None
      | Some (j, r) \<Rightarrow>
          (case skip_ws r of
             [] \<Rightarrow> None
           | c # cs \<Rightarrow>
               (if c = CHR '']'' then Some ([j], cs)
                else if c = CHR '','' then
                  map_option (\<lambda>(js, r'). (j # js, r')) (parse_elements f cs)
                else None)))"
| "parse_members 0 s = None"
| "parse_members (Suc f) s =
     (case skip_ws s of
        [] \<Rightarrow> None
      | q # qs \<Rightarrow>
          (if q \<noteq> CHR 0x22 then None
           else (case parse_string qs of
               None \<Rightarrow> None
             | Some (k, r) \<Rightarrow>
                 (case skip_ws r of
                    [] \<Rightarrow> None
                  | c # cs \<Rightarrow>
                      (if c \<noteq> CHR '':'' then None
                       else (case parse_value f cs of
                           None \<Rightarrow> None
                         | Some (j, r') \<Rightarrow>
                             (case skip_ws r' of
                                [] \<Rightarrow> None
                              | d # ds \<Rightarrow>
                                  (if d = CHR ''}'' then Some ([(k, j)], ds)
                                   else if d = CHR '','' then
                                     map_option (\<lambda>(ps, t). ((k, j) # ps, t)) (parse_members f ds)
                                   else None))))))))"

definition json_parse :: "string \<Rightarrow> json option" where
  "json_parse s =
     (case parse_value (2 * length s + 2) s of
        None \<Rightarrow> None
      | Some (j, r) \<Rightarrow> if skip_ws r = [] then Some j else None)"

text \<open>A property of an object: the last binding of a repeated key wins.\<close>

fun json_get :: "json \<Rightarrow> string \<Rightarrow> json option" where
  "json_get (JObject ps) k = map_of (rev ps) k"
| "json_get _ k = None"

text \<open>Values the program prints: no fraction occurs.\<close>

fun no_fraction :: "json \<Rightarrow> bool" where
  "no_fraction (JFraction _) = False"
| "no_fraction (JArray js) = list_all no_fraction js"
| "no_fraction (JObject ps) = list_all (\<lambda>p. no_fraction (snd p)) ps"
| "no_fraction _ = True"

fun need :: "json \<Rightarrow> nat" where
  "need (JArray js) = Suc (\<Sum>j \<leftarrow> js. Suc (need j))"
| "need (JObject ps) = Suc (\<Sum>p \<leftarrow> ps. Suc (need (snd p)))"
| "need _ = 1"

text \<open>What may follow a printed value: nothing, a comma or a closing bracket.\<close>

definition delimited :: "string \<Rightarrow> bool" where
  "delimited r \<longleftrightarrow> (case r of [] \<Rightarrow> True | c # _ \<Rightarrow> c = CHR '','' \<or> c = CHR '']'' \<or> c = CHR ''}'')"

subsection \<open>Strings\<close>

lemma hex_value_hex_char [simp]:
  assumes "n < 16"
  shows "hex_value (hex_char n) = Some n"
proof (cases "n < 10")
  case True
  then show ?thesis by (simp add: hex_value_def hex_char_def is_digit_def)
next
  case False
  then have "code_unit (hex_char n) = 87 + n" using assms by (simp add: hex_char_def)
  then show ?thesis using False assms by (simp add: hex_value_def is_digit_def)
qed

lemma unicode_escape_hex:
  assumes "code_unit c < 32"
  shows "unicode_escape CHR ''0'' CHR ''0'' (hex_char (code_unit c div 16))
      (hex_char (code_unit c mod 16)) = Some c"
proof -
  have zero: "hex_value CHR ''0'' = Some 0"
    by (simp add: hex_value_def is_digit_def code_unit_def)
  have "code_unit c div 16 < 16" using assms by simp
  moreover have "code_unit c div 16 * 16 + code_unit c mod 16 = code_unit c"
    by (rule div_mult_mod_eq)
  ultimately show ?thesis
    by (simp only: unicode_escape_def zero hex_value_hex_char mod_less_divisor) simp
qed

lemma parse_escape_char:
  "parse_string (escape_char c @ t) = map_option (\<lambda>(s, r). (c # s, r)) (parse_string t)"
proof -
  consider "c \<in> {CHR 0x22, CHR 0x5C, CHR 0x08, CHR 0x09, CHR 0x0A, CHR 0x0C, CHR 0x0D}"
    | "c \<notin> {CHR 0x22, CHR 0x5C, CHR 0x08, CHR 0x09, CHR 0x0A, CHR 0x0C, CHR 0x0D}" "code_unit c < 32"
    | "c \<notin> {CHR 0x22, CHR 0x5C, CHR 0x08, CHR 0x09, CHR 0x0A, CHR 0x0C, CHR 0x0D}" "\<not> code_unit c < 32"
    by blast
  then show ?thesis
  proof cases
    case 1
    then show ?thesis
      by (auto simp: escape_char_def simple_escape_def code_unit_def)
  next
    case 2
    then show ?thesis
      by (simp add: escape_char_def simple_escape_def unicode_escape_hex)
        (simp add: code_unit_def)
  next
    case 3
    then show ?thesis by (simp add: escape_char_def)
  qed
qed

lemma parse_quoted:
  "parse_string (concat (map escape_char s) @ CHR 0x22 # r) = Some (s, r)"
  by (induction s) (simp_all add: parse_escape_char del: parse_string.simps(2), simp)

lemma parse_quote_string: "parse_string (tl (quote_string s) @ r) = Some (s, r)"
  by (simp add: quote_string_def parse_quoted del: parse_string.simps)

lemma quote_string_Cons: "quote_string s = CHR 0x22 # tl (quote_string s)"
  by (simp add: quote_string_def)

subsection \<open>Numbers\<close>

lemma digits_prefix_append:
  assumes "list_all is_digit ds" and "r = [] \<or> \<not> is_digit (hd r)"
  shows "digits_prefix (ds @ r) = ds"
proof -
  have "takeWhile is_digit (ds @ r) = ds @ takeWhile is_digit r"
    using assms(1) by (simp add: list_all_iff takeWhile_append2)
  moreover have "takeWhile is_digit r = []" using assms(2) by (cases r) auto
  ultimately show ?thesis by (simp add: digits_prefix_def)
qed

lemma integer_part_show_nat: "integer_part_ok (show_nat n)"
proof (cases "n = 0")
  case True
  then show ?thesis
    by (simp add: integer_part_ok_def show_nat.simps [of 0] digit_char_0)
next
  case False
  then show ?thesis using hd_show_nat [of n] by (simp add: integer_part_ok_def)
qed

lemma delimited_cases:
  assumes "delimited r"
  shows "r = [] \<or> \<not> is_digit (hd r)" and "parse_fraction r = Some ([], r)"
    and "parse_exponent r = Some (0, r)"
  using assms
  by (auto simp: delimited_def parse_fraction_def parse_exponent_def is_digit_def code_unit_def
      split: list.splits)

lemma parse_number_show_int:
  assumes "delimited r"
  shows "parse_number (show_int i @ r) = Some (JNumber i, r)"
proof -
  note del = delimited_cases [OF assms]
  have pre: "digits_prefix (show_nat n @ r) = show_nat n" for n
    using show_nat_digits del(1) by (rule digits_prefix_append)
  have hd: "hd (show_nat n) \<noteq> CHR ''-''" for n
    using show_nat_digits [of n] show_nat_Nil [of n]
    by (cases "show_nat n") (auto simp: is_digit_def code_unit_def)
  show ?thesis
    by (cases "i < 0")
      (simp_all add: parse_number_def show_int_def pre hd integer_part_show_nat del
        number_value_def Let_def)
qed

lemma show_int_head:
  obtains c cs where "show_int i = c # cs" and "c = CHR ''-'' \<or> is_digit c"
proof (cases "i < 0")
  case True
  then show ?thesis using that by (simp add: show_int_def)
next
  case False
  then show ?thesis using that show_nat_digits [of "nat i"]
    by (cases "show_nat (nat i)") (auto simp: show_int_def)
qed

subsection \<open>Printed values parse back\<close>

lemma is_ws_simps [simp]:
  "\<not> is_ws CHR 0x22" "\<not> is_ws CHR ''['' " "\<not> is_ws CHR ''{''" "\<not> is_ws CHR ''n''"
  "\<not> is_ws CHR ''t''" "\<not> is_ws CHR ''f''" "\<not> is_ws CHR '',''" "\<not> is_ws CHR '']''"
  "\<not> is_ws CHR ''}''" "\<not> is_ws CHR '':''" "\<not> is_ws CHR ''-''"
  by (simp_all add: is_ws_def)

lemma skip_ws_Cons [simp]: "\<not> is_ws c \<Longrightarrow> skip_ws (c # cs) = c # cs"
  by (simp add: skip_ws_def)

lemma skip_ws_Nil [simp]: "skip_ws [] = []"
  by (simp add: skip_ws_def)

lemma digit_not_ws: "is_digit c \<Longrightarrow> \<not> is_ws c"
  by (auto simp: is_ws_def is_digit_def code_unit_def)

lemma stringify_head:
  assumes "no_fraction j"
  obtains c cs where "stringify j = c # cs" and "\<not> is_ws c" and "c \<noteq> CHR '']''"
    and "c \<noteq> CHR ''}''"
proof (cases j)
  case (JNumber i)
  obtain c cs where i: "show_int i = c # cs" and c: "c = CHR ''-'' \<or> is_digit c"
    by (rule show_int_head)
  have "\<not> is_ws c" and "c \<noteq> CHR '']''" and "c \<noteq> CHR ''}''"
    using c by (auto simp: digit_not_ws is_digit_def code_unit_def)
  with i JNumber show ?thesis using that by simp
next
  case (JBool b)
  then show ?thesis using that by (cases b) auto
qed (use assms that in \<open>auto simp: quote_string_def\<close>)

lemma parse_value_number:
  assumes "delimited r"
  shows "parse_value (Suc f) (show_int i @ r) = Some (JNumber i, r)"
proof -
  obtain c cs where i: "show_int i = c # cs" and c: "c = CHR ''-'' \<or> is_digit c"
    by (rule show_int_head)
  have ws: "\<not> is_ws c" using c by (auto simp: digit_not_ws)
  have ne: "c \<noteq> CHR 0x22" "c \<noteq> CHR ''[''" "c \<noteq> CHR ''{''" "c \<noteq> CHR ''n''" "c \<noteq> CHR ''t''"
    "c \<noteq> CHR ''f''"
    using c by (auto simp: is_digit_def code_unit_def)
  have "parse_number (c # cs @ r) = Some (JNumber i, r)"
    using parse_number_show_int [OF assms, of i] by (simp add: i)
  with ws ne show ?thesis by (simp add: i)
qed

lemma parse_elements_printed:
  assumes "js \<noteq> []" and "list_all no_fraction js"
    and "(\<Sum>j \<leftarrow> js. Suc (need j)) \<le> fuel"
    and "\<And>j f r. j \<in> set js \<Longrightarrow> need j \<le> f \<Longrightarrow> delimited r \<Longrightarrow>
      parse_value f (stringify j @ r) = Some (j, r)"
  shows "parse_elements fuel (intersperse_comma (map stringify js) @ CHR '']'' # r) = Some (js, r)"
  using assms
proof (induction js arbitrary: fuel)
  case (Cons j js)
  then obtain f where fuel: "fuel = Suc f" by (cases fuel) auto
  show ?case
  proof (cases js)
    case Nil
    have "parse_value f (stringify j @ CHR '']'' # r) = Some (j, CHR '']'' # r)"
      using Cons.prems(3) fuel Nil by (intro Cons.prems(4)) (auto simp: delimited_def)
    with Nil fuel show ?thesis by simp
  next
    case (Cons k ks)
    let ?rest = "intersperse_comma (map stringify js) @ CHR '']'' # r"
    have "parse_value f (stringify j @ CHR '','' # ?rest) = Some (j, CHR '','' # ?rest)"
      using Cons.prems(3) fuel by (intro Cons.prems(4)) (auto simp: delimited_def)
    moreover have "parse_elements f ?rest = Some (js, r)"
      using Cons.prems fuel Cons by (intro Cons.IH) auto
    ultimately show ?thesis using fuel Cons by simp
  qed
qed simp

lemma parse_members_printed:
  assumes "ps \<noteq> []" and "list_all (\<lambda>p. no_fraction (snd p)) ps"
    and "(\<Sum>p \<leftarrow> ps. Suc (need (snd p))) \<le> fuel"
    and "\<And>p f r. p \<in> set ps \<Longrightarrow> need (snd p) \<le> f \<Longrightarrow> delimited r \<Longrightarrow>
      parse_value f (stringify (snd p) @ r) = Some (snd p, r)"
  shows "parse_members fuel
     (intersperse_comma (map (\<lambda>p. quote_string (fst p) @ CHR '':'' # stringify (snd p)) ps)
        @ CHR ''}'' # r) = Some (ps, r)"
  using assms
proof (induction ps arbitrary: fuel)
  case (Cons p ps)
  obtain k j where p: "p = (k, j)" by fastforce
  from Cons obtain f where fuel: "fuel = Suc f" by (cases fuel) auto
  obtain q where q: "quote_string k = CHR 0x22 # q" and quoted: "\<And>t. parse_string (q @ t) = Some (k, t)"
    using parse_quote_string [of k] by (simp add: quote_string_def)
  show ?case
  proof (cases ps)
    case Nil
    have "parse_value f (stringify j @ CHR ''}'' # r) = Some (j, CHR ''}'' # r)"
      using Cons.prems(3,4) fuel Nil p by (auto simp: delimited_def)
    with Nil fuel p q quoted show ?thesis by simp
  next
    case (Cons p' qs)
    let ?rest = "intersperse_comma
        (map (\<lambda>p. quote_string (fst p) @ CHR '':'' # stringify (snd p)) ps) @ CHR ''}'' # r"
    have "parse_value f (stringify j @ CHR '','' # ?rest) = Some (j, CHR '','' # ?rest)"
      using Cons.prems(3) Cons.prems(4) [of p f "CHR '','' # ?rest"] fuel p
      by (simp add: delimited_def)
    moreover have "parse_members f ?rest = Some (ps, r)"
      using Cons.prems fuel Cons by (intro Cons.IH) auto
    ultimately show ?thesis using fuel Cons p q quoted by simp
  qed
qed simp

lemma need_pos [simp]: "0 < need j"
  by (cases j) simp_all

lemma parse_value_stringify:
  assumes "no_fraction j" and "need j \<le> fuel" and "delimited r"
  shows "parse_value fuel (stringify j @ r) = Some (j, r)"
  using assms
proof (induction j arbitrary: fuel r rule: stringify.induct)
  case (1 fuel r)
  then show ?case by (cases fuel) (auto simp: strip_prefix_def)
next
  case (2 b fuel r)
  then show ?case by (cases fuel) (auto simp: strip_prefix_def)
next
  case (3 i fuel r)
  then show ?case by (cases fuel) (simp_all add: parse_value_number del: parse_value.simps(2))
next
  case (4 s fuel r)
  then show ?case by simp
next
  case (5 s fuel r)
  obtain q where "quote_string s = CHR 0x22 # q" and "\<And>t. parse_string (q @ t) = Some (s, t)"
    using parse_quote_string [of s] by (simp add: quote_string_def)
  with 5 show ?case by (cases fuel) auto
next
  case (6 js fuel r)
  then obtain f where fuel: "fuel = Suc f" by (cases fuel) auto
  show ?case
  proof (cases js)
    case Nil
    with fuel show ?thesis by simp
  next
    case (Cons j ks)
    then obtain c cs where c: "stringify j = c # cs" "\<not> is_ws c" "c \<noteq> CHR '']''"
      using 6(2) by (auto elim: stringify_head)
    let ?body = "intersperse_comma (map stringify js)"
    have "parse_elements f (?body @ CHR '']'' # r) = Some (js, r)"
      using Cons 6 fuel by (intro parse_elements_printed) (auto simp: list_all_iff)
    moreover obtain ds where "?body = c # ds" using Cons c by (cases ks) auto
    ultimately show ?thesis using fuel c by simp
  qed
next
  case (7 ps fuel r)
  then obtain f where fuel: "fuel = Suc f" by (cases fuel) auto
  show ?case
  proof (cases ps)
    case Nil
    with fuel show ?thesis by simp
  next
    case (Cons p qs)
    let ?body = "intersperse_comma
        (map (\<lambda>p. quote_string (fst p) @ CHR '':'' # stringify (snd p)) ps)"
    have "parse_members f (?body @ CHR ''}'' # r) = Some (ps, r)"
    proof (rule parse_members_printed)
      show "ps \<noteq> []" using Cons by simp
      show "list_all (\<lambda>p. no_fraction (snd p)) ps" using 7 by simp
      show "(\<Sum>p \<leftarrow> ps. Suc (need (snd p))) \<le> f" using 7 fuel by simp
      show "parse_value f' (stringify (snd p) @ r') = Some (snd p, r')"
        if "p \<in> set ps" "need (snd p) \<le> f'" "delimited r'" for p f' r'
        using 7(1) [of p f' r'] 7(2) that by (auto simp: list_all_iff)
    qed
    moreover obtain ds where "?body = CHR 0x22 # ds"
      using Cons by (cases qs) (auto simp: quote_string_def)
    ultimately show ?thesis using fuel by simp
  qed
qed

lemma sum_list_need_le:
  assumes "\<And>x. x \<in> set xs \<Longrightarrow> g x \<le> 2 * length (f x)"
  shows "(\<Sum>x \<leftarrow> xs. Suc (g x)) \<le> 2 * length (intersperse_comma (map f xs)) + 1"
  using assms
proof (induction xs)
  case (Cons x xs)
  have "g x \<le> 2 * length (f x)" using Cons.prems by simp
  moreover have "(\<Sum>x \<leftarrow> xs. Suc (g x)) \<le> 2 * length (intersperse_comma (map f xs)) + 1"
    using Cons.prems by (intro Cons.IH) simp
  ultimately show ?case by (cases xs) simp_all
qed simp

lemma show_int_length: "Suc 0 \<le> length (show_int i)"
proof -
  obtain c cs where "show_int i = c # cs" by (rule show_int_head)
  then show ?thesis by simp
qed

lemma need_le_length: "no_fraction j \<Longrightarrow> need j \<le> 2 * length (stringify j)"
proof (induction j rule: need.induct)
  case (1 js)
  then have "(\<Sum>j \<leftarrow> js. Suc (need j)) \<le> 2 * length (intersperse_comma (map stringify js)) + 1"
    by (intro sum_list_need_le) (auto simp: list_all_iff)
  then show ?case by simp
next
  case (2 ps)
  then have "(\<Sum>p \<leftarrow> ps. Suc (need (snd p))) \<le> 2 * length (intersperse_comma
      (map (\<lambda>p. quote_string (fst p) @ CHR '':'' # stringify (snd p)) ps)) + 1"
    by (intro sum_list_need_le) (fastforce simp: list_all_iff)
  then show ?case by simp
qed (simp_all add: quote_string_def show_int_length)

theorem json_parse_stringify_gen:
  assumes "no_fraction j"
  shows "json_parse (stringify j) = Some j"
proof -
  have "parse_value (2 * length (stringify j) + 2) (stringify j @ []) = Some (j, [])"
    using assms need_le_length [of j] by (intro parse_value_stringify) (auto simp: delimited_def)
  then show ?thesis by (simp add: json_parse_def del: parse_value.simps)
qed

lemma stringify_inj:
  assumes "no_fraction i" and "no_fraction j" and "stringify i = stringify j"
  shows "i = j"
proof -
  have "Some i = Some j"
    unfolding json_parse_stringify_gen [OF assms(1), symmetric]
      json_parse_stringify_gen [OF assms(2), symmetric] assms(3) ..
  then show ?thesis by (rule option.inject [THEN iffD1])
qed

end
