(* ===== verification/Conversation.thy ===== *)
theory Conversation
  imports Paging Json
begin

text \<open>
  \<open>conversation/service.ts\<close> and \<open>conversation/cursor.ts\<close>: creating a conversation
  with its two participants under an idempotency key, reading one, listing a
  principal's conversations newest first. \<open>sha256\<close> is the hash of \<open>node:crypto\<close> as a
  hexadecimal text; \<open>iso_text\<close> and \<open>date_parse\<close> are \<open>toISOString\<close> and \<open>Date.parse\<close>. The
  fresh identifiers and the statement clock are arguments.
\<close>

record conversation_ids =
  id_conversation :: ident
  id_userParticipant :: ident
  id_agentParticipant :: ident

subsection \<open>Reading\<close>

definition find_conversation :: "'a scope_scheme \<Rightarrow> ident \<Rightarrow> db \<Rightarrow> conversation_row option" where
  "find_conversation scope conversationId d =
     find (\<lambda>c. c_tenant_id c = sc_tenantId scope \<and> c_site_id c = sc_siteId scope
         \<and> c_principal_id c = sc_principalId scope \<and> c_conversation_id c = conversationId)
       (conversations d)"

fun map_participant :: "participant_row \<Rightarrow> participant" where
  "map_participant p =
     (case cp_ref p of
        User_ref prin \<Rightarrow>
          \<lparr>pt_participantId = cp_participant_id p, pt_kind = User,
           pt_principalId = Some prin, pt_agentRef = None\<rparr>
      | Agent_ref agent \<Rightarrow>
          \<lparr>pt_participantId = cp_participant_id p, pt_kind = Agent,
           pt_principalId = None, pt_agentRef = Some agent\<rparr>)"

definition users_first :: "participant_row list \<Rightarrow> participant_row list" where
  "users_first ps = order_asc (\<lambda>p. if participant_is_user (cp_ref p) then 0 else 1 :: nat) ps"

definition get_conversation :: "'a scope_scheme \<Rightarrow> ident \<Rightarrow> db \<Rightarrow> failure + conversation" where
  "get_conversation scope conversationId d =
     (case find_conversation scope conversationId d of
        None \<Rightarrow> Inl (ApiError CONVERSATION_NOT_FOUND 404)
      | Some c \<Rightarrow>
          (let participants = filter (\<lambda>p. cp_tenant_id p = sc_tenantId scope
                 \<and> cp_site_id p = sc_siteId scope \<and> cp_conversation_id p = conversationId)
               (conversation_participants d)
           in Inr \<lparr>co_conversationId = c_conversation_id c, co_tenantId = c_tenant_id c,
                   co_siteId = c_site_id c, co_principalId = c_principal_id c,
                   co_agentRef = c_agent_ref c, co_status = c_status c,
                   co_participants = map map_participant (users_first participants),
                   co_createdAt = to_js (c_created_at c),
                   co_updatedAt = to_js (c_updated_at c)\<rparr>))"

subsection \<open>Creating\<close>

definition create_operation :: string where
  "create_operation = ''conversation:create''"

definition create_transaction ::
  "(string \<Rightarrow> string) \<Rightarrow> conversation_ids \<Rightarrow> pg_time \<Rightarrow> conversation_scope \<Rightarrow> string \<Rightarrow> db
    \<Rightarrow> failure + (ident \<times> db)" where
  "create_transaction sha256 ids clock scope idempotencyKey d =
     (let requestHash = sha256 ''{}'' in
      case findIdempotency scope create_operation idempotencyKey d of
        Some previous \<Rightarrow>
          (if k_request_hash previous \<noteq> requestHash
           then Inl (ApiError IDEMPOTENCY_CONFLICT 409)
           else Inr (k_resource_id previous, d))
      | None \<Rightarrow>
          and_then (insert_conversation
              \<lparr>c_conversation_id = id_conversation ids, c_tenant_id = sc_tenantId scope,
               c_site_id = sc_siteId scope, c_principal_id = sc_principalId scope,
               c_agent_ref = sc_agentRef scope, c_status = Conv_active,
               c_next_message_sequence = 1, c_next_event_sequence = 1,
               c_created_at = clock, c_updated_at = clock\<rparr> d) (\<lambda>d1.
          and_then (insert_participant
              \<lparr>cp_participant_id = id_userParticipant ids, cp_tenant_id = sc_tenantId scope,
               cp_site_id = sc_siteId scope, cp_conversation_id = id_conversation ids,
               cp_ref = User_ref (sc_principalId scope), cp_created_at = clock\<rparr> d1) (\<lambda>d2.
          and_then (insert_participant
              \<lparr>cp_participant_id = id_agentParticipant ids, cp_tenant_id = sc_tenantId scope,
               cp_site_id = sc_siteId scope, cp_conversation_id = id_conversation ids,
               cp_ref = Agent_ref (sc_agentRef scope), cp_created_at = clock\<rparr> d2) (\<lambda>d3.
          and_then (insert_command_key
              (key_row scope create_operation idempotencyKey requestHash (id_conversation ids)
                 clock) d3) (\<lambda>d4.
          Inr (id_conversation ids, d4))))))"

definition create_conversation ::
  "(string \<Rightarrow> string) \<Rightarrow> conversation_ids \<Rightarrow> pg_time \<Rightarrow> conversation_scope \<Rightarrow> string \<Rightarrow> db
    \<Rightarrow> failure + (conversation \<times> db)" where
  "create_conversation sha256 ids clock scope idempotencyKey d =
     and_then (create_transaction sha256 ids clock scope idempotencyKey d) (\<lambda>(id, d').
       and_then (get_conversation scope id d') (\<lambda>c. Inr (c, d')))"

subsection \<open>Cursors and listing\<close>

definition encodeConversationCursor :: "string \<Rightarrow> ident \<Rightarrow> string" where
  "encodeConversationCursor createdAt conversationId =
     to_base64url (stringify (JArray [JString createdAt, JString conversationId]))"

definition decodeConversationCursor ::
  "(string \<Rightarrow> js_date option) \<Rightarrow> string \<Rightarrow> (string \<times> ident) option" where
  "decodeConversationCursor date_parse value =
     (case Option.bind (from_base64url value) json_parse of
        Some (JArray [JString createdAt, JString conversationId]) \<Rightarrow>
          if date_parse createdAt = None then None else Some (createdAt, conversationId)
      | _ \<Rightarrow> None)"

definition conversation_key :: "conversation_row \<Rightarrow> page_key" where
  "conversation_key c = Page_key (c_created_at c) (c_conversation_id c)"

text \<open>The rows of the listing's query for a cursor's date and id, before \<open>limit\<close>.\<close>

definition conversation_query ::
  "'a scope_scheme \<Rightarrow> (js_date \<times> ident) option \<Rightarrow> db \<Rightarrow> conversation_row list" where
  "conversation_query scope cursor d =
     order_desc conversation_key
       (filter (\<lambda>c. case cursor of
             None \<Rightarrow> True
           | Some (createdAt, conversationId) \<Rightarrow>
               c_created_at c < to_pg createdAt
               \<or> (c_created_at c = to_pg createdAt \<and> c_conversation_id c < conversationId))
         (filter (\<lambda>c. c_tenant_id c = sc_tenantId scope \<and> c_site_id c = sc_siteId scope
             \<and> c_principal_id c = sc_principalId scope) (conversations d)))"

fun get_each :: "'a scope_scheme \<Rightarrow> conversation_row list \<Rightarrow> db \<Rightarrow> failure + conversation list" where
  "get_each scope [] d = Inr []"
| "get_each scope (c # cs) d =
     and_then (get_conversation scope (c_conversation_id c) d) (\<lambda>x.
       and_then (get_each scope cs d) (\<lambda>xs. Inr (x # xs)))"

definition list_conversations ::
  "(js_date \<Rightarrow> string) \<Rightarrow> (string \<Rightarrow> js_date option) \<Rightarrow> 'a scope_scheme \<Rightarrow> nat
    \<Rightarrow> string option \<Rightarrow> db \<Rightarrow> failure + (conversation list \<times> string option)" where
  "list_conversations iso_text date_parse scope limit cursor d =
     and_then (case cursor of
         None \<Rightarrow> Inr None
       | Some text \<Rightarrow>
           if text = [] then Inr None else
           (case decodeConversationCursor date_parse text of
              None \<Rightarrow> Inl (ApiError INVALID_CURSOR 400)
            | Some (createdAt, conversationId) \<Rightarrow>
                Inr (Some (the (date_parse createdAt), conversationId)))) (\<lambda>decoded.
     let page = page_of limit (conversation_query scope decoded d)
     in and_then (get_each scope (fst page) d) (\<lambda>data.
        Inr (data, map_option (\<lambda>tail.
          encodeConversationCursor (iso_text (to_js (c_created_at tail))) (c_conversation_id tail))
            (snd page))))"

subsection \<open>Creation is idempotent\<close>

lemma create_transaction_keys:
  assumes "create_transaction sha256 ids clock scope key d = Inr (r, d')"
  shows "(\<exists>row. findIdempotency scope create_operation key d = Some row
             \<and> k_request_hash row = sha256 ''{}'' \<and> r = k_resource_id row \<and> d' = d)
         \<or> (findIdempotency scope create_operation key d = None \<and> r = id_conversation ids
             \<and> command_idempotency d' = command_idempotency d
                 @ [key_row scope create_operation key (sha256 ''{}'') r clock])"
  using assms
  by (auto simp: create_transaction_def Let_def split: option.splits if_splits dest!: insert_Inr)

text \<open>A creation command: its fresh identifiers, the clock, its scope and its key.\<close>

type_synonym create_command = "conversation_ids \<times> pg_time \<times> conversation_scope \<times> string"

definition create_exec ::
  "(string \<Rightarrow> string) \<Rightarrow> create_command \<Rightarrow> db \<Rightarrow> failure + (ident \<times> db)" where
  "create_exec sha256 = (\<lambda>(ids, clock, scope, key). create_transaction sha256 ids clock scope key)"

definition create_lookup :: "create_command \<Rightarrow> db \<Rightarrow> command_key_row option" where
  "create_lookup = (\<lambda>(ids, clock, scope, key). findIdempotency scope create_operation key)"

interpretation create: hash_checked_command "create_exec sha256" create_lookup
  "\<lambda>_. sha256 ''{}''" "\<lambda>_. Inr" "\<lambda>_. True" "ApiError IDEMPOTENCY_CONFLICT 409"
  for sha256
proof unfold_locales
  fix a :: create_command and b :: create_command and d d' r row
  obtain ids clock scope key where a: "a = (ids, clock, scope, key)" by (cases a)
  {
    assume "create_lookup a d = None" and "create_exec sha256 a d = Inr (r, d')"
    then have "findIdempotency scope create_operation key d' =
        Some (key_row scope create_operation key (sha256 ''{}'') r clock)"
      using create_transaction_keys [of sha256 ids clock scope key d r d']
      by (auto simp: a create_exec_def create_lookup_def intro: findIdempotency_recorded)
    then show "\<exists>row. create_lookup a d' = Some row \<and> k_request_hash row = sha256 ''{}''
        \<and> Inr (k_resource_id row) = Inr r"
      by (simp add: a create_lookup_def)
  next
    assume "create_lookup a d = Some row" and "k_request_hash row = sha256 ''{}''"
    then show "create_exec sha256 a d = and_then (Inr (k_resource_id row)) (\<lambda>r. Inr (r, d))"
      by (simp add: a create_exec_def create_lookup_def create_transaction_def Let_def)
  next
    obtain ids' clock' scope' key' where b: "b = (ids', clock', scope', key')" by (cases b)
    assume "create_exec sha256 b d = Inr (r, d')" and "create_lookup a d = Some row"
    then show "create_lookup a d' = Some row"
      using create_transaction_keys [of sha256 ids' clock' scope' key' d r d']
      by (auto simp: a b create_exec_def create_lookup_def intro: findIdempotency_kept)
  next
    assume "create_lookup a d = Some row" and "k_request_hash row \<noteq> sha256 ''{}''"
    then show "create_exec sha256 a d = Inl (ApiError IDEMPOTENCY_CONFLICT 409)"
      by (simp add: a create_exec_def create_lookup_def create_transaction_def Let_def)
  }
qed

text \<open>
  Creating a conversation is idempotent: once a creation with a key succeeded, the
  same key of the same principal, with other fresh identifiers and at another time,
  returns the same conversation and leaves the database as it is.
\<close>
theorem create_conversation_idempotent:
  assumes "create_conversation sha256 ids clock scope key d = Inr (c, d')"
  shows "create_conversation sha256 ids' clock' scope key d' = Inr (c, d')"
proof -
  obtain cid where tx: "create_transaction sha256 ids clock scope key d = Inr (cid, d')"
    and get: "get_conversation scope cid d' = Inr c"
    using assms by (auto simp: create_conversation_def)
  have "create_exec sha256 (ids', clock', scope, key) d' = Inr (cid, d')"
    by (rule create.exactly_once_now [where a = "(ids, clock, scope, key)"])
      (use tx in \<open>simp_all add: create_exec_def create_lookup_def\<close>)
  with get show ?thesis by (simp add: create_exec_def create_conversation_def)
qed

subsection \<open>A created conversation is well formed\<close>

definition participants_inv :: "db \<Rightarrow> bool" where
  "participants_inv d \<longleftrightarrow>
     list_all (\<lambda>p. exists_row (\<lambda>c. c_conversation_id c = cp_conversation_id p) (conversations d))
       (conversation_participants d)"

lemma create_transaction_effect:
  assumes "create_transaction sha256 ids clock scope key d = Inr (r, d')"
    and "findIdempotency scope create_operation key d = None"
  shows "r = id_conversation ids"
    and "\<forall>c \<in> set (conversations d). c_conversation_id c \<noteq> id_conversation ids"
    and "id_userParticipant ids \<noteq> id_agentParticipant ids"
    and "conversations d' = conversations d @
        [\<lparr>c_conversation_id = id_conversation ids, c_tenant_id = sc_tenantId scope,
          c_site_id = sc_siteId scope, c_principal_id = sc_principalId scope,
          c_agent_ref = sc_agentRef scope, c_status = Conv_active,
          c_next_message_sequence = 1, c_next_event_sequence = 1,
          c_created_at = clock, c_updated_at = clock\<rparr>]"
    and "conversation_participants d' = conversation_participants d @
        [\<lparr>cp_participant_id = id_userParticipant ids, cp_tenant_id = sc_tenantId scope,
          cp_site_id = sc_siteId scope, cp_conversation_id = id_conversation ids,
          cp_ref = User_ref (sc_principalId scope), cp_created_at = clock\<rparr>,
         \<lparr>cp_participant_id = id_agentParticipant ids, cp_tenant_id = sc_tenantId scope,
          cp_site_id = sc_siteId scope, cp_conversation_id = id_conversation ids,
          cp_ref = Agent_ref (sc_agentRef scope), cp_created_at = clock\<rparr>]"
    and "messages d' = messages d" and "agent_runs d' = agent_runs d"
    and "conversation_events d' = conversation_events d"
  using assms
  by (auto simp: create_transaction_def Let_def insert_conversation_def insert_participant_def
      insert_command_key_def split: option.splits if_splits)

lemma find_fresh_snoc:
  "\<forall>x \<in> set xs. \<not> p x \<Longrightarrow> p y \<Longrightarrow> find p (xs @ [y]) = Some y"
  by (induction xs) auto

text \<open>
  A fresh creation yields a conversation that the published schema accepts: the
  scope's tenant, site, principal and agent, active, and exactly two participants, the
  user acting for the principal and the agent acting for the agent reference, which is
  what \<open>validateConversationParticipantContext\<close> requires of a resource.
\<close>
theorem created_conversation_valid:
  assumes "create_conversation sha256 ids clock scope key d = Inr (c, d')"
    and "findIdempotency scope create_operation key d = None"
    and "participants_inv d"
    and "list_all opaque_id [id_conversation ids, id_userParticipant ids, id_agentParticipant ids,
           sc_tenantId scope, sc_siteId scope, sc_principalId scope, sc_agentRef scope]"
  shows "conversation_ok c \<and> validateConversationParticipantContext c
       \<and> co_conversationId c = id_conversation ids \<and> co_status c = Conv_active
       \<and> co_principalId c = sc_principalId scope \<and> co_agentRef c = sc_agentRef scope
       \<and> participants_inv d'"
proof -
  obtain cid where tx: "create_transaction sha256 ids clock scope key d = Inr (cid, d')"
    and get: "get_conversation scope cid d' = Inr c"
    using assms(1) by (auto simp: create_conversation_def)
  note eff = create_transaction_effect [OF tx assms(2)]
  have none: "filter (\<lambda>p. cp_tenant_id p = sc_tenantId scope
        \<and> cp_site_id p = sc_siteId scope \<and> cp_conversation_id p = id_conversation ids)
      (conversation_participants d) = []"
    using assms(3) eff(2) by (fastforce simp: participants_inv_def filter_empty_conv list_all_iff)
  have found: "find_conversation scope cid d' = Some
        \<lparr>c_conversation_id = id_conversation ids, c_tenant_id = sc_tenantId scope,
          c_site_id = sc_siteId scope, c_principal_id = sc_principalId scope,
          c_agent_ref = sc_agentRef scope, c_status = Conv_active,
          c_next_message_sequence = 1, c_next_event_sequence = 1,
          c_created_at = clock, c_updated_at = clock\<rparr>"
    using eff(2) by (simp add: find_conversation_def eff(1,4) find_fresh_snoc)
  have "participants_inv d'"
    using assms(3) eff(4,5) by (auto simp: participants_inv_def list_all_iff)
  with get found none eff(1,3,5) assms(4) show ?thesis
    by (auto simp: get_conversation_def users_first_def order_asc_def conversation_ok_def
        validateConversationParticipantContext_def count_where_def Let_def)
qed

subsection \<open>Scope isolation\<close>

lemma get_conversation_scope:
  "get_conversation scope cid d = Inr c \<Longrightarrow>
     co_conversationId c = cid \<and> co_tenantId c = sc_tenantId scope
     \<and> co_siteId c = sc_siteId scope \<and> co_principalId c = sc_principalId scope"
  by (auto simp: get_conversation_def find_conversation_def Let_def split: option.splits
      dest: find_SomeD)

lemma get_each_member:
  "get_each scope rows d = Inr cs \<Longrightarrow> c \<in> set cs \<Longrightarrow>
   \<exists>row \<in> set rows. get_conversation scope (c_conversation_id row) d = Inr c"
  by (induction rows arbitrary: cs) auto

lemma get_each_length: "get_each scope rows d = Inr cs \<Longrightarrow> length cs = length rows"
  by (induction rows arbitrary: cs) auto

text \<open>
  A principal never reads another's conversation: whatever the identifier, the
  cursor and the limit, a conversation that \<open>get\<close> or \<open>list\<close> returns carries the
  tenant, site and principal of the request's scope, and a page has at most \<open>limit\<close>
  of them.
\<close>
theorem conversation_scope_isolation:
  "(get_conversation scope cid d = Inr c \<longrightarrow>
      co_tenantId c = sc_tenantId scope \<and> co_siteId c = sc_siteId scope
      \<and> co_principalId c = sc_principalId scope \<and> co_conversationId c = cid)
   \<and> (list_conversations iso_text date_parse scope limit cursor d = Inr (data, next) \<longrightarrow>
      length data \<le> limit \<and>
      (\<forall>x \<in> set data. co_tenantId x = sc_tenantId scope \<and> co_siteId x = sc_siteId scope
        \<and> co_principalId x = sc_principalId scope))"
proof (intro conjI impI)
  assume "list_conversations iso_text date_parse scope limit cursor d = Inr (data, next)"
  then obtain decoded where
    each: "get_each scope (take limit (conversation_query scope decoded d)) d = Inr data"
    by (auto simp: list_conversations_def Let_def)
  show "length data \<le> limit" using get_each_length [OF each] by simp
  show "\<forall>x \<in> set data. co_tenantId x = sc_tenantId scope \<and> co_siteId x = sc_siteId scope
        \<and> co_principalId x = sc_principalId scope"
    using get_each_member [OF each] get_conversation_scope by blast
qed (auto dest: get_conversation_scope)

subsection \<open>Listing\<close>

lemma decode_encode_conversation_cursor:
  "date_parse createdAt \<noteq> None \<Longrightarrow>
   decodeConversationCursor date_parse (encodeConversationCursor createdAt cid) = Some (createdAt, cid)"
  by (simp add: decodeConversationCursor_def encodeConversationCursor_def json_parse_stringify_gen
      del: stringify.simps)

lemma from_base64url_Nil [simp]: "from_base64url [] = Some []"
  by (simp add: from_base64url_def b64_decode_def List.map_filter_def)

lemma base64url_nonempty:
  assumes "s \<noteq> []"
  shows "to_base64url s \<noteq> []"
proof
  assume "to_base64url s = []"
  then have "from_base64url (to_base64url s) = Some []" by (simp only: from_base64url_Nil)
  with assms show False by simp
qed

lemma encodeConversationCursor_nonempty [simp]: "encodeConversationCursor createdAt cid \<noteq> []"
  by (simp add: encodeConversationCursor_def base64url_nonempty)

text \<open>The listing's rows, and the conversations they stand for.\<close>

definition listed :: "'a scope_scheme \<Rightarrow> db \<Rightarrow> conversation_row list" where
  "listed scope d = conversation_query scope None d"

definition conversation_of :: "'a scope_scheme \<Rightarrow> db \<Rightarrow> conversation_row \<Rightarrow> conversation" where
  "conversation_of scope d row =
     (case get_conversation scope (c_conversation_id row) d of Inr c \<Rightarrow> c | Inl _ \<Rightarrow> undefined)"

text \<open>Creation times that are whole milliseconds, as a JavaScript \<open>Date\<close> keeps them.\<close>

definition whole_ms :: "pg_time \<Rightarrow> bool" where
  "whole_ms t \<longleftrightarrow> to_pg (to_js t) = t"

lemma conversation_query_after:
  "conversation_query scope (Some (createdAt, cid)) d =
   filter (\<lambda>c. conversation_key c < Page_key (to_pg createdAt) cid) (listed scope d)"
  by (simp add: conversation_query_def listed_def order_desc_filter conversation_key_def)

lemma listed_strict:
  assumes "distinct (map c_conversation_id (conversations d))"
  shows "sorted_wrt (>) (map conversation_key (listed scope d))"
proof -
  have "distinct (map conversation_key (conversations d))"
    using assms by (auto simp: distinct_map inj_on_def conversation_key_def)
  then show ?thesis
    by (auto simp: listed_def conversation_query_def intro!: strict_order_desc distinct_map_filter)
qed

lemma listed_found:
  assumes "distinct (map c_conversation_id (conversations d))" and "row \<in> set (listed scope d)"
  shows "get_conversation scope (c_conversation_id row) d = Inr (conversation_of scope d row)"
proof -
  have "row \<in> set (conversations d)" and "c_tenant_id row = sc_tenantId scope"
    "c_site_id row = sc_siteId scope" "c_principal_id row = sc_principalId scope"
    using assms(2) by (auto simp: listed_def conversation_query_def)
  then have "find_conversation scope (c_conversation_id row) d = Some row"
    unfolding find_conversation_def by (intro find_distinct [OF assms(1)]) auto
  then show ?thesis by (simp add: conversation_of_def get_conversation_def Let_def)
qed

lemma get_each_listed:
  assumes "distinct (map c_conversation_id (conversations d))" and "set rows \<subseteq> set (listed scope d)"
  shows "get_each scope rows d = Inr (map (conversation_of scope d) rows)"
  using assms(2) by (induction rows) (auto simp: listed_found [OF assms(1)])

definition row_cursor :: "(js_date \<Rightarrow> string) \<Rightarrow> conversation_row \<Rightarrow> string" where
  "row_cursor iso_text row =
     encodeConversationCursor (iso_text (to_js (c_created_at row))) (c_conversation_id row)"

lemma list_conversations_first:
  assumes "distinct (map c_conversation_id (conversations d))"
  shows "list_conversations iso_text date_parse scope limit None d =
     Inr (map (conversation_of scope d) (fst (page_of limit (listed scope d))),
          map_option (row_cursor iso_text) (snd (page_of limit (listed scope d))))"
  using get_each_listed [OF assms, of "take limit (listed scope d)" scope]
    set_take_subset [of limit "listed scope d"]
  by (simp add: list_conversations_def Let_def listed_def row_cursor_def [abs_def])

lemma list_conversations_next:
  assumes "distinct (map c_conversation_id (conversations d))"
    and "\<And>t. date_parse (iso_text t) = Some t"
    and "n < length (listed scope d)" and "whole_ms (c_created_at (listed scope d ! n))"
  shows "list_conversations iso_text date_parse scope limit
       (Some (row_cursor iso_text (listed scope d ! n))) d =
     (let page = page_of limit (drop (Suc n) (listed scope d))
      in Inr (map (conversation_of scope d) (fst page), map_option (row_cursor iso_text) (snd page)))"
proof -
  let ?row = "listed scope d ! n"
  have key: "Page_key (to_pg (to_js (c_created_at ?row))) (c_conversation_id ?row)
      = conversation_key ?row"
    using assms(4) by (simp add: conversation_key_def whole_ms_def)
  have query: "conversation_query scope (Some (to_js (c_created_at ?row), c_conversation_id ?row)) d
      = drop (Suc n) (listed scope d)"
    unfolding conversation_query_after key
    by (rule filter_strict_desc_drop [OF listed_strict [OF assms(1)] assms(3)])
  have sub: "set (take limit (drop (Suc n) (listed scope d))) \<subseteq> set (listed scope d)"
    by (meson set_drop_subset set_take_subset subset_trans)
  show ?thesis
    by (simp add: list_conversations_def row_cursor_def [abs_def] decode_encode_conversation_cursor assms(2)
        query Let_def get_each_listed [OF assms(1) sub])
qed

text \<open>
  What the listing needs: unique identifiers, whole-millisecond creation times, a
  positive limit, and a host whose \<open>Date.parse\<close> reads what its \<open>toISOString\<close> writes.
\<close>

definition listing_ok ::
  "(js_date \<Rightarrow> string) \<Rightarrow> (string \<Rightarrow> js_date option) \<Rightarrow> 'a scope_scheme \<times> db \<times> nat \<Rightarrow> bool" where
  "listing_ok iso_text date_parse = (\<lambda>(scope, d, limit).
     distinct (map c_conversation_id (conversations d))
     \<and> list_all (\<lambda>c. whole_ms (c_created_at c)) (conversations d)
     \<and> 0 < limit \<and> (\<forall>t. date_parse (iso_text t) = Some t))"

interpretation conversation_listing: keyset_listing
  "\<lambda>(scope, d, limit) cursor. list_conversations iso_text date_parse scope limit cursor d"
  "\<lambda>(scope, d, limit). map (conversation_of scope d) (listed scope d)"
  "\<lambda>(scope, d, limit) n. row_cursor iso_text (listed scope d ! n)"
  "\<lambda>(scope, d, limit). limit"
  "listing_ok iso_text date_parse"
  for iso_text date_parse
proof (unfold_locales, goal_cases)
  case (1 s)
  then show ?case by (auto simp: listing_ok_def)
next
  case (2 s)
  obtain scope d limit where s: "s = (scope, d, limit)" by (cases s)
  with 2 have "distinct (map c_conversation_id (conversations d))" and "0 < limit"
    by (simp_all add: listing_ok_def)
  then show ?case
    using page_of_drop [of limit 0 "listed scope d"]
    by (simp add: s list_conversations_first take_map)
next
  case (3 s n)
  obtain scope d limit where s: "s = (scope, d, limit)" by (cases s)
  from 3 have d: "distinct (map c_conversation_id (conversations d))" "0 < limit"
    "\<And>t. date_parse (iso_text t) = Some t" and n: "n < length (listed scope d)"
    by (simp_all add: listing_ok_def s)
  have "listed scope d ! n \<in> set (listed scope d)" using n by simp
  then have "listed scope d ! n \<in> set (conversations d)"
    by (auto simp: listed_def conversation_query_def)
  then have "whole_ms (c_created_at (listed scope d ! n))"
    using 3 by (simp add: listing_ok_def s list_all_iff)
  then show ?case
    using page_of_drop [OF d(2), of "Suc n" "listed scope d"]
    by (simp add: s list_conversations_next [OF d(1,3) n] take_map drop_map)
qed

text \<open>
  A client that follows the cursors of the conversation listing collects each of the
  principal's conversations once, newest first, when the creation times are whole
  milliseconds (the precision of the cursor).
\<close>
theorem conversation_listing_complete:
  assumes "distinct (map c_conversation_id (conversations d))"
    and "list_all (\<lambda>c. whole_ms (c_created_at c)) (conversations d)"
    and "0 < limit" and "\<And>t. date_parse (iso_text t) = Some t"
    and "length (conversations d) < fuel * limit"
  shows "follow (\<lambda>cursor. list_conversations iso_text date_parse scope limit cursor d) fuel None
       = Inr (map (conversation_of scope d) (listed scope d))
     \<and> sorted_wrt (>) (map conversation_key (listed scope d))
     \<and> set (listed scope d) = {c \<in> set (conversations d). c_tenant_id c = sc_tenantId scope
         \<and> c_site_id c = sc_siteId scope \<and> c_principal_id c = sc_principalId scope}"
proof (intro conjI)
  have "length (listed scope d) \<le> length (conversations d)"
    by (simp add: listed_def conversation_query_def)
  with assms show "follow (\<lambda>cursor. list_conversations iso_text date_parse scope limit cursor d)
      fuel None = Inr (map (conversation_of scope d) (listed scope d))"
    using conversation_listing.follow_all [of iso_text date_parse "(scope, d, limit)" fuel]
    by (simp add: listing_ok_def)
  show "sorted_wrt (>) (map conversation_key (listed scope d))"
    by (rule listed_strict [OF assms(1)])
qed (auto simp: listed_def conversation_query_def)

lemma conversation_listing_complete_witness:
  "follow (\<lambda>cursor. list_conversations show_int read_int sample_scope 1 cursor
       (sample_db\<lparr>conversations := [sample_conversation ''c1'' 1000, sample_conversation ''c2'' 2000]\<rparr>))
     3 None
   = Inr (map (conversation_of sample_scope
         (sample_db\<lparr>conversations := [sample_conversation ''c1'' 1000, sample_conversation ''c2'' 2000]\<rparr>))
       (listed sample_scope
         (sample_db\<lparr>conversations := [sample_conversation ''c1'' 1000, sample_conversation ''c2'' 2000]\<rparr>)))"
  by (rule conversation_listing_complete [THEN conjunct1])
    (simp_all add: sample_defs whole_ms_def to_pg_def to_js_def)

definition same_ms_db :: db where
  "same_ms_db = sample_db
     \<lparr>conversations := [sample_conversation ''c1'' 1000400, sample_conversation ''c2'' 1000500]\<rparr>"

text \<open>
  The cursor keeps the creation time of the page's last row in milliseconds, the column
  in microseconds. Two conversations created in one millisecond: a client that reads pages
  of one row gets the newer one and is then told there is nothing more.
\<close>
theorem conversation_listing_skips_within_ms:
  assumes "\<And>t. date_parse (iso_text t) = Some t"
  shows "follow (\<lambda>cursor. list_conversations iso_text date_parse sample_scope 1 cursor same_ms_db)
       3 None = Inr [conversation_of sample_scope same_ms_db (sample_conversation ''c2'' 1000500)]
     \<and> listed sample_scope same_ms_db
         = [sample_conversation ''c2'' 1000500, sample_conversation ''c1'' 1000400]"
proof -
  have listed: "listed sample_scope same_ms_db
      = [sample_conversation ''c2'' 1000500, sample_conversation ''c1'' 1000400]"
    by (simp add: listed_def conversation_query_def same_ms_db_def sample_defs order_desc_def
        conversation_key_def)
  have dist: "distinct (map c_conversation_id (conversations same_ms_db))"
    by (simp add: same_ms_db_def sample_defs)
  let ?cursor = "row_cursor iso_text (sample_conversation ''c2'' 1000500)"
  have first: "list_conversations iso_text date_parse sample_scope 1 None same_ms_db =
      Inr ([conversation_of sample_scope same_ms_db (sample_conversation ''c2'' 1000500)],
        Some ?cursor)"
    by (simp add: list_conversations_first [OF dist] listed page_of_def)
  have "conversation_query sample_scope (Some (1000, ''c2'')) same_ms_db = []"
    by (simp add: conversation_query_after listed conversation_key_def sample_conversation_def
        to_pg_def)
  then have second: "list_conversations iso_text date_parse sample_scope 1 (Some ?cursor) same_ms_db
      = Inr ([], None)"
    by (simp add: list_conversations_def row_cursor_def decode_encode_conversation_cursor assms
        sample_conversation_def to_js_def page_of_def)
  from first second show ?thesis by (simp add: eval_nat_numeral listed)
qed

lemma conversation_listing_skips_within_ms_witness:
  "follow (\<lambda>cursor. list_conversations show_int read_int sample_scope 1 cursor same_ms_db) 3 None
     = Inr [conversation_of sample_scope same_ms_db (sample_conversation ''c2'' 1000500)]"
  by (rule conversation_listing_skips_within_ms [THEN conjunct1]) simp

lemma create_conversation_idempotent_witness:
  "\<exists>c d'. create_conversation (\<lambda>s. s) \<lparr>id_conversation = ''c1'', id_userParticipant = ''u1'',
        id_agentParticipant = ''a1''\<rparr> 5 sample_scope ''k'' sample_db = Inr (c, d')
     \<and> create_conversation (\<lambda>s. s) \<lparr>id_conversation = ''c2'', id_userParticipant = ''u2'',
        id_agentParticipant = ''a2''\<rparr> 9 sample_scope ''k'' d' = Inr (c, d')"
proof -
  obtain c d' where first: "create_conversation (\<lambda>s. s) \<lparr>id_conversation = ''c1'',
      id_userParticipant = ''u1'', id_agentParticipant = ''a1''\<rparr> 5 sample_scope ''k'' sample_db
      = Inr (c, d')"
    by (simp add: create_conversation_def create_transaction_def findIdempotency_def sample_defs
        insert_defs fits_def site_exists_def principal_exists_def conversation_exists_def
        create_operation_def key_row_def get_conversation_def find_conversation_def)
  then show ?thesis using create_conversation_idempotent [OF first] by blast
qed

lemma created_conversation_valid_witness:
  "\<exists>c d'. create_conversation (\<lambda>s. s) \<lparr>id_conversation = ''c1'', id_userParticipant = ''u1'',
        id_agentParticipant = ''a1''\<rparr> 5 sample_scope ''k'' sample_db = Inr (c, d')
     \<and> conversation_ok c"
proof -
  obtain c d' where first: "create_conversation (\<lambda>s. s) \<lparr>id_conversation = ''c1'',
      id_userParticipant = ''u1'', id_agentParticipant = ''a1''\<rparr> 5 sample_scope ''k'' sample_db
      = Inr (c, d')"
    by (simp add: create_conversation_def create_transaction_def findIdempotency_def sample_defs
        insert_defs fits_def site_exists_def principal_exists_def conversation_exists_def
        create_operation_def key_row_def get_conversation_def find_conversation_def)
  have "conversation_ok c"
    using created_conversation_valid [OF first]
    by (simp add: findIdempotency_def sample_defs participants_inv_def opaque_id_def is_alnum_def
        is_upper_def is_lower_def is_digit_def code_unit_def opaque_tail_char_def)
  with first show ?thesis by blast
qed

lemma conversation_scope_isolation_witness:
  "\<exists>c. get_conversation sample_scope ''c1'' sample_chat = Inr c \<and> co_principalId c = ''p1''"
proof -
  obtain c where "get_conversation sample_scope ''c1'' sample_chat = Inr c"
    by (simp add: get_conversation_def find_conversation_def sample_defs Let_def)
  with conversation_scope_isolation [of sample_scope "''c1''" sample_chat c "\<lambda>_. []" "\<lambda>_. None" 1 None "[]" None]
  show ?thesis by (simp add: sample_scope_def)
qed

end
