(* ===== verification/Message.thy ===== *)
theory Message
  imports Conversation
begin

text \<open>
  \<open>message/service.ts\<close>: submitting a user message (which allocates the conversation's
  next message sequence and queues the agent run that answers it), and listing a
  conversation's messages by sequence. A submission carries text parts only
  (\<open>SubmitMessageRequestSchema\<close>), so a request is the list of their texts.
\<close>

record message_ids =
  id_message :: ident
  id_run :: ident
  id_assistantMessage :: ident

subsection \<open>Cursor\<close>

definition encodeCursor :: "int \<Rightarrow> string" where
  "encodeCursor sequence = to_base64url (show_int sequence)"

definition decodeCursor :: "string \<Rightarrow> int option" where
  "decodeCursor cursor =
     (case from_base64url cursor of
        None \<Rightarrow> None
      | Some value \<Rightarrow>
          if \<not> positive_decimal value then None
          else (let sequence = int (read_nat value)
                in if sequence \<le> max_safe_integer then Some sequence else None))"

subsection \<open>Reading\<close>

definition mapMessage :: "message_row \<Rightarrow> message" where
  "mapMessage row =
     \<lparr>ms_messageId = m_message_id row, ms_conversationId = m_conversation_id row,
      ms_sequence = m_sequence row, ms_participantId = m_participant_id row,
      ms_role = m_role row, ms_status = m_status row, ms_parts = m_parts row,
      ms_createdAt = to_js (m_created_at row),
      ms_completedAt = map_option to_js (m_completed_at row)\<rparr>"

definition requireConversation :: "'a scope_scheme \<Rightarrow> ident \<Rightarrow> db \<Rightarrow> failure + unit" where
  "requireConversation scope conversationId d =
     (if find_conversation scope conversationId d = None
      then Inl (ApiError CONVERSATION_NOT_FOUND 404) else Inr ())"

definition scoped_messages :: "'a scope_scheme \<Rightarrow> ident \<Rightarrow> db \<Rightarrow> message_row list" where
  "scoped_messages scope conversationId d =
     filter (\<lambda>m. m_tenant_id m = sc_tenantId scope \<and> m_site_id m = sc_siteId scope
         \<and> m_conversation_id m = conversationId) (messages d)"

definition get_message :: "'a scope_scheme \<Rightarrow> ident \<Rightarrow> ident \<Rightarrow> db \<Rightarrow> failure + message" where
  "get_message scope conversationId messageId d =
     and_then (requireConversation scope conversationId d) (\<lambda>_.
       (case find (\<lambda>m. m_message_id m = messageId) (scoped_messages scope conversationId d) of
          None \<Rightarrow> Inl (ApiError MESSAGE_NOT_FOUND 404)
        | Some row \<Rightarrow> Inr (mapMessage row)))"

definition list_messages ::
  "'a scope_scheme \<Rightarrow> ident \<Rightarrow> nat \<Rightarrow> string option \<Rightarrow> db
    \<Rightarrow> failure + (message list \<times> string option)" where
  "list_messages scope conversationId limit cursor d =
     and_then (requireConversation scope conversationId d) (\<lambda>_.
     and_then (case cursor of
         None \<Rightarrow> Inr None
       | Some text \<Rightarrow>
           if text = [] then Inr None
           else (case decodeCursor text of
                   None \<Rightarrow> Inl (ApiError INVALID_CURSOR 400)
                 | Some sequence \<Rightarrow> Inr (Some sequence))) (\<lambda>after.
     let query = order_asc m_sequence
           (filter (\<lambda>m. case after of None \<Rightarrow> True | Some sequence \<Rightarrow> m_sequence m > sequence)
             (scoped_messages scope conversationId d));
         page = page_of limit query
     in Inr (map mapMessage (fst page),
             map_option (\<lambda>tail. encodeCursor (m_sequence tail)) (snd page))))"

subsection \<open>Submitting\<close>

definition submit_operation :: "ident \<Rightarrow> string" where
  "submit_operation conversationId = ''message:create:'' @ conversationId"

definition parts_text :: "string list \<Rightarrow> string" where
  "parts_text texts =
     stringify (JArray (map (\<lambda>t. JArray [JString ''text'', JString t]) texts))"

text \<open>\<open>UPDATE conversations SET next_message_sequence = next_message_sequence + 1\<close>.\<close>

definition bump_message_sequence ::
  "js_date \<Rightarrow> 'a scope_scheme \<Rightarrow> ident \<Rightarrow> db \<Rightarrow> failure + (int \<times> db)" where
  "bump_message_sequence now scope conversationId d =
     (case find_conversation scope conversationId d of
        None \<Rightarrow> Inl Unexpected
      | Some c \<Rightarrow>
          if c_next_message_sequence c + 1 > int4_max then Inl Unexpected
          else Inr (c_next_message_sequence c + 1,
            d\<lparr>conversations := update_where
               (\<lambda>c. c_tenant_id c = sc_tenantId scope \<and> c_site_id c = sc_siteId scope
                  \<and> c_principal_id c = sc_principalId scope
                  \<and> c_conversation_id c = conversationId)
               (\<lambda>c. c\<lparr>c_next_message_sequence := c_next_message_sequence c + 1,
                      c_updated_at := to_pg now\<rparr>)
               (conversations d)\<rparr>))"

definition submit_transaction ::
  "(string \<Rightarrow> string) \<Rightarrow> message_ids \<Rightarrow> pg_time \<Rightarrow> js_date \<Rightarrow> 'a scope_scheme \<Rightarrow> ident
    \<Rightarrow> string list \<Rightarrow> string \<Rightarrow> db \<Rightarrow> failure + (ident \<times> db)" where
  "submit_transaction sha256 ids clock now scope conversationId texts idempotencyKey d =
     (let operation = submit_operation conversationId;
          requestHash = sha256 (parts_text texts)
      in case findIdempotency scope operation idempotencyKey d of
        Some previous \<Rightarrow>
          (if k_request_hash previous \<noteq> requestHash
           then Inl (ApiError IDEMPOTENCY_CONFLICT 409)
           else Inr (k_resource_id previous, d))
      | None \<Rightarrow>
     (case find_conversation scope conversationId d of
        None \<Rightarrow> Inl (ApiError CONVERSATION_NOT_FOUND 404)
      | Some conversation \<Rightarrow>
     (case find (\<lambda>p. cp_tenant_id p = sc_tenantId scope \<and> cp_site_id p = sc_siteId scope
               \<and> cp_conversation_id p = conversationId \<and> cp_ref p = User_ref (sc_principalId scope))
             (conversation_participants d) of
        None \<Rightarrow> Inl Unexpected
      | Some participant \<Rightarrow>
          and_then (bump_message_sequence now scope conversationId d) (\<lambda>(next_sequence, d1).
          and_then (insert_message
              \<lparr>m_message_id = id_message ids, m_tenant_id = sc_tenantId scope,
               m_site_id = sc_siteId scope, m_conversation_id = conversationId,
               m_sequence = next_sequence - 1, m_participant_id = cp_participant_id participant,
               m_role = Role_user, m_status = Msg_completed, m_parts = map TextPart texts,
               m_created_at = clock, m_completed_at = Some (to_pg now)\<rparr> d1) (\<lambda>d2.
          and_then (insert_run
              \<lparr>r_run_id = id_run ids, r_tenant_id = sc_tenantId scope,
               r_site_id = sc_siteId scope, r_conversation_id = conversationId,
               r_trigger_message_id = id_message ids, r_trigger_type = Trigger_message,
               r_assistant_message_id = id_assistantMessage ids,
               r_agent_ref = c_agent_ref conversation, r_status = Run_queued, r_attempt = 0,
               r_available_at = clock, r_claimed_at = None, r_lease_expires_at = None,
               r_cancel_requested_at = None, r_error_code = None, r_created_at = clock,
               r_updated_at = clock, r_completed_at = None\<rparr> d2) (\<lambda>d3.
          and_then (insert_command_key
              (key_row scope operation idempotencyKey requestHash (id_message ids) clock) d3) (\<lambda>d4.
          Inr (id_message ids, d4))))))))"

definition submit_message ::
  "(string \<Rightarrow> string) \<Rightarrow> message_ids \<Rightarrow> pg_time \<Rightarrow> js_date \<Rightarrow> 'a scope_scheme \<Rightarrow> ident
    \<Rightarrow> string list \<Rightarrow> string \<Rightarrow> db \<Rightarrow> failure + (message \<times> db)" where
  "submit_message sha256 ids clock now scope conversationId texts idempotencyKey d =
     and_then (submit_transaction sha256 ids clock now scope conversationId texts idempotencyKey d)
       (\<lambda>(messageId, d').
          and_then (get_message scope conversationId messageId d') (\<lambda>m. Inr (m, d')))"

subsection \<open>Submission is idempotent\<close>

lemma submit_transaction_cases:
  assumes "submit_transaction sha256 ids clock now scope cid texts key d = Inr (r, d')"
  obtains
    (replayed) row where "findIdempotency scope (submit_operation cid) key d = Some row"
      and "k_request_hash row = sha256 (parts_text texts)" and "r = k_resource_id row" and "d' = d"
  | (fresh) c p where "findIdempotency scope (submit_operation cid) key d = None"
      and "find_conversation scope cid d = Some c"
      and "c_next_message_sequence c + 1 \<le> int4_max"
      and "find (\<lambda>p. cp_tenant_id p = sc_tenantId scope \<and> cp_site_id p = sc_siteId scope
               \<and> cp_conversation_id p = cid \<and> cp_ref p = User_ref (sc_principalId scope))
             (conversation_participants d) = Some p"
      and "r = id_message ids"
      and "\<forall>m \<in> set (messages d). m_message_id m \<noteq> id_message ids"
      and "1 \<le> c_next_message_sequence c"
      and "d' = d\<lparr>conversations := update_where
               (\<lambda>c. c_tenant_id c = sc_tenantId scope \<and> c_site_id c = sc_siteId scope
                  \<and> c_principal_id c = sc_principalId scope \<and> c_conversation_id c = cid)
               (\<lambda>c. c\<lparr>c_next_message_sequence := c_next_message_sequence c + 1,
                      c_updated_at := to_pg now\<rparr>) (conversations d),
           messages := messages d @ [\<lparr>m_message_id = id_message ids,
             m_tenant_id = sc_tenantId scope,
             m_site_id = sc_siteId scope, m_conversation_id = cid,
             m_sequence = c_next_message_sequence c, m_participant_id = cp_participant_id p,
             m_role = Role_user, m_status = Msg_completed, m_parts = map TextPart texts,
             m_created_at = clock, m_completed_at = Some (to_pg now)\<rparr>],
           agent_runs := agent_runs d @ [\<lparr>r_run_id = id_run ids, r_tenant_id = sc_tenantId scope,
             r_site_id = sc_siteId scope, r_conversation_id = cid,
             r_trigger_message_id = id_message ids, r_trigger_type = Trigger_message,
             r_assistant_message_id = id_assistantMessage ids,
             r_agent_ref = c_agent_ref c, r_status = Run_queued, r_attempt = 0,
             r_available_at = clock, r_claimed_at = None, r_lease_expires_at = None,
             r_cancel_requested_at = None, r_error_code = None, r_created_at = clock,
             r_updated_at = clock, r_completed_at = None\<rparr>],
           command_idempotency := command_idempotency d
             @ [key_row scope (submit_operation cid) key (sha256 (parts_text texts))
                  (id_message ids) clock]\<rparr>"
  using assms
  by (auto simp: submit_transaction_def bump_message_sequence_def Let_def insert_message_def
      insert_run_def insert_command_key_def split: option.splits if_splits)

lemma submit_transaction_keys:
  assumes "submit_transaction sha256 ids clock now scope cid texts key d = Inr (r, d')"
  shows "(\<exists>row. findIdempotency scope (submit_operation cid) key d = Some row
             \<and> k_request_hash row = sha256 (parts_text texts) \<and> r = k_resource_id row \<and> d' = d)
         \<or> (findIdempotency scope (submit_operation cid) key d = None
             \<and> command_idempotency d' = command_idempotency d
                 @ [key_row scope (submit_operation cid) key (sha256 (parts_text texts)) r clock])"
  using assms by (rule submit_transaction_cases) auto

text \<open>A submission: what is fresh or timed, then the request.\<close>

type_synonym 'a submit_command =
  "(message_ids \<times> pg_time \<times> js_date) \<times> 'a scope_scheme \<times> ident \<times> string list \<times> string"

definition submit_exec ::
  "(string \<Rightarrow> string) \<Rightarrow> 'a submit_command \<Rightarrow> db \<Rightarrow> failure + (ident \<times> db)" where
  "submit_exec sha256 = (\<lambda>((ids, clock, now), scope, cid, texts, key).
     submit_transaction sha256 ids clock now scope cid texts key)"

definition submit_lookup :: "'a submit_command \<Rightarrow> db \<Rightarrow> command_key_row option" where
  "submit_lookup = (\<lambda>(_, scope, cid, texts, key). findIdempotency scope (submit_operation cid) key)"

definition submit_hash :: "(string \<Rightarrow> string) \<Rightarrow> 'a submit_command \<Rightarrow> string" where
  "submit_hash sha256 = (\<lambda>(_, scope, cid, texts, key). sha256 (parts_text texts))"

interpretation submit: hash_checked_command "submit_exec sha256" submit_lookup
  "submit_hash sha256" "\<lambda>_. Inr" "\<lambda>_. True" "ApiError IDEMPOTENCY_CONFLICT 409"
  for sha256
proof unfold_locales
  fix a :: "'a submit_command" and b :: "'a submit_command" and d d' r row
  obtain ids clock now scope cid texts key where a: "a = ((ids, clock, now), scope, cid, texts, key)"
    by (metis prod.exhaust)
  {
    assume "submit_lookup a d = None" and "submit_exec sha256 a d = Inr (r, d')"
    then have "findIdempotency scope (submit_operation cid) key d' = Some
        (key_row scope (submit_operation cid) key (sha256 (parts_text texts)) r clock)"
      using submit_transaction_keys [of sha256 ids clock now scope cid texts key d r d']
      by (auto simp: a submit_exec_def submit_lookup_def intro: findIdempotency_recorded)
    then show "\<exists>row. submit_lookup a d' = Some row \<and> k_request_hash row = submit_hash sha256 a
        \<and> Inr (k_resource_id row) = Inr r"
      by (simp add: a submit_lookup_def submit_hash_def)
  next
    assume "submit_lookup a d = Some row" and "k_request_hash row = submit_hash sha256 a"
    then show "submit_exec sha256 a d = and_then (Inr (k_resource_id row)) (\<lambda>r. Inr (r, d))"
      by (simp add: a submit_exec_def submit_lookup_def submit_hash_def submit_transaction_def Let_def)
  next
    obtain ids' clock' now' scope' cid' texts' key'
      where b: "b = ((ids', clock', now'), scope', cid', texts', key')" by (metis prod.exhaust)
    assume "submit_exec sha256 b d = Inr (r, d')" and "submit_lookup a d = Some row"
    then show "submit_lookup a d' = Some row"
      using submit_transaction_keys [of sha256 ids' clock' now' scope' cid' texts' key' d r d']
      by (auto simp: a b submit_exec_def submit_lookup_def intro: findIdempotency_kept)
  next
    assume "submit_lookup a d = Some row" and "k_request_hash row \<noteq> submit_hash sha256 a"
    then show "submit_exec sha256 a d = Inl (ApiError IDEMPOTENCY_CONFLICT 409)"
      by (simp add: a submit_exec_def submit_lookup_def submit_hash_def submit_transaction_def Let_def)
  }
qed

lemma parts_text_inj:
  assumes "parts_text texts = parts_text texts'"
  shows "texts = texts'"
proof -
  have "JArray (map (\<lambda>t. JArray [JString ''text'', JString t]) texts)
      = JArray (map (\<lambda>t. JArray [JString ''text'', JString t]) texts')"
    by (rule stringify_inj) (use assms in \<open>simp_all add: parts_text_def list_all_iff\<close>)
  then have "map (\<lambda>t. JArray [JString ''text'', JString t]) texts
      = map (\<lambda>t. JArray [JString ''text'', JString t]) texts'" by simp
  then show ?thesis by (rule map_injective) (simp add: inj_def)
qed

text \<open>
  C1: A submission happens once. After it succeeded, and after any other submissions, the
  same request under the same key returns the same message identifier and changes nothing;
  any other parts under that key are refused with \<open>IDEMPOTENCY_CONFLICT\<close>, provided the hash
  does not collide on the two requests.
\<close>
theorem submit_exactly_once:
  fixes scope :: "'a scope_scheme" and others :: "'a submit_command list"
  assumes "submit_transaction sha256 ids clock now scope cid texts key d = Inr (r, d')"
    and "sha256 (parts_text texts') = sha256 (parts_text texts) \<Longrightarrow>
           parts_text texts' = parts_text texts"
  shows "submit_transaction sha256 ids' clock' now' scope cid texts' key
           (exec_all (submit_exec sha256) others d')
       = (if texts' = texts then Inr (r, exec_all (submit_exec sha256) others d')
          else Inl (ApiError IDEMPOTENCY_CONFLICT 409))"
proof -
  let ?a = "((ids, clock, now), scope, cid, texts, key)"
  let ?b = "((ids', clock', now'), scope, cid, texts', key)"
  have a: "submit_exec sha256 ?a d = Inr (r, d')" using assms(1) by (simp add: submit_exec_def)
  have lookup: "submit_lookup ?b = submit_lookup ?a" by (simp add: submit_lookup_def)
  show ?thesis
  proof (cases "texts' = texts")
    case True
    then have "submit_hash sha256 ?b = submit_hash sha256 ?a" by (simp add: submit_hash_def)
    then have "submit_exec sha256 ?b (exec_all (submit_exec sha256) others d')
        = Inr (r, exec_all (submit_exec sha256) others d')"
      by (rule submit.exactly_once [OF TrueI a lookup]) simp
    with True show ?thesis by (simp add: submit_exec_def)
  next
    case False
    then have "submit_hash sha256 ?b \<noteq> submit_hash sha256 ?a"
      using assms(2) parts_text_inj by (auto simp: submit_hash_def)
    then have "submit_exec sha256 ?b (exec_all (submit_exec sha256) others d')
        = Inl (ApiError IDEMPOTENCY_CONFLICT 409)"
      by (rule submit.conflict [OF TrueI a lookup])
    with False show ?thesis by (simp add: submit_exec_def)
  qed
qed

subsection \<open>Message sequences have no gap\<close>

definition conv_messages :: "db \<Rightarrow> ident \<Rightarrow> message_row list" where
  "conv_messages d cid = filter (\<lambda>m. m_conversation_id m = cid) (messages d)"

definition message_inv :: "db \<Rightarrow> bool" where
  "message_inv d \<longleftrightarrow>
     distinct (map c_conversation_id (conversations d))
     \<and> distinct (map m_message_id (messages d))
     \<and> list_all (\<lambda>c. 1 \<le> c_next_message_sequence c
          \<and> map m_sequence (conv_messages d (c_conversation_id c)) = [1..c_next_message_sequence c - 1])
         (conversations d)
     \<and> list_all (\<lambda>m. exists_row (\<lambda>c. c_conversation_id c = m_conversation_id m
            \<and> c_tenant_id c = m_tenant_id m \<and> c_site_id c = m_site_id m) (conversations d))
         (messages d)"

lemma update_conversations_ids:
  "(\<And>c. c_conversation_id (f c) = c_conversation_id c) \<Longrightarrow>
   map c_conversation_id (update_where p f cs) = map c_conversation_id cs"
  by (rule map_update_where)

lemma conv_messages_snoc:
  "conv_messages (d\<lparr>messages := messages d @ [m]\<rparr>) cid =
     conv_messages d cid @ (if m_conversation_id m = cid then [m] else [])"
  by (simp add: conv_messages_def)

text \<open>Appending the next message of a conversation, whatever else of it changes.\<close>

lemma message_inv_append:
  assumes "message_inv d"
    and "c \<in> set (conversations d)" and "p c"
    and "\<And>x. p x \<Longrightarrow> c_conversation_id x = c_conversation_id c"
    and "\<forall>x \<in> set (messages d). m_message_id x \<noteq> m_message_id m"
    and "m_conversation_id m = c_conversation_id c" and "m_tenant_id m = c_tenant_id c"
    and "m_site_id m = c_site_id c" and "m_sequence m = c_next_message_sequence c"
    and "messages d' = messages d @ [m]"
    and "conversations d' = update_where p f (conversations d)"
    and "\<And>c. c_conversation_id (f c) = c_conversation_id c \<and> c_tenant_id (f c) = c_tenant_id c
       \<and> c_site_id (f c) = c_site_id c \<and> c_principal_id (f c) = c_principal_id c
       \<and> c_next_message_sequence (f c) = c_next_message_sequence c + 1"
  shows "message_inv d'"
proof -
  have dist: "distinct (map c_conversation_id (conversations d))"
    and seqs: "\<And>x. x \<in> set (conversations d) \<Longrightarrow> 1 \<le> c_next_message_sequence x
       \<and> map m_sequence (conv_messages d (c_conversation_id x)) = [1..c_next_message_sequence x - 1]"
    using assms(1) by (auto simp: message_inv_def list_all_iff)
  have conv: "conv_messages d' x = conv_messages d x @ (if c_conversation_id c = x then [m] else [])" for x
    by (simp add: conv_messages_def assms(6,10))
  have snoc: "[1..n - 1] @ [n] = [1..n]" if "1 \<le> n" for n :: int
    using that upto_rec2 [of 1 n] by simp
  have row: "1 \<le> c_next_message_sequence y \<and>
      map m_sequence (conv_messages d' (c_conversation_id y)) = [1..c_next_message_sequence y - 1]"
    if y: "y \<in> set (conversations d')" for y
  proof -
    obtain x where x: "x \<in> set (conversations d)" "y = (if p x then f x else x)"
      using y unfolding assms(11) by (rule update_where_memberD)
    show ?thesis
    proof (cases "c_conversation_id x = c_conversation_id c")
      case True
      then have "x = c" using distinct_map_inj [OF dist x(1) assms(2)] by simp
      then show ?thesis using x assms(3) seqs [OF assms(2)] assms(9,12) by (simp add: conv snoc)
    next
      case False
      then have "\<not> p x" using assms(4) by blast
      with False show ?thesis using x seqs [OF x(1)] by (simp add: conv)
    qed
  qed
  have fk: "exists_row (\<lambda>c. c_conversation_id c = m_conversation_id x
      \<and> c_tenant_id c = m_tenant_id x \<and> c_site_id c = m_site_id x) (conversations d')"
    if "x \<in> set (messages d')" for x
  proof -
    have "exists_row (\<lambda>c. c_conversation_id c = m_conversation_id x
      \<and> c_tenant_id c = m_tenant_id x \<and> c_site_id c = m_site_id x) (conversations d)"
      using that assms(1,2,6-8) by (auto simp: assms(10) message_inv_def list_all_iff)
    then show ?thesis unfolding assms(11) by (subst exists_row_update_where) (simp_all add: assms(12))
  qed
  have "distinct (map c_conversation_id (conversations d'))"
    unfolding assms(11) by (subst map_update_where) (use assms(12) dist in simp_all)
  moreover have "distinct (map m_message_id (messages d'))"
    using assms(1,5) by (auto simp: assms(10) message_inv_def)
  ultimately show ?thesis using row fk by (simp add: message_inv_def list_all_iff)
qed

text \<open>
  A fresh submission appends exactly one message and queues exactly one run for it. The
  message takes the conversation's next sequence number, the counter moves by one, and the
  numbers of every conversation stay 1, 2, 3, ... without a gap or a repetition; no other
  conversation, participant, event or handoff changes.
\<close>
theorem submit_appends_one:
  assumes "submit_transaction sha256 ids clock now scope cid texts key d = Inr (r, d')"
    and "findIdempotency scope (submit_operation cid) key d = None"
    and "message_inv d"
  shows "message_inv d' \<and>
     (\<exists>c m run. find_conversation scope cid d = Some c
       \<and> messages d' = messages d @ [m] \<and> m_message_id m = r
       \<and> m_sequence m = c_next_message_sequence c \<and> m_sequence m \<le> int4_max
       \<and> m_sequence m = int (length (conv_messages d cid)) + 1
       \<and> m_parts m = map TextPart texts \<and> m_role m = Role_user
       \<and> agent_runs d' = agent_runs d @ [run] \<and> r_trigger_message_id run = r
       \<and> r_status run = Run_queued \<and> r_attempt run = 0 \<and> r_agent_ref run = c_agent_ref c
       \<and> length (command_idempotency d') = length (command_idempotency d) + 1
       \<and> filter (\<lambda>x. c_conversation_id x \<noteq> cid) (conversations d')
           = filter (\<lambda>x. c_conversation_id x \<noteq> cid) (conversations d)
       \<and> conversation_participants d' = conversation_participants d
       \<and> conversation_events d' = conversation_events d \<and> handoffs d' = handoffs d)"
  using assms(1)
proof (cases rule: submit_transaction_cases)
  case (fresh c p)
  obtain m where m: "messages d' = messages d @ [m]" "m_message_id m = id_message ids"
    "m_conversation_id m = cid" "m_tenant_id m = sc_tenantId scope"
    "m_site_id m = sc_siteId scope" "m_sequence m = c_next_message_sequence c"
    by (simp add: fresh(8))
  have c: "c \<in> set (conversations d)" "c_conversation_id c = cid"
    "c_tenant_id c = sc_tenantId scope" "c_site_id c = sc_siteId scope"
    "c_principal_id c = sc_principalId scope"
    using fresh(2) by (auto simp: find_conversation_def dest: find_SomeD)
  have "message_inv d'"
    by (rule message_inv_append [OF assms(3) c(1), where m = m and p = "\<lambda>x.
        c_tenant_id x = sc_tenantId scope \<and> c_site_id x = sc_siteId scope
        \<and> c_principal_id x = sc_principalId scope \<and> c_conversation_id x = cid"
        and f = "\<lambda>c. c\<lparr>c_next_message_sequence := c_next_message_sequence c + 1,
          c_updated_at := to_pg now\<rparr>"])
      (use m fresh(6,8) c in simp_all)
  moreover note c
  then have "map m_sequence (conv_messages d cid) = [1..c_next_message_sequence c - 1]"
    using assms(3) by (auto simp: message_inv_def list_all_iff)
  then have "length (conv_messages d cid) = nat (c_next_message_sequence c - 1)"
    by (metis add_diff_cancel diff_add_cancel length_map length_upto)
  moreover have "filter (\<lambda>x. c_conversation_id x \<noteq> cid) (conversations d')
      = filter (\<lambda>x. c_conversation_id x \<noteq> cid) (conversations d)"
    using fresh(8) by (simp add: filter_update_where) (auto intro!: update_where_none)
  ultimately show ?thesis using fresh by simp
qed (use assms(2) in simp)

text \<open>
  Retrying a whole submission returns the message it returned, with its sequence and
  parts, and changes nothing.
\<close>
theorem submit_message_idempotent:
  assumes "submit_message sha256 ids clock now scope cid texts key d = Inr (m, d')"
  shows "submit_message sha256 ids' clock' now' scope cid texts key d' = Inr (m, d')"
proof -
  obtain mid where tx: "submit_transaction sha256 ids clock now scope cid texts key d = Inr (mid, d')"
    and get: "get_message scope cid mid d' = Inr m"
    using assms by (auto simp: submit_message_def)
  let ?a = "((ids, clock, now), scope, cid, texts, key)"
  have "submit_exec sha256 ((ids', clock', now'), scope, cid, texts, key) d' = Inr (mid, d')"
    by (rule submit.exactly_once_now [of sha256 ?a])
      (use tx in \<open>simp_all add: submit_exec_def submit_lookup_def submit_hash_def\<close>)
  with get show ?thesis by (simp add: submit_exec_def submit_message_def)
qed

subsection \<open>Cursors and listing\<close>

lemma show_int_of_pos: "0 \<le> i \<Longrightarrow> show_int i = show_nat (nat i)"
  by (simp add: show_int_def)

lemma cursor_read_back: "1 \<le> n \<Longrightarrow> n \<le> int4_max \<Longrightarrow> decodeCursor (encodeCursor n) = Some n"
  by (simp add: decodeCursor_def encodeCursor_def show_int_of_pos int4_max_def max_safe_integer_def
      positive_decimal_show_nat)

text \<open>
  A message cursor decodes to the sequence number it was made of, for every sequence the
  column can hold; and the cursor of one kind of listing is never accepted by the other:
  decoding a conversation cursor as a message cursor fails.
\<close>
theorem message_cursor_roundtrip:
  "(1 \<le> n \<and> n \<le> int4_max \<longrightarrow> decodeCursor (encodeCursor n) = Some n)
   \<and> decodeCursor (encodeConversationCursor createdAt cid) = None"
proof (intro conjI impI)
  assume n: "1 \<le> n \<and> n \<le> int4_max"
  then have "positive_decimal (show_int n)"
    by (simp add: show_int_of_pos positive_decimal_show_nat)
  with n show "decodeCursor (encodeCursor n) = Some n"
    by (simp add: decodeCursor_def encodeCursor_def show_int_of_pos int4_max_def
        max_safe_integer_def)
next
  show "decodeCursor (encodeConversationCursor createdAt cid) = None"
    by (simp add: decodeCursor_def encodeConversationCursor_def positive_decimal_def is_digit_def
        code_unit_def)
qed

lemma encodeCursor_nonempty [simp]: "encodeCursor n \<noteq> []"
proof -
  obtain c cs where "show_int n = c # cs" by (rule show_int_head)
  then show ?thesis by (simp add: encodeCursor_def base64url_nonempty)
qed

definition ordered_messages :: "'a scope_scheme \<Rightarrow> ident \<Rightarrow> db \<Rightarrow> message_row list" where
  "ordered_messages scope cid d = order_asc m_sequence (scoped_messages scope cid d)"

lemma list_messages_after:
  assumes "find_conversation scope cid d \<noteq> None"
  shows "list_messages scope cid limit None d =
      (let page = page_of limit (ordered_messages scope cid d)
       in Inr (map mapMessage (fst page), map_option (\<lambda>t. encodeCursor (m_sequence t)) (snd page)))"
    and "1 \<le> n \<Longrightarrow> n \<le> int4_max \<Longrightarrow> list_messages scope cid limit (Some (encodeCursor n)) d =
      (let page = page_of limit (filter (\<lambda>m. n < m_sequence m) (ordered_messages scope cid d))
       in Inr (map mapMessage (fst page), map_option (\<lambda>t. encodeCursor (m_sequence t)) (snd page)))"
proof -
  have true: "filter (\<lambda>m. True) xs = xs" for xs :: "message_row list" by simp
  show "list_messages scope cid limit None d =
      (let page = page_of limit (ordered_messages scope cid d)
       in Inr (map mapMessage (fst page), map_option (\<lambda>t. encodeCursor (m_sequence t)) (snd page)))"
    using assms by (simp add: list_messages_def requireConversation_def ordered_messages_def Let_def)
  assume n: "1 \<le> n" "n \<le> int4_max"
  have "decodeCursor (encodeCursor n) = Some n"
    using n by (simp add: decodeCursor_def encodeCursor_def show_int_of_pos int4_max_def
        max_safe_integer_def positive_decimal_show_nat)
  then show "list_messages scope cid limit (Some (encodeCursor n)) d =
      (let page = page_of limit (filter (\<lambda>m. n < m_sequence m) (ordered_messages scope cid d))
       in Inr (map mapMessage (fst page), map_option (\<lambda>t. encodeCursor (m_sequence t)) (snd page)))"
    using assms by (simp add: list_messages_def requireConversation_def ordered_messages_def Let_def
        order_asc_filter)
qed

definition messages_ok ::
  "'a scope_scheme \<times> ident \<times> db \<times> nat \<Rightarrow> bool" where
  "messages_ok = (\<lambda>(scope, cid, d, limit).
     find_conversation scope cid d \<noteq> None \<and> 0 < limit
     \<and> distinct (map m_sequence (conv_messages d cid))
     \<and> list_all (\<lambda>m. 1 \<le> m_sequence m \<and> m_sequence m \<le> int4_max) (messages d))"

interpretation message_listing: keyset_listing
  "\<lambda>(scope, cid, d, limit) cursor. list_messages scope cid limit cursor d"
  "\<lambda>(scope, cid, d, limit). map mapMessage (ordered_messages scope cid d)"
  "\<lambda>(scope, cid, d, limit) n. encodeCursor (m_sequence (ordered_messages scope cid d ! n))"
  "\<lambda>(scope, cid, d, limit). limit"
  messages_ok
proof (unfold_locales, goal_cases)
  case (1 s)
  then show ?case by (auto simp: messages_ok_def)
next
  case (2 s)
  obtain scope cid d limit where s: "s = (scope, cid, d, limit)" by (metis prod.exhaust)
  with 2 have "find_conversation scope cid d \<noteq> None" and "0 < limit"
    by (simp_all add: messages_ok_def)
  then show ?case
    using page_of_drop [of limit 0 "ordered_messages scope cid d"]
    by (simp add: s list_messages_after take_map Let_def)
next
  case (3 s n)
  obtain scope cid d limit where s: "s = (scope, cid, d, limit)" by (metis prod.exhaust)
  let ?rows = "ordered_messages scope cid d"
  from 3 have conv: "find_conversation scope cid d \<noteq> None" and lim: "0 < limit"
    and dist: "distinct (map m_sequence (conv_messages d cid))" and n: "n < length ?rows"
    and seqs: "list_all (\<lambda>m. 1 \<le> m_sequence m \<and> m_sequence m \<le> int4_max) (messages d)"
    by (auto simp: messages_ok_def s)
  have "?rows ! n \<in> set ?rows" using n by simp
  then have "?rows ! n \<in> set (messages d)"
    by (simp add: ordered_messages_def scoped_messages_def)
  with seqs have bounds: "1 \<le> m_sequence (?rows ! n)" "m_sequence (?rows ! n) \<le> int4_max"
    by (simp_all add: list_all_iff)
  have "scoped_messages scope cid d
      = filter (\<lambda>m. m_tenant_id m = sc_tenantId scope \<and> m_site_id m = sc_siteId scope)
          (conv_messages d cid)"
    by (auto simp: scoped_messages_def conv_messages_def intro: filter_cong)
  then have "distinct (map m_sequence (scoped_messages scope cid d))"
    using dist by (simp add: distinct_map_filter)
  then have "filter (\<lambda>m. m_sequence (?rows ! n) < m_sequence m) ?rows = drop (Suc n) ?rows"
    using n by (intro filter_strict_asc_take_drop) (auto simp: ordered_messages_def strict_order_asc)
  then show ?case
    using page_of_drop [OF lim, of "Suc n" ?rows]
    by (simp add: s list_messages_after [OF conv] bounds take_map drop_map Let_def)
qed

text \<open>A conversation's messages as the listing reads them: all of them, numbered from 1.\<close>

lemma ordered_conversation:
  assumes "message_inv d" and "find_conversation scope cid d = Some c"
    and "list_all (\<lambda>m. m_sequence m \<le> int4_max) (messages d)"
  shows "map m_sequence (ordered_messages scope cid d) = [1..c_next_message_sequence c - 1]"
    and "set (ordered_messages scope cid d) = {m \<in> set (messages d). m_conversation_id m = cid}"
    and "1 \<le> c_next_message_sequence c" and "0 < limit \<Longrightarrow> messages_ok (scope, cid, d, limit)"
proof -
  have c: "c \<in> set (conversations d)" "c_conversation_id c = cid"
    "c_tenant_id c = sc_tenantId scope" "c_site_id c = sc_siteId scope"
    using assms(2) by (auto simp: find_conversation_def dest: find_SomeD)
  have seqs: "map m_sequence (conv_messages d cid) = [1..c_next_message_sequence c - 1]"
    and dist: "distinct (map c_conversation_id (conversations d))"
    and next1: "1 \<le> c_next_message_sequence c"
    using assms(1) c by (auto simp: message_inv_def list_all_iff)
  have "scoped_messages scope cid d = conv_messages d cid"
    unfolding scoped_messages_def conv_messages_def
  proof (rule filter_cong [OF refl])
    fix m assume m: "m \<in> set (messages d)"
    then obtain x where "x \<in> set (conversations d)" "c_conversation_id x = m_conversation_id m"
      "c_tenant_id x = m_tenant_id m" "c_site_id x = m_site_id m"
      using assms(1) by (auto simp: message_inv_def list_all_iff)
    then show "(m_tenant_id m = sc_tenantId scope \<and> m_site_id m = sc_siteId scope
        \<and> m_conversation_id m = cid) = (m_conversation_id m = cid)"
      using distinct_map_inj [OF dist, of x c] c by auto
  qed
  then have rows: "ordered_messages scope cid d = conv_messages d cid"
    by (simp add: ordered_messages_def order_asc_def sort_key_id_if_sorted seqs)
  with seqs next1 show "map m_sequence (ordered_messages scope cid d) = [1..c_next_message_sequence c - 1]"
    and "set (ordered_messages scope cid d) = {m \<in> set (messages d). m_conversation_id m = cid}"
    and "1 \<le> c_next_message_sequence c"
    by (auto simp: conv_messages_def)
  have pos: "1 \<le> m_sequence m" if m: "m \<in> set (messages d)" for m
  proof -
    obtain x where x: "x \<in> set (conversations d)" "c_conversation_id x = m_conversation_id m"
      using assms(1) m by (auto simp: message_inv_def list_all_iff)
    then have "map m_sequence (conv_messages d (m_conversation_id m))
        = [1..c_next_message_sequence x - 1]"
      using assms(1) by (auto simp: message_inv_def list_all_iff)
    moreover have "m_sequence m \<in> set (map m_sequence (conv_messages d (m_conversation_id m)))"
      using m by (auto simp: conv_messages_def)
    ultimately show ?thesis by simp
  qed
  then show "messages_ok (scope, cid, d, limit)" if "0 < limit"
    using assms(2,3) that seqs by (simp add: messages_ok_def list_all_iff)
qed

text \<open>
  Following the cursors of the message listing collects every message of the
  conversation exactly once, in the order of the sequence numbers 1, 2, 3, ...
\<close>
theorem message_listing_complete:
  assumes "message_inv d" and "find_conversation scope cid d = Some c"
    and "c_next_message_sequence c \<le> int4_max" and "0 < limit"
    and "list_all (\<lambda>m. m_sequence m \<le> int4_max) (messages d)"
    and "nat (c_next_message_sequence c) \<le> fuel * limit"
  shows "\<exists>ms. follow (\<lambda>cursor. list_messages scope cid limit cursor d) fuel None = Inr ms
     \<and> map ms_sequence ms = [1..c_next_message_sequence c - 1]
     \<and> set ms = mapMessage ` {m \<in> set (messages d). m_conversation_id m = cid}"
proof -
  note rows = ordered_conversation [OF assms(1,2,5)]
  have "length (ordered_messages scope cid d) = nat (c_next_message_sequence c - 1)"
    using arg_cong [OF rows(1), of length] by simp
  then have "follow (\<lambda>cursor. list_messages scope cid limit cursor d) fuel None
      = Inr (map mapMessage (ordered_messages scope cid d))"
    using message_listing.follow_all [of "(scope, cid, d, limit)" fuel] rows(3) rows(4) [OF assms(4)] assms(6)
    by simp
  then show ?thesis using rows(1,2) by (auto simp: mapMessage_def comp_def)
qed

subsection \<open>Concrete instances\<close>

definition sample_ids :: message_ids where
  "sample_ids = \<lparr>id_message = ''m1'', id_run = ''r1'', id_assistantMessage = ''am1''\<rparr>"

lemma sample_submitted:
  "\<exists>d'. submit_transaction (\<lambda>s. []) sample_ids 2000 2 sample_scope ''c1'' [''hi''] ''k'' sample_chat
     = Inr (''m1'', d')"
  by (simp add: submit_transaction_def findIdempotency_def find_conversation_def sample_defs
      constraint_defs bump_message_sequence_def int4_max_def sample_ids_def submit_operation_def
      key_row_def update_where_def)

lemma submit_exactly_once_witness:
  "\<exists>d'. submit_transaction (\<lambda>s. []) sample_ids 2000 2 sample_scope ''c1'' [''hi''] ''k'' sample_chat
       = Inr (''m1'', d')
     \<and> submit_transaction (\<lambda>s. []) sample_ids 3000 3 sample_scope ''c1'' [''hi''] ''k'' d'
       = Inr (''m1'', d')"
proof -
  obtain d' where first: "submit_transaction (\<lambda>s. []) sample_ids 2000 2 sample_scope ''c1'' [''hi'']
      ''k'' sample_chat = Inr (''m1'', d')"
    using sample_submitted by blast
  have "submit_transaction (\<lambda>s. []) sample_ids 3000 3 sample_scope ''c1'' [''hi''] ''k'' d'
      = Inr (''m1'', d')"
    using submit_exactly_once [OF first, where others = "[]" and texts' = "[''hi'']"] by simp
  with first show ?thesis by blast
qed

lemma sample_chat_inv: "message_inv sample_chat"
  by (simp add: message_inv_def sample_defs conv_messages_def)

lemma submit_appends_one_witness:
  "\<exists>d'. submit_transaction (\<lambda>s. []) sample_ids 2000 2 sample_scope ''c1'' [''hi''] ''k'' sample_chat
       = Inr (''m1'', d') \<and> message_inv d'"
proof -
  obtain d' where first: "submit_transaction (\<lambda>s. []) sample_ids 2000 2 sample_scope ''c1'' [''hi'']
      ''k'' sample_chat = Inr (''m1'', d')"
    using sample_submitted by blast
  have "findIdempotency sample_scope (submit_operation ''c1'') ''k'' sample_chat = None"
    by (simp add: findIdempotency_def sample_defs)
  with first submit_appends_one [OF first] sample_chat_inv show ?thesis by blast
qed

lemma submit_message_idempotent_witness:
  "\<exists>m d'. submit_message (\<lambda>s. []) sample_ids 2000 2 sample_scope ''c1'' [''hi''] ''k'' sample_chat
       = Inr (m, d')
     \<and> submit_message (\<lambda>s. []) sample_ids 9000 9 sample_scope ''c1'' [''hi''] ''k'' d' = Inr (m, d')"
proof -
  obtain m d' where first: "submit_message (\<lambda>s. []) sample_ids 2000 2 sample_scope ''c1'' [''hi'']
      ''k'' sample_chat = Inr (m, d')"
    by (simp add: submit_message_def submit_transaction_def findIdempotency_def
        find_conversation_def sample_defs constraint_defs bump_message_sequence_def int4_max_def
        sample_ids_def submit_operation_def key_row_def update_where_def get_message_def
        requireConversation_def scoped_messages_def)
  with submit_message_idempotent [OF first] show ?thesis by blast
qed

lemma message_cursor_roundtrip_witness:
  "decodeCursor (encodeCursor 7) = Some 7 \<and> decodeCursor (encodeConversationCursor ''d'' ''c'') = None"
  using message_cursor_roundtrip [of 7 "''d''" "''c''"] by (simp add: int4_max_def)

lemma message_listing_complete_witness:
  "\<exists>ms. follow (\<lambda>cursor. list_messages sample_scope ''c1'' 1 cursor sample_chat) 2 None = Inr ms
     \<and> map ms_sequence ms = []"
proof -
  have "find_conversation sample_scope ''c1'' sample_chat = Some (sample_conversation ''c1'' 1000)"
    by (simp add: find_conversation_def sample_defs)
  moreover have "list_all (\<lambda>m. m_sequence m \<le> int4_max) (messages sample_chat)"
    and "c_next_message_sequence (sample_conversation ''c1'' 1000) = 1"
    by (simp_all add: sample_defs)
  ultimately show ?thesis
    using message_listing_complete [of sample_chat sample_scope "''c1''" _ 1 2] sample_chat_inv
    by (auto simp: int4_max_def)
qed

end
