(* ===== verification/RunService.thy ===== *)
theory RunService
  imports Message
begin

text \<open>
  \<open>run/service.ts\<close> and \<open>run/cancellation.ts\<close>: requesting the cancellation of a
  conversation's latest run, under an idempotency key whose stored resource is the text
  \<open>runId|status\<close>, and the in-process coordinator that aborts the run's worker.
\<close>

datatype cancellation_status = Cancel_requested | Cancelled | Already_finished

fun status_text :: "cancellation_status \<Rightarrow> string" where
  "status_text Cancel_requested = ''cancel_requested''"
| "status_text Cancelled = ''cancelled''"
| "status_text Already_finished = ''already_finished''"

definition read_status :: "string \<Rightarrow> cancellation_status option" where
  "read_status s =
     (if s = ''cancel_requested'' then Some Cancel_requested
      else if s = ''cancelled'' then Some Cancelled
      else if s = ''already_finished'' then Some Already_finished
      else None)"

record cancel_response =
  cx_conversationId :: ident
  cx_runId :: ident
  cx_cancellationStatus :: cancellation_status

text \<open>
  \<open>lastIndexOf('|')\<close>; when it is -1, \<open>slice(0, -1)\<close> drops the last character and
  \<open>slice(0)\<close> is the whole text.
\<close>

definition last_index_of :: "char \<Rightarrow> string \<Rightarrow> int" where
  "last_index_of c s =
     (if c \<in> set s then int (length s) - 1 - int (length (takeWhile (\<lambda>x. x \<noteq> c) (rev s))) else -1)"

definition decodeOutcome :: "ident \<Rightarrow> string \<Rightarrow> failure + cancel_response" where
  "decodeOutcome conversationId resourceId =
     (let separator = last_index_of CHR ''|'' resourceId;
          runId = (if separator < 0 then butlast resourceId else take (nat separator) resourceId)
      in case read_status (drop (nat (separator + 1)) resourceId) of
           None \<Rightarrow> Inl Unexpected
         | Some status \<Rightarrow>
             if runId = [] then Inl Unexpected
             else Inr \<lparr>cx_conversationId = conversationId, cx_runId = runId,
                       cx_cancellationStatus = status\<rparr>)"

definition cancel_operation :: "ident \<Rightarrow> string" where
  "cancel_operation conversationId = ''run:cancel:'' @ conversationId"

text \<open>The first row of \<open>ORDER BY created_at DESC\<close>.\<close>

definition latest_run :: "'a scope_scheme \<Rightarrow> ident \<Rightarrow> db \<Rightarrow> run_row option" where
  "latest_run scope conversationId d =
     (case order_desc r_created_at (filter (\<lambda>r. r_tenant_id r = sc_tenantId scope
            \<and> r_site_id r = sc_siteId scope \<and> r_conversation_id r = conversationId) (agent_runs d)) of
        [] \<Rightarrow> None
      | r # _ \<Rightarrow> Some r)"

definition update_run :: "ident \<Rightarrow> (run_row \<Rightarrow> run_row) \<Rightarrow> db \<Rightarrow> db" where
  "update_run runId f d =
     d\<lparr>agent_runs := update_where (\<lambda>r. r_run_id r = runId) f (agent_runs d)\<rparr>"

definition cancel_decision :: "run_status \<Rightarrow> cancellation_status" where
  "cancel_decision status =
     (if status = Run_queued then Cancelled
      else if status = Run_running \<or> status = Run_cancel_requested then Cancel_requested
      else Already_finished)"

definition apply_cancellation :: "js_date \<Rightarrow> run_row \<Rightarrow> db \<Rightarrow> db" where
  "apply_cancellation now run d =
     (case cancel_decision (r_status run) of
        Cancelled \<Rightarrow> update_run (r_run_id run) (\<lambda>r. r\<lparr>r_status := Run_cancelled,
            r_cancel_requested_at := Some (to_pg now), r_completed_at := Some (to_pg now),
            r_updated_at := to_pg now\<rparr>) d
      | Cancel_requested \<Rightarrow> update_run (r_run_id run) (\<lambda>r. r\<lparr>r_status := Run_cancel_requested,
            r_cancel_requested_at := Some (to_pg now), r_updated_at := to_pg now\<rparr>) d
      | Already_finished \<Rightarrow> d)"

definition cancel_transaction ::
  "(string \<Rightarrow> string) \<Rightarrow> pg_time \<Rightarrow> js_date \<Rightarrow> 'a scope_scheme \<Rightarrow> ident \<Rightarrow> string \<Rightarrow> db
    \<Rightarrow> failure + (cancel_response \<times> db)" where
  "cancel_transaction sha256 clock now scope conversationId idempotencyKey d =
     (let operation = cancel_operation conversationId;
          requestHash = sha256 ''{}''
      in case findIdempotency scope operation idempotencyKey d of
        Some previous \<Rightarrow>
          and_then (decodeOutcome conversationId (k_resource_id previous)) (\<lambda>r. Inr (r, d))
      | None \<Rightarrow>
      (case find_conversation scope conversationId d of
        None \<Rightarrow> Inl (ApiError CONVERSATION_NOT_FOUND 404)
      | Some _ \<Rightarrow>
      (case latest_run scope conversationId d of
        None \<Rightarrow> Inl (ApiError RUN_NOT_FOUND 404)
      | Some run \<Rightarrow>
          (let status = cancel_decision (r_status run)
           in and_then (insert_command_key
                (key_row scope operation idempotencyKey requestHash
                   (r_run_id run @ ''|'' @ status_text status) clock)
                (apply_cancellation now run d)) (\<lambda>d'.
              Inr (\<lparr>cx_conversationId = conversationId, cx_runId = r_run_id run,
                    cx_cancellationStatus = status\<rparr>, d'))))))"

subsection \<open>The coordinator\<close>

text \<open>
  \<open>RunCancellationCoordinator\<close>: the registered runs of this process. A registration is an
  object of its own, so \<open>unregister\<close> removes an entry only while it is still this one.
\<close>

record active_run =
  ac_registration :: nat
  ac_aborted :: bool
  ac_cancels :: nat

type_synonym coordinator = "ident \<Rightarrow> active_run option"

definition register_run :: "ident \<Rightarrow> nat \<Rightarrow> coordinator \<Rightarrow> coordinator" where
  "register_run runId registration c =
     c(runId \<mapsto> \<lparr>ac_registration = registration, ac_aborted = False, ac_cancels = 0\<rparr>)"

definition unregister_run :: "ident \<Rightarrow> nat \<Rightarrow> coordinator \<Rightarrow> coordinator" where
  "unregister_run runId registration c =
     (if map_option ac_registration (c runId) = Some registration then c(runId := None) else c)"

definition request_cancellation :: "ident \<Rightarrow> coordinator \<Rightarrow> coordinator" where
  "request_cancellation runId c =
     (case c runId of
        None \<Rightarrow> c
      | Some a \<Rightarrow> c(runId \<mapsto> a\<lparr>ac_aborted := True, ac_cancels := ac_cancels a + 1\<rparr>))"

definition cancel_service ::
  "(string \<Rightarrow> string) \<Rightarrow> pg_time \<Rightarrow> js_date \<Rightarrow> 'a scope_scheme \<Rightarrow> ident \<Rightarrow> string
    \<Rightarrow> db \<times> coordinator \<Rightarrow> failure + (cancel_response \<times> db \<times> coordinator)" where
  "cancel_service sha256 clock now scope conversationId key = (\<lambda>(d, c).
     and_then (cancel_transaction sha256 clock now scope conversationId key d) (\<lambda>(r, d').
       Inr (r, d', if cx_cancellationStatus r = Cancel_requested
                   then request_cancellation (cx_runId r) c else c)))"

subsection \<open>The stored outcome\<close>

lemma read_status_text [simp]: "read_status (status_text s) = Some s"
  by (cases s) (simp_all add: read_status_def)

lemma bar_not_in_status: "CHR ''|'' \<notin> set (status_text s)"
  by (cases s) simp_all

lemma last_index_of_bar:
  assumes "c \<notin> set t"
  shows "last_index_of c (s @ c # t) = int (length s)"
proof -
  have "rev (s @ c # t) = rev t @ c # rev s" by simp
  moreover have "takeWhile (\<lambda>x. x \<noteq> c) (rev t @ c # rev s) = rev t"
    using assms by (subst takeWhile_append2) auto
  ultimately have "takeWhile (\<lambda>x. x \<noteq> c) (rev (s @ c # t)) = rev t" by simp
  then show ?thesis by (simp add: last_index_of_def)
qed

lemma decode_encode_outcome:
  assumes "runId \<noteq> []"
  shows "decodeOutcome cid (runId @ ''|'' @ status_text s) =
     Inr \<lparr>cx_conversationId = cid, cx_runId = runId, cx_cancellationStatus = s\<rparr>"
  using assms last_index_of_bar [OF bar_not_in_status [of s], of runId]
  by (simp add: decodeOutcome_def nat_add_distrib)

subsection \<open>Cancelling is idempotent\<close>

lemma apply_cancellation_frame [simp]:
  "command_idempotency (apply_cancellation now run d) = command_idempotency d"
  "conversations (apply_cancellation now run d) = conversations d"
  "messages (apply_cancellation now run d) = messages d"
  by (simp_all add: apply_cancellation_def update_run_def split: cancellation_status.split)

definition cancel_row :: "(string \<Rightarrow> string) \<Rightarrow> 'a scope_scheme \<Rightarrow> ident \<Rightarrow> string \<Rightarrow> cancel_response
    \<Rightarrow> pg_time \<Rightarrow> command_key_row" where
  "cancel_row sha256 scope cid key r clock =
     key_row scope (cancel_operation cid) key (sha256 ''{}'')
       (cx_runId r @ ''|'' @ status_text (cx_cancellationStatus r)) clock"

lemma cancel_transaction_cases:
  assumes "cancel_transaction sha256 clock now scope cid key d = Inr (r, d')"
  obtains
    (replayed) row where "findIdempotency scope (cancel_operation cid) key d = Some row"
      and "decodeOutcome cid (k_resource_id row) = Inr r" and "d' = d"
  | (fresh) run where "findIdempotency scope (cancel_operation cid) key d = None"
      and "latest_run scope cid d = Some run"
      and "r = \<lparr>cx_conversationId = cid, cx_runId = r_run_id run,
                cx_cancellationStatus = cancel_decision (r_status run)\<rparr>"
      and "d' = (apply_cancellation now run d)\<lparr>command_idempotency :=
                command_idempotency d @ [cancel_row sha256 scope cid key r clock]\<rparr>"
  using assms
  by (auto simp: cancel_transaction_def Let_def cancel_row_def split: option.splits
      dest!: insert_command_key_Inr)

type_synonym 'a cancel_command = "(pg_time \<times> js_date) \<times> 'a scope_scheme \<times> ident \<times> string"

definition cancel_exec ::
  "(string \<Rightarrow> string) \<Rightarrow> 'a cancel_command \<Rightarrow> db \<Rightarrow> failure + (cancel_response \<times> db)" where
  "cancel_exec sha256 = (\<lambda>((clock, now), scope, cid, key).
     cancel_transaction sha256 clock now scope cid key)"

definition cancel_lookup :: "'a cancel_command \<Rightarrow> db \<Rightarrow> command_key_row option" where
  "cancel_lookup = (\<lambda>(_, scope, cid, key). findIdempotency scope (cancel_operation cid) key)"

text \<open>Runs have a non-empty identifier, so a stored outcome always decodes.\<close>

definition run_ids_ok :: "db \<Rightarrow> bool" where
  "run_ids_ok d \<longleftrightarrow> list_all (\<lambda>r. r_run_id r \<noteq> []) (agent_runs d)"

lemma latest_run_member: "latest_run scope cid d = Some run \<Longrightarrow> run \<in> set (agent_runs d)
     \<and> r_tenant_id run = sc_tenantId scope \<and> r_site_id run = sc_siteId scope
     \<and> r_conversation_id run = cid"
proof -
  assume "latest_run scope cid d = Some run"
  then obtain rs where rs: "order_desc r_created_at (filter (\<lambda>r. r_tenant_id r = sc_tenantId scope
      \<and> r_site_id r = sc_siteId scope \<and> r_conversation_id r = cid) (agent_runs d)) = run # rs"
    by (auto simp: latest_run_def split: list.splits)
  have "run \<in> set (order_desc r_created_at (filter (\<lambda>r. r_tenant_id r = sc_tenantId scope
      \<and> r_site_id r = sc_siteId scope \<and> r_conversation_id r = cid) (agent_runs d)))"
    unfolding rs by simp
  then show ?thesis by simp
qed

interpretation cancel: idempotent_command "cancel_exec sha256" cancel_lookup
  "\<lambda>_. sha256 ''{}''" "\<lambda>(_, scope, cid, key). decodeOutcome cid" run_ids_ok
  for sha256
proof unfold_locales
  fix a :: "'a cancel_command" and b :: "'a cancel_command" and d d' r row
  obtain clock now scope cid key where a: "a = ((clock, now), scope, cid, key)"
    by (metis prod.exhaust)
  {
    assume ids: "run_ids_ok d" and none: "cancel_lookup a d = None"
      and run: "cancel_exec sha256 a d = Inr (r, d')"
    have "cancel_transaction sha256 clock now scope cid key d = Inr (r, d')"
      using run by (simp add: a cancel_exec_def)
    then show "\<exists>row. cancel_lookup a d' = Some row \<and> k_request_hash row = sha256 ''{}''
        \<and> (case a of (_, scope, cid, key) \<Rightarrow> decodeOutcome cid) (k_resource_id row) = Inr r"
    proof (cases rule: cancel_transaction_cases)
      case (fresh run)
      have "findIdempotency scope (cancel_operation cid) key d'
          = Some (cancel_row sha256 scope cid key r clock)"
        using fresh(1,4) unfolding cancel_row_def by (intro findIdempotency_recorded) simp_all
      moreover have "r_run_id run \<noteq> []"
        using ids latest_run_member [OF fresh(2)] by (auto simp: run_ids_ok_def list_all_iff)
      ultimately show ?thesis
        using decode_encode_outcome by (simp add: a cancel_lookup_def cancel_row_def fresh(3))
    qed (use none in \<open>simp add: a cancel_lookup_def\<close>)
  next
    assume "cancel_lookup a d = Some row" and "k_request_hash row = sha256 ''{}''"
    then show "cancel_exec sha256 a d =
        and_then ((case a of (_, scope, cid, key) \<Rightarrow> decodeOutcome cid) (k_resource_id row))
          (\<lambda>r. Inr (r, d))"
      by (simp add: a cancel_exec_def cancel_lookup_def cancel_transaction_def Let_def)
  next
    obtain clock' now' scope' cid' key' where b: "b = ((clock', now'), scope', cid', key')"
      by (metis prod.exhaust)
    assume "cancel_exec sha256 b d = Inr (r, d')" and row: "cancel_lookup a d = Some row"
    then have "cancel_transaction sha256 clock' now' scope' cid' key' d = Inr (r, d')"
      by (simp add: b cancel_exec_def)
    then show "cancel_lookup a d' = Some row"
      by (cases rule: cancel_transaction_cases)
        (use row in \<open>auto simp: a cancel_lookup_def intro: findIdempotency_kept\<close>)
  }
qed

text \<open>
  Cancelling is idempotent although the run it names moves on: once a cancellation with a
  key answered, the same key answers the same run and the same status, whatever later
  cancellations and whatever the run became, and changes nothing.
\<close>
theorem cancel_replays_outcome:
  fixes scope :: "'a scope_scheme" and others :: "'a cancel_command list"
  assumes "run_ids_ok d"
    and "cancel_transaction sha256 clock now scope cid key d = Inr (r, d')"
    and "findIdempotency scope (cancel_operation cid) key d = None"
  shows "cancel_transaction sha256 clock' now' scope cid key (exec_all (cancel_exec sha256) others d')
       = Inr (r, exec_all (cancel_exec sha256) others d')"
proof -
  let ?a = "((clock, now), scope, cid, key)" and ?b = "((clock', now'), scope, cid, key)"
  have a: "cancel_exec sha256 ?a d = Inr (r, d')" using assms(2) by (simp add: cancel_exec_def)
  have "cancel_exec sha256 ?b (exec_all (cancel_exec sha256) others d')
      = Inr (r, exec_all (cancel_exec sha256) others d')"
    by (rule cancel.retry [OF assms(1) a])
      (use assms(3) in \<open>simp_all add: cancel_lookup_def\<close>)
  then show ?thesis by (simp add: cancel_exec_def)
qed


subsection \<open>Concrete instances\<close>

definition sample_run :: "run_status \<Rightarrow> int \<Rightarrow> pg_time option \<Rightarrow> run_row" where
  "sample_run status attempt lease = \<lparr>r_run_id = ''r1'', r_tenant_id = ''t1'', r_site_id = ''s1'',
     r_conversation_id = ''c1'', r_trigger_message_id = ''m1'', r_trigger_type = Trigger_message,
     r_assistant_message_id = ''am1'', r_agent_ref = ''agent'', r_status = status,
     r_attempt = attempt, r_available_at = 0, r_claimed_at = None, r_lease_expires_at = lease,
     r_cancel_requested_at = None, r_error_code = None, r_created_at = 0, r_updated_at = 0,
     r_completed_at = None\<rparr>"

definition sample_run_db :: "run_row \<Rightarrow> db" where
  "sample_run_db run = sample_chat
     \<lparr>conversations := [sample_conversation ''c1'' 1000\<lparr>c_next_message_sequence := 2\<rparr>],
      messages := [\<lparr>m_message_id = ''m1'', m_tenant_id = ''t1'', m_site_id = ''s1'',
        m_conversation_id = ''c1'', m_sequence = 1, m_participant_id = ''u1'', m_role = Role_user,
        m_status = Msg_completed, m_parts = [TextPart ''hi''], m_created_at = 0,
        m_completed_at = Some 0\<rparr>],
      agent_runs := [run]\<rparr>"

lemma sample_cancelled:
  "\<exists>r d'. cancel_transaction (\<lambda>s. []) 5000 5 sample_scope ''c1'' ''k''
     (sample_run_db (sample_run Run_queued 0 None)) = Inr (r, d')"
  by (simp add: cancel_transaction_def findIdempotency_def find_conversation_def sample_defs
      sample_run_db_def sample_run_def constraint_defs cancel_operation_def latest_run_def
      order_desc_def apply_cancellation_def cancel_decision_def update_run_def key_row_def Let_def)

lemma cancel_replays_outcome_witness:
  "\<exists>r d'. cancel_transaction (\<lambda>s. []) 5000 5 sample_scope ''c1'' ''k''
       (sample_run_db (sample_run Run_queued 0 None)) = Inr (r, d')
     \<and> cancel_transaction (\<lambda>s. []) 9000 9 sample_scope ''c1'' ''k'' d' = Inr (r, d')"
proof -
  let ?d = "sample_run_db (sample_run Run_queued 0 None)"
  obtain r d' where run: "cancel_transaction (\<lambda>s. []) 5000 5 sample_scope ''c1'' ''k'' ?d = Inr (r, d')"
    using sample_cancelled by blast
  have "run_ids_ok ?d" and "findIdempotency sample_scope (cancel_operation ''c1'') ''k'' ?d = None"
    by (simp_all add: run_ids_ok_def sample_run_db_def sample_run_def findIdempotency_def sample_defs)
  from cancel_replays_outcome [OF this(1) run this(2), of 9000 9 "[]"] run show ?thesis by auto
qed


end
