(* ===== verification/EventStore.thy ===== *)
theory EventStore
  imports Message
begin

text \<open>
  \<open>event/store.ts\<close>: the per-conversation event log. \<open>append\<close> allocates the next event
  sequence, stores the event and deletes what falls out of the retention window of
  \<open>retentionMaxEvents\<close> events; \<open>replay\<close> returns the public events after a cursor event,
  or a \<open>sync.required\<close> event when the cursor is no longer stored. The constructor refuses
  a window below one.

  \<open>event_inv\<close> says that the stored events of a conversation are its last ones, numbered
  without a gap up to the counter, at most the window's size of them.
\<close>

datatype event_replay =
    Replay_events "conversation_event list"
  | Replay_sync_required conversation_event

definition store_config_ok :: "int \<Rightarrow> bool" where
  "store_config_ok retentionMaxEvents \<longleftrightarrow>
     1 \<le> retentionMaxEvents \<and> retentionMaxEvents \<le> max_safe_integer"

text \<open>An optional column that JavaScript reads as false when it is the empty string.\<close>

definition truthy :: "string option \<Rightarrow> string option" where
  "truthy s = (if s = Some [] then None else s)"

definition in_scope :: "'a scope_scheme \<Rightarrow> ident \<Rightarrow> conversation_row \<Rightarrow> bool" where
  "in_scope scope cid c \<longleftrightarrow>
     c_tenant_id c = sc_tenantId scope \<and> c_site_id c = sc_siteId scope
     \<and> c_principal_id c = sc_principalId scope \<and> c_conversation_id c = cid"

definition append_event ::
  "int \<Rightarrow> ident \<Rightarrow> js_date \<Rightarrow> 'a scope_scheme \<Rightarrow> connector_event \<Rightarrow> db
    \<Rightarrow> failure + (conversation_event \<times> db)" where
  "append_event retentionMaxEvents eventId occurredAt scope event d =
     (case find (in_scope scope (ce_conversationId event)) (conversations d) of
        None \<Rightarrow> Inl (ApiError CONVERSATION_NOT_FOUND 404)
      | Some c \<Rightarrow>
          if c_next_event_sequence c + 1 > int4_max then Inl Unexpected
          else
            (let sequence = c_next_event_sequence c;
                 d1 = d\<lparr>conversations := update_where (in_scope scope (ce_conversationId event))
                   (\<lambda>c. c\<lparr>c_next_event_sequence := c_next_event_sequence c + 1\<rparr>)
                   (conversations d)\<rparr>
             in and_then (insert_event
                  \<lparr>e_event_id = eventId, e_tenant_id = sc_tenantId scope,
                   e_site_id = sc_siteId scope, e_conversation_id = ce_conversationId event,
                   e_sequence = sequence, e_visibility = ce_visibility event,
                   e_run_id = Some (ce_runId event), e_message_id = ce_messageId event,
                   e_data = ce_data event, e_occurred_at = to_pg occurredAt\<rparr> d1) (\<lambda>d2.
                Inr (\<lparr>ev_eventId = eventId, ev_sequence = sequence, ev_occurredAt = occurredAt,
                      ev_visibility = ce_visibility event,
                      ev_conversationId = ce_conversationId event,
                      ev_runId = Some (ce_runId event), ev_messageId = ce_messageId event,
                      ev_data = ce_data event\<rparr>,
                     d2\<lparr>conversation_events := delete_where
                       (\<lambda>e. e_tenant_id e = sc_tenantId scope \<and> e_site_id e = sc_siteId scope
                          \<and> e_conversation_id e = ce_conversationId event
                          \<and> e_sequence e \<le> sequence - retentionMaxEvents)
                       (conversation_events d2)\<rparr>))))"

definition toConversationEvent :: "event_row \<Rightarrow> conversation_event" where
  "toConversationEvent row =
     \<lparr>ev_eventId = e_event_id row, ev_sequence = e_sequence row,
      ev_occurredAt = to_js (e_occurred_at row), ev_visibility = Public,
      ev_conversationId = e_conversation_id row, ev_runId = truthy (e_run_id row),
      ev_messageId = truthy (e_message_id row), ev_data = e_data row\<rparr>"

definition public_events :: "'a scope_scheme \<Rightarrow> ident \<Rightarrow> db \<Rightarrow> event_row list" where
  "public_events scope cid d =
     filter (\<lambda>e. e_tenant_id e = sc_tenantId scope \<and> e_site_id e = sc_siteId scope
         \<and> e_conversation_id e = cid \<and> e_visibility e = Public) (conversation_events d)"

definition replay_events ::
  "ident \<Rightarrow> js_date \<Rightarrow> 'a scope_scheme \<Rightarrow> ident \<Rightarrow> ident option \<Rightarrow> db \<Rightarrow> failure + event_replay" where
  "replay_events freshId now scope cid afterEventId d =
     (case find (in_scope scope cid) (conversations d) of
        None \<Rightarrow> Inl (ApiError CONVERSATION_NOT_FOUND 404)
      | Some c \<Rightarrow>
          (let rows = (\<lambda>afterSequence. order_asc e_sequence
                 (filter (\<lambda>e. e_sequence e > afterSequence) (public_events scope cid d)))
           in case truthy afterEventId of
                None \<Rightarrow> Inr (Replay_events (map toConversationEvent (rows 0)))
              | Some cursorId \<Rightarrow>
                  (case find (\<lambda>e. e_event_id e = cursorId) (public_events scope cid d) of
                     None \<Rightarrow> Inr (Replay_sync_required
                       \<lparr>ev_eventId = freshId,
                        ev_sequence = max 1 (c_next_event_sequence c - 1),
                        ev_occurredAt = now, ev_visibility = Public, ev_conversationId = cid,
                        ev_runId = None, ev_messageId = None, ev_data = SyncRequired\<rparr>)
                   | Some cursor \<Rightarrow>
                       Inr (Replay_events (map toConversationEvent (rows (e_sequence cursor)))))))"

subsection \<open>The log's invariant\<close>

definition conv_events :: "db \<Rightarrow> ident \<Rightarrow> event_row list" where
  "conv_events d cid = filter (\<lambda>e. e_conversation_id e = cid) (conversation_events d)"

definition event_window :: "int \<Rightarrow> int \<Rightarrow> event_row list \<Rightarrow> bool" where
  "event_window n next_seq evs \<longleftrightarrow>
     1 \<le> next_seq \<and> int (length evs) \<le> n \<and> int (length evs) < next_seq
     \<and> map e_sequence evs = [next_seq - int (length evs)..next_seq - 1]"

definition event_inv :: "int \<Rightarrow> db \<Rightarrow> bool" where
  "event_inv n d \<longleftrightarrow>
     distinct (map c_conversation_id (conversations d))
     \<and> distinct (map e_event_id (conversation_events d))
     \<and> list_all (\<lambda>c. event_window n (c_next_event_sequence c)
          (conv_events d (c_conversation_id c))) (conversations d)
     \<and> list_all (\<lambda>e. exists_row (\<lambda>c. c_conversation_id c = e_conversation_id e
            \<and> c_tenant_id c = e_tenant_id e \<and> c_site_id c = e_site_id e) (conversations d))
         (conversation_events d)"

lemma event_inv_row:
  assumes "event_inv n d" and "find (in_scope scope cid) (conversations d) = Some c"
  shows "event_window n (c_next_event_sequence c) (conv_events d cid)"
    and "c \<in> set (conversations d)" and "in_scope scope cid c" and "c_conversation_id c = cid"
proof -
  from assms(2) show c: "c \<in> set (conversations d)" "in_scope scope cid c"
    by (simp_all add: find_SomeD)
  then show cid: "c_conversation_id c = cid" by (simp add: in_scope_def)
  show "event_window n (c_next_event_sequence c) (conv_events d cid)"
    using assms(1) c(1) cid by (auto simp: event_inv_def list_all_iff)
qed

lemma upto_snoc: "a \<le> b + 1 \<Longrightarrow> [a..b] @ [b + 1] = [a..b + 1]" for a b :: int
  using upto_rec2 [of a "b + 1"] by simp

lemma filter_upto_greater:
  "a \<le> k + 1 \<Longrightarrow> filter (\<lambda>x. k < x) [a..b] = [k + 1..b]" for a b k :: int
proof (induction a b rule: upto.induct)
  case (1 a b)
  show ?case
  proof (cases "a = k + 1")
    case True
    have "filter (\<lambda>x. k < x) [a..b] = [a..b]" using True by (auto simp: filter_id_conv)
    with True show ?thesis by simp
  next
    case False
    with 1 show ?thesis by (simp add: upto.simps [of a b])
  qed
qed

lemma map_filter_sequence:
  "map e_sequence (filter (\<lambda>e. k < e_sequence e) evs) = filter (\<lambda>x. k < x) (map e_sequence evs)"
  by (simp add: filter_map comp_def)

text \<open>Appending the next event and trimming keeps the window.\<close>

lemma event_window_append:
  assumes "event_window n s evs" and "1 \<le> n" and "e_sequence e = s"
  shows "map e_sequence (filter (\<lambda>e. s - n < e_sequence e) (evs @ [e]))
      = [max (s - int (length evs)) (s - n + 1)..s]" (is "map _ ?kept = [?lo..s]")
    and "event_window n (s + 1) (filter (\<lambda>e. s - n < e_sequence e) (evs @ [e]))"
proof -
  let ?l = "int (length evs)"
  have seqs: "map e_sequence (evs @ [e]) = [s - ?l..s]"
    using assms upto_snoc [of "s - ?l" "s - 1"] by (simp add: event_window_def)
  have "filter (\<lambda>x. s - n < x) [s - ?l..s] = [?lo..s]"
  proof (cases "?l < n")
    case True
    then have "filter (\<lambda>x. s - n < x) [s - ?l..s] = [s - ?l..s]" by (auto simp: filter_id_conv)
    moreover have "?lo = s - ?l" using True by (intro max_absorb1) simp
    ultimately show ?thesis by simp
  next
    case False
    then have "filter (\<lambda>x. s - n < x) [s - ?l..s] = [s - n + 1..s]"
      by (intro filter_upto_greater) simp
    moreover have "?lo = s - n + 1" using False by (intro max_absorb2) simp
    ultimately show ?thesis by simp
  qed
  then show kept: "map e_sequence ?kept = [?lo..s]" unfolding map_filter_sequence seqs .
  have "int (length (map e_sequence ?kept)) = s + 1 - ?lo"
    unfolding kept using assms(1,2) by (simp add: event_window_def)
  then have len: "int (length ?kept) = s + 1 - ?lo" by (simp only: length_map)
  have "s + 1 - (s + 1 - ?lo) = ?lo" and "s + 1 - ?lo \<le> n" and "s + 1 - ?lo < s + 1" and "1 \<le> s + 1"
    using assms(1) by (auto simp: event_window_def)
  with kept len show "event_window n (s + 1) ?kept"
    by (simp only: event_window_def) simp
qed

lemma append_event_cases:
  assumes "append_event n eid now scope event d = Inr (ev, d')"
  obtains c where "find (in_scope scope (ce_conversationId event)) (conversations d) = Some c"
    and "c_next_event_sequence c < int4_max" and "1 \<le> c_next_event_sequence c"
    and "\<forall>e \<in> set (conversation_events d). e_event_id e \<noteq> eid"
    and "ev = \<lparr>ev_eventId = eid, ev_sequence = c_next_event_sequence c, ev_occurredAt = now,
           ev_visibility = ce_visibility event, ev_conversationId = ce_conversationId event,
           ev_runId = Some (ce_runId event), ev_messageId = ce_messageId event,
           ev_data = ce_data event\<rparr>"
    and "d' = d\<lparr>conversations := update_where (in_scope scope (ce_conversationId event))
                   (\<lambda>c. c\<lparr>c_next_event_sequence := c_next_event_sequence c + 1\<rparr>) (conversations d),
           conversation_events := delete_where
             (\<lambda>e. e_tenant_id e = sc_tenantId scope \<and> e_site_id e = sc_siteId scope
                \<and> e_conversation_id e = ce_conversationId event
                \<and> e_sequence e \<le> c_next_event_sequence c - n)
             (conversation_events d @
               [\<lparr>e_event_id = eid, e_tenant_id = sc_tenantId scope,
                 e_site_id = sc_siteId scope, e_conversation_id = ce_conversationId event,
                 e_sequence = c_next_event_sequence c, e_visibility = ce_visibility event,
                 e_run_id = Some (ce_runId event), e_message_id = ce_messageId event,
                 e_data = ce_data event, e_occurred_at = to_pg now\<rparr>])\<rparr>"
  using assms
  by (auto simp: append_event_def Let_def insert_event_def split: option.splits if_splits)

lemma in_scope_update [simp]:
  "in_scope s cid (c\<lparr>c_next_event_sequence := x\<rparr>) = in_scope s cid c"
  "in_scope s cid (c\<lparr>c_next_message_sequence := x\<rparr>) = in_scope s cid c"
  "in_scope s cid (c\<lparr>c_updated_at := t\<rparr>) = in_scope s cid c"
  by (simp_all add: in_scope_def)

lemma find_in_scope:
  "find_conversation scope cid d = find (in_scope scope cid) (conversations d)"
  by (simp add: find_conversation_def in_scope_def [abs_def])

lemma append_event_conv:
  assumes "event_inv n d" and "append_event n eid now scope event d = Inr (ev, d')"
  obtains c e where "find (in_scope scope (ce_conversationId event)) (conversations d) = Some c"
    and "e_event_id e = eid" and "e_sequence e = c_next_event_sequence c"
    and "e_conversation_id e = ce_conversationId event" and "e_tenant_id e = sc_tenantId scope"
    and "e_site_id e = sc_siteId scope" and "e_visibility e = ce_visibility event"
    and "e_data e = ce_data event" and "ev_sequence ev = c_next_event_sequence c"
    and "conv_events d' (ce_conversationId event) = filter (\<lambda>x. c_next_event_sequence c - n < e_sequence x)
          (conv_events d (ce_conversationId event) @ [e])"
    and "\<And>x. x \<noteq> ce_conversationId event \<Longrightarrow> conv_events d' x = conv_events d x"
    and "ce_visibility event = Public \<Longrightarrow> ce_messageId event \<noteq> Some [] \<Longrightarrow> ce_runId event \<noteq> [] \<Longrightarrow>
          toConversationEvent e = ev"
  using assms(2)
proof (cases rule: append_event_cases)
  case (1 c)
  let ?cid = "ce_conversationId event"
  note row = event_inv_row [OF assms(1) 1(1)]
  define e where "e = \<lparr>e_event_id = eid, e_tenant_id = sc_tenantId scope,
       e_site_id = sc_siteId scope, e_conversation_id = ?cid,
       e_sequence = c_next_event_sequence c, e_visibility = ce_visibility event,
       e_run_id = Some (ce_runId event), e_message_id = ce_messageId event,
       e_data = ce_data event, e_occurred_at = to_pg now\<rparr>"
  have scoped: "e_tenant_id x = sc_tenantId scope \<and> e_site_id x = sc_siteId scope"
    if x: "x \<in> set (conversation_events d @ [e])" "e_conversation_id x = ?cid" for x
  proof (cases "x = e")
    case False
    then obtain y where "y \<in> set (conversations d)" "c_conversation_id y = ?cid"
      "c_tenant_id y = e_tenant_id x" "c_site_id y = e_site_id x"
      using assms(1) x by (auto simp: event_inv_def list_all_iff)
    then show ?thesis
      using distinct_map_inj [of c_conversation_id "conversations d" y c] row assms(1)
      by (auto simp: event_inv_def in_scope_def)
  qed (simp add: e_def)
  have d': "conversation_events d' = delete_where
      (\<lambda>x. e_tenant_id x = sc_tenantId scope \<and> e_site_id x = sc_siteId scope
        \<and> e_conversation_id x = ?cid \<and> e_sequence x \<le> c_next_event_sequence c - n)
      (conversation_events d @ [e])"
    by (simp add: 1(6) e_def)
  have "conv_events d' ?cid = filter (\<lambda>x. c_next_event_sequence c - n < e_sequence x)
      (filter (\<lambda>x. e_conversation_id x = ?cid) (conversation_events d @ [e]))"
    unfolding conv_events_def d' delete_where_def filter_filter
    by (rule filter_cong [OF refl]) (use scoped in auto)
  moreover have "conv_events d' x = conv_events d x" if "x \<noteq> ?cid" for x
    using that unfolding conv_events_def d' delete_where_def filter_filter
    by (auto simp: e_def intro!: filter_cong)
  moreover have "toConversationEvent e = ev"
    if "ce_visibility event = Public" "ce_messageId event \<noteq> Some []" "ce_runId event \<noteq> []"
    using that 1(5) by (simp add: toConversationEvent_def e_def truthy_def)
  ultimately show ?thesis
    using that [of c e] 1 by (simp add: e_def conv_events_def)
qed

lemma append_event_inv:
  assumes "event_inv n d" and "1 \<le> n"
    and "append_event n eid now scope event d = Inr (ev, d')"
  shows "event_inv n d'"
proof -
  let ?cid = "ce_conversationId event"
  obtain c e where c: "find (in_scope scope ?cid) (conversations d) = Some c"
    and seq: "e_sequence e = c_next_event_sequence c" "ev_sequence ev = c_next_event_sequence c"
    and conv: "conv_events d' ?cid =
       filter (\<lambda>x. c_next_event_sequence c - n < e_sequence x) (conv_events d ?cid @ [e])"
    and other: "\<And>x. x \<noteq> ?cid \<Longrightarrow> conv_events d' x = conv_events d x"
    using append_event_conv [OF assms(1,3)] by metis
  let ?s = "c_next_event_sequence c"
  note row = event_inv_row [OF assms(1) c]
  note window = event_window_append [OF row(1) assms(2) seq(1), folded conv]
  have d': "conversations d' = update_where (in_scope scope ?cid)
       (\<lambda>c. c\<lparr>c_next_event_sequence := c_next_event_sequence c + 1\<rparr>) (conversations d)"
    using assms(3) by (rule append_event_cases) simp
  have evs: "x \<in> set (conversation_events d) \<or> e_conversation_id x = ?cid
      \<and> e_tenant_id x = sc_tenantId scope \<and> e_site_id x = sc_siteId scope"
    if "x \<in> set (conversation_events d')" for x
    using assms(3) by (rule append_event_cases) (use that in auto)
  have ids: "distinct (map e_event_id (conversation_events d'))"
    using assms(3)
  proof (rule append_event_cases)
  qed (use assms(1) in \<open>auto simp: event_inv_def intro!: distinct_map_delete_where\<close>)
  have dist: "distinct (map c_conversation_id (conversations d))"
    using assms(1) by (simp add: event_inv_def)
  have windows: "event_window n (c_next_event_sequence y) (conv_events d' (c_conversation_id y))"
    if y: "y \<in> set (conversations d')" for y
  proof -
    obtain x where x: "x \<in> set (conversations d)"
      "y = (if in_scope scope ?cid x then x\<lparr>c_next_event_sequence := c_next_event_sequence x + 1\<rparr> else x)"
      using y unfolding d' by (rule update_where_memberD)
    show ?thesis
    proof (cases "c_conversation_id x = ?cid")
      case True
      then have "x = c" using distinct_map_inj [OF dist x(1) row(2)] row(4) by simp
      with x row(3,4) window(2) show ?thesis by simp
    next
      case False
      then have "\<not> in_scope scope ?cid x" by (simp add: in_scope_def)
      with x False other assms(1) show ?thesis by (auto simp: event_inv_def list_all_iff)
    qed
  qed
  have fk: "exists_row (\<lambda>c. c_conversation_id c = e_conversation_id x
      \<and> c_tenant_id c = e_tenant_id x \<and> c_site_id c = e_site_id x) (conversations d')"
    if "x \<in> set (conversation_events d')" for x
  proof -
    have "exists_row (\<lambda>c. c_conversation_id c = e_conversation_id x
      \<and> c_tenant_id c = e_tenant_id x \<and> c_site_id c = e_site_id x) (conversations d)"
      using evs [OF that] assms(1) row by (auto simp: event_inv_def list_all_iff in_scope_def)
    then show ?thesis unfolding d' by (subst exists_row_update_where) simp_all
  qed
  show ?thesis
    using ids windows fk dist d' by (simp add: event_inv_def list_all_iff map_update_where)
qed

text \<open>
  Appending to the event log allocates the next number of that conversation and keeps the
  log's invariant: in every conversation the stored events are numbered without a gap up to
  the counter, at most \<open>retentionMaxEvents\<close> of them are kept, and always the newest; the
  other conversations' logs do not change.
\<close>
theorem append_event_keeps_window:
  assumes "event_inv n d" and "1 \<le> n"
    and "append_event n eid now scope event d = Inr (ev, d')"
  shows "event_inv n d'
     \<and> (\<exists>c. find (in_scope scope (ce_conversationId event)) (conversations d) = Some c
         \<and> ev_sequence ev = c_next_event_sequence c
         \<and> map e_sequence (conv_events d' (ce_conversationId event))
             = [max (c_next_event_sequence c - int (length (conv_events d (ce_conversationId event))))
                    (c_next_event_sequence c - n + 1)..c_next_event_sequence c])
     \<and> (\<forall>cid. cid \<noteq> ce_conversationId event \<longrightarrow> conv_events d' cid = conv_events d cid)"
proof -
  let ?cid = "ce_conversationId event"
  obtain c e where c: "find (in_scope scope ?cid) (conversations d) = Some c"
    and seq: "e_sequence e = c_next_event_sequence c" "ev_sequence ev = c_next_event_sequence c"
    and conv: "conv_events d' ?cid =
       filter (\<lambda>x. c_next_event_sequence c - n < e_sequence x) (conv_events d ?cid @ [e])"
    and other: "\<And>x. x \<noteq> ?cid \<Longrightarrow> conv_events d' x = conv_events d x"
    using append_event_conv [OF assms(1,3)] by metis
  note window = event_window_append(1) [OF event_inv_row(1) [OF assms(1) c] assms(2) seq(1), folded conv]
  show ?thesis using append_event_inv [OF assms] c seq(2) other window by blast
qed

subsection \<open>Replay after a reconnect\<close>

fun append_events ::
  "int \<Rightarrow> 'a scope_scheme \<Rightarrow> (ident \<times> js_date \<times> connector_event) list \<Rightarrow> db
    \<Rightarrow> failure + (conversation_event list \<times> db)" where
  "append_events n scope [] d = Inr ([], d)"
| "append_events n scope ((eid, now, event) # es) d =
     and_then (append_event n eid now scope event d) (\<lambda>(ev, d').
       and_then (append_events n scope es d') (\<lambda>(evs, d''). Inr (ev # evs, d'')))"

definition stored_form :: "event_row \<Rightarrow> conversation_event \<Rightarrow> bool" where
  "stored_form row ev \<longleftrightarrow> e_sequence row = ev_sequence ev \<and> e_event_id row = ev_eventId ev
     \<and> e_visibility row = ev_visibility ev
     \<and> (ev_visibility ev = Public \<longrightarrow> toConversationEvent row = ev)"

definition ids_nonempty :: "connector_event \<Rightarrow> bool" where
  "ids_nonempty event \<longleftrightarrow> ce_runId event \<noteq> [] \<and> ce_messageId event \<noteq> Some []"

lemma connector_event_ok_ids: "connector_event_ok uri event \<Longrightarrow> ids_nonempty event"
  by (auto simp: connector_event_ok_def ids_nonempty_def opaque_id_def split: if_splits option.splits)

lemma append_event_stored:
  assumes "event_inv n d" and "append_event n eid now scope event d = Inr (ev, d')"
    and "ids_nonempty event"
  obtains c row where "find (in_scope scope (ce_conversationId event)) (conversations d) = Some c"
    and "stored_form row ev" and "e_tenant_id row = sc_tenantId scope"
    and "e_site_id row = sc_siteId scope" and "e_conversation_id row = ce_conversationId event"
    and "e_event_id row = eid" and "ev_visibility ev = ce_visibility event"
    and "e_sequence row = c_next_event_sequence c"
    and "conv_events d' (ce_conversationId event) =
       filter (\<lambda>x. c_next_event_sequence c - n < e_sequence x)
         (conv_events d (ce_conversationId event) @ [row])"
    and "find (in_scope scope (ce_conversationId event)) (conversations d')
       = Some (c\<lparr>c_next_event_sequence := c_next_event_sequence c + 1\<rparr>)"
proof -
  let ?cid = "ce_conversationId event"
  obtain c e where c: "find (in_scope scope ?cid) (conversations d) = Some c"
    and e: "e_event_id e = eid" "e_sequence e = c_next_event_sequence c"
      "e_conversation_id e = ?cid" "e_tenant_id e = sc_tenantId scope"
      "e_site_id e = sc_siteId scope" "e_visibility e = ce_visibility event"
    and seq: "ev_sequence ev = c_next_event_sequence c"
    and conv: "conv_events d' ?cid = filter (\<lambda>x. c_next_event_sequence c - n < e_sequence x)
          (conv_events d ?cid @ [e])"
    and form: "ce_visibility event = Public \<Longrightarrow> toConversationEvent e = ev"
    using append_event_conv [OF assms(1,2)] assms(3) unfolding ids_nonempty_def by metis
  have ev: "ev_visibility ev = ce_visibility event" "ev_eventId ev = eid"
    and d': "conversations d' = update_where (in_scope scope ?cid)
       (\<lambda>c. c\<lparr>c_next_event_sequence := c_next_event_sequence c + 1\<rparr>) (conversations d)"
    using assms(2) by (auto elim!: append_event_cases)
  have "find (in_scope scope ?cid) (conversations d')
      = Some (c\<lparr>c_next_event_sequence := c_next_event_sequence c + 1\<rparr>)"
    using c find_SomeD [OF c] by (simp add: d' find_update_where)
  moreover have "stored_form e ev" using e seq ev form by (simp add: stored_form_def)
  ultimately show ?thesis using that [of c e] c e ev conv by simp
qed

lemma filter_greater_twice:
  "a \<le> b \<Longrightarrow> filter (\<lambda>x. b < k x) (filter (\<lambda>x. a < k x) xs @ ys) = filter (\<lambda>x. b < k x) (xs @ ys)"
  for a b :: int
  by (auto intro: filter_cong)

text \<open>A run of appends: what the log holds of the conversation afterwards.\<close>

lemma append_events_log:
  assumes "event_inv n d" and "1 \<le> n" and "append_events n scope es d = Inr (evs, d')"
    and "\<forall>(eid, now, event) \<in> set es. ce_conversationId event = cid \<and> ids_nonempty event"
    and "find (in_scope scope cid) (conversations d) = Some c"
  shows "event_inv n d' \<and> (\<exists>rows. list_all2 stored_form rows evs
     \<and> map e_event_id rows = map fst es
     \<and> (\<forall>r \<in> set rows. e_tenant_id r = sc_tenantId scope \<and> e_site_id r = sc_siteId scope
           \<and> e_conversation_id r = cid)
     \<and> map e_sequence rows
         = [c_next_event_sequence c..c_next_event_sequence c + int (length es) - 1]
     \<and> conv_events d' cid = filter
         (\<lambda>x. c_next_event_sequence c + int (length es) - 1 - n < e_sequence x)
         (conv_events d cid @ rows)
     \<and> (\<exists>c'. find (in_scope scope cid) (conversations d') = Some c'
           \<and> c_next_event_sequence c' = c_next_event_sequence c + int (length es)))"
  using assms(1,3-)
proof (induction es arbitrary: d c evs)
  case Nil
  have "event_window n (c_next_event_sequence c) (conv_events d cid)"
    by (rule event_inv_row(1) [OF Nil(1,4)])
  then have "filter (\<lambda>x. c_next_event_sequence c - 1 - n < e_sequence x) (conv_events d cid)
      = conv_events d cid"
    unfolding filter_id_conv
  proof (intro ballI)
    fix x assume w: "event_window n (c_next_event_sequence c) (conv_events d cid)"
      and x: "x \<in> set (conv_events d cid)"
    then have "e_sequence x \<in> set (map e_sequence (conv_events d cid))" by simp
    with w show "c_next_event_sequence c - 1 - n < e_sequence x"
      unfolding event_window_def by auto
  qed
  with Nil show ?case by auto
next
  case (Cons a es)
  obtain eid now event where a: "a = (eid, now, event)" by (cases a)
  obtain ev d1 evs' where one: "append_event n eid now scope event d = Inr (ev, d1)"
    and more: "append_events n scope es d1 = Inr (evs', d')" and evs: "evs = ev # evs'"
    using Cons.prems(2) by (auto simp: a)
  have cid: "ce_conversationId event = cid" and ids: "ids_nonempty event"
    using Cons.prems(3) by (auto simp: a)
  obtain c2 row where c2: "find (in_scope scope (ce_conversationId event)) (conversations d) = Some c2"
    and row: "stored_form row ev" "e_tenant_id row = sc_tenantId scope"
      "e_site_id row = sc_siteId scope" "e_conversation_id row = ce_conversationId event"
      "e_event_id row = eid" "e_sequence row = c_next_event_sequence c2"
    and conv: "conv_events d1 (ce_conversationId event) =
       filter (\<lambda>x. c_next_event_sequence c2 - n < e_sequence x)
         (conv_events d (ce_conversationId event) @ [row])"
    and c1: "find (in_scope scope (ce_conversationId event)) (conversations d1)
       = Some (c2\<lparr>c_next_event_sequence := c_next_event_sequence c2 + 1\<rparr>)"
    by (rule append_event_stored [OF Cons.prems(1) one ids])
  have "c2 = c" using c2 Cons.prems(4) by (simp add: cid)
  note row = row [unfolded this cid] and conv = conv [unfolded this cid]
    and c1 = c1 [unfolded this cid]
  have inv: "event_inv n d1" by (rule append_event_inv [OF Cons.prems(1) assms(2) one])
  obtain rows where rows: "list_all2 stored_form rows evs'" "map e_event_id rows = map fst es"
    "\<forall>r \<in> set rows. e_tenant_id r = sc_tenantId scope \<and> e_site_id r = sc_siteId scope
        \<and> e_conversation_id r = cid"
    "map e_sequence rows = [c_next_event_sequence c + 1..c_next_event_sequence c + int (length es)]"
    "conv_events d' cid = filter (\<lambda>x. c_next_event_sequence c + int (length es) - n < e_sequence x)
       (conv_events d1 cid @ rows)"
    and fin: "event_inv n d'" "\<exists>c'. find (in_scope scope cid) (conversations d') = Some c'
        \<and> c_next_event_sequence c' = c_next_event_sequence c + int (length (a # es))"
    using Cons.IH [OF inv more _ c1] Cons.prems(3) by auto
  have "conv_events d' cid = filter (\<lambda>x. c_next_event_sequence c + int (length (a # es)) - 1 - n
      < e_sequence x) (conv_events d cid @ (row # rows))"
  proof -
    have "c_next_event_sequence c + int (length (a # es)) - 1 = c_next_event_sequence c + int (length es)"
      by simp
    then show ?thesis
      unfolding rows(5) conv by (subst filter_greater_twice) simp_all
  qed
  moreover have "map e_sequence (row # rows)
      = [c_next_event_sequence c..c_next_event_sequence c + int (length (a # es)) - 1]"
    using rows(4) row(6) by (simp add: upto_rec1)
  ultimately show ?case
    using row rows(1-3) fin by (intro conjI exI [of _ "row # rows"]) (auto simp: a evs)
qed

lemma truthy_Some: "eid \<noteq> [] \<Longrightarrow> truthy (Some eid) = Some eid"
  by (simp add: truthy_def)

lemma stored_public:
  "list_all2 stored_form rows evs \<Longrightarrow>
   map toConversationEvent (filter (\<lambda>r. e_visibility r = Public) rows)
     = filter (\<lambda>ev. ev_visibility ev = Public) evs"
  by (induction rule: list_all2_induct) (auto simp: stored_form_def)

lemma public_events_conv:
  assumes "event_inv n d" and "find (in_scope scope cid) (conversations d) = Some c"
  shows "public_events scope cid d = filter (\<lambda>e. e_visibility e = Public) (conv_events d cid)"
  unfolding public_events_def conv_events_def filter_filter
proof (rule filter_cong [OF refl])
  fix x assume x: "x \<in> set (conversation_events d)"
  have "e_tenant_id x = sc_tenantId scope \<and> e_site_id x = sc_siteId scope"
    if cid: "e_conversation_id x = cid"
  proof -
    obtain y where "y \<in> set (conversations d)" "c_conversation_id y = cid"
      "c_tenant_id y = e_tenant_id x" "c_site_id y = e_site_id x"
      using assms(1) x cid by (auto simp: event_inv_def list_all_iff)
    then show ?thesis
      using distinct_map_inj [of c_conversation_id "conversations d" y c]
        event_inv_row [OF assms] assms(1) by (auto simp: event_inv_def in_scope_def)
  qed
  then show "(e_tenant_id x = sc_tenantId scope \<and> e_site_id x = sc_siteId scope
      \<and> e_conversation_id x = cid \<and> e_visibility x = Public)
    = (e_conversation_id x = cid \<and> e_visibility x = Public)" by auto
qed

lemma window_sorted:
  assumes "event_window n s evs"
  shows "sorted_wrt (<) (map e_sequence evs)" and "x \<in> set evs \<Longrightarrow> e_sequence x < s"
    and "x \<in> set evs \<Longrightarrow> 1 \<le> e_sequence x"
proof -
  have seqs: "map e_sequence evs = [s - int (length evs)..s - 1]"
    using assms by (simp add: event_window_def)
  then show "sorted_wrt (<) (map e_sequence evs)" by simp
  assume "x \<in> set evs"
  then have "e_sequence x \<in> set (map e_sequence evs)" by simp
  then have "e_sequence x \<in> {s - int (length evs)..s - 1}" unfolding seqs by simp
  then show "e_sequence x < s" and "1 \<le> e_sequence x"
    using assms by (auto simp: event_window_def)
qed

lemma order_asc_window:
  assumes "event_window n s evs"
  shows "order_asc e_sequence (filter P evs) = filter P evs"
proof -
  have "sorted (map e_sequence evs)"
    using window_sorted(1) [OF assms] by (simp add: strict_sorted_iff)
  then show ?thesis by (simp add: order_asc_def sort_key_id_if_sorted sorted_filter)
qed

lemma replay_events_rows:
  assumes "event_inv n d" and "find (in_scope scope cid) (conversations d) = Some c"
    and "eid \<noteq> []"
  shows "replay_events freshId now scope cid (Some eid) d =
    (case find (\<lambda>e. e_event_id e = eid \<and> e_visibility e = Public) (conv_events d cid) of
       None \<Rightarrow> Inr (Replay_sync_required
         \<lparr>ev_eventId = freshId, ev_sequence = max 1 (c_next_event_sequence c - 1),
          ev_occurredAt = now, ev_visibility = Public, ev_conversationId = cid,
          ev_runId = None, ev_messageId = None, ev_data = SyncRequired\<rparr>)
     | Some e \<Rightarrow> Inr (Replay_events (map toConversationEvent
         (filter (\<lambda>x. e_sequence e < e_sequence x \<and> e_visibility x = Public) (conv_events d cid)))))"
proof -
  have find: "find (\<lambda>e. e_event_id e = eid) (filter (\<lambda>e. e_visibility e = Public) evs)
      = find (\<lambda>e. e_event_id e = eid \<and> e_visibility e = Public) evs" for evs :: "event_row list"
    by (induction evs) auto
  have order: "order_asc e_sequence
        (filter (\<lambda>x. e_visibility x = Public \<and> k < e_sequence x) (conv_events d cid))
      = filter (\<lambda>x. k < e_sequence x \<and> e_visibility x = Public) (conv_events d cid)" for k
    unfolding order_asc_window [OF event_inv_row(1) [OF assms(1,2)]]
    by (rule filter_cong) auto
  show ?thesis
    by (simp add: replay_events_def assms(2) truthy_Some [OF assms(3)] find order
        public_events_conv [OF assms(1,2)] Let_def split: option.split)
qed

text \<open>
  C4: Reconnecting loses nothing, or says so. A public event is appended and then other
  events of the conversation. While fewer than \<open>retentionMaxEvents\<close> of them came, a replay
  after that event returns exactly the later public events, in order, each once, as they were
  published; from then on the replay is the one \<open>sync.required\<close> event and never a log with
  a hole.
\<close>
theorem replay_resumes_exactly:
  assumes "event_inv n d" and "1 \<le> n"
    and "append_event n eid now scope event d = Inr (ev, d1)" and "ce_visibility event = Public"
    and "append_events n scope later d1 = Inr (evs, d2)"
    and "\<forall>(_, _, e) \<in> set ((eid, now, event) # later).
           ce_conversationId e = cid \<and> connector_event_ok uri e"
    and "eid \<noteq> []" and "eid \<notin> fst ` set later"
  shows "replay_events freshId now' scope cid (Some eid) d2 =
     (if int (length later) < n
      then Inr (Replay_events (filter (\<lambda>e. ev_visibility e = Public) evs))
      else Inr (Replay_sync_required
        \<lparr>ev_eventId = freshId, ev_sequence = max 1 (ev_sequence ev + int (length later)),
         ev_occurredAt = now', ev_visibility = Public, ev_conversationId = cid,
         ev_runId = None, ev_messageId = None, ev_data = SyncRequired\<rparr>))"
proof -
  have cid: "ce_conversationId event = cid" and ids: "ids_nonempty event"
    and later: "\<forall>(eid, now, event) \<in> set later. ce_conversationId event = cid \<and> ids_nonempty event"
    using assms(6) by (auto dest: connector_event_ok_ids)
  obtain c row where row: "stored_form row ev" "e_conversation_id row = cid" "e_event_id row = eid"
      "ev_visibility ev = ce_visibility event" "e_sequence row = c_next_event_sequence c"
    and conv1: "conv_events d1 cid = filter (\<lambda>x. c_next_event_sequence c - n < e_sequence x)
         (conv_events d cid @ [row])"
    and c1: "find (in_scope scope cid) (conversations d1)
       = Some (c\<lparr>c_next_event_sequence := c_next_event_sequence c + 1\<rparr>)"
    by (rule append_event_stored [OF assms(1,3) ids, unfolded cid])
  let ?s = "c_next_event_sequence c" and ?k = "int (length later)"
  note inv1 = append_event_inv [OF assms(1-3)]
  obtain rows c2 where rows: "list_all2 stored_form rows evs" "map e_event_id rows = map fst later"
      "map e_sequence rows = [?s + 1..?s + ?k]"
    and conv2: "conv_events d2 cid = filter (\<lambda>x. ?s + ?k - n < e_sequence x) (conv_events d1 cid @ rows)"
    and inv2: "event_inv n d2" and c2: "find (in_scope scope cid) (conversations d2) = Some c2"
      "c_next_event_sequence c2 = ?s + 1 + ?k"
    using append_events_log [OF inv1 assms(2,5) later c1] by auto
  have low: "e_sequence x \<le> ?s" if "x \<in> set (conv_events d1 cid)" for x
    using window_sorted(2) [OF event_inv_row(1) [OF inv1 c1] that] by simp
  have high: "?s < e_sequence x" "e_event_id x \<noteq> eid" if "x \<in> set rows" for x
  proof -
    have "e_sequence x \<in> set (map e_sequence rows)" using that by simp
    then show "?s < e_sequence x" unfolding rows(3) by simp
    have "e_event_id x \<in> set (map e_event_id rows)" using that by simp
    then show "e_event_id x \<noteq> eid" using assms(8) unfolding rows(2) by auto
  qed
  have seq: "ev_sequence ev = ?s" and pub: "e_visibility row = Public"
    using row assms(4) by (simp_all add: stored_form_def)
  show ?thesis
  proof (cases "?k < n")
    case True
    have "row \<in> set (conv_events d2 cid)"
      using True assms(2) row(5) by (simp add: conv2 conv1)
    moreover have "distinct (map e_event_id (conv_events d2 cid))"
      using inv2 by (simp add: event_inv_def conv_events_def distinct_map_filter)
    ultimately have found: "find (\<lambda>e. e_event_id e = eid \<and> e_visibility e = Public)
        (conv_events d2 cid) = Some row"
      using row(3) pub by (intro find_distinct [where g = e_event_id]) auto
    have "filter (\<lambda>x. ?s < e_sequence x \<and> e_visibility x = Public) (conv_events d1 cid) = []"
      using low by (fastforce simp: filter_empty_conv)
    moreover have "filter (\<lambda>x. ?s + ?k - n < e_sequence x \<and> ?s < e_sequence x \<and> e_visibility x = Public) rows
        = filter (\<lambda>x. e_visibility x = Public) rows"
      using high(1) True by (intro filter_cong) fastforce+
    moreover have "filter (\<lambda>x. ?s + ?k - n < e_sequence x \<and> ?s < e_sequence x \<and> e_visibility x = Public)
        (conv_events d1 cid) = []"
      using low by (fastforce simp: filter_empty_conv)
    ultimately have "filter (\<lambda>x. e_sequence row < e_sequence x \<and> e_visibility x = Public)
        (conv_events d2 cid) = filter (\<lambda>x. e_visibility x = Public) rows"
      by (simp add: conv2 row(5))
    then show ?thesis
      using True replay_events_rows [OF inv2 c2(1) assms(7), of freshId now'] found
      by (simp add: stored_public [OF rows(1)])
  next
    case False
    have "find (\<lambda>e. e_event_id e = eid \<and> e_visibility e = Public) (conv_events d2 cid) = None"
      using False low high(2) by (fastforce simp: find_None_iff conv2)
    then show ?thesis
      using False replay_events_rows [OF inv2 c2(1) assms(7), of freshId now']
      by (simp add: c2(2) seq)
  qed
qed

subsection \<open>Concrete instances\<close>

definition sample_event :: "event_data \<Rightarrow> connector_event" where
  "sample_event data = \<lparr>ce_visibility = Public, ce_conversationId = ''c1'', ce_runId = ''r1'',
     ce_messageId = (if requires_message_id data then Some ''m2'' else None), ce_data = data\<rparr>"

lemma sample_event_ok:
  "connector_event_ok uri (sample_event RunCompleted)"
  "connector_event_ok uri (sample_event (MessageDelta ''hi''))"
  by (simp_all add: connector_event_ok_def sample_event_def opaque_id_def is_alnum_def is_upper_def
      is_lower_def is_digit_def code_unit_def opaque_tail_char_def len_between_def)

lemma sample_chat_event_inv: "event_inv 1 sample_chat"
  by (simp add: event_inv_def event_window_def conv_events_def sample_defs)

lemma sample_appended:
  "\<exists>ev d1. append_event 1 ''e1'' 5 sample_scope (sample_event (MessageDelta ''hi'')) sample_chat
     = Inr (ev, d1)
   \<and> (\<exists>evs d2. append_events 1 sample_scope [(''e2'', 6, sample_event RunCompleted)] d1 = Inr (evs, d2))"
  by (simp add: append_event_def sample_defs sample_event_def in_scope_def int4_max_def
      constraint_defs update_where_def delete_where_def)

lemma append_event_keeps_window_witness:
  "\<exists>ev d1. append_event 1 ''e1'' 5 sample_scope (sample_event (MessageDelta ''hi'')) sample_chat
     = Inr (ev, d1) \<and> event_inv 1 d1"
proof -
  obtain ev d1 where run: "append_event 1 ''e1'' 5 sample_scope (sample_event (MessageDelta ''hi''))
      sample_chat = Inr (ev, d1)"
    using sample_appended by blast
  then show ?thesis using append_event_keeps_window [OF sample_chat_event_inv _ run] by simp
qed

lemma replay_resumes_exactly_witness:
  "\<exists>ev d1 evs d2. append_event 1 ''e1'' 5 sample_scope (sample_event (MessageDelta ''hi'')) sample_chat
       = Inr (ev, d1)
     \<and> append_events 1 sample_scope [(''e2'', 6, sample_event RunCompleted)] d1 = Inr (evs, d2)
     \<and> (\<exists>e. replay_events ''f'' 7 sample_scope ''c1'' (Some ''e1'') d2 = Inr (Replay_sync_required e))"
proof -
  obtain ev d1 evs d2 where run: "append_event 1 ''e1'' 5 sample_scope
      (sample_event (MessageDelta ''hi'')) sample_chat = Inr (ev, d1)"
    "append_events 1 sample_scope [(''e2'', 6, sample_event RunCompleted)] d1 = Inr (evs, d2)"
    using sample_appended by blast
  have "replay_events ''f'' 7 sample_scope ''c1'' (Some ''e1'') d2 = Inr (Replay_sync_required
      \<lparr>ev_eventId = ''f'', ev_sequence = max 1 (ev_sequence ev + 1), ev_occurredAt = 7,
       ev_visibility = Public, ev_conversationId = ''c1'', ev_runId = None, ev_messageId = None,
       ev_data = SyncRequired\<rparr>)"
    using replay_resumes_exactly [OF sample_chat_event_inv _ run(1) _ run(2), of "''c1''" "\<lambda>_. True"
        "''f''" 7] sample_event_ok [of "\<lambda>_. True"]
    by (simp add: sample_event_def)
  with run show ?thesis by blast
qed

end
