(* ===== verification/EventBroker.thy ===== *)
theory EventBroker
  imports EventStore
begin

text \<open>
  \<open>event/broker.ts\<close>: the in-process fan-out of public events. A subscription buffers at
  most \<open>subscriberBufferSize\<close> events; when its buffer is full it is dropped: its buffer
  becomes the one \<open>overflow\<close> notification and it leaves its conversation's set.

  The sets are objects: the map holds a reference to one and each subscription's \<open>detach\<close>
  closure captured a reference when it subscribed. \<open>br_sets\<close> is the store of these
  objects, \<open>br_map\<close> and \<open>sb_set\<close> the references, so that a detach acts on the captured
  set and on the map's entry as the closure does. \<open>sb_delivered\<close> is what the reads of a
  subscription resolved to, in order; \<open>sb_waiter\<close> is a read that is still pending.
\<close>

datatype notification = Note_event conversation_event | Note_overflow | Note_closed

record subscription =
  sb_conversationId :: ident
  sb_set :: nat
  sb_queue :: "notification list"
  sb_waiter :: bool
  sb_terminal :: bool
  sb_delivered :: "notification list"

record broker =
  br_bufferSize :: nat
  br_sets :: "nat \<Rightarrow> nat list"
  br_next_set :: nat
  br_map :: "ident \<Rightarrow> nat option"
  br_subs :: "subscription list"

definition broker_config_ok :: "int \<Rightarrow> bool" where
  "broker_config_ok subscriberBufferSize \<longleftrightarrow>
     1 \<le> subscriberBufferSize \<and> subscriberBufferSize \<le> max_safe_integer"

definition new_broker :: "nat \<Rightarrow> broker" where
  "new_broker bufferSize = \<lparr>br_bufferSize = bufferSize, br_sets = \<lambda>_. [], br_next_set = 0,
     br_map = \<lambda>_. None, br_subs = []\<rparr>"

subsection \<open>One subscription\<close>

text \<open>Each operation returns the subscription and whether it called \<open>detach\<close>.\<close>

definition push_subscription ::
  "nat \<Rightarrow> conversation_event \<Rightarrow> subscription \<Rightarrow> subscription \<times> bool" where
  "push_subscription bufferSize event s =
     (if sb_terminal s then (s, False)
      else if sb_waiter s
        then (s\<lparr>sb_waiter := False, sb_delivered := sb_delivered s @ [Note_event event]\<rparr>, False)
      else if length (sb_queue s) < bufferSize
        then (s\<lparr>sb_queue := sb_queue s @ [Note_event event]\<rparr>, False)
      else (s\<lparr>sb_queue := [Note_overflow], sb_terminal := True\<rparr>, True))"

text \<open>\<open>None\<close> is the thrown error of a second pending read.\<close>

definition next_subscription :: "subscription \<Rightarrow> subscription option" where
  "next_subscription s =
     (case sb_queue s of
        n # rest \<Rightarrow> Some (s\<lparr>sb_queue := rest, sb_delivered := sb_delivered s @ [n]\<rparr>)
      | [] \<Rightarrow>
          if sb_terminal s then Some (s\<lparr>sb_delivered := sb_delivered s @ [Note_closed]\<rparr>)
          else if sb_waiter s then None
          else Some (s\<lparr>sb_waiter := True\<rparr>))"

definition close_subscription :: "subscription \<Rightarrow> subscription \<times> bool" where
  "close_subscription s =
     (if sb_terminal s \<and> \<not> sb_waiter s then (s, False)
      else (s\<lparr>sb_terminal := True, sb_queue := [], sb_waiter := False,
              sb_delivered := sb_delivered s @ (if sb_waiter s then [Note_closed] else [])\<rparr>, True))"

subsection \<open>The broker\<close>

definition detach :: "nat \<Rightarrow> broker \<Rightarrow> broker" where
  "detach i b =
     (let s = br_subs b ! i;
          remaining = removeAll i (br_sets b (sb_set s))
      in b\<lparr>br_sets := (br_sets b)(sb_set s := remaining),
           br_map := (if remaining = [] then (br_map b)(sb_conversationId s := None)
                      else br_map b)\<rparr>)"

definition with_subscription ::
  "nat \<Rightarrow> (subscription \<Rightarrow> subscription \<times> bool) \<Rightarrow> broker \<Rightarrow> broker" where
  "with_subscription i f b =
     (let (s', detached) = f (br_subs b ! i);
          b' = b\<lparr>br_subs := (br_subs b)[i := s']\<rparr>
      in if detached then detach i b' else b')"

definition subscribe :: "ident \<Rightarrow> broker \<Rightarrow> broker \<times> nat" where
  "subscribe conversationId b =
     (let i = length (br_subs b);
          found = br_map b conversationId;
          a = (case found of Some a \<Rightarrow> a | None \<Rightarrow> br_next_set b);
          members = (case found of Some a \<Rightarrow> br_sets b a | None \<Rightarrow> []);
          s = \<lparr>sb_conversationId = conversationId, sb_set = a, sb_queue = [], sb_waiter = False,
               sb_terminal = False, sb_delivered = []\<rparr>
      in (b\<lparr>br_subs := br_subs b @ [s], br_sets := (br_sets b)(a := members @ [i]),
            br_map := (br_map b)(conversationId := Some a),
            br_next_set := (if found = None then br_next_set b + 1 else br_next_set b)\<rparr>, i))"

text \<open>The loop over a set's members. A push changes no set but by detaching its own member.\<close>

definition push_each :: "nat \<Rightarrow> conversation_event \<Rightarrow> nat list \<Rightarrow> broker \<Rightarrow> broker" where
  "push_each bufferSize event is b =
     fold (\<lambda>i. with_subscription i (push_subscription bufferSize event)) is b"

definition publish :: "conversation_event \<Rightarrow> broker \<Rightarrow> broker" where
  "publish event b =
     (case br_map b (ev_conversationId event) of
        None \<Rightarrow> b
      | Some a \<Rightarrow> push_each (br_bufferSize b) event (br_sets b a) b)"

definition next_notification :: "nat \<Rightarrow> broker \<Rightarrow> broker" where
  "next_notification i b =
     (case next_subscription (br_subs b ! i) of
        None \<Rightarrow> b
      | Some s \<Rightarrow> b\<lparr>br_subs := (br_subs b)[i := s]\<rparr>)"

definition close :: "nat \<Rightarrow> broker \<Rightarrow> broker" where
  "close i b = with_subscription i close_subscription b"

datatype broker_op = Subscribe ident | Publish conversation_event | Next nat | Close nat

fun broker_step :: "broker_op \<Rightarrow> broker \<Rightarrow> broker" where
  "broker_step (Subscribe c) b = fst (subscribe c b)"
| "broker_step (Publish e) b = publish e b"
| "broker_step (Next i) b = (if i < length (br_subs b) then next_notification i b else b)"
| "broker_step (Close i) b = (if i < length (br_subs b) then close i b else b)"

text \<open>
  What the broker promises: subscription \<open>i\<close> of the log is its conversation with every event
  published there since it subscribed.
\<close>

type_synonym publish_log = "(ident \<times> conversation_event list) list"

fun log_step :: "broker_op \<Rightarrow> publish_log \<Rightarrow> publish_log" where
  "log_step (Subscribe c) l = l @ [(c, [])]"
| "log_step (Publish e) l =
     map (\<lambda>(c, es). (c, if c = ev_conversationId e then es @ [e] else es)) l"
| "log_step (Next i) l = l"
| "log_step (Close i) l = l"

text \<open>How a read sequence may end: dropped for overflow or closed, then closed for ever.\<close>

definition ending :: "notification list \<Rightarrow> bool" where
  "ending tail \<longleftrightarrow> (\<exists>m. tail = replicate m Note_closed)
     \<or> (\<exists>m. tail = Note_overflow # replicate m Note_closed)"

definition sub_ok :: "nat \<Rightarrow> conversation_event list \<Rightarrow> subscription \<Rightarrow> bool" where
  "sub_ok bufferSize es s \<longleftrightarrow>
     length (sb_queue s) \<le> bufferSize
     \<and> (sb_waiter s \<longrightarrow> sb_queue s = [] \<and> \<not> sb_terminal s)
     \<and> (if sb_terminal s
         then \<exists>k tail. sb_delivered s @ sb_queue s = map Note_event (take k es) @ tail \<and> ending tail
         else sb_delivered s @ sb_queue s = map Note_event es)"

subsection \<open>One subscription keeps its promise\<close>

lemma ending_Nil [simp]: "ending []"
  by (simp add: ending_def)

lemma ending_overflow [simp]: "ending [Note_overflow]"
  by (auto simp: ending_def intro: exI [of _ 0])

lemma ending_closed [simp]: "ending [Note_closed]"
  unfolding ending_def by (rule disjI1, rule exI [of _ 1]) simp

lemma ending_snoc: "ending tail \<Longrightarrow> ending (tail @ [Note_closed])"
  unfolding ending_def by (metis append_Cons replicate_append_same replicate_Suc)

lemma prefix_of_append:
  assumes "xs @ ys = map f es"
  shows "xs = map f (take (length xs) es)"
  using arg_cong [OF assms, of "take (length xs)"] by (simp add: take_map)

lemma take_snoc: "\<exists>k'. take k' (es @ [e]) = take k es"
  by (cases "k \<le> length es") (auto intro: exI [of _ k] exI [of _ "length es"])

lemma sub_ok_push:
  assumes "sub_ok n es s" and "1 \<le> n"
  shows "sub_ok n (es @ [e]) (fst (push_subscription n e s))"
proof (cases "sb_terminal s")
  case True
  then obtain k tail where "sb_delivered s @ sb_queue s = map Note_event (take k es) @ tail"
    and "ending tail" using assms(1) by (auto simp: sub_ok_def)
  moreover obtain k' where "take k' (es @ [e]) = take k es" using take_snoc [of es e k] by blast
  ultimately have "\<exists>k tail. sb_delivered s @ sb_queue s = map Note_event (take k (es @ [e])) @ tail
      \<and> ending tail" by metis
  with True assms(1) show ?thesis by (simp add: sub_ok_def push_subscription_def)
next
  case False
  then have eq: "sb_delivered s @ sb_queue s = map Note_event es"
    using assms(1) by (simp add: sub_ok_def)
  show ?thesis
  proof (cases "sb_waiter s \<or> length (sb_queue s) < n")
    case True
    with False eq assms show ?thesis by (auto simp: sub_ok_def push_subscription_def)
  next
    case full: False
    have "sb_delivered s = map Note_event (take (length (sb_delivered s)) es)"
      by (rule prefix_of_append [OF eq])
    moreover obtain k where "take k (es @ [e]) = take (length (sb_delivered s)) es"
      using take_snoc [of es e "length (sb_delivered s)"] by blast
    ultimately have "\<exists>k tail. sb_delivered s @ [Note_overflow]
        = map Note_event (take k (es @ [e])) @ tail \<and> ending tail"
      by (metis ending_overflow)
    then show ?thesis using full False assms(2)
      by (simp add: sub_ok_def push_subscription_def del: take_append)
  qed
qed

lemma sub_ok_next:
  assumes "sub_ok n es s" and "next_subscription s = Some s'"
  shows "sub_ok n es s'"
proof (cases "sb_queue s")
  case Nil
  show ?thesis
  proof (cases "sb_terminal s")
    case True
    then obtain k tail where "sb_delivered s = map Note_event (take k es) @ tail" "ending tail"
      using assms(1) Nil by (auto simp: sub_ok_def)
    moreover from this have "ending (tail @ [Note_closed])" by (simp add: ending_snoc)
    ultimately have "\<exists>k tail'. sb_delivered s @ [Note_closed] = map Note_event (take k es) @ tail'
        \<and> ending tail'" by (metis append.assoc)
    moreover have "s' = s\<lparr>sb_delivered := sb_delivered s @ [Note_closed]\<rparr>"
      using True Nil assms(2) by (simp add: next_subscription_def)
    ultimately show ?thesis using True Nil assms(1) by (simp add: sub_ok_def)
  next
    case False
    with Nil assms show ?thesis
      by (auto simp: sub_ok_def next_subscription_def split: if_splits)
  qed
next
  case (Cons a list)
  with assms show ?thesis by (auto simp: sub_ok_def next_subscription_def)
qed

lemma sub_ok_close:
  assumes "sub_ok n es s"
  shows "sub_ok n es (fst (close_subscription s))"
proof (cases "sb_terminal s")
  case False
  then have "sb_delivered s @ sb_queue s = map Note_event es"
    using assms by (simp add: sub_ok_def)
  then have "sb_delivered s = map Note_event (take (length (sb_delivered s)) es)"
    by (rule prefix_of_append)
  then show ?thesis using assms False
    by (auto simp: sub_ok_def close_subscription_def intro!: exI [of _ "length (sb_delivered s)"])
qed (use assms in \<open>auto simp: sub_ok_def close_subscription_def\<close>)

subsection \<open>The references are consistent\<close>

definition attached :: "broker \<Rightarrow> nat \<Rightarrow> bool" where
  "attached b i \<longleftrightarrow>
     (let s = br_subs b ! i
      in br_map b (sb_conversationId s) = Some (sb_set s) \<and> i \<in> set (br_sets b (sb_set s)))"

definition member_ok :: "broker \<Rightarrow> ident \<Rightarrow> nat \<Rightarrow> nat \<Rightarrow> bool" where
  "member_ok b c a i \<longleftrightarrow> i < length (br_subs b) \<and> \<not> sb_terminal (br_subs b ! i)
     \<and> sb_conversationId (br_subs b ! i) = c \<and> sb_set (br_subs b ! i) = a"

definition broker_inv :: "broker \<Rightarrow> bool" where
  "broker_inv b \<longleftrightarrow>
     (\<forall>i < length (br_subs b). \<not> sb_terminal (br_subs b ! i) \<longrightarrow> attached b i)
     \<and> (\<forall>c a. br_map b c = Some a \<longrightarrow>
          a < br_next_set b \<and> br_sets b a \<noteq> [] \<and> distinct (br_sets b a)
          \<and> (\<forall>i \<in> set (br_sets b a). member_ok b c a i))"

lemma broker_inv_new: "broker_inv (new_broker n)"
  by (simp add: broker_inv_def new_broker_def)

lemma broker_inv_map_inj:
  assumes "broker_inv b" and "br_map b c = Some a" and "br_map b c' = Some a"
  shows "c = c'"
proof -
  have "br_sets b a \<noteq> []" using assms(1,2) by (simp add: broker_inv_def)
  then obtain i where "i \<in> set (br_sets b a)" by (meson list.set_sel(1))
  then have "member_ok b c a i" and "member_ok b c' a i"
    using assms unfolding broker_inv_def by blast+
  then show ?thesis by (simp add: member_ok_def)
qed

lemma broker_inv_update:
  assumes "broker_inv b" and "i < length (br_subs b)"
    and "sb_conversationId s' = sb_conversationId (br_subs b ! i)"
    and "sb_set s' = sb_set (br_subs b ! i)" and "sb_terminal s' = sb_terminal (br_subs b ! i)"
  shows "broker_inv (b\<lparr>br_subs := (br_subs b)[i := s']\<rparr>)"
  using assms unfolding broker_inv_def attached_def member_ok_def Let_def
  by (simp add: nth_list_update)

lemma broker_inv_detach:
  assumes "broker_inv b" and i: "i < length (br_subs b)"
    and "sb_conversationId s' = sb_conversationId (br_subs b ! i)"
    and "sb_set s' = sb_set (br_subs b ! i)"
    and "\<not> sb_terminal (br_subs b ! i)" and "sb_terminal s'"
  shows "broker_inv (detach i (b\<lparr>br_subs := (br_subs b)[i := s']\<rparr>))"
proof -
  let ?c = "sb_conversationId (br_subs b ! i)" and ?a = "sb_set (br_subs b ! i)"
  let ?rest = "removeAll i (br_sets b ?a)"
  let ?b = "detach i (b\<lparr>br_subs := (br_subs b)[i := s']\<rparr>)"
  have map_c: "br_map b ?c = Some ?a" and "i \<in> set (br_sets b ?a)"
    using assms(1,2,5) by (auto simp: broker_inv_def attached_def Let_def)
  have subs: "br_subs ?b = (br_subs b)[i := s']"
    and sets: "br_sets ?b = (br_sets b)(?a := ?rest)"
    and map: "br_map ?b = (if ?rest = [] then (br_map b)(?c := None) else br_map b)"
    and next_set: "br_next_set ?b = br_next_set b"
    using assms(3,4) i by (simp_all add: detach_def Let_def)
  have other: "a \<noteq> ?a" if "br_map b c = Some a" "c \<noteq> ?c" for c a
    using broker_inv_map_inj [OF assms(1) that(1)] map_c that(2) by auto
  have "attached ?b j" if j: "j < length (br_subs b)" "j \<noteq> i" "\<not> sb_terminal (br_subs b ! j)" for j
  proof -
    have "br_map b (sb_conversationId (br_subs b ! j)) = Some (sb_set (br_subs b ! j))"
      and "j \<in> set (br_sets b (sb_set (br_subs b ! j)))"
      using assms(1) j by (auto simp: broker_inv_def attached_def Let_def)
    moreover from this have "?rest \<noteq> []" if "sb_conversationId (br_subs b ! j) = ?c"
      using that map_c j(2) by (auto simp: filter_empty_conv removeAll_filter_not_eq)
    ultimately show ?thesis
      using j other by (auto simp: attached_def Let_def subs sets map)
  qed
  moreover have "a < br_next_set ?b \<and> br_sets ?b a \<noteq> [] \<and> distinct (br_sets ?b a)
      \<and> (\<forall>j \<in> set (br_sets ?b a). member_ok ?b c a j)" if c: "br_map ?b c = Some a" for c a
  proof -
    have old: "br_map b c = Some a" and "c = ?c \<Longrightarrow> ?rest \<noteq> []"
      using c by (auto simp: map split: if_splits)
    moreover have "a < br_next_set b" "br_sets b a \<noteq> []" "distinct (br_sets b a)"
      "\<forall>j \<in> set (br_sets b a). member_ok b c a j"
      using assms(1) old by (auto simp: broker_inv_def)
    ultimately have facts: "a < br_next_set b" "br_sets b a \<noteq> []" "distinct (br_sets b a)"
      "\<And>j. j \<in> set (br_sets b a) \<Longrightarrow> member_ok b c a j" "c = ?c \<Longrightarrow> ?rest \<noteq> []" by blast+
    have keep: "member_ok ?b c a j" if "member_ok b c a j" "j \<noteq> i" for j
      using that by (simp add: member_ok_def subs)
    show ?thesis
    proof (cases "c = ?c")
      case True
      with old map_c have "a = ?a" by simp
      with True facts keep show ?thesis by (simp add: sets next_set distinct_removeAll)
    next
      case False
      have "j \<noteq> i" if "j \<in> set (br_sets b a)" for j
        using facts(4) [OF that] False by (auto simp: member_ok_def)
      with False facts keep other [OF old] show ?thesis by (simp add: sets next_set)
    qed
  qed
  moreover have "j \<noteq> i \<and> \<not> sb_terminal (br_subs b ! j)"
    if "\<not> sb_terminal ((br_subs b)[i := s'] ! j)" for j
    using that assms(6) i by (cases "j = i") simp_all
  ultimately show ?thesis
    unfolding broker_inv_def subs length_list_update by blast
qed

text \<open>An operation on one subscription that detaches exactly when it ends it.\<close>

definition operation_ok :: "(subscription \<Rightarrow> subscription \<times> bool) \<Rightarrow> subscription \<Rightarrow> bool" where
  "operation_ok f s \<longleftrightarrow>
     (case f s of (s', detached) \<Rightarrow>
        sb_conversationId s' = sb_conversationId s \<and> sb_set s' = sb_set s
        \<and> (if detached then \<not> sb_terminal s \<and> sb_terminal s' else sb_terminal s' = sb_terminal s))"

lemma with_subscription_ok:
  assumes "broker_inv b" and "i < length (br_subs b)" and "operation_ok f (br_subs b ! i)"
  shows "broker_inv (with_subscription i f b)"
    and "br_subs (with_subscription i f b) = (br_subs b)[i := fst (f (br_subs b ! i))]"
    and "br_bufferSize (with_subscription i f b) = br_bufferSize b"
  using assms broker_inv_update [OF assms(1,2)] broker_inv_detach [OF assms(1,2)]
  by (auto simp: with_subscription_def operation_ok_def Let_def detach_def split: prod.splits)

lemma operation_ok_push: "operation_ok (push_subscription n e) s"
  by (simp add: operation_ok_def push_subscription_def)

lemma operation_ok_close: "sub_ok n es s \<Longrightarrow> operation_ok close_subscription s"
  by (auto simp: operation_ok_def close_subscription_def sub_ok_def)

subsection \<open>Publishing reaches the live subscriptions\<close>

text \<open>The effect of pushing on the members of a set, one after the other.\<close>

lemma push_each_Cons:
  "push_each n e (i # is) b = push_each n e is (with_subscription i (push_subscription n e) b)"
  by (simp add: push_each_def)

lemma fold_push:
  assumes "broker_inv b" and "distinct is" and "\<forall>i \<in> set is. i < length (br_subs b)"
  shows "broker_inv (push_each n e is b) \<and> br_bufferSize (push_each n e is b) = br_bufferSize b
     \<and> length (br_subs (push_each n e is b)) = length (br_subs b)
     \<and> (\<forall>j < length (br_subs b). br_subs (push_each n e is b) ! j =
          (if j \<in> set is then fst (push_subscription n e (br_subs b ! j)) else br_subs b ! j))"
  using assms
proof (induction "is" arbitrary: b)
  case Nil
  then show ?case by (simp add: push_each_def)
next
  case (Cons i "is")
  let ?b1 = "with_subscription i (push_subscription n e) b"
  have i: "i < length (br_subs b)" using Cons.prems by simp
  note one = with_subscription_ok [OF Cons.prems(1) i operation_ok_push, of n e]
  have len: "length (br_subs ?b1) = length (br_subs b)" by (simp add: one)
  have dist: "distinct is" and lt: "\<forall>i \<in> set is. i < length (br_subs ?b1)"
    using Cons.prems len by auto
  note rest = Cons.IH [OF one(1) dist lt]
  show ?case unfolding push_each_Cons
    using rest Cons.prems(2) i by (auto simp: one(2,3) nth_list_update)
qed

lemma push_terminal: "sb_terminal s \<Longrightarrow> fst (push_subscription n e s) = s"
  by (simp add: push_subscription_def)

lemma publish_ok:
  assumes "broker_inv b"
  shows "broker_inv (publish e b) \<and> br_bufferSize (publish e b) = br_bufferSize b
     \<and> br_subs (publish e b) = map (\<lambda>s. if sb_conversationId s = ev_conversationId e
          then fst (push_subscription (br_bufferSize b) e s) else s) (br_subs b)"
proof (cases "br_map b (ev_conversationId e)")
  case None
  have "(if sb_conversationId s = ev_conversationId e
      then fst (push_subscription (br_bufferSize b) e s) else s) = s" if s: "s \<in> set (br_subs b)" for s
  proof -
    obtain i where "i < length (br_subs b)" "s = br_subs b ! i" using s by (auto simp: in_set_conv_nth)
    then have "sb_conversationId s = ev_conversationId e \<longrightarrow> sb_terminal s"
      using assms None by (auto simp: broker_inv_def attached_def Let_def)
    then show ?thesis by (simp add: push_terminal)
  qed
  then have "map (\<lambda>s. if sb_conversationId s = ev_conversationId e
      then fst (push_subscription (br_bufferSize b) e s) else s) (br_subs b) = br_subs b"
    by (rule map_idI)
  then show ?thesis using None assms by (simp add: publish_def)
next
  case (Some a)
  let ?is = "br_sets b a" and ?n = "br_bufferSize b"
  have members: "\<forall>i \<in> set ?is. member_ok b (ev_conversationId e) a i" and dist: "distinct ?is"
    using assms Some by (auto simp: broker_inv_def)
  then have lt: "\<forall>i \<in> set ?is. i < length (br_subs b)" by (auto simp: member_ok_def)
  note folded = fold_push [OF assms dist lt, of ?n e]
  have "br_subs (publish e b) ! j = (if sb_conversationId (br_subs b ! j) = ev_conversationId e
      then fst (push_subscription ?n e (br_subs b ! j)) else br_subs b ! j)"
    if j: "j < length (br_subs b)" for j
  proof (cases "j \<in> set ?is")
    case True
    then show ?thesis using folded j members Some by (auto simp: publish_def member_ok_def)
  next
    case False
    have "sb_terminal (br_subs b ! j)" if "sb_conversationId (br_subs b ! j) = ev_conversationId e"
      using assms j False Some that by (auto simp: broker_inv_def attached_def Let_def)
    then show ?thesis using folded j False Some by (auto simp: publish_def push_terminal)
  qed
  then have "br_subs (publish e b) = map (\<lambda>s. if sb_conversationId s = ev_conversationId e
          then fst (push_subscription ?n e s) else s) (br_subs b)"
    using folded Some by (intro nth_equalityI) (auto simp: publish_def)
  with folded Some show ?thesis by (simp add: publish_def)
qed

subsection \<open>The broker keeps its promise\<close>

definition broker_rel :: "broker \<Rightarrow> publish_log \<Rightarrow> bool" where
  "broker_rel b l \<longleftrightarrow>
     broker_inv b \<and> 1 \<le> br_bufferSize b
     \<and> list_all2 (\<lambda>(c, es) s. sb_conversationId s = c \<and> sub_ok (br_bufferSize b) es s) l (br_subs b)"

lemma push_conversation [simp]:
  "sb_conversationId (fst (push_subscription n e s)) = sb_conversationId s"
  "sb_conversationId (fst (close_subscription s)) = sb_conversationId s"
  by (simp_all add: push_subscription_def close_subscription_def)

lemma broker_inv_subscribe_new:
  assumes inv: "broker_inv b" and None: "br_map b c = None"
  shows "broker_inv (fst (subscribe c b))"
proof -
  have fresh: "a < br_next_set b" if "br_map b x = Some a" for x a
    using inv that by (simp add: broker_inv_def)
  have att: "attached (fst (subscribe c b)) i" if "i < length (br_subs b)"
    "\<not> sb_terminal (br_subs b ! i)" for i
  proof -
    have "attached b i" using inv that by (simp add: broker_inv_def)
    with None fresh that show ?thesis
      by (fastforce simp: attached_def subscribe_def Let_def nth_append)
  qed
  show ?thesis unfolding broker_inv_def
  proof (intro conjI allI impI, goal_cases)
    case (1 i)
    then show ?case using att [of i] None
      by (cases "i < length (br_subs b)")
        (auto simp: attached_def subscribe_def Let_def nth_append less_Suc_eq)
  next
    case (2 x a)
    then show ?case using None fresh [of x a]
      by (auto simp: subscribe_def Let_def less_Suc_eq split: if_splits)
  next
    case (3 x a)
    then show ?case using None inv fresh [of x a]
      by (auto simp: subscribe_def Let_def broker_inv_def split: if_splits)
  next
    case (4 x a)
    then show ?case using None inv fresh [of x a]
      by (auto simp: subscribe_def Let_def broker_inv_def split: if_splits)
  next
    case (5 x a)
    then show ?case using None inv fresh [of x a]
      by (fastforce simp: subscribe_def Let_def broker_inv_def member_ok_def nth_append
          split: if_splits)
  qed
qed

lemma broker_inv_subscribe_old:
  assumes inv: "broker_inv b" and Some: "br_map b c = Some a0"
  shows "broker_inv (fst (subscribe c b))"
proof -
  have old: "br_sets b a0 \<noteq> []" "distinct (br_sets b a0)" "a0 < br_next_set b"
    "\<forall>i \<in> set (br_sets b a0). member_ok b c a0 i"
    using inv Some by (auto simp: broker_inv_def)
  have new: "length (br_subs b) \<notin> set (br_sets b a0)"
    using old(4) by (auto simp: member_ok_def)
  have att: "attached (fst (subscribe c b)) i" if "i < length (br_subs b)"
    "\<not> sb_terminal (br_subs b ! i)" for i
  proof -
    have "attached b i" using inv that by (simp add: broker_inv_def)
    with Some that show ?thesis by (auto simp: attached_def subscribe_def Let_def nth_append)
  qed
  have other: "a \<noteq> a0" if "br_map b x = Some a" "x \<noteq> c" for x a
    using broker_inv_map_inj [OF inv that(1)] Some that(2) by blast
  show ?thesis unfolding broker_inv_def
  proof (intro conjI allI impI, goal_cases)
    case (1 i)
    then show ?case using att [of i] Some
      by (cases "i < length (br_subs b)")
        (auto simp: attached_def subscribe_def Let_def nth_append less_Suc_eq)
  next
    case (2 x a)
    then show ?case using Some inv old
      by (auto simp: subscribe_def Let_def broker_inv_def split: if_splits)
  next
    case (3 x a)
    then show ?case using Some inv other [of x a]
      by (auto simp: subscribe_def Let_def broker_inv_def split: if_splits)
  next
    case (4 x a)
    then show ?case using Some inv other [of x a] old(2) new
      by (auto simp: subscribe_def Let_def broker_inv_def split: if_splits)
  next
    case (5 x a)
    then show ?case using Some inv other [of x a] old(4)
      by (auto simp: subscribe_def Let_def broker_inv_def member_ok_def nth_append less_Suc_eq
          split: if_splits)
  qed
qed

lemma broker_rel_subscribe:
  assumes "broker_rel b l"
  shows "broker_rel (fst (subscribe c b)) (l @ [(c, [])])"
proof -
  have "broker_inv b" using assms by (simp add: broker_rel_def)
  then have "broker_inv (fst (subscribe c b))"
    by (cases "br_map b c") (auto intro: broker_inv_subscribe_new broker_inv_subscribe_old)
  moreover have "br_subs (fst (subscribe c b)) = br_subs b @
      [\<lparr>sb_conversationId = c,
        sb_set = (case br_map b c of Some a \<Rightarrow> a | None \<Rightarrow> br_next_set b), sb_queue = [],
        sb_waiter = False, sb_terminal = False, sb_delivered = []\<rparr>]"
    and "br_bufferSize (fst (subscribe c b)) = br_bufferSize b"
    by (simp_all add: subscribe_def Let_def)
  ultimately show ?thesis
    using assms unfolding broker_rel_def
    by (intro conjI) (auto intro!: list_all2_appendI, simp add: sub_ok_def)
qed

lemma broker_rel_publish:
  assumes "broker_rel b l"
  shows "broker_rel (publish e b) (log_step (Publish e) l)"
proof -
  have rel: "list_all2 (\<lambda>(c, es) s. sb_conversationId s = c \<and> sub_ok (br_bufferSize b) es s) l (br_subs b)"
    and inv: "broker_inv b" and n: "1 \<le> br_bufferSize b"
    using assms by (auto simp: broker_rel_def)
  have "list_all2 (\<lambda>(c, es) s. sb_conversationId s = c \<and> sub_ok (br_bufferSize b) es s)
      (map (\<lambda>(c, es). (c, if c = ev_conversationId e then es @ [e] else es)) l)
      (map (\<lambda>s. if sb_conversationId s = ev_conversationId e
          then fst (push_subscription (br_bufferSize b) e s) else s) (br_subs b))"
    using rel by (induction rule: list_all2_induct) (auto intro: sub_ok_push [OF _ n])
  with publish_ok [OF inv, of e] n show ?thesis by (simp add: broker_rel_def)
qed

lemma broker_rel_sub:
  assumes "broker_rel b l" and "i < length (br_subs b)"
  shows "i < length l" and "sb_conversationId (br_subs b ! i) = fst (l ! i)"
    and "sub_ok (br_bufferSize b) (snd (l ! i)) (br_subs b ! i)"
  using assms
  by (cases "l ! i"; auto simp: broker_rel_def list_all2_conv_all_nth split: prod.splits)+

lemma broker_rel_set:
  assumes "broker_rel b l" and "i < length (br_subs b)"
    and "broker_inv b'" and "br_bufferSize b' = br_bufferSize b"
    and "br_subs b' = (br_subs b)[i := s']"
    and "sb_conversationId s' = sb_conversationId (br_subs b ! i)"
    and "sub_ok (br_bufferSize b) (snd (l ! i)) s'"
  shows "broker_rel b' l"
  using assms by (auto simp: broker_rel_def list_all2_conv_all_nth nth_list_update split: prod.splits)

lemma next_subscription_fields:
  "next_subscription s = Some s' \<Longrightarrow> sb_conversationId s' = sb_conversationId s
     \<and> sb_set s' = sb_set s \<and> sb_terminal s' = sb_terminal s"
  by (auto simp: next_subscription_def split: list.splits if_splits)

lemma broker_rel_step:
  assumes "broker_rel b l"
  shows "broker_rel (broker_step op b) (log_step op l)"
proof (cases op)
  case (Subscribe c)
  then show ?thesis using broker_rel_subscribe [OF assms] by simp
next
  case (Publish e)
  then show ?thesis using broker_rel_publish [OF assms] by simp
next
  case (Next i)
  have inv: "broker_inv b" using assms by (simp add: broker_rel_def)
  show ?thesis
  proof (cases "i < length (br_subs b) \<and> next_subscription (br_subs b ! i) \<noteq> None")
    case True
    then obtain s' where i: "i < length (br_subs b)"
      and s': "next_subscription (br_subs b ! i) = Some s'" by auto
    note fields = next_subscription_fields [OF s']
    have "broker_rel (next_notification i b) l"
      using fields s' broker_inv_update [OF inv i, of s']
      by (intro broker_rel_set [OF assms i, of _ s'])
        (auto simp: next_notification_def intro: sub_ok_next [OF broker_rel_sub(3) [OF assms i]])
    with Next i show ?thesis by simp
  next
    case False
    then show ?thesis using assms Next by (auto simp: next_notification_def)
  qed
next
  case (Close i)
  show ?thesis
  proof (cases "i < length (br_subs b)")
    case True
    have inv: "broker_inv b" using assms by (simp add: broker_rel_def)
    note ok = broker_rel_sub(3) [OF assms True]
    note op = with_subscription_ok [OF inv True operation_ok_close [OF ok]]
    have "broker_rel (close i b) l"
      unfolding close_def
      by (rule broker_rel_set [OF assms True op(1,3,2)]) (simp_all add: sub_ok_close [OF ok])
    with Close True show ?thesis by simp
  qed (use assms Close in simp)
qed

lemma broker_rel_run:
  "broker_rel b l \<Longrightarrow> broker_rel (fold broker_step ops b) (fold log_step ops l)"
  by (induction ops arbitrary: b l) (auto intro: broker_rel_step)

lemma broker_step_size:
  assumes "broker_rel b l"
  shows "br_bufferSize (fold broker_step ops b) = br_bufferSize b"
  using assms
proof (induction ops arbitrary: b l)
  case (Cons op ops)
  have inv: "broker_inv b" using Cons.prems by (simp add: broker_rel_def)
  have "br_bufferSize (broker_step op b) = br_bufferSize b"
    using publish_ok [OF inv]
    by (cases op) (auto simp: subscribe_def Let_def next_notification_def close_def
        with_subscription_def detach_def split: option.splits prod.splits)
  with Cons.IH [OF broker_rel_step [OF Cons.prems]] show ?case by simp
qed simp

lemma broker_rel_reachable:
  assumes "1 \<le> bufferSize"
  shows "broker_rel (fold broker_step ops (new_broker bufferSize)) (fold log_step ops [])"
    and "br_bufferSize (fold broker_step ops (new_broker bufferSize)) = bufferSize"
proof -
  have new: "broker_rel (new_broker bufferSize) []"
    using assms by (simp add: broker_rel_def broker_inv_new) (simp add: new_broker_def)
  then show "broker_rel (fold broker_step ops (new_broker bufferSize)) (fold log_step ops [])"
    by (rule broker_rel_run)
  show "br_bufferSize (fold broker_step ops (new_broker bufferSize)) = bufferSize"
    unfolding broker_step_size [OF new] by (simp add: new_broker_def)
qed

text \<open>
  C5: The broker refines its log of publications. After any sequence of subscriptions,
  publications, reads and closings, every subscription holds at most \<open>subscriberBufferSize\<close>
  notifications, and what it delivered followed by what it still holds is: for a live one,
  exactly the events published to its conversation since it subscribed, in order; for an ended
  one a prefix of them followed by an overflow or a close, and nothing after that but closes.
\<close>
theorem broker_refines_log:
  assumes "1 \<le> bufferSize"
  shows "list_all2 (\<lambda>(c, es) s. sb_conversationId s = c \<and> length (sb_queue s) \<le> bufferSize
       \<and> (if sb_terminal s
           then \<exists>k tail. sb_delivered s @ sb_queue s = map Note_event (take k es) @ tail \<and> ending tail
           else sb_delivered s @ sb_queue s = map Note_event es))
     (fold log_step ops []) (br_subs (fold broker_step ops (new_broker bufferSize)))"
  using broker_rel_reachable [OF assms, of ops]
  by (auto simp: broker_rel_def sub_ok_def elim!: list_all2_mono)

lemma broker_refines_log_witness:
  "list_all2 (\<lambda>(c, es) s. sb_conversationId s = c \<and> length (sb_queue s) \<le> 1
       \<and> (if sb_terminal s
           then \<exists>k tail. sb_delivered s @ sb_queue s = map Note_event (take k es) @ tail \<and> ending tail
           else sb_delivered s @ sb_queue s = map Note_event es))
     (fold log_step [Subscribe ''c1'', Next 0, Close 0] [])
     (br_subs (fold broker_step [Subscribe ''c1'', Next 0, Close 0] (new_broker 1)))"
  by (rule broker_refines_log) simp

end
