(* ===== verification/EventStream.thy ===== *)
theory EventStream
  imports EventBroker
begin

text \<open>
  \<open>event/service.ts\<close> and the streaming handler of \<open>event/route.ts\<close>: appending stores the
  event and publishes it when it is public; a stream subscribes first, replays the log, and
  then writes each notification whose sequence is above the last one written. The frames a
  response carries are the list of events written.

  \<open>notification_source\<close> is what the handler relies on: the reads of its subscription are a
  prefix of what was sent, then an overflow or a close. It is interpreted on the broker.
\<close>

subsection \<open>The service\<close>

definition service_append ::
  "int \<Rightarrow> ident \<Rightarrow> js_date \<Rightarrow> 'a scope_scheme \<Rightarrow> connector_event \<Rightarrow> db \<times> broker
    \<Rightarrow> failure + (conversation_event \<times> db \<times> broker)" where
  "service_append n eid now scope event = (\<lambda>(d, b).
     and_then (append_event n eid now scope event d) (\<lambda>(persisted, d').
       Inr (persisted, d',
         if ev_visibility persisted = Public then publish persisted b else b)))"

text \<open>\<open>syncRequired\<close> replays after a fresh random identifier.\<close>

definition sync_required ::
  "ident \<Rightarrow> ident \<Rightarrow> js_date \<Rightarrow> 'a scope_scheme \<Rightarrow> ident \<Rightarrow> db \<Rightarrow> failure + conversation_event" where
  "sync_required freshCursor freshId now scope cid d =
     and_then (replay_events freshId now scope cid (Some freshCursor) d) (\<lambda>r.
       (case r of Replay_sync_required e \<Rightarrow> Inr e | Replay_events _ \<Rightarrow> Inl Unexpected))"

subsection \<open>The stream\<close>

text \<open>
  The loop over the notifications read so far; the list ends where the next read is still
  pending or the response is destroyed. A failing \<open>syncRequired\<close> destroys the response.
\<close>

fun live_loop :: "int \<Rightarrow> failure + conversation_event \<Rightarrow> notification list \<Rightarrow> conversation_event list" where
  "live_loop lastSequence sync [] = []"
| "live_loop lastSequence sync (Note_closed # _) = []"
| "live_loop lastSequence sync (Note_overflow # _) = (case sync of Inl _ \<Rightarrow> [] | Inr e \<Rightarrow> [e])"
| "live_loop lastSequence sync (Note_event e # rest) =
     (if ev_sequence e \<le> lastSequence then live_loop lastSequence sync rest
      else e # live_loop (ev_sequence e) sync rest)"

definition last_sequence :: "conversation_event list \<Rightarrow> int" where
  "last_sequence events = (if events = [] then 0 else ev_sequence (last events))"

fun stream_events ::
  "event_replay \<Rightarrow> failure + conversation_event \<Rightarrow> notification list \<Rightarrow> conversation_event list" where
  "stream_events (Replay_sync_required e) sync reads = [e]"
| "stream_events (Replay_events events) sync reads =
     events @ live_loop (last_sequence events) sync reads"

text \<open>\<open>writeEvent\<close>: the text of one frame, for the JSON of the event.\<close>

definition write_event :: "ident \<Rightarrow> string \<Rightarrow> json \<Rightarrow> string" where
  "write_event eventId type body =
     ''id: '' @ eventId @ [CHR 0x0A] @ ''event: '' @ type @ [CHR 0x0A]
       @ ''data: '' @ stringify body @ [CHR 0x0A, CHR 0x0A]"

subsection \<open>The interface to the broker\<close>

locale notification_source =
  fixes reads :: "'s \<Rightarrow> notification list"
    and sent :: "'s \<Rightarrow> conversation_event list"
    and valid :: "'s \<Rightarrow> bool"
  assumes reads_prefix:
    "valid s \<Longrightarrow> \<exists>k tail. reads s = map Note_event (take k (sent s)) @ tail \<and> ending tail"
begin

lemma live_loop_ending:
  "ending tail \<Longrightarrow> live_loop l sync tail
     = (if Note_overflow \<in> set tail then (case sync of Inl _ \<Rightarrow> [] | Inr e \<Rightarrow> [e]) else [])"
  by (auto simp: ending_def) (metis live_loop.simps(1,2) replicate_0 replicate_Suc not0_implies_Suc)

lemma live_loop_events:
  "sorted_wrt (<) (map ev_sequence es) \<Longrightarrow> ending tail \<Longrightarrow>
   live_loop l sync (map Note_event es @ tail) =
     filter (\<lambda>e. l < ev_sequence e) es
     @ (if Note_overflow \<in> set tail then (case sync of Inl _ \<Rightarrow> [] | Inr e \<Rightarrow> [e]) else [])"
proof (induction es arbitrary: l)
  case (Cons e es)
  show ?case
  proof (cases "ev_sequence e \<le> l")
    case False
    have "filter (\<lambda>x. ev_sequence e < ev_sequence x) es = es"
      using Cons.prems by (auto simp: filter_id_conv)
    moreover have "filter (\<lambda>x. l < ev_sequence x) es = es"
      using Cons.prems False by (fastforce simp: filter_id_conv)
    ultimately show ?thesis using Cons False by simp
  qed (use Cons in simp)
qed (simp add: live_loop_ending)

text \<open>What a stream over the source writes, when the publications are in sequence order.\<close>

theorem stream_over_source:
  assumes "valid s" and "sorted_wrt (<) (map ev_sequence (sent s))"
    and "Note_overflow \<notin> set (reads s)"
  shows "\<exists>k. stream_events (Replay_events replayed) sync (reads s) =
     replayed @ filter (\<lambda>e. last_sequence replayed < ev_sequence e) (take k (sent s))"
proof -
  obtain k tail where r: "reads s = map Note_event (take k (sent s)) @ tail" "ending tail"
    using reads_prefix [OF assms(1)] by blast
  have "sorted_wrt (<) (map ev_sequence (take k (sent s)))"
    using assms(2) by (simp add: take_map [symmetric] sorted_wrt_take)
  with r assms(3) show ?thesis by (auto simp: live_loop_events)
qed

end

lemma ending_prefix:
  assumes "ending (xs @ ys)"
  shows "ending xs"
proof -
  consider m where "xs @ ys = replicate m Note_closed"
    | m where "xs @ ys = Note_overflow # replicate m Note_closed"
    using assms by (auto simp: ending_def)
  then show ?thesis
  proof cases
    case 1
    then have "xs = replicate (length xs) Note_closed"
      by (metis append_eq_conv_conj take_replicate length_append length_replicate min.absorb1
          le_add1)
    then show ?thesis unfolding ending_def by blast
  next
    case 2
    show ?thesis
    proof (cases xs)
      case (Cons a zs)
      with 2 have "a = Note_overflow" and zs: "zs @ ys = replicate m Note_closed" by auto
      from zs have "zs = replicate (length zs) Note_closed"
        by (metis append_eq_conv_conj take_replicate length_append length_replicate min.absorb1
            le_add1)
      with \<open>a = Note_overflow\<close> Cons show ?thesis unfolding ending_def by blast
    qed simp
  qed
qed

lemma delivered_prefix:
  assumes "xs @ ys = map Note_event es @ tail" and "ending tail"
  shows "\<exists>k tail'. xs = map Note_event (take k es) @ tail' \<and> ending tail'"
proof (cases "length xs \<le> length es")
  case True
  have "xs = take (length xs) (map Note_event es @ tail)" by (simp flip: assms(1))
  with True have "xs = map Note_event (take (length xs) es) @ []" by (simp add: take_map)
  then show ?thesis by (intro exI [of _ "length xs"] exI [of _ "[]"]) simp
next
  case False
  let ?zs = "take (length xs - length es) tail"
  have "xs = take (length xs) (map Note_event es @ tail)" by (simp flip: assms(1))
  with False have "xs = map Note_event (take (length es) es) @ ?zs" by simp
  moreover have "ending ?zs"
    using assms(2) ending_prefix [of ?zs "drop (length xs - length es) tail"] by simp
  ultimately show ?thesis by blast
qed

text \<open>A subscription of the broker, after a sequence of its operations.\<close>

definition broker_after :: "nat \<Rightarrow> broker_op list \<Rightarrow> broker" where
  "broker_after bufferSize ops = fold broker_step ops (new_broker bufferSize)"

definition reads_of :: "nat \<times> broker_op list \<times> nat \<Rightarrow> notification list" where
  "reads_of = (\<lambda>(n, ops, i). sb_delivered (br_subs (broker_after n ops) ! i))"

definition sent_to :: "nat \<times> broker_op list \<times> nat \<Rightarrow> conversation_event list" where
  "sent_to = (\<lambda>(n, ops, i). snd (fold log_step ops [] ! i))"

interpretation broker_source: notification_source reads_of sent_to
  "\<lambda>(n, ops, i). 1 \<le> n \<and> i < length (br_subs (broker_after n ops))"
proof
  fix s :: "nat \<times> broker_op list \<times> nat"
  obtain n ops i where s: "s = (n, ops, i)" by (cases s)
  let ?b = "broker_after n ops"
  assume "case s of (n, ops, i) \<Rightarrow> 1 \<le> n \<and> i < length (br_subs (broker_after n ops))"
  then have n: "1 \<le> n" and i: "i < length (br_subs ?b)" by (simp_all add: s)
  have rel: "broker_rel ?b (fold log_step ops [])"
    unfolding broker_after_def by (rule broker_rel_reachable(1) [OF n])
  let ?es = "snd (fold log_step ops [] ! i)" and ?s = "br_subs ?b ! i"
  have "sub_ok (br_bufferSize ?b) ?es ?s" by (rule broker_rel_sub(3) [OF rel i])
  then obtain k tail where split: "sb_delivered ?s @ sb_queue ?s = map Note_event (take k ?es) @ tail"
    and tail: "ending tail"
    by (auto simp: sub_ok_def split: if_splits intro: that [of "length ?es" "[]"])
  have "\<exists>k' tail'. sb_delivered ?s = map Note_event (take k' (take k ?es)) @ tail' \<and> ending tail'"
    by (rule delivered_prefix [OF split tail])
  then have "\<exists>k tail. sb_delivered ?s = map Note_event (take k ?es) @ tail \<and> ending tail"
    by (simp only: take_take) blast
  then show "\<exists>k tail. reads_of s = map Note_event (take k (sent_to s)) @ tail \<and> ending tail"
    by (simp add: s reads_of_def sent_to_def)
qed

text \<open>
  C3: A stream over the broker writes the replayed events and then, of the events published
  to its subscription, a prefix without those the replay already wrote: no event twice and,
  while the subscriber did not overflow, none left out before the last one written. The
  sequence numbers written are strictly increasing. The events reach the broker in sequence
  order when the appends of a conversation do not overlap.
\<close>
theorem stream_no_gap_no_repeat:
  assumes "1 \<le> n" and "i < length (br_subs (broker_after n ops))"
    and "sorted_wrt (<) (map ev_sequence (sent_to (n, ops, i)))"
    and "sorted_wrt (<) (map ev_sequence replayed)" and "\<forall>e \<in> set replayed. 0 < ev_sequence e"
    and "Note_overflow \<notin> set (reads_of (n, ops, i))"
  shows "\<exists>k. stream_events (Replay_events replayed) sync (reads_of (n, ops, i)) =
       replayed @ filter (\<lambda>e. last_sequence replayed < ev_sequence e) (take k (sent_to (n, ops, i)))
     \<and> sorted_wrt (<) (map ev_sequence (stream_events (Replay_events replayed) sync
         (reads_of (n, ops, i))))"
proof -
  obtain k where k: "stream_events (Replay_events replayed) sync (reads_of (n, ops, i)) =
       replayed @ filter (\<lambda>e. last_sequence replayed < ev_sequence e) (take k (sent_to (n, ops, i)))"
    using broker_source.stream_over_source [of "(n, ops, i)" replayed sync] assms by auto
  have "sorted_wrt (<) (map ev_sequence (take k (sent_to (n, ops, i))))"
    using assms(3) by (simp add: take_map [symmetric] sorted_wrt_take)
  then have live: "sorted_wrt (<) (map ev_sequence
      (filter (\<lambda>e. last_sequence replayed < ev_sequence e) (take k (sent_to (n, ops, i)))))"
    by (simp add: sorted_wrt_map sorted_wrt_filter)
  have "ev_sequence x \<le> last_sequence replayed" if "x \<in> set replayed" for x
  proof -
    obtain xs y where xs: "replayed = xs @ [y]" using \<open>x \<in> set replayed\<close>
      by (metis append_butlast_last_id list.set_sel(1) length_greater_0_conv length_pos_if_in_set)
    then show ?thesis using that assms(4) by (auto simp: last_sequence_def sorted_wrt_append)
  qed
  with live assms(4) have "sorted_wrt (<) (map ev_sequence (stream_events (Replay_events replayed)
      sync (reads_of (n, ops, i))))"
    unfolding k by (fastforce simp: sorted_wrt_append)
  with k show ?thesis by blast
qed

text \<open>
  Only public events reach a browser: appending an event of another visibility stores it
  and leaves the broker as it was, and every event a replay returns is stored as public.
\<close>
theorem only_public_streamed:
  "(service_append n eid now scope event (d, b) = Inr (ev, d', b') \<and> ce_visibility event \<noteq> Public
      \<longrightarrow> b' = b)
   \<and> (replay_events freshId now scope cid cursor d = Inr (Replay_events evs) \<longrightarrow>
      (\<forall>e \<in> set evs. ev_visibility e = Public
        \<and> (\<exists>row \<in> set (conversation_events d). e_event_id row = ev_eventId e
             \<and> e_visibility row = Public \<and> e_conversation_id row = cid)))"
proof (intro conjI impI)
  assume "service_append n eid now scope event (d, b) = Inr (ev, d', b')
    \<and> ce_visibility event \<noteq> Public"
  then show "b' = b"
    by (auto simp: service_append_def append_event_def Let_def split: option.splits if_splits)
next
  assume "replay_events freshId now scope cid cursor d = Inr (Replay_events evs)"
  then obtain P where "evs = map toConversationEvent
      (order_asc e_sequence (filter P (public_events scope cid d)))"
    by (auto simp: replay_events_def Let_def split: option.splits)
  then show "\<forall>e \<in> set evs. ev_visibility e = Public
        \<and> (\<exists>row \<in> set (conversation_events d). e_event_id row = ev_eventId e
             \<and> e_visibility row = Public \<and> e_conversation_id row = cid)"
    by (auto simp: public_events_def toConversationEvent_def)
qed

subsection \<open>Concrete instances\<close>

definition sample_public :: "int \<Rightarrow> conversation_event" where
  "sample_public s = \<lparr>ev_eventId = show_int s, ev_sequence = s, ev_occurredAt = 0,
     ev_visibility = Public, ev_conversationId = ''c1'', ev_runId = Some ''r1'',
     ev_messageId = None, ev_data = RunCompleted\<rparr>"

definition sample_ops :: "broker_op list" where
  "sample_ops = [Subscribe ''c1'', Publish (sample_public 1), Publish (sample_public 2),
     Next 0, Next 0]"

lemma sample_public_sel [simp]:
  "ev_sequence (sample_public s) = s" "ev_conversationId (sample_public s) = ''c1''"
  by (simp_all add: sample_public_def)

lemma sample_reads:
  "reads_of (4, sample_ops, 0) = [Note_event (sample_public 1), Note_event (sample_public 2)]"
  "sent_to (4, sample_ops, 0) = [sample_public 1, sample_public 2]"
  "0 < length (br_subs (broker_after 4 sample_ops))"
  by (simp_all add: reads_of_def sent_to_def broker_after_def sample_ops_def new_broker_def
      subscribe_def publish_def push_each_def with_subscription_def push_subscription_def
      next_notification_def next_subscription_def Let_def)

lemma stream_no_gap_no_repeat_witness:
  "\<exists>k. stream_events (Replay_events [sample_public 1]) (Inl Unexpected) (reads_of (4, sample_ops, 0)) =
       [sample_public 1] @ filter (\<lambda>e. last_sequence [sample_public 1] < ev_sequence e)
         (take k (sent_to (4, sample_ops, 0)))"
proof -
  have "(1::nat) \<le> 4" by simp
  note stream = stream_no_gap_no_repeat [OF this sample_reads(3), of "[sample_public 1]" "Inl Unexpected"]
  then obtain k where "stream_events (Replay_events [sample_public 1]) (Inl Unexpected)
      (reads_of (4, sample_ops, 0)) =
       [sample_public 1] @ filter (\<lambda>e. last_sequence [sample_public 1] < ev_sequence e)
         (take k (sent_to (4, sample_ops, 0)))"
    by (auto simp only: sample_reads) auto
  then show ?thesis by blast
qed

lemma only_public_streamed_witness:
  "\<exists>ev d'. service_append 1 ''e1'' 5 sample_scope
     (sample_event RunCompleted\<lparr>ce_visibility := Internal\<rparr>) (sample_chat, new_broker 4)
   = Inr (ev, d', new_broker 4)"
proof -
  obtain ev d' b' where run: "service_append 1 ''e1'' 5 sample_scope
      (sample_event RunCompleted\<lparr>ce_visibility := Internal\<rparr>) (sample_chat, new_broker 4)
      = Inr (ev, d', b')"
    by (simp add: service_append_def append_event_def sample_defs sample_event_def in_scope_def
        int4_max_def constraint_defs update_where_def delete_where_def)
  have "b' = new_broker 4"
    using only_public_streamed [of 1 "''e1''" 5 sample_scope
        "sample_event RunCompleted\<lparr>ce_visibility := Internal\<rparr>" sample_chat "new_broker 4" ev d' b'] run
    by (simp add: sample_event_def)
  with run show ?thesis by blast
qed

text \<open>
  An event published after a later one (two appends of one conversation whose publications
  overlap) is not written by a live stream: its sequence is not above the last one.
\<close>

lemma late_event_dropped:
  "live_loop 0 sync [Note_event (sample_public 2), Note_event (sample_public 1)] = [sample_public 2]"
  by simp

end
