(* ===== verification/Worker.thy ===== *)
theory Worker
  imports RunService EventStream
begin

text \<open>
  \<open>run/worker.ts\<close>: claiming a run under a lease, building the connector's request,
  materialising its events into messages, handoffs and input requests, and settling the run.

  A worker is not alone: between two of its awaits other processes commit transactions and
  publish events, and a heartbeat or a cancellation may abort it. Each iteration of the event
  loop therefore carries the connector's event, whether the controller is aborted when it is
  looked at, and \<open>it_env k\<close>, what the others did before the worker's \<open>k\<close>-th await of the
  iteration. The connector is the list of its iterations and how its stream ends, so
  \<open>process_next\<close> is a total function. An exception keeps what was committed before it: a
  step that throws returns the state it threw in.
\<close>

record worker_config =
  wc_leaseMs :: int
  wc_maxAttempts :: int
  wc_retentionMaxEvents :: int

definition worker_config_ok :: "worker_config \<Rightarrow> bool" where
  "worker_config_ok cfg \<longleftrightarrow>
     1 \<le> wc_leaseMs cfg \<and> wc_leaseMs cfg \<le> max_safe_integer
     \<and> 1 \<le> wc_maxAttempts cfg \<and> wc_maxAttempts cfg \<le> max_safe_integer"

type_synonym server_state = "db \<times> broker"

subsection \<open>Claiming\<close>

text \<open>A \<open>NULL\<close> lease compares as unknown, which no row satisfies.\<close>

definition claimable :: "worker_config \<Rightarrow> js_date \<Rightarrow> run_row \<Rightarrow> bool" where
  "claimable cfg now r \<longleftrightarrow>
     r_available_at r \<le> to_pg now \<and> r_attempt r < wc_maxAttempts cfg
     \<and> (r_status r = Run_queued
        \<or> (r_status r = Run_running
           \<and> (case r_lease_expires_at r of None \<Rightarrow> False | Some t \<Rightarrow> t \<le> to_pg now)))"

definition claim_update :: "worker_config \<Rightarrow> js_date \<Rightarrow> run_row \<Rightarrow> run_row" where
  "claim_update cfg now r = r\<lparr>r_status := Run_running, r_attempt := r_attempt r + 1,
     r_claimed_at := Some (to_pg now),
     r_lease_expires_at := Some (to_pg (now + wc_leaseMs cfg)), r_updated_at := to_pg now\<rparr>"

definition claim :: "worker_config \<Rightarrow> js_date \<Rightarrow> db \<Rightarrow> (run_row \<times> db) option" where
  "claim cfg now d =
     (case order_asc r_available_at (order_asc r_created_at
             (filter (claimable cfg now) (agent_runs d))) of
        [] \<Rightarrow> None
      | candidate # _ \<Rightarrow>
          Some (claim_update cfg now candidate,
                update_run (r_run_id candidate) (claim_update cfg now) d))"

subsection \<open>The connector's request\<close>

definition resolve_input :: "input_row \<Rightarrow> failure + input_resolution" where
  "resolve_input i =
     (case (i_consent_recorded_at i, i_consent_status i) of
        (Some recordedAt, Some consent) \<Rightarrow>
          (if i_status i = Input_submitted \<and> truthy (i_value i) \<noteq> None \<and> consent = Consent_granted
           then Inr \<lparr>ir_requestId = i_request_id i, ir_purpose = i_purpose i,
                     ir_decision = Resolved_submitted (the (i_value i)) (to_js recordedAt)\<rparr>
           else if i_status i = Input_declined \<and> consent = Consent_declined
           then Inr \<lparr>ir_requestId = i_request_id i, ir_purpose = i_purpose i,
                     ir_decision = Resolved_declined (to_js recordedAt)\<rparr>
           else Inl Unexpected)
      | _ \<Rightarrow> Inl Unexpected)"

fun resolve_inputs :: "input_row list \<Rightarrow> failure + input_resolution list" where
  "resolve_inputs [] = Inr []"
| "resolve_inputs (i # is) =
     and_then (resolve_input i) (\<lambda>x. and_then (resolve_inputs is) (\<lambda>xs. Inr (x # xs)))"

definition run_scope :: "run_row \<Rightarrow> ident \<Rightarrow> scope" where
  "run_scope run prin = \<lparr>sc_tenantId = r_tenant_id run, sc_siteId = r_site_id run,
     sc_principalId = prin\<rparr>"

record run_load =
  rl_request :: connector_run_request
  rl_assistantParticipantId :: ident
  rl_scope :: scope

definition run_messages :: "run_row \<Rightarrow> db \<Rightarrow> message_row list" where
  "run_messages run d = filter (\<lambda>m. m_tenant_id m = r_tenant_id run \<and> m_site_id m = r_site_id run
     \<and> m_conversation_id m = r_conversation_id run) (messages d)"

definition history_rows :: "run_row \<Rightarrow> db \<Rightarrow> message_row list" where
  "history_rows run d = rev (take 1000 (order_desc m_sequence (run_messages run d)))"

definition resolved_rows :: "run_row \<Rightarrow> db \<Rightarrow> input_row list" where
  "resolved_rows run d = order_asc i_created_at (filter (\<lambda>i. i_tenant_id i = r_tenant_id run
     \<and> i_site_id i = r_site_id run \<and> i_conversation_id i = r_conversation_id run
     \<and> i_run_id i = r_run_id run \<and> (i_status i = Input_submitted \<or> i_status i = Input_declined))
     (structured_input_requests d))"

definition participant_of :: "bool \<Rightarrow> run_row \<Rightarrow> db \<Rightarrow> ident option" where
  "participant_of isUser run d =
     map_option cp_participant_id (find (\<lambda>p. cp_tenant_id p = r_tenant_id run
       \<and> cp_site_id p = r_site_id run \<and> cp_conversation_id p = r_conversation_id run
       \<and> participant_is_user (cp_ref p) = isUser) (conversation_participants d))"

definition loadContext :: "run_row \<Rightarrow> db \<Rightarrow> failure + run_load" where
  "loadContext run d =
     (case find (\<lambda>m. m_message_id m = r_trigger_message_id run) (run_messages run d) of
        None \<Rightarrow> Inl Unexpected
      | Some currentMessage \<Rightarrow>
     (case find (\<lambda>c. c_tenant_id c = r_tenant_id run \<and> c_site_id c = r_site_id run
               \<and> c_conversation_id c = r_conversation_id run) (conversations d) of
        None \<Rightarrow> Inl Unexpected
      | Some conversation \<Rightarrow>
     (if \<not> principal_exists d (r_tenant_id run) (r_site_id run) (c_principal_id conversation)
      then Inl Unexpected
      else
     (case (truthy (participant_of True run d), truthy (participant_of False run d)) of
        (Some userParticipantId, Some assistantParticipantId) \<Rightarrow>
          and_then (resolve_inputs (resolved_rows run d)) (\<lambda>resolvedInputs.
            let request = \<lparr>rq_runId = r_run_id run, rq_conversationId = r_conversation_id run,
                  rq_agentRef = c_agent_ref conversation, rq_triggerType = r_trigger_type run,
                  rq_currentMessage = mapMessage currentMessage,
                  rq_userParticipantId = userParticipantId,
                  rq_history = map mapMessage (history_rows run d),
                  rq_principalId = c_principal_id conversation,
                  rq_resolvedInputs = resolvedInputs, rq_trustedMetadata = []\<rparr>
            in if validateConnectorRunRequestContext request
                    \<lparr>rc_conversationId = r_conversation_id run, rc_runId = r_run_id run,
                     rc_agentRef = r_agent_ref run, rc_userParticipantId = userParticipantId,
                     rc_currentMessageId = r_trigger_message_id run\<rparr>
               then Inr \<lparr>rl_request = request,
                         rl_assistantParticipantId = assistantParticipantId,
                         rl_scope = run_scope run (c_principal_id conversation)\<rparr>
               else Inl Unexpected)
      | _ \<Rightarrow> Inl Unexpected))))"

subsection \<open>Materialising an event\<close>

definition in_run_conversation :: "run_row \<Rightarrow> conversation_row \<Rightarrow> bool" where
  "in_run_conversation run c \<longleftrightarrow> c_tenant_id c = r_tenant_id run \<and> c_site_id c = r_site_id run
     \<and> c_conversation_id c = r_conversation_id run"

definition assistant_row :: "run_row \<Rightarrow> ident \<Rightarrow> int \<Rightarrow> js_date \<Rightarrow> message_row" where
  "assistant_row run participantId sequence now =
     \<lparr>m_message_id = r_assistant_message_id run, m_tenant_id = r_tenant_id run,
      m_site_id = r_site_id run, m_conversation_id = r_conversation_id run,
      m_sequence = sequence, m_participant_id = participantId, m_role = Role_assistant,
      m_status = Msg_streaming, m_parts = [], m_created_at = to_pg now, m_completed_at = None\<rparr>"

definition start_assistant :: "run_row \<Rightarrow> ident \<Rightarrow> js_date \<Rightarrow> db \<Rightarrow> failure + db" where
  "start_assistant run participantId now d =
     (if message_exists d (r_assistant_message_id run) then Inr d
      else (case find (in_run_conversation run) (conversations d) of
          None \<Rightarrow> Inl Unexpected
        | Some c \<Rightarrow>
            if c_next_message_sequence c + 1 > int4_max then Inl Unexpected
            else insert_message (assistant_row run participantId (c_next_message_sequence c) now)
              (d\<lparr>conversations := update_where (in_run_conversation run)
                 (\<lambda>c. c\<lparr>c_next_message_sequence := c_next_message_sequence c + 1,
                        c_updated_at := to_pg now\<rparr>) (conversations d)\<rparr>)))"

text \<open>An \<open>UPDATE\<close> that must hit exactly one row.\<close>

definition complete_message :: "run_row \<Rightarrow> content_part list \<Rightarrow> js_date \<Rightarrow> db \<Rightarrow> failure + db" where
  "complete_message run parts now d =
     (let hit = (\<lambda>m. m_tenant_id m = r_tenant_id run \<and> m_site_id m = r_site_id run
            \<and> m_conversation_id m = r_conversation_id run
            \<and> m_message_id m = r_assistant_message_id run)
      in if count_where hit (messages d) \<noteq> 1 then Inl Unexpected
         else Inr (d\<lparr>messages := update_where hit
           (\<lambda>m. m\<lparr>m_status := Msg_completed, m_parts := parts, m_completed_at := Some (to_pg now)\<rparr>)
           (messages d)\<rparr>))"

definition request_handoff :: "run_row \<Rightarrow> ident \<Rightarrow> js_date \<Rightarrow> db \<Rightarrow> failure + db" where
  "request_handoff run handoffId now d =
     and_then (if exists_row (\<lambda>h. h_handoff_id h = handoffId) (handoffs d) then Inr d
       else insert_handoff \<lparr>h_handoff_id = handoffId, h_tenant_id = r_tenant_id run,
         h_site_id = r_site_id run, h_conversation_id = r_conversation_id run,
         h_run_id = r_run_id run, h_kind = Handoff_human, h_status = Handoff_requested,
         h_created_at = to_pg now, h_updated_at = to_pg now\<rparr> d) (\<lambda>d'.
     (case find (\<lambda>h. h_handoff_id h = handoffId) (handoffs d') of
        None \<Rightarrow> Inl Unexpected
      | Some h \<Rightarrow> if h_run_id h \<noteq> r_run_id run then Inl Unexpected else Inr d'))"

definition request_contact :: "run_row \<Rightarrow> contact_request \<Rightarrow> js_date \<Rightarrow> db \<Rightarrow> failure + db" where
  "request_contact run contact now d =
     (case find (\<lambda>h. h_run_id h = r_run_id run) (handoffs d) of
        None \<Rightarrow> Inl Unexpected
      | Some handoff \<Rightarrow>
     and_then (if exists_row (\<lambda>i. i_request_id i = cr_requestId contact)
           (structured_input_requests d) then Inr d
       else insert_input \<lparr>i_request_id = cr_requestId contact, i_tenant_id = r_tenant_id run,
         i_site_id = r_site_id run, i_conversation_id = r_conversation_id run,
         i_run_id = r_run_id run, i_purpose = Purpose_handoff_email_delivery,
         i_prompt = cr_prompt contact, i_required = cr_required contact,
         i_status = Input_pending, i_value = None, i_consent_status = None,
         i_consent_recorded_at = None, i_created_at = to_pg now, i_updated_at = to_pg now\<rparr> d) (\<lambda>d'.
     (case find (\<lambda>i. i_request_id i = cr_requestId contact) (structured_input_requests d') of
        None \<Rightarrow> Inl Unexpected
      | Some i \<Rightarrow> if i_run_id i \<noteq> r_run_id run then Inl Unexpected
          else Inr (d'\<lparr>handoffs := update_where (\<lambda>h. h_handoff_id h = h_handoff_id handoff)
            (\<lambda>h. h\<lparr>h_status := Handoff_awaiting_contact, h_updated_at := to_pg now\<rparr>)
            (handoffs d')\<rparr>))))"

definition complete_handoff :: "run_row \<Rightarrow> ident \<Rightarrow> js_date \<Rightarrow> db \<Rightarrow> failure + db" where
  "complete_handoff run handoffId now d =
     (let hit = (\<lambda>h. h_tenant_id h = r_tenant_id run \<and> h_site_id h = r_site_id run
            \<and> h_conversation_id h = r_conversation_id run \<and> h_run_id h = r_run_id run
            \<and> h_handoff_id h = handoffId)
      in if count_where hit (handoffs d) \<noteq> 1 then Inl Unexpected
         else Inr (d\<lparr>handoffs := update_where hit
           (\<lambda>h. h\<lparr>h_status := Handoff_completed, h_updated_at := to_pg now\<rparr>) (handoffs d)\<rparr>))"

fun materialize :: "run_row \<Rightarrow> ident \<Rightarrow> js_date \<Rightarrow> event_data \<Rightarrow> db \<Rightarrow> failure + db" where
  "materialize run pid now MessageStarted d = start_assistant run pid now d"
| "materialize run pid now (MessageCompleted parts) d = complete_message run parts now d"
| "materialize run pid now (HandoffRequested handoffId) d = request_handoff run handoffId now d"
| "materialize run pid now (ContactRequested contact) d = request_contact run contact now d"
| "materialize run pid now (HandoffCompleted handoffId) d = complete_handoff run handoffId now d"
| "materialize run pid now _ d = Inr d"

subsection \<open>Settling a run\<close>

definition complete_run :: "ident \<Rightarrow> js_date \<Rightarrow> db \<Rightarrow> db" where
  "complete_run runId now d = update_run runId (\<lambda>r. r\<lparr>r_status := Run_completed,
     r_completed_at := Some (to_pg now), r_lease_expires_at := None, r_updated_at := to_pg now\<rparr>) d"

definition waitForInput :: "ident \<Rightarrow> js_date \<Rightarrow> db \<Rightarrow> failure + db" where
  "waitForInput runId now d =
     (let hit = (\<lambda>r. r_run_id r = runId \<and> r_status r = Run_running)
      in if count_where hit (agent_runs d) \<noteq> 1 then Inl Unexpected
         else Inr (d\<lparr>agent_runs := update_where hit (\<lambda>r. r\<lparr>r_status := Run_waiting_for_input,
           r_claimed_at := None, r_lease_expires_at := None, r_updated_at := to_pg now\<rparr>)
           (agent_runs d)\<rparr>))"

definition isCancellationRequested :: "ident \<Rightarrow> db \<Rightarrow> failure + bool" where
  "isCancellationRequested runId d =
     (case find (\<lambda>r. r_run_id r = runId) (agent_runs d) of
        None \<Rightarrow> Inl Unexpected
      | Some r \<Rightarrow> Inr (r_status r = Run_cancel_requested \<or> r_status r = Run_cancelled))"

definition renewLease :: "worker_config \<Rightarrow> js_date \<Rightarrow> run_row \<Rightarrow> db \<Rightarrow> bool \<times> db" where
  "renewLease cfg now run d =
     (let hit = (\<lambda>r. r_run_id r = r_run_id run \<and> r_status r = Run_running
            \<and> r_attempt r = r_attempt run)
      in (count_where hit (agent_runs d) = 1,
          d\<lparr>agent_runs := update_where hit (\<lambda>r. r\<lparr>r_lease_expires_at :=
              Some (to_pg (now + wc_leaseMs cfg)), r_updated_at := to_pg now\<rparr>) (agent_runs d)\<rparr>))"

definition cancel_run :: "run_row \<Rightarrow> js_date \<Rightarrow> db \<Rightarrow> db" where
  "cancel_run run now d =
     (update_run (r_run_id run) (\<lambda>r. r\<lparr>r_status := Run_cancelled,
        r_completed_at := Some (to_pg now), r_lease_expires_at := None,
        r_updated_at := to_pg now\<rparr>) d)
     \<lparr>messages := update_where (\<lambda>m. m_message_id m = r_assistant_message_id run
          \<and> (m_status m = Msg_pending \<or> m_status m = Msg_streaming))
        (\<lambda>m. m\<lparr>m_status := Msg_cancelled, m_completed_at := Some (to_pg now)\<rparr>) (messages d)\<rparr>"

definition fail_run :: "ident \<Rightarrow> string \<Rightarrow> js_date \<Rightarrow> db \<Rightarrow> db" where
  "fail_run runId code now d =
     (update_run runId (\<lambda>r. r\<lparr>r_status := Run_failed, r_error_code := Some code,
        r_completed_at := Some (to_pg now), r_lease_expires_at := None,
        r_updated_at := to_pg now\<rparr>) d)
     \<lparr>handoffs := update_where (\<lambda>h. h_run_id h = runId
          \<and> h_status h \<noteq> Handoff_completed \<and> h_status h \<noteq> Handoff_failed)
        (\<lambda>h. h\<lparr>h_status := Handoff_failed, h_updated_at := to_pg now\<rparr>) (handoffs d)\<rparr>"

subsection \<open>The event loop\<close>

record iteration =
  it_event :: "connector_event option"
  it_eventId :: ident
  it_occurredAt :: js_date
  it_aborted :: bool
  it_env :: "nat \<Rightarrow> server_state \<Rightarrow> server_state"

record stream_end =
  se_throws :: bool
  se_aborted :: bool
  se_env :: "server_state \<Rightarrow> server_state"

datatype loop_result = Settled server_state | Continue server_state | Thrown server_state

definition on_db :: "(db \<Rightarrow> db) \<Rightarrow> server_state \<Rightarrow> server_state" where
  "on_db f s = (f (fst s), snd s)"

definition after_append :: "run_row \<Rightarrow> js_date \<Rightarrow> event_data \<Rightarrow> server_state \<Rightarrow> loop_result" where
  "after_append run now data s =
     (case data of
        ContactRequested _ \<Rightarrow>
          (case waitForInput (r_run_id run) now (fst s) of
             Inl _ \<Rightarrow> Thrown s
           | Inr d \<Rightarrow> Settled (d, snd s))
      | RunCompleted \<Rightarrow> Settled (on_db (complete_run (r_run_id run) now) s)
      | RunFailed code \<Rightarrow> Settled (on_db (fail_run (r_run_id run) code now) s)
      | _ \<Rightarrow> Continue s)"

definition worker_iteration ::
  "(string \<Rightarrow> bool) \<Rightarrow> worker_config \<Rightarrow> run_row \<Rightarrow> run_load \<Rightarrow> js_date \<Rightarrow> iteration
    \<Rightarrow> server_state \<Rightarrow> loop_result" where
  "worker_iteration uri cfg run load now it s =
     (let s0 = it_env it 0 s in
      case isCancellationRequested (r_run_id run) (fst s0) of
        Inl _ \<Rightarrow> Thrown s0
      | Inr cancellationRequested \<Rightarrow>
          if it_aborted it \<or> cancellationRequested then Settled (on_db (cancel_run run now) s0)
          else (case it_event it of
              None \<Rightarrow> Settled (on_db (fail_run (r_run_id run) ''INVALID_CONNECTOR_EVENT'' now) s0)
            | Some event \<Rightarrow>
                if \<not> connector_event_ok uri event
                   \<or> \<not> validateConnectorEventContext event
                        \<lparr>ec_conversationId = r_conversation_id run, ec_runId = r_run_id run,
                         ec_assistantMessageId = r_assistant_message_id run\<rparr>
                then Settled (on_db (fail_run (r_run_id run) ''INVALID_CONNECTOR_EVENT'' now) s0)
                else
                  (let s1 = it_env it 1 s0 in
                   case materialize run (rl_assistantParticipantId load) now (ce_data event) (fst s1) of
                     Inl _ \<Rightarrow> Thrown s1
                   | Inr d1 \<Rightarrow>
                       (let s2 = it_env it 2 (d1, snd s1) in
                        case service_append (wc_retentionMaxEvents cfg) (it_eventId it)
                               (it_occurredAt it) (rl_scope load) event s2 of
                          Inl _ \<Rightarrow> Thrown s2
                        | Inr (_, s3) \<Rightarrow> after_append run now (ce_data event) (it_env it 3 s3)))))"

text \<open>The \<open>catch\<close> block; a failing status read escapes it.\<close>

definition on_exception ::
  "run_row \<Rightarrow> js_date \<Rightarrow> stream_end \<Rightarrow> server_state \<Rightarrow> (failure + bool) \<times> server_state" where
  "on_exception run now fin s =
     (if se_aborted fin then (Inr True, on_db (cancel_run run now) s)
      else (case isCancellationRequested (r_run_id run) (fst s) of
          Inl e \<Rightarrow> (Inl e, s)
        | Inr True \<Rightarrow> (Inr True, on_db (cancel_run run now) s)
        | Inr False \<Rightarrow>
            (Inr True, on_db (fail_run (r_run_id run) ''CONNECTOR_EXECUTION_FAILED'' now) s)))"

fun worker_loop ::
  "(string \<Rightarrow> bool) \<Rightarrow> worker_config \<Rightarrow> run_row \<Rightarrow> run_load \<Rightarrow> js_date \<Rightarrow> stream_end
    \<Rightarrow> iteration list \<Rightarrow> server_state \<Rightarrow> (failure + bool) \<times> server_state" where
  "worker_loop uri cfg run load now fin [] s =
     (let s' = se_env fin s in
      if se_throws fin then on_exception run now fin s'
      else if se_aborted fin then (Inr True, on_db (cancel_run run now) s')
      else (case isCancellationRequested (r_run_id run) (fst s') of
          Inl _ \<Rightarrow> on_exception run now fin s'
        | Inr True \<Rightarrow> (Inr True, on_db (cancel_run run now) s')
        | Inr False \<Rightarrow> (Inr True, on_db (fail_run (r_run_id run) ''CONNECTOR_INCOMPLETE'' now) s')))"
| "worker_loop uri cfg run load now fin (it # its) s =
     (case worker_iteration uri cfg run load now it s of
        Settled s' \<Rightarrow> (Inr True, s')
      | Continue s' \<Rightarrow> worker_loop uri cfg run load now fin its s'
      | Thrown s' \<Rightarrow> on_exception run now fin s')"

text \<open>
  \<open>connector\<close> is what \<open>resolveConnector\<close> finds for an agent and what its stream yields for a
  request and the identifier of the assistant's message; \<open>load_env\<close> is what others did between the claim and the reads of the context.
\<close>

type_synonym connector = "connector_run_request \<Rightarrow> ident \<Rightarrow> iteration list \<times> stream_end"

definition processNext ::
  "(string \<Rightarrow> bool) \<Rightarrow> worker_config \<Rightarrow> (ident \<Rightarrow> connector option) \<Rightarrow> stream_end
    \<Rightarrow> (server_state \<Rightarrow> server_state) \<Rightarrow> js_date \<Rightarrow> server_state \<Rightarrow> (failure + bool) \<times> server_state" where
  "processNext uri cfg resolveConnector load_end load_env now s =
     (case claim cfg now (fst s) of
        None \<Rightarrow> (Inr False, s)
      | Some (run, d) \<Rightarrow>
          (case resolveConnector (r_agent_ref run) of
             None \<Rightarrow> (Inr True, (fail_run (r_run_id run) ''CONNECTOR_NOT_FOUND'' now d, snd s))
           | Some connector \<Rightarrow>
               (let s' = load_env (d, snd s) in
                case loadContext run (fst s') of
                  Inl _ \<Rightarrow> on_exception run now load_end s'
                | Inr load \<Rightarrow>
                    (let (its, fin) = connector (rl_request load) (r_assistant_message_id run)
                     in worker_loop uri cfg run load now fin its s'))))"

end
