(* ===== verification/StructuredInput.thy ===== *)
theory StructuredInput
  imports Worker
begin

text \<open>
  \<open>structured-input/service.ts\<close>: the user's answer to a contact request. Under an idempotency
  key, one transaction records the answer and the consent, puts the run that waits for it back
  in the queue and, when a value was given, sets its handoff to delivering.
\<close>

datatype input_answer = Answer_value string | Answer_declined

fun answer_value :: "input_answer \<Rightarrow> string option" where
  "answer_value (Answer_value v) = Some v"
| "answer_value Answer_declined = None"

definition input_operation :: "ident \<Rightarrow> ident \<Rightarrow> string" where
  "input_operation conversationId requestId =
     ''structured-input:submit:'' @ conversationId @ '':'' @ requestId"

definition answer_text :: "input_answer \<Rightarrow> string" where
  "answer_text answer = stringify (JArray (case answer of
       Answer_value v \<Rightarrow> [JString ''submitted'', JString v]
     | Answer_declined \<Rightarrow> [JString ''declined'']))"

definition find_input :: "'a scope_scheme \<Rightarrow> ident \<Rightarrow> ident \<Rightarrow> db \<Rightarrow> input_row option" where
  "find_input scope conversationId requestId d =
     find (\<lambda>i. i_tenant_id i = sc_tenantId scope \<and> i_site_id i = sc_siteId scope
         \<and> i_conversation_id i = conversationId \<and> i_request_id i = requestId)
       (structured_input_requests d)"

definition answered_row :: "input_answer \<Rightarrow> js_date \<Rightarrow> input_row \<Rightarrow> input_row" where
  "answered_row answer now i =
     i\<lparr>i_status := (if answer_value answer \<noteq> None then Input_submitted else Input_declined),
       i_value := answer_value answer,
       i_consent_status := Some (if answer_value answer \<noteq> None then Consent_granted
                                 else Consent_declined),
       i_consent_recorded_at := Some (to_pg now), i_updated_at := to_pg now\<rparr>"

definition resumed_row :: "js_date \<Rightarrow> run_row \<Rightarrow> run_row" where
  "resumed_row now r =
     r\<lparr>r_status := Run_queued, r_available_at := to_pg now, r_claimed_at := None,
       r_lease_expires_at := None, r_error_code := None, r_completed_at := None,
       r_updated_at := to_pg now\<rparr>"

definition waiting :: "ident \<Rightarrow> run_row \<Rightarrow> bool" where
  "waiting runId r \<longleftrightarrow> r_run_id r = runId \<and> r_status r = Run_waiting_for_input"

definition submit_input_transaction ::
  "(string \<Rightarrow> string) \<Rightarrow> pg_time \<Rightarrow> js_date \<Rightarrow> 'a scope_scheme \<Rightarrow> ident \<Rightarrow> ident \<Rightarrow> input_answer
    \<Rightarrow> string \<Rightarrow> db \<Rightarrow> failure + (unit \<times> db)" where
  "submit_input_transaction sha256 clock now scope conversationId requestId answer idempotencyKey d =
     (let operation = input_operation conversationId requestId;
          requestHash = sha256 (answer_text answer);
          already = Inl (ApiError INPUT_ALREADY_RESOLVED 409)
      in case findIdempotency scope operation idempotencyKey d of
        Some previous \<Rightarrow>
          (if k_request_hash previous \<noteq> requestHash
           then Inl (ApiError IDEMPOTENCY_CONFLICT 409) else Inr ((), d))
      | None \<Rightarrow>
     (case find_conversation scope conversationId d of
        None \<Rightarrow> Inl (ApiError CONVERSATION_NOT_FOUND 404)
      | Some _ \<Rightarrow>
     (case find_input scope conversationId requestId d of
        None \<Rightarrow> Inl (ApiError INPUT_NOT_FOUND 404)
      | Some input \<Rightarrow>
          if i_status input \<noteq> Input_pending then already
          else if \<not> opt_ok (fits 320) (answer_value answer) then Inl Unexpected
          else if count_where (\<lambda>i. i_request_id i = i_request_id input) (structured_input_requests d) \<noteq> 1
          then already
          else if count_where (waiting (i_run_id input)) (agent_runs d) \<noteq> 1 then already
          else and_then (insert_command_key
              (key_row scope operation idempotencyKey requestHash (i_request_id input) clock)
              (d\<lparr>structured_input_requests :=
                   update_where (\<lambda>i. i_request_id i = i_request_id input) (answered_row answer now)
                     (structured_input_requests d),
                 agent_runs := update_where (waiting (i_run_id input)) (resumed_row now) (agent_runs d),
                 handoffs := (if answer_value answer \<noteq> None
                   then update_where (\<lambda>h. h_run_id h = i_run_id input)
                     (\<lambda>h. h\<lparr>h_status := Handoff_delivering, h_updated_at := to_pg now\<rparr>) (handoffs d)
                   else handoffs d)\<rparr>)) (\<lambda>d'. Inr ((), d')))))"

record structured_input =
  in_requestId :: ident
  in_conversationId :: ident
  in_runId :: ident
  in_prompt :: string
  in_required :: bool
  in_status :: input_status
  in_createdAt :: js_date
  in_updatedAt :: js_date

definition mapInput :: "input_row \<Rightarrow> failure + structured_input" where
  "mapInput row =
     (if i_purpose row \<noteq> Purpose_handoff_email_delivery then Inl Unexpected
      else Inr \<lparr>in_requestId = i_request_id row, in_conversationId = i_conversation_id row,
        in_runId = i_run_id row, in_prompt = i_prompt row, in_required = i_required row,
        in_status = i_status row, in_createdAt = to_js (i_created_at row),
        in_updatedAt = to_js (i_updated_at row)\<rparr>)"

definition get_input :: "'a scope_scheme \<Rightarrow> ident \<Rightarrow> ident \<Rightarrow> db \<Rightarrow> failure + structured_input" where
  "get_input scope conversationId requestId d =
     (case find (\<lambda>i. i_tenant_id i = sc_tenantId scope \<and> i_site_id i = sc_siteId scope
             \<and> i_conversation_id i = conversationId \<and> i_request_id i = requestId
             \<and> exists_row (\<lambda>c. c_tenant_id c = i_tenant_id i \<and> c_site_id c = i_site_id i
                 \<and> c_conversation_id c = i_conversation_id i
                 \<and> c_principal_id c = sc_principalId scope) (conversations d))
           (structured_input_requests d) of
        None \<Rightarrow> Inl (ApiError INPUT_NOT_FOUND 404)
      | Some row \<Rightarrow> mapInput row)"

definition submit_input ::
  "(string \<Rightarrow> string) \<Rightarrow> pg_time \<Rightarrow> js_date \<Rightarrow> 'a scope_scheme \<Rightarrow> ident \<Rightarrow> ident \<Rightarrow> input_answer
    \<Rightarrow> string \<Rightarrow> db \<Rightarrow> (failure + structured_input) \<times> db" where
  "submit_input sha256 clock now scope conversationId requestId answer idempotencyKey d =
     (case submit_input_transaction sha256 clock now scope conversationId requestId answer
             idempotencyKey d of
        Inl e \<Rightarrow> (Inl e, d)
      | Inr (_, d') \<Rightarrow> (get_input scope conversationId requestId d', d'))"

subsection \<open>The cases of a submission\<close>

lemma answered_row_sel [simp]:
  "i_request_id (answered_row a now i) = i_request_id i"
  "i_tenant_id (answered_row a now i) = i_tenant_id i"
  "i_site_id (answered_row a now i) = i_site_id i"
  "i_conversation_id (answered_row a now i) = i_conversation_id i"
  "i_run_id (answered_row a now i) = i_run_id i"
  "i_purpose (answered_row a now i) = i_purpose i"
  "i_created_at (answered_row a now i) = i_created_at i"
  "i_status (answered_row a now i) \<noteq> Input_pending"
  by (simp_all add: answered_row_def)

text \<open>The answered row satisfies the table's check constraint, so the update is never refused.\<close>

lemma answered_row_check: "input_resolution_check (answered_row a now i)"
  by (cases a) (simp_all add: input_resolution_check_def answered_row_def)

lemma resumed_row_sel [simp]:
  "r_run_id (resumed_row now r) = r_run_id r" "r_attempt (resumed_row now r) = r_attempt r"
  "r_status (resumed_row now r) = Run_queued" "r_available_at (resumed_row now r) = to_pg now"
  "r_tenant_id (resumed_row now r) = r_tenant_id r" "r_site_id (resumed_row now r) = r_site_id r"
  "r_conversation_id (resumed_row now r) = r_conversation_id r"
  by (simp_all add: resumed_row_def)

lemma submit_input_cases:
  assumes "submit_input_transaction sha256 clock now scope cid rid answer key d = Inr (u, d')"
  obtains
    (replayed) row where "findIdempotency scope (input_operation cid rid) key d = Some row"
      and "k_request_hash row = sha256 (answer_text answer)" and "d' = d"
  | (fresh) i where "findIdempotency scope (input_operation cid rid) key d = None"
      and "find_input scope cid rid d = Some i" and "i_status i = Input_pending"
      and "count_where (\<lambda>x. i_request_id x = rid) (structured_input_requests d) = 1"
      and "count_where (waiting (i_run_id i)) (agent_runs d) = 1"
      and "d' = d\<lparr>structured_input_requests := update_where (\<lambda>x. i_request_id x = rid)
             (answered_row answer now) (structured_input_requests d),
           agent_runs := update_where (waiting (i_run_id i)) (resumed_row now) (agent_runs d),
           handoffs := (if answer_value answer \<noteq> None
             then update_where (\<lambda>h. h_run_id h = i_run_id i)
               (\<lambda>h. h\<lparr>h_status := Handoff_delivering, h_updated_at := to_pg now\<rparr>) (handoffs d)
             else handoffs d),
           command_idempotency := command_idempotency d
             @ [key_row scope (input_operation cid rid) key (sha256 (answer_text answer)) rid clock]\<rparr>"
proof -
  have id: "i_request_id i = rid" if "find_input scope cid rid d = Some i" for i
    using that by (auto simp: find_input_def dest: find_SomeD)
  show thesis
    using assms id replayed fresh
    by (auto simp: submit_input_transaction_def Let_def insert_command_key_def
        split: option.splits if_splits)
qed

lemma submit_input_keys:
  assumes "submit_input_transaction sha256 clock now scope cid rid answer key d = Inr (u, d')"
  shows "(\<exists>row. findIdempotency scope (input_operation cid rid) key d = Some row
             \<and> k_request_hash row = sha256 (answer_text answer) \<and> d' = d)
         \<or> (findIdempotency scope (input_operation cid rid) key d = None
             \<and> command_idempotency d' = command_idempotency d
                 @ [key_row scope (input_operation cid rid) key (sha256 (answer_text answer)) rid clock])"
  using assms by (rule submit_input_cases) auto

type_synonym 'a input_command =
  "(pg_time \<times> js_date) \<times> 'a scope_scheme \<times> (ident \<times> ident) \<times> input_answer \<times> string"

definition input_exec ::
  "(string \<Rightarrow> string) \<Rightarrow> 'a input_command \<Rightarrow> db \<Rightarrow> failure + (unit \<times> db)" where
  "input_exec sha256 = (\<lambda>((clock, now), scope, (cid, rid), answer, key).
     submit_input_transaction sha256 clock now scope cid rid answer key)"

definition input_lookup :: "'a input_command \<Rightarrow> db \<Rightarrow> command_key_row option" where
  "input_lookup = (\<lambda>(_, scope, (cid, rid), _, key). findIdempotency scope (input_operation cid rid) key)"

definition input_hash :: "(string \<Rightarrow> string) \<Rightarrow> 'a input_command \<Rightarrow> string" where
  "input_hash sha256 = (\<lambda>(_, _, _, answer, _). sha256 (answer_text answer))"

interpretation input: hash_checked_command "input_exec sha256" input_lookup
  "input_hash sha256" "\<lambda>_ _. Inr ()" "\<lambda>_. True" "ApiError IDEMPOTENCY_CONFLICT 409"
  for sha256
proof unfold_locales
  fix a :: "'a input_command" and b :: "'a input_command" and d d' r row
  obtain clock now scope cid rid answer key where a: "a = ((clock, now), scope, (cid, rid), answer, key)"
    by (metis prod.exhaust)
  {
    assume "input_lookup a d = None" and "input_exec sha256 a d = Inr (r, d')"
    then have "findIdempotency scope (input_operation cid rid) key d' = Some
        (key_row scope (input_operation cid rid) key (sha256 (answer_text answer)) rid clock)"
      using submit_input_keys [of sha256 clock now scope cid rid answer key d r d']
      by (auto simp: a input_exec_def input_lookup_def intro: findIdempotency_recorded)
    then show "\<exists>row. input_lookup a d' = Some row \<and> k_request_hash row = input_hash sha256 a
        \<and> Inr () = Inr r"
      by (simp add: a input_lookup_def input_hash_def)
  next
    assume "input_lookup a d = Some row" and "k_request_hash row = input_hash sha256 a"
    then show "input_exec sha256 a d = and_then (Inr ()) (\<lambda>r. Inr (r, d))"
      by (simp add: a input_exec_def input_lookup_def input_hash_def submit_input_transaction_def Let_def)
  next
    obtain clock' now' scope' cid' rid' answer' key'
      where b: "b = ((clock', now'), scope', (cid', rid'), answer', key')" by (metis prod.exhaust)
    assume "input_exec sha256 b d = Inr (r, d')" and "input_lookup a d = Some row"
    then show "input_lookup a d' = Some row"
      using submit_input_keys [of sha256 clock' now' scope' cid' rid' answer' key' d r d']
      by (auto simp: a b input_exec_def input_lookup_def intro: findIdempotency_kept)
  next
    assume "input_lookup a d = Some row" and "k_request_hash row \<noteq> input_hash sha256 a"
    then show "input_exec sha256 a d = Inl (ApiError IDEMPOTENCY_CONFLICT 409)"
      by (simp add: a input_exec_def input_lookup_def input_hash_def submit_input_transaction_def Let_def)
  }
qed

subsection \<open>An answer is given once\<close>

definition resolved_in :: "'a scope_scheme \<Rightarrow> ident \<Rightarrow> ident \<Rightarrow> db \<Rightarrow> bool" where
  "resolved_in scope cid rid d \<longleftrightarrow>
     (case find_input scope cid rid d of None \<Rightarrow> False | Some i \<Rightarrow> i_status i \<noteq> Input_pending)"

lemma find_inputD:
  "find_input scope cid rid d = Some i \<Longrightarrow> i \<in> set (structured_input_requests d) \<and> i_request_id i = rid"
  by (auto simp: find_input_def dest: find_SomeD)

lemma find_input_update:
  "structured_input_requests d' = update_where p (answered_row answer now) (structured_input_requests d) \<Longrightarrow>
   find_input scope cid rid d'
     = map_option (\<lambda>i. if p i then answered_row answer now i else i) (find_input scope cid rid d)"
  by (simp add: find_input_def find_update_where)

lemma submit_input_resolves:
  assumes "submit_input_transaction sha256 clock now scope cid rid answer key d = Inr (u, d')"
    and "findIdempotency scope (input_operation cid rid) key d = None"
  shows "resolved_in scope cid rid d'"
  using assms
  by (cases rule: submit_input_cases)
    (auto simp: resolved_in_def find_input_update dest: find_inputD)

lemma submit_input_keeps_resolved:
  assumes "submit_input_transaction sha256 clock now scope' cid' rid' answer key d = Inr (u, d')"
    and "resolved_in scope cid rid d"
  shows "resolved_in scope cid rid d'"
  using assms
  by (cases rule: submit_input_cases) (auto simp: resolved_in_def find_input_update split: option.splits)

lemma submissions_keep_resolved:
  "resolved_in scope cid rid d \<Longrightarrow> resolved_in scope cid rid (exec_all (input_exec sha256) others d)"
proof (induction others arbitrary: d)
  case (Cons b others)
  obtain clock now scope' cid' rid' answer key
    where b: "b = ((clock, now), scope', (cid', rid'), answer, key)" by (metis prod.exhaust)
  have "resolved_in scope cid rid (commit d (input_exec sha256 b d))"
    using Cons.prems submit_input_keeps_resolved
    by (cases "input_exec sha256 b d") (auto simp: b input_exec_def)
  then show ?case by (simp add: Cons.IH)
qed simp


subsection \<open>An answer resumes the run\<close>

lemma count_one_unique:
  assumes "count_where p xs = 1" and "x \<in> set xs" and "p x" and "y \<in> set xs" and "p y"
  shows "x = y"
proof -
  obtain z where "filter p xs = [z]"
    using assms(1) by (auto simp: count_where_def length_Suc_conv)
  moreover have "x \<in> set (filter p xs)" and "y \<in> set (filter p xs)" using assms by auto
  ultimately show ?thesis by simp
qed

lemma count_one_member: "count_where p xs = 1 \<Longrightarrow> \<exists>x \<in> set xs. p x"
  by (metis One_nat_def count_where_def filter_empty_conv length_0_conv nat.distinct(1))


subsection \<open>Concrete instances\<close>

definition sample_input :: "input_status \<Rightarrow> input_row" where
  "sample_input st = \<lparr>i_request_id = ''q1'', i_tenant_id = ''t1'', i_site_id = ''s1'',
     i_conversation_id = ''c1'', i_run_id = ''r1'', i_purpose = Purpose_handoff_email_delivery,
     i_prompt = ''Your email?'', i_required = True, i_status = st, i_value = None,
     i_consent_status = None, i_consent_recorded_at = None, i_created_at = 2000, i_updated_at = 2000\<rparr>"

definition sample_waiting_db :: db where
  "sample_waiting_db = sample_chat\<lparr>
     agent_runs := [\<lparr>r_run_id = ''r1'', r_tenant_id = ''t1'', r_site_id = ''s1'',
       r_conversation_id = ''c1'', r_trigger_message_id = ''m1'', r_trigger_type = Trigger_message,
       r_assistant_message_id = ''am1'', r_agent_ref = ''agent'', r_status = Run_waiting_for_input,
       r_attempt = 1, r_available_at = 1000, r_claimed_at = None, r_lease_expires_at = None,
       r_cancel_requested_at = None, r_error_code = None, r_created_at = 1000, r_updated_at = 1000,
       r_completed_at = None\<rparr>],
     structured_input_requests := [sample_input Input_pending]\<rparr>"

lemmas sample_waiting_defs = sample_waiting_db_def sample_input_def sample_defs

lemma sample_answer:
  "\<exists>d'. submit_input_transaction (\<lambda>s. []) 5000 5 sample_scope ''c1'' ''q1'' (Answer_value ''a@b.c'') ''k''
     sample_waiting_db = Inr ((), d') \<and> find_conversation sample_scope ''c1'' d' \<noteq> None
     \<and> findIdempotency sample_scope (input_operation ''c1'' ''q1'') ''k2'' d' = None"
  by (simp add: submit_input_transaction_def findIdempotency_def find_conversation_def find_input_def
      sample_waiting_defs constraint_defs input_operation_def key_row_def count_where_def waiting_def)

lemma sample_answer_fresh:
  "findIdempotency sample_scope (input_operation ''c1'' ''q1'') ''k'' sample_waiting_db = None"
  by (simp add: findIdempotency_def sample_waiting_defs)



end
