(* ===== verification/Text.thy ===== *)
theory Text
  imports Encoding
begin

text \<open>
  The string methods of ECMAScript that several components use: \<open>trim\<close>, \<open>startsWith\<close>,
  \<open>toLowerCase\<close> and \<open>toUpperCase\<close>, on strings of code units below 256.
\<close>

definition starts_with :: "string \<Rightarrow> string \<Rightarrow> bool" where
  "starts_with prefix s \<longleftrightarrow> take (length prefix) s = prefix"

text \<open>The white space and line ends of ECMAScript among the model's characters.\<close>

definition js_space :: "char \<Rightarrow> bool" where
  "js_space c \<longleftrightarrow> code_unit c \<in> {9, 10, 11, 12, 13, 32, 160}"

definition trim :: "string \<Rightarrow> string" where
  "trim s = rev (dropWhile js_space (rev (dropWhile js_space s)))"

text \<open>
  \<open>toUpperCase\<close> of a character: the sharp s becomes two, and the two characters whose upper
  case is outside the model's strings stand for themselves.
\<close>

definition upper_char :: "char \<Rightarrow> string" where
  "upper_char c =
     (let n = code_unit c in
      if (97 \<le> n \<and> n \<le> 122) \<or> (224 \<le> n \<and> n \<le> 254 \<and> n \<noteq> 247) then [char_of (n - 32)]
      else if n = 223 then ''SS'' else [c])"

definition lower_char :: "char \<Rightarrow> char" where
  "lower_char c =
     (let n = code_unit c in
      if (65 \<le> n \<and> n \<le> 90) \<or> (192 \<le> n \<and> n \<le> 222 \<and> n \<noteq> 215) then char_of (n + 32) else c)"

lemma trim_spaces: "list_all js_space s \<Longrightarrow> trim s = []"
  by (auto simp: trim_def list_all_iff dropWhile_eq_Nil_conv dest: set_dropWhileD)

lemma trim_ends:
  assumes "trim s \<noteq> []"
  shows "\<not> js_space (hd (trim s))" and "\<not> js_space (last (trim s))"
proof -
  let ?t = "dropWhile js_space s"
  have ne: "dropWhile js_space (rev ?t) \<noteq> []" using assms unfolding trim_def by simp
  have "\<not> js_space (hd (dropWhile js_space (rev ?t)))" using ne by (rule hd_dropWhile)
  then show "\<not> js_space (last (trim s))" using ne by (simp add: trim_def last_rev)
  have "?t \<noteq> []" using ne by (metis dropWhile.simps(1) rev.simps(1))
  then have "\<not> js_space (hd ?t)" by (rule hd_dropWhile)
  moreover have "hd (trim s) = hd ?t"
  proof -
    have "?t = trim s @ rev (takeWhile js_space (rev ?t))"
      by (simp only: trim_def rev_append [symmetric] takeWhile_dropWhile_id rev_rev_ident)
    then show ?thesis using assms by (metis hd_append2)
  qed
  ultimately show "\<not> js_space (hd (trim s))" by simp
qed

lemma trim_unspaced:
  assumes "s \<noteq> [] \<Longrightarrow> \<not> js_space (hd s)" and "s \<noteq> [] \<Longrightarrow> \<not> js_space (last s)"
  shows "trim s = s"
proof (cases "s = []")
  case False
  then have "dropWhile js_space s = s" using assms(1) by (cases s) auto
  moreover have "dropWhile js_space (rev s) = rev s"
    using assms(2) False by (cases "rev s") (auto simp: last_rev hd_rev [symmetric])
  ultimately show ?thesis by (simp add: trim_def)
qed (simp add: trim_def)

lemma trim_trim [simp]: "trim (trim s) = trim s"
  by (rule trim_unspaced) (use trim_ends in auto)

lemma length_trim: "length (trim s) \<le> length s"
proof -
  have "length (trim s) \<le> length (dropWhile js_space s)"
    by (simp add: trim_def) (metis length_dropWhile_le length_rev)
  then show ?thesis using length_dropWhile_le [of js_space s] by linarith
qed

lemma lower_char_space [simp]: "js_space (lower_char c) = js_space c"
  by (auto simp: js_space_def lower_char_def Let_def)

lemma lower_char_idem [simp]: "lower_char (lower_char c) = lower_char c"
  by (auto simp: lower_char_def Let_def)

lemma trim_lower: "trim (map lower_char s) = map lower_char (trim s)"
  by (simp add: trim_def rev_map dropWhile_map comp_def)

subsection \<open>URLs\<close>

text \<open>
  What the code reads of the host's \<open>URL\<close> class. The parser is a parameter of the definitions
  that use it: \<open>url_of s\<close> is \<open>new URL(s)\<close>, \<open>None\<close> when the constructor throws.
\<close>

record url =
  u_protocol :: string
  u_username :: string
  u_password :: string
  u_pathname :: string
  u_search :: string
  u_hash :: string
  u_origin :: string
  u_href :: string

end
