(* ===== verification/EmailHandoff.thy ===== *)
theory EmailHandoff
  imports StructuredInput Text
begin

text \<open>
  \<open>email-handoff/service.ts\<close>: continuing a conversation by email. One transaction queues a run
  triggered by the last user message, with its handoff in delivery and the consented address as
  an input that is already answered; \<open>get\<close> reads the handoff back.
\<close>

record email_ids =
  ei_run :: ident
  ei_handoff :: ident
  ei_assistantMessage :: ident

definition email_operation :: "ident \<Rightarrow> string" where
  "email_operation conversationId = ''email-handoff:create:'' @ conversationId"

definition normal_email :: "string \<Rightarrow> string" where
  "normal_email email = map lower_char (trim email)"

definition email_text :: "string \<Rightarrow> bool \<Rightarrow> string" where
  "email_text email consent =
     stringify (JObject [(''email'', JString email), (''consent'', JBool consent)])"

definition last_user_message :: "'a scope_scheme \<Rightarrow> ident \<Rightarrow> db \<Rightarrow> message_row option" where
  "last_user_message scope conversationId d =
     (case order_desc m_sequence (filter (\<lambda>m. m_tenant_id m = sc_tenantId scope
            \<and> m_site_id m = sc_siteId scope \<and> m_conversation_id m = conversationId
            \<and> m_role m = Role_user \<and> m_status m = Msg_completed) (messages d)) of
        [] \<Rightarrow> None
      | m # _ \<Rightarrow> Some m)"

definition email_run :: "'a scope_scheme \<Rightarrow> ident \<Rightarrow> email_ids \<Rightarrow> ident \<Rightarrow> ident \<Rightarrow> pg_time \<Rightarrow> run_row" where
  "email_run scope conversationId ids trigger agentRef clock =
     \<lparr>r_run_id = ei_run ids, r_tenant_id = sc_tenantId scope, r_site_id = sc_siteId scope,
      r_conversation_id = conversationId, r_trigger_message_id = trigger,
      r_trigger_type = Trigger_agent_email_handoff,
      r_assistant_message_id = ei_assistantMessage ids, r_agent_ref = agentRef,
      r_status = Run_queued, r_attempt = 0, r_available_at = clock, r_claimed_at = None,
      r_lease_expires_at = None, r_cancel_requested_at = None, r_error_code = None,
      r_created_at = clock, r_updated_at = clock, r_completed_at = None\<rparr>"

definition email_handoff_row :: "'a scope_scheme \<Rightarrow> ident \<Rightarrow> email_ids \<Rightarrow> js_date \<Rightarrow> handoff_row" where
  "email_handoff_row scope conversationId ids now =
     \<lparr>h_handoff_id = ei_handoff ids, h_tenant_id = sc_tenantId scope, h_site_id = sc_siteId scope,
      h_conversation_id = conversationId, h_run_id = ei_run ids, h_kind = Handoff_agent_email,
      h_status = Handoff_delivering, h_created_at = to_pg now, h_updated_at = to_pg now\<rparr>"

definition email_input :: "'a scope_scheme \<Rightarrow> ident \<Rightarrow> email_ids \<Rightarrow> string \<Rightarrow> js_date \<Rightarrow> input_row" where
  "email_input scope conversationId ids email now =
     \<lparr>i_request_id = ei_handoff ids, i_tenant_id = sc_tenantId scope, i_site_id = sc_siteId scope,
      i_conversation_id = conversationId, i_run_id = ei_run ids,
      i_purpose = Purpose_agent_email_handoff, i_prompt = ''Email me this conversation'',
      i_required = True, i_status = Input_submitted, i_value = Some email,
      i_consent_status = Some Consent_granted, i_consent_recorded_at = Some (to_pg now),
      i_created_at = to_pg now, i_updated_at = to_pg now\<rparr>"

definition email_transaction ::
  "(string \<Rightarrow> string) \<Rightarrow> email_ids \<Rightarrow> pg_time \<Rightarrow> js_date \<Rightarrow> 'a scope_scheme \<Rightarrow> ident \<Rightarrow> string
    \<Rightarrow> string \<Rightarrow> db \<Rightarrow> failure + (ident \<times> db)" where
  "email_transaction sha256 ids clock now scope conversationId address idempotencyKey d =
     (let operation = email_operation conversationId;
          email = normal_email address;
          requestHash = sha256 (email_text email True)
      in case findIdempotency scope operation idempotencyKey d of
        Some previous \<Rightarrow>
          (if k_request_hash previous \<noteq> requestHash
           then Inl (ApiError IDEMPOTENCY_CONFLICT 409)
           else Inr (k_resource_id previous, d))
      | None \<Rightarrow>
     (case find_conversation scope conversationId d of
        None \<Rightarrow> Inl (ApiError CONVERSATION_NOT_FOUND 404)
      | Some conversation \<Rightarrow>
     (case last_user_message scope conversationId d of
        None \<Rightarrow> Inl (ApiError EMPTY_CONVERSATION 400)
      | Some trigger \<Rightarrow>
          and_then (insert_run (email_run scope conversationId ids (m_message_id trigger)
              (c_agent_ref conversation) clock) d) (\<lambda>d1.
          and_then (insert_handoff (email_handoff_row scope conversationId ids now) d1) (\<lambda>d2.
          and_then (insert_input (email_input scope conversationId ids email now) d2) (\<lambda>d3.
          and_then (insert_command_key
              (key_row scope operation idempotencyKey requestHash (ei_handoff ids) clock) d3) (\<lambda>d4.
          Inr (ei_handoff ids, d4))))))))"

record email_handoff =
  eh_handoffId :: ident
  eh_conversationId :: ident
  eh_runId :: ident
  eh_status :: handoff_status
  eh_createdAt :: js_date
  eh_updatedAt :: js_date

definition get_handoff :: "'a scope_scheme \<Rightarrow> ident \<Rightarrow> ident \<Rightarrow> db \<Rightarrow> failure + email_handoff" where
  "get_handoff scope conversationId handoffId d =
     (case find (\<lambda>h. h_tenant_id h = sc_tenantId scope \<and> h_site_id h = sc_siteId scope
             \<and> h_conversation_id h = conversationId \<and> h_handoff_id h = handoffId
             \<and> h_kind h = Handoff_agent_email) (handoffs d) of
        None \<Rightarrow> Inl Unexpected
      | Some row \<Rightarrow>
          Inr \<lparr>eh_handoffId = h_handoff_id row, eh_conversationId = h_conversation_id row,
            eh_runId = h_run_id row,
            eh_status = (if h_status row = Handoff_completed \<or> h_status row = Handoff_failed
                         then h_status row else Handoff_delivering),
            eh_createdAt = to_js (h_created_at row), eh_updatedAt = to_js (h_updated_at row)\<rparr>)"

definition create_email_handoff ::
  "(string \<Rightarrow> string) \<Rightarrow> email_ids \<Rightarrow> pg_time \<Rightarrow> js_date \<Rightarrow> 'a scope_scheme \<Rightarrow> ident \<Rightarrow> string
    \<Rightarrow> string \<Rightarrow> db \<Rightarrow> (failure + email_handoff) \<times> db" where
  "create_email_handoff sha256 ids clock now scope conversationId address idempotencyKey d =
     (case email_transaction sha256 ids clock now scope conversationId address idempotencyKey d of
        Inl e \<Rightarrow> (Inl e, d)
      | Inr (handoffId, d') \<Rightarrow> (get_handoff scope conversationId handoffId d', d'))"

subsection \<open>The cases of a creation\<close>

lemma email_transaction_cases:
  assumes "email_transaction sha256 ids clock now scope cid address key d = Inr (r, d')"
  obtains
    (replayed) row where "findIdempotency scope (email_operation cid) key d = Some row"
      and "k_request_hash row = sha256 (email_text (normal_email address) True)"
      and "r = k_resource_id row" and "d' = d"
  | (fresh) c m where "findIdempotency scope (email_operation cid) key d = None"
      and "find_conversation scope cid d = Some c" and "last_user_message scope cid d = Some m"
      and "r = ei_handoff ids"
      and "\<forall>q \<in> set (agent_runs d). r_run_id q \<noteq> ei_run ids"
      and "\<forall>h \<in> set (handoffs d). h_handoff_id h \<noteq> ei_handoff ids"
      and "d' = d\<lparr>agent_runs := agent_runs d @ [email_run scope cid ids (m_message_id m) (c_agent_ref c) clock],
           handoffs := handoffs d @ [email_handoff_row scope cid ids now],
           structured_input_requests := structured_input_requests d
             @ [email_input scope cid ids (normal_email address) now],
           command_idempotency := command_idempotency d @ [key_row scope (email_operation cid) key
             (sha256 (email_text (normal_email address) True)) (ei_handoff ids) clock]\<rparr>"
  using assms
  by (auto simp: email_transaction_def Let_def insert_run_def insert_handoff_def insert_input_def
      insert_command_key_def email_run_def email_handoff_row_def split: option.splits if_splits)

lemma email_keys:
  assumes "email_transaction sha256 ids clock now scope cid address key d = Inr (r, d')"
  shows "(\<exists>row. findIdempotency scope (email_operation cid) key d = Some row
             \<and> k_request_hash row = sha256 (email_text (normal_email address) True)
             \<and> r = k_resource_id row \<and> d' = d)
         \<or> (findIdempotency scope (email_operation cid) key d = None
             \<and> command_idempotency d' = command_idempotency d @ [key_row scope (email_operation cid) key
                 (sha256 (email_text (normal_email address) True)) r clock])"
  using assms by (rule email_transaction_cases) auto

type_synonym 'a email_command =
  "(email_ids \<times> pg_time \<times> js_date) \<times> 'a scope_scheme \<times> ident \<times> string \<times> string"

definition email_exec ::
  "(string \<Rightarrow> string) \<Rightarrow> 'a email_command \<Rightarrow> db \<Rightarrow> failure + (ident \<times> db)" where
  "email_exec sha256 = (\<lambda>((ids, clock, now), scope, cid, address, key).
     email_transaction sha256 ids clock now scope cid address key)"

definition email_lookup :: "'a email_command \<Rightarrow> db \<Rightarrow> command_key_row option" where
  "email_lookup = (\<lambda>(_, scope, cid, _, key). findIdempotency scope (email_operation cid) key)"

definition email_hash :: "(string \<Rightarrow> string) \<Rightarrow> 'a email_command \<Rightarrow> string" where
  "email_hash sha256 = (\<lambda>(_, _, _, address, _). sha256 (email_text (normal_email address) True))"

interpretation email: hash_checked_command "email_exec sha256" email_lookup
  "email_hash sha256" "\<lambda>_. Inr" "\<lambda>_. True" "ApiError IDEMPOTENCY_CONFLICT 409"
  for sha256
proof unfold_locales
  fix a :: "'a email_command" and b :: "'a email_command" and d d' r row
  obtain ids clock now scope cid address key where a: "a = ((ids, clock, now), scope, cid, address, key)"
    by (metis prod.exhaust)
  {
    assume "email_lookup a d = None" and "email_exec sha256 a d = Inr (r, d')"
    then have "findIdempotency scope (email_operation cid) key d' = Some (key_row scope
        (email_operation cid) key (sha256 (email_text (normal_email address) True)) r clock)"
      using email_keys [of sha256 ids clock now scope cid address key d r d']
      by (auto simp: a email_exec_def email_lookup_def intro: findIdempotency_recorded)
    then show "\<exists>row. email_lookup a d' = Some row \<and> k_request_hash row = email_hash sha256 a
        \<and> Inr (k_resource_id row) = Inr r"
      by (simp add: a email_lookup_def email_hash_def)
  next
    assume "email_lookup a d = Some row" and "k_request_hash row = email_hash sha256 a"
    then show "email_exec sha256 a d = and_then (Inr (k_resource_id row)) (\<lambda>r. Inr (r, d))"
      by (simp add: a email_exec_def email_lookup_def email_hash_def email_transaction_def Let_def)
  next
    obtain ids' clock' now' scope' cid' address' key'
      where b: "b = ((ids', clock', now'), scope', cid', address', key')" by (metis prod.exhaust)
    assume "email_exec sha256 b d = Inr (r, d')" and "email_lookup a d = Some row"
    then show "email_lookup a d' = Some row"
      using email_keys [of sha256 ids' clock' now' scope' cid' address' key' d r d']
      by (auto simp: a b email_exec_def email_lookup_def intro: findIdempotency_kept)
  next
    assume "email_lookup a d = Some row" and "k_request_hash row \<noteq> email_hash sha256 a"
    then show "email_exec sha256 a d = Inl (ApiError IDEMPOTENCY_CONFLICT 409)"
      by (simp add: a email_exec_def email_lookup_def email_hash_def email_transaction_def Let_def)
  }
qed

text \<open>The address is compared without its case and the white space around it.\<close>

lemma normal_email_idem: "normal_email (normal_email a) = normal_email a"
  by (simp add: normal_email_def trim_lower comp_def)

lemma email_handoff_once:
  fixes scope :: "'a scope_scheme" and others :: "'a email_command list"
  assumes "email_transaction sha256 ids clock now scope cid address key d = Inr (r, d')"
    and "normal_email address' = normal_email address"
  shows "email_transaction sha256 ids' clock' now' scope cid address' key
           (exec_all (email_exec sha256) others d') = Inr (r, exec_all (email_exec sha256) others d')"
proof -
  let ?a = "((ids, clock, now), scope, cid, address, key)"
    and ?b = "((ids', clock', now'), scope, cid, address', key)"
  have "email_exec sha256 ?a d = Inr (r, d')" using assms(1) by (simp add: email_exec_def)
  then have "email_exec sha256 ?b (exec_all (email_exec sha256) others d')
      = Inr (r, exec_all (email_exec sha256) others d')"
    by (rule email.exactly_once [OF TrueI])
      (simp_all add: email_lookup_def email_hash_def assms(2))
  then show ?thesis by (simp add: email_exec_def)
qed

subsection \<open>A created handoff is delivered\<close>

text \<open>The foreign key of the input requests: each belongs to a run that exists.\<close>

definition inputs_have_runs :: "db \<Rightarrow> bool" where
  "inputs_have_runs d \<longleftrightarrow>
     list_all (\<lambda>i. exists_row (\<lambda>r. r_run_id r = i_run_id i) (agent_runs d)) (structured_input_requests d)"

lemma email_sel [simp]:
  "r_run_id (email_run scope cid ids t a clock) = ei_run ids"
  "r_tenant_id (email_run scope cid ids t a clock) = sc_tenantId scope"
  "r_site_id (email_run scope cid ids t a clock) = sc_siteId scope"
  "r_conversation_id (email_run scope cid ids t a clock) = cid"
  "i_run_id (email_input scope cid ids e now) = ei_run ids"
  "i_tenant_id (email_input scope cid ids e now) = sc_tenantId scope"
  "i_site_id (email_input scope cid ids e now) = sc_siteId scope"
  "i_conversation_id (email_input scope cid ids e now) = cid"
  "i_status (email_input scope cid ids e now) = Input_submitted"
  by (simp_all add: email_run_def email_input_def)

lemma email_resolved_rows:
  assumes "inputs_have_runs d" and "\<forall>q \<in> set (agent_runs d). r_run_id q \<noteq> ei_run ids"
    and "structured_input_requests d' = structured_input_requests d @ [email_input scope cid ids e now]"
  shows "resolved_rows (email_run scope cid ids t a clock) d' = [email_input scope cid ids e now]"
proof -
  have "\<forall>i \<in> set (structured_input_requests d). i_run_id i \<noteq> ei_run ids"
    using assms(1,2) by (auto simp: inputs_have_runs_def list_all_iff)
  then show ?thesis
    using assms(3) by (simp add: resolved_rows_def order_asc_def filter_empty_conv)
qed

lemma order_desc_head:
  assumes "order_desc k xs = x # rest" and "y \<in> set xs"
  shows "k y \<le> k x"
proof -
  have "sorted (rev (map k (order_desc k xs)))"
    by (simp add: order_desc_def rev_map)
  then have "sorted (rev (map k rest) @ [k x])" using assms(1) by simp
  moreover have "y \<in> set (x # rest)" using assms set_order_desc [of k xs] by metis
  ultimately show ?thesis by (auto simp: sorted_append)
qed

lemma last_user_message_latest:
  assumes "last_user_message scope cid d = Some m"
  shows "m \<in> set (messages d) \<and> m_role m = Role_user \<and> m_status m = Msg_completed
     \<and> m_conversation_id m = cid
     \<and> (\<forall>x \<in> set (messages d). m_tenant_id x = sc_tenantId scope \<and> m_site_id x = sc_siteId scope
          \<and> m_conversation_id x = cid \<and> m_role x = Role_user \<and> m_status x = Msg_completed
          \<longrightarrow> m_sequence x \<le> m_sequence m)"
proof -
  let ?p = "\<lambda>m. m_tenant_id m = sc_tenantId scope \<and> m_site_id m = sc_siteId scope
    \<and> m_conversation_id m = cid \<and> m_role m = Role_user \<and> m_status m = Msg_completed"
  obtain rest where rest: "order_desc m_sequence (filter ?p (messages d)) = m # rest"
    using assms by (auto simp: last_user_message_def split: list.splits)
  have "m \<in> set (order_desc m_sequence (filter ?p (messages d)))" unfolding rest by simp
  then show ?thesis using order_desc_head [OF rest] by auto
qed

text \<open>
  A fresh request to continue by email leaves everything its delivery needs: the response names
  a handoff in delivery whose run is queued, any worker can claim the run from the database's
  present on, and the request built for it resolves exactly one input, the normalised address with
  the consent given at \<open>now\<close>. The run is triggered by the user's latest completed message.
\<close>

theorem email_handoff_deliverable:
  assumes "create_email_handoff sha256 ids clock now scope cid address key d = (Inr resp, d')"
    and "findIdempotency scope (email_operation cid) key d = None"
    and "inputs_have_runs d" and "1 \<le> wc_maxAttempts cfg" and "clock \<le> to_pg t"
    and "normal_email address \<noteq> []"
  shows "\<exists>run \<in> set (agent_runs d'). r_run_id run = eh_runId resp \<and> claimable cfg t run
     \<and> resolve_inputs (resolved_rows run d') = Inr [\<lparr>ir_requestId = eh_handoffId resp,
          ir_purpose = Purpose_agent_email_handoff,
          ir_decision = Resolved_submitted (normal_email address) now\<rparr>]
     \<and> eh_status resp = Handoff_delivering \<and> eh_createdAt resp = now
     \<and> (\<exists>m \<in> set (messages d). m_message_id m = r_trigger_message_id run \<and> m_role m = Role_user
          \<and> m_status m = Msg_completed \<and> m_conversation_id m = cid
          \<and> (\<forall>m' \<in> set (messages d). m_tenant_id m' = sc_tenantId scope \<and> m_site_id m' = sc_siteId scope
               \<and> m_conversation_id m' = cid \<and> m_role m' = Role_user \<and> m_status m' = Msg_completed
               \<longrightarrow> m_sequence m' \<le> m_sequence m))"
proof -
  obtain r where tx: "email_transaction sha256 ids clock now scope cid address key d = Inr (r, d')"
    and get: "get_handoff scope cid r d' = Inr resp"
    using assms(1) by (auto simp: create_email_handoff_def split: sum.splits)
  show ?thesis
    using tx
  proof (cases rule: email_transaction_cases)
    case (fresh c m)
    let ?run = "email_run scope cid ids (m_message_id m) (c_agent_ref c) clock"
    have "find (\<lambda>h. h_tenant_id h = sc_tenantId scope \<and> h_site_id h = sc_siteId scope
        \<and> h_conversation_id h = cid \<and> h_handoff_id h = ei_handoff ids \<and> h_kind h = Handoff_agent_email)
        (handoffs d') = Some (email_handoff_row scope cid ids now)"
      using fresh(6,7) by (auto simp: find_append email_handoff_row_def split: option.split dest: find_SomeD)
    then have resp: "eh_runId resp = ei_run ids" "eh_handoffId resp = ei_handoff ids"
      "eh_status resp = Handoff_delivering" "eh_createdAt resp = now"
      using get fresh(4) by (auto simp: get_handoff_def email_handoff_row_def)
    have "resolved_rows ?run d' = [email_input scope cid ids (normal_email address) now]"
      by (rule email_resolved_rows [OF assms(3) fresh(5)]) (simp add: fresh(7))
    then have "resolve_inputs (resolved_rows ?run d') = Inr [\<lparr>ir_requestId = ei_handoff ids,
          ir_purpose = Purpose_agent_email_handoff,
          ir_decision = Resolved_submitted (normal_email address) now\<rparr>]"
      using assms(6) by (simp add: resolve_input_def email_input_def truthy_def)
    moreover have "claimable cfg t ?run" using assms(4,5) by (simp add: claimable_def email_run_def)
    moreover have "?run \<in> set (agent_runs d')" by (simp add: fresh(7))
    moreover have "\<exists>m' \<in> set (messages d). m_message_id m' = r_trigger_message_id ?run
        \<and> m_role m' = Role_user \<and> m_status m' = Msg_completed \<and> m_conversation_id m' = cid
        \<and> (\<forall>x \<in> set (messages d). m_tenant_id x = sc_tenantId scope \<and> m_site_id x = sc_siteId scope
               \<and> m_conversation_id x = cid \<and> m_role x = Role_user \<and> m_status x = Msg_completed
               \<longrightarrow> m_sequence x \<le> m_sequence m')"
      using last_user_message_latest [OF fresh(3)]
      by (intro bexI [of _ m]) (auto simp: email_run_def)
    ultimately show ?thesis unfolding resp by (intro bexI [of _ ?run]) (simp_all del: resolve_inputs.simps)
  qed (use assms(2) in simp)
qed

subsection \<open>A concrete instance\<close>

definition sample_message_db :: db where
  "sample_message_db = sample_chat\<lparr>messages := [\<lparr>m_message_id = ''m1'', m_tenant_id = ''t1'',
     m_site_id = ''s1'', m_conversation_id = ''c1'', m_sequence = 1, m_participant_id = ''u1'',
     m_role = Role_user, m_status = Msg_completed, m_parts = [TextPart ''hi''],
     m_created_at = 1000, m_completed_at = Some 1000\<rparr>]\<rparr>"

definition sample_email_ids :: email_ids where
  "sample_email_ids = \<lparr>ei_run = ''r9'', ei_handoff = ''h9'', ei_assistantMessage = ''am9''\<rparr>"

lemma sample_email_created:
  "\<exists>resp d'. create_email_handoff (\<lambda>s. []) sample_email_ids 2000 2 sample_scope ''c1'' '' A@b.c'' ''k''
     sample_message_db = (Inr resp, d')"
  by (simp add: create_email_handoff_def email_transaction_def findIdempotency_def
      find_conversation_def last_user_message_def order_desc_def sample_message_db_def sample_defs
      constraint_defs email_operation_def key_row_def sample_email_ids_def email_run_def
      email_handoff_row_def email_input_def input_resolution_check_def get_handoff_def normal_email_def
      trim_def js_space_def lower_char_def code_unit_def)

lemma email_handoff_deliverable_witness:
  "\<exists>resp d'. create_email_handoff (\<lambda>s. []) sample_email_ids 2000 2 sample_scope ''c1'' '' A@b.c'' ''k''
       sample_message_db = (Inr resp, d')
     \<and> (\<exists>run \<in> set (agent_runs d'). claimable \<lparr>wc_leaseMs = 1, wc_maxAttempts = 1,
          wc_retentionMaxEvents = 1\<rparr> 2 run)"
proof -
  obtain resp d' where created: "create_email_handoff (\<lambda>s. []) sample_email_ids 2000 2 sample_scope
      ''c1'' '' A@b.c'' ''k'' sample_message_db = (Inr resp, d')"
    using sample_email_created by blast
  have "findIdempotency sample_scope (email_operation ''c1'') ''k'' sample_message_db = None"
    and "inputs_have_runs sample_message_db"
    by (simp_all add: findIdempotency_def inputs_have_runs_def sample_message_db_def sample_defs)
  moreover have "normal_email '' A@b.c'' \<noteq> []"
    by (simp add: normal_email_def trim_def js_space_def code_unit_def)
  ultimately show ?thesis
    using email_handoff_deliverable [OF created, of "\<lparr>wc_leaseMs = 1, wc_maxAttempts = 1,
        wc_retentionMaxEvents = 1\<rparr>" 2] created by (auto simp: to_pg_def)
qed

end
