(* ===== verification/RateLimit.thy ===== *)
theory RateLimit
  imports Prelude
begin

text \<open>
  \<open>security/rate-limit.ts\<close>: the fixed-window rate limiter. Its \<open>Map\<close> of windows is the list of
  its entries in insertion order. The reference is a counter of one key alone; as long as the keys
  fit, the limiter is one such counter per key, and a key gets at most twice its maximum in any span
  of one window's length. Whatever the keys, the limiter never holds more than \<open>maxKeys\<close> windows.
\<close>

record limiter_options =
  lo_windowMs :: int
  lo_max :: int
  lo_maxKeys :: nat

record window =
  wn_count :: int
  wn_startedAt :: js_date
  wn_lastSeen :: js_date

record limit_result =
  lr_allowed :: bool
  lr_limit :: int
  lr_remaining :: int
  lr_resetSeconds :: int

type_synonym limiter = "(string \<times> window) list"

definition forget :: "string \<Rightarrow> limiter \<Rightarrow> limiter" where
  "forget key ws = filter (\<lambda>(k, _). k \<noteq> key) ws"

definition assign :: "string \<Rightarrow> window \<Rightarrow> limiter \<Rightarrow> limiter" where
  "assign key w ws = map (\<lambda>(k, v). (k, if k = key then w else v)) ws"

text \<open>The loop of \<open>#makeRoom\<close>: the first key with the least \<open>lastSeen\<close>.\<close>

fun oldest :: "limiter \<Rightarrow> (string \<times> js_date) option \<Rightarrow> string option" where
  "oldest [] best = map_option fst best"
| "oldest ((k, w) # ws) best =
     oldest ws (case best of
       None \<Rightarrow> Some (k, wn_lastSeen w)
     | Some (_, seen) \<Rightarrow> if wn_lastSeen w < seen then Some (k, wn_lastSeen w) else best)"

definition makeRoom :: "limiter_options \<Rightarrow> limiter \<Rightarrow> limiter" where
  "makeRoom opts ws =
     (if length ws < lo_maxKeys opts then ws
      else (case oldest ws None of None \<Rightarrow> ws | Some k \<Rightarrow> forget k ws))"

text \<open>\<open>Math.ceil(x / 1000)\<close>\<close>

definition ceil_seconds :: "int \<Rightarrow> int" where
  "ceil_seconds x = - ((- x) div 1000)"

definition count_request :: "limiter_options \<Rightarrow> js_date \<Rightarrow> window \<Rightarrow> limit_result \<times> window" where
  "count_request opts now state =
     (let allowed = wn_count state < lo_max opts;
          count = (if allowed then wn_count state + 1 else wn_count state)
      in (\<lparr>lr_allowed = allowed, lr_limit = lo_max opts,
           lr_remaining = max 0 (lo_max opts - count),
           lr_resetSeconds = max 1 (ceil_seconds (wn_startedAt state + lo_windowMs opts - now))\<rparr>,
          state\<lparr>wn_count := count, wn_lastSeen := now\<rparr>))"

definition fresh_window :: "js_date \<Rightarrow> window" where
  "fresh_window now = \<lparr>wn_count = 0, wn_startedAt = now, wn_lastSeen = now\<rparr>"

definition consume :: "limiter_options \<Rightarrow> string \<Rightarrow> js_date \<Rightarrow> limiter \<Rightarrow> limit_result \<times> limiter" where
  "consume opts key now ws =
     (let found = map_of ws key;
          expired = (case found of None \<Rightarrow> False
                     | Some w \<Rightarrow> wn_startedAt w + lo_windowMs opts \<le> now);
          ws1 = (if expired then forget key ws else ws);
          (state, ws2) = (case (if expired then None else found) of
              Some w \<Rightarrow> (w, ws1)
            | None \<Rightarrow> (fresh_window now, makeRoom opts ws1 @ [(key, fresh_window now)]));
          (result, state') = count_request opts now state
      in (result, assign key state' ws2))"

fun consume_all :: "limiter_options \<Rightarrow> (string \<times> js_date) list \<Rightarrow> limiter \<Rightarrow> limit_result list \<times> limiter" where
  "consume_all opts [] ws = ([], ws)"
| "consume_all opts ((key, now) # reqs) ws =
     (let (r, ws') = consume opts key now ws; (rs, ws'') = consume_all opts reqs ws' in (r # rs, ws''))"

subsection \<open>The entries\<close>

lemma fst_forget: "map fst (forget key ws) = filter (\<lambda>k. k \<noteq> key) (map fst ws)"
  by (induction ws) (auto simp: forget_def)

lemma fst_assign [simp]: "map fst (assign key w ws) = map fst ws"
  by (simp add: assign_def case_prod_unfold comp_def)

lemma keys_assign [simp]: "fst ` set (assign key w ws) = fst ` set ws"
  using arg_cong [OF fst_assign [of key w ws], of set] by (simp del: fst_assign)

lemma length_assign [simp]: "length (assign key w ws) = length ws"
  by (simp add: assign_def)

lemma map_of_forget: "map_of (forget key ws) = (map_of ws)(key := None)"
  by (induction ws) (auto simp: forget_def)

lemma map_of_assign: "map_of (assign key w ws) = (map_of ws)(key := map_option (\<lambda>_. w) (map_of ws key))"
  by (induction ws) (auto simp: assign_def)

lemma oldest_Some: "ws \<noteq> [] \<or> best \<noteq> None \<Longrightarrow> oldest ws best \<noteq> None"
  by (induction ws best rule: oldest.induct) (auto split: option.splits)

lemma oldest_member: "oldest ws best = Some k \<Longrightarrow> k \<in> fst ` set ws \<or> (\<exists>s. best = Some (k, s))"
  by (induction ws best rule: oldest.induct) (auto split: option.splits if_splits)

lemma length_forget_member:
  assumes "key \<in> set (map fst ws)"
  shows "length (forget key ws) < length ws"
proof -
  obtain x where "x \<in> set ws" "fst x = key" using assms by auto
  then show ?thesis unfolding forget_def by (intro length_filter_less) auto
qed

definition limiter_ok :: "limiter_options \<Rightarrow> limiter \<Rightarrow> bool" where
  "limiter_ok opts ws \<longleftrightarrow> distinct (map fst ws) \<and> length ws \<le> lo_maxKeys opts"

lemma makeRoom_ok:
  assumes "limiter_ok opts ws" and "1 \<le> lo_maxKeys opts"
  shows "distinct (map fst (makeRoom opts ws)) \<and> length (makeRoom opts ws) < lo_maxKeys opts
     \<and> set (makeRoom opts ws) \<subseteq> set ws"
proof (cases "length ws < lo_maxKeys opts")
  case False
  then have "ws \<noteq> []" using assms(2) by auto
  then obtain k where k: "oldest ws None = Some k" using oldest_Some by blast
  then have "k \<in> set (map fst ws)" using oldest_member by fastforce
  then have "length (forget k ws) < lo_maxKeys opts"
    using length_forget_member [of k ws] assms(1) by (auto simp: limiter_ok_def)
  then show ?thesis
    using False k assms(1) by (auto simp: makeRoom_def limiter_ok_def fst_forget) (auto simp: forget_def)
qed (use assms in \<open>auto simp: makeRoom_def limiter_ok_def\<close>)

lemma forget_ok: "limiter_ok opts ws \<Longrightarrow> limiter_ok opts (forget key ws)"
  using le_trans [OF length_filter_le [of "\<lambda>(k, _). k \<noteq> key" ws]]
  by (simp add: limiter_ok_def fst_forget) (simp add: forget_def)

lemma consume_ok:
  assumes "limiter_ok opts ws" and "1 \<le> lo_maxKeys opts"
  shows "limiter_ok opts (snd (consume opts key now ws))"
proof -
  have inserted: "limiter_ok opts (makeRoom opts ws' @ [(key, w)])"
    if "limiter_ok opts ws'" "map_of ws' key = None" for ws' w
    using makeRoom_ok [OF that(1) assms(2)] that(2)
    by (auto simp: limiter_ok_def map_of_eq_None_iff)
  have assigned: "limiter_ok opts (assign key w ws')" if "limiter_ok opts ws'" for ws' w
    using that by (simp add: limiter_ok_def)
  show ?thesis
    using assms(1) forget_ok [OF assms(1)]
    by (auto simp: consume_def Let_def map_of_forget split: option.splits prod.splits
        intro!: assigned inserted)
qed

subsection \<open>One counter per key\<close>

text \<open>The reference: the counter of one key, which knows nothing of the others.\<close>

definition count_one :: "limiter_options \<Rightarrow> js_date \<Rightarrow> window option \<Rightarrow> limit_result \<times> window" where
  "count_one opts now state =
     count_request opts now (case state of
         None \<Rightarrow> fresh_window now
       | Some w \<Rightarrow> if wn_startedAt w + lo_windowMs opts \<le> now then fresh_window now else w)"

fun count_all :: "limiter_options \<Rightarrow> js_date list \<Rightarrow> window option \<Rightarrow> limit_result list" where
  "count_all opts [] state = []"
| "count_all opts (now # nows) state =
     (let (r, w) = count_one opts now state in r # count_all opts nows (Some w))"

lemma consume_counts:
  assumes "limiter_ok opts ws" and "finite K" and "card K \<le> lo_maxKeys opts"
    and "set (map fst ws) \<subseteq> K" and "key \<in> K"
  shows "fst (consume opts key now ws) = fst (count_one opts now (map_of ws key))
     \<and> map_of (snd (consume opts key now ws)) = (map_of ws)(key \<mapsto> snd (count_one opts now (map_of ws key)))
     \<and> set (map fst (snd (consume opts key now ws))) \<subseteq> K"
proof -
  have room: "makeRoom opts ws' = ws'"
    if "distinct (map fst ws')" "set (map fst ws') \<subseteq> K" "map_of ws' key = None" for ws'
  proof -
    have "key \<notin> set (map fst ws')" using that(3) by (auto simp: map_of_eq_None_iff)
    then have "set (map fst ws') \<subset> K" using that(2) assms(5) by blast
    then have "card (set (map fst ws')) < card K" using assms(2) psubset_card_mono by blast
    then have "length ws' < lo_maxKeys opts"
      using that(1) distinct_card [of "map fst ws'"] assms(3) by simp
    then show ?thesis by (simp add: makeRoom_def)
  qed
  have "distinct (map fst ws)" using assms(1) by (simp add: limiter_ok_def)
  then have whole: "map_of ws key = None \<Longrightarrow> makeRoom opts ws = ws" using room assms(4) by blast
  have sub: "set (map fst (forget key ws)) \<subseteq> K" using assms(4) by (auto simp: fst_forget)
  have "distinct (map fst (forget key ws))" using assms(1) by (simp add: limiter_ok_def fst_forget)
  then have part: "makeRoom opts (forget key ws) = forget key ws"
    using room [OF _ sub] by (simp add: map_of_forget)
  show ?thesis
  proof (cases "map_of ws key")
    case None
    then show ?thesis
      using whole assms(4,5) by (simp add: consume_def count_one_def Let_def case_prod_unfold
          map_of_assign map_add_def fun_eq_iff split: option.split)
  next
    case (Some w)
    then show ?thesis
      using part sub assms(4,5)
      by (cases "wn_startedAt w + lo_windowMs opts \<le> now")
        (auto simp: consume_def count_one_def Let_def case_prod_unfold map_of_assign map_of_forget
          map_add_def fun_eq_iff simp del: map_of_eq_Some_iff split: option.split)
  qed
qed

lemma consume_all_counts:
  assumes "limiter_ok opts ws" and "finite K" and "card K \<le> lo_maxKeys opts" and "1 \<le> lo_maxKeys opts"
    and "set (map fst ws) \<subseteq> K" and "fst ` set reqs \<subseteq> K"
  shows "map snd (filter (\<lambda>(req, _). fst req = key) (zip reqs (fst (consume_all opts reqs ws))))
     = count_all opts (map snd (filter (\<lambda>req. fst req = key) reqs)) (map_of ws key)"
  using assms(1,5,6)
proof (induction reqs arbitrary: ws)
  case (Cons req reqs)
  obtain k now where req: "req = (k, now)" by (cases req)
  obtain r ws' where step: "consume opts k now ws = (r, ws')" by (cases "consume opts k now ws")
  have "k \<in> K" using Cons.prems(3) req by simp
  note counts = consume_counts [OF Cons.prems(1) assms(2,3) Cons.prems(2) this, of now, unfolded step]
  have "limiter_ok opts ws'" using consume_ok [OF Cons.prems(1) assms(4), of k now] step by simp
  from Cons.IH [OF this] counts Cons.prems(3)
  have rest: "map snd (filter (\<lambda>(req, _). fst req = key) (zip reqs (fst (consume_all opts reqs ws'))))
      = count_all opts (map snd (filter (\<lambda>req. fst req = key) reqs)) (map_of ws' key)"
    by simp
  show ?case
  proof (cases "k = key")
    case True
    with step have "consume opts key now ws = (r, ws')" by simp
    with rest counts True show ?thesis by (simp add: req Let_def case_prod_unfold)
  next
    case False
    with rest counts show ?thesis by (simp add: req step Let_def case_prod_unfold)
  qed
qed simp

lemma length_consume_all: "length (fst (consume_all opts reqs ws)) = length reqs"
  by (induction reqs arbitrary: ws) (auto simp: Let_def case_prod_unfold)

lemma zip_filter_fst:
  "length xs = length ys \<Longrightarrow> map fst (filter (\<lambda>(x, _). p x) (zip xs ys)) = filter p xs"
  by (induction xs ys rule: list_induct2) auto

lemma zip_pairs: "map (\<lambda>(x, r). (snd x, r)) ps = zip (map snd (map fst ps)) (map snd ps)"
  by (induction ps) auto

text \<open>
  The limiter is one counter per key. As long as no more than \<open>maxKeys\<close> different keys send
  requests, the answers a key gets are those of a fixed-window counter that sees its requests alone:
  no other key's traffic, and no eviction, changes them.
\<close>

theorem limiter_isolates_keys:
  assumes "card (fst ` set reqs) \<le> lo_maxKeys opts" and "1 \<le> lo_maxKeys opts"
  shows "map snd (filter (\<lambda>(req, _). fst req = key) (zip reqs (fst (consume_all opts reqs []))))
     = count_all opts (map snd (filter (\<lambda>req. fst req = key) reqs)) None"
  using consume_all_counts [of opts "[]" "fst ` set reqs" reqs key] assms by (simp add: limiter_ok_def)

subsection \<open>The traffic a key gets\<close>

definition allowed_in :: "js_date \<Rightarrow> js_date \<Rightarrow> (js_date \<times> limit_result) list \<Rightarrow> nat" where
  "allowed_in a b rs = length (filter (\<lambda>(t, r). a \<le> t \<and> t < b \<and> lr_allowed r) rs)"

lemma allowed_in_simps [simp]:
  "allowed_in a b [] = 0"
  "allowed_in a b ((t, r) # rs) = (if a \<le> t \<and> t < b \<and> lr_allowed r then 1 else 0) + allowed_in a b rs"
  by (simp_all add: allowed_in_def)

lemma allowed_in_late: "\<forall>t \<in> set ts. b \<le> t \<Longrightarrow> allowed_in a b (zip ts rs) = 0"
  by (fastforce simp: allowed_in_def filter_empty_conv dest: set_zip_leftD)

text \<open>What is left for the span from \<open>a\<close>: nothing beyond the current window once it began in the span.\<close>

definition budget :: "limiter_options \<Rightarrow> js_date \<Rightarrow> window option \<Rightarrow> int" where
  "budget opts a state =
     (case state of
        None \<Rightarrow> 2 * lo_max opts
      | Some w \<Rightarrow> if a \<le> wn_startedAt w then lo_max opts - wn_count w
                  else if a < wn_startedAt w + lo_windowMs opts then 2 * lo_max opts - wn_count w
                  else 2 * lo_max opts)"

definition window_ok :: "limiter_options \<Rightarrow> window \<Rightarrow> bool" where
  "window_ok opts w \<longleftrightarrow> 0 \<le> wn_count w \<and> wn_count w \<le> lo_max opts"

lemma budget_nonneg:
  "0 \<le> lo_max opts \<Longrightarrow> pred_option (window_ok opts) state \<Longrightarrow> 0 \<le> budget opts a state"
  by (auto simp: budget_def window_ok_def split: option.split)

lemma count_one_ok:
  assumes "0 \<le> lo_max opts" and "pred_option (window_ok opts) state"
    and "pred_option (\<lambda>w. wn_startedAt w \<le> now) state"
  shows "window_ok opts (snd (count_one opts now state))
     \<and> wn_startedAt (snd (count_one opts now state)) \<le> now"
  using assms by (auto simp: count_one_def count_request_def window_ok_def fresh_window_def Let_def
      split: option.splits)

lemma count_one_budget:
  assumes "0 \<le> lo_max opts" and "0 < lo_windowMs opts" and "pred_option (window_ok opts) state"
    and "now < a + lo_windowMs opts"
  shows "(if a \<le> now \<and> lr_allowed (fst (count_one opts now state)) then 1 else 0)
     + budget opts a (Some (snd (count_one opts now state))) \<le> budget opts a state"
  using assms by (auto simp: count_one_def count_request_def budget_def window_ok_def fresh_window_def
      Let_def split: option.splits)

lemma count_all_budget:
  assumes "0 \<le> lo_max opts" and "0 < lo_windowMs opts" and "sorted ts"
    and "pred_option (window_ok opts) state"
    and "pred_option (\<lambda>w. \<forall>t \<in> set ts. wn_startedAt w \<le> t) state"
  shows "int (allowed_in a (a + lo_windowMs opts) (zip ts (count_all opts ts state))) \<le> budget opts a state"
  using assms(3-5)
proof (induction ts arbitrary: state)
  case (Cons now ts)
  obtain r w where step: "count_one opts now state = (r, w)" by (cases "count_one opts now state")
  show ?case
  proof (cases "now < a + lo_windowMs opts")
    case True
    have started: "pred_option (\<lambda>w. wn_startedAt w \<le> now) state"
      using Cons.prems(3) by (cases state) auto
    have ok: "window_ok opts w \<and> wn_startedAt w \<le> now"
      using count_one_ok [OF assms(1) Cons.prems(2) started] step by simp
    then have "int (allowed_in a (a + lo_windowMs opts) (zip ts (count_all opts ts (Some w))))
        \<le> budget opts a (Some w)"
      using Cons.prems(1) by (intro Cons.IH) auto
    with count_one_budget [OF assms(1,2) Cons.prems(2) True] True step show ?thesis
      by (auto split: if_splits)
  next
    case False
    then have "allowed_in a (a + lo_windowMs opts) (zip (now # ts) (count_all opts (now # ts) state)) = 0"
      using Cons.prems(1) by (intro allowed_in_late) auto
    then show ?thesis using budget_nonneg [OF assms(1) Cons.prems(2)] by simp
  qed
qed (simp add: budget_nonneg assms(1))

lemma consume_all_ok:
  "limiter_ok opts ws \<Longrightarrow> 1 \<le> lo_maxKeys opts \<Longrightarrow> limiter_ok opts (snd (consume_all opts reqs ws))"
proof (induction reqs arbitrary: ws)
  case (Cons req reqs)
  obtain k now where req: "req = (k, now)" by (cases req)
  from consume_ok [OF Cons.prems, of k now] show ?case
    using Cons.IH [OF _ Cons.prems(2)] by (simp add: req Let_def case_prod_unfold)
qed simp

text \<open>
  C36: The limiter bounds a key's traffic and its own memory. With the clock not going back and the keys
  fitting, a key is allowed at most twice its maximum in any span of one window's length (two windows
  can share a span); and after any requests at all, with any number of keys, the limiter holds at most
  \<open>maxKeys\<close> windows.
\<close>

theorem limiter_bounds_traffic:
  assumes "1 \<le> lo_max opts" and "0 < lo_windowMs opts" and "1 \<le> lo_maxKeys opts"
    and "sorted (map snd reqs)"
  shows "length (snd (consume_all opts reqs [])) \<le> lo_maxKeys opts
     \<and> (card (fst ` set reqs) \<le> lo_maxKeys opts \<longrightarrow>
         int (allowed_in a (a + lo_windowMs opts)
           (map (\<lambda>(req, r). (snd req, r))
             (filter (\<lambda>(req, _). fst req = key) (zip reqs (fst (consume_all opts reqs []))))))
         \<le> 2 * lo_max opts)"
proof (intro conjI impI)
  have "limiter_ok opts []" by (simp add: limiter_ok_def)
  from consume_all_ok [OF this assms(3)] show "length (snd (consume_all opts reqs [])) \<le> lo_maxKeys opts"
    by (simp add: limiter_ok_def)
next
  let ?mine = "filter (\<lambda>(req, _). fst req = key) (zip reqs (fst (consume_all opts reqs [])))"
  let ?ts = "map snd (filter (\<lambda>req. fst req = key) reqs)"
  assume "card (fst ` set reqs) \<le> lo_maxKeys opts"
  then have results: "map snd ?mine = count_all opts ?ts None"
    using consume_all_counts [of opts "[]" "fst ` set reqs" reqs key] assms(3) by (simp add: limiter_ok_def)
  have "map fst ?mine = filter (\<lambda>req. fst req = key) reqs"
    using length_consume_all [of opts reqs "[]"] by (simp add: zip_filter_fst)
  then have "map (\<lambda>(req, r). (snd req, r)) ?mine = zip ?ts (count_all opts ?ts None)"
    unfolding results [symmetric] by (metis zip_pairs)
  moreover have "sorted ?ts" using assms(4) by (rule sorted_filter)
  ultimately show "int (allowed_in a (a + lo_windowMs opts) (map (\<lambda>(req, r). (snd req, r)) ?mine))
      \<le> 2 * lo_max opts"
    using count_all_budget [of opts ?ts None a] assms(1,2) by (simp add: budget_def)
qed

definition sample_limits :: limiter_options where
  "sample_limits = \<lparr>lo_windowMs = 1000, lo_max = 1, lo_maxKeys = 2\<rparr>"

definition sample_requests :: "(string \<times> js_date) list" where
  "sample_requests = [(''a'', 0), (''b'', 1), (''a'', 2)]"

lemma limiter_isolates_keys_witness:
  "map snd (filter (\<lambda>(req, _). fst req = ''a'') (zip sample_requests
      (fst (consume_all sample_limits sample_requests [])))) = count_all sample_limits [0, 2] None"
proof -
  have "card (fst ` set sample_requests) \<le> lo_maxKeys sample_limits" "1 \<le> lo_maxKeys sample_limits"
    by (simp_all add: sample_requests_def sample_limits_def card_insert_if)
  from limiter_isolates_keys [OF this, of "''a''"] show ?thesis
    by (simp add: sample_requests_def del: consume_all.simps count_all.simps zip_Cons_Cons)
qed

lemma limiter_bounds_traffic_witness:
  "length (snd (consume_all sample_limits [(''a'', 0), (''b'', 1), (''c'', 2)] [])) \<le> 2"
  using limiter_bounds_traffic [of sample_limits "[(''a'', 0), (''b'', 1), (''c'', 2)]"]
  by (simp add: sample_limits_def del: consume_all.simps)

end
