(* ===== verification/Token.thy ===== *)
theory Token
  imports Text Json Schema
begin

text \<open>
  \<open>session/token.ts\<close> and \<open>auth/session-auth.ts\<close>: issuing the bearer token of a browser session
  under a ring of secrets, verifying one, and authenticating a request for a scope.

  The JWT library is the parameters \<open>sign\<close> (a key and a payload to a token) and \<open>jwt\<close> (a key, an
  audience, an issuer, a token and the time to the verified payload). \<open>jwt_laws\<close> is what the code
  relies on: a token verifies under the key it was signed with and no other, for the audience and
  the issuer it names, until the second it expires in.
\<close>

type_synonym payload = "(string \<times> json) list"
type_synonym jwt_sign = "string \<Rightarrow> payload \<Rightarrow> string"
type_synonym jwt_verify = "string \<Rightarrow> string \<Rightarrow> string \<Rightarrow> string \<Rightarrow> js_date \<Rightarrow> payload option"

definition audience :: string where
  "audience = ''formation-chat-core-public''"

definition issuer :: string where
  "issuer = ''formation-chat-core''"

definition session_scopes :: "string list" where
  "session_scopes = [''conversations:read'', ''conversations:write'', ''events:read'', ''inputs:write'']"

record token_subject =
  ts_tenantId :: ident
  ts_siteId :: ident
  ts_agentRef :: ident
  ts_principalId :: ident
  ts_sessionId :: ident

text \<open>The two time stamps are not checked, so they keep whatever the payload holds.\<close>

record session_claims = token_subject +
  cl_scopes :: "json list"
  cl_issuedAt :: "json option"
  cl_expiresAt :: "json option"

definition token_secrets_ok :: "string list \<Rightarrow> bool" where
  "token_secrets_ok secrets \<longleftrightarrow> secrets \<noteq> [] \<and> list_all (\<lambda>s. 32 \<le> length (utf8_encode s)) secrets"

definition seconds :: "js_date \<Rightarrow> int" where
  "seconds t = t div 1000"

definition issue_payload :: "(js_date \<Rightarrow> string) \<Rightarrow> int \<Rightarrow> token_subject \<Rightarrow> js_date \<Rightarrow> payload" where
  "issue_payload iso_text ttlSeconds subject now =
     (let issuedAt = seconds now; expiresAt = issuedAt + ttlSeconds
      in [(''tenantId'', JString (ts_tenantId subject)), (''siteId'', JString (ts_siteId subject)),
          (''agentRef'', JString (ts_agentRef subject)),
          (''principalId'', JString (ts_principalId subject)),
          (''sessionId'', JString (ts_sessionId subject)),
          (''scopes'', JArray (map JString session_scopes)),
          (''issuedAt'', JString (iso_text (issuedAt * 1000))),
          (''expiresAt'', JString (iso_text (expiresAt * 1000))),
          (''iss'', JString issuer), (''aud'', JString audience),
          (''sub'', JString (ts_principalId subject)), (''iat'', JNumber issuedAt),
          (''exp'', JNumber expiresAt)])"

definition issued_claims :: "(js_date \<Rightarrow> string) \<Rightarrow> int \<Rightarrow> token_subject \<Rightarrow> js_date \<Rightarrow> session_claims" where
  "issued_claims iso_text ttlSeconds subject now =
     \<lparr>ts_tenantId = ts_tenantId subject, ts_siteId = ts_siteId subject,
      ts_agentRef = ts_agentRef subject, ts_principalId = ts_principalId subject,
      ts_sessionId = ts_sessionId subject, cl_scopes = map JString session_scopes,
      cl_issuedAt = Some (JString (iso_text (seconds now * 1000))),
      cl_expiresAt = Some (JString (iso_text ((seconds now + ttlSeconds) * 1000)))\<rparr>"

definition issue ::
  "jwt_sign \<Rightarrow> (js_date \<Rightarrow> string) \<Rightarrow> string list \<Rightarrow> int \<Rightarrow> token_subject \<Rightarrow> js_date
    \<Rightarrow> string \<times> session_claims" where
  "issue sign iso_text secrets ttlSeconds subject now =
     (sign (hd secrets) (issue_payload iso_text ttlSeconds subject now),
      issued_claims iso_text ttlSeconds subject now)"

text \<open>The bounded key ring: the first key under which the token verifies.\<close>

fun ring_verify :: "jwt_verify \<Rightarrow> string list \<Rightarrow> string \<Rightarrow> js_date \<Rightarrow> payload option" where
  "ring_verify jwt [] token t = None"
| "ring_verify jwt (key # keys) token t =
     (case jwt key audience issuer token t of
        Some payload \<Rightarrow> Some payload
      | None \<Rightarrow> ring_verify jwt keys token t)"

definition claims_of :: "payload \<Rightarrow> session_claims option" where
  "claims_of payload =
     (case (map_of payload ''tenantId'', map_of payload ''siteId'', map_of payload ''agentRef'',
            map_of payload ''principalId'', map_of payload ''sessionId'', map_of payload ''scopes'') of
        (Some (JString tenantId), Some (JString siteId), Some (JString agentRef),
         Some (JString principalId), Some (JString sessionId), Some (JArray scopes)) \<Rightarrow>
          Some \<lparr>ts_tenantId = tenantId, ts_siteId = siteId, ts_agentRef = agentRef,
            ts_principalId = principalId, ts_sessionId = sessionId, cl_scopes = scopes,
            cl_issuedAt = map_of payload ''issuedAt'', cl_expiresAt = map_of payload ''expiresAt''\<rparr>
      | _ \<Rightarrow> None)"

definition verify_token ::
  "jwt_verify \<Rightarrow> string list \<Rightarrow> string \<Rightarrow> (ident \<times> ident) option \<Rightarrow> js_date \<Rightarrow> session_claims option" where
  "verify_token jwt secrets token expected t =
     (case ring_verify jwt secrets token t of
        None \<Rightarrow> None
      | Some payload \<Rightarrow>
     (case claims_of payload of
        None \<Rightarrow> None
      | Some claims \<Rightarrow>
          if opt_ok (\<lambda>(tenantId, siteId). ts_tenantId claims = tenantId \<and> ts_siteId claims = siteId)
               expected
          then Some claims else None))"

subsection \<open>Authenticating a request\<close>

record audit_actor =
  aa_kind :: actor_kind
  aa_actorId :: "ident option"
  aa_tenantId :: "ident option"
  aa_siteId :: "ident option"

text \<open>The failure is the status code of the \<open>AuthorizationError\<close>.\<close>

definition authenticate ::
  "jwt_verify \<Rightarrow> string list \<Rightarrow> string option \<Rightarrow> string \<Rightarrow> js_date
    \<Rightarrow> nat + (session_claims \<times> audit_actor)" where
  "authenticate jwt secrets authorization scope t =
     (case authorization of
        None \<Rightarrow> Inl 401
      | Some header \<Rightarrow>
          if \<not> starts_with ''Bearer '' header then Inl 401
          else (case verify_token jwt secrets (drop 7 header) None t of
              None \<Rightarrow> Inl 401
            | Some claims \<Rightarrow>
                if JString scope \<notin> set (cl_scopes claims) then Inl 403
                else Inr (claims, \<lparr>aa_kind = Actor_anonymous, aa_actorId = Some (ts_principalId claims),
                       aa_tenantId = Some (ts_tenantId claims), aa_siteId = Some (ts_siteId claims)\<rparr>)))"

subsection \<open>Round trip\<close>

definition jwt_laws :: "jwt_sign \<Rightarrow> jwt_verify \<Rightarrow> bool" where
  "jwt_laws sign jwt \<longleftrightarrow>
     (\<forall>key payload key' aud iss t. no_fraction (JObject payload) \<longrightarrow>
        jwt key' aud iss (sign key payload) t =
          (if key' = key \<and> map_of payload ''aud'' = Some (JString aud)
              \<and> map_of payload ''iss'' = Some (JString iss)
              \<and> (\<forall>e. map_of payload ''exp'' = Some (JNumber e) \<longrightarrow> seconds t < e)
           then Some payload else None))"

lemma jwt_signed:
  assumes "jwt_laws sign jwt" and "no_fraction (JObject payload)"
  shows "jwt key' aud iss (sign key payload) t =
          (if key' = key \<and> map_of payload ''aud'' = Some (JString aud)
              \<and> map_of payload ''iss'' = Some (JString iss)
              \<and> (\<forall>e. map_of payload ''exp'' = Some (JNumber e) \<longrightarrow> seconds t < e)
           then Some payload else None)"
  using assms unfolding jwt_laws_def by blast

lemma issue_payload_fields:
  "no_fraction (JObject (issue_payload iso_text ttl subject now))"
  "map_of (issue_payload iso_text ttl subject now) ''aud'' = Some (JString audience)"
  "map_of (issue_payload iso_text ttl subject now) ''iss'' = Some (JString issuer)"
  "map_of (issue_payload iso_text ttl subject now) ''exp'' = Some (JNumber (seconds now + ttl))"
  by (simp_all add: issue_payload_def Let_def list_all_iff)

lemma claims_of_issue_payload:
  "claims_of (issue_payload iso_text ttl subject now) = Some (issued_claims iso_text ttl subject now)"
  by (simp add: claims_of_def issue_payload_def issued_claims_def Let_def)

lemma ring_verify_signed:
  assumes "jwt_laws sign jwt"
  shows "ring_verify jwt ring (sign key (issue_payload iso_text ttl subject now)) t =
     (if key \<in> set ring \<and> seconds t < seconds now + ttl
      then Some (issue_payload iso_text ttl subject now) else None)"
proof (induction ring)
  case (Cons k ring)
  let ?p = "issue_payload iso_text ttl subject now"
  have "jwt k audience issuer (sign key ?p) t = (if k = key \<and> seconds t < seconds now + ttl then Some ?p else None)"
    using jwt_signed [OF assms issue_payload_fields(1)] by (simp add: issue_payload_fields)
  then show ?case using Cons by auto
qed simp

text \<open>
  C34: A token is good for what it was issued for. A service accepts an issued token exactly when its
  ring holds the secret the token was signed with, wherever in the ring, the time is before the
  second the token expires in, and the tenant and site are the expected ones; it then reads back the
  claims that were issued.
\<close>

theorem token_roundtrip:
  assumes "jwt_laws sign jwt"
  shows "verify_token jwt ring (fst (issue sign iso_text secrets ttl subject now)) expected t =
     (if hd secrets \<in> set ring \<and> seconds t < seconds now + ttl
         \<and> (expected = None \<or> expected = Some (ts_tenantId subject, ts_siteId subject))
      then Some (snd (issue sign iso_text secrets ttl subject now)) else None)"
proof -
  have "opt_ok (\<lambda>(tenantId, siteId). ts_tenantId (issued_claims iso_text ttl subject now) = tenantId
        \<and> ts_siteId (issued_claims iso_text ttl subject now) = siteId) expected
      = (expected = None \<or> expected = Some (ts_tenantId subject, ts_siteId subject))"
    by (cases expected) (auto simp: issued_claims_def)
  then show ?thesis
    using ring_verify_signed [OF assms, of ring "hd secrets"]
    by (simp add: verify_token_def issue_def claims_of_issue_payload)
qed

lemma authenticate_issued:
  assumes "jwt_laws sign jwt" and "hd secrets \<in> set ring" and "seconds t < seconds now + ttl"
    and "scope \<in> set session_scopes"
  shows "\<exists>actor. authenticate jwt ring (Some (''Bearer '' @ fst (issue sign iso_text secrets ttl subject now)))
      scope t = Inr (snd (issue sign iso_text secrets ttl subject now), actor)
     \<and> aa_actorId actor = Some (ts_principalId subject)"
proof -
  have "verify_token jwt ring (fst (issue sign iso_text secrets ttl subject now)) None t
      = Some (issued_claims iso_text ttl subject now)"
    using ring_verify_signed [OF assms(1), of ring "hd secrets"] assms(2,3)
    by (simp add: verify_token_def issue_def claims_of_issue_payload)
  then show ?thesis
    using assms(4) by (auto simp: authenticate_def starts_with_def issue_def issued_claims_def)
qed

subsection \<open>A library that satisfies the laws\<close>

definition sample_sign :: jwt_sign where
  "sample_sign key payload = stringify (JArray [JString key, JObject payload])"

definition sample_jwt :: jwt_verify where
  "sample_jwt key aud iss token t =
     (case json_parse token of
        Some (JArray [JString k, JObject payload]) \<Rightarrow>
          if key = k \<and> map_of payload ''aud'' = Some (JString aud)
             \<and> map_of payload ''iss'' = Some (JString iss)
             \<and> (case map_of payload ''exp'' of Some (JNumber e) \<Rightarrow> seconds t < e | _ \<Rightarrow> True)
          then Some payload else None
      | _ \<Rightarrow> None)"

lemma sample_jwt_laws: "jwt_laws sample_sign sample_jwt"
proof -
  have "json_parse (sample_sign key p) = Some (JArray [JString key, JObject p])"
    if "no_fraction (JObject p)" for key p
    using that unfolding sample_sign_def by (intro json_parse_stringify_gen) simp
  then show ?thesis
    by (auto simp: jwt_laws_def sample_jwt_def split: option.split json.split)
qed

definition sample_subject :: token_subject where
  "sample_subject = \<lparr>ts_tenantId = ''t1'', ts_siteId = ''s1'', ts_agentRef = ''agent'',
     ts_principalId = ''p1'', ts_sessionId = ''b1''\<rparr>"

lemma token_roundtrip_witness:
  "verify_token sample_jwt [''new'', ''old''] (fst (issue sample_sign show_int [''old''] 60 sample_subject 5000))
      None 64999 = Some (snd (issue sample_sign show_int [''old''] 60 sample_subject 5000))
   \<and> verify_token sample_jwt [''new'', ''old''] (fst (issue sample_sign show_int [''old''] 60 sample_subject 5000))
      None 65000 = None"
  unfolding token_roundtrip [OF sample_jwt_laws] by (simp add: seconds_def)

end
