(* ===== verification/Session.thy ===== *)
theory Session
  imports Token Command
begin

text \<open>
  \<open>session/service.ts\<close>: bootstrapping an anonymous browser. The site is found by its public key,
  the request's origin must be one of its allowed origins, the agent is the site's or one of a
  widget's aliases, and one transaction finds or creates the principal of the browser identity and
  its session, under an idempotency key of the site.

  The advisory lock serialises the transactions of one key only, so bootstraps of the same browser
  under different keys interleave: \<open>env k\<close> is what other transactions committed before the
  \<open>k\<close>-th statement, and the two \<open>ON CONFLICT\<close> clauses are what makes that safe.
\<close>

record bootstrap_request =
  br_siteKey :: ident
  br_widgetKey :: "ident option"
  br_agentAlias :: "ident option"
  br_browserIdentity :: "ident option"

record bootstrap_ids =
  bi_browserIdentity :: ident
  bi_principal :: ident
  bi_session :: ident

record session_identity =
  si_principalId :: ident
  si_sessionId :: ident
  si_browserIdentity :: ident

type_synonym db_env = "nat \<Rightarrow> db \<Rightarrow> db"

definition normalizeOrigin :: "(string \<Rightarrow> url option) \<Rightarrow> string \<Rightarrow> string option" where
  "normalizeOrigin url_of value =
     (case url_of value of
        None \<Rightarrow> None
      | Some url \<Rightarrow>
          if u_protocol url \<noteq> ''http:'' \<and> u_protocol url \<noteq> ''https:'' then None
          else Some (u_origin url))"

definition resolveAgentRef ::
  "ident \<Rightarrow> ident \<Rightarrow> ident \<Rightarrow> ident option \<Rightarrow> ident option \<Rightarrow> db \<Rightarrow> failure + ident" where
  "resolveAgentRef tenantId siteId defaultAgentRef widgetKey agentAlias d =
     (if widgetKey = None \<or> widgetKey = Some [] then
        (if agentAlias \<noteq> None \<and> agentAlias \<noteq> Some []
         then Inl (ApiError AGENT_ALIAS_NOT_ALLOWED 403) else Inr defaultAgentRef)
      else (case find (\<lambda>w. w_tenant_id w = tenantId \<and> w_site_id w = siteId
                  \<and> Some (w_widget_key w) = widgetKey) (site_widgets d) of
          None \<Rightarrow> Inl (ApiError WIDGET_NOT_FOUND 404)
        | Some widget \<Rightarrow>
            (let selectedAlias = (case agentAlias of None \<Rightarrow> w_default_agent_alias widget | Some a \<Rightarrow> a)
             in case find (\<lambda>alias. al_alias alias = selectedAlias) (w_agent_aliases widget) of
                  None \<Rightarrow> Inl (ApiError AGENT_ALIAS_NOT_ALLOWED 403)
                | Some match \<Rightarrow> Inr (al_agentRef match))))"

definition bootstrap_text :: "bootstrap_request \<Rightarrow> string" where
  "bootstrap_text request =
     (let opt = (\<lambda>v. case v of None \<Rightarrow> JNull | Some s \<Rightarrow> JString s)
      in stringify (JArray [JString (br_siteKey request), opt (br_widgetKey request),
           opt (br_agentAlias request), opt (br_browserIdentity request)]))"

definition find_bootstrap :: "ident \<Rightarrow> string \<Rightarrow> db \<Rightarrow> bootstrap_key_row option" where
  "find_bootstrap siteId key d =
     find (\<lambda>k. bk_site_id k = siteId \<and> bk_idempotency_key k = key) (session_bootstrap_idempotency d)"

definition find_principal :: "ident \<Rightarrow> ident \<Rightarrow> ident \<Rightarrow> db \<Rightarrow> principal_row option" where
  "find_principal tenantId siteId browserIdentity d =
     find (\<lambda>p. pr_tenant_id p = tenantId \<and> pr_site_id p = siteId
         \<and> pr_browser_identity p = browserIdentity) (principals d)"

definition find_session :: "ident \<Rightarrow> ident \<Rightarrow> ident \<Rightarrow> db \<Rightarrow> browser_session_row option" where
  "find_session tenantId siteId principalId d =
     find (\<lambda>b. bs_tenant_id b = tenantId \<and> bs_site_id b = siteId \<and> bs_principal_id b = principalId)
       (browser_sessions d)"

text \<open>\<open>INSERT ... ON CONFLICT (tenant_id, site_id, browser_identity) DO NOTHING\<close>.\<close>

definition insert_principal_if_new :: "principal_row \<Rightarrow> db \<Rightarrow> failure + db" where
  "insert_principal_if_new p d =
     (if find_principal (pr_tenant_id p) (pr_site_id p) (pr_browser_identity p) d \<noteq> None
      then Inr d else insert_principal p d)"

text \<open>\<open>INSERT ... ON CONFLICT (tenant_id, site_id, principal_id) DO UPDATE SET expires_at\<close>.\<close>

definition extend_session :: "(browser_session_row \<Rightarrow> bool) \<Rightarrow> pg_time \<Rightarrow> db \<Rightarrow> db" where
  "extend_session hit expiresAt d =
     d\<lparr>browser_sessions := update_where hit (\<lambda>b. b\<lparr>bs_expires_at := expiresAt\<rparr>) (browser_sessions d)\<rparr>"

definition insert_or_extend_session :: "browser_session_row \<Rightarrow> db \<Rightarrow> failure + db" where
  "insert_or_extend_session b d =
     (if find_session (bs_tenant_id b) (bs_site_id b) (bs_principal_id b) d \<noteq> None
      then Inr (extend_session (\<lambda>q. bs_tenant_id q = bs_tenant_id b \<and> bs_site_id q = bs_site_id b
             \<and> bs_principal_id q = bs_principal_id b) (bs_expires_at b) d)
      else insert_browser_session b d)"

definition require_principal ::
  "bootstrap_ids \<Rightarrow> pg_time \<Rightarrow> site_row \<Rightarrow> ident \<Rightarrow> db_env \<Rightarrow> db \<Rightarrow> failure + (principal_row \<times> db)" where
  "require_principal ids clock site browserIdentity env d =
     (let find = find_principal (s_tenant_id site) (s_site_id site) browserIdentity; d1 = env 1 d
      in case find d1 of
        Some p \<Rightarrow> Inr (p, d1)
      | None \<Rightarrow>
          and_then (insert_principal_if_new
              \<lparr>pr_principal_id = bi_principal ids, pr_tenant_id = s_tenant_id site,
               pr_site_id = s_site_id site, pr_browser_identity = browserIdentity,
               pr_created_at = clock\<rparr> (env 2 d1)) (\<lambda>d2.
          let d3 = env 3 d2
          in case find d3 of None \<Rightarrow> Inl Unexpected | Some p \<Rightarrow> Inr (p, d3)))"

definition require_session ::
  "bootstrap_ids \<Rightarrow> pg_time \<Rightarrow> js_date \<Rightarrow> site_row \<Rightarrow> ident \<Rightarrow> db_env \<Rightarrow> db
    \<Rightarrow> failure + (browser_session_row \<times> db)" where
  "require_session ids clock expiresAt site principalId env d =
     (let find = find_session (s_tenant_id site) (s_site_id site) principalId; d4 = env 4 d
      in case find d4 of
        Some session \<Rightarrow>
          Inr (session, extend_session (\<lambda>b. bs_tenant_id b = s_tenant_id site
            \<and> bs_site_id b = s_site_id site \<and> bs_session_id b = bs_session_id session)
            (to_pg expiresAt) (env 5 d4))
      | None \<Rightarrow>
          and_then (insert_or_extend_session
              \<lparr>bs_session_id = bi_session ids, bs_tenant_id = s_tenant_id site,
               bs_site_id = s_site_id site, bs_principal_id = principalId, bs_created_at = clock,
               bs_expires_at = to_pg expiresAt\<rparr> (env 5 d4)) (\<lambda>d5.
          let d6 = env 6 d5
          in case find d6 of None \<Rightarrow> Inl Unexpected | Some session \<Rightarrow> Inr (session, d6)))"

definition bootstrap_transaction ::
  "string \<Rightarrow> bootstrap_ids \<Rightarrow> pg_time \<Rightarrow> js_date \<Rightarrow> site_row \<Rightarrow> bootstrap_request \<Rightarrow> string
    \<Rightarrow> db_env \<Rightarrow> db \<Rightarrow> failure + (session_identity \<times> db)" where
  "bootstrap_transaction requestHash ids clock expiresAt site request key env d =
     (let d0 = env 0 d; previous = find_bootstrap (s_site_id site) key d0
      in if \<exists>p. previous = Some p \<and> bk_request_hash p \<noteq> requestHash
         then Inl (ApiError IDEMPOTENCY_KEY_REUSED 409)
         else (let browserIdentity = (case previous of
                 Some p \<Rightarrow> bk_browser_identity p
               | None \<Rightarrow> (case br_browserIdentity request of
                   Some b \<Rightarrow> b | None \<Rightarrow> bi_browserIdentity ids))
           in and_then (require_principal ids clock site browserIdentity env d0) (\<lambda>(owner, d1).
              and_then (require_session ids clock expiresAt site (pr_principal_id owner) env d1)
                (\<lambda>(session, d2).
              and_then (if previous = None
                  then insert_bootstrap_key \<lparr>bk_site_id = s_site_id site, bk_idempotency_key = key,
                    bk_request_hash = requestHash, bk_browser_identity = browserIdentity,
                    bk_created_at = clock\<rparr> (env 7 d2)
                  else Inr d2) (\<lambda>d3.
              Inr (\<lparr>si_principalId = pr_principal_id owner, si_sessionId = bs_session_id session,
                    si_browserIdentity = browserIdentity\<rparr>, d3))))))"

record bootstrap_response =
  bp_accessToken :: string
  bp_expiresAt :: "json option"
  bp_tenantId :: ident
  bp_siteId :: ident
  bp_agentRef :: ident
  bp_identity :: session_identity

record token_service =
  tk_sign :: jwt_sign
  tk_isoText :: "js_date \<Rightarrow> string"
  tk_secrets :: "string list"
  tk_ttlSeconds :: int

definition bootstrapAnonymous ::
  "(string \<Rightarrow> url option) \<Rightarrow> (string \<Rightarrow> string) \<Rightarrow> token_service \<Rightarrow> bootstrap_ids \<Rightarrow> pg_time
    \<Rightarrow> js_date \<Rightarrow> bootstrap_request \<Rightarrow> string \<Rightarrow> string \<Rightarrow> db_env \<Rightarrow> db
    \<Rightarrow> failure + (bootstrap_response \<times> db)" where
  "bootstrapAnonymous url_of sha256 tk ids clock now request origin key env d =
     (case find (\<lambda>s. s_site_key s = br_siteKey request) (sites d) of
        None \<Rightarrow> Inl (ApiError SITE_NOT_FOUND 404)
      | Some site \<Rightarrow>
          (let normal = normalizeOrigin url_of origin;
               allowed = list_ex (\<lambda>c. normalizeOrigin url_of c = normal) (s_allowed_origins site)
           in if normal = None \<or> normal = Some [] \<or> \<not> allowed then Inl (ApiError ORIGIN_NOT_ALLOWED 403)
              else and_then (resolveAgentRef (s_tenant_id site) (s_site_id site) (s_agent_ref site)
                    (br_widgetKey request) (br_agentAlias request) d) (\<lambda>agentRef.
                and_then (bootstrap_transaction (sha256 (bootstrap_text request)) ids clock
                    (now + tk_ttlSeconds tk * 1000) site request key env d) (\<lambda>(identity, d').
                let (token, claims) = issue (tk_sign tk) (tk_isoText tk) (tk_secrets tk) (tk_ttlSeconds tk)
                      \<lparr>ts_tenantId = s_tenant_id site, ts_siteId = s_site_id site, ts_agentRef = agentRef,
                       ts_principalId = si_principalId identity, ts_sessionId = si_sessionId identity\<rparr> now
                in Inr (\<lparr>bp_accessToken = token, bp_expiresAt = cl_expiresAt claims,
                    bp_tenantId = s_tenant_id site, bp_siteId = s_site_id site,
                    bp_agentRef = agentRef, bp_identity = identity\<rparr>, d')))))"

subsection \<open>What a bootstrap leaves known\<close>

definition principal_of :: "ident \<Rightarrow> ident \<Rightarrow> ident \<Rightarrow> db \<Rightarrow> ident option" where
  "principal_of t s b d = map_option pr_principal_id (find_principal t s b d)"

definition session_of :: "ident \<Rightarrow> ident \<Rightarrow> ident \<Rightarrow> db \<Rightarrow> ident option" where
  "session_of t s p d = map_option bs_session_id (find_session t s p d)"

definition key_of :: "ident \<Rightarrow> string \<Rightarrow> db \<Rightarrow> (string \<times> ident) option" where
  "key_of s key d = map_option (\<lambda>k. (bk_request_hash k, bk_browser_identity k)) (find_bootstrap s key d)"

text \<open>What others may do: who a browser, a principal and a key stand for never changes.\<close>

definition identities :: "db \<Rightarrow> ident \<times> ident \<times> ident \<Rightarrow> ident option" where
  "identities d = (\<lambda>(t, s, b). principal_of t s b d)"

definition sessions :: "db \<Rightarrow> ident \<times> ident \<times> ident \<Rightarrow> ident option" where
  "sessions d = (\<lambda>(t, s, p). session_of t s p d)"

definition keys :: "db \<Rightarrow> ident \<times> string \<Rightarrow> (string \<times> ident) option" where
  "keys d = (\<lambda>(s, key). key_of s key d)"

definition keeps_identities :: "db \<Rightarrow> db \<Rightarrow> bool" where
  "keeps_identities d d' \<longleftrightarrow>
     identities d \<subseteq>\<^sub>m identities d' \<and> sessions d \<subseteq>\<^sub>m sessions d' \<and> keys d \<subseteq>\<^sub>m keys d'"

definition env_keeps :: "db_env \<Rightarrow> bool" where
  "env_keeps env \<longleftrightarrow> (\<forall>k d. keeps_identities d (env k d))"

lemma keeps_refl [simp]: "keeps_identities d d"
  by (simp add: keeps_identities_def)

lemma keeps_trans [trans]: "keeps_identities d d' \<Longrightarrow> keeps_identities d' d'' \<Longrightarrow> keeps_identities d d''"
  by (auto simp: keeps_identities_def intro: map_le_trans)

lemma map_le_Some: "f \<subseteq>\<^sub>m g \<Longrightarrow> f x = Some y \<Longrightarrow> g x = Some y"
  by (auto simp: map_le_def dom_def)

lemma keeps_principal: "keeps_identities d d' \<Longrightarrow> principal_of t s b d = Some x \<Longrightarrow> principal_of t s b d' = Some x"
  using map_le_Some [of "identities d" "identities d'" "(t, s, b)"]
  by (simp add: keeps_identities_def identities_def)

lemma keeps_session: "keeps_identities d d' \<Longrightarrow> session_of t s p d = Some x \<Longrightarrow> session_of t s p d' = Some x"
  using map_le_Some [of "sessions d" "sessions d'" "(t, s, p)"]
  by (simp add: keeps_identities_def sessions_def)

lemma keeps_key: "keeps_identities d d' \<Longrightarrow> key_of s key d = Some y \<Longrightarrow> key_of s key d' = Some y"
  using map_le_Some [of "keys d" "keys d'" "(s, key)"]
  by (simp add: keeps_identities_def keys_def)

lemma env_keepsD: "env_keeps env \<Longrightarrow> keeps_identities d (env k d)"
  by (simp add: env_keeps_def)

text \<open>Appending rows keeps every identity.\<close>

lemma keeps_appended:
  assumes "principals d' = principals d @ ps" and "browser_sessions d' = browser_sessions d @ bs"
    and "session_bootstrap_idempotency d' = session_bootstrap_idempotency d @ ks"
  shows "keeps_identities d d'"
  using assms
  by (auto simp: keeps_identities_def identities_def sessions_def keys_def map_le_def principal_of_def
      session_of_def key_of_def find_principal_def find_session_def find_bootstrap_def find_append)

lemma extended_views [simp]:
  "session_of t s p (extend_session hit e d) = session_of t s p d"
  "principal_of t s b (extend_session hit e d) = principal_of t s b d"
  "key_of s key (extend_session hit e d) = key_of s key d"
  by (auto simp: session_of_def find_session_def principal_of_def find_principal_def key_of_def
      find_bootstrap_def extend_session_def find_update_where option.map_comp comp_def
      intro!: arg_cong2 [where f = map_option])

lemma keeps_extended: "keeps_identities d (extend_session hit t d)"
  by (simp add: keeps_identities_def identities_def sessions_def keys_def)

lemma keeps_insert_principal: "insert_principal_if_new p d = Inr d' \<Longrightarrow> keeps_identities d d'"
  by (auto simp: insert_principal_if_new_def insert_principal_def split: if_splits intro!: keeps_appended)

lemma keeps_insert_session: "insert_or_extend_session b d = Inr d' \<Longrightarrow> keeps_identities d d'"
  by (cases "find_session (bs_tenant_id b) (bs_site_id b) (bs_principal_id b) d")
    (auto simp: insert_or_extend_session_def insert_browser_session_def split: if_splits
      intro: keeps_extended keeps_appended)

lemma require_principal_result:
  assumes "require_principal ids clock site b env d = Inr (p, d')" and "env_keeps env"
  shows "keeps_identities d d' \<and> principal_of (s_tenant_id site) (s_site_id site) b d' = Some (pr_principal_id p)"
proof (cases "find_principal (s_tenant_id site) (s_site_id site) b (env 1 d)")
  case None
  then obtain d2 where step: "keeps_identities (env 2 (env 1 d)) d2"
    and d2: "d' = env 3 d2" "find_principal (s_tenant_id site) (s_site_id site) b d' = Some p"
    using assms(1) by (auto simp: require_principal_def Let_def split: option.splits
        dest!: keeps_insert_principal)
  have "keeps_identities d (env 1 d)" by (rule env_keepsD [OF assms(2)])
  also have "keeps_identities \<dots> (env 2 (env 1 d))" by (rule env_keepsD [OF assms(2)])
  also note step
  also have "keeps_identities d2 d'" unfolding d2(1) by (rule env_keepsD [OF assms(2)])
  finally show ?thesis using d2(2) by (simp add: principal_of_def)
next
  case (Some q)
  then show ?thesis
    using assms(1) env_keepsD [OF assms(2)] by (auto simp: require_principal_def Let_def principal_of_def)
qed

lemma require_session_result:
  assumes "require_session ids clock e site p env d = Inr (b, d')" and "env_keeps env"
  shows "keeps_identities d d' \<and> session_of (s_tenant_id site) (s_site_id site) p d' = Some (bs_session_id b)"
proof -
  have "keeps_identities d (env 4 d)" by (rule env_keepsD [OF assms(2)])
  also have late: "keeps_identities (env 4 d) (env 5 (env 4 d))" by (rule env_keepsD [OF assms(2)])
  finally have chain: "keeps_identities d (env 5 (env 4 d))" .
  show ?thesis
  proof (cases "find_session (s_tenant_id site) (s_site_id site) p (env 4 d)")
    case None
    then obtain d5 where step: "keeps_identities (env 5 (env 4 d)) d5"
      and d5: "d' = env 6 d5" "find_session (s_tenant_id site) (s_site_id site) p d' = Some b"
      using assms(1) by (auto simp: require_session_def Let_def split: option.splits
          dest!: keeps_insert_session)
    note chain
    also note step
    also have "keeps_identities d5 d'" unfolding d5(1) by (rule env_keepsD [OF assms(2)])
    finally show ?thesis using d5(2) by (simp add: session_of_def)
  next
    case (Some q)
    then have "session_of (s_tenant_id site) (s_site_id site) p (env 5 (env 4 d)) = Some (bs_session_id q)"
      by (intro keeps_session [OF late]) (simp add: session_of_def)
    with Some show ?thesis
      using assms(1) keeps_trans [OF chain keeps_extended] by (auto simp: require_session_def Let_def)
  qed
qed

lemma insert_bootstrap_key_result:
  assumes "insert_bootstrap_key k d = Inr d'"
  shows "keeps_identities d d' \<and> key_of (bk_site_id k) (bk_idempotency_key k) d'
     = Some (bk_request_hash k, bk_browser_identity k)"
proof -
  have fresh: "\<forall>q \<in> set (session_bootstrap_idempotency d).
      \<not> (bk_site_id q = bk_site_id k \<and> bk_idempotency_key q = bk_idempotency_key k)"
    and d': "d' = d\<lparr>session_bootstrap_idempotency := session_bootstrap_idempotency d @ [k]\<rparr>"
    using assms by (auto simp: insert_bootstrap_key_def split: if_splits)
  have "find (\<lambda>q. bk_site_id q = bk_site_id k \<and> bk_idempotency_key q = bk_idempotency_key k)
      (session_bootstrap_idempotency d) = None"
    using fresh by (auto simp: find_None_iff)
  moreover have "keeps_identities d d'"
    by (rule keeps_appended [where ps = "[]" and bs = "[]" and ks = "[k]"]) (simp_all add: d')
  ultimately show ?thesis by (simp add: key_of_def find_bootstrap_def find_append d')
qed

lemma bootstrap_known:
  assumes "bootstrap_transaction h ids clock e site req key env d = Inr (idn, d')" and "env_keeps env"
  shows "keeps_identities d d'
     \<and> principal_of (s_tenant_id site) (s_site_id site) (si_browserIdentity idn) d' = Some (si_principalId idn)
     \<and> session_of (s_tenant_id site) (s_site_id site) (si_principalId idn) d' = Some (si_sessionId idn)
     \<and> key_of (s_site_id site) key d' = Some (h, si_browserIdentity idn)"
proof -
  define previous where "previous = find_bootstrap (s_site_id site) key (env 0 d)"
  define b where "b = (case previous of Some p \<Rightarrow> bk_browser_identity p
      | None \<Rightarrow> (case br_browserIdentity req of Some b \<Rightarrow> b | None \<Rightarrow> bi_browserIdentity ids))"
  obtain p d1 x d2 where p: "require_principal ids clock site b env (env 0 d) = Inr (p, d1)"
    and x: "require_session ids clock e site (pr_principal_id p) env d1 = Inr (x, d2)"
    and final: "(if previous = None
        then insert_bootstrap_key \<lparr>bk_site_id = s_site_id site, bk_idempotency_key = key,
          bk_request_hash = h, bk_browser_identity = b, bk_created_at = clock\<rparr> (env 7 d2)
        else Inr d2) = Inr d'"
    and idn: "idn = \<lparr>si_principalId = pr_principal_id p, si_sessionId = bs_session_id x,
        si_browserIdentity = b\<rparr>"
    and hash: "\<And>q. previous = Some q \<Longrightarrow> bk_request_hash q = h"
    using assms(1) unfolding bootstrap_transaction_def Let_def previous_def [symmetric] b_def [symmetric]
    by (auto split: if_splits prod.splits)
  note P = require_principal_result [OF p assms(2)] and X = require_session_result [OF x assms(2)]
  have start: "keeps_identities d (env 0 d)" by (rule env_keepsD [OF assms(2)])
  have d2d': "keeps_identities d2 d' \<and> key_of (s_site_id site) key d' = Some (h, b)"
  proof (cases previous)
    case None
    then have "insert_bootstrap_key \<lparr>bk_site_id = s_site_id site, bk_idempotency_key = key,
          bk_request_hash = h, bk_browser_identity = b, bk_created_at = clock\<rparr> (env 7 d2) = Inr d'"
      using final by simp
    from insert_bootstrap_key_result [OF this] show ?thesis
      using keeps_trans [OF env_keepsD [OF assms(2), of d2 7]] by simp
  next
    case (Some q)
    then have "key_of (s_site_id site) key (env 0 d) = Some (h, b)"
      using hash by (simp add: previous_def key_of_def b_def)
    then have "key_of (s_site_id site) key d2 = Some (h, b)"
      using P X keeps_trans keeps_key by blast
    with Some final show ?thesis by simp
  qed
  have "keeps_identities d d'" using start P X d2d' keeps_trans by blast
  moreover have "principal_of (s_tenant_id site) (s_site_id site) b d' = Some (pr_principal_id p)"
    using P X d2d' keeps_trans keeps_principal by blast
  moreover have "session_of (s_tenant_id site) (s_site_id site) (pr_principal_id p) d' = Some (bs_session_id x)"
    using X d2d' keeps_session by blast
  ultimately show ?thesis using d2d' idn by simp
qed

lemma bootstrap_replays:
  assumes "key_of (s_site_id site) key d = Some (h, si_browserIdentity idn)" and "env_keeps env"
    and "principal_of (s_tenant_id site) (s_site_id site) (si_browserIdentity idn) d = Some (si_principalId idn)"
    and "session_of (s_tenant_id site) (s_site_id site) (si_principalId idn) d = Some (si_sessionId idn)"
  shows "\<exists>d'. bootstrap_transaction h ids clock e site req key env d = Inr (idn, d')"
proof -
  let ?d0 = "env 0 d" and ?t = "s_tenant_id site" and ?s = "s_site_id site"
  have d0: "keeps_identities d ?d0" and d1: "keeps_identities ?d0 (env 1 ?d0)"
    and d4: "keeps_identities (env 1 ?d0) (env 4 (env 1 ?d0))"
    using env_keepsD [OF assms(2)] by simp_all
  obtain k where k: "find_bootstrap ?s key ?d0 = Some k" "bk_request_hash k = h"
    "bk_browser_identity k = si_browserIdentity idn"
    using keeps_key [OF d0 assms(1)] by (auto simp: key_of_def)
  obtain p where p: "find_principal ?t ?s (si_browserIdentity idn) (env 1 ?d0) = Some p"
    "pr_principal_id p = si_principalId idn"
    using keeps_principal [OF keeps_trans [OF d0 d1] assms(3)] by (auto simp: principal_of_def)
  obtain x where x: "find_session ?t ?s (si_principalId idn) (env 4 (env 1 ?d0)) = Some x"
    "bs_session_id x = si_sessionId idn"
    using keeps_session [OF keeps_trans [OF keeps_trans [OF d0 d1] d4] assms(4)]
    by (auto simp: session_of_def)
  show ?thesis
    using k p x by (simp add: bootstrap_transaction_def Let_def require_principal_def require_session_def)
qed

text \<open>
  C35: A browser keeps its identity. Once a bootstrap succeeded, whatever other transactions do
  meanwhile as long as they keep the identities known so far (which every bootstrap itself does), the
  same request under the same key succeeds again with the same principal, session and browser
  identity, and a different request under that key is refused.
\<close>

theorem bootstrap_retry_same_identity:
  assumes "bootstrap_transaction h ids clock e site req key env d = Inr (idn, d')"
    and "env_keeps env" and "env_keeps env'" and "keeps_identities d' d''"
  shows "keeps_identities d d'
     \<and> (\<exists>d3. bootstrap_transaction h ids' clock' e' site req' key env' d'' = Inr (idn, d3)
          \<and> keeps_identities d'' d3)
     \<and> (h' \<noteq> h \<longrightarrow> bootstrap_transaction h' ids' clock' e' site req' key env' d''
          = Inl (ApiError IDEMPOTENCY_KEY_REUSED 409))"
proof -
  note known = bootstrap_known [OF assms(1,2)]
  have known': "key_of (s_site_id site) key d'' = Some (h, si_browserIdentity idn)"
    "principal_of (s_tenant_id site) (s_site_id site) (si_browserIdentity idn) d'' = Some (si_principalId idn)"
    "session_of (s_tenant_id site) (s_site_id site) (si_principalId idn) d'' = Some (si_sessionId idn)"
    using known keeps_key [OF assms(4)] keeps_principal [OF assms(4)] keeps_session [OF assms(4)]
    by blast+
  obtain d3 where "bootstrap_transaction h ids' clock' e' site req' key env' d'' = Inr (idn, d3)"
    using bootstrap_replays [OF known'(1) assms(3) known'(2,3)] by blast
  moreover from bootstrap_known [OF this assms(3)] have "keeps_identities d'' d3" by blast
  moreover have "key_of (s_site_id site) key (env' 0 d'') = Some (h, si_browserIdentity idn)"
    by (rule keeps_key [OF env_keepsD [OF assms(3)] known'(1)])
  then have "h' \<noteq> h \<longrightarrow> bootstrap_transaction h' ids' clock' e' site req' key env' d''
      = Inl (ApiError IDEMPOTENCY_KEY_REUSED 409)"
    by (auto simp: bootstrap_transaction_def Let_def key_of_def)
  ultimately show ?thesis using known by blast
qed

subsection \<open>What a bootstrap grants\<close>

definition agent_allowed :: "db \<Rightarrow> site_row \<Rightarrow> ident \<Rightarrow> bool" where
  "agent_allowed d site agentRef \<longleftrightarrow> agentRef = s_agent_ref site
     \<or> exists_row (\<lambda>w. w_tenant_id w = s_tenant_id site \<and> w_site_id w = s_site_id site
         \<and> agentRef \<in> set (map al_agentRef (w_agent_aliases w))) (site_widgets d)"

lemma resolveAgentRef_allowed:
  "resolveAgentRef (s_tenant_id site) (s_site_id site) (s_agent_ref site) w a d = Inr agentRef
     \<Longrightarrow> agent_allowed d site agentRef"
  by (fastforce simp: resolveAgentRef_def agent_allowed_def Let_def split: if_splits option.splits
      dest!: find_SomeD)

text \<open>
  A bootstrap grants access to one site and no more. It succeeds only for a site with the
  request's key that allows the request's origin; the agent is the site's own or one of its widgets';
  and until the token expires every server whose ring holds the signing secret authenticates it, for
  each session scope, as the bootstrapped principal of that tenant, site and agent.
\<close>

theorem bootstrap_grants_site:
  assumes "bootstrapAnonymous url_of sha256 tk ids clock now req origin key env d = Inr (resp, d')"
    and "jwt_laws (tk_sign tk) jwt" and "hd (tk_secrets tk) \<in> set ring" and "scope \<in> set session_scopes"
    and "seconds t < seconds now + tk_ttlSeconds tk"
  shows "\<exists>site \<in> set (sites d). s_site_key site = br_siteKey req
     \<and> (\<exists>c \<in> set (s_allowed_origins site). normalizeOrigin url_of c = normalizeOrigin url_of origin
          \<and> normalizeOrigin url_of c \<noteq> None)
     \<and> agent_allowed d site (bp_agentRef resp)
     \<and> (\<exists>claims actor. authenticate jwt ring (Some (''Bearer '' @ bp_accessToken resp)) scope t = Inr (claims, actor)
          \<and> ts_tenantId claims = s_tenant_id site \<and> ts_siteId claims = s_site_id site
          \<and> ts_agentRef claims = bp_agentRef resp
          \<and> ts_principalId claims = si_principalId (bp_identity resp)
          \<and> aa_actorId actor = Some (si_principalId (bp_identity resp)))"
proof -
  obtain site where site: "find (\<lambda>s. s_site_key s = br_siteKey req) (sites d) = Some site"
    using assms(1) by (auto simp: bootstrapAnonymous_def split: option.splits)
  let ?subject = "\<lparr>ts_tenantId = s_tenant_id site, ts_siteId = s_site_id site, ts_agentRef = bp_agentRef resp,
      ts_principalId = si_principalId (bp_identity resp), ts_sessionId = si_sessionId (bp_identity resp)\<rparr>"
  have origin: "normalizeOrigin url_of origin \<noteq> None"
    "list_ex (\<lambda>c. normalizeOrigin url_of c = normalizeOrigin url_of origin) (s_allowed_origins site)"
    and agent: "resolveAgentRef (s_tenant_id site) (s_site_id site) (s_agent_ref site) (br_widgetKey req)
      (br_agentAlias req) d = Inr (bp_agentRef resp)"
    and token: "bp_accessToken resp
      = fst (issue (tk_sign tk) (tk_isoText tk) (tk_secrets tk) (tk_ttlSeconds tk) ?subject now)"
    using assms(1) site by (auto simp: bootstrapAnonymous_def Let_def issue_def split: if_splits)
  have "site \<in> set (sites d)" "s_site_key site = br_siteKey req" using site by (auto dest: find_SomeD)
  moreover have "\<exists>c \<in> set (s_allowed_origins site). normalizeOrigin url_of c = normalizeOrigin url_of origin
      \<and> normalizeOrigin url_of c \<noteq> None"
    using origin by (auto simp: list_ex_iff)
  moreover have "agent_allowed d site (bp_agentRef resp)" by (rule resolveAgentRef_allowed [OF agent])
  moreover have "\<exists>claims actor. authenticate jwt ring (Some (''Bearer '' @ bp_accessToken resp)) scope t
        = Inr (claims, actor)
      \<and> ts_tenantId claims = s_tenant_id site \<and> ts_siteId claims = s_site_id site
      \<and> ts_agentRef claims = bp_agentRef resp
      \<and> ts_principalId claims = si_principalId (bp_identity resp)
      \<and> aa_actorId actor = Some (si_principalId (bp_identity resp))"
    using authenticate_issued [OF assms(2,3,5,4), of "tk_isoText tk" ?subject]
    unfolding token by (auto simp: issue_def issued_claims_def)
  ultimately show ?thesis by blast
qed

subsection \<open>Concrete instances\<close>

definition sample_url_of :: "string \<Rightarrow> url option" where
  "sample_url_of v =
     (if starts_with ''https://'' v then Some \<lparr>u_protocol = ''https:'', u_username = [], u_password = [],
        u_pathname = ''/'', u_search = [], u_hash = [], u_origin = v, u_href = v @ ''/''\<rparr> else None)"

definition sample_tokens :: token_service where
  "sample_tokens = \<lparr>tk_sign = sample_sign, tk_isoText = show_int, tk_secrets = [''old''],
     tk_ttlSeconds = 60\<rparr>"

definition sample_bootstrap :: bootstrap_request where
  "sample_bootstrap = \<lparr>br_siteKey = ''key'', br_widgetKey = None, br_agentAlias = None,
     br_browserIdentity = None\<rparr>"

definition sample_bootstrap_ids :: bootstrap_ids where
  "sample_bootstrap_ids = \<lparr>bi_browserIdentity = ''b2'', bi_principal = ''p2'', bi_session = ''x2''\<rparr>"

lemmas sample_session_defs = sample_url_of_def sample_tokens_def sample_bootstrap_def
  sample_bootstrap_ids_def sample_defs starts_with_def

lemma sample_bootstrapped:
  "\<exists>resp d'. bootstrapAnonymous sample_url_of (\<lambda>_. []) sample_tokens sample_bootstrap_ids 5000000 5000
     sample_bootstrap ''https://a'' ''k'' (\<lambda>_ d. d) sample_db = Inr (resp, d')"
  by (simp add: bootstrapAnonymous_def normalizeOrigin_def resolveAgentRef_def bootstrap_transaction_def
      Let_def find_bootstrap_def require_principal_def find_principal_def insert_principal_if_new_def
      require_session_def find_session_def insert_or_extend_session_def constraint_defs
      sample_session_defs issue_def)

lemma bootstrap_grants_site_witness:
  "\<exists>resp d' claims actor. bootstrapAnonymous sample_url_of (\<lambda>_. []) sample_tokens sample_bootstrap_ids
       5000000 5000 sample_bootstrap ''https://a'' ''k'' (\<lambda>_ d. d) sample_db = Inr (resp, d')
     \<and> authenticate sample_jwt [''new'', ''old''] (Some (''Bearer '' @ bp_accessToken resp)) ''inputs:write'' 9000
       = Inr (claims, actor)"
proof -
  obtain resp d' where boot: "bootstrapAnonymous sample_url_of (\<lambda>_. []) sample_tokens sample_bootstrap_ids
      5000000 5000 sample_bootstrap ''https://a'' ''k'' (\<lambda>_ d. d) sample_db = Inr (resp, d')"
    using sample_bootstrapped by blast
  have "jwt_laws (tk_sign sample_tokens) sample_jwt" "hd (tk_secrets sample_tokens) \<in> set [''new'', ''old'']"
    "''inputs:write'' \<in> set session_scopes" "seconds 9000 < seconds 5000 + tk_ttlSeconds sample_tokens"
    by (simp_all add: sample_tokens_def sample_jwt_laws session_scopes_def seconds_def)
  from bootstrap_grants_site [OF boot this] boot show ?thesis by blast
qed

lemma bootstrap_retry_same_identity_witness:
  "\<exists>idn d'. bootstrap_transaction ''h'' sample_bootstrap_ids 0 5 (hd (sites sample_db)) sample_bootstrap ''k''
       (\<lambda>_ d. d) sample_db = Inr (idn, d')
     \<and> (\<exists>d3. bootstrap_transaction ''h'' \<lparr>bi_browserIdentity = ''b3'', bi_principal = ''p3'', bi_session = ''x3''\<rparr>
          1 6 (hd (sites sample_db)) sample_bootstrap ''k'' (\<lambda>_ d. d) d' = Inr (idn, d3))"
proof -
  obtain idn d' where boot: "bootstrap_transaction ''h'' sample_bootstrap_ids 0 5 (hd (sites sample_db))
      sample_bootstrap ''k'' (\<lambda>_ d. d) sample_db = Inr (idn, d')"
    by (simp add: bootstrap_transaction_def Let_def find_bootstrap_def require_principal_def
      find_principal_def insert_principal_if_new_def require_session_def find_session_def
      insert_or_extend_session_def constraint_defs sample_session_defs)
  have "env_keeps (\<lambda>_ d. d)" by (simp add: env_keeps_def)
  from bootstrap_retry_same_identity [OF boot this this keeps_refl] boot show ?thesis by blast
qed

end
