(* ===== verification/Retention.thy ===== *)
theory Retention
  imports EmailHandoff Session Conversation
begin

text \<open>
  \<open>privacy/retention.ts\<close>: one sweep of the retention worker, in one transaction: contact values
  older than their hours are redacted, up to 100 expired anonymous conversations are deleted with
  everything that belongs to them, old idempotency keys and expired sessions are deleted, and up to
  100 old principals without a conversation.

  A \<open>DELETE\<close> applies the foreign keys of the migrations: it cascades, or fails where the key
  restricts. The two queries with \<open>LIMIT 100\<close> have no order, so which rows they take is the
  parameter \<open>pick\<close>; \<open>limit_rows\<close> says what any of them does.
\<close>

record retention_policy =
  rp_anonymousDays :: int
  rp_authenticatedDays :: int
  rp_contactValueHours :: int

record retention_result =
  rr_conversationsDeleted :: nat
  rr_principalsDeleted :: nat
  rr_contactValuesRedacted :: nat

definition limit_rows :: "nat \<Rightarrow> ('r list \<Rightarrow> 'r list) \<Rightarrow> bool" where
  "limit_rows n pick \<longleftrightarrow> (\<forall>rows. set (pick rows) \<subseteq> set rows \<and> length (pick rows) \<le> n
     \<and> (length rows \<le> n \<longrightarrow> set (pick rows) = set rows))"

subsection \<open>Deletions and their foreign keys\<close>

text \<open>Handoffs and input requests cascade from runs, runs from messages and conversations.\<close>

definition delete_runs :: "(run_row \<Rightarrow> bool) \<Rightarrow> db \<Rightarrow> db" where
  "delete_runs p d =
     (let gone = (\<lambda>runId. exists_row (\<lambda>r. p r \<and> r_run_id r = runId) (agent_runs d))
      in d\<lparr>agent_runs := delete_where p (agent_runs d),
           handoffs := delete_where (\<lambda>h. gone (h_run_id h)) (handoffs d),
           structured_input_requests := delete_where (\<lambda>i. gone (i_run_id i)) (structured_input_requests d)\<rparr>)"

definition delete_messages :: "(message_row \<Rightarrow> bool) \<Rightarrow> db \<Rightarrow> db" where
  "delete_messages p d =
     delete_runs (\<lambda>r. exists_row (\<lambda>m. p m \<and> m_message_id m = r_trigger_message_id r) (messages d))
       (d\<lparr>messages := delete_where p (messages d)\<rparr>)"

definition message_of_participant :: "participant_row \<Rightarrow> message_row \<Rightarrow> bool" where
  "message_of_participant p m \<longleftrightarrow> m_tenant_id m = cp_tenant_id p \<and> m_site_id m = cp_site_id p
     \<and> m_conversation_id m = cp_conversation_id p \<and> m_participant_id m = cp_participant_id p"

definition delete_participants :: "(participant_row \<Rightarrow> bool) \<Rightarrow> db \<Rightarrow> failure + db" where
  "delete_participants p d =
     (if exists_row (\<lambda>x. p x \<and> exists_row (message_of_participant x) (messages d))
           (conversation_participants d)
      then Inl Unexpected
      else Inr (d\<lparr>conversation_participants := delete_where p (conversation_participants d)\<rparr>))"

definition same_conversation :: "conversation_row \<Rightarrow> ident \<Rightarrow> ident \<Rightarrow> ident \<Rightarrow> bool" where
  "same_conversation c t s cid \<longleftrightarrow>
     t = c_tenant_id c \<and> s = c_site_id c \<and> cid = c_conversation_id c"

definition delete_conversations :: "(conversation_row \<Rightarrow> bool) \<Rightarrow> db \<Rightarrow> failure + db" where
  "delete_conversations p d =
     (let gone = (\<lambda>t s cid. exists_row (\<lambda>c. p c \<and> same_conversation c t s cid) (conversations d))
      in delete_participants (\<lambda>x. gone (cp_tenant_id x) (cp_site_id x) (cp_conversation_id x))
           (delete_runs (\<lambda>r. gone (r_tenant_id r) (r_site_id r) (r_conversation_id r))
             (d\<lparr>conversations := delete_where p (conversations d),
                conversation_events := delete_where
                  (\<lambda>e. gone (e_tenant_id e) (e_site_id e) (e_conversation_id e))
                  (conversation_events d)\<rparr>)))"

definition delete_principals :: "(principal_row \<Rightarrow> bool) \<Rightarrow> db \<Rightarrow> failure + db" where
  "delete_principals p d =
     (let gone = (\<lambda>t s prin. exists_row (\<lambda>x. p x \<and> pr_tenant_id x = t \<and> pr_site_id x = s
            \<and> pr_principal_id x = prin) (principals d))
      in if exists_row (\<lambda>c. gone (c_tenant_id c) (c_site_id c) (c_principal_id c)) (conversations d)
         then Inl Unexpected
         else Inr (d\<lparr>principals := delete_where p (principals d),
           browser_sessions := delete_where
             (\<lambda>b. gone (bs_tenant_id b) (bs_site_id b) (bs_principal_id b)) (browser_sessions d)\<rparr>))"

subsection \<open>A sweep\<close>

definition delete_contents :: "conversation_row \<Rightarrow> db \<Rightarrow> db" where
  "delete_contents c d =
     (let here = same_conversation c;
          d1 = d\<lparr>structured_input_requests := delete_where
                   (\<lambda>i. here (i_tenant_id i) (i_site_id i) (i_conversation_id i))
                   (structured_input_requests d)\<rparr>;
          d2 = d1\<lparr>handoffs := delete_where
                   (\<lambda>h. here (h_tenant_id h) (h_site_id h) (h_conversation_id h)) (handoffs d1)\<rparr>;
          d3 = delete_runs (\<lambda>r. here (r_tenant_id r) (r_site_id r) (r_conversation_id r)) d2;
          d4 = d3\<lparr>conversation_events := delete_where
                   (\<lambda>e. here (e_tenant_id e) (e_site_id e) (e_conversation_id e))
                   (conversation_events d3)\<rparr>
      in delete_messages (\<lambda>m. here (m_tenant_id m) (m_site_id m) (m_conversation_id m)) d4)"

definition deleteConversation :: "conversation_row \<Rightarrow> db \<Rightarrow> failure + db" where
  "deleteConversation c d =
     (let here = same_conversation c
      in and_then (delete_participants
             (\<lambda>p. here (cp_tenant_id p) (cp_site_id p) (cp_conversation_id p)) (delete_contents c d)) (\<lambda>d6.
         delete_conversations
           (\<lambda>x. here (c_tenant_id x) (c_site_id x) (c_conversation_id x)) d6))"

fun delete_each :: "conversation_row list \<Rightarrow> db \<Rightarrow> failure + db" where
  "delete_each [] d = Inr d"
| "delete_each (c # cs) d = and_then (deleteConversation c d) (delete_each cs)"

definition has_conversation :: "principal_row \<Rightarrow> db \<Rightarrow> bool" where
  "has_conversation p d \<longleftrightarrow> exists_row (\<lambda>c. c_tenant_id c = pr_tenant_id p \<and> c_site_id c = pr_site_id p
     \<and> c_principal_id c = pr_principal_id p) (conversations d)"

definition same_principal :: "principal_row \<Rightarrow> principal_row \<Rightarrow> bool" where
  "same_principal p q \<longleftrightarrow> pr_tenant_id q = pr_tenant_id p \<and> pr_site_id q = pr_site_id p
     \<and> pr_principal_id q = pr_principal_id p"

fun purge_principals :: "principal_row list \<Rightarrow> nat \<Rightarrow> db \<Rightarrow> failure + (nat \<times> db)" where
  "purge_principals [] n d = Inr (n, d)"
| "purge_principals (p # ps) n d =
     (if has_conversation p d then purge_principals ps n d
      else and_then (delete_principals (same_principal p) d) (\<lambda>d'.
        purge_principals ps (n + count_where (same_principal p) (principals d)) d'))"

definition anonymousCutoff :: "retention_policy \<Rightarrow> js_date \<Rightarrow> js_date" where
  "anonymousCutoff policy now = now - rp_anonymousDays policy * 24 * 60 * 60 * 1000"

definition contactCutoff :: "retention_policy \<Rightarrow> js_date \<Rightarrow> js_date" where
  "contactCutoff policy now = now - rp_contactValueHours policy * 60 * 60 * 1000"

definition redactable :: "retention_policy \<Rightarrow> js_date \<Rightarrow> input_row \<Rightarrow> bool" where
  "redactable policy now i \<longleftrightarrow> i_value i \<noteq> None \<and> i_updated_at i < to_pg (contactCutoff policy now)"

definition redact :: "input_row \<Rightarrow> input_row" where
  "redact i = i\<lparr>i_value := None, i_status := Input_expired\<rparr>"

text \<open>The rows of the join; every principal is anonymous.\<close>

definition expired_conversations :: "retention_policy \<Rightarrow> js_date \<Rightarrow> db \<Rightarrow> conversation_row list" where
  "expired_conversations policy now d =
     filter (\<lambda>c. exists_row (\<lambda>p. pr_principal_id p = c_principal_id c \<and> pr_tenant_id p = c_tenant_id c
           \<and> pr_site_id p = c_site_id c) (principals d)
         \<and> c_updated_at c < to_pg (anonymousCutoff policy now)) (conversations d)"

definition old_principals :: "retention_policy \<Rightarrow> js_date \<Rightarrow> db \<Rightarrow> principal_row list" where
  "old_principals policy now d =
     filter (\<lambda>p. pr_created_at p < to_pg (anonymousCutoff policy now)) (principals d)"

definition purge_keys :: "retention_policy \<Rightarrow> js_date \<Rightarrow> db \<Rightarrow> db" where
  "purge_keys policy now d =
     d\<lparr>command_idempotency := delete_where (\<lambda>k. k_created_at k < to_pg (anonymousCutoff policy now))
         (command_idempotency d),
       session_bootstrap_idempotency := delete_where
         (\<lambda>k. bk_created_at k < to_pg (anonymousCutoff policy now)) (session_bootstrap_idempotency d),
       browser_sessions := delete_where (\<lambda>b. bs_expires_at b < to_pg now) (browser_sessions d)\<rparr>"

definition runOnce ::
  "(conversation_row list \<Rightarrow> conversation_row list) \<Rightarrow> (principal_row list \<Rightarrow> principal_row list)
    \<Rightarrow> retention_policy \<Rightarrow> js_date \<Rightarrow> db \<Rightarrow> failure + (retention_result \<times> db)" where
  "runOnce pickConversations pickPrincipals policy now d =
     (let d1 = d\<lparr>structured_input_requests := update_where (redactable policy now) redact
                   (structured_input_requests d)\<rparr>;
          expired = pickConversations (expired_conversations policy now d1)
      in and_then (delete_each expired d1) (\<lambda>d2.
         let d3 = purge_keys policy now d2
         in and_then (purge_principals (pickPrincipals (old_principals policy now d3)) 0 d3)
              (\<lambda>(principalsDeleted, d4).
            Inr (\<lparr>rr_conversationsDeleted = length expired, rr_principalsDeleted = principalsDeleted,
                  rr_contactValuesRedacted = count_where (redactable policy now)
                    (structured_input_requests d)\<rparr>, d4))))"

subsection \<open>What a deletion leaves\<close>

text \<open>\<open>swept here d d'\<close>: the rows of the conversations \<open>here\<close> are gone and nothing else but runs
  (and what cascades from them) is.\<close>

definition swept :: "(ident \<Rightarrow> ident \<Rightarrow> ident \<Rightarrow> bool) \<Rightarrow> db \<Rightarrow> db \<Rightarrow> bool" where
  "swept here d d' \<longleftrightarrow>
     conversations d' = delete_where (\<lambda>c. here (c_tenant_id c) (c_site_id c) (c_conversation_id c)) (conversations d)
     \<and> messages d' = delete_where (\<lambda>m. here (m_tenant_id m) (m_site_id m) (m_conversation_id m)) (messages d)
     \<and> conversation_participants d' = delete_where
         (\<lambda>p. here (cp_tenant_id p) (cp_site_id p) (cp_conversation_id p)) (conversation_participants d)
     \<and> conversation_events d' = delete_where
         (\<lambda>e. here (e_tenant_id e) (e_site_id e) (e_conversation_id e)) (conversation_events d)
     \<and> set (agent_runs d') \<subseteq> {r \<in> set (agent_runs d). \<not> here (r_tenant_id r) (r_site_id r) (r_conversation_id r)}
     \<and> set (handoffs d') \<subseteq> {h \<in> set (handoffs d). \<not> here (h_tenant_id h) (h_site_id h) (h_conversation_id h)}
     \<and> set (structured_input_requests d') \<subseteq> {i \<in> set (structured_input_requests d).
         \<not> here (i_tenant_id i) (i_site_id i) (i_conversation_id i)}
     \<and> principals d' = principals d"

lemma delete_where_twice: "delete_where p (delete_where q xs) = delete_where (\<lambda>x. q x \<or> p x) xs"
  by (auto simp: delete_where_def intro!: filter_cong)

lemma delete_where_absorb: "(\<And>x. p x \<Longrightarrow> q x) \<Longrightarrow> delete_where p (delete_where q xs) = delete_where q xs"
  by (auto simp: delete_where_def intro!: filter_cong)

lemma delete_runs_frame [simp]:
  "conversations (delete_runs p d) = conversations d" "messages (delete_runs p d) = messages d"
  "conversation_participants (delete_runs p d) = conversation_participants d"
  "conversation_events (delete_runs p d) = conversation_events d"
  "principals (delete_runs p d) = principals d"
  "agent_runs (delete_runs p d) = delete_where p (agent_runs d)"
  by (simp_all add: delete_runs_def Let_def)

lemma delete_runs_subset:
  "set (handoffs (delete_runs p d)) \<subseteq> set (handoffs d)"
  "set (structured_input_requests (delete_runs p d)) \<subseteq> set (structured_input_requests d)"
  by (auto simp: delete_runs_def Let_def)

lemma delete_messages_frame [simp]:
  "conversations (delete_messages p d) = conversations d"
  "messages (delete_messages p d) = delete_where p (messages d)"
  "conversation_participants (delete_messages p d) = conversation_participants d"
  "conversation_events (delete_messages p d) = conversation_events d"
  "principals (delete_messages p d) = principals d"
  by (simp_all add: delete_messages_def)

lemma delete_messages_subset:
  "set (agent_runs (delete_messages p d)) \<subseteq> set (agent_runs d)"
  "set (handoffs (delete_messages p d)) \<subseteq> set (handoffs d)"
  "set (structured_input_requests (delete_messages p d)) \<subseteq> set (structured_input_requests d)"
  using delete_runs_subset [of _ "d\<lparr>messages := delete_where p (messages d)\<rparr>"]
  by (auto simp: delete_messages_def)

text \<open>Before the conversation itself: its contents are gone, its participants still there.\<close>

lemma delete_contents_frame [simp]:
  "conversations (delete_contents c d) = conversations d"
  "conversation_participants (delete_contents c d) = conversation_participants d"
  "principals (delete_contents c d) = principals d"
  "messages (delete_contents c d) = delete_where
     (\<lambda>m. same_conversation c (m_tenant_id m) (m_site_id m) (m_conversation_id m)) (messages d)"
  "conversation_events (delete_contents c d) = delete_where
     (\<lambda>e. same_conversation c (e_tenant_id e) (e_site_id e) (e_conversation_id e)) (conversation_events d)"
  by (simp_all add: delete_contents_def Let_def)

lemma delete_contents_subset:
  "set (agent_runs (delete_contents c d)) \<subseteq> {r \<in> set (agent_runs d).
     \<not> same_conversation c (r_tenant_id r) (r_site_id r) (r_conversation_id r)}"
  "set (handoffs (delete_contents c d)) \<subseteq> {h \<in> set (handoffs d).
     \<not> same_conversation c (h_tenant_id h) (h_site_id h) (h_conversation_id h)}"
  "set (structured_input_requests (delete_contents c d)) \<subseteq> {i \<in> set (structured_input_requests d).
     \<not> same_conversation c (i_tenant_id i) (i_site_id i) (i_conversation_id i)}"
  unfolding delete_contents_def Let_def
  by (rule order_trans [OF delete_messages_subset(1)], force,
      rule order_trans [OF delete_messages_subset(2)], simp, rule order_trans [OF delete_runs_subset(1)], force,
      rule order_trans [OF delete_messages_subset(3)], simp, rule order_trans [OF delete_runs_subset(2)], force)

text \<open>With its messages gone, nothing restricts the deletion of a conversation's participants.\<close>

lemma delete_conversations_alone:
  assumes "\<forall>p \<in> set (conversation_participants d).
      \<not> same_conversation c (cp_tenant_id p) (cp_site_id p) (cp_conversation_id p)"
    and "\<forall>e \<in> set (conversation_events d).
      \<not> same_conversation c (e_tenant_id e) (e_site_id e) (e_conversation_id e)"
  shows "\<exists>p. delete_conversations (\<lambda>x. same_conversation c (c_tenant_id x) (c_site_id x) (c_conversation_id x)) d
     = Inr (delete_runs p (d\<lparr>conversations := delete_where
         (\<lambda>x. same_conversation c (c_tenant_id x) (c_site_id x) (c_conversation_id x)) (conversations d)\<rparr>))"
proof -
  let ?p = "\<lambda>x. same_conversation c (c_tenant_id x) (c_site_id x) (c_conversation_id x)"
  define gone where "gone = (\<lambda>t s cid. exists_row (\<lambda>x. ?p x \<and> same_conversation x t s cid) (conversations d))"
  have gone: "gone t s cid \<Longrightarrow> same_conversation c t s cid" for t s cid
    by (auto simp: gone_def same_conversation_def)
  have events: "delete_where (\<lambda>e. gone (e_tenant_id e) (e_site_id e) (e_conversation_id e))
      (conversation_events d) = conversation_events d"
    using assms(2) gone by (intro delete_where_none) blast
  have "delete_where (\<lambda>x. gone (cp_tenant_id x) (cp_site_id x) (cp_conversation_id x))
      (conversation_participants d) = conversation_participants d"
    using assms(1) gone by (intro delete_where_none) blast
  moreover have "\<not> gone (cp_tenant_id x) (cp_site_id x) (cp_conversation_id x)"
    if "x \<in> set (conversation_participants d)" for x
    using assms(1) gone that by blast
  ultimately have "delete_participants (\<lambda>x. gone (cp_tenant_id x) (cp_site_id x) (cp_conversation_id x)) d'
      = Inr d'" if "conversation_participants d' = conversation_participants d" for d'
    using that by (auto simp: delete_participants_def)
  then show ?thesis
    unfolding delete_conversations_def Let_def gone_def [symmetric] events
    by (intro exI [of _ "\<lambda>r. gone (r_tenant_id r) (r_site_id r) (r_conversation_id r)"]) simp
qed

lemma deleteConversation_swept:
  "\<exists>d'. deleteConversation c d = Inr d' \<and> swept (same_conversation c) d d'"
proof -
  define d6 where "d6 = (delete_contents c d)\<lparr>conversation_participants := delete_where
      (\<lambda>p. same_conversation c (cp_tenant_id p) (cp_site_id p) (cp_conversation_id p))
      (conversation_participants d)\<rparr>"
  have "delete_participants (\<lambda>p. same_conversation c (cp_tenant_id p) (cp_site_id p) (cp_conversation_id p))
      (delete_contents c d) = Inr d6"
    by (auto simp: delete_participants_def d6_def message_of_participant_def)
  moreover obtain p where "delete_conversations
      (\<lambda>x. same_conversation c (c_tenant_id x) (c_site_id x) (c_conversation_id x)) d6
      = Inr (delete_runs p (d6\<lparr>conversations := delete_where
          (\<lambda>x. same_conversation c (c_tenant_id x) (c_site_id x) (c_conversation_id x)) (conversations d6)\<rparr>))"
    using delete_conversations_alone [of d6 c] by (auto simp: d6_def)
  moreover have "swept (same_conversation c) d (delete_runs p (d6\<lparr>conversations := delete_where
          (\<lambda>x. same_conversation c (c_tenant_id x) (c_site_id x) (c_conversation_id x)) (conversations d6)\<rparr>))"
    using delete_contents_subset [of c d] delete_runs_subset [of p "d6\<lparr>conversations := delete_where
          (\<lambda>x. same_conversation c (c_tenant_id x) (c_site_id x) (c_conversation_id x)) (conversations d6)\<rparr>"]
    by (auto simp: swept_def d6_def)
  ultimately show ?thesis by (auto simp: deleteConversation_def Let_def)
qed

lemma swept_trans:
  assumes "swept h d d1" and "swept h' d1 d2"
  shows "swept (\<lambda>t s cid. h t s cid \<or> h' t s cid) d d2"
  using assms unfolding swept_def by (auto simp: delete_where_twice)

lemma delete_each_swept:
  "\<exists>d'. delete_each cs d = Inr d' \<and> swept (\<lambda>t s cid. \<exists>c \<in> set cs. same_conversation c t s cid) d d'"
proof (induction cs arbitrary: d)
  case Nil
  then show ?case by (simp add: swept_def delete_where_none)
next
  case (Cons c cs)
  obtain d1 where d1: "deleteConversation c d = Inr d1" "swept (same_conversation c) d d1"
    using deleteConversation_swept by blast
  obtain d2 where d2: "delete_each cs d1 = Inr d2"
    "swept (\<lambda>t s cid. \<exists>c \<in> set cs. same_conversation c t s cid) d1 d2"
    using Cons.IH by blast
  then show ?case using swept_trans [OF d1(2) d2(2)] d1(1) by auto
qed

lemma delete_principals_free:
  assumes "\<not> has_conversation p d"
  shows "\<exists>bs. delete_principals (same_principal p) d = Inr (d\<lparr>principals :=
      delete_where (same_principal p) (principals d), browser_sessions := bs\<rparr>)"
proof -
  have "\<not> exists_row (\<lambda>c. exists_row (\<lambda>x. same_principal p x \<and> pr_tenant_id x = c_tenant_id c
      \<and> pr_site_id x = c_site_id c \<and> pr_principal_id x = c_principal_id c) (principals d)) (conversations d)"
    using assms by (auto simp: has_conversation_def same_principal_def)
  then show ?thesis unfolding delete_principals_def Let_def by auto
qed

lemma purge_principals_total:
  "\<exists>n' d'. purge_principals ps n d = Inr (n', d') \<and> conversations d' = conversations d
     \<and> messages d' = messages d \<and> conversation_participants d' = conversation_participants d
     \<and> conversation_events d' = conversation_events d \<and> agent_runs d' = agent_runs d
     \<and> handoffs d' = handoffs d \<and> structured_input_requests d' = structured_input_requests d
     \<and> set (principals d') \<subseteq> set (principals d)
     \<and> (\<forall>p \<in> set (principals d). has_conversation p d \<longrightarrow> p \<in> set (principals d'))"
proof (induction ps arbitrary: n d)
  case (Cons p ps)
  show ?case
  proof (cases "has_conversation p d")
    case True
    then show ?thesis using Cons.IH [of n d] by simp
  next
    case False
    then obtain bs where "delete_principals (same_principal p) d = Inr (d\<lparr>principals :=
        delete_where (same_principal p) (principals d), browser_sessions := bs\<rparr>)"
      using delete_principals_free by blast
    moreover define d1 where "d1 = d\<lparr>principals := delete_where (same_principal p) (principals d),
        browser_sessions := bs\<rparr>"
    ultimately have d1: "delete_principals (same_principal p) d = Inr d1" by simp
    have frame: "conversations d1 = conversations d" "messages d1 = messages d"
      "conversation_participants d1 = conversation_participants d"
      "conversation_events d1 = conversation_events d" "agent_runs d1 = agent_runs d"
      "handoffs d1 = handoffs d" "structured_input_requests d1 = structured_input_requests d"
      "principals d1 = delete_where (same_principal p) (principals d)"
      by (simp_all add: d1_def)
    have "\<forall>q \<in> set (principals d). has_conversation q d \<longrightarrow> \<not> same_principal p q"
      using False by (auto simp: has_conversation_def same_principal_def)
    moreover have "has_conversation q d1 = has_conversation q d" for q
      by (simp add: has_conversation_def frame)
    ultimately show ?thesis
      using Cons.IH [of "n + count_where (same_principal p) (principals d)" d1] d1 False frame by auto
  qed
qed simp

text \<open>What is left of a conversation's rows: none.\<close>

definition forgotten :: "conversation_row \<Rightarrow> db \<Rightarrow> bool" where
  "forgotten c d \<longleftrightarrow>
     (\<forall>x \<in> set (conversations d). \<not> same_conversation c (c_tenant_id x) (c_site_id x) (c_conversation_id x))
     \<and> (\<forall>m \<in> set (messages d). \<not> same_conversation c (m_tenant_id m) (m_site_id m) (m_conversation_id m))
     \<and> (\<forall>e \<in> set (conversation_events d).
          \<not> same_conversation c (e_tenant_id e) (e_site_id e) (e_conversation_id e))
     \<and> (\<forall>p \<in> set (conversation_participants d).
          \<not> same_conversation c (cp_tenant_id p) (cp_site_id p) (cp_conversation_id p))
     \<and> (\<forall>r \<in> set (agent_runs d). \<not> same_conversation c (r_tenant_id r) (r_site_id r) (r_conversation_id r))
     \<and> (\<forall>h \<in> set (handoffs d). \<not> same_conversation c (h_tenant_id h) (h_site_id h) (h_conversation_id h))
     \<and> (\<forall>i \<in> set (structured_input_requests d).
          \<not> same_conversation c (i_tenant_id i) (i_site_id i) (i_conversation_id i))"

lemma swept_forgotten: "swept here d d' \<Longrightarrow> here = (\<lambda>t s cid. \<exists>c \<in> set cs. same_conversation c t s cid)
    \<Longrightarrow> c \<in> set cs \<Longrightarrow> forgotten c d'"
  unfolding swept_def forgotten_def by auto

lemma forgotten_frame:
  "forgotten c d \<Longrightarrow> conversations d' = conversations d \<Longrightarrow> messages d' = messages d \<Longrightarrow>
   conversation_participants d' = conversation_participants d \<Longrightarrow>
   conversation_events d' = conversation_events d \<Longrightarrow> agent_runs d' = agent_runs d \<Longrightarrow>
   handoffs d' = handoffs d \<Longrightarrow> structured_input_requests d' = structured_input_requests d \<Longrightarrow> forgotten c d'"
  unfolding forgotten_def by simp

lemma purge_keys_frame [simp]:
  "conversations (purge_keys policy now d) = conversations d" "messages (purge_keys policy now d) = messages d"
  "conversation_participants (purge_keys policy now d) = conversation_participants d"
  "conversation_events (purge_keys policy now d) = conversation_events d"
  "agent_runs (purge_keys policy now d) = agent_runs d" "handoffs (purge_keys policy now d) = handoffs d"
  "structured_input_requests (purge_keys policy now d) = structured_input_requests d"
  "principals (purge_keys policy now d) = principals d"
  by (simp_all add: purge_keys_def)

lemma expired_conversations_inputs [simp]:
  "expired_conversations policy now (d\<lparr>structured_input_requests := is\<rparr>) = expired_conversations policy now d"
  by (simp add: expired_conversations_def)

lemma sweep_result:
  "\<exists>res d'. runOnce pickC pickP policy now d = Inr (res, d')
     \<and> rr_conversationsDeleted res = length (pickC (expired_conversations policy now d))
     \<and> (\<forall>c \<in> set (pickC (expired_conversations policy now d)). forgotten c d')
     \<and> conversations d' = delete_where (\<lambda>x. \<exists>c \<in> set (pickC (expired_conversations policy now d)).
          same_conversation c (c_tenant_id x) (c_site_id x) (c_conversation_id x)) (conversations d)
     \<and> messages d' = delete_where (\<lambda>m. \<exists>c \<in> set (pickC (expired_conversations policy now d)).
          same_conversation c (m_tenant_id m) (m_site_id m) (m_conversation_id m)) (messages d)
     \<and> set (structured_input_requests d')
         \<subseteq> set (update_where (redactable policy now) redact (structured_input_requests d))
     \<and> set (principals d') \<subseteq> set (principals d)
     \<and> (\<forall>p \<in> set (principals d). has_conversation p d' \<longrightarrow> p \<in> set (principals d'))"
proof -
  define d1 where "d1 = d\<lparr>structured_input_requests := update_where (redactable policy now) redact
      (structured_input_requests d)\<rparr>"
  let ?cs = "pickC (expired_conversations policy now d)"
  have d1: "conversations d1 = conversations d" "messages d1 = messages d" "principals d1 = principals d"
    "structured_input_requests d1 = update_where (redactable policy now) redact (structured_input_requests d)"
    "expired_conversations policy now d1 = expired_conversations policy now d"
    by (simp_all add: d1_def)
  obtain d2 where d2: "delete_each ?cs d1 = Inr d2"
    and swept: "swept (\<lambda>t s cid. \<exists>c \<in> set ?cs. same_conversation c t s cid) d1 d2"
    using delete_each_swept by blast
  let ?d3 = "purge_keys policy now d2"
  obtain n d4 where d4: "purge_principals (pickP (old_principals policy now ?d3)) 0 ?d3 = Inr (n, d4)"
    and frame: "conversations d4 = conversations ?d3" "messages d4 = messages ?d3"
    "conversation_participants d4 = conversation_participants ?d3"
    "conversation_events d4 = conversation_events ?d3" "agent_runs d4 = agent_runs ?d3"
    "handoffs d4 = handoffs ?d3" "structured_input_requests d4 = structured_input_requests ?d3"
    "\<forall>p \<in> set (principals ?d3). has_conversation p ?d3 \<longrightarrow> p \<in> set (principals d4)"
    "set (principals d4) \<subseteq> set (principals ?d3)"
    using purge_principals_total by blast
  have run: "runOnce pickC pickP policy now d = Inr (\<lparr>rr_conversationsDeleted = length ?cs,
      rr_principalsDeleted = n, rr_contactValuesRedacted = count_where (redactable policy now)
        (structured_input_requests d)\<rparr>, d4)"
    using d2 d4 unfolding runOnce_def Let_def d1_def [symmetric] d1(5) by simp
  have "\<forall>c \<in> set ?cs. forgotten c d4"
  proof
    fix c
    assume "c \<in> set ?cs"
    then have "forgotten c d2" by (rule swept_forgotten [OF swept refl])
    then show "forgotten c d4" by (rule forgotten_frame) (simp_all add: frame)
  qed
  moreover have "\<forall>p \<in> set (principals d). has_conversation p d4 \<longrightarrow> p \<in> set (principals d4)"
    using frame(1,8) swept d1(3) by (simp add: has_conversation_def swept_def)
  ultimately show ?thesis
    using run swept frame(1,2,7,9) d1 unfolding swept_def by auto
qed

text \<open>
  C37: A retention sweep always completes and forgets what it must. It deletes at most 100
  conversations, only expired ones, and leaves no row of any table for them; unless more than 100 had
  expired, none that had expired is left. No contact value older than its hours survives, in any
  number. Every message of a conversation that has not expired is kept, and every principal that still
  has a conversation.
\<close>

theorem sweep_forgets_expired:
  assumes "limit_rows 100 pickC"
  shows "\<exists>res d'. runOnce pickC pickP policy now d = Inr (res, d')
     \<and> rr_conversationsDeleted res \<le> 100
     \<and> (\<forall>c \<in> set (conversations d). (length (expired_conversations policy now d) \<le> 100
          \<and> c \<in> set (expired_conversations policy now d) \<longrightarrow> forgotten c d')
        \<and> (c \<notin> set (conversations d') \<longrightarrow> (\<exists>x \<in> set (expired_conversations policy now d).
             same_conversation x (c_tenant_id c) (c_site_id c) (c_conversation_id c) \<and> forgotten x d')))
     \<and> (\<forall>m \<in> set (messages d). m \<notin> set (messages d') \<longrightarrow> (\<exists>x \<in> set (expired_conversations policy now d).
             same_conversation x (m_tenant_id m) (m_site_id m) (m_conversation_id m)))
     \<and> (\<forall>i \<in> set (structured_input_requests d'). i_value i \<noteq> None
          \<longrightarrow> to_pg (contactCutoff policy now) \<le> i_updated_at i)
     \<and> (\<forall>p \<in> set (principals d). has_conversation p d' \<longrightarrow> p \<in> set (principals d'))"
proof -
  let ?e = "expired_conversations policy now d"
  obtain res d' where run: "runOnce pickC pickP policy now d = Inr (res, d')"
    and deleted: "rr_conversationsDeleted res = length (pickC ?e)"
    and gone: "\<forall>c \<in> set (pickC ?e). forgotten c d'"
    and convs: "conversations d' = delete_where (\<lambda>x. \<exists>c \<in> set (pickC ?e).
          same_conversation c (c_tenant_id x) (c_site_id x) (c_conversation_id x)) (conversations d)"
    and msgs: "messages d' = delete_where (\<lambda>m. \<exists>c \<in> set (pickC ?e).
          same_conversation c (m_tenant_id m) (m_site_id m) (m_conversation_id m)) (messages d)"
    and inputs: "set (structured_input_requests d')
         \<subseteq> set (update_where (redactable policy now) redact (structured_input_requests d))"
    and kept: "\<forall>p \<in> set (principals d). has_conversation p d' \<longrightarrow> p \<in> set (principals d')"
    using sweep_result [of pickC pickP policy now d] by blast
  have pick: "set (pickC ?e) \<subseteq> set ?e" "length (pickC ?e) \<le> 100"
    "length ?e \<le> 100 \<Longrightarrow> set (pickC ?e) = set ?e"
    using assms by (simp_all add: limit_rows_def)
  have "to_pg (contactCutoff policy now) \<le> i_updated_at i"
    if "i \<in> set (structured_input_requests d')" "i_value i \<noteq> None" for i
    using that inputs by (auto simp: set_update_where redact_def redactable_def)
  then show ?thesis
    using run deleted gone convs msgs kept pick by (intro exI [of _ res] exI [of _ d']) auto
qed

subsection \<open>Two ways a sweep falls short\<close>

text \<open>
  A live session can outlive its principal. A sweep deletes an old principal as soon as it has no
  conversation, with its sessions, however long these have to live; the browser's token still
  authenticates, but creating a conversation with it then fails without an API error.
\<close>

theorem sweep_strands_live_token:
  assumes "runOnce pickC pickP policy now d = Inr (res, d')"
    and "p \<notin> set (principals d')" and "p \<in> set (principals d)"
    and "distinct (map (\<lambda>p. (pr_tenant_id p, pr_site_id p, pr_principal_id p)) (principals d))"
    and "sc_tenantId scope = pr_tenant_id p" and "sc_siteId scope = pr_site_id p"
    and "sc_principalId scope = pr_principal_id p"
    and "findIdempotency scope create_operation key d' = None"
  shows "\<not> has_conversation p d' \<and> create_conversation sha256 ids clock scope key d' = Inl Unexpected"
proof -
  have "\<not> has_conversation p d'"
    using sweep_result [of pickC pickP policy now d] assms(1-3) by auto
  moreover have "q = p" if "q \<in> set (principals d)" "same_principal p q" for q
    using assms(3,4) that by (auto simp: same_principal_def distinct_map inj_on_def)
  then have "\<not> principal_exists d' (sc_tenantId scope) (sc_siteId scope) (sc_principalId scope)"
    using sweep_result [of pickC pickP policy now d] assms(1,2,5-7)
    by (auto simp: principal_exists_def same_principal_def)
  then have "insert_conversation c d' = Inl Unexpected"
    if "c_tenant_id c = sc_tenantId scope" "c_site_id c = sc_siteId scope"
      "c_principal_id c = sc_principalId scope" for c
    using that by (simp add: insert_conversation_def)
  ultimately show ?thesis
    using assms(8) by (simp add: create_conversation_def create_transaction_def Let_def)
qed

text \<open>
  The second: a sweep looks at no more than 100 old principals, whether or not they can be deleted;
  while those it picks all have a conversation, it deletes none, and no later one either.
\<close>

lemma purge_principals_starves:
  "\<forall>p \<in> set ps. has_conversation p d \<Longrightarrow> purge_principals ps n d = Inr (n, d)"
  by (induction ps) simp_all

subsection \<open>Concrete instances\<close>

definition sample_policy :: retention_policy where
  "sample_policy = \<lparr>rp_anonymousDays = 1, rp_authenticatedDays = 1, rp_contactValueHours = 1\<rparr>"

lemma limit_rows_take: "limit_rows n (take n)"
  by (auto simp: limit_rows_def dest: in_set_takeD)

lemma sweep_forgets_expired_witness:
  "\<exists>res d'. runOnce (take 100) (take 100) sample_policy 100000000 sample_chat = Inr (res, d')
     \<and> forgotten (sample_conversation ''c1'' 1000) d'"
proof -
  have "sample_conversation ''c1'' 1000 \<in> set (conversations sample_chat)"
    "sample_conversation ''c1'' 1000 \<in> set (expired_conversations sample_policy 100000000 sample_chat)"
    "length (expired_conversations sample_policy 100000000 sample_chat) \<le> 100"
    by (simp_all add: expired_conversations_def sample_defs sample_policy_def anonymousCutoff_def to_pg_def)
  then show ?thesis
    using sweep_forgets_expired [OF limit_rows_take, of "take 100" sample_policy 100000000 sample_chat]
    by blast
qed

lemma sweep_strands_live_token_witness:
  "\<exists>res d'. runOnce (take 100) (take 100) sample_policy 100000000 sample_db = Inr (res, d')
     \<and> create_conversation (\<lambda>_. []) \<lparr>id_conversation = ''c'', id_userParticipant = ''u'',
          id_agentParticipant = ''a''\<rparr> 0 sample_scope ''k'' d' = Inl Unexpected"
proof -
  let ?p = "hd (principals sample_db)"
  obtain res d' where run: "runOnce (take 100) (take 100) sample_policy 100000000 sample_db = Inr (res, d')"
    and gone: "?p \<notin> set (principals d')" and keys: "command_idempotency d' = []"
    by (simp add: runOnce_def Let_def expired_conversations_def purge_keys_def old_principals_def
        anonymousCutoff_def to_pg_def sample_policy_def has_conversation_def delete_principals_def
        same_principal_def delete_where_def sample_defs)
  have "findIdempotency sample_scope create_operation ''k'' d' = None"
    using keys by (simp add: findIdempotency_def)
  with sweep_strands_live_token [OF run gone, of sample_scope "''k''"] run show ?thesis
    by (simp add: sample_defs)
qed

end
