(* ===== verification/RunExecution.thy ===== *)
theory RunExecution
  imports Worker
begin

text \<open>
  What the run worker guarantees: which run a claim takes, that a claimed run is always
  settled whatever the connector and the other processes do, that materialising keeps the
  message numbering, and where the unconditional status writes of the worker let a stale
  worker overwrite a finished run.
\<close>

subsection \<open>Runs and their rows\<close>

definition run_ids :: "db \<Rightarrow> ident list" where
  "run_ids d = map r_run_id (agent_runs d)"

definition run_row_of :: "ident \<Rightarrow> db \<Rightarrow> run_row option" where
  "run_row_of runId d = find (\<lambda>r. r_run_id r = runId) (agent_runs d)"

definition status_of :: "ident \<Rightarrow> db \<Rightarrow> run_status option" where
  "status_of runId d = map_option r_status (run_row_of runId d)"

lemma run_row_of_Some:
  assumes "distinct (run_ids d)" and "r \<in> set (agent_runs d)"
  shows "run_row_of (r_run_id r) d = Some r"
  unfolding run_row_of_def
  using assms by (intro find_distinct [where g = r_run_id]) (auto simp: run_ids_def)

lemma run_row_of_None: "run_row_of runId d = None \<longleftrightarrow> runId \<notin> set (run_ids d)"
  by (auto simp: run_row_of_def run_ids_def find_None_iff)

lemma run_row_of_update:
  assumes "\<And>r. r_run_id (f r) = r_run_id r"
  shows "run_row_of x (update_run runId f d) =
     map_option (\<lambda>r. if x = runId then f r else r) (run_row_of x d)"
proof -
  have "run_row_of x (update_run runId f d)
      = map_option (\<lambda>r. if r_run_id r = runId then f r else r) (run_row_of x d)"
    unfolding run_row_of_def update_run_def using assms by (simp add: find_update_where)
  moreover have "r_run_id r = x" if "run_row_of x d = Some r" for r
    using that by (auto simp: run_row_of_def dest: find_SomeD)
  ultimately show ?thesis by (cases "run_row_of x d") auto
qed

lemma run_ids_update [simp]:
  "(\<And>r. r_run_id (f r) = r_run_id r) \<Longrightarrow> run_ids (update_run runId f d) = run_ids d"
  by (simp add: run_ids_def update_run_def map_update_where)

lemma run_row_of_messages [simp]:
  "run_row_of x (d\<lparr>messages := ms\<rparr>) = run_row_of x d"
  "run_row_of x (d\<lparr>handoffs := hs\<rparr>) = run_row_of x d"
  "run_ids (d\<lparr>messages := ms\<rparr>) = run_ids d" "run_ids (d\<lparr>handoffs := hs\<rparr>) = run_ids d"
  by (simp_all add: run_row_of_def run_ids_def)

subsection \<open>Claims\<close>

lemma claim_candidates:
  "set (order_asc r_available_at (order_asc r_created_at (filter (claimable cfg now) (agent_runs d))))
     = {r \<in> set (agent_runs d). claimable cfg now r}"
  by simp

lemma claim_cases:
  assumes "claim cfg now d = Some (run', d')"
  obtains run where "run \<in> set (agent_runs d)" and "claimable cfg now run"
    and "run' = claim_update cfg now run" and "d' = update_run (r_run_id run) (claim_update cfg now) d"
    and "\<forall>x \<in> set (agent_runs d). claimable cfg now x \<longrightarrow> r_available_at run \<le> r_available_at x"
proof -
  let ?rows = "order_asc r_available_at (order_asc r_created_at
      (filter (claimable cfg now) (agent_runs d)))"
  obtain run rest where rows: "?rows = run # rest" and run': "run' = claim_update cfg now run"
    and d': "d' = update_run (r_run_id run) (claim_update cfg now) d"
    using assms by (auto simp: claim_def split: list.splits)
  have "run \<in> set ?rows" unfolding rows by simp
  moreover have "sorted (map r_available_at ?rows)" by (rule sorted_order_asc)
  then have "\<forall>x \<in> set ?rows. r_available_at run \<le> r_available_at x" unfolding rows by auto
  ultimately show ?thesis using that [of run] run' d' unfolding claim_candidates by auto
qed

lemma claim_None: "claim cfg now d = None \<longleftrightarrow> (\<forall>r \<in> set (agent_runs d). \<not> claimable cfg now r)"
proof -
  have "claim cfg now d = None \<longleftrightarrow> order_asc r_available_at (order_asc r_created_at
      (filter (claimable cfg now) (agent_runs d))) = []"
    by (simp add: claim_def split: list.split)
  also have "\<dots> \<longleftrightarrow> set (order_asc r_available_at (order_asc r_created_at
      (filter (claimable cfg now) (agent_runs d)))) = {}" by (rule set_empty [symmetric])
  finally show ?thesis unfolding claim_candidates by blast
qed

lemma claim_update_sel [simp]:
  "r_run_id (claim_update cfg now r) = r_run_id r" "r_status (claim_update cfg now r) = Run_running"
  "r_attempt (claim_update cfg now r) = r_attempt r + 1"
  "r_lease_expires_at (claim_update cfg now r) = Some (to_pg (now + wc_leaseMs cfg))"
  "r_agent_ref (claim_update cfg now r) = r_agent_ref r"
  by (simp_all add: claim_update_def)

text \<open>
  C6: A claim gives a run to one worker. It takes an earliest available claimable run, within
  its attempts, and no other row changes; the run then is running with a lease of \<open>leaseMs\<close>
  and one more attempt, and until that lease has expired no claim of any worker returns it
  again, unless its row is changed meanwhile.
\<close>
theorem claim_is_exclusive:
  assumes "claim cfg now d = Some (run, d')" and "distinct (run_ids d)"
  shows "(\<exists>old \<in> set (agent_runs d). claimable cfg now old \<and> run = claim_update cfg now old
         \<and> (\<forall>x \<in> set (agent_runs d). claimable cfg now x \<longrightarrow> r_available_at old \<le> r_available_at x))
     \<and> r_attempt run \<le> wc_maxAttempts cfg
     \<and> run_row_of (r_run_id run) d' = Some run
     \<and> (\<forall>x. x \<noteq> r_run_id run \<longrightarrow> run_row_of x d' = run_row_of x d)
     \<and> (\<forall>later other d2 d3. run_row_of (r_run_id run) d2 = Some run \<and> distinct (run_ids d2)
          \<and> later < now + wc_leaseMs cfg \<and> claim cfg later d2 = Some (other, d3)
          \<longrightarrow> r_run_id other \<noteq> r_run_id run)"
proof -
  obtain old where old: "old \<in> set (agent_runs d)" "claimable cfg now old"
    "run = claim_update cfg now old" "d' = update_run (r_run_id old) (claim_update cfg now) d"
    and first: "\<forall>x \<in> set (agent_runs d). claimable cfg now x \<longrightarrow> r_available_at old \<le> r_available_at x"
    using assms(1) by (rule claim_cases)
  have "run_row_of x d' = map_option (\<lambda>r. if x = r_run_id old then claim_update cfg now r else r)
      (run_row_of x d)" for x
    unfolding old(4) by (rule run_row_of_update) simp
  moreover have "run_row_of (r_run_id old) d = Some old"
    by (rule run_row_of_Some [OF assms(2) old(1)])
  moreover have "r_run_id other \<noteq> r_run_id run"
    if row: "run_row_of (r_run_id run) d2 = Some run" and dist: "distinct (run_ids d2)"
      and later: "later < now + wc_leaseMs cfg" and again: "claim cfg later d2 = Some (other, d3)"
    for later other d2 d3
  proof
    assume same: "r_run_id other = r_run_id run"
    obtain x where x: "x \<in> set (agent_runs d2)" "claimable cfg later x" "other = claim_update cfg later x"
      using again by (rule claim_cases)
    then have "run_row_of (r_run_id run) d2 = Some x"
      using run_row_of_Some [OF dist x(1)] same by simp
    with row have "x = claim_update cfg now old" using old(3) by simp
    with x(2) later show False by (simp add: claimable_def)
  qed
  ultimately show ?thesis
    using old first by (auto simp: claimable_def option.map_ident)
qed


subsection \<open>A claimed run is settled\<close>

definition row_ok :: "ident \<Rightarrow> server_state \<Rightarrow> bool" where
  "row_ok runId s \<longleftrightarrow> runId \<in> set (run_ids (fst s))"

text \<open>Other processes may do anything but delete runs.\<close>

definition keeps_runs :: "(server_state \<Rightarrow> server_state) \<Rightarrow> bool" where
  "keeps_runs f \<longleftrightarrow> (\<forall>s. set (run_ids (fst s)) \<subseteq> set (run_ids (fst (f s))))"

definition settled_status :: "run_status set" where
  "settled_status = {Run_completed, Run_failed, Run_cancelled, Run_waiting_for_input}"

definition settled :: "ident \<Rightarrow> server_state \<Rightarrow> bool" where
  "settled runId s \<longleftrightarrow> (\<forall>r \<in> set (agent_runs (fst s)). r_run_id r = runId \<longrightarrow>
     r_status r \<in> settled_status \<and> r_lease_expires_at r = None)
   \<and> row_ok runId s"

lemma row_ok_env: "keeps_runs f \<Longrightarrow> row_ok runId s \<Longrightarrow> row_ok runId (f s)"
  unfolding keeps_runs_def row_ok_def by blast

lemma settled_update:
  assumes "row_ok runId s" and "\<And>r. r_run_id (f r) = r_run_id r"
    and "\<And>r. r_status (f r) \<in> settled_status \<and> r_lease_expires_at (f r) = None"
  shows "settled runId (update_run runId f (fst s), b)"
  using assms by (auto simp: settled_def row_ok_def run_ids_def update_run_def update_where_def)

lemma settled_cancel: "row_ok (r_run_id run) s \<Longrightarrow> settled (r_run_id run) (on_db (cancel_run run now) s)"
  by (auto simp: settled_def row_ok_def run_ids_def on_db_def cancel_run_def update_run_def
      update_where_def settled_status_def)

lemma settled_fail: "row_ok runId s \<Longrightarrow> settled runId (on_db (fail_run runId code now) s)"
  by (auto simp: settled_def row_ok_def run_ids_def on_db_def fail_run_def update_run_def
      update_where_def settled_status_def)

lemma settled_complete: "row_ok runId s \<Longrightarrow> settled runId (on_db (complete_run runId now) s)"
  unfolding on_db_def complete_run_def by (rule settled_update) (simp_all add: settled_status_def)

lemma cancellation_known:
  "row_ok runId s \<Longrightarrow> \<exists>c. isCancellationRequested runId (fst s) = Inr c"
  using run_row_of_None [of runId "fst s"]
  by (auto simp: isCancellationRequested_def row_ok_def run_row_of_def split: option.split)

lemma settled_exception:
  assumes "row_ok (r_run_id run) s"
  shows "fst (on_exception run now fin s) = Inr True
     \<and> settled (r_run_id run) (snd (on_exception run now fin s))"
  using cancellation_known [OF assms] settled_cancel [OF assms] settled_fail [OF assms]
  by (auto simp: on_exception_def split: bool.split)

lemma materialize_runs:
  "materialize run pid now data d = Inr d' \<Longrightarrow> agent_runs d' = agent_runs d"
  by (cases "(run, pid, now, data, d)" rule: materialize.cases)
    (auto simp: start_assistant_def complete_message_def request_handoff_def request_contact_def
      complete_handoff_def Let_def split: if_splits option.splits dest!: insert_Inr)

lemma append_event_runs: "append_event n eid now scope event d = Inr (ev, d') \<Longrightarrow>
   agent_runs d' = agent_runs d"
  by (auto elim!: append_event_cases)

lemma service_append_runs: "service_append n eid now scope event s = Inr (ev, s') \<Longrightarrow>
   agent_runs (fst s') = agent_runs (fst s)"
  by (cases s) (auto simp: service_append_def dest: append_event_runs)

lemma row_ok_runs: "agent_runs (fst s) = agent_runs (fst s') \<Longrightarrow> row_ok runId s = row_ok runId s'"
  by (simp add: row_ok_def run_ids_def)

lemma wait_settles:
  assumes "row_ok runId s" and "distinct (run_ids (fst s))" and "waitForInput runId now (fst s) = Inr d"
  shows "settled runId (d, b)"
proof -
  let ?hit = "\<lambda>r. r_run_id r = runId \<and> r_status r = Run_running"
  have one: "count_where ?hit (agent_runs (fst s)) = 1"
    and d: "agent_runs d = update_where ?hit (\<lambda>r. r\<lparr>r_status := Run_waiting_for_input,
           r_claimed_at := None, r_lease_expires_at := None, r_updated_at := to_pg now\<rparr>)
           (agent_runs (fst s))"
    using assms(3) by (auto simp: waitForInput_def Let_def split: if_splits)
  from one have "filter ?hit (agent_runs (fst s)) \<noteq> []" by (auto simp: count_where_def)
  then obtain r where r: "r \<in> set (agent_runs (fst s))" "?hit r"
    unfolding filter_empty_conv by blast
  then have "x = r" if "x \<in> set (agent_runs (fst s))" "r_run_id x = runId" for x
    using that distinct_map_inj [OF assms(2) [unfolded run_ids_def], of x r] by simp
  then show ?thesis using r assms(1)
    by (auto simp: settled_def row_ok_def run_ids_def d update_where_def settled_status_def)
qed

definition keeps_distinct :: "(server_state \<Rightarrow> server_state) \<Rightarrow> bool" where
  "keeps_distinct f \<longleftrightarrow> (\<forall>s. distinct (run_ids (fst s)) \<longrightarrow> distinct (run_ids (fst (f s))))"

text \<open>Other processes: they insert and update runs, and delete none.\<close>

definition others_ok :: "(server_state \<Rightarrow> server_state) \<Rightarrow> bool" where
  "others_ok f \<longleftrightarrow> keeps_runs f \<and> keeps_distinct f"

definition good :: "ident \<Rightarrow> server_state \<Rightarrow> bool" where
  "good runId s \<longleftrightarrow> row_ok runId s \<and> distinct (run_ids (fst s))"

lemma good_env: "others_ok f \<Longrightarrow> good runId s \<Longrightarrow> good runId (f s)"
  unfolding others_ok_def good_def keeps_distinct_def using row_ok_env by blast

lemma good_runs: "agent_runs (fst s) = agent_runs (fst s') \<Longrightarrow> good runId s = good runId s'"
  by (simp add: good_def row_ok_def run_ids_def)

lemma settled_after_append:
  assumes "good (r_run_id run) s"
  shows "case after_append run now data s of
       Settled s' \<Rightarrow> settled (r_run_id run) s'
     | Continue s' \<Rightarrow> good (r_run_id run) s'
     | Thrown s' \<Rightarrow> good (r_run_id run) s'"
  using assms
  by (auto simp: after_append_def good_def settled_complete settled_fail
      split: event_data.split sum.split intro: wait_settles)

lemma iteration_settles:
  assumes "good (r_run_id run) s" and "\<forall>k. others_ok (it_env it k)"
  shows "case worker_iteration uri cfg run load now it s of
       Settled s' \<Rightarrow> settled (r_run_id run) s'
     | Continue s' \<Rightarrow> good (r_run_id run) s'
     | Thrown s' \<Rightarrow> good (r_run_id run) s'"
proof -
  let ?s0 = "it_env it 0 s"
  have s0: "good (r_run_id run) ?s0" using assms by (simp add: good_env)
  then have row0: "row_ok (r_run_id run) ?s0" by (simp add: good_def)
  obtain c where c: "isCancellationRequested (r_run_id run) (fst ?s0) = Inr c"
    using cancellation_known [OF row0] by blast
  show ?thesis
  proof (cases "it_aborted it \<or> c")
    case True
    then show ?thesis by (simp add: worker_iteration_def c settled_cancel [OF row0])
  next
    case False
    show ?thesis
    proof (cases "case it_event it of None \<Rightarrow> False | Some event \<Rightarrow> connector_event_ok uri event
        \<and> validateConnectorEventContext event \<lparr>ec_conversationId = r_conversation_id run,
            ec_runId = r_run_id run, ec_assistantMessageId = r_assistant_message_id run\<rparr>")
      case invalid: False
      then show ?thesis using False settled_fail [OF row0]
        by (auto simp: worker_iteration_def c Let_def split: option.splits)
    next
      case valid: True
      then obtain event where ev: "it_event it = Some event" "connector_event_ok uri event"
        "validateConnectorEventContext event \<lparr>ec_conversationId = r_conversation_id run,
            ec_runId = r_run_id run, ec_assistantMessageId = r_assistant_message_id run\<rparr>"
        by (auto split: option.splits)
      let ?s1 = "it_env it 1 ?s0"
      have s1: "good (r_run_id run) ?s1" using assms(2) s0 by (simp add: good_env)
      show ?thesis
      proof (cases "materialize run (rl_assistantParticipantId load) now (ce_data event) (fst ?s1)")
        case (Inl e)
        with s1 show ?thesis using False ev by (simp add: worker_iteration_def c Let_def)
      next
        case (Inr d1)
        let ?s2 = "it_env it 2 (d1, snd ?s1)"
        have "good (r_run_id run) (d1, snd ?s1)"
          using s1 materialize_runs [OF Inr] by (subst good_runs [of _ ?s1]) simp_all
        then have s2: "good (r_run_id run) ?s2" using assms(2) by (simp add: good_env)
        show ?thesis
        proof (cases "service_append (wc_retentionMaxEvents cfg) (it_eventId it) (it_occurredAt it)
            (rl_scope load) event ?s2")
          case (Inl e)
          with s2 Inr show ?thesis using False ev
            by (simp add: worker_iteration_def c Let_def \<open>materialize _ _ _ _ _ = _\<close>)
        next
          case app: (Inr r)
          obtain x s3 where r: "r = (x, s3)" by (cases r)
          have "good (r_run_id run) s3"
            using s2 service_append_runs [OF app [unfolded r]] by (subst good_runs [of _ ?s2]) simp_all
          then have "good (r_run_id run) (it_env it 3 s3)" using assms(2) by (simp add: good_env)
          from settled_after_append [OF this] show ?thesis using False ev Inr app
            by (simp add: worker_iteration_def c Let_def r)
        qed
      qed
    qed
  qed
qed

lemma loop_settles:
  assumes "good (r_run_id run) s" and "others_ok (se_env fin)"
    and "\<forall>it \<in> set its. \<forall>k. others_ok (it_env it k)"
  shows "fst (worker_loop uri cfg run load now fin its s) = Inr True
     \<and> settled (r_run_id run) (snd (worker_loop uri cfg run load now fin its s))"
  using assms(1,3)
proof (induction its arbitrary: s)
  case Nil
  have "row_ok (r_run_id run) (se_env fin s)"
    using good_env [OF assms(2) Nil(1)] by (simp add: good_def)
  note facts = cancellation_known [OF this] settled_exception [OF this] settled_cancel [OF this]
    settled_fail [OF this]
  show ?case using facts by (auto simp: Let_def split: bool.split)
next
  case (Cons it its)
  have "\<forall>k. others_ok (it_env it k)" using Cons.prems(2) by simp
  from iteration_settles [OF Cons.prems(1) this, of uri cfg load now]
  show ?case using Cons.IH Cons.prems(2) settled_exception
    by (auto simp: good_def split: loop_result.splits)
qed

text \<open>
  C2: No claimed run is left running by a live worker. Whatever the connector emits, however its
  stream ends, whenever the run is cancelled or the lease lost, and whatever the other processes
  do between the worker's steps (short of deleting the run), \<open>processNext\<close> returns normally: it
  found nothing claimable and did nothing, or the run it claimed ends completed, failed,
  cancelled or waiting for input, with its lease released.
\<close>
theorem processNext_settles:
  assumes "distinct (run_ids (fst s))" and "others_ok load_env"
    and "\<And>ref connector request mid. resolve ref = Some connector \<Longrightarrow>
           others_ok (se_env (snd (connector request mid)))
           \<and> (\<forall>it \<in> set (fst (connector request mid)). \<forall>k. others_ok (it_env it k))"
  shows "case claim cfg now (fst s) of
       None \<Rightarrow> processNext uri cfg resolve load_end load_env now s = (Inr False, s)
     | Some (run, d) \<Rightarrow> \<exists>s'. processNext uri cfg resolve load_end load_env now s = (Inr True, s')
         \<and> settled (r_run_id run) s'"
proof (cases "claim cfg now (fst s)")
  case None
  then show ?thesis by (simp add: processNext_def)
next
  case (Some a)
  obtain run d where a: "a = (run, d)" by (cases a)
  obtain old where old: "old \<in> set (agent_runs (fst s))" "run = claim_update cfg now old"
    "d = update_run (r_run_id old) (claim_update cfg now) (fst s)"
    using claim_cases [OF Some [unfolded a]] by metis
  have good: "good (r_run_id run) (d, b)" for b
    using old assms(1) by (auto simp: good_def row_ok_def) (auto simp: run_ids_def)
  let ?s' = "load_env (d, snd s)"
  have s': "good (r_run_id run) ?s'" by (rule good_env [OF assms(2) good])
  show ?thesis
  proof (cases "resolve (r_agent_ref run)")
    case None
    have "row_ok (r_run_id run) (d, snd s)" using good by (simp add: good_def)
    from settled_fail [OF this] show ?thesis using Some None
      by (simp add: processNext_def a on_db_def)
  next
    case conn: (Some connector)
    show ?thesis
    proof (cases "loadContext run (fst ?s')")
      case (Inl e)
      have "row_ok (r_run_id run) ?s'" using s' by (simp add: good_def)
      from settled_exception [OF this, of now load_end] show ?thesis
        by (cases "on_exception run now load_end ?s'")
          (simp add: Some a processNext_def conn Inl Let_def)
    next
      case (Inr load)
      obtain its fin where c: "connector (rl_request load) (r_assistant_message_id run) = (its, fin)" by fastforce
      have "others_ok (se_env fin)" and "\<forall>it \<in> set its. \<forall>k. others_ok (it_env it k)"
        using assms(3) [OF conn, of "rl_request load" "r_assistant_message_id run"] by (simp_all add: c)
      from loop_settles [OF s' this, of uri cfg load now] show ?thesis
        by (cases "worker_loop uri cfg run load now fin its ?s'")
          (simp add: Some a processNext_def conn Inr Let_def c)
    qed
  qed
qed

subsection \<open>Invariants through a run\<close>

lemma update_run_frame [simp]:
  "messages (update_run runId f d) = messages d" "handoffs (update_run runId f d) = handoffs d"
  by (simp_all add: update_run_def)

text \<open>
  A property of the server's state that the worker's own steps keep: then a whole
  \<open>processNext\<close> keeps it, provided the other processes do.
\<close>

locale worker_invariant =
  fixes holds :: "worker_config \<Rightarrow> server_state \<Rightarrow> bool"
  assumes runs: "holds cfg (d, b) \<Longrightarrow> holds cfg (d\<lparr>agent_runs := rs\<rparr>, b)"
    and handoff_rows: "holds cfg (d, b) \<Longrightarrow> holds cfg (d\<lparr>handoffs := hs\<rparr>, b)"
    and message_end: "holds cfg (d, b) \<Longrightarrow> holds cfg (d\<lparr>messages := update_where p
        (\<lambda>m. m\<lparr>m_status := st, m_completed_at := t\<rparr>) (messages d)\<rparr>, b)"
    and materializes: "holds cfg (d, b) \<Longrightarrow> materialize run pid now data d = Inr d' \<Longrightarrow> holds cfg (d', b)"
    and appends: "holds cfg s \<Longrightarrow>
        service_append (wc_retentionMaxEvents cfg) eid at (scope :: scope) event s = Inr (ev, s') \<Longrightarrow>
        holds cfg s'"
begin

lemma update_run_holds: "holds cfg (d, b) \<Longrightarrow> holds cfg (update_run runId f d, b)"
  unfolding update_run_def by (rule runs)

lemma cancel_holds: "holds cfg s \<Longrightarrow> holds cfg (on_db (cancel_run run now) s)"
  using message_end [OF update_run_holds]
  by (cases s) (simp add: on_db_def cancel_run_def)

lemma fail_holds: "holds cfg s \<Longrightarrow> holds cfg (on_db (fail_run runId code now) s)"
  using handoff_rows [OF update_run_holds]
  by (cases s) (simp add: on_db_def fail_run_def)

lemma complete_holds: "holds cfg s \<Longrightarrow> holds cfg (on_db (complete_run runId now) s)"
  by (cases s) (simp add: on_db_def complete_run_def update_run_holds)

lemma wait_holds: "holds cfg (d, b) \<Longrightarrow> waitForInput runId now d = Inr d' \<Longrightarrow> holds cfg (d', b)"
  by (auto simp: waitForInput_def Let_def runs split: if_splits)

lemma exception_holds: "holds cfg s \<Longrightarrow> holds cfg (snd (on_exception run now fin s))"
  by (auto simp: on_exception_def cancel_holds fail_holds split: sum.split bool.split)

lemma after_append_holds:
  "holds cfg s \<Longrightarrow> case after_append run now data s of
     Settled s' \<Rightarrow> holds cfg s' | Continue s' \<Rightarrow> holds cfg s' | Thrown s' \<Rightarrow> holds cfg s'"
  using wait_holds [of cfg "fst s" "snd s"]
  by (auto simp: after_append_def complete_holds fail_holds split: event_data.split sum.split)

lemma iteration_holds:
  assumes "holds cfg s" and "\<forall>k s. holds cfg s \<longrightarrow> holds cfg (it_env it k s)"
  shows "case worker_iteration uri cfg run load now it s of
     Settled s' \<Rightarrow> holds cfg s' | Continue s' \<Rightarrow> holds cfg s' | Thrown s' \<Rightarrow> holds cfg s'"
proof -
  define s0 where "s0 = it_env it 0 s"
  define s1 where "s1 = it_env it (Suc 0) s0"
  have s0: "holds cfg s0" using assms unfolding s0_def by blast
  then have s1: "holds cfg s1" using assms(2) unfolding s1_def by blast
  note unfolded = worker_iteration_def [of uri cfg run load now it s, folded s0_def, unfolded Let_def
      One_nat_def, folded s1_def]
  show ?thesis
  proof (cases "isCancellationRequested (r_run_id run) (fst s0)")
    case (Inl e)
    with s0 show ?thesis by (simp add: unfolded)
  next
    case c: (Inr c)
    consider (ended) "it_aborted it \<or> c" | (none) "\<not> (it_aborted it \<or> c)" "it_event it = None"
      | (event) event where "\<not> (it_aborted it \<or> c)" "it_event it = Some event" by blast
    then show ?thesis
    proof cases
      case ended
      with c show ?thesis by (simp add: unfolded cancel_holds [OF s0])
    next
      case none
      with c show ?thesis by (simp add: unfolded fail_holds [OF s0])
    next
      case event
      note reduce = unfolded c event fail_holds [OF s0]
      show ?thesis
      proof (cases "materialize run (rl_assistantParticipantId load) now (ce_data event) (fst s1)")
        case (Inl e)
        with s1 event(1) show ?thesis by (simp add: reduce)
      next
        case m: (Inr d1)
        define s2 where "s2 = it_env it 2 (d1, snd s1)"
        have "holds cfg (d1, snd s1)"
          by (rule materializes [OF _ m]) (use s1 in simp)
        then have s2: "holds cfg s2" using assms(2) unfolding s2_def by blast
        show ?thesis
        proof (cases "service_append (wc_retentionMaxEvents cfg) (it_eventId it)
            (it_occurredAt it) (rl_scope load) event s2")
          case (Inl e)
          with s2 m event(1) show ?thesis by (simp add: reduce s2_def [symmetric])
        next
          case a: (Inr r)
          obtain x s3 where r: "r = (x, s3)" by (cases r)
          have "holds cfg (it_env it 3 s3)" using appends [OF s2 a [unfolded r]] assms(2) by blast
          from after_append_holds [OF this, of run now "ce_data event"] show ?thesis
            using m a event(1) by (simp add: reduce r s2_def [symmetric])
        qed
      qed
    qed
  qed
qed

lemma loop_holds:
  assumes "holds cfg s" and "\<forall>s. holds cfg s \<longrightarrow> holds cfg (se_env fin s)"
    and "\<forall>it \<in> set its. \<forall>k s. holds cfg s \<longrightarrow> holds cfg (it_env it k s)"
  shows "holds cfg (snd (worker_loop uri cfg run load now fin its s))"
  using assms(1,3)
proof (induction its arbitrary: s)
  case Nil
  then have "holds cfg (se_env fin s)" using assms(2) by blast
  then show ?case
    by (auto simp: Let_def cancel_holds fail_holds exception_holds split: sum.split bool.split)
next
  case (Cons it its)
  have "\<forall>k s. holds cfg s \<longrightarrow> holds cfg (it_env it k s)" using Cons.prems(2) by simp
  from iteration_holds [OF Cons.prems(1) this, of uri run load now]
  show ?case using Cons.IH Cons.prems(2) exception_holds
    by (auto split: loop_result.splits)
qed

theorem processNext_holds:
  assumes "holds cfg s" and "\<forall>s. holds cfg s \<longrightarrow> holds cfg (load_env s)"
    and "\<And>ref connector request mid. resolve ref = Some connector \<Longrightarrow>
           (\<forall>s. holds cfg s \<longrightarrow> holds cfg (se_env (snd (connector request mid)) s))
           \<and> (\<forall>it \<in> set (fst (connector request mid)). \<forall>k s. holds cfg s \<longrightarrow> holds cfg (it_env it k s))"
  shows "holds cfg (snd (processNext uri cfg resolve load_end load_env now s))"
proof (cases "claim cfg now (fst s)")
  case None
  with assms(1) show ?thesis by (simp add: processNext_def)
next
  case (Some a)
  obtain run d where a: "a = (run, d)" by (cases a)
  obtain f i where "d = update_run i f (fst s)" using claim_cases [OF Some [unfolded a]] by metis
  then have d: "holds cfg (d, snd s)" using assms(1) by (simp add: update_run_holds)
  then have s': "holds cfg (load_env (d, snd s))" using assms(2) by blast
  show ?thesis
  proof (cases "resolve (r_agent_ref run)")
    case None
    with fail_holds [OF d] Some show ?thesis by (simp add: processNext_def a on_db_def)
  next
    case conn: (Some connector)
    show ?thesis
    proof (cases "loadContext run (fst (load_env (d, snd s)))")
      case (Inl e)
      with s' Some conn show ?thesis by (simp add: processNext_def a Let_def exception_holds)
    next
      case (Inr load)
      obtain its fin where c: "connector (rl_request load) (r_assistant_message_id run) = (its, fin)" by fastforce
      have "holds cfg (snd (worker_loop uri cfg run load now fin its (load_env (d, snd s))))"
        using assms(3) [OF conn, of "rl_request load" "r_assistant_message_id run"] by (intro loop_holds [OF s']) (simp_all add: c)
      with Some conn Inr show ?thesis by (simp add: processNext_def a Let_def c)
    qed
  qed
qed

end

subsection \<open>Message numbers through a run\<close>

text \<open>What the numbering depends on: a projection of the conversations and the messages.\<close>

definition numbering_view :: "db \<Rightarrow> (ident \<times> ident \<times> ident \<times> int) list \<times> (ident \<times> ident \<times> ident \<times> ident \<times> int) list" where
  "numbering_view d =
     (map (\<lambda>c. (c_conversation_id c, c_tenant_id c, c_site_id c, c_next_message_sequence c))
        (conversations d),
      map (\<lambda>m. (m_message_id m, m_conversation_id m, m_tenant_id m, m_site_id m, m_sequence m))
        (messages d))"

definition numbering_ok ::
  "(ident \<times> ident \<times> ident \<times> int) list \<times> (ident \<times> ident \<times> ident \<times> ident \<times> int) list \<Rightarrow> bool" where
  "numbering_ok = (\<lambda>(cs, ms).
     distinct (map fst cs) \<and> distinct (map fst ms)
     \<and> (\<forall>(cid, t, s, n) \<in> set cs. 1 \<le> n \<and>
          map (\<lambda>(_, _, _, _, k). k) (filter (\<lambda>(_, c, _, _, _). c = cid) ms) = [1..n - 1])
     \<and> (\<forall>(_, cid, t, s, _) \<in> set ms. \<exists>(c, t', s', _) \<in> set cs. c = cid \<and> t' = t \<and> s' = s))"

lemma message_inv_view: "message_inv d = numbering_ok (numbering_view d)"
  by (simp add: message_inv_def numbering_ok_def numbering_view_def list_all_iff comp_def
      conv_messages_def filter_map case_prod_unfold)

lemma message_inv_cong: "numbering_view d = numbering_view d' \<Longrightarrow> message_inv d = message_inv d'"
  by (simp add: message_inv_view)

lemma message_inv_update_messages:
  assumes "\<And>m. m_message_id (f m) = m_message_id m \<and> m_conversation_id (f m) = m_conversation_id m
     \<and> m_tenant_id (f m) = m_tenant_id m \<and> m_site_id (f m) = m_site_id m
     \<and> m_sequence (f m) = m_sequence m"
  shows "message_inv (d\<lparr>messages := update_where p f (messages d)\<rparr>) = message_inv d"
  by (rule message_inv_cong) (simp add: numbering_view_def map_update_where assms)

lemma message_inv_start:
  assumes "message_inv d" and "start_assistant run pid now d = Inr d'"
  shows "message_inv d'"
proof (cases "message_exists d (r_assistant_message_id run)")
  case True
  with assms show ?thesis by (simp add: start_assistant_def)
next
  case False
  let ?f = "\<lambda>c. c\<lparr>c_next_message_sequence := c_next_message_sequence c + 1, c_updated_at := to_pg now\<rparr>"
  obtain c where c: "find (in_run_conversation run) (conversations d) = Some c"
    and ins: "insert_message (assistant_row run pid (c_next_message_sequence c) now)
       (d\<lparr>conversations := update_where (in_run_conversation run) ?f (conversations d)\<rparr>) = Inr d'"
    using assms(2) False by (auto simp: start_assistant_def split: option.splits if_splits)
  have c': "c \<in> set (conversations d)" "in_run_conversation run c" using find_SomeD [OF c] by auto
  show ?thesis
    by (rule message_inv_append [where p = "in_run_conversation run" and f = ?f
          and m = "assistant_row run pid (c_next_message_sequence c) now", OF assms(1) c'])
      (use False c'(2) insert_message_Inr [OF ins] in
        \<open>simp_all add: in_run_conversation_def assistant_row_def message_exists_def\<close>)
qed

lemma message_inv_materialize:
  assumes "message_inv d" and "materialize run pid now data d = Inr d'"
  shows "message_inv d'"
proof -
  have same: "message_inv d'" if "conversations d' = conversations d" "messages d' = messages d"
    using assms(1) that by (simp add: message_inv_view numbering_view_def)
  show ?thesis
  proof (cases data)
    case MessageStarted
    with assms show ?thesis by (auto intro: message_inv_start)
  next
    case (MessageCompleted parts)
    with assms show ?thesis
      by (auto simp: complete_message_def Let_def message_inv_update_messages split: if_splits)
  next
    case (HandoffRequested h)
    with assms(2) show ?thesis
      by (intro same) (auto simp: request_handoff_def split: if_splits option.splits dest!: insert_Inr)
  next
    case (ContactRequested c)
    with assms(2) show ?thesis
      by (intro same) (auto simp: request_contact_def split: if_splits option.splits dest!: insert_Inr)
  next
    case (HandoffCompleted h)
    with assms(2) show ?thesis
      by (intro same) (auto simp: complete_handoff_def Let_def split: if_splits)
  qed (use assms in auto)
qed

lemma message_inv_append_event:
  assumes "message_inv d" and "append_event n eid now scope event d = Inr (ev, d')"
  shows "message_inv d'"
proof -
  have "numbering_view d' = numbering_view d"
    using assms(2) by (rule append_event_cases) (simp add: numbering_view_def map_update_where)
  with assms(1) show ?thesis by (simp add: message_inv_view)
qed

interpretation numbering: worker_invariant "\<lambda>cfg s. message_inv (fst s)"
proof (unfold_locales, goal_cases)
  case (4 cfg d b run pid now data d')
  then show ?case by (auto intro: message_inv_materialize)
next
  case (5 cfg s eid at scope event ev s')
  then show ?case by (cases s) (auto simp: service_append_def intro: message_inv_append_event)
next
  case (3 cfg d b p st t)
  then show ?case by (simp add: message_inv_update_messages)
qed (simp_all add: message_inv_view numbering_view_def)

text \<open>
  C7: Processing a run keeps every conversation's message numbers gap-free. Whatever the
  connector emits, whenever the run fails or is cancelled, after \<open>processNext\<close> the messages of
  each conversation are still numbered 1, 2, 3, ... up to its counter, and the assistant's
  message exists at most once although a run may be attempted several times, provided the other
  processes keep the numbering.
\<close>
theorem processNext_keeps_numbering:
  assumes "message_inv (fst s)" and "\<forall>s. message_inv (fst s) \<longrightarrow> message_inv (fst (load_env s))"
    and "\<And>ref connector request mid. resolve ref = Some connector \<Longrightarrow>
        (\<forall>s. message_inv (fst s) \<longrightarrow> message_inv (fst (se_env (snd (connector request mid)) s)))
        \<and> (\<forall>it \<in> set (fst (connector request mid)). \<forall>k s. message_inv (fst s) \<longrightarrow>
             message_inv (fst (it_env it k s)))"
    and "processNext uri cfg resolve load_end load_env now s = (result, s')"
  shows "message_inv (fst s')
     \<and> (\<forall>c \<in> set (conversations (fst s')). map m_sequence (conv_messages (fst s') (c_conversation_id c))
          = [1..c_next_message_sequence c - 1])
     \<and> (\<forall>mid. length (filter (\<lambda>m. m_message_id m = mid) (messages (fst s'))) \<le> 1)"
proof -
  have inv: "message_inv (fst s')"
    using numbering.processNext_holds [OF assms(1,2), of resolve uri cfg load_end now] assms(3,4)
    by simp
  then have dist: "distinct (map m_message_id (messages (fst s')))"
    by (simp add: message_inv_def)
  have "length (filter (\<lambda>m. m_message_id m = mid) ms) \<le> 1"
    if "distinct (map m_message_id ms)" for mid and ms :: "message_row list"
    using that
  proof (induction ms)
    case (Cons a ms)
    have "filter (\<lambda>m. m_message_id m = m_message_id a) ms = []"
      unfolding filter_empty_conv
    proof
      fix x assume "x \<in> set ms"
      then have "m_message_id x \<in> set (map m_message_id ms)" by simp
      with Cons.prems show "m_message_id x \<noteq> m_message_id a" by auto
    qed
    with Cons show ?case by auto
  qed simp
  with inv dist show ?thesis by (auto simp: message_inv_def list_all_iff)
qed

subsection \<open>A stale worker overwrites\<close>

text \<open>
  C31: The status writes at the end of a run do not check that the worker still holds it. A
  worker's lease expires, another one claims the run and completes it: the first one's renewal
  then fails, which aborts it, and its next step sets the completed run to cancelled.
\<close>
theorem lost_lease_overwrites_result:
  assumes "claim cfg t0 d0 = Some (runA, d1)" and "claim cfg t1 d1 = Some (runB, d2)"
    and "r_run_id runB = r_run_id runA" and "distinct (run_ids d0)"
    and "fst (it_env it 0 s) = complete_run (r_run_id runA) t2 d2" and "it_aborted it"
  shows "\<not> fst (renewLease cfg t3 runA (complete_run (r_run_id runA) t2 d2))
     \<and> status_of (r_run_id runA) (complete_run (r_run_id runA) t2 d2) = Some Run_completed
     \<and> (\<exists>s'. worker_iteration uri cfg runA load now it s = Settled s'
          \<and> status_of (r_run_id runA) (fst s') = Some Run_cancelled)"
proof -
  let ?id = "r_run_id runA" and ?d3 = "complete_run (r_run_id runA) t2 d2"
  obtain a where a: "a \<in> set (agent_runs d0)" "runA = claim_update cfg t0 a"
    "d1 = update_run (r_run_id a) (claim_update cfg t0) d0"
    using assms(1) by (rule claim_cases)
  obtain b :: run_row where b: "d2 = update_run (r_run_id b) (claim_update cfg t1) d1"
    using assms(2) by (rule claim_cases)
  have ids: "run_ids ?d3 = run_ids d0" by (simp add: complete_run_def b a(3))
  have "?id \<in> set (run_ids d0)" using a by (simp add: run_ids_def)
  then obtain r where r: "run_row_of ?id d2 = Some r"
    using run_row_of_None [of ?id d2] by (auto simp: b a(3))
  then have row3: "run_row_of ?id ?d3 = Some (r\<lparr>r_status := Run_completed,
     r_completed_at := Some (to_pg t2), r_lease_expires_at := None, r_updated_at := to_pg t2\<rparr>)"
    by (simp add: complete_run_def run_row_of_update)
  have "\<not> (r_run_id x = ?id \<and> r_status x = Run_running)" if x: "x \<in> set (agent_runs ?d3)" for x
  proof -
    have "run_row_of (r_run_id x) ?d3 = Some x"
      by (rule run_row_of_Some [OF _ x]) (simp add: ids assms(4))
    with row3 show ?thesis by auto
  qed
  then have "filter (\<lambda>x. r_run_id x = ?id \<and> r_status x = Run_running \<and> r_attempt x = r_attempt runA)
      (agent_runs ?d3) = []" by (auto simp: filter_empty_conv)
  then have renewed: "\<not> fst (renewLease cfg t3 runA ?d3)"
    by (simp add: renewLease_def Let_def count_where_def)
  have check: "isCancellationRequested ?id ?d3 = Inr False"
    using row3 by (simp add: isCancellationRequested_def run_row_of_def)
  have "worker_iteration uri cfg runA load now it s = Settled (on_db (cancel_run runA now) (it_env it 0 s))"
    using assms(5,6) check by (simp add: worker_iteration_def Let_def)
  moreover have "status_of ?id (fst (on_db (cancel_run runA now) (it_env it 0 s))) = Some Run_cancelled"
    using row3 assms(5) by (simp add: on_db_def cancel_run_def status_of_def run_row_of_update)
  ultimately show ?thesis using renewed row3 by (auto simp: status_of_def)
qed

text \<open>
  A cancellation can be lost. The worker reads the status before it stores an event; a
  cancellation accepted after that read (the client was told \<open>cancel_requested\<close>) is overwritten
  when the event is the run's completion.
\<close>
theorem late_cancellation_lost:
  assumes "isCancellationRequested (r_run_id run) (fst (it_env it 0 s)) = Inr False"
    and "\<not> it_aborted it" and "it_event it = Some event" and "ce_data event = RunCompleted"
    and "connector_event_ok uri event"
    and "validateConnectorEventContext event \<lparr>ec_conversationId = r_conversation_id run,
           ec_runId = r_run_id run, ec_assistantMessageId = r_assistant_message_id run\<rparr>"
    and "service_append (wc_retentionMaxEvents cfg) (it_eventId it) (it_occurredAt it) (rl_scope load)
           event (it_env it 2 (fst (it_env it 1 (it_env it 0 s)), snd (it_env it 1 (it_env it 0 s))))
         = Inr (ev, s3)"
    and "status_of (r_run_id run) (fst (it_env it 3 s3)) = Some Run_cancel_requested"
  shows "\<exists>s'. worker_iteration uri cfg run load now it s = Settled s'
     \<and> status_of (r_run_id run) (fst s') = Some Run_completed"
proof -
  have "worker_iteration uri cfg run load now it s
      = Settled (on_db (complete_run (r_run_id run) now) (it_env it 3 s3))"
    using assms(1-7) by (simp add: worker_iteration_def Let_def after_append_def)
  moreover have "status_of (r_run_id run) (fst (on_db (complete_run (r_run_id run) now) (it_env it 3 s3)))
      = Some Run_completed"
    using assms(8) by (auto simp: on_db_def complete_run_def status_of_def run_row_of_update)
  ultimately show ?thesis by blast
qed

subsection \<open>Sample executions\<close>

definition sample_config :: worker_config where
  "sample_config = \<lparr>wc_leaseMs = 1000, wc_maxAttempts = 3, wc_retentionMaxEvents = 100\<rparr>"

definition sample_end :: stream_end where
  "sample_end = \<lparr>se_throws = False, se_aborted = False, se_env = (\<lambda>s. s)\<rparr>"

definition sample_step :: "event_data \<Rightarrow> iteration" where
  "sample_step data = \<lparr>it_event = Some (sample_event data), it_eventId = ''e1'', it_occurredAt = 6,
     it_aborted = False, it_env = (\<lambda>_ s. s)\<rparr>"

definition sample_state :: server_state where
  "sample_state = (sample_run_db (sample_run Run_queued 0 None), new_broker 4)"

lemma sample_run_id [simp]: "r_run_id (sample_run st n l) = ''r1''"
  by (simp add: sample_run_def)

lemma sample_claim:
  "claim sample_config 5 (sample_run_db (sample_run Run_queued 0 None)) =
     Some (sample_run Run_running 1 (Some 1005000)\<lparr>r_claimed_at := Some 5000, r_updated_at := 5000\<rparr>,
       sample_run_db (sample_run Run_running 1 (Some 1005000)
         \<lparr>r_claimed_at := Some 5000, r_updated_at := 5000\<rparr>))"
  by (simp add: claim_def sample_config_def sample_run_db_def sample_run_def claimable_def
      claim_update_def order_asc_def update_run_def to_pg_def update_where_def)

lemma claim_is_exclusive_witness:
  "\<exists>run d'. claim sample_config 5 (sample_run_db (sample_run Run_queued 0 None)) = Some (run, d')
     \<and> r_attempt run \<le> 3 \<and> run_row_of ''r1'' d' = Some run"
proof -
  have "distinct (run_ids (sample_run_db (sample_run Run_queued 0 None)))"
    by (simp add: run_ids_def sample_run_db_def)
  note exclusive = claim_is_exclusive [OF sample_claim this]
  then show ?thesis by (simp add: sample_claim) (simp add: sample_config_def sample_run_def)
qed


lemma others_ok_same [simp]: "others_ok (\<lambda>s. s)"
  by (simp add: others_ok_def keeps_runs_def keeps_distinct_def)

lemma processNext_settles_witness:
  "\<exists>s'. processNext (\<lambda>_. True) sample_config (\<lambda>_. Some (\<lambda>_ _. ([sample_step RunCompleted], sample_end)))
      sample_end (\<lambda>s. s) 5 sample_state = (Inr True, s') \<and> settled ''r1'' s'"
proof -
  have "distinct (run_ids (fst sample_state))"
    by (simp add: sample_state_def run_ids_def sample_run_db_def)
  moreover have "claim sample_config 5 (fst sample_state) =
      Some (sample_run Run_running 1 (Some 1005000)\<lparr>r_claimed_at := Some 5000, r_updated_at := 5000\<rparr>,
        sample_run_db (sample_run Run_running 1 (Some 1005000)
         \<lparr>r_claimed_at := Some 5000, r_updated_at := 5000\<rparr>))"
    unfolding sample_state_def fst_conv by (rule sample_claim)
  moreover have "case claim sample_config 5 (fst sample_state) of
       None \<Rightarrow> processNext (\<lambda>_. True) sample_config
         (\<lambda>_. Some (\<lambda>_ _. ([sample_step RunCompleted], sample_end))) sample_end (\<lambda>s. s) 5 sample_state
         = (Inr False, sample_state)
     | Some (run, d) \<Rightarrow> \<exists>s'. processNext (\<lambda>_. True) sample_config
         (\<lambda>_. Some (\<lambda>_ _. ([sample_step RunCompleted], sample_end))) sample_end (\<lambda>s. s) 5 sample_state
         = (Inr True, s') \<and> settled (r_run_id run) s'"
    using \<open>distinct _\<close>
    by (rule processNext_settles) (auto simp: sample_end_def sample_step_def)
  ultimately show ?thesis by simp
qed

lemma sample_state_numbering: "message_inv (fst sample_state)"
  by (simp add: message_inv_def sample_state_def sample_run_db_def sample_defs conv_messages_def)

lemma processNext_keeps_numbering_witness:
  "\<exists>result s'. processNext (\<lambda>_. True) sample_config
      (\<lambda>_. Some (\<lambda>_ _. ([sample_step RunCompleted], sample_end))) sample_end (\<lambda>s. s) 5 sample_state
      = (result, s') \<and> message_inv (fst s')"
proof -
  obtain result s' where run: "processNext (\<lambda>_. True) sample_config
      (\<lambda>_. Some (\<lambda>_ _. ([sample_step RunCompleted], sample_end))) sample_end (\<lambda>s. s) 5 sample_state
      = (result, s')" by (metis prod.exhaust)
  have "message_inv (fst s')"
    by (rule processNext_keeps_numbering [OF sample_state_numbering _ _ run, THEN conjunct1])
      (auto simp: sample_end_def sample_step_def)
  with run show ?thesis by blast
qed

lemma lost_lease_overwrites_result_witness:
  "\<exists>runA d1 runB d2 load s'. claim sample_config 5 (sample_run_db (sample_run Run_queued 0 None))
       = Some (runA, d1)
     \<and> claim sample_config 2000 d1 = Some (runB, d2)
     \<and> worker_iteration (\<lambda>_. True) sample_config runA load 2600
         (sample_step RunCompleted\<lparr>it_aborted := True\<rparr>)
         (complete_run ''r1'' 2500 d2, new_broker 4) = Settled s'
     \<and> status_of ''r1'' (fst s') = Some Run_cancelled"
proof -
  define d0 where "d0 = sample_run_db (sample_run Run_queued 0 None)"
  obtain runA d1 where A: "claim sample_config 5 d0 = Some (runA, d1)" "r_run_id runA = ''r1''"
    and d1: "d1 = sample_run_db (sample_run Run_running 1 (Some 1005000)
         \<lparr>r_claimed_at := Some 5000, r_updated_at := 5000\<rparr>)"
    using sample_claim by (simp add: d0_def sample_run_def)
  obtain runB d2 where B: "claim sample_config 2000 d1 = Some (runB, d2)" "r_run_id runB = ''r1''"
    by (simp add: d1 claim_def sample_config_def sample_run_db_def sample_run_def claimable_def
        order_asc_def to_pg_def claim_update_def)
  have "distinct (run_ids d0)" by (simp add: d0_def run_ids_def sample_run_db_def)
  then have "distinct (run_ids d0)" .
  moreover have "r_run_id runB = r_run_id runA" using A(2) B(2) by simp
  moreover define it where "it = sample_step RunCompleted\<lparr>it_aborted := True\<rparr>"
  moreover define s where "s = (complete_run ''r1'' 2500 d2, new_broker 4)"
  ultimately have "fst (it_env it 0 s) = complete_run (r_run_id runA) 2500 d2" and "it_aborted it"
    using A(2) by (simp_all add: sample_step_def)
  from lost_lease_overwrites_result [OF A(1) B(1) \<open>r_run_id runB = r_run_id runA\<close>
      \<open>distinct (run_ids d0)\<close> this, THEN conjunct2, THEN conjunct2]
  obtain s' where "worker_iteration (\<lambda>_. True) sample_config runA undefined 2600 it s = Settled s'"
    and "status_of ''r1'' (fst s') = Some Run_cancelled"
    unfolding A(2) by blast
  with A B show ?thesis unfolding d0_def it_def s_def by blast
qed

definition sample_load :: run_load where
  "sample_load = \<lparr>rl_request = undefined, rl_assistantParticipantId = ''a1'',
     rl_scope = run_scope (sample_run Run_running 1 None) ''p1''\<rparr>"

lemma late_cancellation_lost_witness:
  "\<exists>s'. worker_iteration (\<lambda>_. True) sample_config (sample_run Run_running 1 None) sample_load 7
      (sample_step RunCompleted\<lparr>it_env := (\<lambda>k s. if k = 3
         then (update_run ''r1'' (\<lambda>r. r\<lparr>r_status := Run_cancel_requested\<rparr>) (fst s), snd s) else s)\<rparr>)
      (sample_run_db (sample_run Run_running 1 None), new_broker 4) = Settled s'
     \<and> status_of ''r1'' (fst s') = Some Run_completed"
proof -
  let ?run = "sample_run Run_running 1 None"
  let ?s = "(sample_run_db ?run, new_broker 4)"
  let ?it = "sample_step RunCompleted\<lparr>it_env := (\<lambda>k s. if k = 3
         then (update_run ''r1'' (\<lambda>r. r\<lparr>r_status := Run_cancel_requested\<rparr>) (fst s), snd s) else s)\<rparr>"
  obtain ev s3 where app: "service_append (wc_retentionMaxEvents sample_config) (it_eventId ?it)
      (it_occurredAt ?it) (rl_scope sample_load) (sample_event RunCompleted) ?s = Inr (ev, s3)"
    and st: "status_of ''r1'' (fst (it_env ?it 3 s3)) = Some Run_cancel_requested"
    by (simp add: service_append_def append_event_def sample_load_def run_scope_def sample_config_def
        sample_run_db_def sample_run_def sample_step_def sample_event_def in_scope_def sample_defs
        int4_max_def constraint_defs delete_where_def update_where_def status_of_def run_row_of_def
        update_run_def)
  have valid: "connector_event_ok (\<lambda>_. True) (sample_event RunCompleted)"
    by (simp add: connector_event_ok_def sample_event_def opaque_id_def is_alnum_def is_upper_def
        is_lower_def is_digit_def opaque_tail_char_def code_unit_def)
  show ?thesis
    using late_cancellation_lost [of ?run ?it ?s "sample_event RunCompleted" "\<lambda>_. True" sample_config
        sample_load ev s3 7] app st valid
    by (simp add: sample_step_def isCancellationRequested_def sample_run_db_def sample_run_def
        sample_event_def validateConnectorEventContext_def)
qed

end
