(* ===== verification/Connectors.thy ===== *)
theory Connectors
  imports RunExecution
begin

text \<open>
  The contract between the run worker and a connector (\<open>ChatConnector\<close> of
  \<open>server-sdk/src/index.ts\<close>): a connector that is not aborted emits only events that pass the
  worker's checks and ends with a final one. The worker's side is proved once in the locale
  \<open>chat_connector\<close>: such a connector is never blamed for a failed run. \<open>completed_run_streamed\<close>
  is the converse promise to the browser: a run that is reported completed was stored and
  published whole.
\<close>

record execution =
  ex_request :: connector_run_request
  ex_assistantMessageId :: ident

definition target_of :: "execution \<Rightarrow> event_context" where
  "target_of x = \<lparr>ec_conversationId = rq_conversationId (ex_request x),
     ec_runId = rq_runId (ex_request x), ec_assistantMessageId = ex_assistantMessageId x\<rparr>"

fun is_final :: "event_data \<Rightarrow> bool" where
  "is_final RunCompleted = True"
| "is_final (RunFailed _) = True"
| "is_final (ContactRequested _) = True"
| "is_final _ = False"

text \<open>The failure codes by which the worker blames the connector's stream.\<close>

definition reserved_codes :: "string set" where
  "reserved_codes = {''INVALID_CONNECTOR_EVENT'', ''CONNECTOR_INCOMPLETE''}"

definition unblamed :: "ident \<Rightarrow> server_state \<Rightarrow> bool" where
  "unblamed runId s \<longleftrightarrow> (\<forall>r \<in> set (agent_runs (fst s)). r_run_id r = runId \<longrightarrow>
     opt_ok (\<lambda>code. code \<notin> reserved_codes) (r_error_code r))"

definition keeps_unblamed :: "ident \<Rightarrow> (server_state \<Rightarrow> server_state) \<Rightarrow> bool" where
  "keeps_unblamed runId f \<longleftrightarrow> (\<forall>s. unblamed runId s \<longrightarrow> unblamed runId (f s))"

subsection \<open>One step of the worker, case by case\<close>

lemma worker_iteration_cases:
  obtains (unknown) "worker_iteration uri cfg run load now it s = Thrown (it_env it 0 s)"
  | (cancelled) "worker_iteration uri cfg run load now it s = Settled (on_db (cancel_run run now) (it_env it 0 s))"
  | (invalid) "worker_iteration uri cfg run load now it s = Settled (on_db (fail_run (r_run_id run) ''INVALID_CONNECTOR_EVENT'' now) (it_env it 0 s))"
      and "\<And>e. it_event it = Some e \<Longrightarrow> connector_event_ok uri e \<Longrightarrow>
         \<not> validateConnectorEventContext e \<lparr>ec_conversationId = r_conversation_id run,
            ec_runId = r_run_id run, ec_assistantMessageId = r_assistant_message_id run\<rparr>"
  | (refused) "worker_iteration uri cfg run load now it s = Thrown (it_env it 1 (it_env it 0 s))"
  | (unstored) e d1 where "it_event it = Some e"
      and "materialize run (rl_assistantParticipantId load) now (ce_data e)
             (fst (it_env it 1 (it_env it 0 s))) = Inr d1"
      and "worker_iteration uri cfg run load now it s = Thrown (it_env it 2 (d1, snd (it_env it 1 (it_env it 0 s))))"
  | (stored) e d1 ev s3 where "it_event it = Some e" and "connector_event_ok uri e"
      and "validateConnectorEventContext e \<lparr>ec_conversationId = r_conversation_id run,
            ec_runId = r_run_id run, ec_assistantMessageId = r_assistant_message_id run\<rparr>"
      and "materialize run (rl_assistantParticipantId load) now (ce_data e)
             (fst (it_env it 1 (it_env it 0 s))) = Inr d1"
      and "service_append (wc_retentionMaxEvents cfg) (it_eventId it) (it_occurredAt it)
             (rl_scope load) e (it_env it 2 (d1, snd (it_env it 1 (it_env it 0 s)))) = Inr (ev, s3)"
      and "worker_iteration uri cfg run load now it s = after_append run now (ce_data e) (it_env it 3 s3)"
proof -
  let ?s1 = "it_env it 1 (it_env it 0 s)"
  show ?thesis
  proof (cases "isCancellationRequested (r_run_id run) (fst (it_env it 0 s))")
    case (Inl e)
    then show ?thesis by (intro unknown) (simp add: worker_iteration_def Let_def)
  next
    case c: (Inr c)
    show ?thesis
    proof (cases "it_aborted it \<or> c")
      case True
      with c show ?thesis by (intro cancelled) (simp add: worker_iteration_def Let_def)
    next
      case go: False
      show ?thesis
      proof (cases "\<exists>e. it_event it = Some e \<and> connector_event_ok uri e
          \<and> validateConnectorEventContext e \<lparr>ec_conversationId = r_conversation_id run,
            ec_runId = r_run_id run, ec_assistantMessageId = r_assistant_message_id run\<rparr>")
        case False
        with c go show ?thesis
          by (intro invalid) (auto simp: worker_iteration_def Let_def split: option.split)
      next
        case True
        then obtain e where e: "it_event it = Some e" "connector_event_ok uri e"
          "validateConnectorEventContext e \<lparr>ec_conversationId = r_conversation_id run,
            ec_runId = r_run_id run, ec_assistantMessageId = r_assistant_message_id run\<rparr>" by blast
        show ?thesis
        proof (cases "materialize run (rl_assistantParticipantId load) now (ce_data e) (fst ?s1)")
          case (Inl x)
          with c go e show ?thesis by (intro refused) (simp add: worker_iteration_def Let_def)
        next
          case d1: (Inr d1)
          show ?thesis
          proof (cases "service_append (wc_retentionMaxEvents cfg) (it_eventId it)
              (it_occurredAt it) (rl_scope load) e (it_env it 2 (d1, snd ?s1))")
            case (Inl x)
            with c go e d1 show ?thesis
              by (intro unstored [OF e(1) d1]) (simp add: worker_iteration_def Let_def)
          next
            case (Inr r)
            obtain ev s3 where r: "r = (ev, s3)" by (cases r)
            from c go e d1 Inr show ?thesis
              by (intro stored [OF e d1 Inr [unfolded r]]) (simp add: worker_iteration_def Let_def r)
          qed
        qed
      qed
    qed
  qed
qed

subsection \<open>The contract\<close>

lemma unblamed_runs: "agent_runs (fst s) = agent_runs (fst s') \<Longrightarrow> unblamed runId s = unblamed runId s'"
  by (simp add: unblamed_def)

lemma unblamed_update:
  assumes "unblamed runId s" and "agent_runs d = update_where p f (agent_runs (fst s))"
    and "\<And>r. r_run_id (f r) = r_run_id r"
    and "\<And>r. opt_ok (\<lambda>code. code \<notin> reserved_codes) (r_error_code r) \<Longrightarrow>
      opt_ok (\<lambda>code. code \<notin> reserved_codes) (r_error_code (f r))"
  shows "unblamed runId (d, b)"
  unfolding unblamed_def fst_conv assms(2)
proof (intro ballI impI)
  fix y assume new: "y \<in> set (update_where p f (agent_runs (fst s)))" and y: "r_run_id y = runId"
  from new obtain x where "x \<in> set (agent_runs (fst s))" and "y = (if p x then f x else x)"
    by (rule update_where_memberD)
  with assms(1,3,4) y show "opt_ok (\<lambda>code. code \<notin> reserved_codes) (r_error_code y)"
    by (cases "p x") (simp_all add: unblamed_def)
qed

lemma unblamed_cancel: "unblamed (r_run_id run) s \<Longrightarrow> unblamed (r_run_id run) (on_db (cancel_run run now) s)"
  unfolding on_db_def by (erule unblamed_update, simp add: cancel_run_def update_run_def, simp_all)

lemma unblamed_complete: "unblamed runId s \<Longrightarrow> unblamed runId (on_db (complete_run runId now) s)"
  unfolding on_db_def by (erule unblamed_update, simp add: complete_run_def update_run_def, simp_all)

lemma unblamed_fail: "code \<notin> reserved_codes \<Longrightarrow> unblamed runId s \<Longrightarrow>
   unblamed runId (on_db (fail_run runId code now) s)"
  unfolding on_db_def by (erule unblamed_update, simp add: fail_run_def update_run_def, simp_all)

lemma unblamed_wait: "waitForInput runId now (fst s) = Inr d \<Longrightarrow> unblamed runId s \<Longrightarrow>
   unblamed runId (d, b)"
  by (erule unblamed_update, simp add: waitForInput_def Let_def split: if_splits, fastforce, simp_all)

lemma unblamed_exception:
  assumes "unblamed (r_run_id run) s"
  shows "unblamed (r_run_id run) (snd (on_exception run now fin s))"
proof -
  have "''CONNECTOR_EXECUTION_FAILED'' \<notin> reserved_codes" by (simp add: reserved_codes_def)
  with assms show ?thesis
    by (auto simp: on_exception_def unblamed_cancel unblamed_fail split: sum.split bool.split)
qed

lemma unblamed_after_append:
  assumes "unblamed (r_run_id run) s" and "\<And>code. data = RunFailed code \<Longrightarrow> code \<notin> reserved_codes"
  shows "case after_append run now data s of
       Settled s' \<Rightarrow> unblamed (r_run_id run) s'
     | Continue s' \<Rightarrow> s' = s \<and> \<not> is_final data
     | Thrown s' \<Rightarrow> s' = s"
  using assms
  by (auto simp: after_append_def unblamed_complete unblamed_fail split: event_data.split sum.split
      intro: unblamed_wait)

locale chat_connector =
  fixes emits :: "'x \<Rightarrow> connector_event list" and target :: "'x \<Rightarrow> event_context"
    and ready :: "'x \<Rightarrow> bool" and uri :: "string \<Rightarrow> bool"
  assumes emits_valid: "ready x \<Longrightarrow> e \<in> set (emits x) \<Longrightarrow>
      connector_event_ok uri e \<and> validateConnectorEventContext e (target x)"
    and emits_code: "ready x \<Longrightarrow> e \<in> set (emits x) \<Longrightarrow> ce_data e = RunFailed code \<Longrightarrow>
      code \<notin> reserved_codes"
    and emits_final: "ready x \<Longrightarrow> emits x \<noteq> [] \<and> is_final (ce_data (last (emits x)))"
begin

lemma suffix_unblamed:
  assumes "ready x" and "target x = \<lparr>ec_conversationId = r_conversation_id run,
      ec_runId = r_run_id run, ec_assistantMessageId = r_assistant_message_id run\<rparr>"
    and "set es \<subseteq> set (emits x)" and "es \<noteq> []" and "is_final (ce_data (last es))"
    and "map it_event its = map Some es"
    and "\<forall>it \<in> set its. \<forall>k. keeps_unblamed (r_run_id run) (it_env it k)"
    and "unblamed (r_run_id run) s"
  shows "unblamed (r_run_id run) (snd (worker_loop uri cfg run load now fin its s))"
  using assms(3-8)
proof (induction es arbitrary: its s)
  case (Cons e es)
  obtain it its' where its: "its = it # its'" and e: "it_event it = Some e"
    and its': "map it_event its' = map Some es" using Cons.prems(4) by auto
  have env: "unblamed (r_run_id run) (it_env it k s)" if "unblamed (r_run_id run) s" for k s
    using Cons.prems(5) that unfolding its keeps_unblamed_def by (metis list.set_intros(1))
  let ?s1 = "it_env it 1 (it_env it 0 s)"
  have s1: "unblamed (r_run_id run) ?s1" using env Cons.prems(6) by blast
  have s2: "unblamed (r_run_id run) (it_env it 2 (d1, snd ?s1))"
    if "materialize run (rl_assistantParticipantId load) now (ce_data e') (fst ?s1) = Inr d1"
    for d1 and e' :: connector_event
    using s1 materialize_runs [OF that] by (intro env) (subst unblamed_runs [of _ ?s1], simp_all)
  have valid: "connector_event_ok uri e \<and> validateConnectorEventContext e (target x)"
    using emits_valid [OF assms(1)] Cons.prems(1) by simp
  show ?case
  proof (cases rule: worker_iteration_cases [of uri cfg run load now it s])
    case (stored e' d1 ev s3)
    have "unblamed (r_run_id run) s3"
      using s2 [OF stored(4)] service_append_runs [OF stored(5)] unblamed_runs by blast
    then have "unblamed (r_run_id run) (it_env it 3 s3)" by (rule env)
    note after = unblamed_after_append [OF this, of "ce_data e" now]
    have code: "code \<notin> reserved_codes" if "ce_data e = RunFailed code" for code
      using emits_code [OF assms(1) _ that] Cons.prems(1) by simp
    have "e' = e" using stored(1) e by simp
    show ?thesis
    proof (cases es)
      case Nil
      then have "is_final (ce_data e)" using Cons.prems(3) by simp
      with after code stored(6) \<open>unblamed _ (it_env it 3 s3)\<close> show ?thesis
        by (auto simp: its \<open>e' = e\<close> unblamed_exception split: loop_result.splits)
    next
      case (Cons a list)
      have "unblamed (r_run_id run) (snd (worker_loop uri cfg run load now fin its' (it_env it 3 s3)))"
        using Cons.prems Cons its' \<open>unblamed _ (it_env it 3 s3)\<close>
        by (intro Cons.IH) (auto simp: its)
      with after code stored(6) \<open>unblamed _ (it_env it 3 s3)\<close> show ?thesis
        by (auto simp: its \<open>e' = e\<close> unblamed_exception split: loop_result.splits)
    qed
  qed (use valid e env Cons.prems(6) s1 s2 assms(2) in
      \<open>auto simp: its unblamed_exception unblamed_cancel\<close>)
qed simp

theorem never_blamed:
  assumes "ready x" and "target x = \<lparr>ec_conversationId = r_conversation_id run,
      ec_runId = r_run_id run, ec_assistantMessageId = r_assistant_message_id run\<rparr>"
    and "map it_event its = map Some (emits x)"
    and "\<forall>it \<in> set its. \<forall>k. keeps_unblamed (r_run_id run) (it_env it k)"
    and "unblamed (r_run_id run) s"
  shows "unblamed (r_run_id run) (snd (worker_loop uri cfg run load now fin its s))"
  using emits_final [OF assms(1)] assms by (intro suffix_unblamed [where es = "emits x"]) auto

end

subsection \<open>A completed run was streamed whole\<close>

text \<open>The event number the conversation hands out next.\<close>

definition event_counter :: "'a scope_scheme \<Rightarrow> ident \<Rightarrow> db \<Rightarrow> int option" where
  "event_counter scope cid d =
     map_option c_next_event_sequence (find (in_scope scope cid) (conversations d))"

text \<open>The conversation events that the iterations' events become from number \<open>q\<close> on.\<close>

definition persisted_form :: "ident \<Rightarrow> js_date \<Rightarrow> connector_event \<Rightarrow> int \<Rightarrow> conversation_event" where
  "persisted_form eid now e q = \<lparr>ev_eventId = eid, ev_sequence = q, ev_occurredAt = now,
     ev_visibility = ce_visibility e, ev_conversationId = ce_conversationId e,
     ev_runId = Some (ce_runId e), ev_messageId = ce_messageId e, ev_data = ce_data e\<rparr>"

fun log_of :: "iteration list \<Rightarrow> int \<Rightarrow> conversation_event list" where
  "log_of [] q = []"
| "log_of (it # its) q =
     (case it_event it of
        None \<Rightarrow> log_of its q
      | Some e \<Rightarrow> persisted_form (it_eventId it) (it_occurredAt it) e q # log_of its (q + 1))"

definition publish_all :: "conversation_event list \<Rightarrow> broker \<Rightarrow> broker" where
  "publish_all evs b = fold publish (filter (\<lambda>e. ev_visibility e = Public) evs) b"

definition quiet :: "iteration \<Rightarrow> bool" where
  "quiet it \<longleftrightarrow> (\<forall>k s. it_env it k s = s)"

lemma counter_update:
  assumes "\<And>c. in_scope scope cid (f c) = in_scope scope cid c"
    and "\<And>c. c_next_event_sequence (f c) = c_next_event_sequence c"
  shows "event_counter scope cid (d\<lparr>conversations := update_where p f (conversations d)\<rparr>)
     = event_counter scope cid d"
  by (cases "find (in_scope scope cid) (conversations d)")
    (simp_all add: event_counter_def find_update_where assms)

lemma counter_conversations: "conversations d = conversations d' \<Longrightarrow>
   event_counter scope cid d = event_counter scope cid d'"
  by (simp add: event_counter_def)

lemma start_assistant_counter:
  assumes "start_assistant run pid now d = Inr d'"
  shows "event_counter scope cid d' = event_counter scope cid d"
proof (cases "message_exists d (r_assistant_message_id run)")
  case True
  with assms show ?thesis by (simp add: start_assistant_def)
next
  case False
  let ?f = "\<lambda>c. c\<lparr>c_next_message_sequence := c_next_message_sequence c + 1, c_updated_at := to_pg now\<rparr>"
  let ?d = "d\<lparr>conversations := update_where (in_run_conversation run) ?f (conversations d)\<rparr>"
  from assms False have "conversations d' = conversations ?d"
    by (auto simp: start_assistant_def split: option.splits if_splits dest!: insert_Inr)
  then have "event_counter scope cid d' = event_counter scope cid ?d" by (rule counter_conversations)
  also have "\<dots> = event_counter scope cid d" by (rule counter_update) simp_all
  finally show ?thesis .
qed

lemma materialize_counter:
  assumes "materialize run pid now data d = Inr d'"
  shows "event_counter scope cid d' = event_counter scope cid d"
proof (cases "data = MessageStarted")
  case True
  with assms show ?thesis by (simp add: start_assistant_counter)
next
  case False
  with assms show ?thesis
    by (intro counter_conversations, cases "(run, pid, now, data, d)" rule: materialize.cases)
      (auto simp: complete_message_def request_handoff_def request_contact_def
        complete_handoff_def Let_def split: if_splits option.splits dest!: insert_Inr)
qed

lemma service_append_counter:
  assumes "service_append n eid now scope e s = Inr (ev, s')" and "ce_conversationId e = cid"
  obtains q where "event_counter scope cid (fst s) = Some q"
    and "event_counter scope cid (fst s') = Some (q + 1)" and "ev = persisted_form eid now e q"
    and "snd s' = publish_all [ev] (snd s)"
proof -
  obtain d b d' b' where s: "s = (d, b)" "s' = (d', b')" by (cases s, cases s')
  from assms(1) have app: "append_event n eid now scope e d = Inr (ev, d')"
    and b': "b' = (if ev_visibility ev = Public then publish ev b else b)"
    by (auto simp: s service_append_def)
  from app show ?thesis
  proof (cases rule: append_event_cases)
    case (1 c)
    then have "in_scope scope cid c" using assms(2) by (auto dest: find_SomeD)
    with 1 assms(2) b' show ?thesis
      by (intro that [of "c_next_event_sequence c"])
        (simp_all add: s event_counter_def find_update_where persisted_form_def publish_all_def)
  qed
qed

lemma status_of_update: "(\<And>r. r_run_id (f r) = r_run_id r) \<Longrightarrow> (\<And>r. r_status (f r) = st) \<Longrightarrow>
   status_of runId (update_run runId f d) = map_option (\<lambda>_. st) (status_of runId d)"
  by (simp add: status_of_def run_row_of_update option.map_comp comp_def)

lemma status_of_settled:
  "status_of (r_run_id run) (fst (on_db (cancel_run run now) s))
     = map_option (\<lambda>_. Run_cancelled) (status_of (r_run_id run) (fst s))"
  "status_of runId (fst (on_db (fail_run runId code now) s))
     = map_option (\<lambda>_. Run_failed) (status_of runId (fst s))"
  by (simp_all add: on_db_def cancel_run_def fail_run_def status_of_update status_of_def
      run_row_of_update option.map_comp comp_def)

lemma not_completed_exception:
  assumes "status_of (r_run_id run) (fst s) = Some Run_running"
  shows "status_of (r_run_id run) (fst (snd (on_exception run now fin s))) \<noteq> Some Run_completed"
  using assms by (auto simp: on_exception_def status_of_settled split: sum.split bool.split)

lemma status_of_runs: "agent_runs d = agent_runs d' \<Longrightarrow> status_of runId d = status_of runId d'"
  by (simp add: status_of_def run_row_of_def)

lemma completed_after_append:
  assumes "status_of (r_run_id run) (fst s) = Some Run_running"
  shows "case after_append run now data s of
       Settled s' \<Rightarrow> status_of (r_run_id run) (fst s') = Some Run_completed \<longrightarrow>
         data = RunCompleted \<and> snd s' = snd s \<and> conversations (fst s') = conversations (fst s)
     | Continue s' \<Rightarrow> s' = s \<and> \<not> is_final data
     | Thrown s' \<Rightarrow> s' = s"
proof (cases data)
  case RunCompleted
  then show ?thesis by (simp add: after_append_def on_db_def complete_run_def update_run_def)
next
  case (RunFailed code)
  with assms show ?thesis by (simp add: after_append_def status_of_settled)
next
  case (ContactRequested c)
  show ?thesis
  proof (cases "waitForInput (r_run_id run) now (fst s)")
    case (Inr d)
    have "status_of (r_run_id run) d \<noteq> Some Run_completed"
      using assms Inr
      by (auto simp: waitForInput_def Let_def status_of_def run_row_of_def find_update_where
          split: if_splits)
    with Inr ContactRequested show ?thesis by (simp add: after_append_def)
  qed (use ContactRequested in \<open>simp add: after_append_def\<close>)
qed (simp_all add: after_append_def)

text \<open>
  A run that is reported completed was streamed whole. When nobody disturbs the worker and
  its loop leaves the run completed, the connector emitted a final \<open>run.completed\<close>, and every event
  up to it was numbered consecutively, stored, and, when public, published to the conversation's
  subscribers in that order, and nothing else was.
\<close>

theorem completed_run_streamed:
  assumes "worker_loop uri cfg run load now fin its s = (result, s')"
    and "\<forall>it \<in> set its. quiet it" and "\<forall>s. se_env fin s = s"
    and "status_of (r_run_id run) (fst s) = Some Run_running"
    and "status_of (r_run_id run) (fst s') = Some Run_completed"
  shows "\<exists>sent rest q. its = sent @ rest \<and> sent \<noteq> []
     \<and> map_option ce_data (it_event (last sent)) = Some RunCompleted
     \<and> (\<forall>it \<in> set (butlast sent). \<exists>e. it_event it = Some e \<and> \<not> is_final (ce_data e))
     \<and> event_counter (rl_scope load) (r_conversation_id run) (fst s) = Some q
     \<and> event_counter (rl_scope load) (r_conversation_id run) (fst s') = Some (q + int (length sent))
     \<and> snd s' = publish_all (log_of sent q) (snd s)"
  using assms(1,2,4)
proof (induction its arbitrary: s)
  case Nil
  then show ?case using assms(3,5) not_completed_exception [OF Nil(3), of now fin]
    by (auto simp: Let_def status_of_settled split: if_splits sum.splits bool.splits)
next
  case (Cons it its)
  let ?scope = "rl_scope load" and ?cid = "r_conversation_id run"
  have "quiet it" using Cons.prems(2) by simp
  then have q: "it_env it k s = s" for k s unfolding quiet_def by blast
  show ?case
  proof (cases rule: worker_iteration_cases [of uri cfg run load now it s])
    case (stored e d1 ev s3)
    have cid: "ce_conversationId e = ?cid"
      using stored(3) by (simp add: validateConnectorEventContext_def)
    obtain n where n: "event_counter ?scope ?cid d1 = Some n" "event_counter ?scope ?cid (fst s3) = Some (n + 1)"
      "ev = persisted_form (it_eventId it) (it_occurredAt it) e n" "snd s3 = publish_all [ev] (snd s)"
      using service_append_counter [OF stored(5) cid] by (auto simp: q)
    have n0: "event_counter ?scope ?cid (fst s) = Some n"
      using materialize_counter [OF stored(4), of ?scope ?cid] n(1) by (simp add: q)
    have st: "status_of (r_run_id run) (fst s3) = Some Run_running"
      using Cons.prems(3) status_of_runs [OF materialize_runs [OF stored(4)]]
        status_of_runs [OF service_append_runs [OF stored(5)]] by (simp add: q)
    note after = completed_after_append [OF st, where now = now and data = "ce_data e"]
    show ?thesis
    proof (cases "after_append run now (ce_data e) s3")
      case (Settled s4)
      then have "s4 = s'" using Cons.prems(1) stored(6) by (simp add: q)
      with after Settled assms(5) have "ce_data e = RunCompleted" and "snd s' = snd s3"
        and "conversations (fst s') = conversations (fst s3)" by auto
      with n n0 stored(1) show ?thesis
        by (intro exI [of _ "[it]"] exI [of _ its] exI [of _ n])
          (simp add: event_counter_def)
    next
      case (Continue s4)
      with after have "s4 = s3" and final: "\<not> is_final (ce_data e)" by auto
      then have "worker_loop uri cfg run load now fin its s3 = (result, s')"
        using Cons.prems(1) stored(6) Continue by (simp add: q)
      from Cons.IH [OF this _ st] Cons.prems(2) obtain sent rest m where IH: "its = sent @ rest"
        "sent \<noteq> []" "map_option ce_data (it_event (last sent)) = Some RunCompleted"
        "\<forall>it \<in> set (butlast sent). \<exists>e. it_event it = Some e \<and> \<not> is_final (ce_data e)"
        "event_counter ?scope ?cid (fst s3) = Some m"
        "event_counter ?scope ?cid (fst s') = Some (m + int (length sent))"
        "snd s' = publish_all (log_of sent m) (snd s3)" by auto
      with n n0 stored(1) final show ?thesis
        by (intro exI [of _ "it # sent"] exI [of _ rest] exI [of _ n])
          (simp add: publish_all_def)
    next
      case (Thrown s4)
      with after have "s4 = s3" by simp
      with Thrown Cons.prems(1) stored(6) not_completed_exception [OF st, of now fin] assms(5)
      show ?thesis by (simp add: q)
    qed
  next
    case (unstored e d1)
    have "status_of (r_run_id run) d1 = Some Run_running"
      using Cons.prems(3) status_of_runs [OF materialize_runs [OF unstored(2)]] by (simp add: q)
    then have "status_of (r_run_id run) (fst (d1, snd s)) = Some Run_running" by simp
    from not_completed_exception [OF this, of now fin]
    show ?thesis using Cons.prems(1) unstored(3) assms(5) by (simp add: q)
  qed (use Cons.prems assms(5) not_completed_exception [OF Cons.prems(3), of now fin] in
      \<open>auto simp: q status_of_settled\<close>)
qed

lemma sample_completed:
  "\<exists>s'. worker_loop (\<lambda>_. True) sample_config (sample_run Run_running 1 None) sample_load 7 sample_end
       [sample_step RunCompleted] (sample_run_db (sample_run Run_running 1 None), new_broker 4)
     = (Inr True, s') \<and> status_of ''r1'' (fst s') = Some Run_completed"
proof -
  have valid: "connector_event_ok (\<lambda>_. True) (sample_event RunCompleted)" by (rule sample_event_ok)
  show ?thesis
    by (simp add: worker_iteration_def sample_step_def Let_def isCancellationRequested_def valid)
      (simp add: sample_run_db_def sample_run_def validateConnectorEventContext_def
        sample_event_def valid [unfolded sample_event_def, simplified] service_append_def append_event_def sample_load_def run_scope_def in_scope_def sample_defs
        int4_max_def constraint_defs delete_where_def update_where_def after_append_def on_db_def
        complete_run_def update_run_def status_of_def run_row_of_def)
qed

lemma completed_run_streamed_witness:
  "\<exists>s' sent rest q. worker_loop (\<lambda>_. True) sample_config (sample_run Run_running 1 None) sample_load 7
       sample_end [sample_step RunCompleted] (sample_run_db (sample_run Run_running 1 None), new_broker 4)
     = (Inr True, s') \<and> [sample_step RunCompleted] = sent @ rest \<and> sent \<noteq> []
     \<and> snd s' = publish_all (log_of sent q) (new_broker 4)"
proof -
  obtain s' where run: "worker_loop (\<lambda>_. True) sample_config (sample_run Run_running 1 None) sample_load 7
       sample_end [sample_step RunCompleted] (sample_run_db (sample_run Run_running 1 None), new_broker 4)
     = (Inr True, s')" and st: "status_of ''r1'' (fst s') = Some Run_completed"
    using sample_completed by blast
  have "\<forall>it \<in> set [sample_step RunCompleted]. quiet it" and "\<forall>s. se_env sample_end s = s"
    and "status_of (r_run_id (sample_run Run_running 1 None))
       (fst (sample_run_db (sample_run Run_running 1 None), new_broker 4)) = Some Run_running"
    and "status_of (r_run_id (sample_run Run_running 1 None)) (fst s') = Some Run_completed"
    using st by (simp_all add: quiet_def sample_step_def sample_end_def status_of_def run_row_of_def
        sample_run_db_def sample_run_def)
  from completed_run_streamed [OF run this] run show ?thesis by (metis snd_conv)
qed

end
