(* ===== verification/MockConnector.thy ===== *)
theory MockConnector
  imports Connectors
begin

text \<open>
  \<open>connectors/mock/src/index.ts\<close>: the deterministic connector of the local setup. \<open>mock_run\<close> is
  what its generator yields; the two looks at the abort signal are the arguments \<open>aborted\<close> (before
  the first event) and \<open>abortedAt\<close> (the delta before which it is seen, if any).
\<close>

datatype mock_scenario = Scenario_success | Scenario_failure

record mock_options =
  mo_scenario :: mock_scenario
  mo_responseText :: string
  mo_chunks :: int
  mo_failureCode :: string

definition mock_defaults :: mock_options where
  "mock_defaults = \<lparr>mo_scenario = Scenario_success,
     mo_responseText = ''This is a deterministic mock response.'', mo_chunks = 3,
     mo_failureCode = ''MOCK_CONNECTOR_FAILURE''\<rparr>"

definition mock_options_ok :: "mock_options \<Rightarrow> bool" where
  "mock_options_ok opts \<longleftrightarrow> 1 \<le> mo_chunks opts \<and> mo_chunks opts \<le> max_safe_integer"

definition splitText :: "string \<Rightarrow> nat \<Rightarrow> string list" where
  "splitText characters requestedChunks =
     (let chunkCount = min requestedChunks (length characters)
      in if chunkCount = 0 then []
         else (let size = (length characters + chunkCount - 1) div chunkCount
               in filter (\<lambda>c. c \<noteq> [])
                    (map (\<lambda>index. take size (drop (index * size) characters)) [0..<chunkCount])))"

definition base_event :: "execution \<Rightarrow> event_data \<Rightarrow> connector_event" where
  "base_event x data = \<lparr>ce_visibility = Public, ce_conversationId = rq_conversationId (ex_request x),
     ce_runId = rq_runId (ex_request x), ce_messageId = None, ce_data = data\<rparr>"

definition message_event :: "execution \<Rightarrow> event_data \<Rightarrow> connector_event" where
  "message_event x data = (base_event x data)\<lparr>ce_messageId := Some (ex_assistantMessageId x)\<rparr>"

definition mock_citation :: citation where
  "mock_citation = \<lparr>cit_citationId = ''mock-citation-1'', cit_sourceId = ''mock-source-1'',
     cit_title = Some ''Deterministic mock source'',
     cit_url = Some ''https://example.com/mock-source'', cit_excerpt = None\<rparr>"

definition mock_run :: "mock_options \<Rightarrow> execution \<Rightarrow> bool \<Rightarrow> nat option \<Rightarrow> connector_event list" where
  "mock_run opts x aborted abortedAt =
     (if aborted then []
      else base_event x (RunStarted (rq_agentRef (ex_request x))) #
        (if mo_scenario opts = Scenario_failure
         then [base_event x (RunFailed (mo_failureCode opts))]
         else
           (let deltas = splitText (mo_responseText opts) (nat (mo_chunks opts));
                emit = map (\<lambda>delta. message_event x (MessageDelta delta));
                whole = emit deltas @ [message_event x (MessageCompleted [TextPart (mo_responseText opts)]),
                  base_event x RunCompleted]
            in [message_event x MessageStarted,
                message_event x (ToolStarted ''mock-tool-1'' ''Mock knowledge lookup''),
                message_event x (ToolCompleted ''mock-tool-1''),
                message_event x (CitationAdded mock_citation)]
               @ (case abortedAt of
                    Some k \<Rightarrow> if k < length deltas then emit (take k deltas) else whole
                  | None \<Rightarrow> whole))))"

subsection \<open>Splitting the response\<close>

lemma concat_pieces:
  "concat (map (\<lambda>i. take n (drop (i * n) xs)) [0..<k]) = take (k * n) xs"
proof (induction k)
  case (Suc k)
  have "take (k * n + n) xs = take (k * n) xs @ take n (drop (k * n) xs)" by (rule take_add)
  moreover have "Suc k * n = k * n + n" by simp
  ultimately have "take (Suc k * n) xs = take (k * n) xs @ take n (drop (k * n) xs)" by (simp only:)
  with Suc show ?case by simp
qed simp

lemma concat_nonempty: "concat (filter (\<lambda>c. c \<noteq> []) xss) = concat xss"
  by (induction xss) auto

lemma ceiling_covers: "0 < k \<Longrightarrow> n \<le> k * ((n + k - 1) div k)" for n k :: nat
proof -
  assume "0 < k"
  then have "(n + k - 1) mod k \<le> k - 1" by (metis Suc_pred' less_Suc_eq_le mod_less_divisor)
  moreover have "k * ((n + k - 1) div k) + (n + k - 1) mod k = n + k - 1" by simp
  ultimately show ?thesis using \<open>0 < k\<close> by linarith
qed

lemma split_text_pieces:
  assumes "1 \<le> n"
  shows "splitText text n = (let k = min n (length text); size = (length text + k - 1) div k
     in filter (\<lambda>c. c \<noteq> []) (map (\<lambda>i. take size (drop (i * size) text)) [0..<k]))"
  using assms by (cases "text = []") (auto simp: splitText_def Let_def)

lemma split_text_piece:
  assumes "1 \<le> n" and "c \<in> set (splitText text n)"
  shows "c \<noteq> [] \<and> length c \<le> (length text + min n (length text) - 1) div min n (length text)"
  using assms(2) by (auto simp: split_text_pieces [OF assms(1)] Let_def)

text \<open>
  The mock connector streams its whole response: the pieces put together are the text, there
  are at most the requested number of them, none is empty, and none exceeds the text's length
  divided by their number, rounded up.
\<close>

theorem split_text_whole:
  assumes "1 \<le> n"
  shows "concat (splitText text n) = text \<and> length (splitText text n) \<le> n
     \<and> (\<forall>c \<in> set (splitText text n). c \<noteq> []
          \<and> length c \<le> (length text + min n (length text) - 1) div min n (length text))"
proof -
  define k where "k = min n (length text)"
  define size where "size = (length text + k - 1) div k"
  note pieces = split_text_pieces [OF assms, of "text", folded k_def, unfolded Let_def, folded size_def]
  have "length text \<le> k * size"
    using assms ceiling_covers [of k "length text"] by (cases "text = []") (auto simp: size_def k_def)
  then have "concat (splitText text n) = text"
    by (simp add: pieces concat_nonempty concat_pieces)
  moreover have "length (splitText text n) \<le> k"
    unfolding pieces using length_filter_le [of "\<lambda>c. c \<noteq> []"] by (metis length_map length_upt minus_nat.diff_0)
  then have "length (splitText text n) \<le> n" by (simp add: k_def)
  ultimately show ?thesis using split_text_piece [OF assms] by blast
qed

lemma split_text_whole_witness:
  "concat (splitText ''hello'' 2) = ''hello''"
  using split_text_whole [of 2 "''hello''"] by simp

subsection \<open>The mock connector keeps the contract\<close>

text \<open>
  Options and an execution for which every emitted event is within the limits of the protocol:
  a response of at most 100,000 characters in pieces of at most 20,000, and a failure code that is
  a code and not one of the worker's own.
\<close>

definition mock_ready :: "(string \<Rightarrow> bool) \<Rightarrow> mock_options \<times> execution \<Rightarrow> bool" where
  "mock_ready uri = (\<lambda>(opts, x).
     mock_options_ok opts
     \<and> len_between 1 100000 (mo_responseText opts)
     \<and> int (length (mo_responseText opts)) \<le> 20000 * mo_chunks opts
     \<and> upper_code (mo_failureCode opts) \<and> length (mo_failureCode opts) \<le> 64
     \<and> mo_failureCode opts \<notin> reserved_codes
     \<and> opaque_id (rq_conversationId (ex_request x)) \<and> opaque_id (rq_runId (ex_request x))
     \<and> opaque_id (rq_agentRef (ex_request x)) \<and> opaque_id (ex_assistantMessageId x)
     \<and> uri ''https://example.com/mock-source'')"

definition mock_emits :: "mock_options \<times> execution \<Rightarrow> connector_event list" where
  "mock_emits = (\<lambda>(opts, x). mock_run opts x False None)"

lemma opaque_mock_ids:
  "opaque_id ''mock-tool-1''" "opaque_id ''mock-citation-1''" "opaque_id ''mock-source-1''"
  by (simp_all add: opaque_id_def is_alnum_def is_upper_def is_lower_def is_digit_def
      opaque_tail_char_def code_unit_def)

lemma event_at_conversation:
  "validateConnectorEventContext (base_event x data) (target_of x)"
  "validateConnectorEventContext (message_event x data) (target_of x)"
  by (simp_all add: validateConnectorEventContext_def base_event_def message_event_def target_of_def)

lemma base_event_ok:
  assumes "opaque_id (rq_conversationId (ex_request x))" and "opaque_id (rq_runId (ex_request x))"
    and "\<not> requires_message_id data" and "data \<noteq> SyncRequired" and "event_data_ok uri data"
  shows "connector_event_ok uri (base_event x data)"
  using assms by (simp add: connector_event_ok_def base_event_def)

lemma message_event_ok:
  assumes "opaque_id (rq_conversationId (ex_request x))" and "opaque_id (rq_runId (ex_request x))"
    and "opaque_id (ex_assistantMessageId x)" and "requires_message_id data" and "event_data_ok uri data"
  shows "connector_event_ok uri (message_event x data)"
proof -
  have "data \<noteq> SyncRequired" using assms(4) by auto
  with assms show ?thesis by (simp add: connector_event_ok_def message_event_def base_event_def)
qed

lemmas event_ok_rules = base_event_ok message_event_ok

lemma mock_delta_ok:
  assumes "mock_ready uri (opts, x)" and "c \<in> set (splitText (mo_responseText opts) (nat (mo_chunks opts)))"
  shows "len_between 1 20000 c"
proof -
  define n where "n = nat (mo_chunks opts)"
  let ?t = "mo_responseText opts"
  define k where "k = min n (length ?t)"
  have n: "1 \<le> n" and len: "length ?t \<le> 20000 * n" and t: "1 \<le> length ?t"
    using assms(1) by (auto simp: mock_ready_def mock_options_ok_def n_def len_between_def)
  have "length ?t \<le> 20000 * k" using len t by (auto simp: k_def min_def)
  then have "length ?t + k - 1 < (20000 + 1) * k" using n t by (simp add: k_def)
  then have "(length ?t + k - 1) div k < 20001" by (simp add: less_mult_imp_div_less)
  with split_text_piece [OF n assms(2) [folded n_def], folded k_def] show ?thesis
    by (cases c) (simp_all add: len_between_def)
qed

interpretation mock: chat_connector mock_emits "\<lambda>(opts, x). target_of x" "mock_ready uri" uri for uri
proof
  fix z :: "mock_options \<times> execution" and e
  obtain opts x where z: "z = (opts, x)" by (cases z)
  assume ready: "mock_ready uri z" and e: "e \<in> set (mock_emits z)"
  note facts = ready [unfolded z mock_ready_def, simplified]
  have whole: "event_data_ok uri (MessageCompleted [TextPart (mo_responseText opts)])"
    using facts by simp
  show "connector_event_ok uri e \<and> validateConnectorEventContext e (case z of (opts, x) \<Rightarrow> target_of x)"
    using e facts mock_delta_ok [OF ready [unfolded z]] whole
    by (auto simp: z mock_emits_def mock_run_def Let_def event_at_conversation opaque_mock_ids
        mock_citation_def citation_ok_def https_url_ok_def len_between_def intro!: event_ok_rules
        split: if_splits)
  show "code \<notin> reserved_codes" if "ce_data e = RunFailed code" for code
    using e facts that
    by (auto simp: z mock_emits_def mock_run_def Let_def base_event_def message_event_def
        split: if_splits)
next
  fix z :: "mock_options \<times> execution"
  show "mock_emits z \<noteq> [] \<and> is_final (ce_data (last (mock_emits z)))"
    by (cases z) (auto simp: mock_emits_def mock_run_def Let_def base_event_def)
qed

text \<open>
  A run of the mock connector never fails through the connector's fault: whatever else happens
  in the server meanwhile, the worker does not end it with \<open>INVALID_CONNECTOR_EVENT\<close> or
  \<open>CONNECTOR_INCOMPLETE\<close>.
\<close>

theorem mock_never_blamed:
  assumes "mock_ready uri (opts, x)"
    and "target_of x = \<lparr>ec_conversationId = r_conversation_id run, ec_runId = r_run_id run,
           ec_assistantMessageId = r_assistant_message_id run\<rparr>"
    and "map it_event its = map Some (mock_run opts x False None)"
    and "\<forall>it \<in> set its. \<forall>k. keeps_unblamed (r_run_id run) (it_env it k)"
    and "unblamed (r_run_id run) s"
  shows "unblamed (r_run_id run) (snd (worker_loop uri cfg run load now fin its s))"
  by (rule mock.never_blamed [where x = "(opts, x)"]) (use assms in \<open>simp_all add: mock_emits_def\<close>)

definition sample_message :: message where
  "sample_message = \<lparr>ms_messageId = ''m1'', ms_conversationId = ''c1'', ms_sequence = 1,
     ms_participantId = ''u1'', ms_role = Role_user, ms_status = Msg_completed,
     ms_parts = [TextPart ''hi''], ms_createdAt = 0, ms_completedAt = Some 0\<rparr>"

definition sample_execution :: execution where
  "sample_execution = \<lparr>ex_request = \<lparr>rq_runId = ''r1'', rq_conversationId = ''c1'',
       rq_agentRef = ''agent'', rq_triggerType = Trigger_message, rq_currentMessage = sample_message,
       rq_userParticipantId = ''u1'', rq_history = [sample_message], rq_principalId = ''p1'',
       rq_resolvedInputs = [], rq_trustedMetadata = []\<rparr>,
     ex_assistantMessageId = ''am1''\<rparr>"

lemma sample_mock_ready: "mock_ready (\<lambda>_. True) (mock_defaults, sample_execution)"
  by (simp add: mock_ready_def mock_options_ok_def mock_defaults_def sample_execution_def
      max_safe_integer_def len_between_def upper_code_def reserved_codes_def opaque_id_def is_alnum_def
      is_upper_def is_lower_def is_digit_def opaque_tail_char_def code_unit_def)

lemma mock_never_blamed_witness:
  "unblamed ''r1'' (snd (worker_loop (\<lambda>_. True) sample_config (sample_run Run_running 1 None) sample_load
     7 sample_end (map (\<lambda>e. (sample_step RunCompleted)\<lparr>it_event := Some e\<rparr>)
       (mock_run mock_defaults sample_execution False None)) sample_state))"
proof -
  let ?its = "map (\<lambda>e. (sample_step RunCompleted)\<lparr>it_event := Some e\<rparr>)
       (mock_run mock_defaults sample_execution False None)"
  have "target_of sample_execution = \<lparr>ec_conversationId = r_conversation_id (sample_run Run_running 1 None),
      ec_runId = r_run_id (sample_run Run_running 1 None),
      ec_assistantMessageId = r_assistant_message_id (sample_run Run_running 1 None)\<rparr>"
    by (simp add: target_of_def sample_execution_def sample_run_def)
  moreover have "map it_event ?its = map Some (mock_run mock_defaults sample_execution False None)"
    by (simp add: comp_def)
  moreover have "\<forall>it \<in> set ?its. \<forall>k. keeps_unblamed (r_run_id (sample_run Run_running 1 None)) (it_env it k)"
    by (auto simp: keeps_unblamed_def sample_step_def)
  moreover have "unblamed (r_run_id (sample_run Run_running 1 None)) sample_state"
    by (simp add: unblamed_def sample_state_def sample_run_db_def sample_run_def)
  ultimately show ?thesis
    using mock_never_blamed [OF sample_mock_ready, of "sample_run Run_running 1 None" ?its] by simp
qed

end
