(* ===== verification/Sse.thy ===== *)
theory Sse
  imports EventStream
begin

text \<open>
  The two readers of a server-sent event stream: \<open>parseEventStream\<close> of
  \<open>browser-client/src/http-transport.ts\<close> and \<open>parseConnectorEventStream\<close> of
  \<open>connectors/haystack/src/index.ts\<close>. Both buffer decoded text, cut it at line feeds, feed
  the lines to a consumer and count the bytes of whole chunks since the last dispatched frame.

  A chunk is its byte length with the text that the streaming \<open>TextDecoder\<close> makes of it; the
  decoder's final flush is the text \<open>flush\<close>. A consumer returns the events it emits, whether it
  reset the byte count, and its new state, or \<open>None\<close> when it throws. Checking a parsed JSON
  value against the event schema and giving it its type is the parameter \<open>check\<close>; the
  callback \<open>onEvent\<close> does not throw, and the read is not aborted.
\<close>

subsection \<open>Lines\<close>

definition LF :: char where "LF = CHR 0x0A"
definition CR :: char where "CR = CHR 0x0D"

text \<open>The loop over \<open>buffer.indexOf(LF)\<close>: the complete lines and the rest of the buffer.\<close>

function drain :: "string \<Rightarrow> string list \<times> string" where
  "drain buffer =
     (case dropWhile (\<lambda>c. c \<noteq> LF) buffer of
        [] \<Rightarrow> ([], buffer)
      | _ # rest \<Rightarrow>
          (let (ls, r) = drain rest in (takeWhile (\<lambda>c. c \<noteq> LF) buffer # ls, r)))"
  by pat_completeness auto
termination
proof (relation "measure length", simp)
  fix buffer rest :: string and c
  assume "dropWhile (\<lambda>c. c \<noteq> LF) buffer = c # rest"
  then have "length (c # rest) \<le> length buffer" by (metis length_dropWhile_le)
  then show "(rest, buffer) \<in> measure length" by simp
qed

declare drain.simps [simp del]

definition strip_cr :: "string \<Rightarrow> string" where
  "strip_cr line = (if line \<noteq> [] \<and> last line = CR then butlast line else line)"

subsection \<open>The reading loop\<close>

type_synonym ('st, 'e) consumer = "string \<Rightarrow> 'st \<Rightarrow> ('e list \<times> bool \<times> 'st) option"

fun consume_lines ::
  "('st, 'e) consumer \<Rightarrow> string list \<Rightarrow> 'st \<Rightarrow> 'e list \<times> bool \<times> 'st option" where
  "consume_lines consume [] st = ([], False, Some st)"
| "consume_lines consume (line # ls) st =
     (case consume (strip_cr line) st of
        None \<Rightarrow> ([], False, None)
      | Some (es, dispatched, st') \<Rightarrow>
          (let (es', d', st'') = consume_lines consume ls st'
           in (es @ es', dispatched \<or> d', st'')))"

fun read_chunks ::
  "('st, 'e) consumer \<Rightarrow> nat \<Rightarrow> (nat \<times> string) list \<Rightarrow> string \<Rightarrow> nat \<Rightarrow> 'st
    \<Rightarrow> 'e list \<times> (string \<times> 'st) option" where
  "read_chunks consume maxBytes [] buffer frameBytes st = ([], Some (buffer, st))"
| "read_chunks consume maxBytes ((bytes, text) # chunks) buffer frameBytes st =
     (if frameBytes + bytes > maxBytes then ([], None)
      else
        (let (ls, buffer') = drain (buffer @ text);
             (es, dispatched, result) = consume_lines consume ls st
         in case result of
              None \<Rightarrow> (es, None)
            | Some st' \<Rightarrow>
                (let (es', fin) = read_chunks consume maxBytes chunks buffer'
                       (if dispatched then 0 else frameBytes + bytes) st'
                 in (es @ es', fin))))"

text \<open>
  The whole stream: the events delivered, and whether it ended without an exception.
  \<open>finish\<close> is the dispatch of a last unterminated frame.
\<close>

definition read_stream ::
  "('st, 'e) consumer \<Rightarrow> ('st \<Rightarrow> 'e list option) \<Rightarrow> nat \<Rightarrow> (nat \<times> string) list \<Rightarrow> string \<Rightarrow> 'st
    \<Rightarrow> 'e list \<times> bool" where
  "read_stream consume finish maxBytes chunks flush st0 =
     (let (es, result) = read_chunks consume maxBytes chunks [] 0 st0
      in case result of
           None \<Rightarrow> (es, False)
         | Some (buffer, st) \<Rightarrow>
             (let rest = buffer @ flush;
                  (es1, _, result1) =
                    (if rest = [] then ([], False, Some st) else consume_lines consume [rest] st)
              in case result1 of
                   None \<Rightarrow> (es @ es1, False)
                 | Some st1 \<Rightarrow>
                     (case finish st1 of
                        None \<Rightarrow> (es @ es1, False)
                      | Some es2 \<Rightarrow> (es @ es1 @ es2, True))))"

subsection \<open>The two consumers\<close>

text \<open>A field line: the name before the first colon, the value without one leading space.\<close>

definition field_of :: "string \<Rightarrow> string \<times> string" where
  "field_of line =
     (let name = takeWhile (\<lambda>c. c \<noteq> CHR '':'') line;
          value = (if CHR '':'' \<in> set line then drop (length name + 1) line else [])
      in (name, if value \<noteq> [] \<and> hd value = CHR '' '' then tl value else value))"

fun join_lines :: "string list \<Rightarrow> string" where
  "join_lines [] = []"
| "join_lines [l] = l"
| "join_lines (l # m # ls) = l @ LF # join_lines (m # ls)"

record frame_state =
  fs_eventId :: string
  fs_eventType :: string
  fs_dataLines :: "string list"

definition empty_frame :: frame_state where
  "empty_frame = \<lparr>fs_eventId = [], fs_eventType = [], fs_dataLines = []\<rparr>"

definition dispatch_browser ::
  "(json \<Rightarrow> conversation_event option) \<Rightarrow> frame_state \<Rightarrow> conversation_event list option" where
  "dispatch_browser check st =
     (if fs_dataLines st = [] then Some []
      else (case Option.bind (json_parse (join_lines (fs_dataLines st))) check of
          None \<Rightarrow> None
        | Some event \<Rightarrow>
            if fs_eventId st = [] \<or> fs_eventType st = [] \<or> ev_eventId event \<noteq> fs_eventId st
               \<or> event_type (ev_data event) \<noteq> fs_eventType st
            then None else Some [event]))"

definition consume_browser ::
  "(json \<Rightarrow> conversation_event option) \<Rightarrow> (frame_state, conversation_event) consumer" where
  "consume_browser check line st =
     (if line = [] then map_option (\<lambda>es. (es, True, empty_frame)) (dispatch_browser check st)
      else if hd line = CHR '':'' then Some ([], False, st)
      else (let (field, value) = field_of line in
        if field = ''id'' then Some ([], False, st\<lparr>fs_eventId := value\<rparr>)
        else if field = ''event'' then Some ([], False, st\<lparr>fs_eventType := value\<rparr>)
        else if field = ''data'' then Some ([], False, st\<lparr>fs_dataLines := fs_dataLines st @ [value]\<rparr>)
        else Some ([], False, st)))"

definition parseEventStream ::
  "(json \<Rightarrow> conversation_event option) \<Rightarrow> nat \<Rightarrow> (nat \<times> string) list \<Rightarrow> string
    \<Rightarrow> conversation_event list \<times> bool" where
  "parseEventStream check maxFrameBytes chunks flush =
     read_stream (consume_browser check) (dispatch_browser check) maxFrameBytes chunks flush empty_frame"

definition RESPONSE_LIMIT_BYTES :: nat where
  "RESPONSE_LIMIT_BYTES = 1048576"

definition dispatch_connector ::
  "(json \<Rightarrow> connector_event option) \<Rightarrow> string list \<Rightarrow> connector_event list option" where
  "dispatch_connector check dataLines =
     (if dataLines = [] then Some []
      else map_option (\<lambda>e. [e]) (Option.bind (json_parse (join_lines dataLines)) check))"

text \<open>An empty line without data does not reset the byte count here.\<close>

definition consume_connector ::
  "(json \<Rightarrow> connector_event option) \<Rightarrow> (string list, connector_event) consumer" where
  "consume_connector check line dataLines =
     (if line = [] then map_option (\<lambda>es. (es, dataLines \<noteq> [], [])) (dispatch_connector check dataLines)
      else if hd line = CHR '':'' then Some ([], False, dataLines)
      else (let (field, value) = field_of line in
        if field = ''data'' then Some ([], False, dataLines @ [value])
        else Some ([], False, dataLines)))"

definition parseConnectorEventStream ::
  "(json \<Rightarrow> connector_event option) \<Rightarrow> (nat \<times> string) list \<Rightarrow> string
    \<Rightarrow> connector_event list \<times> bool" where
  "parseConnectorEventStream check chunks flush =
     read_stream (consume_connector check) (dispatch_connector check) RESPONSE_LIMIT_BYTES chunks flush []"

subsection \<open>Cutting lines does not depend on the chunks\<close>

lemma drain_no_newline: "LF \<notin> set s \<Longrightarrow> drain s = ([], s)"
proof -
  assume "LF \<notin> set s"
  then have nil: "dropWhile (\<lambda>c. c \<noteq> LF) s = []" by (auto simp: dropWhile_eq_Nil_conv)
  show ?thesis by (subst drain.simps) (simp only: nil list.case)
qed

lemma drain_newline:
  assumes "LF \<notin> set l"
  shows "drain (l @ LF # s) = (l # fst (drain s), snd (drain s))"
proof -
  have "dropWhile (\<lambda>c. c \<noteq> LF) (l @ LF # s) = LF # s"
    using assms by (subst dropWhile_append2) auto
  moreover have "takeWhile (\<lambda>c. c \<noteq> LF) (l @ LF # s) = l"
    using assms by (subst takeWhile_append2) auto
  ultimately show ?thesis by (subst drain.simps) (simp add: case_prod_unfold Let_def)
qed

lemma split_newline:
  obtains "LF \<notin> set s" | l t where "s = l @ LF # t" "LF \<notin> set l"
  using split_list_first [of LF s] by blast

lemma drain_rest: "LF \<notin> set (snd (drain s))"
proof (induction s rule: drain.induct)
  case (1 s)
  show ?case
  proof (cases rule: split_newline [of s])
    case 1
    then show ?thesis by (simp add: drain_no_newline)
  next
    case (2 l t)
    have "dropWhile (\<lambda>c. c \<noteq> LF) s = LF # t"
      using 2 by (simp add: dropWhile_append2) (subst dropWhile_append2, auto)
    then have "LF \<notin> set (snd (drain t))" using "1.IH" by blast
    then show ?thesis by (simp add: 2 drain_newline)
  qed
qed

lemma drain_append:
  "drain (s @ t) = (fst (drain s) @ fst (drain (snd (drain s) @ t)), snd (drain (snd (drain s) @ t)))"
proof (induction "length s" arbitrary: s rule: less_induct)
  case less
  show ?case
  proof (cases rule: split_newline [of s])
    case 1
    then show ?thesis by (simp add: drain_no_newline)
  next
    case (2 l u)
    then have "drain (u @ t) =
        (fst (drain u) @ fst (drain (snd (drain u) @ t)), snd (drain (snd (drain u) @ t)))"
      by (intro less) simp
    then show ?thesis by (simp add: 2 drain_newline)
  qed
qed

lemma consume_lines_append:
  "consume_lines c (ls @ ms) st =
     (case consume_lines c ls st of
        (es, d, None) \<Rightarrow> (es, d, None)
      | (es, d, Some st') \<Rightarrow>
          (case consume_lines c ms st' of (es', d', r) \<Rightarrow> (es @ es', d \<or> d', r)))"
  by (induction ls arbitrary: st) (auto split: option.split prod.split)

text \<open>Without a size error, reading chunks is reading their concatenation.\<close>

lemma read_chunks_concat:
  assumes "frameBytes + sum_list (map fst chunks) \<le> maxBytes" and "LF \<notin> set buffer"
  shows "read_chunks c maxBytes chunks buffer frameBytes st =
     (case consume_lines c (fst (drain (buffer @ concat (map snd chunks)))) st of
        (es, _, result) \<Rightarrow>
          (es, map_option (\<lambda>st'. (snd (drain (buffer @ concat (map snd chunks))), st')) result))"
  using assms
proof (induction chunks arbitrary: buffer frameBytes st)
  case Nil
  then show ?case by (simp add: drain_no_newline)
next
  case (Cons a chunks)
  obtain bytes piece where a: "a = (bytes, piece)" by (cases a)
  define d where "d = drain (buffer @ piece)"
  have rest: "LF \<notin> set (snd d)" unfolding d_def by (rule drain_rest)
  have whole: "drain (buffer @ piece @ concat (map snd chunks)) =
      (fst d @ fst (drain (snd d @ concat (map snd chunks))),
       snd (drain (snd d @ concat (map snd chunks))))"
    using drain_append [of "buffer @ piece" "concat (map snd chunks)"] by (simp add: d_def)
  obtain es dispatched result where lines: "consume_lines c (fst d) st = (es, dispatched, result)"
    by (metis prod.exhaust)
  have fits: "\<not> frameBytes + bytes > maxBytes" using Cons.prems(1) by (simp add: a)
  show ?case
  proof (cases result)
    case None
    then show ?thesis using fits lines whole
      by (simp add: a d_def [symmetric] case_prod_unfold consume_lines_append)
  next
    case (Some st')
    have "(if dispatched then 0 else frameBytes + bytes) + sum_list (map fst chunks) \<le> maxBytes"
      using Cons.prems(1) by (auto simp: a)
    note IH = Cons.IH [OF this rest, of st']
    show ?thesis using fits lines whole Some
      by (simp add: a d_def [symmetric] case_prod_unfold consume_lines_append IH)
  qed
qed

theorem read_stream_concat:
  assumes "sum_list (map fst chunks) \<le> maxBytes"
    and "concat (map snd chunks) = concat (map snd chunks')"
    and "sum_list (map fst chunks') \<le> maxBytes"
  shows "read_stream c fin maxBytes chunks flush st = read_stream c fin maxBytes chunks' flush st"
  using assms read_chunks_concat [of 0 chunks maxBytes "[]" c st]
    read_chunks_concat [of 0 chunks' maxBytes "[]" c st]
  by (simp add: read_stream_def)

text \<open>
  However the network cuts a connector's response into chunks, the events read from it are
  the same and end the same way, as long as the whole response is within the size limit.
\<close>

theorem connector_events_any_chunks:
  assumes "sum_list (map fst chunks) \<le> RESPONSE_LIMIT_BYTES"
    and "sum_list (map fst chunks') \<le> RESPONSE_LIMIT_BYTES"
    and "concat (map snd chunks) = concat (map snd chunks')"
  shows "parseConnectorEventStream check chunks flush = parseConnectorEventStream check chunks' flush"
  unfolding parseConnectorEventStream_def using assms by (intro read_stream_concat)

lemma connector_events_any_chunks_witness:
  "parseConnectorEventStream (\<lambda>_. Some \<lparr>ce_visibility = Public, ce_conversationId = ''c1'',
       ce_runId = ''r1'', ce_messageId = None, ce_data = RunCompleted\<rparr>)
       [(8, ''data: 1'' @ [LF]), (1, [LF])] []
     = parseConnectorEventStream (\<lambda>_. Some \<lparr>ce_visibility = Public, ce_conversationId = ''c1'',
       ce_runId = ''r1'', ce_messageId = None, ce_data = RunCompleted\<rparr>)
       [(9, ''data: 1'' @ [LF, LF])] []"
  by (rule connector_events_any_chunks) (simp_all add: RESPONSE_LIMIT_BYTES_def)

subsection \<open>Frames read back\<close>

definition printable :: "char \<Rightarrow> bool" where
  "printable c \<longleftrightarrow> 32 \<le> code_unit c"

lemma printable_simps [simp]:
  "printable CHR 0x22" "printable CHR 0x5C" "printable CHR ''b''" "printable CHR ''t''"
  "printable CHR ''n''" "printable CHR ''f''" "printable CHR ''r''" "printable CHR ''u''"
  "printable CHR ''l''" "printable CHR ''s''" "printable CHR ''e''" "printable CHR ''a''"
  "printable CHR ''0''" "printable CHR '',''" "printable CHR '':''" "printable CHR ''-''"
  "printable CHR ''[''" "printable CHR '']''" "printable CHR ''{''" "printable CHR ''}''"
  by (simp_all add: printable_def code_unit_def)

lemma printable_hex_char: "n < 16 \<Longrightarrow> printable (hex_char n)"
  by (simp add: printable_def hex_char_def)

lemma printable_escape_char: "list_all printable (escape_char c)"
proof (cases "code_unit c < 32")
  case True
  then have "code_unit c div 16 < 16" and "code_unit c mod 16 < 16" by simp_all
  with True show ?thesis by (simp add: escape_char_def printable_hex_char)
next
  case False
  then have "printable c" by (simp add: printable_def)
  with False show ?thesis by (simp add: escape_char_def)
qed

lemma printable_quote_string: "list_all printable (quote_string s)"
  using printable_escape_char by (simp add: quote_string_def list_all_iff)

lemma printable_intersperse:
  "(\<And>x. x \<in> set xs \<Longrightarrow> list_all printable x) \<Longrightarrow> list_all printable (intersperse_comma xs)"
  by (induction xs rule: intersperse_comma.induct) auto

lemma digit_printable: "is_digit c \<Longrightarrow> printable c"
  by (simp add: is_digit_def printable_def)

lemma printable_show_int: "list_all printable (show_int i)"
  using show_nat_digits by (auto simp: show_int_def list_all_iff digit_printable)

lemma printable_stringify: "no_fraction j \<Longrightarrow> list_all printable (stringify j)"
proof (induction j rule: no_fraction.induct)
  case (2 js)
  then have "list_all printable (intersperse_comma (map stringify js))"
    by (intro printable_intersperse) (auto simp: list_all_iff)
  then show ?case by simp
next
  case (3 ps)
  then have "list_all printable (intersperse_comma
      (map (\<lambda>p. quote_string (fst p) @ CHR '':'' # stringify (snd p)) ps))"
    using printable_quote_string by (intro printable_intersperse) (fastforce simp: list_all_iff)
  then show ?case by simp
qed (simp_all add: printable_show_int printable_quote_string)

lemma printable_plain:
  assumes "list_all printable s"
  shows "LF \<notin> set s" and "strip_cr s = s"
proof -
  have "\<not> printable LF" and "\<not> printable CR"
    by (simp_all add: printable_def LF_def CR_def code_unit_def)
  then show "LF \<notin> set s" and "strip_cr s = s"
    using assms by (auto simp: list_all_iff strip_cr_def dest: last_in_set)
qed

text \<open>The frame of an event, and its lines.\<close>

definition frame_of :: "(conversation_event \<Rightarrow> json) \<Rightarrow> conversation_event \<Rightarrow> string" where
  "frame_of body e = write_event (ev_eventId e) (event_type (ev_data e)) (body e)"

definition frame_lines :: "(conversation_event \<Rightarrow> json) \<Rightarrow> conversation_event \<Rightarrow> string list" where
  "frame_lines body e =
     [''id: '' @ ev_eventId e, ''event: '' @ event_type (ev_data e), ''data: '' @ stringify (body e), []]"

text \<open>What a streamed event satisfies: it is valid, and the reader's check recognises its JSON.\<close>

definition frame_ok ::
  "(string \<Rightarrow> bool) \<Rightarrow> (json \<Rightarrow> conversation_event option) \<Rightarrow> (conversation_event \<Rightarrow> json)
    \<Rightarrow> conversation_event \<Rightarrow> bool" where
  "frame_ok uri check body e \<longleftrightarrow>
     public_event_ok uri e \<and> no_fraction (body e) \<and> check (body e) = Some e"

lemma printable_letters:
  "list_all printable ''id: ''" "list_all printable ''event: ''" "list_all printable ''data: ''"
  by (simp_all add: printable_def code_unit_def)

lemma printable_event_type: "list_all printable (event_type d)" "event_type d \<noteq> []"
  by (cases d; simp add: printable_def code_unit_def)+

lemma opaque_char: "is_alnum c \<or> opaque_tail_char c \<Longrightarrow> printable c \<and> c \<noteq> CHR '' ''"
  by (auto simp: opaque_tail_char_def is_alnum_def is_upper_def is_lower_def is_digit_def
      printable_def code_unit_def)

lemma opaque_id_text:
  assumes "opaque_id s"
  shows "list_all printable s" and "s \<noteq> []" and "hd s \<noteq> CHR '' ''"
  using assms opaque_char by (auto simp: opaque_id_def list_all_iff split: list.splits)

lemma event_type_hd: "hd (event_type d) \<noteq> CHR '' ''"
  by (cases d) simp_all

lemma frame_ok_lines:
  assumes "frame_ok uri check body e" and "l \<in> set (frame_lines body e)"
  shows "list_all printable l"
  using assms printable_letters printable_event_type printable_stringify opaque_id_text
  by (auto simp: frame_ok_def frame_lines_def public_event_ok_def)

lemma frame_of_lines: "frame_of body e @ s = concat (map (\<lambda>l. l @ [LF]) (frame_lines body e)) @ s"
  by (simp add: frame_of_def write_event_def frame_lines_def LF_def)

lemma drain_lines:
  "(\<And>l. l \<in> set ls \<Longrightarrow> LF \<notin> set l) \<Longrightarrow>
   drain (concat (map (\<lambda>l. l @ [LF]) ls) @ s) = (ls @ fst (drain s), snd (drain s))"
  by (induction ls) (simp_all add: drain_newline)

lemma drain_frame:
  assumes "frame_ok uri check body e"
  shows "drain (frame_of body e @ s) = (frame_lines body e @ fst (drain s), snd (drain s))"
  unfolding frame_of_lines
  using frame_ok_lines [OF assms] printable_plain(1) by (intro drain_lines) blast

lemma drain_frames:
  assumes "\<And>e. e \<in> set es \<Longrightarrow> frame_ok uri check body e"
  shows "drain (concat (map (frame_of body) es)) = (concat (map (frame_lines body) es), [])"
  using assms
  by (induction es) (simp_all add: drain_no_newline, use drain_frame in fastforce)

lemma field_of_named:
  assumes "CHR '':'' \<notin> set name" and "value = [] \<or> hd value \<noteq> CHR '' ''"
  shows "field_of (name @ '': '' @ value) = (name, value)"
proof -
  have "takeWhile (\<lambda>c. c \<noteq> CHR '':'') (name @ CHR '':'' # CHR '' '' # value) = name"
    using assms(1) by (subst takeWhile_append2) auto
  then show ?thesis using assms(2) by (simp add: field_of_def Let_def)
qed

text \<open>Reading the lines of a frame delivers the event and leaves the reader as it was.\<close>

lemma consume_frame:
  assumes "frame_ok uri check body e"
  shows "consume_lines (consume_browser check) (frame_lines body e @ ls) empty_frame =
     (let (es, d, r) = consume_lines (consume_browser check) ls empty_frame in (e # es, True, r))"
proof -
  have body: "no_fraction (body e)" "check (body e) = Some e"
    using assms by (simp_all add: frame_ok_def)
  have eid: "opaque_id (ev_eventId e)"
    using assms by (simp add: frame_ok_def public_event_ok_def)
  have hd_body: "stringify (body e) = [] \<or> hd (stringify (body e)) \<noteq> CHR '' ''"
    using stringify_head [OF body(1)] by (metis list.sel(1) is_ws_def)
  define l1 where "l1 = ''id'' @ '': '' @ ev_eventId e"
  define l2 where "l2 = ''event'' @ '': '' @ event_type (ev_data e)"
  define l3 where "l3 = ''data'' @ '': '' @ stringify (body e)"
  have lines: "frame_lines body e = [l1, l2, l3, []]"
    by (simp add: frame_lines_def l1_def l2_def l3_def)
  have strip: "strip_cr l1 = l1" "strip_cr l2 = l2" "strip_cr l3 = l3"
    using frame_ok_lines [OF assms] by (simp_all add: lines printable_plain)
  have "field_of l1 = (''id'', ev_eventId e)"
    unfolding l1_def using opaque_id_text [OF eid] by (intro field_of_named) simp_all
  then have s1: "consume_browser check (strip_cr l1) st =
      Some ([], False, st\<lparr>fs_eventId := ev_eventId e\<rparr>)" for st
    unfolding strip by (simp add: consume_browser_def) (simp add: l1_def)
  have "field_of l2 = (''event'', event_type (ev_data e))"
    unfolding l2_def using event_type_hd by (intro field_of_named) simp_all
  then have s2: "consume_browser check (strip_cr l2) st =
      Some ([], False, st\<lparr>fs_eventType := event_type (ev_data e)\<rparr>)" for st
    unfolding strip by (simp add: consume_browser_def) (simp add: l2_def)
  have "field_of l3 = (''data'', stringify (body e))"
    unfolding l3_def using hd_body by (intro field_of_named) simp_all
  then have s3: "consume_browser check (strip_cr l3) st =
      Some ([], False, st\<lparr>fs_dataLines := fs_dataLines st @ [stringify (body e)]\<rparr>)" for st
    unfolding strip by (simp add: consume_browser_def) (simp add: l3_def)
  have s4: "consume_browser check (strip_cr [])
      \<lparr>fs_eventId = ev_eventId e, fs_eventType = event_type (ev_data e),
       fs_dataLines = [stringify (body e)]\<rparr> = Some ([e], True, empty_frame)"
    using opaque_id_text(2) [OF eid] printable_event_type(2) [of "ev_data e"] body
    by (simp add: strip_cr_def consume_browser_def dispatch_browser_def json_parse_stringify_gen)
  show ?thesis
    unfolding lines empty_frame_def
    by (simp add: s1 s2 s3 s4 [unfolded empty_frame_def] case_prod_unfold Let_def)
qed

lemma consume_frames:
  assumes "\<And>e. e \<in> set es \<Longrightarrow> frame_ok uri check body e"
  shows "\<exists>d. consume_lines (consume_browser check) (concat (map (frame_lines body) es)) empty_frame
     = (es, d, Some empty_frame)"
  using assms
proof (induction es)
  case (Cons e es)
  then obtain d where "consume_lines (consume_browser check) (concat (map (frame_lines body) es))
      empty_frame = (es, d, Some empty_frame)" by auto
  with Cons.prems [of e] show ?case by (auto simp: consume_frame)
qed auto

text \<open>
  C13: What the server writes, the browser reads: if the bytes of a response are the frames of
  valid events, then in whatever chunks they arrive, within the size limit, exactly those events
  are delivered, in order, and the stream ends without an error.
\<close>

theorem event_stream_roundtrip:
  assumes "\<And>e. e \<in> set es \<Longrightarrow> frame_ok uri check body e"
    and "concat (map snd chunks) = concat (map (frame_of body) es)"
    and "sum_list (map fst chunks) \<le> maxFrameBytes"
  shows "parseEventStream check maxFrameBytes chunks [] = (es, True)"
proof -
  obtain d where "consume_lines (consume_browser check) (concat (map (frame_lines body) es)) empty_frame
      = (es, d, Some empty_frame)"
    using consume_frames [of es uri check body] assms(1) by blast
  moreover have "drain (concat (map (frame_of body) es)) = (concat (map (frame_lines body) es), [])"
    using assms(1) by (rule drain_frames)
  ultimately show ?thesis
    using assms(2,3) read_chunks_concat [of 0 chunks maxFrameBytes "[]" "consume_browser check" empty_frame]
    by (simp add: parseEventStream_def read_stream_def dispatch_browser_def empty_frame_def)
qed

definition sample_frame_event :: conversation_event where
  "sample_frame_event = \<lparr>ev_eventId = ''e1'', ev_sequence = 1, ev_occurredAt = 0, ev_visibility = Public,
     ev_conversationId = ''c1'', ev_runId = Some ''r1'', ev_messageId = None, ev_data = RunCompleted\<rparr>"

definition sample_body :: "conversation_event \<Rightarrow> json" where
  "sample_body e = JObject [(''eventId'', JString (ev_eventId e))]"

lemma sample_frame_ok:
  "frame_ok (\<lambda>_. True) (\<lambda>_. Some sample_frame_event) sample_body sample_frame_event"
  by (simp add: frame_ok_def public_event_ok_def sample_frame_event_def sample_body_def opaque_id_def
      is_alnum_def is_upper_def is_lower_def is_digit_def opaque_tail_char_def max_safe_integer_def
      code_unit_def)

lemma event_stream_roundtrip_witness:
  "parseEventStream (\<lambda>_. Some sample_frame_event) 100
     [(7, take 7 (frame_of sample_body sample_frame_event)),
      (60, drop 7 (frame_of sample_body sample_frame_event))] []
   = ([sample_frame_event], True)"
  by (rule event_stream_roundtrip [where uri = "\<lambda>_. True" and body = sample_body])
    (simp_all add: sample_frame_ok)

text \<open>Frames of their own chunks: each one resets the byte count.\<close>

lemma read_frame_chunks:
  assumes "\<And>e. e \<in> set es \<Longrightarrow> frame_ok uri check body e \<and> length (frame_of body e) \<le> maxFrameBytes"
  shows "read_chunks (consume_browser check) maxFrameBytes
      (map (\<lambda>e. (length (frame_of body e), frame_of body e)) es) [] 0 empty_frame
    = (es, Some ([], empty_frame))"
  using assms
proof (induction es)
  case (Cons e es)
  then have e: "frame_ok uri check body e" by simp
  have "drain (frame_of body e) = (frame_lines body e, [])"
    using drain_frame [OF e, of "[]"] by (simp add: drain_no_newline)
  moreover have "consume_lines (consume_browser check) (frame_lines body e) empty_frame
      = ([e], True, Some empty_frame)"
    using consume_frame [OF e, of "[]"] by simp
  moreover have "\<not> maxFrameBytes < length (frame_of body e)"
    using Cons.prems [of e] by simp
  moreover have "read_chunks (consume_browser check) maxFrameBytes
      (map (\<lambda>e. (length (frame_of body e), frame_of body e)) es) [] 0 empty_frame
    = (es, Some ([], empty_frame))"
    using Cons by simp
  ultimately show ?case by simp
qed simp

text \<open>
  The size limit on frames is enforced on whole chunks. For any valid events whose frames
  each fit the limit but together exceed it, reading one frame per chunk delivers them all, while
  reading the same bytes in one chunk fails and delivers none.
\<close>

theorem frame_limit_counts_chunks:
  assumes "\<And>e. e \<in> set es \<Longrightarrow> frame_ok uri check body e \<and> length (frame_of body e) \<le> maxFrameBytes"
    and "maxFrameBytes < (\<Sum>e \<leftarrow> es. length (frame_of body e))"
  shows "parseEventStream check maxFrameBytes
      (map (\<lambda>e. (length (frame_of body e), frame_of body e)) es) [] = (es, True)
    \<and> parseEventStream check maxFrameBytes
      [(\<Sum>e \<leftarrow> es. length (frame_of body e), concat (map (frame_of body) es))] [] = ([], False)"
  using read_frame_chunks [OF assms(1)] assms(2)
  by (simp_all add: parseEventStream_def read_stream_def dispatch_browser_def)
    (simp add: empty_frame_def)

lemma frame_limit_counts_chunks_witness:
  "parseEventStream (\<lambda>_. Some sample_frame_event) 60
     (map (\<lambda>e. (length (frame_of sample_body e), frame_of sample_body e))
       [sample_frame_event, sample_frame_event]) [] = ([sample_frame_event, sample_frame_event], True)
   \<and> parseEventStream (\<lambda>_. Some sample_frame_event) 60
     [(\<Sum>e \<leftarrow> [sample_frame_event, sample_frame_event]. length (frame_of sample_body e),
       concat (map (frame_of sample_body) [sample_frame_event, sample_frame_event]))] []
   = ([], False)"
proof (rule frame_limit_counts_chunks [where uri = "\<lambda>_. True"])
  have len: "length (frame_of sample_body sample_frame_event) = 52"
    by (simp add: frame_of_def write_event_def sample_body_def sample_frame_event_def
      quote_string_def escape_char_def code_unit_def)
  show "frame_ok (\<lambda>_. True) (\<lambda>_. Some sample_frame_event) sample_body e
      \<and> length (frame_of sample_body e) \<le> 60" if "e \<in> set [sample_frame_event, sample_frame_event]" for e
    using that by (auto simp: sample_frame_ok len)
  show "60 < (\<Sum>e \<leftarrow> [sample_frame_event, sample_frame_event]. length (frame_of sample_body e))"
    by (simp add: len)
qed

end
