(* ===== verification/HaystackConnector.thy ===== *)
theory HaystackConnector
  imports MockConnector Sse Text "HOL-Library.AList"
begin

text \<open>
  \<open>connectors/haystack/src\<close>: the connector to a Haystack agent. \<open>contracts.ts\<close> is the
  records and predicates of its configuration, request and response, \<open>translate.ts\<close> the
  translation of a response into events, \<open>index.ts\<close> the two ways of running: the native event
  stream and the compatibility mode of one JSON response.

  The host's \<open>URL\<close> class is the parameter \<open>url_of\<close>, \<open>fetch\<close> the outcome \<open>fetch_result\<close> (a
  response, or an exception), and the reading of a JSON value as a typed response the parameter
  \<open>decode\<close>; the schema's lengths are checked by \<open>isHaystackAgentResponse\<close>. What the abort and the
  timeout signal were when the code looked at them is the record \<open>signals\<close>.
\<close>

subsection \<open>Contracts\<close>

record haystack_config =
  hc_baseUrl :: string
  hc_tenantKey :: string
  hc_agentSlug :: string
  hc_connectorToken :: "string option"
  hc_responseMode :: "string option"
  hc_timeoutMs :: "int option"

definition response_modes :: "string list" where
  "response_modes = [''email_support'', ''email_newsletter'', ''support_chat'', ''info_chat'',
     ''internal_chat'']"

definition haystack_config_ok :: "haystack_config \<Rightarrow> bool" where
  "haystack_config_ok c \<longleftrightarrow>
     len_between 1 2048 (hc_baseUrl c)
     \<and> (starts_with ''http://'' (hc_baseUrl c) \<or> starts_with ''https://'' (hc_baseUrl c))
     \<and> len_between 1 200 (hc_tenantKey c) \<and> len_between 1 200 (hc_agentSlug c)
     \<and> opt_ok (len_between 1 4096) (hc_connectorToken c)
     \<and> opt_ok (\<lambda>m. m \<in> set response_modes) (hc_responseMode c)
     \<and> opt_ok (\<lambda>t. 1 \<le> t \<and> t \<le> 300000) (hc_timeoutMs c)"

definition parseHaystackConfig ::
  "(string \<Rightarrow> url option) \<Rightarrow> haystack_config \<Rightarrow> haystack_config option" where
  "parseHaystackConfig url_of value =
     (if \<not> haystack_config_ok value then None
      else (case url_of (hc_baseUrl value) of
          None \<Rightarrow> None
        | Some url \<Rightarrow>
            if (u_protocol url \<noteq> ''http:'' \<and> u_protocol url \<noteq> ''https:'')
               \<or> u_username url \<noteq> [] \<or> u_password url \<noteq> [] \<or> u_pathname url \<noteq> ''/''
               \<or> u_search url \<noteq> [] \<or> u_hash url \<noteq> []
            then None else Some (value\<lparr>hc_baseUrl := u_origin url\<rparr>)))"

definition parseHaystackConnectorMap ::
  "(string \<Rightarrow> url option) \<Rightarrow> (ident \<times> haystack_config) list \<Rightarrow> (ident \<times> haystack_config) list option" where
  "parseHaystackConnectorMap url_of value =
     (if \<not> (1 \<le> length value \<and> length value \<le> 100
        \<and> list_all (\<lambda>(agentRef, c). opaque_id agentRef \<and> haystack_config_ok c) value)
      then None
      else those (map (\<lambda>(agentRef, c). map_option (Pair agentRef) (parseHaystackConfig url_of c)) value))"

record agent_request =
  ar_tenant_key :: string
  ar_agent_slug :: string
  ar_user_id :: string
  ar_thread_id :: string
  ar_text :: string
  ar_response_mode :: "string option"
  ar_run_id :: ident
  ar_message_id :: ident
  ar_assistant_message_id :: ident
  ar_conversation_id :: ident
  ar_agent_ref :: ident
  ar_origin :: "string option"

definition isHaystackAgentRequest :: "agent_request \<Rightarrow> bool" where
  "isHaystackAgentRequest r \<longleftrightarrow>
     len_between 1 200 (ar_tenant_key r) \<and> len_between 1 200 (ar_agent_slug r)
     \<and> len_between 1 2000 (ar_user_id r) \<and> len_between 1 2000 (ar_thread_id r)
     \<and> len_between 1 100000 (ar_text r)
     \<and> opt_ok (\<lambda>m. m \<in> set response_modes) (ar_response_mode r)
     \<and> opt_ok (len_between 0 2000) (ar_origin r)"

datatype haystack_status = Hs_completed | Hs_failed | Hs_rejected | Hs_ignored

record haystack_source =
  hs_id :: "string option"
  hs_title :: "string option"
  hs_content :: "string option"
  hs_source_path :: "string option"

record haystack_response =
  hr_request_id :: string
  hr_tenant_key :: string
  hr_agent_slug :: string
  hr_channel :: string
  hr_thread_id :: string
  hr_text :: string
  hr_subject :: "string option"
  hr_status :: "haystack_status option"
  hr_used_tools :: "string list option"
  hr_rag_sources :: "haystack_source list option"
  hr_handoff :: "bool option"

definition source_ok :: "haystack_source \<Rightarrow> bool" where
  "source_ok s \<longleftrightarrow> opt_ok (len_between 0 2000) (hs_id s) \<and> opt_ok (len_between 0 500) (hs_title s)
     \<and> opt_ok (len_between 0 100000) (hs_content s) \<and> opt_ok (len_between 0 2048) (hs_source_path s)"

definition isHaystackAgentResponse :: "haystack_response \<Rightarrow> bool" where
  "isHaystackAgentResponse r \<longleftrightarrow>
     len_between 1 2000 (hr_request_id r) \<and> len_between 1 200 (hr_tenant_key r)
     \<and> len_between 1 200 (hr_agent_slug r) \<and> len_between 1 64 (hr_channel r)
     \<and> len_between 1 2000 (hr_thread_id r) \<and> len_between 1 100000 (hr_text r)
     \<and> opt_ok (len_between 0 2000) (hr_subject r)
     \<and> opt_ok (\<lambda>ts. length ts \<le> 100 \<and> list_all (len_between 1 500) ts) (hr_used_tools r)
     \<and> opt_ok (\<lambda>ss. length ss \<le> 100 \<and> list_all source_ok ss) (hr_rag_sources r)"

subsection \<open>Text\<close>

definition separator :: "char \<Rightarrow> bool" where
  "separator c \<longleftrightarrow> c = CHR ''_'' \<or> c = CHR ''-''"

text \<open>\<open>value.replaceAll(/[_-]+/g, ' ')\<close>\<close>

fun spaced :: "string \<Rightarrow> string" where
  "spaced [] = []"
| "spaced (c # cs) =
     (if separator c then
        (if cs \<noteq> [] \<and> separator (hd cs) then spaced cs else CHR '' '' # spaced cs)
      else c # spaced cs)"

definition publicToolLabel :: "string \<Rightarrow> string" where
  "publicToolLabel value =
     (let label = trim (spaced value)
      in take 200 ((if label = [] then [] else upper_char (hd label)) @ drop 1 label))"

function textChunks :: "string \<Rightarrow> string list" where
  "textChunks value = (if value = [] then [] else take 20000 value # textChunks (drop 20000 value))"
  by pat_completeness auto
termination by (relation "measure length") auto

declare textChunks.simps [simp del]

subsection \<open>Translating a response\<close>

definition opaqueSourceId :: "string option \<Rightarrow> nat \<Rightarrow> string" where
  "opaqueSourceId value index =
     (case value of
        None \<Rightarrow> ''haystack-source-'' @ show_nat (index + 1)
      | Some v \<Rightarrow>
          if trim v \<noteq> [] \<and> opaque_id (trim v) then trim v
          else ''haystack-source-'' @ show_nat (index + 1))"

definition safeHttpsUrl :: "(string \<Rightarrow> url option) \<Rightarrow> string option \<Rightarrow> string option" where
  "safeHttpsUrl url_of value =
     (case value of
        None \<Rightarrow> None
      | Some v \<Rightarrow>
          if v = [] then None
          else (case url_of v of
              None \<Rightarrow> None
            | Some url \<Rightarrow>
                if u_protocol url = ''https:'' \<and> length (u_href url) \<le> 2048
                then Some (u_href url) else None))"

definition normalizedCitation ::
  "(string \<Rightarrow> url option) \<Rightarrow> nat \<Rightarrow> haystack_source \<Rightarrow> citation" where
  "normalizedCitation url_of index source =
     \<lparr>cit_citationId = ''haystack-citation-'' @ show_nat (index + 1),
      cit_sourceId = opaqueSourceId (hs_id source) index,
      cit_title = truthy (map_option trim (hs_title source)),
      cit_url = truthy (safeHttpsUrl url_of (hs_source_path source)),
      cit_excerpt = truthy (map_option (\<lambda>c. take 2000 (trim c)) (hs_content source))\<rparr>"

definition indexed :: "'a list \<Rightarrow> (nat \<times> 'a) list" where
  "indexed xs = zip [0..<length xs] xs"

definition normalizedCitations ::
  "(string \<Rightarrow> url option) \<Rightarrow> haystack_response \<Rightarrow> citation list" where
  "normalizedCitations url_of response =
     map (\<lambda>(i, s). normalizedCitation url_of i s)
       (indexed (case hr_rag_sources response of None \<Rightarrow> [] | Some ss \<Rightarrow> ss))"

text \<open>\<open>[...new Set(xs)]\<close>: the first occurrences, in order.\<close>

definition distinct_first :: "'a list \<Rightarrow> 'a list" where
  "distinct_first xs = rev (remdups (rev xs))"

definition tool_events :: "execution \<Rightarrow> nat \<Rightarrow> string \<Rightarrow> connector_event list" where
  "tool_events x index tool =
     (let toolCallId = ''haystack-tool-'' @ show_nat (index + 1)
      in [message_event x (ToolStarted toolCallId (publicToolLabel tool)),
          message_event x (ToolCompleted toolCallId)])"

definition completedEvents ::
  "(string \<Rightarrow> url option) \<Rightarrow> execution \<Rightarrow> haystack_response \<Rightarrow> connector_event list" where
  "completedEvents url_of x response =
     (let tools = distinct_first (case hr_used_tools response of None \<Rightarrow> [] | Some ts \<Rightarrow> ts);
          citations = normalizedCitations url_of response
      in [message_event x MessageStarted]
         @ concat (map (\<lambda>(i, t). tool_events x i t) (indexed tools))
         @ map (\<lambda>c. message_event x (CitationAdded c)) citations
         @ map (\<lambda>d. message_event x (MessageDelta d)) (textChunks (hr_text response))
         @ [message_event x (MessageCompleted (TextPart (hr_text response) # map CitationPart citations))]
         @ (if hr_handoff response = Some True
            then [base_event x (HandoffRequested (rq_runId (ex_request x)))] else [])
         @ [base_event x RunCompleted])"

subsection \<open>The request and its answer\<close>

definition message_texts :: "message \<Rightarrow> string list" where
  "message_texts m =
     List.map_filter (\<lambda>p. case p of TextPart t \<Rightarrow> Some t | _ \<Rightarrow> None) (ms_parts m)"

definition requestPayload :: "execution \<Rightarrow> haystack_config \<Rightarrow> agent_request option" where
  "requestPayload x config =
     (let r = ex_request x; body = trim (join_lines (message_texts (rq_currentMessage r)))
      in if body = [] then None
         else (let payload = \<lparr>ar_tenant_key = hc_tenantKey config, ar_agent_slug = hc_agentSlug config,
                 ar_user_id = rq_principalId r, ar_thread_id = rq_conversationId r, ar_text = body,
                 ar_response_mode = truthy (hc_responseMode config), ar_run_id = rq_runId r,
                 ar_message_id = ms_messageId (rq_currentMessage r),
                 ar_assistant_message_id = ex_assistantMessageId x,
                 ar_conversation_id = rq_conversationId r, ar_agent_ref = rq_agentRef r,
                 ar_origin = truthy (map_of (rq_trustedMetadata r) ''origin'')\<rparr>
               in if isHaystackAgentRequest payload then Some payload else None))"

text \<open>The native mode sends the request itself, with the configuration as trusted metadata.\<close>

definition nativePayload :: "execution \<Rightarrow> haystack_config \<Rightarrow> connector_run_request \<times> ident" where
  "nativePayload x config =
     (let metadata = AList.update ''haystack.agent_slug'' (hc_agentSlug config)
            (AList.update ''haystack.tenant_key'' (hc_tenantKey config)
              (rq_trustedMetadata (ex_request x)))
      in ((ex_request x)\<lparr>rq_trustedMetadata := (case truthy (hc_responseMode config) of
              None \<Rightarrow> metadata
            | Some mode \<Rightarrow> AList.update ''haystack.response_mode'' mode metadata)\<rparr>,
          ex_assistantMessageId x))"

definition isValidResponse :: "haystack_response \<Rightarrow> agent_request \<Rightarrow> bool" where
  "isValidResponse value request \<longleftrightarrow>
     isHaystackAgentResponse value
     \<and> hr_tenant_key value = ar_tenant_key request
     \<and> hr_agent_slug value = ar_agent_slug request
     \<and> hr_channel value = ''web''
     \<and> hr_thread_id value = ar_thread_id request"

definition failedEvent :: "execution \<Rightarrow> string \<Rightarrow> connector_event" where
  "failedEvent x code = base_event x (RunFailed code)"

definition isJson :: "string option \<Rightarrow> bool" where
  "isJson value =
     (case value of
        None \<Rightarrow> False
      | Some v \<Rightarrow>
          (let mediaType = map lower_char (trim (takeWhile (\<lambda>c. c \<noteq> CHR '';'') v))
           in mediaType = ''application/json''
              \<or> drop (length mediaType - 5) mediaType = ''+json''))"

definition isEventStream :: "string option \<Rightarrow> bool" where
  "isEventStream value =
     (case value of None \<Rightarrow> False
      | Some v \<Rightarrow> starts_with ''text/event-stream'' (map lower_char v))"

record http_response =
  rs_ok :: bool
  rs_status :: nat
  rs_contentType :: "string option"
  rs_contentLength :: "string option"
  rs_body :: "(nat \<times> string) list option"
  rs_bodyFlush :: string

text \<open>
  A body is read in chunks, each with its length in bytes and its text; \<open>utf8\<close> tells whether the
  bytes of the whole are valid UTF-8, which the fatal decoder requires.
\<close>

definition readBoundedText :: "bool \<Rightarrow> http_response \<Rightarrow> string option" where
  "readBoundedText utf8 response =
     (if \<not> opt_ok (\<lambda>declared. list_all is_digit declared
           \<and> read_nat declared \<le> RESPONSE_LIMIT_BYTES) (truthy (rs_contentLength response))
      then None
      else (case rs_body response of
          None \<Rightarrow> None
        | Some chunks \<Rightarrow>
            if sum_list (map fst chunks) > RESPONSE_LIMIT_BYTES \<or> \<not> utf8 then None
            else Some (concat (map snd chunks))))"

datatype fetch_result = Fetch_throws | Fetch_response http_response

record signals =
  sg_abortedAtStart :: bool
  sg_abortedAfterFetch :: bool
  sg_abortedAfterBody :: bool
  sg_timedOut :: bool
  sg_readThrows :: bool
  sg_validUtf8 :: bool

fun status_upper :: "haystack_status \<Rightarrow> string" where
  "status_upper Hs_completed = ''COMPLETED''"
| "status_upper Hs_failed = ''FAILED''"
| "status_upper Hs_rejected = ''REJECTED''"
| "status_upper Hs_ignored = ''IGNORED''"

definition answer_events ::
  "(string \<Rightarrow> url option) \<Rightarrow> execution \<Rightarrow> agent_request \<Rightarrow> haystack_response option \<Rightarrow> connector_event list" where
  "answer_events url_of x payload body =
     (case body of
        None \<Rightarrow> [failedEvent x ''HAYSTACK_INVALID_RESPONSE'']
      | Some response \<Rightarrow>
          if \<not> isValidResponse response payload then [failedEvent x ''HAYSTACK_INVALID_RESPONSE'']
          else (let status = (case hr_status response of None \<Rightarrow> Hs_completed | Some st \<Rightarrow> st)
            in if status \<noteq> Hs_completed then [failedEvent x (''HAYSTACK_'' @ status_upper status)]
               else completedEvents url_of x response))"

definition runCompatibility ::
  "(string \<Rightarrow> url option) \<Rightarrow> (json \<Rightarrow> haystack_response option) \<Rightarrow> haystack_config \<Rightarrow> execution
    \<Rightarrow> fetch_result \<Rightarrow> signals \<Rightarrow> connector_event list" where
  "runCompatibility url_of decode config x fetched sig =
     base_event x (RunStarted (rq_agentRef (ex_request x))) #
     (case requestPayload x config of
        None \<Rightarrow> [failedEvent x ''HAYSTACK_INVALID_REQUEST'']
      | Some payload \<Rightarrow>
          (case fetched of
             Fetch_throws \<Rightarrow>
               if sg_abortedAfterFetch sig then []
               else [failedEvent x (if sg_timedOut sig then ''HAYSTACK_TIMEOUT'' else ''HAYSTACK_UNAVAILABLE'')]
           | Fetch_response response \<Rightarrow>
               if sg_abortedAfterFetch sig then []
               else if \<not> rs_ok response then [failedEvent x ''HAYSTACK_HTTP_ERROR'']
               else if \<not> isJson (rs_contentType response) then [failedEvent x ''HAYSTACK_INVALID_RESPONSE'']
               else (case (if sg_readThrows sig then None
                       else Option.bind (readBoundedText (sg_validUtf8 sig) response) json_parse) of
                   None \<Rightarrow>
                     if sg_abortedAfterBody sig then []
                     else [failedEvent x (if sg_timedOut sig then ''HAYSTACK_TIMEOUT''
                             else ''HAYSTACK_INVALID_RESPONSE'')]
                 | Some body \<Rightarrow> answer_events url_of x payload (decode body))))"

definition runNative ::
  "(json \<Rightarrow> connector_event option) \<Rightarrow> execution \<Rightarrow> fetch_result \<Rightarrow> signals \<Rightarrow> connector_event list" where
  "runNative check x fetched sig =
     (case fetched of
        Fetch_throws \<Rightarrow>
          if sg_abortedAfterFetch sig then []
          else [failedEvent x (if sg_timedOut sig then ''HAYSTACK_TIMEOUT'' else ''HAYSTACK_UNAVAILABLE'')]
      | Fetch_response response \<Rightarrow>
          if sg_abortedAfterFetch sig then []
          else if \<not> rs_ok response
          then [failedEvent x (if rs_status response = 401 then ''HAYSTACK_UNAUTHORIZED''
                  else ''HAYSTACK_HTTP_ERROR'')]
          else if \<not> isEventStream (rs_contentType response)
          then [failedEvent x ''HAYSTACK_INVALID_RESPONSE'']
          else (case rs_body response of
              None \<Rightarrow> [failedEvent x ''HAYSTACK_INVALID_RESPONSE'']
            | Some chunks \<Rightarrow>
                (let (events, complete) =
                       (if sg_readThrows sig
                        then (fst (read_chunks (consume_connector check) RESPONSE_LIMIT_BYTES chunks
                               [] 0 []), False)
                        else parseConnectorEventStream check chunks (rs_bodyFlush response))
                 in if complete \<or> sg_abortedAfterBody sig then events
                    else events @ [failedEvent x ''HAYSTACK_INVALID_RESPONSE''])))"

definition haystack_run ::
  "(string \<Rightarrow> url option) \<Rightarrow> (json \<Rightarrow> haystack_response option) \<Rightarrow> (json \<Rightarrow> connector_event option)
    \<Rightarrow> haystack_config \<Rightarrow> execution \<Rightarrow> fetch_result \<Rightarrow> signals \<Rightarrow> connector_event list" where
  "haystack_run url_of decode check config x fetched sig =
     (if sg_abortedAtStart sig then []
      else if truthy (hc_connectorToken config) \<noteq> None then runNative check x fetched sig
      else runCompatibility url_of decode config x fetched sig)"

subsection \<open>The compatibility mode keeps the contract\<close>

text \<open>
  What the translation relies on of the \<open>URL\<close> class: the text of an \<open>https\<close> URL begins with its
  scheme and is itself accepted as a URL.
\<close>

definition url_laws :: "(string \<Rightarrow> url option) \<Rightarrow> (string \<Rightarrow> bool) \<Rightarrow> bool" where
  "url_laws url_of uri \<longleftrightarrow> (\<forall>v u. url_of v = Some u \<longrightarrow> u_protocol u = ''https:'' \<longrightarrow>
     take 8 (u_href u) = ''https://'' \<and> uri (u_href u))"

definition labels_ok :: "haystack_response \<Rightarrow> bool" where
  "labels_ok r \<longleftrightarrow> opt_ok (list_all (\<lambda>t. publicToolLabel t \<noteq> [])) (hr_used_tools r)"

definition ids_ok :: "execution \<Rightarrow> bool" where
  "ids_ok x \<longleftrightarrow> opaque_id (rq_conversationId (ex_request x)) \<and> opaque_id (rq_runId (ex_request x))
     \<and> opaque_id (rq_agentRef (ex_request x)) \<and> opaque_id (ex_assistantMessageId x)"

record compat_run =
  cr_config :: haystack_config
  cr_execution :: execution
  cr_decode :: "json \<Rightarrow> haystack_response option"
  cr_fetched :: fetch_result
  cr_signals :: signals

definition compat_emits :: "(string \<Rightarrow> url option) \<Rightarrow> compat_run \<Rightarrow> connector_event list" where
  "compat_emits url_of z = runCompatibility url_of (cr_decode z) (cr_config z) (cr_execution z)
     (cr_fetched z) (cr_signals z)"

definition compat_ready :: "(string \<Rightarrow> url option) \<Rightarrow> (string \<Rightarrow> bool) \<Rightarrow> compat_run \<Rightarrow> bool" where
  "compat_ready url_of uri z \<longleftrightarrow>
     url_laws url_of uri \<and> ids_ok (cr_execution z)
     \<and> \<not> sg_abortedAfterFetch (cr_signals z) \<and> \<not> sg_abortedAfterBody (cr_signals z)
     \<and> (\<forall>j r. cr_decode z j = Some r \<longrightarrow> labels_ok r)"

lemma textChunks_Nil [simp]: "textChunks [] = []"
  by (simp add: textChunks.simps)

lemma textChunks_concat: "concat (textChunks s) = s"
proof (induction s rule: textChunks.induct)
  case (1 s)
  then show ?case by (cases "s = []") (simp_all add: textChunks.simps [of s] append_take_drop_id)
qed

lemma textChunks_size: "c \<in> set (textChunks s) \<Longrightarrow> len_between 1 20000 c"
proof (induction s rule: textChunks.induct)
  case (1 s)
  show ?case
  proof (cases "s = []")
    case True
    with 1(2) show ?thesis by (simp add: textChunks.simps [of "[]"])
  next
    case False
    with 1(2) consider "c = take 20000 s" | "c \<in> set (textChunks (drop 20000 s))"
      by (auto simp: textChunks.simps [of s])
    then show ?thesis
      using False 1(1) by cases (auto simp: len_between_def Suc_le_eq)
  qed
qed

lemma opaque_digits: "opaque_tail_char c \<and> is_alnum c" if "is_digit c"
  using that by (simp add: opaque_tail_char_def is_alnum_def)

lemma length_show_nat: "n < 1000 \<Longrightarrow> length (show_nat n) \<le> 3"
  by (simp add: show_nat.simps)

lemma opaque_numbered:
  assumes "opaque_id prefix" and "length prefix \<le> 100" and "n < 1000"
  shows "opaque_id (prefix @ show_nat n)"
  using assms show_nat_digits [of n] length_show_nat [OF assms(3)] opaque_digits
  by (cases prefix) (auto simp: opaque_id_def list_all_iff)

lemma opaque_prefixes:
  "opaque_id ''haystack-citation-''" "opaque_id ''haystack-source-''" "opaque_id ''haystack-tool-''"
  by (simp_all add: opaque_id_def is_alnum_def is_upper_def is_lower_def is_digit_def
      opaque_tail_char_def code_unit_def)

lemma truthy_len: "opt_ok (len_between 0 n) v \<Longrightarrow> opt_ok (len_between 1 n) (truthy v)"
  by (cases v) (auto simp: truthy_def len_between_def Suc_le_eq)

lemma normalizedCitation_ok:
  assumes "url_laws url_of uri" and "source_ok s" and "i < 100"
  shows "citation_ok uri (normalizedCitation url_of i s)"
proof -
  have "opaque_id (opaqueSourceId (hs_id s) i)"
    using opaque_numbered [OF opaque_prefixes(2), of "i + 1"] assms(3)
    by (auto simp: opaqueSourceId_def split: option.split)
  moreover have "opt_ok (len_between 1 500) (truthy (map_option trim (hs_title s)))"
    using assms(2) length_trim by (intro truthy_len) (cases "hs_title s", auto simp: source_ok_def
        len_between_def intro: le_trans)
  moreover have "opt_ok (https_url_ok uri) (truthy (safeHttpsUrl url_of (hs_source_path s)))"
    using assms(1)
    by (auto simp: safeHttpsUrl_def truthy_def url_laws_def https_url_ok_def split: option.splits)
  moreover have "opt_ok (len_between 0 2000) (truthy (map_option (\<lambda>c. take 2000 (trim c)) (hs_content s)))"
    by (cases "hs_content s") (auto simp: truthy_def len_between_def)
  ultimately show ?thesis
    using opaque_numbered [OF opaque_prefixes(1), of "i + 1"] assms(3)
    by (simp add: citation_ok_def normalizedCitation_def)
qed

lemma indexed_less: "(i, a) \<in> set (indexed xs) \<Longrightarrow> i < length xs \<and> a \<in> set xs"
  by (auto simp: indexed_def set_zip)

lemma citations_ok:
  assumes "url_laws url_of uri" and "isHaystackAgentResponse r"
    and "c \<in> set (normalizedCitations url_of r)"
  shows "citation_ok uri c"
  using assms
  by (auto simp: normalizedCitations_def isHaystackAgentResponse_def list_all_iff
      intro!: normalizedCitation_ok dest!: indexed_less split: option.splits)

lemma distinct_first_set [simp]: "set (distinct_first xs) = set xs"
  by (simp add: distinct_first_def)

lemma length_distinct_first: "length (distinct_first xs) \<le> length xs"
  using length_remdups_leq [of "rev xs"] by (simp add: distinct_first_def)

lemma tool_events_ok:
  assumes "ids_ok x" and "isHaystackAgentResponse r" and "labels_ok r" and "hr_used_tools r = Some ts"
    and "(i, t) \<in> set (indexed (distinct_first ts))" and "e \<in> set (tool_events x i t)"
  shows "connector_event_ok uri e \<and> validateConnectorEventContext e (target_of x)"
proof -
  have "i < length (distinct_first ts)" and t: "t \<in> set ts"
    using indexed_less [OF assms(5)] by auto
  then have "i < 100"
    using length_distinct_first [of ts] assms(2,4) by (auto simp: isHaystackAgentResponse_def)
  then have "opaque_id (''haystack-tool-'' @ show_nat (i + 1))"
    using opaque_numbered [OF opaque_prefixes(3), of "i + 1"] by simp
  moreover have "len_between 1 200 (publicToolLabel t)"
    using assms(3,4) t by (auto simp: labels_ok_def list_all_iff len_between_def Suc_le_eq
        publicToolLabel_def Let_def)
  ultimately show ?thesis
    using assms(1,6)
    by (auto simp: tool_events_def Let_def event_at_conversation ids_ok_def intro!: event_ok_rules)
qed

lemma completedEvents_ok:
  assumes "url_laws url_of uri" and "ids_ok x" and "isHaystackAgentResponse r" and "labels_ok r"
    and "e \<in> set (completedEvents url_of x r)"
  shows "connector_event_ok uri e \<and> validateConnectorEventContext e (target_of x)"
proof -
  have parts: "event_data_ok uri (MessageCompleted (TextPart (hr_text r)
      # map CitationPart (normalizedCitations url_of r)))"
    using citations_ok [OF assms(1,3)] assms(3)
    by (auto simp: isHaystackAgentResponse_def list_all_iff)
  consider (tool) ts i t where "hr_used_tools r = Some ts" "(i, t) \<in> set (indexed (distinct_first ts))"
      "e \<in> set (tool_events x i t)"
    | (message) data where "e = message_event x data" "requires_message_id data" "event_data_ok uri data"
    | (base) data where "e = base_event x data" "\<not> requires_message_id data" "data \<noteq> SyncRequired"
      "event_data_ok uri data"
    using assms(5) parts citations_ok [OF assms(1,3)] textChunks_size [of _ "hr_text r"] assms(2)
    by (auto simp: completedEvents_def Let_def ids_ok_def indexed_def distinct_first_def
        split: option.splits if_splits)
  then show ?thesis
  proof cases
    case tool
    with tool_events_ok [OF assms(2,3,4)] show ?thesis by blast
  qed (use assms(2) in \<open>auto simp: event_at_conversation ids_ok_def intro!: event_ok_rules\<close>)
qed

definition haystack_codes :: "string set" where
  "haystack_codes = {''HAYSTACK_INVALID_REQUEST'', ''HAYSTACK_TIMEOUT'', ''HAYSTACK_UNAVAILABLE'',
     ''HAYSTACK_HTTP_ERROR'', ''HAYSTACK_INVALID_RESPONSE'', ''HAYSTACK_FAILED'',
     ''HAYSTACK_REJECTED'', ''HAYSTACK_IGNORED''}"

lemma haystack_codes_ok:
  "code \<in> haystack_codes \<Longrightarrow> upper_code code \<and> length code \<le> 64 \<and> code \<notin> reserved_codes"
  by (auto simp: haystack_codes_def upper_code_def reserved_codes_def is_upper_def is_digit_def
      code_unit_def)

lemma haystack_codesI [simp]:
  "''HAYSTACK_INVALID_REQUEST'' \<in> haystack_codes" "''HAYSTACK_TIMEOUT'' \<in> haystack_codes"
  "''HAYSTACK_UNAVAILABLE'' \<in> haystack_codes" "''HAYSTACK_HTTP_ERROR'' \<in> haystack_codes"
  "''HAYSTACK_INVALID_RESPONSE'' \<in> haystack_codes"
  by (simp_all add: haystack_codes_def)

lemma status_code: "st \<noteq> Hs_completed \<Longrightarrow> ''HAYSTACK_'' @ status_upper st \<in> haystack_codes"
  by (cases st) (simp_all add: haystack_codes_def)

definition fails_with :: "execution \<Rightarrow> connector_event list \<Rightarrow> bool" where
  "fails_with x es \<longleftrightarrow> (\<exists>code \<in> haystack_codes. es = [failedEvent x code])"

lemma fails_withI [intro]: "code \<in> haystack_codes \<Longrightarrow> fails_with x [failedEvent x code]"
  by (auto simp: fails_with_def)

text \<open>What the compatibility mode makes of an answer, and what it emits after its start.\<close>

lemma answer_cases:
  "fails_with x (answer_events url_of x payload body)
   \<or> (\<exists>r. body = Some r \<and> isHaystackAgentResponse r
        \<and> answer_events url_of x payload body = completedEvents url_of x r)"
proof (cases body)
  case None
  then show ?thesis by (simp add: answer_events_def fails_withI)
next
  case (Some r)
  define st where "st = (case hr_status r of None \<Rightarrow> Hs_completed | Some st \<Rightarrow> st)"
  show ?thesis
  proof (cases "isValidResponse r payload")
    case False
    then show ?thesis by (simp add: Some answer_events_def fails_withI)
  next
    case True
    then show ?thesis
      by (cases "st = Hs_completed")
        (simp_all add: Some answer_events_def st_def [symmetric] isValidResponse_def
          fails_withI [OF status_code, simplified])
  qed
qed

lemma compat_cases:
  assumes "\<not> sg_abortedAfterFetch sig" and "\<not> sg_abortedAfterBody sig"
  shows "\<exists>es. runCompatibility url_of decode config x fetched sig
      = base_event x (RunStarted (rq_agentRef (ex_request x))) # es
    \<and> (fails_with x es \<or> (\<exists>payload j. es = answer_events url_of x payload (decode j)))"
proof -
  have timed: "fails_with x [failedEvent x (if sg_timedOut sig then ''HAYSTACK_TIMEOUT'' else code)]"
    if "code \<in> haystack_codes" for code
    using that by (intro fails_withI) simp
  show ?thesis
    using assms timed
    by (simp add: runCompatibility_def fails_withI split: option.split fetch_result.split) blast
qed

definition code_at_end :: "connector_event list \<Rightarrow> bool" where
  "code_at_end es \<longleftrightarrow> es \<noteq> [] \<and> is_final (ce_data (last es))"

lemma compat_final:
  assumes "\<not> sg_abortedAfterFetch sig" and "\<not> sg_abortedAfterBody sig"
  shows "code_at_end (runCompatibility url_of decode config x fetched sig)"
proof -
  have failed: "code_at_end (base_event x d # es)" if "fails_with x es" for d es
    using that by (auto simp: fails_with_def code_at_end_def failedEvent_def base_event_def)
  have whole: "code_at_end (base_event x d # completedEvents url_of x r)" for d r
    by (simp add: code_at_end_def completedEvents_def Let_def base_event_def)
  show ?thesis
    using compat_cases [OF assms, of url_of decode config x fetched] answer_cases failed whole by metis
qed

lemma compat_event:
  assumes "compat_ready url_of uri z" and "e \<in> set (compat_emits url_of z)"
  obtains (started) "e = base_event (cr_execution z) (RunStarted (rq_agentRef (ex_request (cr_execution z))))"
  | (failed) code where "code \<in> haystack_codes" and "e = failedEvent (cr_execution z) code"
  | (answered) r where "isHaystackAgentResponse r" and "labels_ok r"
      and "e \<in> set (completedEvents url_of (cr_execution z) r)"
proof -
  let ?x = "cr_execution z"
  have sig: "\<not> sg_abortedAfterFetch (cr_signals z)" "\<not> sg_abortedAfterBody (cr_signals z)"
    and labels: "\<And>j r. cr_decode z j = Some r \<Longrightarrow> labels_ok r"
    using assms(1) by (auto simp: compat_ready_def)
  obtain es where es: "compat_emits url_of z = base_event ?x (RunStarted (rq_agentRef (ex_request ?x))) # es"
    and tail: "fails_with ?x es \<or> (\<exists>payload j. es = answer_events url_of ?x payload (cr_decode z j))"
    unfolding compat_emits_def using compat_cases [OF sig] by blast
  show ?thesis
  proof (cases "e \<in> set es")
    case False
    then show ?thesis using assms(2) es started by auto
  next
    case True
    from tail consider "fails_with ?x es"
      | j r where "cr_decode z j = Some r" "isHaystackAgentResponse r" "es = completedEvents url_of ?x r"
      using answer_cases by metis
    then show ?thesis
    proof cases
      case 1
      then show ?thesis using True failed by (auto simp: fails_with_def)
    next
      case 2
      then show ?thesis using True answered labels by blast
    qed
  qed
qed

lemma completed_not_failed:
  "e \<in> set (completedEvents url_of x r) \<Longrightarrow> ce_data e \<noteq> RunFailed code"
  by (auto simp: completedEvents_def tool_events_def Let_def base_event_def message_event_def
      split: if_splits)

interpretation haystack: chat_connector "compat_emits url_of" "\<lambda>z. target_of (cr_execution z)"
  "compat_ready url_of uri" uri for url_of uri
proof
  fix z e
  assume ready: "compat_ready url_of uri z" and e: "e \<in> set (compat_emits url_of z)"
  have ids: "ids_ok (cr_execution z)" and laws: "url_laws url_of uri"
    using ready by (auto simp: compat_ready_def)
  from ready e show "connector_event_ok uri e \<and> validateConnectorEventContext e (target_of (cr_execution z))"
  proof (cases rule: compat_event)
    case answered
    then show ?thesis using completedEvents_ok [OF laws ids] by blast
  qed (use ids in \<open>auto simp: failedEvent_def event_at_conversation ids_ok_def haystack_codes_ok
      intro!: event_ok_rules\<close>)
  show "code \<notin> reserved_codes" if "ce_data e = RunFailed code" for code
    using ready e
  proof (cases rule: compat_event)
    case answered
    then show ?thesis using that completed_not_failed by blast
  qed (use that haystack_codes_ok in \<open>auto simp: failedEvent_def base_event_def\<close>)
next
  fix z
  assume "compat_ready url_of uri z"
  then show "compat_emits url_of z \<noteq> [] \<and> is_final (ce_data (last (compat_emits url_of z)))"
    unfolding compat_emits_def code_at_end_def [symmetric]
    by (intro compat_final) (simp_all add: compat_ready_def)
qed

text \<open>
  A run of the compatibility mode never fails through the connector's fault, whatever the agent
  answers and however the request fails, as long as no tool of the answer has an empty label: the
  worker does not end it with \<open>INVALID_CONNECTOR_EVENT\<close> or \<open>CONNECTOR_INCOMPLETE\<close>.
\<close>

theorem haystack_never_blamed:
  assumes "compat_ready url_of uri z"
    and "target_of (cr_execution z) = \<lparr>ec_conversationId = r_conversation_id run, ec_runId = r_run_id run,
           ec_assistantMessageId = r_assistant_message_id run\<rparr>"
    and "map it_event its = map Some (runCompatibility url_of (cr_decode z) (cr_config z)
           (cr_execution z) (cr_fetched z) (cr_signals z))"
    and "\<forall>it \<in> set its. \<forall>k. keeps_unblamed (r_run_id run) (it_env it k)"
    and "unblamed (r_run_id run) s"
  shows "unblamed (r_run_id run) (snd (worker_loop uri cfg run load now fin its s))"
  by (rule haystack.never_blamed [where x = z and url_of = url_of])
    (use assms in \<open>simp_all add: compat_emits_def\<close>)

definition sample_haystack_config :: haystack_config where
  "sample_haystack_config = \<lparr>hc_baseUrl = ''http://h'', hc_tenantKey = ''t'', hc_agentSlug = ''a'',
     hc_connectorToken = None, hc_responseMode = None, hc_timeoutMs = None\<rparr>"

definition sample_signals :: signals where
  "sample_signals = \<lparr>sg_abortedAtStart = False, sg_abortedAfterFetch = False,
     sg_abortedAfterBody = False, sg_timedOut = True, sg_readThrows = False, sg_validUtf8 = True\<rparr>"

definition sample_compat :: compat_run where
  "sample_compat = \<lparr>cr_config = sample_haystack_config, cr_execution = sample_execution,
     cr_decode = (\<lambda>_. None), cr_fetched = Fetch_throws, cr_signals = sample_signals\<rparr>"

lemma sample_compat_ready: "compat_ready (\<lambda>_. None) (\<lambda>_. True) sample_compat"
  by (simp add: compat_ready_def sample_compat_def sample_signals_def url_laws_def ids_ok_def
      sample_execution_def opaque_id_def is_alnum_def is_upper_def is_lower_def is_digit_def
      opaque_tail_char_def code_unit_def)

lemma haystack_never_blamed_witness:
  "unblamed ''r1'' (snd (worker_loop (\<lambda>_. True) sample_config (sample_run Run_running 1 None) sample_load
     7 sample_end (map (\<lambda>e. (sample_step RunCompleted)\<lparr>it_event := Some e\<rparr>)
       (compat_emits (\<lambda>_. None) sample_compat)) sample_state))"
proof -
  let ?its = "map (\<lambda>e. (sample_step RunCompleted)\<lparr>it_event := Some e\<rparr>)
       (compat_emits (\<lambda>_. None) sample_compat)"
  have "target_of (cr_execution sample_compat) =
      \<lparr>ec_conversationId = r_conversation_id (sample_run Run_running 1 None),
       ec_runId = r_run_id (sample_run Run_running 1 None),
       ec_assistantMessageId = r_assistant_message_id (sample_run Run_running 1 None)\<rparr>"
    by (simp add: target_of_def sample_compat_def sample_execution_def sample_run_def)
  moreover have "map it_event ?its = map Some (compat_emits (\<lambda>_. None) sample_compat)"
    by (simp add: comp_def)
  moreover have "\<forall>it \<in> set ?its. \<forall>k. keeps_unblamed (r_run_id (sample_run Run_running 1 None)) (it_env it k)"
    by (auto simp: keeps_unblamed_def sample_step_def)
  moreover have "unblamed (r_run_id (sample_run Run_running 1 None)) sample_state"
    by (simp add: unblamed_def sample_state_def sample_run_db_def sample_run_def)
  ultimately show ?thesis
    using haystack_never_blamed [OF sample_compat_ready, of "sample_run Run_running 1 None" ?its]
    by (simp add: compat_emits_def)
qed

subsection \<open>What the events carry\<close>

fun delta_of :: "connector_event \<Rightarrow> string" where
  "delta_of e = (case ce_data e of MessageDelta d \<Rightarrow> d | _ \<Rightarrow> [])"

lemma delta_of_simps [simp]:
  "delta_of (message_event x (MessageDelta d)) = d" "delta_of (base_event x RunCompleted) = []"
  "delta_of (message_event x (CitationAdded c)) = []" "delta_of (message_event x MessageStarted) = []"
  "delta_of (message_event x (MessageCompleted ps)) = []"
  "delta_of (base_event x (HandoffRequested h)) = []" "delta_of (message_event x (ToolStarted t l)) = []"
  "delta_of (message_event x (ToolCompleted t)) = []"
  by (simp_all add: message_event_def base_event_def)

lemma event_data_at: "ce_data (message_event x d) = d" "ce_data (base_event x d) = d"
  by (simp_all add: message_event_def base_event_def)

lemma tools_quiet: "e \<in> set (tool_events x i t) \<Longrightarrow>
    delta_of e = [] \<and> \<not> is_final (ce_data e) \<and> event_type (ce_data e) \<noteq> ''message.completed''"
  by (auto simp: tool_events_def Let_def event_data_at simp del: delta_of.simps)

lemma answer_in_parts:
  assumes whole: "whole = (x # ts @ cs @ ds @ m # hs) @ [y]"
    and quiet: "\<forall>e \<in> {x, m, y} \<union> set ts \<union> set cs \<union> set hs. delta_of e = []"
    and size: "\<forall>e \<in> set ds. length (delta_of e) \<le> n"
    and rest: "\<forall>e \<in> {x, y} \<union> set ts \<union> set cs \<union> set ds \<union> set hs. event_type (ce_data e) \<noteq> ''message.completed''"
    and msg: "event_type (ce_data m) = ''message.completed''"
    and unfinal: "\<forall>e \<in> {x, m} \<union> set ts \<union> set cs \<union> set ds \<union> set hs. \<not> is_final (ce_data e)"
  shows "concat (map delta_of whole) = concat (map delta_of ds) \<and> (\<forall>e \<in> set whole. length (delta_of e) \<le> n)
    \<and> map ce_data (filter (\<lambda>e. event_type (ce_data e) = ''message.completed'') whole) = [ce_data m]
    \<and> (\<exists>es. whole = es @ [y] \<and> (\<forall>e \<in> set es. \<not> is_final (ce_data e)))"
proof -
  have "concat (map delta_of ts) = []" "concat (map delta_of cs) = []" "concat (map delta_of hs) = []"
    using quiet by (simp_all add: ball_Un del: delta_of.simps)
  then have "concat (map delta_of whole) = concat (map delta_of ds)"
    using quiet by (simp add: whole del: delta_of.simps concat_eq_Nil_conv)
  moreover have "\<forall>e \<in> set whole. length (delta_of e) \<le> n"
    using quiet size by (auto simp: whole simp del: delta_of.simps)
  moreover have "filter (\<lambda>e. event_type (ce_data e) = ''message.completed'') whole = [m]"
    using rest msg by (auto simp: whole filter_empty_conv)
  ultimately show ?thesis using unfinal by (auto simp: whole simp del: delta_of.simps)
qed

text \<open>
  The events of a completed answer carry the whole answer: the deltas put together are its
  text, each of at most 20,000 characters, the completed message is that text followed by the
  citations, and \<open>run.completed\<close> comes last and only there.
\<close>

theorem completed_events_carry_answer:
  "concat (map delta_of (completedEvents url_of x r)) = hr_text r
   \<and> (\<forall>e \<in> set (completedEvents url_of x r). length (delta_of e) \<le> 20000)
   \<and> map ce_data (filter (\<lambda>e. event_type (ce_data e) = ''message.completed'') (completedEvents url_of x r))
      = [MessageCompleted (TextPart (hr_text r) # map CitationPart (normalizedCitations url_of r))]
   \<and> (\<exists>es. completedEvents url_of x r = es @ [base_event x RunCompleted]
        \<and> (\<forall>e \<in> set es. \<not> is_final (ce_data e)))"
proof -
  let ?tools = "concat (map (\<lambda>(i, t). tool_events x i t) (indexed (distinct_first
      (case hr_used_tools r of None \<Rightarrow> [] | Some ts \<Rightarrow> ts))))"
  let ?cits = "map (\<lambda>c. message_event x (CitationAdded c)) (normalizedCitations url_of r)"
  let ?deltas = "map (\<lambda>d. message_event x (MessageDelta d)) (textChunks (hr_text r))"
  let ?message = "message_event x (MessageCompleted (TextPart (hr_text r)
      # map CitationPart (normalizedCitations url_of r)))"
  let ?handoff = "if hr_handoff r = Some True
      then [base_event x (HandoffRequested (rq_runId (ex_request x)))] else []"
  have whole: "completedEvents url_of x r = (message_event x MessageStarted # ?tools @ ?cits @ ?deltas
      @ ?message # ?handoff) @ [base_event x RunCompleted]"
    by (simp add: completedEvents_def Let_def)
  have "\<forall>e \<in> set ?tools \<union> set ?cits \<union> set ?handoff. delta_of e = []"
    "\<forall>e \<in> set ?deltas. length (delta_of e) \<le> 20000" "concat (map delta_of ?deltas) = hr_text r"
    using tools_quiet textChunks_size [of _ "hr_text r"]
    by (auto simp: len_between_def comp_def textChunks_concat simp del: delta_of.simps)
  moreover have "\<forall>e \<in> set ?tools \<union> set ?cits \<union> set ?deltas \<union> set ?handoff.
      event_type (ce_data e) \<noteq> ''message.completed'' \<and> \<not> is_final (ce_data e)"
    using tools_quiet by (auto simp: event_data_at)
  ultimately show ?thesis
    using answer_in_parts [OF whole, of 20000] by (simp add: event_data_at ball_Un)
qed

lemma completed_events_carry_answer_witness:
  "concat (map delta_of (completedEvents (\<lambda>_. None) sample_execution
     \<lparr>hr_request_id = ''q'', hr_tenant_key = ''t'', hr_agent_slug = ''a'', hr_channel = ''web'',
      hr_thread_id = ''c1'', hr_text = ''hello'', hr_subject = None, hr_status = None,
      hr_used_tools = None, hr_rag_sources = None, hr_handoff = None\<rparr>)) = ''hello''"
  by (simp add: completed_events_carry_answer del: delta_of.simps)

lemma spaced_blank:
  "list_all (\<lambda>c. separator c \<or> js_space c) s \<Longrightarrow> list_all js_space (spaced s)"
proof (induction s)
  case (Cons c s)
  have "js_space (CHR '' '')" by (simp add: js_space_def code_unit_def)
  with Cons show ?case by auto
qed simp

text \<open>
  A tool whose name is only separators and blanks gets an empty label, which the protocol does
  not allow: the translated answer then holds an event that the worker rejects, and the run fails
  with \<open>INVALID_CONNECTOR_EVENT\<close> although the agent answered.
\<close>

theorem blank_tool_name_fails_run:
  assumes "hr_used_tools r = Some ts" and "t \<in> set ts"
    and "list_all (\<lambda>c. separator c \<or> js_space c) t"
  shows "\<exists>e \<in> set (completedEvents url_of x r). \<not> connector_event_ok uri e
     \<and> (\<forall>it s. it_event it = Some e \<longrightarrow> \<not> it_aborted it
          \<longrightarrow> isCancellationRequested (r_run_id run) (fst (it_env it 0 s)) = Inr False
          \<longrightarrow> worker_iteration uri cfg run load now it s =
              Settled (on_db (fail_run (r_run_id run) ''INVALID_CONNECTOR_EVENT'' now) (it_env it 0 s)))"
proof -
  have "t \<in> set (distinct_first ts)" using assms(2) by simp
  then obtain i where i: "i < length (distinct_first ts)" "distinct_first ts ! i = t"
    unfolding in_set_conv_nth by blast
  let ?e = "message_event x (ToolStarted (''haystack-tool-'' @ show_nat (i + 1)) (publicToolLabel t))"
  have "(i, t) \<in> set (indexed (distinct_first ts))" using i by (auto simp: indexed_def set_zip intro!: exI [of _ i])
  then have e: "?e \<in> set (completedEvents url_of x r)"
    by (auto simp: completedEvents_def Let_def assms(1) tool_events_def intro!: bexI [of _ "(i, t)"])
  have "publicToolLabel t = []"
    using trim_spaces [OF spaced_blank [OF assms(3)]] by (simp add: publicToolLabel_def)
  then have "\<not> connector_event_ok uri ?e"
    by (simp add: connector_event_ok_def message_event_def base_event_def len_between_def)
  with e show ?thesis by (intro bexI [of _ ?e]) (auto simp: worker_iteration_def)
qed

lemma blank_tool_name_fails_run_witness:
  "\<exists>e \<in> set (completedEvents (\<lambda>_. None) sample_execution
     \<lparr>hr_request_id = ''q'', hr_tenant_key = ''t'', hr_agent_slug = ''a'', hr_channel = ''web'',
      hr_thread_id = ''c1'', hr_text = ''hello'', hr_subject = None, hr_status = None,
      hr_used_tools = Some [''__'', ''-''], hr_rag_sources = None, hr_handoff = None\<rparr>).
     \<not> connector_event_ok (\<lambda>_. True) e"
proof -
  let ?r = "\<lparr>hr_request_id = ''q'', hr_tenant_key = ''t'', hr_agent_slug = ''a'', hr_channel = ''web'',
      hr_thread_id = ''c1'', hr_text = ''hello'', hr_subject = None, hr_status = None,
      hr_used_tools = Some [''__'', ''-''], hr_rag_sources = None, hr_handoff = None\<rparr>"
  have "hr_used_tools ?r = Some [''__'', ''-'']" "''__'' \<in> set [''__'', ''-'']"
    "list_all (\<lambda>c. separator c \<or> js_space c) ''__''" by (simp_all add: separator_def)
  from blank_tool_name_fails_run [OF this, of "\<lambda>_. None" sample_execution "\<lambda>_. True"
      "sample_run Run_running 1 None" sample_config sample_load 7]
  show ?thesis by blast
qed

end
