(* ===== verification/AdminAuth.thy ===== *)
theory AdminAuth
  imports Token
begin

text \<open>
  \<open>admin/token.ts\<close>, \<open>admin/auth.ts\<close> and the authentication of \<open>admin/route.ts\<close>: the operators'
  tokens, their exchange from a single sign-on login, their renewal, and the cookie they travel in.

  A claim of a token is whatever JSON value its payload holds; \<open>RegExp.test\<close> converts it to a
  string first (\<open>js_text\<close>). The identity provider's answer, the digest \<open>digest\<close> and the JWT library
  are parameters.
\<close>

definition admin_audience :: string where
  "admin_audience = ''formation-chat-core-admin''"

definition admin_scope_names :: "string list" where
  "admin_scope_names = [''admin:read'', ''admin:internal'']"

record admin_subject =
  an_adminId :: "json option"
  an_tenantId :: "json option"
  an_email :: "string option"
  an_displayName :: "string option"
  an_scopes :: "json option"

record admin_claims = admin_subject +
  ac_issuedAt :: "json option"
  ac_expiresAt :: "json option"

definition admin_token_ok :: "string list \<Rightarrow> int \<Rightarrow> bool" where
  "admin_token_ok secrets ttlSeconds \<longleftrightarrow>
     token_secrets_ok secrets \<and> 60 \<le> ttlSeconds \<and> ttlSeconds \<le> 86400"

subsection \<open>Subjects\<close>

fun join_comma :: "string list \<Rightarrow> string" where
  "join_comma [] = []"
| "join_comma [s] = s"
| "join_comma (s # t # ss) = s @ '','' @ join_comma (t # ss)"

text \<open>\<open>String(value)\<close> of a JSON value; a null inside an array is empty.\<close>

fun js_text :: "json \<Rightarrow> string" where
  "js_text JNull = ''null''"
| "js_text (JBool b) = (if b then ''true'' else ''false'')"
| "js_text (JNumber n) = show_int n"
| "js_text (JFraction s) = s"
| "js_text (JString s) = s"
| "js_text (JArray vs) = join_comma (map (\<lambda>v. if v = JNull then [] else js_text v) vs)"
| "js_text (JObject _) = ''[object Object]''"

definition tested :: "json option \<Rightarrow> string" where
  "tested value = (case value of None \<Rightarrow> ''undefined'' | Some v \<Rightarrow> js_text v)"

definition valid_scopes :: "json option \<Rightarrow> bool" where
  "valid_scopes scopes \<longleftrightarrow>
     (case scopes of
        Some (JArray ss) \<Rightarrow> ss \<noteq> [] \<and> list_all (\<lambda>s. s \<in> JString ` set admin_scope_names) ss \<and> distinct ss
      | _ \<Rightarrow> False)"

definition isValidSubject :: "'a admin_subject_scheme \<Rightarrow> bool" where
  "isValidSubject s \<longleftrightarrow>
     opaque_id (tested (an_adminId s)) \<and> opaque_id (tested (an_tenantId s))
     \<and> opt_ok (\<lambda>e. 3 \<le> length e \<and> length e \<le> 254 \<and> CHR ''@'' \<in> set e) (an_email s)
     \<and> opt_ok (\<lambda>n. 1 \<le> length (trim n) \<and> length n \<le> 160) (an_displayName s)
     \<and> valid_scopes (an_scopes s)"

subsection \<open>Tokens\<close>

definition field :: "string \<Rightarrow> json option \<Rightarrow> payload" where
  "field key value = (case value of None \<Rightarrow> [] | Some v \<Rightarrow> [(key, v)])"

definition admin_payload :: "(js_date \<Rightarrow> string) \<Rightarrow> int \<Rightarrow> admin_subject \<Rightarrow> js_date \<Rightarrow> payload" where
  "admin_payload iso_text ttlSeconds s now =
     field ''adminId'' (an_adminId s) @ field ''tenantId'' (an_tenantId s)
     @ field ''email'' (map_option JString (an_email s))
     @ field ''displayName'' (map_option JString (an_displayName s)) @ field ''scopes'' (an_scopes s)
     @ [(''issuedAt'', JString (iso_text (seconds now * 1000))),
        (''expiresAt'', JString (iso_text ((seconds now + ttlSeconds) * 1000))),
        (''iss'', JString issuer), (''aud'', JString admin_audience)]
     @ field ''sub'' (an_adminId s)
     @ [(''iat'', JNumber (seconds now)), (''exp'', JNumber (seconds now + ttlSeconds))]"

definition admin_issued :: "(js_date \<Rightarrow> string) \<Rightarrow> int \<Rightarrow> admin_subject \<Rightarrow> js_date \<Rightarrow> admin_claims" where
  "admin_issued iso_text ttlSeconds s now =
     \<lparr>an_adminId = an_adminId s, an_tenantId = an_tenantId s, an_email = an_email s,
      an_displayName = an_displayName s, an_scopes = an_scopes s,
      ac_issuedAt = Some (JString (iso_text (seconds now * 1000))),
      ac_expiresAt = Some (JString (iso_text ((seconds now + ttlSeconds) * 1000)))\<rparr>"

definition admin_issue ::
  "jwt_sign \<Rightarrow> (js_date \<Rightarrow> string) \<Rightarrow> string list \<Rightarrow> int \<Rightarrow> admin_subject \<Rightarrow> js_date
    \<Rightarrow> (string \<times> admin_claims) option" where
  "admin_issue sign iso_text secrets ttlSeconds s now =
     (if isValidSubject s
      then Some (sign (hd secrets) (admin_payload iso_text ttlSeconds s now),
                 admin_issued iso_text ttlSeconds s now)
      else None)"

fun admin_ring :: "jwt_verify \<Rightarrow> string list \<Rightarrow> string \<Rightarrow> js_date \<Rightarrow> payload option" where
  "admin_ring jwt [] token t = None"
| "admin_ring jwt (key # keys) token t =
     (case jwt key admin_audience issuer token t of
        Some payload \<Rightarrow> Some payload
      | None \<Rightarrow> admin_ring jwt keys token t)"

definition text_value :: "json option \<Rightarrow> string option" where
  "text_value value = (case value of Some (JString s) \<Rightarrow> Some s | _ \<Rightarrow> None)"

definition string_field :: "payload \<Rightarrow> string \<Rightarrow> string option" where
  "string_field payload key = text_value (map_of payload key)"

definition read_claims :: "payload \<Rightarrow> admin_claims" where
  "read_claims payload =
     \<lparr>an_adminId = map_of payload ''adminId'', an_tenantId = map_of payload ''tenantId'',
      an_email = string_field payload ''email'', an_displayName = string_field payload ''displayName'',
      an_scopes = map_of payload ''scopes'', ac_issuedAt = map_of payload ''issuedAt'',
      ac_expiresAt = map_of payload ''expiresAt''\<rparr>"

definition dated :: "(string \<Rightarrow> js_date option) \<Rightarrow> json option \<Rightarrow> bool" where
  "dated date_parse value = (case value of Some (JString s) \<Rightarrow> date_parse s \<noteq> None | _ \<Rightarrow> False)"

definition admin_verify ::
  "jwt_verify \<Rightarrow> (string \<Rightarrow> js_date option) \<Rightarrow> string list \<Rightarrow> string \<Rightarrow> js_date \<Rightarrow> admin_claims option" where
  "admin_verify jwt date_parse secrets token t =
     (case admin_ring jwt secrets token t of
        None \<Rightarrow> None
      | Some payload \<Rightarrow>
          (let claims = read_claims payload
           in if isValidSubject claims \<and> dated date_parse (ac_issuedAt claims)
                 \<and> dated date_parse (ac_expiresAt claims)
              then Some claims else None))"

subsection \<open>Signing in and renewing\<close>

record sso_config =
  sso_tenantId :: ident
  sso_appId :: string
  sso_allowedAdminEmails :: "string list"
  sso_dashboardOrigin :: string

text \<open>What the code needs of the service around it: the secrets, the lifetime and the host.\<close>

record token_host =
  th_sign :: jwt_sign
  th_jwt :: jwt_verify
  th_iso_text :: "js_date \<Rightarrow> string"
  th_date_parse :: "string \<Rightarrow> js_date option"
  th_digest :: "string \<Rightarrow> string"
  th_secrets :: "string list"
  th_ttlSeconds :: int

definition json_field :: "json option \<Rightarrow> string \<Rightarrow> json option" where
  "json_field value key = (case value of Some (JObject fs) \<Rightarrow> map_of fs key | _ \<Rightarrow> None)"

definition api_user :: "json \<Rightarrow> json option" where
  "api_user payload =
     (case json_field (Some payload) ''apiUser'' of Some (JObject fs) \<Rightarrow> Some (JObject fs) | _ \<Rightarrow> None)"

fun nonblank :: "json option \<Rightarrow> string option" where
  "nonblank (Some (JString s)) = (if trim s = [] then None else Some (trim s))"
| "nonblank _ = None"

definition sso_email :: "json option \<Rightarrow> string option" where
  "sso_email user =
     (let emails = (case json_field user ''emails'' of Some (JArray es) \<Rightarrow> es | _ \<Rightarrow> []);
          fallback = (case json_field user ''email'' of
              None \<Rightarrow> json_field user ''primaryEmail''
            | Some JNull \<Rightarrow> json_field user ''primaryEmail''
            | Some v \<Rightarrow> Some v)
      in case List.map_filter nonblank (map Some emails @ [fallback]) of
           [] \<Rightarrow> None
         | email # _ \<Rightarrow> Some (map lower_char email))"

definition display_name :: "json option \<Rightarrow> string \<Rightarrow> string" where
  "display_name user email =
     (case (nonblank (json_field user ''firstName''), nonblank (json_field user ''lastName'')) of
        (Some a, Some b) \<Rightarrow> a @ '' '' @ b
      | (Some a, None) \<Rightarrow> a
      | (None, Some b) \<Rightarrow> b
      | (None, None) \<Rightarrow> email)"

datatype sso_failure = Access_denied | Authentication_failed

text \<open>\<open>answer\<close> is the body of a successful response, None when the request failed.\<close>

definition exchange ::
  "sso_config \<Rightarrow> token_host \<Rightarrow> json option \<Rightarrow> js_date \<Rightarrow> sso_failure + string" where
  "exchange cfg h answer now =
     (case answer of
        None \<Rightarrow> Inl Authentication_failed
      | Some payload \<Rightarrow>
          (case sso_email (api_user payload) of
             None \<Rightarrow> Inl Access_denied
           | Some email \<Rightarrow>
               if email \<notin> set (sso_allowedAdminEmails cfg) then Inl Access_denied
               else (case admin_issue (th_sign h) (th_iso_text h) (th_secrets h) (th_ttlSeconds h)
                       \<lparr>an_adminId = Some (JString (''sso-'' @ th_digest h email)),
                        an_tenantId = Some (JString (sso_tenantId cfg)), an_email = Some email,
                        an_displayName = Some (display_name (api_user payload) email),
                        an_scopes = Some (JArray (map JString admin_scope_names))\<rparr> now of
                   None \<Rightarrow> Inl Authentication_failed
                 | Some (token, _) \<Rightarrow> Inr token)))"

definition truthy_text :: "string option \<Rightarrow> string option" where
  "truthy_text value = (if value = Some [] then None else value)"

definition renewed_subject :: "admin_claims \<Rightarrow> admin_subject" where
  "renewed_subject claims =
     \<lparr>an_adminId = an_adminId claims, an_tenantId = an_tenantId claims,
      an_email = truthy_text (an_email claims), an_displayName = truthy_text (an_displayName claims),
      an_scopes = an_scopes claims\<rparr>"

definition renew :: "token_host \<Rightarrow> string \<Rightarrow> js_date \<Rightarrow> (string \<times> admin_claims) option" where
  "renew h token now =
     (case admin_verify (th_jwt h) (th_date_parse h) (th_secrets h) token now of
        None \<Rightarrow> None
      | Some claims \<Rightarrow>
          admin_issue (th_sign h) (th_iso_text h) (th_secrets h) (th_ttlSeconds h)
            (renewed_subject claims) now)"

subsection \<open>The cookie and the routes\<close>

definition ADMIN_SESSION_COOKIE :: string where
  "ADMIN_SESSION_COOKIE = ''formation_chat_core_admin_session''"

text \<open>\<open>text.split(separator)\<close> for one character\<close>

fun split_on :: "char \<Rightarrow> string \<Rightarrow> string list" where
  "split_on sep [] = [[]]"
| "split_on sep (c # cs) =
     (if c = sep then [] # split_on sep cs
      else (case split_on sep cs of [] \<Rightarrow> [[c]] | p # ps \<Rightarrow> (c # p) # ps))"

fun join_with :: "char \<Rightarrow> string list \<Rightarrow> string" where
  "join_with sep [] = []"
| "join_with sep [s] = s"
| "join_with sep (s # t # ss) = s @ sep # join_with sep (t # ss)"

fun cookie_in :: "string list \<Rightarrow> string \<Rightarrow> string option" where
  "cookie_in [] name = None"
| "cookie_in (part # parts) name =
     (case split_on (CHR ''='') (trim part) of
        key # rest \<Rightarrow> if key = name then Some (join_with (CHR ''='') rest) else cookie_in parts name
      | [] \<Rightarrow> cookie_in parts name)"

definition cookieValue :: "string option \<Rightarrow> string \<Rightarrow> string option" where
  "cookieValue cookie name =
     cookie_in (split_on (CHR '';'') (case cookie of None \<Rightarrow> [] | Some c \<Rightarrow> c)) name"

definition adminTokenFromRequest :: "string option \<Rightarrow> string option \<Rightarrow> string option" where
  "adminTokenFromRequest authorization cookie =
     (case authorization of
        Some header \<Rightarrow>
          if starts_with ''Bearer '' header then Some (drop 7 header)
          else cookieValue cookie ADMIN_SESSION_COOKIE
      | None \<Rightarrow> cookieValue cookie ADMIN_SESSION_COOKIE)"

definition sessionCookie :: "string \<Rightarrow> int \<Rightarrow> string" where
  "sessionCookie token ttlSeconds = ADMIN_SESSION_COOKIE @ ''='' @ token @ ''; Path=/; Max-Age=''
     @ show_int ttlSeconds @ ''; HttpOnly; Secure; SameSite=Lax''"

definition clearSessionCookie :: string where
  "clearSessionCookie = ADMIN_SESSION_COOKIE @ ''=; Path=/; Max-Age=0; HttpOnly; Secure; SameSite=Lax''"

text \<open>The failure is the status code of the \<open>AdminAuthorizationError\<close>.\<close>

definition authenticateAdmin ::
  "token_host \<Rightarrow> string option \<Rightarrow> string option \<Rightarrow> js_date \<Rightarrow> nat + (admin_claims \<times> audit_actor)" where
  "authenticateAdmin h authorization cookie now =
     (case truthy_text (adminTokenFromRequest authorization cookie) of
        None \<Rightarrow> Inl 401
      | Some token \<Rightarrow>
          (case admin_verify (th_jwt h) (th_date_parse h) (th_secrets h) token now of
             None \<Rightarrow> Inl 401
           | Some claims \<Rightarrow>
               (case an_scopes claims of
                  Some (JArray scopes) \<Rightarrow>
                    if list_ex (\<lambda>s. s \<in> JString ` set admin_scope_names) scopes
                    then Inr (claims, \<lparr>aa_kind = Actor_admin, aa_actorId = text_value (an_adminId claims),
                        aa_tenantId = text_value (an_tenantId claims), aa_siteId = None\<rparr>)
                    else Inl 403
                | _ \<Rightarrow> Inl 401)))"

text \<open>The callback of the sign-on: where it redirects to and the cookie it sets.\<close>

definition auth_callback ::
  "sso_config \<Rightarrow> token_host \<Rightarrow> string option \<Rightarrow> string option \<Rightarrow> json option \<Rightarrow> js_date
    \<Rightarrow> string \<times> string option" where
  "auth_callback cfg h appId loginToken answer now =
     (case loginToken of
        None \<Rightarrow> (''/dashboard?authError=authentication_failed'', None)
      | Some token \<Rightarrow>
          if appId \<noteq> Some (sso_appId cfg) \<or> length token < 8 \<or> 4096 < length token
          then (''/dashboard?authError=authentication_failed'', None)
          else (case exchange cfg h answer now of
              Inl Access_denied \<Rightarrow> (''/dashboard?authError=access_denied'', None)
            | Inl Authentication_failed \<Rightarrow> (''/dashboard?authError=authentication_failed'', None)
            | Inr session \<Rightarrow> (''/dashboard'', Some (sessionCookie session (th_ttlSeconds h)))))"

record session_view =
  sv_email :: string
  sv_displayName :: string
  sv_administrator :: bool
  sv_expiresAt :: "json option"

definition view_of :: "admin_claims \<Rightarrow> session_view" where
  "view_of c =
     \<lparr>sv_email = (case an_email c of None \<Rightarrow> [] | Some e \<Rightarrow> e),
      sv_displayName = (case (an_displayName c, an_email c) of
         (Some n, _) \<Rightarrow> n | (None, Some e) \<Rightarrow> e | (None, None) \<Rightarrow> ''Dashboard admin''),
      sv_administrator = (case an_scopes c of
         Some (JArray ss) \<Rightarrow> JString ''admin:internal'' \<in> set ss | _ \<Rightarrow> False),
      sv_expiresAt = ac_expiresAt c\<rparr>"

text \<open>The renewal of the session: the status, the cookie it sets and the body.\<close>

definition auth_session ::
  "token_host \<Rightarrow> string option \<Rightarrow> js_date \<Rightarrow> nat \<times> string option \<times> session_view option" where
  "auth_session h cookie now =
     (case truthy_text (cookieValue cookie ADMIN_SESSION_COOKIE) of
        None \<Rightarrow> (401, None, None)
      | Some token \<Rightarrow>
          (case renew h token now of
             None \<Rightarrow> (401, Some clearSessionCookie, None)
           | Some (renewed, claims) \<Rightarrow>
               (200, Some (sessionCookie renewed (th_ttlSeconds h)), Some (view_of claims))))"

definition auth_logout :: "sso_config \<Rightarrow> string option \<Rightarrow> nat \<times> string option" where
  "auth_logout cfg origin =
     (case truthy_text origin of
        Some from_origin \<Rightarrow>
          if from_origin \<noteq> sso_dashboardOrigin cfg then (403, None) else (204, Some clearSessionCookie)
      | None \<Rightarrow> (204, Some clearSessionCookie))"

subsection \<open>Round trip\<close>

text \<open>A subject with names of its own: what the single sign-on issues.\<close>

definition named :: "'a admin_subject_scheme \<Rightarrow> bool" where
  "named s \<longleftrightarrow> (\<exists>a t. an_adminId s = Some (JString a) \<and> an_tenantId s = Some (JString t))"

lemma map_of_field [simp]: "map_of (field k v) k' = (if k' = k then v else None)"
  by (simp add: field_def split: option.split)

lemma map_add_field [simp]: "(f ++ map_of (field k v)) k' = (case v of Some x \<Rightarrow> if k' = k then Some x else f k' | None \<Rightarrow> f k')"
  by (simp add: map_add_def split: option.split)

lemma admin_payload_fields:
  "map_of (admin_payload iso_text ttl s now) ''aud'' = Some (JString admin_audience)"
  "map_of (admin_payload iso_text ttl s now) ''iss'' = Some (JString issuer)"
  "map_of (admin_payload iso_text ttl s now) ''exp'' = Some (JNumber (seconds now + ttl))"
  by (simp_all add: admin_payload_def map_add_def split: option.split)

lemma valid_scopes_plain: "valid_scopes scopes \<Longrightarrow> opt_ok no_fraction scopes"
  by (cases scopes) (auto simp: valid_scopes_def list_all_iff split: json.splits)

lemma admin_payload_plain:
  assumes "isValidSubject s" and "named s"
  shows "no_fraction (JObject (admin_payload iso_text ttl s now))"
  using assms valid_scopes_plain [of "an_scopes s"]
  by (cases "an_scopes s")
    (auto simp: admin_payload_def field_def named_def isValidSubject_def list_all_iff split: option.splits)

lemma read_claims_payload: "read_claims (admin_payload iso_text ttl s now) = admin_issued iso_text ttl s now"
  by (cases "an_email s"; cases "an_displayName s")
    (simp_all add: read_claims_def admin_issued_def admin_payload_def string_field_def text_value_def
      map_add_def split: option.split)

lemma valid_issued [simp]: "isValidSubject (admin_issued iso_text ttl s now) = isValidSubject s"
  by (simp add: isValidSubject_def admin_issued_def)

lemma admin_ring_signed:
  assumes "jwt_laws sign jwt" and "isValidSubject s" and "named s"
  shows "admin_ring jwt ring (sign key (admin_payload iso_text ttl s now)) t =
     (if key \<in> set ring \<and> seconds t < seconds now + ttl then Some (admin_payload iso_text ttl s now) else None)"
proof (induction ring)
  case (Cons k ring)
  then show ?case
    using jwt_signed [OF assms(1) admin_payload_plain [OF assms(2,3)], of k admin_audience issuer]
    by (auto simp: admin_payload_fields)
qed simp

lemma admin_verify_signed:
  assumes "jwt_laws sign jwt" and "isValidSubject s" and "named s" and "\<And>t. date_parse (iso_text t) \<noteq> None"
  shows "admin_verify jwt date_parse ring (sign key (admin_payload iso_text ttl s now)) t =
     (if key \<in> set ring \<and> seconds t < seconds now + ttl then Some (admin_issued iso_text ttl s now) else None)"
  using assms(2,4)
  by (simp add: admin_verify_def admin_ring_signed [OF assms(1-3)] read_claims_payload Let_def dated_def)
    (simp add: admin_issued_def)

lemma ring_verify_other_audience:
  assumes "jwt_laws sign jwt" and "no_fraction (JObject p)" and "map_of p ''aud'' = Some (JString aud)"
  shows "aud \<noteq> audience \<Longrightarrow> ring_verify jwt ring (sign key p) t = None"
    "aud \<noteq> admin_audience \<Longrightarrow> admin_ring jwt ring (sign key p) t = None"
  by (induction ring) (simp_all add: jwt_signed [OF assms(1,2)] assms(3))

text \<open>
  An operator's token is good for what it was issued for, and for nothing else: the dashboard
  accepts it exactly while its secret is in the ring and its time has not run out, and reads the issued
  claims back. Even with shared secrets a browser's session accepts no operator's token, and the
  dashboard no browser's.
\<close>

theorem admin_token_roundtrip:
  assumes "jwt_laws sign jwt" and "isValidSubject s" and "named s" and "\<forall>t. date_parse (iso_text t) \<noteq> None"
  shows "\<exists>token. admin_issue sign iso_text secrets ttl s now = Some (token, admin_issued iso_text ttl s now)
     \<and> (\<forall>ring t. admin_verify jwt date_parse ring token t =
          (if hd secrets \<in> set ring \<and> seconds t < seconds now + ttl
           then Some (admin_issued iso_text ttl s now) else None))
     \<and> (\<forall>ring expected t. verify_token jwt ring token expected t = None)
     \<and> (\<forall>ring t. admin_verify jwt date_parse ring (fst (issue sign iso_text secrets ttl subject now)) t = None)"
proof -
  let ?token = "sign (hd secrets) (admin_payload iso_text ttl s now)"
  have "admin_audience \<noteq> audience" by (simp add: admin_audience_def audience_def)
  then have "verify_token jwt ring ?token expected t = None" for ring expected t
    using ring_verify_other_audience(1) [OF assms(1) admin_payload_plain [OF assms(2,3)] admin_payload_fields(1)]
    by (simp add: verify_token_def)
  moreover have "admin_verify jwt date_parse ring (fst (issue sign iso_text secrets ttl subject now)) t = None"
    for ring t
    using ring_verify_other_audience(2) [OF assms(1) issue_payload_fields(1,2)] \<open>admin_audience \<noteq> audience\<close>
    by (simp add: admin_verify_def issue_def)
  ultimately show ?thesis
    using assms(2,4) admin_verify_signed [OF assms(1-3), of date_parse iso_text] by (simp add: admin_issue_def)
qed

subsection \<open>Renewal\<close>

definition host_ok :: "token_host \<Rightarrow> bool" where
  "host_ok h \<longleftrightarrow> jwt_laws (th_sign h) (th_jwt h) \<and> (\<forall>t. th_date_parse h (th_iso_text h t) \<noteq> None)
     \<and> admin_token_ok (th_secrets h) (th_ttlSeconds h)"

text \<open>A browser that keeps asking for its session at the times \<open>ts\<close>, with the token it was last given.\<close>

fun keep_renewing :: "token_host \<Rightarrow> string \<Rightarrow> js_date list \<Rightarrow> string option" where
  "keep_renewing h token [] = Some token"
| "keep_renewing h token (t # ts) =
     (case renew h token t of None \<Rightarrow> None | Some (token', _) \<Rightarrow> keep_renewing h token' ts)"

text \<open>Times in which no gap is as long as the tokens live.\<close>

fun in_time :: "int \<Rightarrow> js_date \<Rightarrow> js_date list \<Rightarrow> bool" where
  "in_time ttl now [] \<longleftrightarrow> True"
| "in_time ttl now (t # ts) \<longleftrightarrow> seconds t < seconds now + ttl \<and> in_time ttl t ts"

definition renewable :: "admin_subject \<Rightarrow> bool" where
  "renewable s \<longleftrightarrow> isValidSubject s \<and> named s \<and> an_email s \<noteq> Some [] \<and> an_displayName s \<noteq> Some []"

lemma renew_signed:
  assumes "host_ok h" and "renewable s" and "seconds t < seconds now + th_ttlSeconds h"
  shows "renew h (th_sign h (hd (th_secrets h)) (admin_payload (th_iso_text h) (th_ttlSeconds h) s now)) t
     = Some (th_sign h (hd (th_secrets h)) (admin_payload (th_iso_text h) (th_ttlSeconds h) s t),
         admin_issued (th_iso_text h) (th_ttlSeconds h) s t)"
proof -
  have "hd (th_secrets h) \<in> set (th_secrets h)"
    using assms(1) by (simp add: host_ok_def admin_token_ok_def token_secrets_ok_def)
  then have "admin_verify (th_jwt h) (th_date_parse h) (th_secrets h)
      (th_sign h (hd (th_secrets h)) (admin_payload (th_iso_text h) (th_ttlSeconds h) s now)) t
    = Some (admin_issued (th_iso_text h) (th_ttlSeconds h) s now)"
    using assms admin_verify_signed [of "th_sign h" "th_jwt h" s "th_date_parse h" "th_iso_text h"]
    by (simp add: host_ok_def renewable_def)
  moreover have "renewed_subject (admin_issued (th_iso_text h) (th_ttlSeconds h) s now) = s"
    using assms(2) by (cases s) (simp add: renewed_subject_def admin_issued_def renewable_def truthy_text_def)
  ultimately show ?thesis using assms(2) by (simp add: renew_def admin_issue_def renewable_def)
qed

lemma keep_renewing_signed:
  assumes "host_ok h" and "renewable s" and "in_time (th_ttlSeconds h) now ts"
  shows "keep_renewing h (th_sign h (hd (th_secrets h)) (admin_payload (th_iso_text h) (th_ttlSeconds h) s now)) ts
     = Some (th_sign h (hd (th_secrets h)) (admin_payload (th_iso_text h) (th_ttlSeconds h) s (last (now # ts))))"
  using assms(3) by (induction ts arbitrary: now) (simp_all add: renew_signed [OF assms(1,2)])

text \<open>
  A session once granted renews itself for ever: the configuration's allowed addresses are only
  read when an operator signs in. After an address has been taken off the list its owner can sign in
  no more, but a browser that asks for its session in time keeps getting valid tokens of full scope.
\<close>

theorem renewal_ignores_allow_list:
  assumes "host_ok h" and "sso_email (api_user answer) = Some email"
    and "exchange granted h (Some answer) now = Inr token"
    and "email \<notin> set (sso_allowedAdminEmails revoked)" and "in_time (th_ttlSeconds h) now ts"
  shows "exchange revoked h (Some answer) later = Inl Access_denied
     \<and> (\<exists>token' claims. keep_renewing h token ts = Some token'
       \<and> admin_verify (th_jwt h) (th_date_parse h) (th_secrets h) token' (last (now # ts)) = Some claims
       \<and> an_email claims = Some email
       \<and> an_scopes claims = Some (JArray (map JString admin_scope_names)))"
proof -
  let ?s = "\<lparr>an_adminId = Some (JString (''sso-'' @ th_digest h email)),
      an_tenantId = Some (JString (sso_tenantId granted)), an_email = Some email,
      an_displayName = Some (display_name (api_user answer) email),
      an_scopes = Some (JArray (map JString admin_scope_names))\<rparr>"
  have issued: "isValidSubject ?s"
    "token = th_sign h (hd (th_secrets h)) (admin_payload (th_iso_text h) (th_ttlSeconds h) ?s now)"
    using assms(2,3) by (auto simp: exchange_def admin_issue_def split: if_splits option.splits)
  have "renewable ?s"
    using issued(1) by (auto simp: renewable_def named_def isValidSubject_def trim_def)
  moreover have "hd (th_secrets h) \<in> set (th_secrets h)" "0 < th_ttlSeconds h"
    using assms(1) by (simp_all add: host_ok_def admin_token_ok_def token_secrets_ok_def)
  ultimately have "admin_verify (th_jwt h) (th_date_parse h) (th_secrets h)
      (th_sign h (hd (th_secrets h)) (admin_payload (th_iso_text h) (th_ttlSeconds h) ?s (last (now # ts))))
      (last (now # ts)) = Some (admin_issued (th_iso_text h) (th_ttlSeconds h) ?s (last (now # ts)))"
    using assms(1) admin_verify_signed [of "th_sign h" "th_jwt h" ?s "th_date_parse h" "th_iso_text h"]
    by (simp add: host_ok_def renewable_def)
  moreover have "exchange revoked h (Some answer) later = Inl Access_denied"
    using assms(2,4) by (simp add: exchange_def)
  ultimately show ?thesis
    using keep_renewing_signed [OF assms(1) \<open>renewable ?s\<close> assms(5)] issued(2)
    by (auto simp: admin_issued_def)
qed

subsection \<open>The cookie\<close>

lemma split_on_nonempty [simp]: "split_on sep s \<noteq> []"
  by (cases s) (auto split: list.split)

lemma join_split: "join_with sep (split_on sep s) = s"
proof (induction s)
  case (Cons c s)
  obtain p ps where "split_on sep s = p # ps" by (cases "split_on sep s") auto
  then show ?case using Cons by (cases ps) auto
qed simp

lemma split_on_free: "sep \<notin> set s \<Longrightarrow> split_on sep s = [s]"
  by (induction s) auto

lemma split_on_first: "sep \<notin> set key \<Longrightarrow> split_on sep (key @ sep # rest) = key # split_on sep rest"
  by (induction key) (auto split: list.split)

text \<open>The server reads back the token of the cookie it set.\<close>

lemma cookie_roundtrip:
  assumes "CHR '';'' \<notin> set token" and "token \<noteq> []" and "\<not> js_space (last token)"
  shows "adminTokenFromRequest None (Some (ADMIN_SESSION_COOKIE @ CHR ''='' # token)) = Some token"
proof -
  let ?c = "ADMIN_SESSION_COOKIE @ CHR ''='' # token"
  have name: "CHR '';'' \<notin> set ADMIN_SESSION_COOKIE" "CHR ''='' \<notin> set ADMIN_SESSION_COOKIE"
    "ADMIN_SESSION_COOKIE \<noteq> []" "hd ADMIN_SESSION_COOKIE = CHR ''f''"
    by (simp_all add: ADMIN_SESSION_COOKIE_def)
  have "trim ?c = ?c"
    using assms(2,3) name by (intro trim_unspaced) (simp_all add: js_space_def code_unit_def)
  moreover have "split_on (CHR '';'') ?c = [?c]" using assms(1) name(1) by (intro split_on_free) simp
  ultimately show ?thesis
    by (simp add: adminTokenFromRequest_def cookieValue_def split_on_first [OF name(2)] join_split)
qed

subsection \<open>Witnesses\<close>

definition sample_host :: token_host where
  "sample_host = \<lparr>th_sign = sample_sign, th_jwt = sample_jwt, th_iso_text = show_int, th_date_parse = read_int,
     th_digest = (\<lambda>_. ''digest''), th_secrets = [replicate 32 (CHR ''k'')], th_ttlSeconds = 3600\<rparr>"

definition sample_sso :: "string list \<Rightarrow> sso_config" where
  "sample_sso allowed = \<lparr>sso_tenantId = ''t1'', sso_appId = ''app'', sso_allowedAdminEmails = allowed,
     sso_dashboardOrigin = ''https://a''\<rparr>"

definition sample_user :: json where
  "sample_user = JObject [(''apiUser'', JObject [(''emails'', JArray [JString '' a@b.c ''])])]"

definition sample_operator :: admin_subject where
  "sample_operator = \<lparr>an_adminId = Some (JString ''sso-digest''), an_tenantId = Some (JString ''t1''),
     an_email = Some ''a@b.c'', an_displayName = Some ''a@b.c'',
     an_scopes = Some (JArray (map JString admin_scope_names))\<rparr>"

lemmas id_defs = opaque_id_def is_alnum_def is_upper_def is_lower_def is_digit_def code_unit_def
  opaque_tail_char_def

lemma sample_operator_valid: "isValidSubject sample_operator" "named sample_operator"
  by (simp_all add: isValidSubject_def named_def sample_operator_def tested_def id_defs valid_scopes_def
      admin_scope_names_def trim_def js_space_def)

lemma sample_email: "sso_email (api_user sample_user) = Some ''a@b.c''"
  by (simp add: sso_email_def api_user_def sample_user_def json_field_def trim_def js_space_def code_unit_def
      lower_char_def List.map_filter_def)

lemma sample_host_ok: "host_ok sample_host"
proof -
  have "32 \<le> length (utf8_encode (replicate 32 (CHR ''k'')))" by code_simp
  then show ?thesis
    using sample_jwt_laws by (simp add: host_ok_def sample_host_def admin_token_ok_def token_secrets_ok_def)
qed

lemma admin_token_roundtrip_witness:
  "\<exists>token. admin_verify sample_jwt read_int [''new'', ''old''] token 64999
     = Some (admin_issued show_int 60 sample_operator 5000)
   \<and> verify_token sample_jwt [''old''] token None 64999 = None"
proof -
  obtain token where "\<forall>ring t. admin_verify sample_jwt read_int ring token t =
      (if hd [''old''] \<in> set ring \<and> seconds t < seconds 5000 + 60
       then Some (admin_issued show_int 60 sample_operator 5000) else None)"
    "\<forall>ring expected t. verify_token sample_jwt ring token expected t = None"
    using admin_token_roundtrip [OF sample_jwt_laws sample_operator_valid, of read_int show_int "[''old'']" 60 5000
        sample_subject] by auto
  then show ?thesis by (intro exI [of _ token]) (simp add: seconds_def)
qed

lemma renewal_ignores_allow_list_witness:
  "\<exists>token token' claims. exchange (sample_sso [''a@b.c'']) sample_host (Some sample_user) 0 = Inr token
     \<and> exchange (sample_sso []) sample_host (Some sample_user) 3000000 = Inl Access_denied
     \<and> keep_renewing sample_host token [3000000, 6000000] = Some token'
     \<and> admin_verify sample_jwt read_int (th_secrets sample_host) token' 6000000 = Some claims"
proof -
  have "display_name (api_user sample_user) ''a@b.c'' = ''a@b.c''"
    by (simp add: display_name_def api_user_def sample_user_def json_field_def)
  then obtain token where token: "exchange (sample_sso [''a@b.c'']) sample_host (Some sample_user) 0 = Inr token"
    using sample_operator_valid(1)
    by (simp add: exchange_def sample_email sample_sso_def sample_host_def admin_issue_def sample_operator_def)
  then show ?thesis
    using renewal_ignores_allow_list [OF sample_host_ok sample_email token, of "sample_sso []" "[3000000, 6000000]" 3000000]
    by (auto simp: sample_sso_def sample_host_def seconds_def)
qed

end
