(* ===== verification/Config.thy ===== *)
theory Config
  imports HaystackConnector AdminAuth EventStore Worker
begin

text \<open>
  \<open>apps/server/src/config.ts\<close>: the server's configuration out of the environment. Every key that is
  wrong is reported, in the order of the checks; a configuration without a wrong key is accepted by
  the constructors of the components it is for.

  The environment is a partial map. A number that is not one (\<open>NaN\<close>) is None. \<open>url_of\<close> is the host's
  URL parser, \<open>url_join\<close> is \<open>new URL(path, base).toString()\<close>.
\<close>

type_synonym environment = "string \<Rightarrow> string option"

datatype log_level = Log_fatal | Log_error | Log_warn | Log_info | Log_debug | Log_trace | Log_silent

datatype connector_mode = Mode_disabled | Mode_mock | Mode_haystack

record admin_sso =
  sso_identity :: sso_config
  sso_baseUrl :: string
  sso_uiUrl :: string
  sso_callbackUrl :: string
  sso_dashboardUrl :: string

record admin_settings =
  am_tokenSecret :: string
  am_previousTokenSecrets :: "string list"
  am_tokenTtlSeconds :: int
  am_sso :: "admin_sso option"

record server_config =
  cf_databaseUrl :: string
  cf_host :: string
  cf_port :: int
  cf_logLevel :: log_level
  cf_databasePoolMax :: int
  cf_sessionTokenSecret :: string
  cf_sessionTokenPreviousSecrets :: "string list"
  cf_sessionTokenTtlSeconds :: int
  cf_admin :: "admin_settings option"
  cf_eventRetentionMaxEvents :: int
  cf_eventSubscriberBufferSize :: int
  cf_connectorMode :: connector_mode
  cf_haystackConnectors :: "(ident \<times> haystack_config) list"
  cf_runWorkerPollIntervalMs :: int
  cf_runLeaseMs :: int
  cf_runMaxAttempts :: int
  cf_bodyLimitBytes :: int
  cf_requestTimeoutMs :: int
  cf_trustProxy :: bool
  cf_rateLimitWindowMs :: int
  cf_publicRateLimitMax :: int
  cf_bootstrapRateLimitMax :: int
  cf_adminRateLimitMax :: int
  cf_anonymousRetentionDays :: int
  cf_authenticatedRetentionDays :: int
  cf_contactValueRetentionHours :: int
  cf_retentionSweepIntervalMs :: int
  cf_metricsBearerToken :: "string option"

subsection \<open>Reading one value\<close>

definition parseInteger :: "string option \<Rightarrow> int \<Rightarrow> int option" where
  "parseInteger value fallback =
     (case value of
        None \<Rightarrow> Some fallback
      | Some s \<Rightarrow> if s \<noteq> [] \<and> list_all is_digit s then Some (int (read_nat s)) else None)"

definition logLevel_of :: "string \<Rightarrow> log_level option" where
  "logLevel_of s = map_of [(''fatal'', Log_fatal), (''error'', Log_error), (''warn'', Log_warn),
     (''info'', Log_info), (''debug'', Log_debug), (''trace'', Log_trace), (''silent'', Log_silent)] s"

definition connectorMode_of :: "string \<Rightarrow> connector_mode option" where
  "connectorMode_of s =
     map_of [(''disabled'', Mode_disabled), (''mock'', Mode_mock), (''haystack'', Mode_haystack)] s"

definition isDatabaseUrl :: "(string \<Rightarrow> url option) \<Rightarrow> string option \<Rightarrow> bool" where
  "isDatabaseUrl url_of value =
     (case truthy value of
        None \<Rightarrow> False
      | Some s \<Rightarrow> (case url_of s of
            None \<Rightarrow> False
          | Some url \<Rightarrow> u_protocol url = ''postgres:'' \<or> u_protocol url = ''postgresql:''))"

fun json_strings :: "json list \<Rightarrow> string list option" where
  "json_strings [] = Some []"
| "json_strings (JString s # vs) = map_option (Cons s) (json_strings vs)"
| "json_strings (_ # vs) = None"

definition secret_ok :: "string \<Rightarrow> bool" where
  "secret_ok secret \<longleftrightarrow> 32 \<le> length (utf8_encode secret)"

definition parsePreviousSecrets :: "string option \<Rightarrow> string list option" where
  "parsePreviousSecrets value =
     (case value of
        None \<Rightarrow> Some []
      | Some text \<Rightarrow>
          (case json_parse text of
             Some (JArray vs) \<Rightarrow>
               (case json_strings vs of
                  Some secrets \<Rightarrow>
                    if length secrets \<le> 2 \<and> list_all secret_ok secrets \<and> distinct secrets
                    then Some secrets else None
                | None \<Rightarrow> None)
           | _ \<Rightarrow> None))"

definition parseHttpsUrl :: "(string \<Rightarrow> url option) \<Rightarrow> string option \<Rightarrow> string option" where
  "parseHttpsUrl url_of value =
     (case truthy value of
        None \<Rightarrow> None
      | Some s \<Rightarrow> (case url_of s of
            None \<Rightarrow> None
          | Some url \<Rightarrow>
              if u_protocol url = ''https:'' \<and> u_username url = [] \<and> u_password url = []
              then Some (u_href url) else None))"

definition parseEmails :: "string option \<Rightarrow> string list" where
  "parseEmails value =
     distinct_first (filter (\<lambda>e. e \<noteq> [])
       (map (\<lambda>e. map lower_char (trim e)) (split_on (CHR '','') (case value of None \<Rightarrow> [] | Some s \<Rightarrow> s))))"

text \<open>\<open>text.replace(/\/$/, '')\<close>\<close>

definition without_slash :: "string \<Rightarrow> string" where
  "without_slash s = (if s \<noteq> [] \<and> last s = CHR ''/'' then butlast s else s)"

text \<open>The shape the schema of the connector map demands; the widths are checked by the parser.\<close>

fun optional_text :: "json option \<Rightarrow> string option option" where
  "optional_text None = Some None"
| "optional_text (Some (JString s)) = Some (Some s)"
| "optional_text (Some _) = None"

fun optional_integer :: "json option \<Rightarrow> int option option" where
  "optional_integer None = Some None"
| "optional_integer (Some (JNumber n)) = Some (Some n)"
| "optional_integer (Some _) = None"

definition connector_keys :: "string list" where
  "connector_keys = [''baseUrl'', ''tenantKey'', ''agentSlug'', ''connectorToken'', ''responseMode'', ''timeoutMs'']"

definition connector_of_json :: "json \<Rightarrow> haystack_config option" where
  "connector_of_json value =
     (case value of
        JObject fs \<Rightarrow>
          if \<not> list_all (\<lambda>f. fst f \<in> set connector_keys) fs then None
          else (case (map_of fs ''baseUrl'', map_of fs ''tenantKey'', map_of fs ''agentSlug'',
                      optional_text (map_of fs ''connectorToken''), optional_text (map_of fs ''responseMode''),
                      optional_integer (map_of fs ''timeoutMs'')) of
              (Some (JString baseUrl), Some (JString tenantKey), Some (JString agentSlug),
               Some connectorToken, Some responseMode, Some timeoutMs) \<Rightarrow>
                Some \<lparr>hc_baseUrl = baseUrl, hc_tenantKey = tenantKey, hc_agentSlug = agentSlug,
                  hc_connectorToken = connectorToken, hc_responseMode = responseMode, hc_timeoutMs = timeoutMs\<rparr>
            | _ \<Rightarrow> None)
      | _ \<Rightarrow> None)"

definition read_connectors ::
  "(string \<Rightarrow> url option) \<Rightarrow> string option \<Rightarrow> (ident \<times> haystack_config) list option" where
  "read_connectors url_of value =
     (case json_parse (case value of None \<Rightarrow> [] | Some s \<Rightarrow> s) of
        Some (JObject fs) \<Rightarrow>
          (case those (map (\<lambda>(k, v). map_option (Pair k) (connector_of_json v)) fs) of
             None \<Rightarrow> None
           | Some cs \<Rightarrow> parseHaystackConnectorMap url_of cs)
      | _ \<Rightarrow> None)"

subsection \<open>The checks\<close>

definition check :: "string \<Rightarrow> bool \<Rightarrow> string list" where
  "check key bad = (if bad then [key] else [])"

definition outside :: "int \<Rightarrow> int \<Rightarrow> int option \<Rightarrow> bool" where
  "outside low high value = (case value of None \<Rightarrow> True | Some n \<Rightarrow> n < low \<or> high < n)"

text \<open>A key with its default and its bounds.\<close>

definition number_of :: "environment \<Rightarrow> string \<Rightarrow> int \<Rightarrow> int option" where
  "number_of env key fallback = parseInteger (env key) fallback"

definition check_number :: "environment \<Rightarrow> string \<Rightarrow> int \<Rightarrow> int \<Rightarrow> int \<Rightarrow> string list" where
  "check_number env key fallback low high = check key (outside low high (number_of env key fallback))"

definition secret_missing :: "string option \<Rightarrow> bool" where
  "secret_missing value = (case truthy value of None \<Rightarrow> True | Some s \<Rightarrow> \<not> secret_ok s)"

definition previous_wrong :: "string list option \<Rightarrow> string option \<Rightarrow> bool" where
  "previous_wrong previous secret = (case previous of
      None \<Rightarrow> True
    | Some secrets \<Rightarrow> (case secret of None \<Rightarrow> [] | Some s \<Rightarrow> s) \<in> set secrets)"

definition adminConfigured :: "environment \<Rightarrow> bool" where
  "adminConfigured env \<longleftrightarrow> env ''ADMIN_TOKEN_SECRET'' \<noteq> None \<or> env ''ADMIN_TOKEN_TTL_SECONDS'' \<noteq> None
     \<or> env ''ADMIN_TOKEN_PREVIOUS_SECRETS'' \<noteq> None"

definition adminSsoConfigured :: "environment \<Rightarrow> bool" where
  "adminSsoConfigured env \<longleftrightarrow> list_ex (\<lambda>key. env key \<noteq> None)
     [''ADMIN_TENANT_ID'', ''ADMIN_SSO_BASE_URL'', ''ADMIN_SSO_UI_URL'', ''ADMIN_SSO_APP_ID'',
      ''ADMIN_PUBLIC_BASE_URL'', ''ADMIN_ALLOWED_EMAILS'']"

definition not_opaque :: "string option \<Rightarrow> bool" where
  "not_opaque value = (case truthy value of None \<Rightarrow> True | Some s \<Rightarrow> \<not> opaque_id s)"

definition check_sso :: "(string \<Rightarrow> url option) \<Rightarrow> environment \<Rightarrow> string list" where
  "check_sso url_of env =
     (if \<not> adminSsoConfigured env then []
      else check ''ADMIN_TOKEN_SECRET'' (\<not> adminConfigured env)
        @ check ''ADMIN_TENANT_ID'' (not_opaque (env ''ADMIN_TENANT_ID''))
        @ check ''ADMIN_SSO_BASE_URL'' (parseHttpsUrl url_of (env ''ADMIN_SSO_BASE_URL'') = None)
        @ check ''ADMIN_SSO_UI_URL'' (parseHttpsUrl url_of (env ''ADMIN_SSO_UI_URL'') = None)
        @ check ''ADMIN_SSO_APP_ID'' (not_opaque (env ''ADMIN_SSO_APP_ID''))
        @ check ''ADMIN_PUBLIC_BASE_URL'' (parseHttpsUrl url_of (env ''ADMIN_PUBLIC_BASE_URL'') = None)
        @ check ''ADMIN_ALLOWED_EMAILS'' (parseEmails (env ''ADMIN_ALLOWED_EMAILS'') = []
            \<or> list_ex (\<lambda>e. CHR ''@'' \<notin> set e \<or> 254 < length e) (parseEmails (env ''ADMIN_ALLOWED_EMAILS''))))"

definition check_admin :: "environment \<Rightarrow> string list" where
  "check_admin env =
     (if \<not> adminConfigured env then []
      else check ''ADMIN_TOKEN_SECRET'' (secret_missing (env ''ADMIN_TOKEN_SECRET''))
        @ check ''ADMIN_TOKEN_PREVIOUS_SECRETS''
            (previous_wrong (parsePreviousSecrets (env ''ADMIN_TOKEN_PREVIOUS_SECRETS'')) (env ''ADMIN_TOKEN_SECRET''))
        @ check_number env ''ADMIN_TOKEN_TTL_SECONDS'' 28800 60 86400)"

definition mode_text :: "environment \<Rightarrow> string" where
  "mode_text env = (case env ''CONNECTOR_MODE'' of None \<Rightarrow> ''disabled'' | Some m \<Rightarrow> m)"

definition level_text :: "environment \<Rightarrow> string" where
  "level_text env = (case env ''LOG_LEVEL'' of None \<Rightarrow> ''info'' | Some l \<Rightarrow> l)"

definition invalid_keys :: "(string \<Rightarrow> url option) \<Rightarrow> environment \<Rightarrow> string list" where
  "invalid_keys url_of env =
     check ''DATABASE_URL'' (\<not> isDatabaseUrl url_of (env ''DATABASE_URL''))
     @ check_number env ''PORT'' 3000 1 65535
     @ check ''LOG_LEVEL'' (logLevel_of (level_text env) = None)
     @ check_number env ''DB_POOL_MAX'' 10 1 100
     @ check ''SESSION_TOKEN_SECRET'' (secret_missing (env ''SESSION_TOKEN_SECRET''))
     @ check ''SESSION_TOKEN_PREVIOUS_SECRETS''
         (previous_wrong (parsePreviousSecrets (env ''SESSION_TOKEN_PREVIOUS_SECRETS'')) (env ''SESSION_TOKEN_SECRET''))
     @ check_number env ''SESSION_TOKEN_TTL_SECONDS'' 900 60 3600
     @ check_admin env @ check_sso url_of env
     @ check_number env ''EVENT_RETENTION_MAX_EVENTS'' 1000 1 1000000
     @ check_number env ''EVENT_SUBSCRIBER_BUFFER_SIZE'' 100 1 10000
     @ check ''CONNECTOR_MODE'' (connectorMode_of (mode_text env) = None)
     @ check ''HAYSTACK_CONNECTORS'' (mode_text env = ''haystack''
         \<and> read_connectors url_of (env ''HAYSTACK_CONNECTORS'') = None)
     @ check_number env ''RUN_WORKER_POLL_INTERVAL_MS'' 250 10 60000
     @ check_number env ''RUN_LEASE_MS'' 30000 1000 3600000
     @ check_number env ''RUN_MAX_ATTEMPTS'' 3 1 20
     @ check_number env ''HTTP_BODY_LIMIT_BYTES'' 262144 1024 1048576
     @ check_number env ''REQUEST_TIMEOUT_MS'' 120000 1000 300000
     @ check ''TRUST_PROXY'' (env ''TRUST_PROXY'' \<noteq> None \<and> env ''TRUST_PROXY'' \<noteq> Some ''true''
         \<and> env ''TRUST_PROXY'' \<noteq> Some ''false'')
     @ check_number env ''RATE_LIMIT_WINDOW_MS'' 60000 1000 3600000
     @ check_number env ''PUBLIC_RATE_LIMIT_MAX'' 120 1 100000
     @ check_number env ''BOOTSTRAP_RATE_LIMIT_MAX'' 30 1 100000
     @ check_number env ''ADMIN_RATE_LIMIT_MAX'' 600 1 100000
     @ check_number env ''ANONYMOUS_RETENTION_DAYS'' 30 1 3650
     @ check_number env ''AUTHENTICATED_RETENTION_DAYS'' 365 1 3650
     @ check_number env ''CONTACT_VALUE_RETENTION_HOURS'' 24 1 8760
     @ check_number env ''RETENTION_SWEEP_INTERVAL_MS'' 3600000 60000 86400000
     @ check ''METRICS_BEARER_TOKEN'' (case env ''METRICS_BEARER_TOKEN'' of
         None \<Rightarrow> False | Some token \<Rightarrow> \<not> secret_ok token)"

subsection \<open>The configuration\<close>

definition sso_settings ::
  "(string \<Rightarrow> url option) \<Rightarrow> (string \<Rightarrow> string \<Rightarrow> string) \<Rightarrow> environment \<Rightarrow> admin_sso" where
  "sso_settings url_of url_join env =
     (let base = the (parseHttpsUrl url_of (env ''ADMIN_PUBLIC_BASE_URL''));
          dashboard = url_join ''/dashboard'' base
      in \<lparr>sso_identity = \<lparr>sso_tenantId = the (env ''ADMIN_TENANT_ID''), sso_appId = the (env ''ADMIN_SSO_APP_ID''),
            sso_allowedAdminEmails = parseEmails (env ''ADMIN_ALLOWED_EMAILS''),
            sso_dashboardOrigin = (case url_of dashboard of None \<Rightarrow> [] | Some url \<Rightarrow> u_origin url)\<rparr>,
          sso_baseUrl = without_slash (the (parseHttpsUrl url_of (env ''ADMIN_SSO_BASE_URL''))),
          sso_uiUrl = the (parseHttpsUrl url_of (env ''ADMIN_SSO_UI_URL'')),
          sso_callbackUrl = url_join ''/auth/callback'' base, sso_dashboardUrl = dashboard\<rparr>)"

definition admin_settings_of ::
  "(string \<Rightarrow> url option) \<Rightarrow> (string \<Rightarrow> string \<Rightarrow> string) \<Rightarrow> environment \<Rightarrow> admin_settings option" where
  "admin_settings_of url_of url_join env =
     (if \<not> adminConfigured env then None
      else Some \<lparr>am_tokenSecret = the (env ''ADMIN_TOKEN_SECRET''),
        am_previousTokenSecrets = the (parsePreviousSecrets (env ''ADMIN_TOKEN_PREVIOUS_SECRETS'')),
        am_tokenTtlSeconds = the (number_of env ''ADMIN_TOKEN_TTL_SECONDS'' 28800),
        am_sso = (if adminSsoConfigured env then Some (sso_settings url_of url_join env) else None)\<rparr>)"

definition config_of ::
  "(string \<Rightarrow> url option) \<Rightarrow> (string \<Rightarrow> string \<Rightarrow> string) \<Rightarrow> environment \<Rightarrow> server_config" where
  "config_of url_of url_join env =
     \<lparr>cf_databaseUrl = the (env ''DATABASE_URL''),
      cf_host = (case env ''HOST'' of None \<Rightarrow> ''0.0.0.0'' | Some h \<Rightarrow> h),
      cf_port = the (number_of env ''PORT'' 3000), cf_logLevel = the (logLevel_of (level_text env)),
      cf_databasePoolMax = the (number_of env ''DB_POOL_MAX'' 10),
      cf_sessionTokenSecret = the (env ''SESSION_TOKEN_SECRET''),
      cf_sessionTokenPreviousSecrets = the (parsePreviousSecrets (env ''SESSION_TOKEN_PREVIOUS_SECRETS'')),
      cf_sessionTokenTtlSeconds = the (number_of env ''SESSION_TOKEN_TTL_SECONDS'' 900),
      cf_admin = admin_settings_of url_of url_join env,
      cf_eventRetentionMaxEvents = the (number_of env ''EVENT_RETENTION_MAX_EVENTS'' 1000),
      cf_eventSubscriberBufferSize = the (number_of env ''EVENT_SUBSCRIBER_BUFFER_SIZE'' 100),
      cf_connectorMode = the (connectorMode_of (mode_text env)),
      cf_haystackConnectors = (if mode_text env = ''haystack''
         then the (read_connectors url_of (env ''HAYSTACK_CONNECTORS'')) else []),
      cf_runWorkerPollIntervalMs = the (number_of env ''RUN_WORKER_POLL_INTERVAL_MS'' 250),
      cf_runLeaseMs = the (number_of env ''RUN_LEASE_MS'' 30000),
      cf_runMaxAttempts = the (number_of env ''RUN_MAX_ATTEMPTS'' 3),
      cf_bodyLimitBytes = the (number_of env ''HTTP_BODY_LIMIT_BYTES'' 262144),
      cf_requestTimeoutMs = the (number_of env ''REQUEST_TIMEOUT_MS'' 120000),
      cf_trustProxy = (env ''TRUST_PROXY'' = Some ''true''),
      cf_rateLimitWindowMs = the (number_of env ''RATE_LIMIT_WINDOW_MS'' 60000),
      cf_publicRateLimitMax = the (number_of env ''PUBLIC_RATE_LIMIT_MAX'' 120),
      cf_bootstrapRateLimitMax = the (number_of env ''BOOTSTRAP_RATE_LIMIT_MAX'' 30),
      cf_adminRateLimitMax = the (number_of env ''ADMIN_RATE_LIMIT_MAX'' 600),
      cf_anonymousRetentionDays = the (number_of env ''ANONYMOUS_RETENTION_DAYS'' 30),
      cf_authenticatedRetentionDays = the (number_of env ''AUTHENTICATED_RETENTION_DAYS'' 365),
      cf_contactValueRetentionHours = the (number_of env ''CONTACT_VALUE_RETENTION_HOURS'' 24),
      cf_retentionSweepIntervalMs = the (number_of env ''RETENTION_SWEEP_INTERVAL_MS'' 3600000),
      cf_metricsBearerToken = env ''METRICS_BEARER_TOKEN''\<rparr>"

text \<open>The failure is the list of wrong keys.\<close>

definition loadConfig ::
  "(string \<Rightarrow> url option) \<Rightarrow> (string \<Rightarrow> string \<Rightarrow> string) \<Rightarrow> environment \<Rightarrow> string list + server_config" where
  "loadConfig url_of url_join env =
     (if invalid_keys url_of env \<noteq> [] then Inl (invalid_keys url_of env)
      else Inr (config_of url_of url_join env))"

text \<open>\<open>run/connectors.ts\<close>: the connector of an agent. The constructor of the Haystack connector parses its
  configuration again; None is its exception.\<close>

datatype chat_connector = Mock_connector | Haystack_connector haystack_config

definition createConnectorResolver ::
  "(string \<Rightarrow> url option) \<Rightarrow> connector_mode \<Rightarrow> (ident \<times> haystack_config) list
    \<Rightarrow> (ident \<Rightarrow> chat_connector option) option" where
  "createConnectorResolver url_of mode connectors =
     (case mode of
        Mode_mock \<Rightarrow> Some (\<lambda>_. Some Mock_connector)
      | Mode_disabled \<Rightarrow> Some (\<lambda>_. None)
      | Mode_haystack \<Rightarrow>
          map_option (\<lambda>cs agentRef. map_option Haystack_connector (map_of cs agentRef))
            (those (map (\<lambda>(agentRef, c). map_option (Pair agentRef) (parseHaystackConfig url_of c)) connectors)))"

subsection \<open>What a loaded configuration promises\<close>

lemma check_Nil [simp]: "check key bad = [] \<longleftrightarrow> \<not> bad"
  by (simp add: check_def)

lemma check_number_Nil [simp]:
  "check_number env key fallback low high = [] \<longleftrightarrow>
     number_of env key fallback \<noteq> None \<and> low \<le> the (number_of env key fallback)
     \<and> the (number_of env key fallback) \<le> high"
  by (auto simp: check_number_def outside_def split: option.splits)

lemma secret_missing_ok: "\<not> secret_missing value \<Longrightarrow> \<exists>s. value = Some s \<and> secret_ok s"
  by (auto simp: secret_missing_def truthy_def split: option.splits if_splits)

lemma previous_ok:
  "\<not> previous_wrong (parsePreviousSecrets raw) (Some secret) \<Longrightarrow>
     \<exists>secrets. parsePreviousSecrets raw = Some secrets \<and> length secrets \<le> 2 \<and> list_all secret_ok secrets
       \<and> distinct (secret # secrets)"
  by (auto simp: previous_wrong_def parsePreviousSecrets_def split: option.splits json.splits if_splits)

lemma ring_ok:
  assumes "\<not> secret_missing secret" and "\<not> previous_wrong (parsePreviousSecrets raw) secret"
  shows "token_secrets_ok (the secret # the (parsePreviousSecrets raw))
    \<and> distinct (the secret # the (parsePreviousSecrets raw))
    \<and> length (the secret # the (parsePreviousSecrets raw)) \<le> 3"
proof -
  obtain s where s: "secret = Some s" "secret_ok s" using secret_missing_ok [OF assms(1)] by blast
  then obtain ss where "parsePreviousSecrets raw = Some ss" "length ss \<le> 2" "list_all secret_ok ss"
    "distinct (s # ss)"
    using previous_ok [of raw s] assms(2) by blast
  with s show ?thesis by (auto simp: token_secrets_ok_def secret_ok_def list_all_iff)
qed

lemma parseEmails_normal: "e \<in> set (parseEmails raw) \<Longrightarrow> map lower_char (trim e) = e \<and> e \<noteq> []"
  by (auto simp: parseEmails_def trim_lower [symmetric] lower_char_idem comp_def)

text \<open>What the constructors of the components check.\<close>

definition config_accepted :: "server_config \<Rightarrow> bool" where
  "config_accepted c \<longleftrightarrow>
     token_secrets_ok (cf_sessionTokenSecret c # cf_sessionTokenPreviousSecrets c)
     \<and> store_config_ok (cf_eventRetentionMaxEvents c) \<and> 0 < cf_eventSubscriberBufferSize c
     \<and> worker_config_ok \<lparr>wc_leaseMs = cf_runLeaseMs c, wc_maxAttempts = cf_runMaxAttempts c,
         wc_retentionMaxEvents = cf_eventRetentionMaxEvents c\<rparr>
     \<and> (\<forall>a. cf_admin c = Some a \<longrightarrow>
          admin_token_ok (am_tokenSecret a # am_previousTokenSecrets a) (am_tokenTtlSeconds a))"

text \<open>
  A configuration that loads is one the server can run with: no constructor of a component rejects
  its part of it, the secrets of a ring are different and at most three, every limit leaves room for a
  request and every retention is positive, and an address is on the list of operators in the
  normal form in which a sign-on's address is looked up.
\<close>

theorem loaded_config_accepted:
  assumes "loadConfig url_of url_join env = Inr c"
  shows "config_accepted c
     \<and> distinct (cf_sessionTokenSecret c # cf_sessionTokenPreviousSecrets c)
     \<and> length (cf_sessionTokenSecret c # cf_sessionTokenPreviousSecrets c) \<le> 3
     \<and> 1 \<le> cf_publicRateLimitMax c \<and> 1 \<le> cf_bootstrapRateLimitMax c \<and> 1 \<le> cf_adminRateLimitMax c
     \<and> 1000 \<le> cf_rateLimitWindowMs c
     \<and> 1 \<le> cf_anonymousRetentionDays c \<and> 1 \<le> cf_contactValueRetentionHours c
     \<and> (\<forall>a sso email. cf_admin c = Some a \<longrightarrow> am_sso a = Some sso
          \<longrightarrow> email \<in> set (sso_allowedAdminEmails (sso_identity sso)) \<longrightarrow> map lower_char (trim email) = email)"
proof -
  have none: "invalid_keys url_of env = []" and c: "c = config_of url_of url_join env"
    using assms by (simp_all add: loadConfig_def split: if_splits)
  note checks = none [unfolded invalid_keys_def, simplified]
  have session: "token_secrets_ok (the (env ''SESSION_TOKEN_SECRET'')
        # the (parsePreviousSecrets (env ''SESSION_TOKEN_PREVIOUS_SECRETS'')))
    \<and> distinct (the (env ''SESSION_TOKEN_SECRET'')
        # the (parsePreviousSecrets (env ''SESSION_TOKEN_PREVIOUS_SECRETS'')))
    \<and> length (the (env ''SESSION_TOKEN_SECRET'')
        # the (parsePreviousSecrets (env ''SESSION_TOKEN_PREVIOUS_SECRETS''))) \<le> 3"
    using checks by (intro ring_ok) auto
  have admin: "admin_token_ok (am_tokenSecret a # am_previousTokenSecrets a) (am_tokenTtlSeconds a)"
    if "cf_admin c = Some a" for a
  proof -
    have on: "adminConfigured env" and a: "a = the (admin_settings_of url_of url_join env)"
      using that by (auto simp: c config_of_def admin_settings_of_def split: if_splits)
    with checks have "\<not> secret_missing (env ''ADMIN_TOKEN_SECRET'')"
      "\<not> previous_wrong (parsePreviousSecrets (env ''ADMIN_TOKEN_PREVIOUS_SECRETS'')) (env ''ADMIN_TOKEN_SECRET'')"
      "60 \<le> the (number_of env ''ADMIN_TOKEN_TTL_SECONDS'' 28800)"
      "the (number_of env ''ADMIN_TOKEN_TTL_SECONDS'' 28800) \<le> 86400"
      by (simp_all add: check_admin_def)
    then show ?thesis using ring_ok on a by (auto simp: admin_settings_of_def admin_token_ok_def)
  qed
  have "config_accepted c"
    using checks session admin
    by (auto simp: config_accepted_def c config_of_def store_config_ok_def worker_config_ok_def max_safe_integer_def)
  moreover have "map lower_char (trim email) = email"
    if "cf_admin c = Some a" "am_sso a = Some sso" "email \<in> set (sso_allowedAdminEmails (sso_identity sso))"
    for a sso email
    using that parseEmails_normal
    by (auto simp: c config_of_def admin_settings_of_def sso_settings_def Let_def split: if_splits)
  moreover have "1 \<le> cf_publicRateLimitMax c \<and> 1 \<le> cf_bootstrapRateLimitMax c \<and> 1 \<le> cf_adminRateLimitMax c
     \<and> 1000 \<le> cf_rateLimitWindowMs c
     \<and> 1 \<le> cf_anonymousRetentionDays c \<and> 1 \<le> cf_contactValueRetentionHours c"
    using checks by (simp add: c config_of_def)
  moreover have "cf_sessionTokenSecret c # cf_sessionTokenPreviousSecrets c
      = the (env ''SESSION_TOKEN_SECRET'') # the (parsePreviousSecrets (env ''SESSION_TOKEN_PREVIOUS_SECRETS''))"
    by (simp add: c config_of_def)
  ultimately show ?thesis using session by metis
qed

lemma loaded_config_accepted_witness:
  "\<exists>c. loadConfig (\<lambda>s. Some \<lparr>u_protocol = ''postgres:'', u_username = [], u_password = [], u_pathname = [],
        u_search = [], u_hash = [], u_origin = [], u_href = s\<rparr>) (@)
      [''DATABASE_URL'' \<mapsto> ''postgres://db'', ''SESSION_TOKEN_SECRET'' \<mapsto> replicate 32 (CHR ''k'')] = Inr c
     \<and> config_accepted c \<and> 1 \<le> cf_publicRateLimitMax c"
proof -
  let ?env = "[''DATABASE_URL'' \<mapsto> ''postgres://db'', ''SESSION_TOKEN_SECRET'' \<mapsto> replicate 32 (CHR ''k'')]"
  let ?url = "\<lambda>s. Some \<lparr>u_protocol = ''postgres:'', u_username = [], u_password = [], u_pathname = [],
        u_search = [], u_hash = [], u_origin = [], u_href = s\<rparr>"
  have "secret_ok (replicate 32 (CHR ''k''))" by code_simp
  then have "invalid_keys ?url ?env = []"
    by (simp add: invalid_keys_def number_of_def parseInteger_def isDatabaseUrl_def truthy_def level_text_def
        logLevel_of_def secret_missing_def previous_wrong_def parsePreviousSecrets_def check_admin_def
        adminConfigured_def check_sso_def adminSsoConfigured_def connectorMode_of_def mode_text_def)
  then have load: "loadConfig ?url (@) ?env = Inr (config_of ?url (@) ?env)" by (simp add: loadConfig_def)
  with loaded_config_accepted [OF load] show ?thesis by blast
qed

end
