(* ===== verification/BrowserStorage.thy ===== *)
theory BrowserStorage
  imports EventStore Json
begin

text \<open>
  \<open>packages/browser-client/src/storage.ts\<close>: what the client keeps between two visits, in memory or in
  the browser's \<open>localStorage\<close> (a partial map from keys to texts). The locale \<open>chat_storage\<close> is the
  contract the client relies on; both storages fulfil it.
\<close>

record persisted =
  pe_browserIdentity :: "string option"
  pe_conversationId :: "ident option"
  pe_lastEventId :: "ident option"
  pe_lastEventSequence :: "int option"

definition fresh_persisted :: persisted where
  "fresh_persisted = \<lparr>pe_browserIdentity = None, pe_conversationId = None, pe_lastEventId = None,
     pe_lastEventSequence = None\<rparr>"

definition text_field :: "string \<Rightarrow> string option \<Rightarrow> (string \<times> json) list" where
  "text_field key value = (case value of None \<Rightarrow> [] | Some v \<Rightarrow> [(key, JString v)])"

text \<open>\<open>JSON.stringify\<close> of the state; the order of the keys is not read back.\<close>

definition persisted_json :: "persisted \<Rightarrow> json" where
  "persisted_json s = JObject ((''version'', JNumber 1)
     # text_field ''browserIdentity'' (pe_browserIdentity s)
     @ text_field ''conversationId'' (pe_conversationId s) @ text_field ''lastEventId'' (pe_lastEventId s)
     @ (case pe_lastEventSequence s of None \<Rightarrow> [] | Some n \<Rightarrow> [(''lastEventSequence'', JNumber n)]))"

text \<open>A field that is absent or a string.\<close>

definition string_or_absent :: "(string \<times> json) list \<Rightarrow> string \<Rightarrow> bool" where
  "string_or_absent fs key = (case map_of fs key of None \<Rightarrow> True | Some (JString _) \<Rightarrow> True | _ \<Rightarrow> False)"

definition string_at :: "(string \<times> json) list \<Rightarrow> string \<Rightarrow> string option" where
  "string_at fs key = (case map_of fs key of Some (JString s) \<Rightarrow> Some s | _ \<Rightarrow> None)"

definition number_at :: "(string \<times> json) list \<Rightarrow> string \<Rightarrow> int option" where
  "number_at fs key = (case map_of fs key of Some (JNumber n) \<Rightarrow> Some n | _ \<Rightarrow> None)"

definition sequence_ok :: "(string \<times> json) list \<Rightarrow> bool" where
  "sequence_ok fs = (case map_of fs ''lastEventSequence'' of
      None \<Rightarrow> True
    | Some (JNumber n) \<Rightarrow> \<bar>n\<bar> \<le> max_safe_integer \<and> 0 \<le> n
    | _ \<Rightarrow> False)"

definition parsePersisted :: "string option \<Rightarrow> persisted option" where
  "parsePersisted value =
     (case truthy value of
        None \<Rightarrow> None
      | Some raw \<Rightarrow>
          (case json_parse raw of
             Some (JObject fs) \<Rightarrow>
               if map_of fs ''version'' \<noteq> Some (JNumber 1) then None
               else if \<not> list_all (string_or_absent fs) [''browserIdentity'', ''conversationId'', ''lastEventId'']
               then None
               else if \<not> sequence_ok fs then None
               else Some \<lparr>pe_browserIdentity = string_at fs ''browserIdentity'',
                      pe_conversationId = string_at fs ''conversationId'',
                      pe_lastEventId = string_at fs ''lastEventId'',
                      pe_lastEventSequence = number_at fs ''lastEventSequence''\<rparr>
           | _ \<Rightarrow> None))"

subsection \<open>The two storages\<close>

type_synonym memory_storage = "string \<Rightarrow> persisted option"
type_synonym local_storage = "string \<Rightarrow> string option"

definition memory_load :: "string \<Rightarrow> memory_storage \<Rightarrow> persisted option" where
  "memory_load siteKey states = states siteKey"

definition memory_save :: "string \<Rightarrow> persisted \<Rightarrow> memory_storage \<Rightarrow> memory_storage" where
  "memory_save siteKey state states = states(siteKey \<mapsto> state)"

definition browser_key :: "string \<Rightarrow> string \<Rightarrow> string" where
  "browser_key keyPrefix siteKey = keyPrefix @ siteKey"

definition browser_load :: "string \<Rightarrow> string \<Rightarrow> local_storage \<Rightarrow> persisted option" where
  "browser_load keyPrefix siteKey storage = parsePersisted (storage (browser_key keyPrefix siteKey))"

definition browser_save :: "string \<Rightarrow> string \<Rightarrow> persisted \<Rightarrow> local_storage \<Rightarrow> local_storage" where
  "browser_save keyPrefix siteKey state storage =
     storage(browser_key keyPrefix siteKey \<mapsto> stringify (persisted_json state))"

text \<open>What another tab's listener is told of a change of the storage: the key and the new text.\<close>

definition browser_notify :: "string \<Rightarrow> string \<Rightarrow> string \<times> string option \<Rightarrow> persisted option option" where
  "browser_notify keyPrefix siteKey event =
     (if fst event = browser_key keyPrefix siteKey then Some (parsePersisted (snd event)) else None)"

subsection \<open>The contract\<close>

locale chat_storage =
  fixes load :: "string \<Rightarrow> 'store \<Rightarrow> persisted option"
    and save :: "string \<Rightarrow> persisted \<Rightarrow> 'store \<Rightarrow> 'store"
    and valid :: "persisted \<Rightarrow> bool"
  assumes load_saved: "valid state \<Longrightarrow> load siteKey (save siteKey state store) = Some state"
    and load_other: "siteKey \<noteq> siteKey' \<Longrightarrow> load siteKey (save siteKey' state store) = load siteKey store"
begin

text \<open>A client finds the last state it saved, whatever other sites' clients saved since.\<close>

lemma load_last:
  assumes "valid state" and "\<forall>(k, s) \<in> set others. k \<noteq> siteKey"
  shows "load siteKey (fold (\<lambda>(k, s). save k s) others (save siteKey state store)) = Some state"
  using assms(2) by (induction others rule: rev_induct) (auto simp: load_saved [OF assms(1)] load_other)

end

definition persisted_ok :: "persisted \<Rightarrow> bool" where
  "persisted_ok s \<longleftrightarrow> opt_ok (\<lambda>n. 0 \<le> n \<and> n \<le> max_safe_integer) (pe_lastEventSequence s)"

lemma stored_fields:
  assumes "persisted_json s = JObject fs"
  shows "map_of fs ''version'' = Some (JNumber 1)"
    and "map_of fs ''browserIdentity'' = map_option JString (pe_browserIdentity s)"
    and "map_of fs ''conversationId'' = map_option JString (pe_conversationId s)"
    and "map_of fs ''lastEventId'' = map_option JString (pe_lastEventId s)"
    and "map_of fs ''lastEventSequence'' = map_option JNumber (pe_lastEventSequence s)"
  using assms by (auto simp: persisted_json_def text_field_def map_add_def split: option.split)

lemma field_kinds:
  "map_of fs key = map_option JString v \<Longrightarrow> string_or_absent fs key \<and> string_at fs key = v"
  "map_of fs key = map_option JNumber n \<Longrightarrow> number_at fs key = n"
  by (simp_all add: string_or_absent_def string_at_def number_at_def split: option.split)

lemma parse_persisted:
  assumes "persisted_ok s"
  shows "parsePersisted (Some (stringify (persisted_json s))) = Some s"
proof -
  have "no_fraction (persisted_json s)"
    by (auto simp: persisted_json_def text_field_def list_all_iff split: option.splits)
  then have parse: "json_parse (stringify (persisted_json s)) = Some (persisted_json s)"
    by (rule json_parse_stringify_gen)
  obtain fs where fs: "persisted_json s = JObject fs" by (simp add: persisted_json_def)
  note at = stored_fields [OF fs]
  have "sequence_ok fs"
    using assms at(5) by (auto simp: sequence_ok_def persisted_ok_def split: option.split)
  moreover have "stringify (persisted_json s) \<noteq> []" by (auto simp: fs)
  ultimately show ?thesis
    using parse at(1) field_kinds(1) [OF at(2)] field_kinds(1) [OF at(3)] field_kinds(1) [OF at(4)]
      field_kinds(2) [OF at(5)]
    by (simp add: parsePersisted_def truthy_def fs del: stringify.simps)
qed

interpretation memory: chat_storage memory_load memory_save "\<lambda>_. True"
  by unfold_locales (simp_all add: memory_load_def memory_save_def)

interpretation browser: chat_storage "browser_load keyPrefix" "browser_save keyPrefix" persisted_ok
  for keyPrefix
  by unfold_locales (simp_all add: browser_load_def browser_save_def browser_key_def parse_persisted)

text \<open>
  What the client stores, it finds again: whatever the clients of other sites stored in the
  meantime, the state that was saved last for a site is loaded, and another tab that is told of the
  change reads the same state, while a tab of another site is not told.
\<close>

theorem stored_state_found:
  assumes "persisted_ok state" and "\<forall>(k, s) \<in> set others. k \<noteq> siteKey"
  shows "browser_load prefix siteKey
       (fold (\<lambda>(k, s). browser_save prefix k s) others (browser_save prefix siteKey state store)) = Some state
     \<and> browser_notify prefix siteKey (browser_key prefix siteKey,
          browser_save prefix siteKey state store (browser_key prefix siteKey)) = Some (Some state)
     \<and> (siteKey' \<noteq> siteKey \<longrightarrow> browser_notify prefix siteKey' (browser_key prefix siteKey, text) = None)"
  using browser.load_last [OF assms] parse_persisted [OF assms(1)]
  by (simp add: browser_notify_def browser_save_def browser_key_def)

lemma stored_state_found_witness:
  "browser_load ''p:'' ''a'' (browser_save ''p:'' ''b'' fresh_persisted (browser_save ''p:'' ''a''
     \<lparr>pe_browserIdentity = Some ''b1'', pe_conversationId = Some ''c1'', pe_lastEventId = Some ''e1'',
      pe_lastEventSequence = Some 7\<rparr> Map.empty))
   = Some \<lparr>pe_browserIdentity = Some ''b1'', pe_conversationId = Some ''c1'', pe_lastEventId = Some ''e1'',
      pe_lastEventSequence = Some 7\<rparr>"
  using stored_state_found [of "\<lparr>pe_browserIdentity = Some ''b1'', pe_conversationId = Some ''c1'',
      pe_lastEventId = Some ''e1'', pe_lastEventSequence = Some 7\<rparr>" "[(''b'', fresh_persisted)]" "''a''" "''p:''"]
  by (simp add: persisted_ok_def max_safe_integer_def)

end
