(* ===== verification/BrowserState.thy ===== *)
theory BrowserState
  imports HaystackConnector "HOL-Library.Product_Lexorder" "HOL-Library.Sublist"
begin

text \<open>
  \<open>packages/browser-client/src/state.ts\<close> and the types of \<open>types.ts\<close>: the reducer of the browser
  client's state. A live message is built from a message's events until a snapshot of the
  conversation holds it; \<open>recentEventIds\<close> makes repeated events harmless.

  The object \<open>liveMessages\<close> is a partial map. \<open>localeCompare\<close> orders texts by the sort keys
  \<open>collate\<close>, a parameter.
\<close>

datatype chat_phase =
  Phase_idle | Phase_bootstrapping | Phase_ready | Phase_streaming | Phase_reconnecting | Phase_error

record client_error =
  er_code :: string
  er_message :: string
  er_retryable :: bool

datatype public_principal =
  Principal_anonymous ident | Principal_external ident string string

record public_session =
  ps_tenantId :: ident
  ps_siteId :: ident
  ps_principal :: public_principal
  ps_sessionId :: ident
  ps_expiresAt :: js_date

datatype live_status = Live_streaming | Live_completed | Live_failed | Live_cancelled

record live_message =
  lm_messageId :: ident
  lm_status :: live_status
  lm_text :: string
  lm_parts :: "content_part list"

datatype client_run_status =
  Client_queued | Client_running | Client_completed | Client_failed | Client_cancel_requested
  | Client_cancelled

record run_state =
  ru_runId :: "ident option"
  ru_status :: client_run_status
  ru_failureCode :: "string option"

record handoff_state =
  hf_handoffId :: ident
  hf_completed :: bool

record chat_state =
  st_phase :: chat_phase
  st_session :: "public_session option"
  st_conversation :: "conversation option"
  st_messages :: "message list"
  st_live :: "ident \<Rightarrow> live_message option"
  st_run :: "run_state option"
  st_contact :: "contact_request option"
  st_handoff :: "handoff_state option"
  st_lastEventId :: "ident option"
  st_lastSequence :: int
  st_recent :: "ident list"
  st_error :: "client_error option"

datatype chat_action =
    Phase_changed chat_phase
  | Session_loaded public_session
  | Snapshot_loaded conversation "message list"
  | Conversation_cleared
  | Live_cleared
  | Message_submitted message
  | Run_cancelled_by_user ident bool
  | Run_retrying
  | Structured_input_submitted ident
  | Event_received conversation_event
  | Cursor_restored ident int
  | Cursor_cleared
  | Connection_failed client_error
  | Error_raised client_error

definition initialChatState :: chat_state where
  "initialChatState = \<lparr>st_phase = Phase_idle, st_session = None, st_conversation = None,
     st_messages = [], st_live = Map.empty, st_run = None, st_contact = None, st_handoff = None,
     st_lastEventId = None, st_lastSequence = 0, st_recent = [], st_error = None\<rparr>"

subsection \<open>Messages\<close>

text \<open>\<open>new Map\<close>: a later message replaces an earlier one of its identifier in its place.\<close>

definition put_message :: "message \<Rightarrow> message list \<Rightarrow> message list" where
  "put_message m ms =
     (if list_ex (\<lambda>x. ms_messageId x = ms_messageId m) ms
      then map (\<lambda>x. if ms_messageId x = ms_messageId m then m else x) ms else ms @ [m])"

definition canonicalMessages :: "(ident \<Rightarrow> 'k::linorder) \<Rightarrow> message list \<Rightarrow> message list" where
  "canonicalMessages collate ms =
     sort_key (\<lambda>m. (ms_sequence m, collate (ms_messageId m))) (fold put_message ms [])"

definition liveMessage :: "ident \<Rightarrow> live_message" where
  "liveMessage messageId = \<lparr>lm_messageId = messageId, lm_status = Live_streaming, lm_text = [],
     lm_parts = []\<rparr>"

definition textFromParts :: "content_part list \<Rightarrow> string" where
  "textFromParts parts = concat (map (\<lambda>p. case p of TextPart t \<Rightarrow> t | _ \<Rightarrow> []) parts)"

fun is_tool :: "ident \<Rightarrow> content_part \<Rightarrow> bool" where
  "is_tool toolCallId (ToolStatusPart t _ _) \<longleftrightarrow> t = toolCallId"
| "is_tool toolCallId _ \<longleftrightarrow> False"

definition upsertTool :: "content_part list \<Rightarrow> ident \<Rightarrow> string \<Rightarrow> tool_status \<Rightarrow> content_part list" where
  "upsertTool parts toolCallId label status =
     filter (\<lambda>p. \<not> is_tool toolCallId p) parts @ [ToolStatusPart toolCallId label status]"

definition updateTool :: "content_part list \<Rightarrow> ident \<Rightarrow> tool_status \<Rightarrow> content_part list" where
  "updateTool parts toolCallId status =
     map (\<lambda>p. case p of ToolStatusPart t label s \<Rightarrow>
            if t = toolCallId then ToolStatusPart t label status else p | _ \<Rightarrow> p) parts"

subsection \<open>Events\<close>

text \<open>The \<open>switch\<close> on a live message.\<close>

fun live_update :: "event_data \<Rightarrow> live_message \<Rightarrow> live_message" where
  "live_update (MessageDelta delta) l = l\<lparr>lm_text := lm_text l @ delta\<rparr>"
| "live_update (MessageCompleted parts) l =
     l\<lparr>lm_status := Live_completed, lm_parts := parts,
       lm_text := (if textFromParts parts \<noteq> [] then textFromParts parts else lm_text l)\<rparr>"
| "live_update (ToolStarted toolCallId label) l =
     l\<lparr>lm_parts := upsertTool (lm_parts l) toolCallId label Tool_started\<rparr>"
| "live_update (ToolCompleted toolCallId) l =
     l\<lparr>lm_parts := updateTool (lm_parts l) toolCallId Tool_completed\<rparr>"
| "live_update (ToolFailed toolCallId) l =
     l\<lparr>lm_parts := updateTool (lm_parts l) toolCallId Tool_failed\<rparr>"
| "live_update (CitationAdded c) l = l\<lparr>lm_parts := lm_parts l @ [CitationPart c]\<rparr>"
| "live_update _ l = l"

definition withoutError :: "chat_state \<Rightarrow> chat_state" where
  "withoutError s = s\<lparr>st_error := None\<rparr>"

definition run_failed_text :: string where
  "run_failed_text = ''The agent run failed.''"

definition run_now :: "conversation_event \<Rightarrow> client_run_status \<Rightarrow> string option \<Rightarrow> run_state option" where
  "run_now event status code = Some \<lparr>ru_runId = ev_runId event, ru_status = status, ru_failureCode = code\<rparr>"

text \<open>The chain of \<open>else if\<close> on the event's type.\<close>

fun apply_event :: "conversation_event \<Rightarrow> event_data \<Rightarrow> chat_state \<Rightarrow> chat_state" where
  "apply_event event (RunStarted _) s =
     (withoutError s)\<lparr>st_run := run_now event Client_running None\<rparr>"
| "apply_event event RunCompleted s =
     (withoutError s)\<lparr>st_phase := Phase_ready, st_run := run_now event Client_completed None\<rparr>"
| "apply_event event (RunFailed code) s =
     s\<lparr>st_phase := Phase_error, st_run := run_now event Client_failed (Some code),
       st_error := Some \<lparr>er_code = code, er_message = run_failed_text, er_retryable = True\<rparr>\<rparr>"
| "apply_event event (ContactRequested contact) s =
     (withoutError s)\<lparr>st_phase := Phase_ready, st_contact := Some contact\<rparr>"
| "apply_event event (HandoffRequested h) s =
     s\<lparr>st_handoff := Some \<lparr>hf_handoffId = h, hf_completed = False\<rparr>\<rparr>"
| "apply_event event (HandoffCompleted h) s =
     s\<lparr>st_handoff := Some \<lparr>hf_handoffId = h, hf_completed = True\<rparr>\<rparr>"
| "apply_event event _ s = s"

definition last_100 :: "'a list \<Rightarrow> 'a list" where
  "last_100 xs = drop (length xs - 100) xs"

definition note_event :: "conversation_event \<Rightarrow> chat_state \<Rightarrow> chat_state" where
  "note_event event s = apply_event event (ev_data event)
     (s\<lparr>st_phase := Phase_streaming, st_lastEventId := Some (ev_eventId event),
        st_lastSequence := max (st_lastSequence s) (ev_sequence event),
        st_recent := last_100 (st_recent s @ [ev_eventId event])\<rparr>)"

definition receiveEvent :: "chat_state \<Rightarrow> conversation_event \<Rightarrow> chat_state" where
  "receiveEvent s event =
     (if ev_eventId event \<in> set (st_recent s) then s
      else if ev_data event = SyncRequired then s
      else (let next_state = note_event event s
            in case truthy (ev_messageId event) of
                 None \<Rightarrow> next_state
               | Some messageId \<Rightarrow>
                   if list_ex (\<lambda>m. ms_messageId m = messageId) (st_messages s) then next_state
                   else (let current = (case st_live s messageId of
                               Some l \<Rightarrow> l | None \<Rightarrow> liveMessage messageId)
                         in next_state\<lparr>st_live :=
                              (st_live s)(messageId \<mapsto> live_update (ev_data event) current)\<rparr>)))"

fun reduceChatState :: "(ident \<Rightarrow> 'k::linorder) \<Rightarrow> chat_state \<Rightarrow> chat_action \<Rightarrow> chat_state" where
  "reduceChatState collate s (Phase_changed p) = withoutError (s\<lparr>st_phase := p\<rparr>)"
| "reduceChatState collate s (Session_loaded session) =
     withoutError (s\<lparr>st_session := Some session, st_phase := Phase_ready\<rparr>)"
| "reduceChatState collate s (Snapshot_loaded conversation snapshot) =
     (let messages = canonicalMessages collate snapshot;
          canonicalIds = set (map ms_messageId messages);
          failed = map_option ru_status (st_run s) = Some Client_failed;
          loaded = s\<lparr>st_conversation := Some conversation, st_messages := messages,
            st_live := (\<lambda>messageId. if messageId \<in> canonicalIds then None else st_live s messageId),
            st_phase := (if failed then Phase_error else Phase_ready)\<rparr>
      in if failed then loaded else withoutError loaded)"
| "reduceChatState collate s Conversation_cleared =
     withoutError (s\<lparr>st_conversation := None, st_lastEventId := None, st_run := None,
       st_contact := None, st_handoff := None, st_messages := [], st_live := Map.empty,
       st_lastSequence := 0, st_recent := [], st_phase := Phase_ready\<rparr>)"
| "reduceChatState collate s Live_cleared = s\<lparr>st_live := Map.empty\<rparr>"
| "reduceChatState collate s (Message_submitted message) =
     s\<lparr>st_messages := canonicalMessages collate (st_messages s @ [message]),
       st_run := Some \<lparr>ru_runId = None, ru_status = Client_queued, ru_failureCode = None\<rparr>\<rparr>"
| "reduceChatState collate s (Run_cancelled_by_user runId requested) =
     s\<lparr>st_run := Some \<lparr>ru_runId = Some runId,
       ru_status = (if requested then Client_cancel_requested else Client_cancelled),
       ru_failureCode = None\<rparr>\<rparr>"
| "reduceChatState collate s Run_retrying =
     withoutError (s\<lparr>st_phase := Phase_streaming,
       st_run := Some \<lparr>ru_runId = None, ru_status = Client_queued, ru_failureCode = None\<rparr>\<rparr>)"
| "reduceChatState collate s (Structured_input_submitted requestId) =
     (if map_option cr_requestId (st_contact s) \<noteq> Some requestId then s
      else withoutError (s\<lparr>st_contact := None, st_phase := Phase_streaming\<rparr>))"
| "reduceChatState collate s Cursor_cleared =
     s\<lparr>st_lastEventId := None, st_lastSequence := 0, st_recent := []\<rparr>"
| "reduceChatState collate s (Cursor_restored eventId sequence) =
     s\<lparr>st_lastEventId := Some eventId, st_lastSequence := sequence\<rparr>"
| "reduceChatState collate s (Connection_failed error) =
     s\<lparr>st_phase := Phase_reconnecting, st_error := Some error\<rparr>"
| "reduceChatState collate s (Error_raised error) =
     s\<lparr>st_phase := Phase_error, st_error := Some error\<rparr>"
| "reduceChatState collate s (Event_received event) = receiveEvent s event"

subsection \<open>The state's invariant\<close>

definition message_order :: "(ident \<Rightarrow> 'k::linorder) \<Rightarrow> message \<Rightarrow> int \<times> 'k" where
  "message_order collate m = (ms_sequence m, collate (ms_messageId m))"

definition chat_inv :: "(ident \<Rightarrow> 'k::linorder) \<Rightarrow> chat_state \<Rightarrow> bool" where
  "chat_inv collate s \<longleftrightarrow>
     distinct (map ms_messageId (st_messages s))
     \<and> sorted (map (message_order collate) (st_messages s))
     \<and> distinct (st_recent s) \<and> length (st_recent s) \<le> 100
     \<and> (\<forall>messageId l. st_live s messageId = Some l \<longrightarrow> lm_messageId l = messageId)"

lemma ids_put_message:
  "map ms_messageId (put_message m ms) =
     (if ms_messageId m \<in> ms_messageId ` set ms then map ms_messageId ms
      else map ms_messageId ms @ [ms_messageId m])"
proof -
  have "list_ex (\<lambda>x. ms_messageId x = ms_messageId m) ms \<longleftrightarrow> ms_messageId m \<in> ms_messageId ` set ms"
    by (auto simp: list_ex_iff) (metis imageI)
  then show ?thesis by (simp add: put_message_def)
qed

lemma distinct_put_messages:
  "distinct (map ms_messageId acc) \<Longrightarrow> distinct (map ms_messageId (fold put_message ms acc))"
proof (induction ms arbitrary: acc)
  case (Cons m ms)
  have "distinct (map ms_messageId (put_message m acc))" using Cons.prems by (auto simp: ids_put_message)
  then show ?case by (simp add: Cons.IH)
qed simp

lemma canonical_ok [simp]:
  "distinct (map ms_messageId (canonicalMessages collate ms))"
  "sorted (map (message_order collate) (canonicalMessages collate ms))"
  using distinct_put_messages [of "[]" ms]
  by (simp_all add: canonicalMessages_def message_order_def [abs_def] distinct_map)

lemma last_100_suffix: "\<exists>ys. xs = ys @ last_100 xs"
  by (metis append_take_drop_id last_100_def)

lemma last_100_ok: "distinct xs \<Longrightarrow> distinct (last_100 xs)" "length (last_100 xs) \<le> 100"
  "set (last_100 xs) \<subseteq> set xs"
  by (auto simp: last_100_def dest: in_set_dropD)

lemma last_100_last_100 [simp]: "last_100 (last_100 xs @ [x]) = last_100 (xs @ [x])"
  by (cases "length xs < 100") (simp_all add: last_100_def Suc_diff_le flip: Suc_diff_Suc)

lemma last_100_snoc [simp]: "x \<in> set (last_100 (xs @ [x]))"
  by (simp add: last_100_def)

lemma apply_event_frame [simp]:
  "st_messages (apply_event event data s) = st_messages s" "st_live (apply_event event data s) = st_live s"
  "st_recent (apply_event event data s) = st_recent s"
  "st_lastEventId (apply_event event data s) = st_lastEventId s"
  "st_lastSequence (apply_event event data s) = st_lastSequence s"
  by (cases data; simp add: withoutError_def)+

lemma note_event_frame [simp]:
  "st_messages (note_event event s) = st_messages s" "st_live (note_event event s) = st_live s"
  "st_recent (note_event event s) = last_100 (st_recent s @ [ev_eventId event])"
  "st_lastEventId (note_event event s) = Some (ev_eventId event)"
  "st_lastSequence (note_event event s) = max (st_lastSequence s) (ev_sequence event)"
  by (simp_all add: note_event_def)

lemma live_update_id [simp]: "lm_messageId (live_update data l) = lm_messageId l"
  by (cases data) simp_all

lemma receive_frame [simp]: "st_messages (receiveEvent s event) = st_messages s"
  by (simp add: receiveEvent_def Let_def split: option.split)

lemma receive_recent:
  "st_recent (receiveEvent s event) = (if ev_eventId event \<in> set (st_recent s) \<or> ev_data event = SyncRequired
     then st_recent s else last_100 (st_recent s @ [ev_eventId event]))"
  by (simp add: receiveEvent_def Let_def split: option.split)

lemma receive_inv:
  assumes "chat_inv collate s"
  shows "chat_inv collate (receiveEvent s event)"
proof -
  have "distinct (st_recent (receiveEvent s event)) \<and> length (st_recent (receiveEvent s event)) \<le> 100"
    using assms last_100_ok by (auto simp: receive_recent chat_inv_def)
  moreover have "lm_messageId l = messageId" if "st_live (receiveEvent s event) messageId = Some l" for messageId l
    using that assms by (auto simp: receiveEvent_def Let_def chat_inv_def liveMessage_def
        split: if_splits option.splits)
  ultimately show ?thesis using assms by (simp add: chat_inv_def)
qed

lemma reduce_inv: "chat_inv collate s \<Longrightarrow> chat_inv collate (reduceChatState collate s a)"
  by (cases a; simp add: receive_inv; simp add: chat_inv_def withoutError_def Let_def)

lemma reached_inv:
  "chat_inv collate s \<Longrightarrow> chat_inv collate (fold (\<lambda>a s. reduceChatState collate s a) actions s)"
  by (induction actions arbitrary: s) (simp_all add: reduce_inv)


subsection \<open>Repeated events\<close>

lemma receive_all_recent:
  assumes "distinct (map ev_eventId es)" and "\<forall>e \<in> set es. ev_data e \<noteq> SyncRequired"
    and "set (map ev_eventId es) \<inter> set (st_recent s) = {}"
  shows "st_recent (foldl receiveEvent s es) = last_100 (st_recent s @ map ev_eventId es)
     \<or> es = []"
  using assms
proof (induction es rule: rev_induct)
  case (snoc e es)
  let ?s = "foldl receiveEvent s es"
  have IH: "st_recent ?s = last_100 (st_recent s @ map ev_eventId es) \<or> es = []"
    using snoc by auto
  then have "set (st_recent ?s) \<subseteq> set (st_recent s @ map ev_eventId es)"
    using last_100_ok(3) [of "st_recent s @ map ev_eventId es"] by auto
  then have "ev_eventId e \<notin> set (st_recent ?s)" using snoc.prems by auto
  then have "st_recent (receiveEvent ?s e) = last_100 (st_recent ?s @ [ev_eventId e])"
    using snoc.prems by (simp add: receive_recent)
  then show ?case using IH by (auto simp flip: append_assoc)
qed simp

text \<open>
  Repeating events changes nothing. After a batch of up to 100 new events, receiving any of them
  again, in any order and any number of times, leaves the state as it is: a stream that resumes too
  early does not double a delta.
\<close>

theorem repeated_events_ignored:
  assumes "distinct (map ev_eventId es)" and "\<forall>e \<in> set es. ev_data e \<noteq> SyncRequired"
    and "set (map ev_eventId es) \<inter> set (st_recent s) = {}" and "length es \<le> 100"
    and "set again \<subseteq> set es"
  shows "foldl receiveEvent (foldl receiveEvent s es) again = foldl receiveEvent s es"
proof -
  let ?s = "foldl receiveEvent s es"
  have "set (map ev_eventId es) \<subseteq> set (st_recent ?s)"
  proof (cases "es = []")
    case False
    then have "st_recent ?s = last_100 (st_recent s @ map ev_eventId es)"
      using receive_all_recent [OF assms(1-3)] by blast
    then show ?thesis using assms(4) by (auto simp: last_100_def)
  qed simp
  then have "receiveEvent ?s e = ?s" if "e \<in> set again" for e
    using that assms(5) by (auto simp: receiveEvent_def)
  then show ?thesis by (induction again) auto
qed


lemma repeated_events_ignored_witness:
  "foldl receiveEvent (foldl receiveEvent initialChatState
      [persisted_form ''e1'' 0 (sample_event (MessageDelta ''a'')) 1,
       persisted_form ''e2'' 0 (sample_event (MessageDelta ''b'')) 2])
     [persisted_form ''e1'' 0 (sample_event (MessageDelta ''a'')) 1]
   = foldl receiveEvent initialChatState
      [persisted_form ''e1'' 0 (sample_event (MessageDelta ''a'')) 1,
       persisted_form ''e2'' 0 (sample_event (MessageDelta ''b'')) 2]"
  by (rule repeated_events_ignored) (simp_all add: persisted_form_def sample_event_def initialChatState_def)

subsection \<open>An answer as the browser shows it\<close>

definition shown :: "chat_state \<Rightarrow> ident \<Rightarrow> live_message" where
  "shown s messageId = (case st_live s messageId of Some l \<Rightarrow> l | None \<Rightarrow> liveMessage messageId)"

definition data_for :: "ident \<Rightarrow> conversation_event list \<Rightarrow> event_data list" where
  "data_for messageId es = map ev_data (filter (\<lambda>e. ev_messageId e = Some messageId) es)"

text \<open>Events the state has not seen: none of them is a repetition.\<close>

definition fresh_events :: "chat_state \<Rightarrow> conversation_event list \<Rightarrow> bool" where
  "fresh_events s es \<longleftrightarrow> distinct (map ev_eventId es) \<and> (\<forall>e \<in> set es. ev_data e \<noteq> SyncRequired)
     \<and> set (map ev_eventId es) \<inter> set (st_recent s) = {}"

lemma receive_new:
  assumes "fresh_events s (es @ [e])"
  shows "ev_eventId e \<notin> set (st_recent (foldl receiveEvent s es))" "ev_data e \<noteq> SyncRequired"
    "fresh_events s es"
proof -
  show fresh: "fresh_events s es" and "ev_data e \<noteq> SyncRequired" using assms by (auto simp: fresh_events_def)
  have "set (st_recent (foldl receiveEvent s es)) \<subseteq> set (st_recent s @ map ev_eventId es)"
    using receive_all_recent [of es s] fresh last_100_ok(3) [of "st_recent s @ map ev_eventId es"]
    by (cases "es = []") (auto simp: fresh_events_def)
  then show "ev_eventId e \<notin> set (st_recent (foldl receiveEvent s es))"
    using assms by (auto simp: fresh_events_def)
qed

lemma fresh_part: "fresh_events s (es @ es') \<Longrightarrow> fresh_events s es"
  by (auto simp: fresh_events_def)

lemma messages_kept [simp]: "st_messages (foldl receiveEvent s es) = st_messages s"
  by (induction es arbitrary: s) simp_all

lemma receive_live:
  assumes "ev_eventId e \<notin> set (st_recent s)" and "ev_data e \<noteq> SyncRequired"
    and "messageId \<noteq> []" and "messageId \<notin> ms_messageId ` set (st_messages s)"
  shows "st_live (receiveEvent s e) messageId =
    (if ev_messageId e = Some messageId then Some (live_update (ev_data e) (shown s messageId))
     else st_live s messageId)"
proof (cases "ev_messageId e = Some messageId")
  case True
  have "\<not> list_ex (\<lambda>m. ms_messageId m = messageId) (st_messages s)"
    using assms(4) by (auto simp: list_ex_iff)
  with True assms(1-3) show ?thesis by (simp add: receiveEvent_def shown_def truthy_def)
next
  case False
  then have "truthy (ev_messageId e) \<noteq> Some messageId" by (auto simp: truthy_def split: option.splits if_splits)
  with False assms(1,2) show ?thesis by (auto simp: receiveEvent_def Let_def split: option.split)
qed

lemma live_after:
  assumes "fresh_events s es" and "messageId \<noteq> []" and "messageId \<notin> ms_messageId ` set (st_messages s)"
  shows "shown (foldl receiveEvent s es) messageId = fold live_update (data_for messageId es) (shown s messageId)
    \<and> (data_for messageId es \<noteq> [] \<longrightarrow>
         st_live (foldl receiveEvent s es) messageId = Some (shown (foldl receiveEvent s es) messageId))"
  using assms(1)
proof (induction es rule: rev_induct)
  case (snoc e es)
  note new = receive_new [OF snoc.prems]
  let ?s = "foldl receiveEvent s es"
  have step: "st_live (receiveEvent ?s e) messageId =
      (if ev_messageId e = Some messageId then Some (live_update (ev_data e) (shown ?s messageId))
       else st_live ?s messageId)"
    using new(1,2) assms(2,3) by (intro receive_live) simp_all
  show ?case
  proof (cases "ev_messageId e = Some messageId")
    case True
    then show ?thesis using step snoc.IH [OF new(3)] by (simp add: data_for_def shown_def [of "receiveEvent ?s e"])
  next
    case False
    then have "shown (receiveEvent ?s e) messageId = shown ?s messageId" using step by (simp add: shown_def)
    with False step snoc.IH [OF new(3)] show ?thesis by (simp add: data_for_def)
  qed
qed (simp add: data_for_def)

fun delta_in :: "event_data \<Rightarrow> string" where
  "delta_in (MessageDelta d) = d"
| "delta_in _ = []"

fun is_completion :: "event_data \<Rightarrow> bool" where
  "is_completion (MessageCompleted _) \<longleftrightarrow> True"
| "is_completion _ \<longleftrightarrow> False"

lemma live_text:
  "\<forall>d \<in> set ds. \<not> is_completion d \<Longrightarrow> lm_text (fold live_update ds l) = lm_text l @ concat (map delta_in ds)"
proof (induction ds arbitrary: l)
  case (Cons d ds)
  then show ?case by (cases d) simp_all
qed simp

lemma live_id [simp]: "lm_messageId (fold live_update ds l) = lm_messageId l"
  by (induction ds arbitrary: l) simp_all

text \<open>The data of an answer's message, in order: the completion comes last.\<close>

definition answer_data :: "(string \<Rightarrow> url option) \<Rightarrow> haystack_response \<Rightarrow> event_data list" where
  "answer_data url_of r = MessageStarted
     # concat (map (\<lambda>(i, t). [ToolStarted (''haystack-tool-'' @ show_nat (i + 1)) (publicToolLabel t),
                            ToolCompleted (''haystack-tool-'' @ show_nat (i + 1))])
         (indexed (distinct_first (case hr_used_tools r of None \<Rightarrow> [] | Some ts \<Rightarrow> ts))))
     @ map CitationAdded (normalizedCitations url_of r) @ map MessageDelta (textChunks (hr_text r))"

definition answer_parts :: "(string \<Rightarrow> url option) \<Rightarrow> haystack_response \<Rightarrow> content_part list" where
  "answer_parts url_of r = TextPart (hr_text r) # map CitationPart (normalizedCitations url_of r)"

lemma logged:
  "map it_event its = map Some es \<Longrightarrow>
     map ev_data (log_of its q) = map ce_data es
     \<and> map ev_messageId (log_of its q) = map ce_messageId es
     \<and> map ev_runId (log_of its q) = map (\<lambda>e. Some (ce_runId e)) es
     \<and> map ev_eventId (log_of its q) = map it_eventId its"
proof (induction its arbitrary: es q)
  case (Cons it its)
  then obtain e es' where "es = e # es'" "it_event it = Some e" "map it_event its = map Some es'" by auto
  then show ?case using Cons.IH [of es' "q + 1"] by (simp add: persisted_form_def)
qed simp

lemma filter_by_map:
  "map f xs = map f' ys \<Longrightarrow> map g xs = map g' ys \<Longrightarrow>
     map g (filter (\<lambda>x. f x = c) xs) = map g' (filter (\<lambda>y. f' y = c) ys)"
  by (induction xs arbitrary: ys) auto

lemma answer_for_message:
  "map ce_data (filter (\<lambda>e. ce_messageId e = Some (ex_assistantMessageId x)) (completedEvents url_of x r))
   = answer_data url_of r @ [MessageCompleted (answer_parts url_of r)]"
proof -
  let ?mine = "\<lambda>e. ce_messageId e = Some (ex_assistantMessageId x)"
  have mine: "?mine (message_event x d)" "\<not> ?mine (base_event x d)"
    "ce_data (message_event x d) = d" for d
    by (simp_all add: message_event_def base_event_def)
  have tools: "map ce_data (filter ?mine (concat (map (\<lambda>(i, t). tool_events x i t) its)))
    = concat (map (\<lambda>(i, t). [ToolStarted (''haystack-tool-'' @ show_nat (i + 1)) (publicToolLabel t),
                            ToolCompleted (''haystack-tool-'' @ show_nat (i + 1))]) its)" for its
    by (induction its) (auto simp: tool_events_def Let_def mine)
  have same: "map ce_data (filter ?mine (map (\<lambda>y. message_event x (f y)) ys)) = map f ys" for f ys
    by (induction ys) (simp_all add: mine)
  show ?thesis
    by (simp add: completedEvents_def Let_def answer_data_def answer_parts_def mine tools same)
qed

lemma answer_data_text:
  "concat (map delta_in (answer_data url_of r)) = hr_text r"
  "\<forall>d \<in> set (answer_data url_of r). \<not> is_completion d"
proof -
  have tools: "concat (map delta_in (concat (map (\<lambda>(i, t). [ToolStarted (f i) (g t), ToolCompleted (f i)]) its))) = []"
    for f g and its :: "(nat \<times> string) list"
    by (induction its) auto
  have "concat (map delta_in (map CitationAdded cs)) = []" for cs by (induction cs) auto
  moreover have "map delta_in (map MessageDelta ts) = ts" for ts by (induction ts) auto
  ultimately show "concat (map delta_in (answer_data url_of r)) = hr_text r"
    by (simp add: answer_data_def tools textChunks_concat del: map_map map_concat)
  show "\<forall>d \<in> set (answer_data url_of r). \<not> is_completion d" by (auto simp: answer_data_def)
qed

lemma prefix_concat_map: "prefix xs ys \<Longrightarrow> prefix (concat (map f xs)) (concat (map f ys))"
  by (auto simp: prefix_def)

lemma text_of_parts [simp]:
  "textFromParts (answer_parts url_of r) = hr_text r"
  by (simp add: textFromParts_def answer_parts_def comp_def concat_eq_Nil_conv)

text \<open>Part of the way through, the text shown is the beginning of the answer.\<close>

lemma text_on_the_way:
  assumes "prefix ds (answer_data url_of r @ [MessageCompleted (answer_parts url_of r)])" and "lm_text l = []"
  shows "prefix (lm_text (fold live_update ds l)) (hr_text r)"
proof -
  have whole: "lm_text (fold live_update (answer_data url_of r) l) = hr_text r"
    using live_text answer_data_text assms(2) by simp
  from assms(1) consider "ds = answer_data url_of r @ [MessageCompleted (answer_parts url_of r)]"
    | "prefix ds (answer_data url_of r)" by (auto simp: prefix_snoc)
  then show ?thesis
  proof cases
    case 1
    then show ?thesis using whole by simp
  next
    case 2
    then have "\<forall>d \<in> set ds. \<not> is_completion d" using answer_data_text(2) by (metis set_mono_prefix subsetD)
    then have "lm_text (fold live_update ds l) = concat (map delta_in ds)" using live_text assms(2) by simp
    then show ?thesis using prefix_concat_map [OF 2, of delta_in] answer_data_text(1) by metis
  qed
qed

lemma run_completion:
  assumes "ev_eventId e \<notin> set (st_recent s)" and "ev_data e = RunCompleted" and "ev_messageId e = None"
  shows "st_phase (receiveEvent s e) = Phase_ready \<and> st_error (receiveEvent s e) = None
    \<and> st_run (receiveEvent s e) = Some \<lparr>ru_runId = ev_runId e, ru_status = Client_completed, ru_failureCode = None\<rparr>"
  using assms by (simp add: receiveEvent_def truthy_def note_event_def withoutError_def run_now_def)

text \<open>
  C39: An answer of the agent reaches the browser's screen. When the worker's log of a completed answer
  is received, the text shown for its message is at every moment a beginning of the agent's text; at the end it
  is that text, the message's parts are the text and the citations, and the client is ready, without
  an error, with the run completed.
\<close>

theorem answer_reaches_browser:
  assumes "map it_event its = map Some (completedEvents url_of x r)"
    and "fresh_events s (log_of its q)"
    and "ex_assistantMessageId x \<noteq> []" and "ex_assistantMessageId x \<notin> ms_messageId ` set (st_messages s)"
    and "st_live s (ex_assistantMessageId x) = None"
  shows "(\<forall>n. prefix (lm_text (shown (foldl receiveEvent s (take n (log_of its q))) (ex_assistantMessageId x)))
        (hr_text r))
    \<and> st_live (foldl receiveEvent s (log_of its q)) (ex_assistantMessageId x)
       = Some \<lparr>lm_messageId = ex_assistantMessageId x, lm_status = Live_completed,
           lm_text = hr_text r, lm_parts = answer_parts url_of r\<rparr>
    \<and> st_phase (foldl receiveEvent s (log_of its q)) = Phase_ready
    \<and> st_error (foldl receiveEvent s (log_of its q)) = None
    \<and> st_run (foldl receiveEvent s (log_of its q))
       = Some \<lparr>ru_runId = Some (rq_runId (ex_request x)), ru_status = Client_completed, ru_failureCode = None\<rparr>"
proof -
  let ?m = "ex_assistantMessageId x"
  let ?log = "log_of its q"
  let ?new = "liveMessage ?m"
  let ?final = "MessageCompleted (answer_parts url_of r)"
  note log = logged [OF assms(1), of q]
  have "data_for ?m ?log
      = map ce_data (filter (\<lambda>e. ce_messageId e = Some ?m) (completedEvents url_of x r))"
    unfolding data_for_def using log by (intro filter_by_map) auto
  then have data: "data_for ?m ?log = answer_data url_of r @ [?final]" by (simp add: answer_for_message)
  have start: "shown s ?m = ?new" using assms(5) by (simp add: shown_def)
  have texts: "prefix (lm_text (shown (foldl receiveEvent s (take n ?log)) ?m)) (hr_text r)" for n
  proof -
    have "fresh_events s (take n ?log)"
      using assms(2) by (auto intro: fresh_part [of s "take n ?log" "drop n ?log"])
    moreover have "data_for ?m ?log = data_for ?m (take n ?log) @ data_for ?m (drop n ?log)"
      by (simp add: data_for_def flip: map_append filter_append)
    then have "prefix (data_for ?m (take n ?log)) (answer_data url_of r @ [?final])"
      unfolding data [symmetric] by (simp add: prefix_def)
    then have "prefix (lm_text (fold live_update (data_for ?m (take n ?log)) ?new)) (hr_text r)"
      by (rule text_on_the_way) (simp add: liveMessage_def)
    ultimately show ?thesis
      using live_after [of s "take n ?log" ?m] assms(3,4) start by simp
  qed
  have text_final: "lm_text (fold live_update (answer_data url_of r) ?new) = hr_text r"
    using live_text answer_data_text by (simp add: liveMessage_def)
  have live: "st_live (foldl receiveEvent s ?log) ?m = Some \<lparr>lm_messageId = ?m,
      lm_status = Live_completed, lm_text = hr_text r, lm_parts = answer_parts url_of r\<rparr>"
    using live_after [OF assms(2,3,4)] data start text_final
    by (auto intro!: live_message.equality simp: liveMessage_def)
  obtain es where es: "completedEvents url_of x r = es @ [base_event x RunCompleted]"
    by (auto simp: completedEvents_def Let_def)
  then have "map ev_data ?log = map ce_data (es @ [base_event x RunCompleted])" using log by simp
  then obtain log' e where split: "?log = log' @ [e]" by (cases ?log rule: rev_cases) auto
  then have e: "ev_data e = RunCompleted" "ev_messageId e = None" "ev_runId e = Some (rq_runId (ex_request x))"
    using log es by (auto simp: base_event_def)
  show ?thesis
    using texts live run_completion [of e "foldl receiveEvent s log'"] e split
      receive_new(1) [of s log' e] assms(2) by simp
qed


definition sample_answer :: haystack_response where
  "sample_answer = \<lparr>hr_request_id = ''q'', hr_tenant_key = ''t'', hr_agent_slug = ''a'',
     hr_channel = ''web'', hr_thread_id = ''c1'', hr_text = ''hello'', hr_subject = None,
     hr_status = None, hr_used_tools = None, hr_rag_sources = None, hr_handoff = None\<rparr>"

lemma sample_answer_events:
  "completedEvents url_of x sample_answer = [message_event x MessageStarted,
     message_event x (MessageDelta ''hello''), message_event x (MessageCompleted [TextPart ''hello'']),
     base_event x RunCompleted]"
  by (simp add: completedEvents_def sample_answer_def textChunks.simps normalizedCitations_def
      indexed_def distinct_first_def)

lemma answer_reaches_browser_witness:
  "\<exists>its :: iteration list. st_live (foldl receiveEvent initialChatState (log_of its 1))
       (ex_assistantMessageId sample_execution)
     = Some \<lparr>lm_messageId = ex_assistantMessageId sample_execution, lm_status = Live_completed,
         lm_text = ''hello'', lm_parts = [TextPart ''hello'']\<rparr>"
proof -
  let ?it = "\<lambda>i e. \<lparr>it_event = Some e, it_eventId = i, it_occurredAt = 6,
      it_aborted = False, it_env = (\<lambda>_ s. s)\<rparr>"
  let ?its = "map (\<lambda>(i, e). ?it i e)
      (zip [''e1'', ''e2'', ''e3'', ''e4''] (completedEvents (\<lambda>_. None) sample_execution sample_answer))"
  have "map it_event ?its = map Some (completedEvents (\<lambda>_. None) sample_execution sample_answer)"
    by (simp add: sample_answer_events)
  moreover have "fresh_events initialChatState (log_of ?its 1)"
    by (simp add: fresh_events_def sample_answer_events persisted_form_def initialChatState_def
        message_event_def base_event_def)
  ultimately show ?thesis
    using answer_reaches_browser [of ?its "\<lambda>_. None" sample_execution sample_answer initialChatState 1]
    by (auto intro!: exI [of _ ?its] simp: initialChatState_def sample_execution_def sample_answer_def
        answer_parts_def normalizedCitations_def indexed_def)
qed

text \<open>
  \<open>retry()\<close> of the client reloads a conversation whose run had failed by these actions: the client
  is left in the phase \<open>error\<close> with no error to show.
\<close>

definition recovery :: "public_session \<Rightarrow> conversation \<Rightarrow> message list \<Rightarrow> chat_action list" where
  "recovery session conversation ms =
     [Phase_changed Phase_bootstrapping, Session_loaded session, Snapshot_loaded conversation ms]"

lemma recovery_hides_error:
  assumes "st_run s = Some \<lparr>ru_runId = rid, ru_status = Client_failed, ru_failureCode = Some code\<rparr>"
  shows "st_phase (fold (\<lambda>a s. reduceChatState collate s a) (recovery session conversation ms) s) = Phase_error"
    "st_error (fold (\<lambda>a s. reduceChatState collate s a) (recovery session conversation ms) s) = None"
  using assms by (simp_all add: recovery_def withoutError_def Let_def)

end
