(* ===== verification/BrowserTransport.thy ===== *)
theory BrowserTransport
  imports BrowserState Message "HOL-Library.Multiset"
begin

text \<open>
  \<open>packages/browser-client/src/http-transport.ts\<close>, apart from the event stream (theory \<open>Sse\<close>): how
  a response becomes a value or an error, and the loop that collects a conversation's messages page by
  page. \<open>fetch\<close> and the schemas' validation are parameters: a request is what the server answers to it.
\<close>

record http_error =
  he_code :: string
  he_message :: string
  he_status :: nat
  he_correlationId :: "string option"

datatype transport_failure = Http_failure http_error | Other_failure string

definition retryable :: "http_error \<Rightarrow> bool" where
  "retryable e \<longleftrightarrow> he_status e = 408 \<or> he_status e = 429 \<or> 500 \<le> he_status e"

fun isAuthenticationError :: "transport_failure \<Rightarrow> bool" where
  "isAuthenticationError (Http_failure e) \<longleftrightarrow> he_status e = 401"
| "isAuthenticationError (Other_failure _) \<longleftrightarrow> False"

definition json_text :: "json option \<Rightarrow> string option" where
  "json_text value = (case value of Some (JString s) \<Rightarrow> Some s | _ \<Rightarrow> None)"

definition member_of :: "json option \<Rightarrow> string \<Rightarrow> json option" where
  "member_of value key = (case value of Some (JObject fs) \<Rightarrow> map_of fs key | _ \<Rightarrow> None)"

definition or_else :: "'a option \<Rightarrow> 'a \<Rightarrow> 'a" where
  "or_else value fallback = (case value of None \<Rightarrow> fallback | Some v \<Rightarrow> v)"

definition httpError :: "nat \<Rightarrow> json option \<Rightarrow> http_error" where
  "httpError status value =
     (let error = member_of value ''error''
      in \<lparr>he_code = or_else (json_text (member_of error ''code'')) (''HTTP_'' @ show_nat status),
          he_message = or_else (json_text (member_of error ''message'')) ''The chat service request failed.'',
          he_status = status, he_correlationId = json_text (member_of error ''correlationId'')\<rparr>)"

text \<open>The body: absent when the text is empty.\<close>

definition readJson :: "nat \<Rightarrow> string \<Rightarrow> transport_failure + json option" where
  "readJson status body =
     (if body = [] then Inr None
      else (case json_parse body of
          None \<Rightarrow> Inl (Other_failure (''HTTP '' @ show_nat status @ '' response contains invalid JSON.''))
        | Some v \<Rightarrow> Inr (Some v)))"

definition authorizationHeader :: "string option \<Rightarrow> transport_failure + string" where
  "authorizationHeader accessToken =
     (case truthy accessToken of
        None \<Rightarrow> Inl (Other_failure ''Bootstrap is required before authenticated requests.'')
      | Some token \<Rightarrow> Inr (''Bearer '' @ token))"

text \<open>\<open>check\<close> is the validation against the schema of the answer.\<close>

definition requestJson ::
  "(json option \<Rightarrow> 'v option) \<Rightarrow> string \<Rightarrow> nat \<times> string \<Rightarrow> transport_failure + 'v" where
  "requestJson check path response =
     (let (status, body) = response in
      and_then (readJson status body) (\<lambda>value.
        if \<not> (200 \<le> status \<and> status \<le> 299) then Inl (Http_failure (httpError status value))
        else (case check value of
            None \<Rightarrow> Inl (Other_failure (''Invalid '' @ path @ '' response.''))
          | Some v \<Rightarrow> Inr v)))"

definition canonicalPage :: "message list \<Rightarrow> message list" where
  "canonicalPage ms = sort_key ms_sequence (fold put_message ms [])"

definition repeated_cursor :: transport_failure where
  "repeated_cursor = Other_failure ''Message pagination returned a repeated cursor.''"

definition too_many_pages :: transport_failure where
  "too_many_pages = Other_failure ''Message pagination exceeded the configured request limit.''"

text \<open>The loop of \<open>listMessages\<close>; the fuel is \<open>maxPaginationRequests\<close>, \<open>canonical\<close> the final sort.\<close>

fun list_pages ::
  "('r list \<Rightarrow> 'r list) \<Rightarrow> ('c option \<Rightarrow> transport_failure + ('r list \<times> 'c option)) \<Rightarrow> nat \<Rightarrow> 'c option
    \<Rightarrow> 'c list \<Rightarrow> 'r list \<Rightarrow> transport_failure + 'r list" where
  "list_pages canonical fetch 0 cursor seen acc = Inl too_many_pages"
| "list_pages canonical fetch (Suc n) cursor seen acc =
     and_then (fetch cursor) (\<lambda>(page, next_cursor).
       (case next_cursor of
          None \<Rightarrow> Inr (canonical (acc @ page))
        | Some c \<Rightarrow>
            if c \<in> set seen then Inl repeated_cursor
            else list_pages canonical fetch n (Some c) (c # seen) (acc @ page)))"

definition maxPaginationRequests :: nat where
  "maxPaginationRequests = 1000"

definition client_listMessages ::
  "(string option \<Rightarrow> transport_failure + (message list \<times> string option)) \<Rightarrow> transport_failure + message list" where
  "client_listMessages fetch = list_pages canonicalPage fetch maxPaginationRequests None [] []"

text \<open>
  A request over the wire: an API error arrives as its status and its code (\<open>name_of\<close>), any other
  failure as a 500.
\<close>

fun over_http :: "(api_code \<Rightarrow> string) \<Rightarrow> failure + 'a \<Rightarrow> transport_failure + 'a" where
  "over_http name_of (Inr a) = Inr a"
| "over_http name_of (Inl (ApiError code status)) = Inl (Http_failure \<lparr>he_code = name_of code,
     he_message = [], he_status = status, he_correlationId = None\<rparr>)"
| "over_http name_of (Inl Unexpected) = Inl (Http_failure \<lparr>he_code = ''INTERNAL_ERROR'', he_message = [],
     he_status = 500, he_correlationId = None\<rparr>)"

subsection \<open>Following distinct cursors\<close>

locale distinct_listing = keyset_listing +
  assumes cursor_distinct:
    "valid s \<Longrightarrow> i < length (all_rows s) \<Longrightarrow> j < length (all_rows s) \<Longrightarrow> cursor s i = cursor s j \<Longrightarrow> i = j"
begin

lemma list_pages_from:
  assumes "valid s" and "Suc n < length (all_rows s)" and "set seen \<subseteq> cursor s ` {..n}"
  shows "list_pages canonical (\<lambda>c. over_http name_of (fetch s c)) fuel (Some (cursor s n)) seen acc =
     (if length (all_rows s) - Suc n \<le> fuel * limit s
      then Inr (canonical (acc @ drop (Suc n) (all_rows s))) else Inl too_many_pages)"
  using assms(2,3)
proof (induction fuel arbitrary: n seen acc)
  case (Suc fuel)
  let ?rows = "all_rows s"
  have pos: "0 < limit s" by (rule limit_pos [OF assms(1)])
  have page: "fetch s (Some (cursor s n)) = Inr (take (limit s) (drop (Suc n) ?rows),
      if Suc n + limit s < length ?rows then Some (cursor s (n + limit s)) else None)"
    using Suc.prems(1) by (intro next_page [OF assms(1)]) simp
  show ?case
  proof (cases "Suc n + limit s < length ?rows")
    case True
    have new: "cursor s (n + limit s) \<notin> set seen"
    proof
      assume "cursor s (n + limit s) \<in> set seen"
      then obtain j where "j \<le> n" "cursor s (n + limit s) = cursor s j" using Suc.prems(2) by auto
      then show False using cursor_distinct [OF assms(1), of "n + limit s" j] True pos by simp
    qed
    have "set (cursor s (n + limit s) # seen) \<subseteq> cursor s ` {..n + limit s}" using Suc.prems(2) by auto
    then have "list_pages canonical (\<lambda>c. over_http name_of (fetch s c)) fuel (Some (cursor s (n + limit s)))
        (cursor s (n + limit s) # seen) (acc @ take (limit s) (drop (Suc n) ?rows))
      = (if length ?rows - Suc (n + limit s) \<le> fuel * limit s
         then Inr (canonical ((acc @ take (limit s) (drop (Suc n) ?rows)) @ drop (Suc (n + limit s)) ?rows))
         else Inl too_many_pages)"
      using True by (intro Suc.IH) auto
    moreover have "take (limit s) (drop (Suc n) ?rows) @ drop (Suc (n + limit s)) ?rows = drop (Suc n) ?rows"
      by (metis add.commute add_Suc append_take_drop_id drop_drop)
    moreover have "length ?rows - Suc (n + limit s) \<le> fuel * limit s \<longleftrightarrow> length ?rows - Suc n \<le> Suc fuel * limit s"
      using True by auto
    ultimately show ?thesis using True new by (simp add: page)
  qed (use page in auto)
qed auto

text \<open>The loop collects all rows exactly when they fit into the pages it may ask for.\<close>

lemma list_pages_all:
  assumes "valid s" and "0 < fuel"
  shows "list_pages canonical (\<lambda>c. over_http name_of (fetch s c)) fuel None [] [] =
     (if length (all_rows s) \<le> fuel * limit s then Inr (canonical (all_rows s)) else Inl too_many_pages)"
proof -
  let ?rows = "all_rows s"
  obtain k where k: "fuel = Suc k" using assms(2) by (cases fuel) auto
  have pos: "0 < limit s" by (rule limit_pos [OF assms(1)])
  show ?thesis
  proof (cases "limit s < length ?rows")
    case True
    have "list_pages canonical (\<lambda>c. over_http name_of (fetch s c)) k (Some (cursor s (limit s - 1)))
        [cursor s (limit s - 1)] (take (limit s) ?rows)
      = (if length ?rows - Suc (limit s - 1) \<le> k * limit s
         then Inr (canonical (take (limit s) ?rows @ drop (Suc (limit s - 1)) ?rows)) else Inl too_many_pages)"
      using True pos by (intro list_pages_from [OF assms(1)]) auto
    moreover have "length ?rows - Suc (limit s - 1) \<le> k * limit s \<longleftrightarrow> length ?rows \<le> fuel * limit s"
      using True pos by (auto simp: k)
    ultimately show ?thesis using True pos by (simp add: k first_page [OF assms(1)])
  qed (auto simp: k first_page [OF assms(1)])
qed

end

subsection \<open>The conversation's messages\<close>

lemma encodeCursor_inj: "1 \<le> m \<Longrightarrow> m \<le> int4_max \<Longrightarrow> 1 \<le> n \<Longrightarrow> n \<le> int4_max \<Longrightarrow>
    encodeCursor m = encodeCursor n \<Longrightarrow> m = n"
  by (metis cursor_read_back option.inject)

lemma fold_put_fresh:
  "distinct (map ms_messageId (acc @ ms)) \<Longrightarrow> fold put_message ms acc = acc @ ms"
proof (induction ms arbitrary: acc)
  case (Cons m ms)
  have "\<not> list_ex (\<lambda>x. ms_messageId x = ms_messageId m) acc" using Cons.prems by (auto simp: list_ex_iff) (metis imageI)
  then have "put_message m acc = acc @ [m]" by (simp add: put_message_def)
  then show ?case using Cons.prems by (simp add: Cons.IH)
qed simp

lemma canonicalPage_id:
  "distinct (map ms_messageId ms) \<Longrightarrow> sorted (map ms_sequence ms) \<Longrightarrow> canonicalPage ms = ms"
  by (simp add: canonicalPage_def fold_put_fresh sort_key_id_if_sorted)

interpretation message_pages: distinct_listing
  "\<lambda>(scope, cid, d, limit) cursor. list_messages scope cid limit cursor d"
  "\<lambda>(scope, cid, d, limit). map mapMessage (ordered_messages scope cid d)"
  "\<lambda>(scope, cid, d, limit) n. encodeCursor (m_sequence (ordered_messages scope cid d ! n))"
  "\<lambda>(scope, cid, d, limit). limit"
  messages_ok
proof (unfold_locales, goal_cases)
  case (1 s i j)
  obtain scope cid d limit where s: "s = (scope, cid, d, limit)" by (metis prod.exhaust)
  let ?rows = "ordered_messages scope cid d"
  have i: "i < length ?rows" and j: "j < length ?rows" and ok: "messages_ok (scope, cid, d, limit)"
    and same: "encodeCursor (m_sequence (?rows ! i)) = encodeCursor (m_sequence (?rows ! j))"
    using 1 by (simp_all add: s)
  have sub: "set ?rows \<subseteq> set (conv_messages d cid)" "set (conv_messages d cid) \<subseteq> set (messages d)"
    by (auto simp: ordered_messages_def scoped_messages_def conv_messages_def)
  have "1 \<le> m_sequence m \<and> m_sequence m \<le> int4_max" if "m \<in> set ?rows" for m
    using that sub ok by (auto simp: messages_ok_def list_all_iff)
  then have "m_sequence (?rows ! i) = m_sequence (?rows ! j)"
    using same i j by (intro encodeCursor_inj) auto
  moreover have "distinct (map m_sequence ?rows)"
  proof -
    have "scoped_messages scope cid d
        = filter (\<lambda>m. m_tenant_id m = sc_tenantId scope \<and> m_site_id m = sc_siteId scope) (conv_messages d cid)"
      by (auto simp: scoped_messages_def conv_messages_def intro: filter_cong)
    then show ?thesis
      using ok by (simp add: messages_ok_def ordered_messages_def distinct_order_asc distinct_map_filter)
  qed
  ultimately show ?case using i j by (metis length_map nth_eq_iff_index_eq nth_map)
qed

text \<open>
  What the browser shows of a conversation is all of it. Page by page, a hundred messages each, the
  client collects every message of the conversation exactly once and in order, as long as there are at
  most 100,000; a longer conversation ends the loop with an error instead of a part of it.
\<close>

theorem client_lists_conversation:
  assumes "message_inv d" and "find_conversation scope cid d = Some c"
    and "list_all (\<lambda>m. m_sequence m \<le> int4_max) (messages d)" and "distinct (map m_message_id (messages d))"
  shows "client_listMessages (\<lambda>cursor. over_http name_of (list_messages scope cid 100 cursor d)) =
       (if c_next_message_sequence c - 1 \<le> 100000
        then Inr (map mapMessage (ordered_messages scope cid d)) else Inl too_many_pages)
     \<and> map m_sequence (ordered_messages scope cid d) = [1..c_next_message_sequence c - 1]
     \<and> set (ordered_messages scope cid d) = {m \<in> set (messages d). m_conversation_id m = cid}"
proof -
  let ?rows = "ordered_messages scope cid d"
  note rows = ordered_conversation [OF assms(1-3)]
  have len: "length ?rows = nat (c_next_message_sequence c - 1)"
    using arg_cong [OF rows(1), of length] by simp
  have "mset ?rows = mset (scoped_messages scope cid d)" by (simp add: ordered_messages_def order_asc_def)
  moreover have "distinct (map m_message_id (scoped_messages scope cid d))"
    using assms(4) by (simp add: scoped_messages_def distinct_map_filter)
  ultimately have "distinct (map m_message_id ?rows)" by (metis mset_eq_imp_distinct_iff mset_map)
  moreover have "map ms_messageId (map mapMessage ?rows) = map m_message_id ?rows"
    "map ms_sequence (map mapMessage ?rows) = map m_sequence ?rows"
    by (simp_all add: mapMessage_def)
  ultimately have "canonicalPage (map mapMessage ?rows) = map mapMessage ?rows"
    using rows(1) by (intro canonicalPage_id) (simp_all del: map_map)
  then have "client_listMessages (\<lambda>cursor. over_http name_of (list_messages scope cid 100 cursor d)) =
      (if length ?rows \<le> 100000 then Inr (map mapMessage ?rows) else Inl too_many_pages)"
    using message_pages.list_pages_all [of "(scope, cid, d, 100)" 1000 canonicalPage name_of]
      rows(4) [of 100] by (simp add: client_listMessages_def maxPaginationRequests_def)
  then show ?thesis using rows(1-3) len by auto
qed

definition one_message :: message_row where
  "one_message = \<lparr>m_message_id = ''m1'', m_tenant_id = ''t1'', m_site_id = ''s1'', m_conversation_id = ''c1'',
     m_sequence = 1, m_participant_id = ''u1'', m_role = Role_user, m_status = Msg_completed,
     m_parts = [TextPart ''hi''], m_created_at = 1000, m_completed_at = Some 1000\<rparr>"

lemma client_lists_conversation_witness:
  "client_listMessages (\<lambda>cursor. over_http (\<lambda>_. []) (list_messages sample_scope ''c1'' 100 cursor
      (sample_chat\<lparr>conversations := [(sample_conversation ''c1'' 1000)\<lparr>c_next_message_sequence := 2\<rparr>],
        messages := [one_message]\<rparr>)))
   = Inr [mapMessage one_message]"
proof -
  let ?c = "(sample_conversation ''c1'' 1000)\<lparr>c_next_message_sequence := 2\<rparr>"
  let ?d = "sample_chat\<lparr>conversations := [?c], messages := [one_message]\<rparr>"
  have "message_inv ?d" by (simp add: message_inv_def conv_messages_def sample_defs one_message_def)
  moreover have "find_conversation sample_scope ''c1'' ?d = Some ?c"
    by (simp add: find_conversation_def sample_defs)
  ultimately show ?thesis
    using client_lists_conversation [of ?d sample_scope "''c1''" ?c "\<lambda>_. []"]
    by (simp add: one_message_def int4_max_def ordered_messages_def scoped_messages_def sample_defs order_asc_def)
qed

end
