(* ===== verification/ClientPrograms.thy ===== *)
theory ClientPrograms
  imports BrowserStorage BrowserTransport EmailHandoff
begin

text \<open>
  The asynchronous functions of \<open>packages/browser-client/src/client.ts\<close> as programs. A program runs
  without interruption until it waits for an answer (\<open>Await\<close>: of the transport, of the storage, of a
  renewal that is under way, or, for \<open>Pause\<close>, of its turn in the queue of the event loop); what happens
  meanwhile is the business of theory \<open>BrowserClient\<close>.

  The variables the functions close over are the record \<open>client\<close>. An abort controller, a timer, a renewal
  of the session and a created identifier are numbers counted up by the client; a fired or cleared timer
  is no longer listed in \<open>cl_timers\<close>, an aborted controller is listed in \<open>cl_aborted\<close>.
\<close>

datatype timer = Reconnect_timer | Renewal_timer

record client =
  cl_state :: chat_state
  cl_persisted :: persisted
  cl_destroyed :: bool
  cl_started :: bool
  cl_streamAbort :: "nat option"
  cl_reconnectTimer :: "nat option"
  cl_renewalTimer :: "nat option"
  cl_renewalPromise :: "nat option"
  cl_reconnectAttempt :: nat
  cl_ignoreStorage :: bool
  cl_controllers :: nat
  cl_aborted :: "nat list"
  cl_timerIds :: nat
  cl_timers :: "(nat \<times> timer \<times> js_date) list"
  cl_renewals :: nat
  cl_ids :: nat
  cl_now :: js_date

text \<open>The options; \<open>op_collate\<close> stands for the \<open>localeCompare\<close> of the reducer.\<close>

record 'k client_options =
  op_collate :: "ident \<Rightarrow> 'k"
  op_reconnectDelay :: "nat \<Rightarrow> int"
  op_renewalLeadMs :: int

definition defaultReconnectDelay :: "nat \<Rightarrow> int" where
  "defaultReconnectDelay attempt = min (1000 * 2 ^ attempt) 30000"

definition defaultRenewalLeadMs :: int where
  "defaultRenewalLeadMs = 60000"

definition new_client :: "js_date \<Rightarrow> client" where
  "new_client now = \<lparr>cl_state = initialChatState, cl_persisted = fresh_persisted, cl_destroyed = False,
     cl_started = False, cl_streamAbort = None, cl_reconnectTimer = None, cl_renewalTimer = None,
     cl_renewalPromise = None, cl_reconnectAttempt = 0, cl_ignoreStorage = False, cl_controllers = 0,
     cl_aborted = [], cl_timerIds = 0, cl_timers = [], cl_renewals = 0, cl_ids = 0, cl_now = now\<rparr>"

subsection \<open>Programs\<close>

text \<open>What a bootstrap answers, as far as the client reads it.\<close>

record session_answer =
  sa_session :: public_session
  sa_browserIdentity :: "ident option"

datatype call =
    Pause
  | Load_state
  | Save_state persisted
  | Call_bootstrap "ident option" nat
  | Call_create nat
  | Call_conversation ident
  | Call_messages ident
  | Call_submit ident "string list" nat
  | Call_handoff ident string nat
  | Call_input ident ident input_answer nat
  | Call_cancel ident nat
  | Call_retry ident nat
  | Call_stream nat ident "ident option"
  | Call_renewal nat

datatype reply =
    R_done
  | R_persisted "persisted option"
  | R_bootstrap session_answer
  | R_session public_session
  | R_conversation conversation
  | R_messages "message list"
  | R_message message
  | R_handoff email_handoff
  | R_input structured_input
  | R_cancelled cancel_response

type_synonym outcome = "transport_failure + reply"

text \<open>
  \<open>Both\<close> is \<open>Promise.all\<close> of two promises. \<open>Open\<close> is \<open>openStream\<close>, with what the new stream does before
  it first waits; \<open>Renew\<close> is \<open>renewSession\<close> with the bootstrap it starts unless a renewal is under way.
\<close>

datatype prog =
    Return reply
  | Throw transport_failure
  | Get "client \<Rightarrow> prog"
  | Update "client \<Rightarrow> client" prog
  | Await call "outcome \<Rightarrow> prog"
  | Both prog prog "transport_failure + reply \<times> reply \<Rightarrow> prog"
  | Open prog prog
  | Renew prog "nat \<Rightarrow> prog"

primrec and_do :: "prog \<Rightarrow> (reply \<Rightarrow> prog) \<Rightarrow> prog" where
  "and_do (Return v) f = f v"
| "and_do (Throw e) f = Throw e"
| "and_do (Get g) f = Get (\<lambda>c. and_do (g c) f)"
| "and_do (Update u p) f = Update u (and_do p f)"
| "and_do (Await q k) f = Await q (\<lambda>r. and_do (k r) f)"
| "and_do (Both a b k) f = Both a b (\<lambda>r. and_do (k r) f)"
| "and_do (Open s p) f = Open s (and_do p f)"
| "and_do (Renew s k) f = Renew s (\<lambda>n. and_do (k n) f)"

text \<open>\<open>try \<dots> catch\<close>.\<close>

primrec attempt :: "prog \<Rightarrow> (transport_failure \<Rightarrow> prog) \<Rightarrow> prog" where
  "attempt (Return v) h = Return v"
| "attempt (Throw e) h = h e"
| "attempt (Get g) h = Get (\<lambda>c. attempt (g c) h)"
| "attempt (Update u p) h = Update u (attempt p h)"
| "attempt (Await q k) h = Await q (\<lambda>r. attempt (k r) h)"
| "attempt (Both a b k) h = Both a b (\<lambda>r. attempt (k r) h)"
| "attempt (Open s p) h = Open s (attempt p h)"
| "attempt (Renew s k) h = Renew s (\<lambda>n. attempt (k n) h)"

fun give :: "outcome \<Rightarrow> prog" where
  "give (Inl e) = Throw e"
| "give (Inr v) = Return v"

definition await_call :: "call \<Rightarrow> prog" where
  "await_call q = Await q give"

text \<open>\<open>await f()\<close> of one of the client's own functions: its caller goes on in a later turn.\<close>

definition awaiting :: "prog \<Rightarrow> (reply \<Rightarrow> prog) \<Rightarrow> prog" where
  "awaiting p f = and_do p (\<lambda>v. Await Pause (\<lambda>_. f v))"

abbreviation finished :: prog where
  "finished \<equiv> Return R_done"

subsection \<open>Helpers\<close>

definition dispatch :: "'k::linorder client_options \<Rightarrow> chat_action \<Rightarrow> client \<Rightarrow> client" where
  "dispatch opts a c = c\<lparr>cl_state := reduceChatState (op_collate opts) (cl_state c) a\<rparr>"

fun toClientError :: "transport_failure \<Rightarrow> client_error" where
  "toClientError (Http_failure e) =
     \<lparr>er_code = he_code e, er_message = he_message e, er_retryable = retryable e\<rparr>"
| "toClientError (Other_failure m) = \<lparr>er_code = ''CLIENT_ERROR'', er_message = m, er_retryable = True\<rparr>"

definition raiseError :: "'k::linorder client_options \<Rightarrow> transport_failure \<Rightarrow> client \<Rightarrow> client" where
  "raiseError opts e = dispatch opts (Error_raised (toClientError e))"

definition withoutCursor :: "persisted \<Rightarrow> persisted" where
  "withoutCursor p = p\<lparr>pe_lastEventId := None, pe_lastEventSequence := None\<rparr>"

definition clearTimer :: "nat option \<Rightarrow> client \<Rightarrow> client" where
  "clearTimer t c = (case t of None \<Rightarrow> c | Some n \<Rightarrow> c\<lparr>cl_timers := filter (\<lambda>x. fst x \<noteq> n) (cl_timers c)\<rparr>)"

definition setTimer :: "timer \<Rightarrow> int \<Rightarrow> client \<Rightarrow> client" where
  "setTimer k delay c = c\<lparr>cl_timers := cl_timers c @ [(cl_timerIds c, k, cl_now c + max 0 delay)],
     cl_timerIds := Suc (cl_timerIds c)\<rparr>"

text \<open>\<open>streamAbort?.abort()\<close>\<close>

definition abort_stream :: "client \<Rightarrow> client" where
  "abort_stream c = (case cl_streamAbort c of None \<Rightarrow> c | Some n \<Rightarrow> c\<lparr>cl_aborted := n # cl_aborted c\<rparr>)"

definition aborted :: "nat \<Rightarrow> client \<Rightarrow> bool" where
  "aborted n c \<longleftrightarrow> n \<in> set (cl_aborted c)"

text \<open>The synchronous part of \<open>openStream\<close>: the new controller and what is asked of the server.\<close>

definition openStream :: "client \<Rightarrow> client \<times> (nat \<times> ident \<times> ident option) option" where
  "openStream c =
     (case st_conversation (cl_state c) of
        None \<Rightarrow> (c, None)
      | Some conversation \<Rightarrow>
          if cl_destroyed c then (c, None)
          else (let c1 = clearTimer (cl_reconnectTimer c) (abort_stream c)
                in (c1\<lparr>cl_controllers := Suc (cl_controllers c1), cl_streamAbort := Some (cl_controllers c1)\<rparr>,
                    Some (cl_controllers c1, co_conversationId conversation,
                          truthy (st_lastEventId (cl_state c1))))))"

definition scheduleReconnect ::
  "'k::linorder client_options \<Rightarrow> transport_failure option \<Rightarrow> client \<Rightarrow> client" where
  "scheduleReconnect opts cause c =
     (if cl_destroyed c then c
      else (let c1 = (case cause of
                  Some e \<Rightarrow> dispatch opts (Connection_failed (toClientError e)) c
                | None \<Rightarrow> dispatch opts (Phase_changed Phase_reconnecting) c);
                c2 = setTimer Reconnect_timer (op_reconnectDelay opts (cl_reconnectAttempt c1)) c1
            in c2\<lparr>cl_reconnectTimer := Some (cl_timerIds c1),
                  cl_reconnectAttempt := Suc (cl_reconnectAttempt c1)\<rparr>))"

definition scheduleRenewal :: "'k client_options \<Rightarrow> public_session \<Rightarrow> client \<Rightarrow> client" where
  "scheduleRenewal opts session c =
     (let c1 = clearTimer (cl_renewalTimer c) c;
          delay = max 0 (ps_expiresAt session - cl_now c1 - op_renewalLeadMs opts)
      in (setTimer Renewal_timer delay c1)\<lparr>cl_renewalTimer := Some (cl_timerIds c1)\<rparr>)"

text \<open>\<open>persist\<close>: the storage's own events are ignored while it saves, however the saving ends.\<close>

definition persist :: prog where
  "persist = Update (\<lambda>c. c\<lparr>cl_ignoreStorage := True\<rparr>) (Get (\<lambda>c.
     Await (Save_state (cl_persisted c)) (\<lambda>r.
       Update (\<lambda>c. c\<lparr>cl_ignoreStorage := False\<rparr>) (give r))))"

definition create_id :: "(nat \<Rightarrow> prog) \<Rightarrow> prog" where
  "create_id f = Get (\<lambda>c. Update (\<lambda>c. c\<lparr>cl_ids := Suc (cl_ids c)\<rparr>) (f (cl_ids c)))"

text \<open>An answer of another kind than the transport's interface promises does not occur.\<close>

definition unexpected :: prog where
  "unexpected = Throw (Other_failure ''unexpected'')"

subsection \<open>The session\<close>

definition bootstrapSession :: "'k::linorder client_options \<Rightarrow> nat \<Rightarrow> prog" where
  "bootstrapSession opts idempotencyKey = Get (\<lambda>c.
     and_do (await_call (Call_bootstrap (truthy (pe_browserIdentity (cl_persisted c))) idempotencyKey))
       (\<lambda>v. case v of
          R_bootstrap answer \<Rightarrow>
            Update (\<lambda>c. dispatch opts (Session_loaded (sa_session answer))
                (case truthy (sa_browserIdentity answer) of
                   None \<Rightarrow> c
                 | Some b \<Rightarrow> c\<lparr>cl_persisted := (cl_persisted c)\<lparr>pe_browserIdentity := Some b\<rparr>\<rparr>))
              (awaiting persist (\<lambda>_.
                 Update (scheduleRenewal opts (sa_session answer)) (Return (R_session (sa_session answer)))))
        | _ \<Rightarrow> unexpected))"

definition no_identity :: transport_failure where
  "no_identity = Other_failure ''Cannot renew the chat session before browser identity is available.''"

definition renewSession :: "'k::linorder client_options \<Rightarrow> prog" where
  "renewSession opts = Get (\<lambda>c.
     if cl_renewalPromise c = None \<and> truthy (pe_browserIdentity (cl_persisted c)) = None then Throw no_identity
     else Renew (create_id (bootstrapSession opts)) (\<lambda>n. await_call (Call_renewal n)))"

definition ensureFreshSession :: "'k::linorder client_options \<Rightarrow> prog" where
  "ensureFreshSession opts = Get (\<lambda>c.
     (case st_session (cl_state c) of
        None \<Rightarrow> finished
      | Some session \<Rightarrow>
          if \<not> cl_started c \<or> cl_destroyed c then finished
          else if op_renewalLeadMs opts < ps_expiresAt session - cl_now c then finished
          else awaiting (renewSession opts) (\<lambda>_. finished)))"

definition runAuthenticated :: "'k::linorder client_options \<Rightarrow> prog \<Rightarrow> prog" where
  "runAuthenticated opts command =
     awaiting (ensureFreshSession opts) (\<lambda>_.
       attempt command (\<lambda>e.
         if \<not> isAuthenticationError e then Throw e
         else awaiting (renewSession opts) (\<lambda>_. command)))"

definition runCommand :: "'k::linorder client_options \<Rightarrow> prog \<Rightarrow> prog" where
  "runCommand opts command =
     attempt (runAuthenticated opts command) (\<lambda>e. Update (raiseError opts e) (Throw e))"

subsection \<open>Conversations and their stream\<close>

text \<open>\<open>openStream()\<close>, with the first part of \<open>streamEvents\<close>.\<close>

definition open_stream :: "'k::linorder client_options \<Rightarrow> prog \<Rightarrow> prog" where
  "open_stream opts p = Open (ensureFreshSession opts) p"

definition stream_closed ::
  "'k::linorder client_options \<Rightarrow> nat \<Rightarrow> transport_failure option \<Rightarrow> prog" where
  "stream_closed opts n cause = Update (\<lambda>c. if aborted n c then c else scheduleReconnect opts cause c) finished"

text \<open>The rest of \<open>streamEvents\<close> once the session is fresh, and what \<open>openStream\<close> does when it ends.\<close>

definition streamEvents :: "'k::linorder client_options \<Rightarrow> nat \<Rightarrow> ident \<Rightarrow> ident option \<Rightarrow> prog" where
  "streamEvents opts n conversationId lastEventId =
     attempt (and_do
       (attempt (await_call (Call_stream n conversationId lastEventId)) (\<lambda>e. Get (\<lambda>c.
          if \<not> aborted n c \<and> isAuthenticationError e
          then awaiting (renewSession opts) (\<lambda>_. Get (\<lambda>c.
            if aborted n c then finished else open_stream opts finished))
          else Throw e)))
       (\<lambda>_. stream_closed opts n None))
     (\<lambda>e. stream_closed opts n (Some e))"

definition fetch_snapshot :: "'k::linorder client_options \<Rightarrow> ident \<Rightarrow> (conversation \<Rightarrow> message list \<Rightarrow> prog) \<Rightarrow> prog" where
  "fetch_snapshot opts conversationId f =
     Both (runAuthenticated opts (await_call (Call_conversation conversationId)))
       (runAuthenticated opts (await_call (Call_messages conversationId)))
       (\<lambda>r. case r of
          Inl e \<Rightarrow> Throw e
        | Inr (R_conversation conversation, R_messages snapshot) \<Rightarrow> f conversation snapshot
        | _ \<Rightarrow> unexpected)"

definition loadConversation :: "'k::linorder client_options \<Rightarrow> ident \<Rightarrow> prog" where
  "loadConversation opts conversationId =
     fetch_snapshot opts conversationId (\<lambda>conversation snapshot.
       Update (\<lambda>c. case st_conversation (cl_state c) of
           None \<Rightarrow> c
         | Some shown_conversation \<Rightarrow>
             if co_conversationId shown_conversation \<noteq> conversationId then dispatch opts Conversation_cleared c
             else c)
         (Update (\<lambda>c. dispatch opts (Snapshot_loaded conversation snapshot)
              (c\<lparr>cl_persisted := (cl_persisted c)\<lparr>pe_conversationId := Some conversationId\<rparr>\<rparr>))
           (awaiting persist (\<lambda>_. open_stream opts finished))))"

definition load_persisted :: "'k::linorder client_options \<Rightarrow> prog" where
  "load_persisted opts = Get (\<lambda>c. case truthy (pe_conversationId (cl_persisted c)) of
     None \<Rightarrow> finished | Some conversationId \<Rightarrow> awaiting (loadConversation opts conversationId) (\<lambda>_. finished))"

definition synchronize :: "'k::linorder client_options \<Rightarrow> prog" where
  "synchronize opts = Get (\<lambda>c. case truthy (pe_conversationId (cl_persisted c)) of
     None \<Rightarrow> finished
   | Some conversationId \<Rightarrow>
       fetch_snapshot opts conversationId (\<lambda>conversation snapshot.
         Update (dispatch opts (Snapshot_loaded conversation snapshot)) finished))"

definition needs_snapshot :: "event_data \<Rightarrow> bool" where
  "needs_snapshot d = (case d of MessageCompleted _ \<Rightarrow> True | RunFailed _ \<Rightarrow> True | _ \<Rightarrow> False)"

definition handleEvent :: "'k::linorder client_options \<Rightarrow> conversation_event \<Rightarrow> prog" where
  "handleEvent opts event =
     (if ev_data event = SyncRequired then
        Update (\<lambda>c. dispatch opts Live_cleared (dispatch opts Cursor_cleared
            (c\<lparr>cl_persisted := withoutCursor (cl_persisted c)\<rparr>)))
          (awaiting (synchronize opts) (\<lambda>_. awaiting persist (\<lambda>_.
             Update abort_stream (open_stream opts finished))))
      else
        Update (\<lambda>c. (dispatch opts (Event_received event) c)\<lparr>cl_persisted := (cl_persisted c)
            \<lparr>pe_lastEventId := Some (ev_eventId event), pe_lastEventSequence := Some (ev_sequence event)\<rparr>\<rparr>)
          (let rest = awaiting persist (\<lambda>_. Update (\<lambda>c. c\<lparr>cl_reconnectAttempt := 0\<rparr>) finished)
           in if needs_snapshot (ev_data event) then awaiting (synchronize opts) (\<lambda>_. rest) else rest))"

text \<open>Another tab has stored \<open>next\<close>.\<close>

definition applyExternalState :: "'k::linorder client_options \<Rightarrow> persisted \<Rightarrow> prog" where
  "applyExternalState opts stored = Get (\<lambda>c.
     let conversationChanged = (pe_conversationId stored \<noteq> pe_conversationId (cl_persisted c));
         cursorChanged = (pe_lastEventId stored \<noteq> pe_lastEventId (cl_persisted c))
     in Update (\<lambda>c. c\<lparr>cl_persisted := stored\<rparr>) (Get (\<lambda>c.
          if st_session (cl_state c) = None then finished
          else if conversationChanged then
            (case truthy (pe_conversationId stored) of
               Some conversationId \<Rightarrow> awaiting (loadConversation opts conversationId) (\<lambda>_. finished)
             | None \<Rightarrow> Update (\<lambda>c. dispatch opts Conversation_cleared (abort_stream c)) finished)
          else if cursorChanged \<and> truthy (pe_conversationId stored) \<noteq> None then
            awaiting (synchronize opts) (\<lambda>_. Update (\<lambda>c. case truthy (pe_lastEventId stored) of
                None \<Rightarrow> c
              | Some eventId \<Rightarrow> dispatch opts (Cursor_restored eventId
                  (case pe_lastEventSequence stored of
                     Some n \<Rightarrow> n | None \<Rightarrow> st_lastSequence (cl_state c))) c) finished)
          else finished)))"

definition recoverActiveSession :: "'k::linorder client_options \<Rightarrow> prog" where
  "recoverActiveSession opts =
     awaiting (ensureFreshSession opts) (\<lambda>_. Get (\<lambda>c.
       if \<not> cl_destroyed c \<and> st_conversation (cl_state c) \<noteq> None then open_stream opts finished else finished))"

text \<open>\<open>.catch(raiseError)\<close>\<close>

definition catching :: "'k::linorder client_options \<Rightarrow> prog \<Rightarrow> prog" where
  "catching opts p = attempt p (\<lambda>e. Update (raiseError opts e) finished)"

definition timer_fired :: "'k::linorder client_options \<Rightarrow> timer \<Rightarrow> prog" where
  "timer_fired opts t = (case t of
     Reconnect_timer \<Rightarrow> open_stream opts finished
   | Renewal_timer \<Rightarrow> catching opts (renewSession opts))"

end
