(* ===== verification/BrowserClient.thy ===== *)
theory BrowserClient
  imports ClientPrograms
begin

text \<open>
  The browser client at work (\<open>packages/browser-client/src/client.ts\<close>): the commands of its interface,
  and the event loop that runs the programs of theory \<open>ClientPrograms\<close>. A client with the tasks under way is
  a \<open>world\<close>; the relation \<open>client_step\<close> has one rule for each thing that can happen next, in whatever order
  the user, the server, the storage, the clock and the timers make it happen.
\<close>

subsection \<open>Running a program until it waits\<close>

datatype role =
    User_task
  | Orphan_task
  | External_task
  | Renewal_task nat
  | Opening_task nat ident "ident option"
  | Stream_task nat

type_synonym spawned = "(role \<times> prog) list"

text \<open>\<open>Promise.all\<close> rejects with the first rejection; the other promise goes on by itself.\<close>

definition joined :: "prog \<Rightarrow> prog \<Rightarrow> (transport_failure + reply \<times> reply) option" where
  "joined p q = (case p of
     Throw e \<Rightarrow> Some (Inl e)
   | Return v \<Rightarrow> (case q of Throw e \<Rightarrow> Some (Inl e) | Return w \<Rightarrow> Some (Inr (v, w)) | _ \<Rightarrow> None)
   | _ \<Rightarrow> (case q of Throw e \<Rightarrow> Some (Inl e) | _ \<Rightarrow> None))"

definition is_over :: "prog \<Rightarrow> bool" where
  "is_over p \<longleftrightarrow> (case p of Return _ \<Rightarrow> True | Throw _ \<Rightarrow> True | _ \<Rightarrow> False)"

definition orphans :: "prog \<Rightarrow> prog \<Rightarrow> spawned" where
  "orphans p q = map (Pair Orphan_task) (filter (\<lambda>x. \<not> is_over x) [p, q])"

primrec run :: "prog \<Rightarrow> client \<Rightarrow> prog \<times> spawned \<times> client" where
  "run (Return v) c = (Return v, [], c)"
| "run (Throw e) c = (Throw e, [], c)"
| "run (Get g) c = run (g c) c"
| "run (Update u p) c = run p (u c)"
| "run (Await q k) c = (Await q k, [], c)"
| "run (Both a b k) c =
     (let (a', s1, c1) = run a c; (b', s2, c2) = run b c1
      in (case joined a' b' of
            None \<Rightarrow> (Both a' b' k, s1 @ s2, c2)
          | Some r \<Rightarrow> let (p, s3, c3) = run (k r) c2 in (p, s1 @ s2 @ orphans a' b' @ s3, c3)))"
| "run (Open s p) c =
     (case openStream c of
        (c1, None) \<Rightarrow> run p c1
      | (c1, Some (n, conversationId, lastEventId)) \<Rightarrow>
          let (s', s1, c2) = run s c1; (p', s2, c3) = run p c2
          in (p', (Opening_task n conversationId lastEventId, s') # s1 @ s2, c3))"
| "run (Renew s k) c =
     (case cl_renewalPromise c of
        Some n \<Rightarrow> run (k n) c
      | None \<Rightarrow>
          let n = cl_renewals c;
              (s', s1, c1) = run s (c\<lparr>cl_renewals := Suc n, cl_renewalPromise := Some n\<rparr>);
              (p', s2, c2) = run (k n) c1
          in (p', (Renewal_task n, s') # s1 @ s2, c2))"

text \<open>The call a program waits for; inside \<open>Both\<close>, the path says which of the two is meant.\<close>

primrec waits_for :: "prog \<Rightarrow> bool list \<Rightarrow> call option" where
  "waits_for (Return v) path = None"
| "waits_for (Throw e) path = None"
| "waits_for (Get g) path = None"
| "waits_for (Update u p) path = None"
| "waits_for (Await q k) path = (if path = [] then Some q else None)"
| "waits_for (Both a b k) path =
     (case path of [] \<Rightarrow> None | first # rest \<Rightarrow> if first then waits_for a rest else waits_for b rest)"
| "waits_for (Open s p) path = None"
| "waits_for (Renew s k) path = None"

definition rejoin ::
  "(transport_failure + reply \<times> reply \<Rightarrow> prog) \<Rightarrow> prog \<times> spawned \<times> client \<Rightarrow> (prog \<Rightarrow> prog \<times> prog)
    \<Rightarrow> prog \<times> spawned \<times> client" where
  "rejoin k result pair =
     (let (x, s1, c1) = result; (a, b) = pair x
      in (case joined a b of
            None \<Rightarrow> (Both a b k, s1, c1)
          | Some r \<Rightarrow> let (p, s2, c2) = run (k r) c1 in (p, s1 @ orphans a b @ s2, c2)))"

text \<open>The answer arrives: the program runs on until it waits again.\<close>

primrec answer :: "prog \<Rightarrow> bool list \<Rightarrow> outcome \<Rightarrow> client \<Rightarrow> prog \<times> spawned \<times> client" where
  "answer (Return v) path r c = (Return v, [], c)"
| "answer (Throw e) path r c = (Throw e, [], c)"
| "answer (Get g) path r c = (Get g, [], c)"
| "answer (Update u p) path r c = (Update u p, [], c)"
| "answer (Await q k) path r c = run (k r) c"
| "answer (Both a b k) path r c =
     (if hd path then rejoin k (answer a (tl path) r c) (\<lambda>x. (x, b))
      else rejoin k (answer b (tl path) r c) (\<lambda>x. (a, x)))"
| "answer (Open s p) path r c = (Open s p, [], c)"
| "answer (Renew s k) path r c = (Renew s k, [], c)"

subsection \<open>The commands\<close>

datatype user_command =
    Start
  | Create_conversation
  | Select_conversation ident
  | Send_message "string list"
  | Create_handoff string
  | Submit_input ident input_answer
  | Cancel_run
  | Retry_run
  | Retry

definition not_started :: transport_failure where
  "not_started = Other_failure ''Start the chat client before using it.''"

definition no_conversation :: transport_failure where
  "no_conversation = Other_failure ''Select or create a conversation first.''"

definition requireStarted :: "prog \<Rightarrow> prog" where
  "requireStarted p =
     Get (\<lambda>c. if \<not> cl_started c \<or> st_session (cl_state c) = None then Throw not_started else p)"

definition client_requireConversation :: "(conversation \<Rightarrow> prog) \<Rightarrow> prog" where
  "client_requireConversation f = requireStarted (Get (\<lambda>c. case st_conversation (cl_state c) of
     None \<Rightarrow> Throw no_conversation | Some conversation \<Rightarrow> f conversation))"

definition start :: "'k::linorder client_options \<Rightarrow> prog" where
  "start opts = Get (\<lambda>c.
     if cl_started c then finished
     else Update (\<lambda>c. dispatch opts (Phase_changed Phase_bootstrapping) (c\<lparr>cl_started := True\<rparr>))
       (attempt
         (and_do (await_call Load_state) (\<lambda>v. case v of
            R_persisted stored \<Rightarrow>
              Update (\<lambda>c. c\<lparr>cl_persisted := (case stored of Some s \<Rightarrow> s | None \<Rightarrow> fresh_persisted)\<rparr>)
                (awaiting (create_id (bootstrapSession opts)) (\<lambda>_.
                   Update (\<lambda>c. case truthy (pe_lastEventId (cl_persisted c)) of
                       None \<Rightarrow> c
                     | Some eventId \<Rightarrow> dispatch opts (Cursor_restored eventId
                         (case pe_lastEventSequence (cl_persisted c) of Some n \<Rightarrow> n | None \<Rightarrow> 0)) c)
                     (awaiting persist (\<lambda>_. load_persisted opts))))
          | _ \<Rightarrow> unexpected))
         (\<lambda>e. Update (raiseError opts e) (Throw e))))"

definition createConversation :: "'k::linorder client_options \<Rightarrow> prog" where
  "createConversation opts = requireStarted (create_id (\<lambda>key.
     awaiting (runCommand opts (await_call (Call_create key))) (\<lambda>v. case v of
       R_conversation conversation \<Rightarrow>
         Update (\<lambda>c. if map_option co_conversationId (st_conversation (cl_state c))
               \<noteq> Some (co_conversationId conversation)
             then dispatch opts Conversation_cleared c else c)
           (Update (\<lambda>c. dispatch opts (Snapshot_loaded conversation []) (dispatch opts Cursor_cleared
               (c\<lparr>cl_persisted := (withoutCursor (cl_persisted c))
                    \<lparr>pe_conversationId := Some (co_conversationId conversation)\<rparr>\<rparr>)))
             (awaiting persist (\<lambda>_. open_stream opts (Return (R_conversation conversation)))))
     | _ \<Rightarrow> unexpected)))"

definition selectConversation :: "'k::linorder client_options \<Rightarrow> ident \<Rightarrow> prog" where
  "selectConversation opts conversationId = requireStarted
     (Update (\<lambda>c. if pe_conversationId (cl_persisted c) \<noteq> Some conversationId
          then dispatch opts Cursor_cleared (c\<lparr>cl_persisted := (withoutCursor (cl_persisted c))
              \<lparr>pe_conversationId := Some conversationId\<rparr>\<rparr>)
          else c)
       (awaiting (loadConversation opts conversationId) (\<lambda>_. finished)))"

definition sendMessage :: "'k::linorder client_options \<Rightarrow> string list \<Rightarrow> prog" where
  "sendMessage opts texts = client_requireConversation (\<lambda>conversation. create_id (\<lambda>key.
     awaiting (runCommand opts (await_call (Call_submit (co_conversationId conversation) texts key)))
       (\<lambda>v. case v of
          R_message message \<Rightarrow>
            Update (dispatch opts (Message_submitted message)) (open_stream opts (Return (R_message message)))
        | _ \<Rightarrow> unexpected)))"

definition createEmailHandoff :: "'k::linorder client_options \<Rightarrow> string \<Rightarrow> prog" where
  "createEmailHandoff opts email = client_requireConversation (\<lambda>conversation. create_id (\<lambda>key.
     awaiting (runCommand opts (await_call (Call_handoff (co_conversationId conversation) email key)))
       (\<lambda>v. open_stream opts (Return v))))"

definition cancel_prog :: "'k::linorder client_options \<Rightarrow> prog" where
  "cancel_prog opts = client_requireConversation (\<lambda>conversation. create_id (\<lambda>key.
     awaiting (runCommand opts (await_call (Call_cancel (co_conversationId conversation) key)))
       (\<lambda>v. case v of
          R_cancelled response \<Rightarrow>
            Update (dispatch opts (Run_cancelled_by_user (cx_runId response)
                (cx_cancellationStatus response = Cancel_requested))) (Return (R_cancelled response))
        | _ \<Rightarrow> unexpected)))"

definition inactive_input :: transport_failure where
  "inactive_input = Other_failure ''The structured input request is not active.''"

definition submitStructuredInput :: "'k::linorder client_options \<Rightarrow> ident \<Rightarrow> input_answer \<Rightarrow> prog" where
  "submitStructuredInput opts requestId request = client_requireConversation (\<lambda>conversation. Get (\<lambda>c.
     if map_option cr_requestId (st_contact (cl_state c)) \<noteq> Some requestId then Throw inactive_input
     else create_id (\<lambda>key.
       awaiting (runCommand opts
           (await_call (Call_input (co_conversationId conversation) requestId request key)))
         (\<lambda>v. Update (dispatch opts (Structured_input_submitted requestId)) (open_stream opts (Return v))))))"

definition retryRun :: "'k::linorder client_options \<Rightarrow> prog" where
  "retryRun opts = client_requireConversation (\<lambda>conversation. create_id (\<lambda>key.
     awaiting (runCommand opts (await_call (Call_retry (co_conversationId conversation) key)))
       (\<lambda>_. Update (dispatch opts Run_retrying) (open_stream opts finished))))"

definition not_started_retry :: transport_failure where
  "not_started_retry = Other_failure ''Start the chat client before retrying it.''"

definition retry :: "'k::linorder client_options \<Rightarrow> prog" where
  "retry opts = Get (\<lambda>c.
     if \<not> cl_started c then Throw not_started_retry
     else Update (\<lambda>c. dispatch opts (Phase_changed Phase_bootstrapping) (abort_stream c))
       (awaiting (runCommand opts (renewSession opts)) (\<lambda>_. load_persisted opts)))"

fun command_prog :: "'k::linorder client_options \<Rightarrow> user_command \<Rightarrow> prog" where
  "command_prog opts Start = start opts"
| "command_prog opts Create_conversation = createConversation opts"
| "command_prog opts (Select_conversation cid) = selectConversation opts cid"
| "command_prog opts (Send_message texts) = sendMessage opts texts"
| "command_prog opts (Create_handoff email) = createEmailHandoff opts email"
| "command_prog opts (Submit_input rid request) = submitStructuredInput opts rid request"
| "command_prog opts Cancel_run = cancel_prog opts"
| "command_prog opts Retry_run = retryRun opts"
| "command_prog opts Retry = retry opts"

definition destroy :: "client \<Rightarrow> client" where
  "destroy c = (let c1 = abort_stream (c\<lparr>cl_destroyed := True\<rparr>)
     in clearTimer (cl_renewalTimer c1) (clearTimer (cl_reconnectTimer c1) c1))"

subsection \<open>The world\<close>

text \<open>
  A task is a program under way. A task that reads an event stream also has the events that have
  arrived and, while \<open>onEvent\<close> has not returned, the program handling one of them.
\<close>

record task =
  ts_role :: role
  ts_prog :: prog
  ts_buffer :: "conversation_event list"
  ts_handler :: "prog option"

record world =
  w_client :: client
  w_tasks :: "task list"
  w_settled :: "(nat \<times> outcome) list"
  w_external :: "persisted list"

definition new_world :: "js_date \<Rightarrow> world" where
  "new_world now = \<lparr>w_client = new_client now, w_tasks = [], w_settled = [], w_external = []\<rparr>"

definition new_task :: "role \<times> prog \<Rightarrow> task" where
  "new_task rp = \<lparr>ts_role = fst rp, ts_prog = snd rp, ts_buffer = [], ts_handler = None\<rparr>"

text \<open>
  What follows when a task's program has come to its end: a fresh session lets the stream be opened, a
  renewal that is over is forgotten by the client, and its outcome is there for those who wait for it.
\<close>

definition follow_up :: "'k::linorder client_options \<Rightarrow> role \<times> prog \<Rightarrow> role \<times> prog" where
  "follow_up opts rp = (case rp of
     (Opening_task n conversationId lastEventId, Return _) \<Rightarrow>
       (Stream_task n, Await Pause (\<lambda>_. streamEvents opts n conversationId lastEventId))
   | (Opening_task n _ _, Throw e) \<Rightarrow> (Stream_task n, Await Pause (\<lambda>_. stream_closed opts n (Some e)))
   | _ \<Rightarrow> rp)"

fun renewal_outcome :: "role \<times> prog \<Rightarrow> (nat \<times> outcome) option" where
  "renewal_outcome (Renewal_task n, Return v) = Some (n, Inr v)"
| "renewal_outcome (Renewal_task n, Throw e) = Some (n, Inl e)"
| "renewal_outcome _ = None"

definition settle :: "role \<times> prog \<Rightarrow> world \<Rightarrow> world" where
  "settle rp w = (case renewal_outcome rp of
     None \<Rightarrow> w
   | Some past \<Rightarrow> w\<lparr>w_settled := past # w_settled w,
       w_client := (w_client w)\<lparr>cl_renewalPromise := None\<rparr>\<rparr>)"

definition add_task :: "'k::linorder client_options \<Rightarrow> role \<times> prog \<Rightarrow> world \<Rightarrow> world" where
  "add_task opts rp w = settle rp (w\<lparr>w_tasks := w_tasks w @ [new_task (follow_up opts rp)]\<rparr>)"

text \<open>A task that is new, and one that has run on.\<close>

definition launch :: "'k::linorder client_options \<Rightarrow> role \<Rightarrow> prog \<Rightarrow> world \<Rightarrow> world" where
  "launch opts ro p w =
     (let (p', spawned, c) = run p (w_client w)
      in fold (add_task opts) ((ro, p') # spawned) (w\<lparr>w_client := c\<rparr>))"

definition resume ::
  "'k::linorder client_options \<Rightarrow> nat \<Rightarrow> (prog \<Rightarrow> task \<Rightarrow> task) \<Rightarrow> prog \<times> spawned \<times> client \<Rightarrow> world \<Rightarrow> world" where
  "resume opts i put result w =
     (let (p, spawned, c) = result
      in fold (add_task opts) spawned
           (w\<lparr>w_client := c, w_tasks := (w_tasks w)[i := put p (w_tasks w ! i)]\<rparr>))"

definition advance :: "'k::linorder client_options \<Rightarrow> prog \<Rightarrow> task \<Rightarrow> task" where
  "advance opts p t = t\<lparr>ts_role := fst (follow_up opts (ts_role t, p)),
     ts_prog := snd (follow_up opts (ts_role t, p))\<rparr>"

definition run_on :: "'k::linorder client_options \<Rightarrow> nat \<Rightarrow> prog \<times> spawned \<times> client \<Rightarrow> world \<Rightarrow> world" where
  "run_on opts i result w =
     settle (ts_role (w_tasks w ! i), fst result) (resume opts i (advance opts) result w)"

text \<open>A handler has run on: when it throws, the reader of the stream is done with the error.\<close>

definition handle_on :: "'k::linorder client_options \<Rightarrow> nat \<Rightarrow> prog \<times> spawned \<times> client \<Rightarrow> world \<Rightarrow> world" where
  "handle_on opts i result w =
     (case result of
        (Throw e, spawned, c) \<Rightarrow>
          (let w1 = resume opts i (\<lambda>_ t. t\<lparr>ts_handler := None, ts_buffer := []\<rparr>) result w
           in run_on opts i (answer (ts_prog (w_tasks w1 ! i)) [] (Inl e) (w_client w1)) w1)
      | (Return _, spawned, c) \<Rightarrow> resume opts i (\<lambda>_ t. t\<lparr>ts_handler := None\<rparr>) result w
      | _ \<Rightarrow> resume opts i (\<lambda>p t. t\<lparr>ts_handler := Some p\<rparr>) result w)"

text \<open>The answers the transport and the storage may give.\<close>

fun may_answer :: "(nat \<times> outcome) list \<Rightarrow> call \<Rightarrow> outcome \<Rightarrow> bool" where
  "may_answer past Pause r \<longleftrightarrow> r = Inr R_done"
| "may_answer past (Call_renewal n) r \<longleftrightarrow> (n, r) \<in> set past"
| "may_answer past (Call_stream n _ _) r \<longleftrightarrow> False"
| "may_answer past q (Inl e) \<longleftrightarrow> True"
| "may_answer past Load_state (Inr v) \<longleftrightarrow> (case v of R_persisted _ \<Rightarrow> True | _ \<Rightarrow> False)"
| "may_answer past (Save_state _) (Inr v) \<longleftrightarrow> v = R_done"
| "may_answer past (Call_bootstrap _ _) (Inr v) \<longleftrightarrow> (case v of R_bootstrap _ \<Rightarrow> True | _ \<Rightarrow> False)"
| "may_answer past (Call_create _) (Inr v) \<longleftrightarrow> (case v of R_conversation _ \<Rightarrow> True | _ \<Rightarrow> False)"
| "may_answer past (Call_conversation _) (Inr v) \<longleftrightarrow> (case v of R_conversation _ \<Rightarrow> True | _ \<Rightarrow> False)"
| "may_answer past (Call_messages _) (Inr v) \<longleftrightarrow> (case v of R_messages _ \<Rightarrow> True | _ \<Rightarrow> False)"
| "may_answer past (Call_submit _ _ _) (Inr v) \<longleftrightarrow> (case v of R_message _ \<Rightarrow> True | _ \<Rightarrow> False)"
| "may_answer past (Call_handoff _ _ _) (Inr v) \<longleftrightarrow> (case v of R_handoff _ \<Rightarrow> True | _ \<Rightarrow> False)"
| "may_answer past (Call_input _ _ _ _) (Inr v) \<longleftrightarrow> (case v of R_input _ \<Rightarrow> True | _ \<Rightarrow> False)"
| "may_answer past (Call_cancel _ _) (Inr v) \<longleftrightarrow> (case v of R_cancelled _ \<Rightarrow> True | _ \<Rightarrow> False)"
| "may_answer past (Call_retry _ _) (Inr v) \<longleftrightarrow> v = R_done"

definition reads_stream :: "task \<Rightarrow> nat option" where
  "reads_stream t = (case waits_for (ts_prog t) [] of Some (Call_stream n _ _) \<Rightarrow> Some n | _ \<Rightarrow> None)"

definition external_busy :: "world \<Rightarrow> bool" where
  "external_busy w \<longleftrightarrow> (\<exists>t \<in> set (w_tasks w). ts_role t = External_task \<and> \<not> is_over (ts_prog t))"

subsection \<open>What can happen\<close>

text \<open>
  \<open>Events_arrive\<close> is a chunk of the stream with whole events in it; once the controller is aborted
  nothing more arrives, but what has arrived is still handled. An event is handled when the one before
  it is done with.
\<close>

datatype move =
    Command_given user_command
  | Answered nat "bool list" outcome
  | Events_arrive nat "conversation_event list"
  | Event_taken nat
  | Handler_answered nat "bool list" outcome
  | Stream_over nat outcome
  | Timer_fires nat
  | Time_passes nat
  | Stored_elsewhere persisted
  | External_applied
  | Page_shown
  | Destroyed

inductive client_step :: "'k::linorder client_options \<Rightarrow> world \<Rightarrow> move \<Rightarrow> world \<Rightarrow> bool"
  for opts :: "'k client_options" where
  Command: "client_step opts w (Command_given cmd) (launch opts User_task (command_prog opts cmd) w)"
| Answer: "i < length (w_tasks w) \<Longrightarrow> waits_for (ts_prog (w_tasks w ! i)) path = Some q
    \<Longrightarrow> may_answer (w_settled w) q r
    \<Longrightarrow> client_step opts w (Answered i path r)
          (run_on opts i (answer (ts_prog (w_tasks w ! i)) path r (w_client w)) w)"
| Arrive: "i < length (w_tasks w) \<Longrightarrow> reads_stream (w_tasks w ! i) = Some n \<Longrightarrow> \<not> aborted n (w_client w)
    \<Longrightarrow> client_step opts w (Events_arrive i es)
          (w\<lparr>w_tasks := (w_tasks w)[i := (w_tasks w ! i)\<lparr>ts_buffer := ts_buffer (w_tasks w ! i) @ es\<rparr>]\<rparr>)"
| Handle: "i < length (w_tasks w) \<Longrightarrow> reads_stream (w_tasks w ! i) = Some n
    \<Longrightarrow> ts_handler (w_tasks w ! i) = None \<Longrightarrow> ts_buffer (w_tasks w ! i) = e # es
    \<Longrightarrow> client_step opts w (Event_taken i) (handle_on opts i (run (handleEvent opts e) (w_client w))
          (w\<lparr>w_tasks := (w_tasks w)[i := (w_tasks w ! i)\<lparr>ts_buffer := es\<rparr>]\<rparr>))"
| Handled: "i < length (w_tasks w) \<Longrightarrow> ts_handler (w_tasks w ! i) = Some p \<Longrightarrow> waits_for p path = Some q
    \<Longrightarrow> may_answer (w_settled w) q r
    \<Longrightarrow> client_step opts w (Handler_answered i path r) (handle_on opts i (answer p path r (w_client w)) w)"
| Over: "i < length (w_tasks w) \<Longrightarrow> reads_stream (w_tasks w ! i) = Some n
    \<Longrightarrow> ts_handler (w_tasks w ! i) = None \<Longrightarrow> ts_buffer (w_tasks w ! i) = []
    \<Longrightarrow> r = Inr R_done \<or> r = Inl e
    \<Longrightarrow> client_step opts w (Stream_over i r)
          (run_on opts i (answer (ts_prog (w_tasks w ! i)) [] r (w_client w)) w)"
| Timer: "map_of (cl_timers (w_client w)) t = Some (k, due) \<Longrightarrow> due \<le> cl_now (w_client w)
    \<Longrightarrow> client_step opts w (Timer_fires t)
          (launch opts User_task (timer_fired opts k) (w\<lparr>w_client := clearTimer (Some t) (w_client w)\<rparr>))"
| Time: "client_step opts w (Time_passes ms)
    (w\<lparr>w_client := (w_client w)\<lparr>cl_now := cl_now (w_client w) + int ms\<rparr>\<rparr>)"
| Stored: "client_step opts w (Stored_elsewhere stored)
    (if cl_destroyed (w_client w) \<or> cl_ignoreStorage (w_client w) then w
     else w\<lparr>w_external := w_external w @ [stored]\<rparr>)"
| External: "\<not> external_busy w \<Longrightarrow> w_external w = stored # rest
    \<Longrightarrow> client_step opts w External_applied
          (launch opts External_task (catching opts (applyExternalState opts stored)) (w\<lparr>w_external := rest\<rparr>))"
| Shown: "\<not> cl_destroyed (w_client w)
    \<Longrightarrow> client_step opts w Page_shown
          (launch opts User_task (catching opts (recoverActiveSession opts)) w)"
| Destroy: "client_step opts w Destroyed (w\<lparr>w_client := destroy (w_client w)\<rparr>)"

inductive_cases client_stepE: "client_step opts w m w'"

text \<open>The same as a function, to run examples with: every move has at most one outcome.\<close>

definition guarded :: "bool \<Rightarrow> world \<Rightarrow> world option" where
  "guarded allowed w = (if allowed then Some w else None)"

fun next_world :: "'k::linorder client_options \<Rightarrow> world \<Rightarrow> move \<Rightarrow> world option" where
  "next_world opts w (Command_given cmd) = Some (launch opts User_task (command_prog opts cmd) w)"
| "next_world opts w (Answered i path r) =
     (if \<not> i < length (w_tasks w) then None
      else case waits_for (ts_prog (w_tasks w ! i)) path of
          None \<Rightarrow> None
        | Some q \<Rightarrow> guarded (may_answer (w_settled w) q r)
            (run_on opts i (answer (ts_prog (w_tasks w ! i)) path r (w_client w)) w))"
| "next_world opts w (Events_arrive i es) =
     (if \<not> i < length (w_tasks w) then None
      else case reads_stream (w_tasks w ! i) of
          None \<Rightarrow> None
        | Some n \<Rightarrow> guarded (\<not> aborted n (w_client w))
            (w\<lparr>w_tasks := (w_tasks w)[i := (w_tasks w ! i)\<lparr>ts_buffer := ts_buffer (w_tasks w ! i) @ es\<rparr>]\<rparr>))"
| "next_world opts w (Event_taken i) =
     (if \<not> i < length (w_tasks w) \<or> reads_stream (w_tasks w ! i) = None \<or> ts_handler (w_tasks w ! i) \<noteq> None
      then None
      else case ts_buffer (w_tasks w ! i) of
          [] \<Rightarrow> None
        | e # es \<Rightarrow> Some (handle_on opts i (run (handleEvent opts e) (w_client w))
            (w\<lparr>w_tasks := (w_tasks w)[i := (w_tasks w ! i)\<lparr>ts_buffer := es\<rparr>]\<rparr>)))"
| "next_world opts w (Handler_answered i path r) =
     (if \<not> i < length (w_tasks w) then None
      else case ts_handler (w_tasks w ! i) of
          None \<Rightarrow> None
        | Some p \<Rightarrow> (case waits_for p path of
              None \<Rightarrow> None
            | Some q \<Rightarrow> guarded (may_answer (w_settled w) q r) (handle_on opts i (answer p path r (w_client w)) w)))"
| "next_world opts w (Stream_over i r) =
     guarded (i < length (w_tasks w) \<and> reads_stream (w_tasks w ! i) \<noteq> None \<and> ts_handler (w_tasks w ! i) = None
         \<and> ts_buffer (w_tasks w ! i) = [] \<and> (case r of Inr v \<Rightarrow> v = R_done | Inl e \<Rightarrow> True))
       (run_on opts i (answer (ts_prog (w_tasks w ! i)) [] r (w_client w)) w)"
| "next_world opts w (Timer_fires t) =
     (case map_of (cl_timers (w_client w)) t of
        None \<Rightarrow> None
      | Some (k, due) \<Rightarrow> guarded (due \<le> cl_now (w_client w))
          (launch opts User_task (timer_fired opts k) (w\<lparr>w_client := clearTimer (Some t) (w_client w)\<rparr>)))"
| "next_world opts w (Time_passes ms) =
     Some (w\<lparr>w_client := (w_client w)\<lparr>cl_now := cl_now (w_client w) + int ms\<rparr>\<rparr>)"
| "next_world opts w (Stored_elsewhere stored) =
     Some (if cl_destroyed (w_client w) \<or> cl_ignoreStorage (w_client w) then w
           else w\<lparr>w_external := w_external w @ [stored]\<rparr>)"
| "next_world opts w External_applied =
     (case w_external w of
        [] \<Rightarrow> None
      | stored # rest \<Rightarrow> guarded (\<not> external_busy w)
          (launch opts External_task (catching opts (applyExternalState opts stored)) (w\<lparr>w_external := rest\<rparr>)))"
| "next_world opts w Page_shown =
     guarded (\<not> cl_destroyed (w_client w)) (launch opts User_task (catching opts (recoverActiveSession opts)) w)"
| "next_world opts w Destroyed = Some (w\<lparr>w_client := destroy (w_client w)\<rparr>)"

lemma client_step_next: "client_step opts w m w' \<longleftrightarrow> next_world opts w m = Some w'"
proof
  assume "client_step opts w m w'"
  then show "next_world opts w m = Some w'" by cases (auto simp: guarded_def)
next
  assume "next_world opts w m = Some w'"
  then show "client_step opts w m w'"
    using client_step.Stored [of opts w]
    by (cases m) (auto simp: guarded_def intro: client_step.intros
      split: if_splits option.splits list.splits prod.splits sum.splits)
qed

text \<open>The worlds a sequence of moves leads to.\<close>

inductive moves :: "'k::linorder client_options \<Rightarrow> world \<Rightarrow> move list \<Rightarrow> world \<Rightarrow> bool"
  for opts :: "'k client_options" where
  No_move: "moves opts w [] w"
| One_move: "client_step opts w m w1 \<Longrightarrow> moves opts w1 ms w2 \<Longrightarrow> moves opts w (m # ms) w2"

inductive_cases movesE: "moves opts w ms w'"

subsection \<open>What an update may touch\<close>

text \<open>
  Apart from \<open>openStream\<close>, \<open>renewSession\<close> and the event loop itself, nothing in the client changes which
  stream is the current one or whether a renewal is under way; a stream can only be aborted.
\<close>

named_theorems tame_intros

text \<open>The fields of the current stream and of the renewal.\<close>

definition frame :: "client \<Rightarrow> bool \<times> nat option \<times> nat \<times> nat option \<times> nat" where
  "frame c = (cl_destroyed c, cl_streamAbort c, cl_controllers c, cl_renewalPromise c, cl_renewals c)"

definition calm :: "(client \<Rightarrow> client) \<Rightarrow> bool" where
  "calm u \<longleftrightarrow> (\<forall>c. frame (u c) = frame c \<and> set (cl_aborted c) \<subseteq> set (cl_aborted (u c)))"

primrec tame :: "prog \<Rightarrow> bool" where
  "tame (Return v) \<longleftrightarrow> True"
| "tame (Throw e) \<longleftrightarrow> True"
| "tame (Get g) \<longleftrightarrow> (\<forall>c. tame (g c))"
| "tame (Update u p) \<longleftrightarrow> calm u \<and> tame p"
| "tame (Await q k) \<longleftrightarrow> (\<forall>r. tame (k r))"
| "tame (Both a b k) \<longleftrightarrow> tame a \<and> tame b \<and> (\<forall>r. tame (k r))"
| "tame (Open s p) \<longleftrightarrow> tame s \<and> tame p"
| "tame (Renew s k) \<longleftrightarrow> tame s \<and> (\<forall>n. tame (k n))"

lemma frame_fields [simp]:
  "frame (c\<lparr>cl_state := st\<rparr>) = frame c" "frame (c\<lparr>cl_persisted := pe\<rparr>) = frame c"
  "frame (c\<lparr>cl_ignoreStorage := b\<rparr>) = frame c" "frame (c\<lparr>cl_started := b\<rparr>) = frame c"
  "frame (c\<lparr>cl_reconnectAttempt := n\<rparr>) = frame c" "frame (c\<lparr>cl_ids := n\<rparr>) = frame c"
  "frame (c\<lparr>cl_timers := ts\<rparr>) = frame c" "frame (c\<lparr>cl_timerIds := n\<rparr>) = frame c"
  "frame (c\<lparr>cl_reconnectTimer := t\<rparr>) = frame c" "frame (c\<lparr>cl_renewalTimer := t\<rparr>) = frame c"
  "frame (c\<lparr>cl_aborted := ns\<rparr>) = frame c" "frame (c\<lparr>cl_now := now\<rparr>) = frame c"
  by (simp_all add: frame_def)

lemma frame_helpers [simp]:
  "frame (dispatch opts a c) = frame c" "cl_aborted (dispatch opts a c) = cl_aborted c"
  "frame (raiseError opts e c) = frame c" "cl_aborted (raiseError opts e c) = cl_aborted c"
  "frame (clearTimer t c) = frame c" "cl_aborted (clearTimer t c) = cl_aborted c"
  "frame (setTimer k delay c) = frame c" "cl_aborted (setTimer k delay c) = cl_aborted c"
  "frame (scheduleReconnect opts cause c) = frame c"
  "cl_aborted (scheduleReconnect opts cause c) = cl_aborted c"
  "frame (scheduleRenewal opts session c) = frame c" "cl_aborted (scheduleRenewal opts session c) = cl_aborted c"
  "frame (abort_stream c) = frame c"
  by (simp_all add: dispatch_def raiseError_def clearTimer_def setTimer_def scheduleReconnect_def
      scheduleRenewal_def abort_stream_def Let_def split: option.split)

lemma abort_grows [simp]: "set (cl_aborted c) \<subseteq> set (cl_aborted (abort_stream c))"
  by (auto simp: abort_stream_def split: option.split)

lemma tame_and_do [tame_intros]: "tame p \<Longrightarrow> (\<And>v. tame (f v)) \<Longrightarrow> tame (and_do p f)"
  by (induction p) auto

lemma tame_attempt [tame_intros]: "tame p \<Longrightarrow> (\<And>e. tame (h e)) \<Longrightarrow> tame (attempt p h)"
  by (induction p) auto

lemma tame_give [simp]: "tame (give r)"
  by (cases r) simp_all

lemma tame_awaiting [tame_intros]: "tame p \<Longrightarrow> (\<And>v. tame (f v)) \<Longrightarrow> tame (awaiting p f)"
  by (simp add: awaiting_def tame_and_do)

lemma tame_basic [simp]: "tame (await_call q)" "tame unexpected" "tame persist"
  by (simp_all add: await_call_def unexpected_def persist_def calm_def)

lemma tame_create_id [tame_intros]: "(\<And>n. tame (f n)) \<Longrightarrow> tame (create_id f)"
  by (simp add: create_id_def calm_def)

lemma tame_bootstrapSession [simp]: "tame (bootstrapSession opts key)"
  by (auto simp: bootstrapSession_def calm_def split: reply.split option.split intro!: tame_intros)

lemma tame_renewSession [simp]: "tame (renewSession opts)"
  by (simp add: renewSession_def tame_create_id)

lemma tame_ensureFreshSession [simp]: "tame (ensureFreshSession opts)"
  by (auto simp: ensureFreshSession_def split: option.split intro!: tame_intros)

lemma tame_runAuthenticated [tame_intros]: "tame p \<Longrightarrow> tame (runAuthenticated opts p)"
  by (auto simp: runAuthenticated_def intro!: tame_intros)

lemma tame_runCommand [tame_intros]: "tame p \<Longrightarrow> tame (runCommand opts p)"
  by (auto simp: runCommand_def calm_def intro!: tame_intros)

lemma tame_open_stream [simp]: "tame (open_stream opts p) = tame p"
  by (simp add: open_stream_def)

lemma tame_stream_closed [simp]: "tame (stream_closed opts n cause)"
  by (simp add: stream_closed_def calm_def)

lemma tame_streamEvents [simp]: "tame (streamEvents opts n cid lastId)"
  by (auto simp: streamEvents_def intro!: tame_intros)

lemma tame_fetch_snapshot [tame_intros]: "(\<And>c ms. tame (f c ms)) \<Longrightarrow> tame (fetch_snapshot opts cid f)"
  by (auto simp: fetch_snapshot_def split: sum.split prod.split reply.split intro!: tame_intros)

lemma tame_loadConversation [simp]: "tame (loadConversation opts cid)"
  by (auto simp: loadConversation_def calm_def split: option.split intro!: tame_intros)

lemma tame_load_persisted [simp]: "tame (load_persisted opts)"
  by (auto simp: load_persisted_def split: option.split intro!: tame_intros)

lemma tame_synchronize [simp]: "tame (synchronize opts)"
  by (auto simp: synchronize_def calm_def split: option.split intro!: tame_intros)

lemma tame_handleEvent [simp]: "tame (handleEvent opts e)"
  by (auto simp: handleEvent_def calm_def Let_def intro!: tame_intros)

lemma tame_applyExternalState [simp]: "tame (applyExternalState opts stored)"
  by (auto simp: applyExternalState_def calm_def Let_def split: option.split intro!: tame_intros)

lemma tame_recoverActiveSession [simp]: "tame (recoverActiveSession opts)"
  by (auto simp: recoverActiveSession_def intro!: tame_intros)

lemma tame_catching [tame_intros]: "tame p \<Longrightarrow> tame (catching opts p)"
  by (auto simp: catching_def calm_def intro!: tame_intros)

lemma tame_timer_fired [simp]: "tame (timer_fired opts k)"
  by (auto simp: timer_fired_def split: timer.split intro!: tame_intros)

lemma tame_require [tame_intros]:
  "tame p \<Longrightarrow> tame (requireStarted p)" "(\<And>c. tame (f c)) \<Longrightarrow> tame (client_requireConversation f)"
  by (auto simp: requireStarted_def client_requireConversation_def split: option.split)

lemma tame_command_prog [simp]: "tame (command_prog opts cmd)"
proof (cases cmd)
  case Start
  then show ?thesis
    by (auto simp: start_def calm_def split: option.split reply.split intro!: tame_intros)
qed (auto simp: createConversation_def selectConversation_def sendMessage_def createEmailHandoff_def
    submitStructuredInput_def cancel_prog_def retryRun_def retry_def calm_def
    split: option.split reply.split intro!: tame_intros)

subsection \<open>What running a program does to streams and renewals\<close>

fun stream_of :: "role \<Rightarrow> nat option" where
  "stream_of (Opening_task n _ _) = Some n"
| "stream_of (Stream_task n) = Some n"
| "stream_of _ = None"

fun renewal_of :: "role \<Rightarrow> nat option" where
  "renewal_of (Renewal_task n) = Some n"
| "renewal_of _ = None"

definition streams_in :: "role list \<Rightarrow> nat list" where
  "streams_in rs = List.map_filter stream_of rs"

definition renewals_in :: "role list \<Rightarrow> nat list" where
  "renewals_in rs = List.map_filter renewal_of rs"

lemma in_roles [simp]:
  "streams_in [] = []" "streams_in (r # rs) = (case stream_of r of None \<Rightarrow> [] | Some n \<Rightarrow> [n]) @ streams_in rs"
  "streams_in (rs @ rs') = streams_in rs @ streams_in rs'"
  "renewals_in [] = []" "renewals_in (r # rs) = (case renewal_of r of None \<Rightarrow> [] | Some n \<Rightarrow> [n]) @ renewals_in rs"
  "renewals_in (rs @ rs') = renewals_in rs @ renewals_in rs'"
  by (simp_all add: streams_in_def renewals_in_def List.map_filter_def split: option.split)

text \<open>Every stream ever opened is aborted, apart from the current one of a client that is not destroyed.\<close>

definition client_ok :: "client \<Rightarrow> bool" where
  "client_ok c \<longleftrightarrow>
     (\<forall>n < cl_controllers c. aborted n c \<or> cl_streamAbort c = Some n \<and> \<not> cl_destroyed c)
     \<and> opt_ok (\<lambda>n. n < cl_renewals c) (cl_renewalPromise c)"

text \<open>
  From \<open>c\<close> to \<open>c'\<close>, the tasks of roles \<open>rs\<close> have been started: their streams and renewals have numbers that
  were not used before, and a renewal is only started while none is under way.
\<close>

definition starts :: "client \<Rightarrow> role list \<Rightarrow> client \<Rightarrow> bool" where
  "starts c rs c' \<longleftrightarrow> cl_destroyed c' = cl_destroyed c
     \<and> cl_controllers c \<le> cl_controllers c' \<and> cl_renewals c \<le> cl_renewals c'
     \<and> set (cl_aborted c) \<subseteq> set (cl_aborted c') \<and> (client_ok c \<longrightarrow> client_ok c')
     \<and> distinct (streams_in rs) \<and> set (streams_in rs) \<subseteq> {cl_controllers c..<cl_controllers c'}
     \<and> (if cl_renewalPromise c' = cl_renewalPromise c then renewals_in rs = []
        else cl_renewalPromise c = None \<and> (\<exists>n \<in> {cl_renewals c..<cl_renewals c'}.
          cl_renewalPromise c' = Some n \<and> renewals_in rs = [n]))"

lemma starts_refl: "streams_in rs = [] \<Longrightarrow> renewals_in rs = [] \<Longrightarrow> starts c rs c"
  by (simp add: starts_def)

lemma starts_trans:
  assumes "starts c rs c1" and "starts c1 rs' c2"
  shows "starts c (rs @ rs') c2"
proof -
  have order: "cl_controllers c \<le> cl_controllers c1" "cl_controllers c1 \<le> cl_controllers c2"
    "cl_renewals c \<le> cl_renewals c1" "cl_renewals c1 \<le> cl_renewals c2"
    using assms by (simp_all add: starts_def)
  have sub: "set (streams_in rs) \<subseteq> {cl_controllers c..<cl_controllers c1}"
    "set (streams_in rs') \<subseteq> {cl_controllers c1..<cl_controllers c2}"
    using assms by (simp_all add: starts_def)
  have apart: "set (streams_in rs) \<inter> set (streams_in rs') = {}"
    using sub by (meson disjoint_iff atLeastLessThan_iff linorder_not_le subset_iff)
  have within: "set (streams_in (rs @ rs')) \<subseteq> {cl_controllers c..<cl_controllers c2}"
    using sub order(1,2) by (simp add: subset_iff) (meson le_trans less_le_trans)
  have renewals: "if cl_renewalPromise c2 = cl_renewalPromise c then renewals_in (rs @ rs') = []
     else cl_renewalPromise c = None \<and> (\<exists>n \<in> {cl_renewals c..<cl_renewals c2}.
       cl_renewalPromise c2 = Some n \<and> renewals_in (rs @ rs') = [n])"
  proof (cases "cl_renewalPromise c1 = cl_renewalPromise c")
    case True
    then show ?thesis using assms order(3) by (auto simp: starts_def split: if_splits)
  next
    case False
    then have "cl_renewalPromise c2 = cl_renewalPromise c1" using assms by (auto simp: starts_def split: if_splits)
    with False show ?thesis using assms order(4) by (auto simp: starts_def)
  qed
  show ?thesis using assms apart within renewals order by (auto simp: starts_def)
qed

lemma calm_starts:
  assumes "calm u"
  shows "starts c [] (u c)"
proof -
  have "frame (u c) = frame c" and "set (cl_aborted c) \<subseteq> set (cl_aborted (u c))"
    using assms by (auto simp: calm_def)
  then show ?thesis by (auto simp: frame_def starts_def client_ok_def aborted_def)
qed

lemma openStream_starts:
  "openStream c = (c1, Some (n, cid, l)) \<Longrightarrow> starts c [Opening_task n cid l] c1"
  "openStream c = (c1, None) \<Longrightarrow> c1 = c"
proof -
  assume "openStream c = (c1, Some (n, cid, l))"
  moreover define c0 where "c0 = clearTimer (cl_reconnectTimer c) (abort_stream c)"
  moreover have "frame c0 = frame c" by (simp add: c0_def)
  ultimately have c1: "c1 = c0\<lparr>cl_controllers := Suc n, cl_streamAbort := Some n\<rparr>"
    and n: "n = cl_controllers c" and "\<not> cl_destroyed c"
    by (auto simp: openStream_def Let_def frame_def split: option.splits if_splits)
  moreover have ab: "set (cl_aborted c) \<subseteq> set (cl_aborted c0)" by (simp add: c0_def)
  moreover have "m \<in> set (cl_aborted c0)" if "cl_streamAbort c = Some m" for m
    using that by (simp add: c0_def abort_stream_def)
  ultimately show "starts c [Opening_task n cid l] c1"
    using \<open>frame c0 = frame c\<close>
    by (auto simp: starts_def client_ok_def frame_def aborted_def less_Suc_eq)
qed (auto simp: openStream_def Let_def split: option.splits if_splits)

lemma renewal_starts:
  "cl_renewalPromise c = None \<Longrightarrow> starts c [Renewal_task (cl_renewals c)]
     (c\<lparr>cl_renewals := Suc (cl_renewals c), cl_renewalPromise := Some (cl_renewals c)\<rparr>)"
  by (auto simp: starts_def client_ok_def aborted_def)

abbreviation roles :: "spawned \<Rightarrow> role list" where
  "roles s \<equiv> map fst s"

definition all_tame :: "spawned \<Rightarrow> bool" where
  "all_tame s \<longleftrightarrow> (\<forall>x \<in> set s. tame (snd x))"

lemma all_tame_simps [simp]:
  "all_tame []" "all_tame (x # s) \<longleftrightarrow> tame (snd x) \<and> all_tame s" "all_tame (s @ s') \<longleftrightarrow> all_tame s \<and> all_tame s'"
  by (auto simp: all_tame_def)

lemma orphans_ok [simp]:
  "streams_in (roles (orphans p q)) = []" "renewals_in (roles (orphans p q)) = []"
  "tame p \<Longrightarrow> tame q \<Longrightarrow> all_tame (orphans p q)"
  by (simp_all add: orphans_def)

definition well_run :: "client \<Rightarrow> prog \<times> spawned \<times> client \<Rightarrow> bool" where
  "well_run c result \<longleftrightarrow> (case result of (p, s, c') \<Rightarrow> tame p \<and> all_tame s \<and> starts c (roles s) c')"

lemma starts_orphans:
  "starts c (roles s) c1 \<Longrightarrow> starts c1 (roles s') c2 \<Longrightarrow> starts c (roles (s @ orphans p q @ s')) c2"
  using starts_trans [of c "roles s @ roles (orphans p q)" c1 "roles s'" c2]
    starts_trans [of c "roles s" c1 "roles (orphans p q)" c1] by (simp add: starts_refl)

lemma run_well: "tame p \<Longrightarrow> well_run c (run p c)"
proof (induction p arbitrary: c)
  case (Update u p)
  then have "starts c [] (u c)" by (simp add: calm_starts)
  then show ?case using Update.IH [of "u c"] Update.prems
    by (auto simp: well_run_def dest: starts_trans split: prod.splits)
next
  case (Both a b k)
  obtain a' s1 c1 where a: "run a c = (a', s1, c1)" by (metis prod.exhaust)
  obtain b' s2 c2 where b: "run b c1 = (b', s2, c2)" by (metis prod.exhaust)
  have 1: "tame a'" "all_tame s1" "starts c (roles s1) c1"
    using Both.IH(1) [of c] Both.prems a by (auto simp: well_run_def)
  have 2: "tame b'" "all_tame s2" "starts c1 (roles s2) c2"
    using Both.IH(2) [of c1] Both.prems b by (auto simp: well_run_def)
  have 12: "starts c (roles (s1 @ s2)) c2" using starts_trans [OF 1(3) 2(3)] by simp
  show ?case
  proof (cases "joined a' b'")
    case None
    then show ?thesis using 1 2 12 Both.prems by (simp add: a b well_run_def)
  next
    case (Some r)
    obtain p s3 c3 where k: "run (k r) c2 = (p, s3, c3)" by (metis prod.exhaust)
    have 3: "tame p" "all_tame s3" "starts c2 (roles s3) c3"
      using Both.IH(3) [of "k r" c2] Both.prems k by (auto simp: well_run_def)
    then show ?thesis using Some 1 2 starts_orphans [OF 12 3(3), of a' b'] by (simp add: a b k well_run_def)
  qed
next
  case (Open s p)
  show ?case
  proof (cases "openStream c")
    case (Pair c1 req)
    show ?thesis
    proof (cases req)
      case None
      then show ?thesis using Pair Open openStream_starts(2) [of c c1] by simp
    next
      case (Some x)
      obtain n cid l where x: "x = (n, cid, l)" by (metis prod.exhaust)
      obtain s' s1 c2 where s: "run s c1 = (s', s1, c2)" by (metis prod.exhaust)
      obtain p' s2 c3 where p: "run p c2 = (p', s2, c3)" by (metis prod.exhaust)
      have "starts c [Opening_task n cid l] c1" using openStream_starts(1) Pair Some x by simp
      moreover have "tame s' \<and> all_tame s1 \<and> starts c1 (roles s1) c2"
        using Open.IH(1) [of c1] Open.prems s by (simp add: well_run_def)
      moreover have "tame p' \<and> all_tame s2 \<and> starts c2 (roles s2) c3"
        using Open.IH(2) [of c2] Open.prems p by (simp add: well_run_def)
      ultimately show ?thesis
        using starts_trans [of c "[Opening_task n cid l]" c1 "roles (s1 @ s2)" c3]
          starts_trans [of c1 "roles s1" c2 "roles s2" c3]
        by (simp add: Pair Some x s p well_run_def)
    qed
  qed
next
  case (Renew s k)
  show ?case
  proof (cases "cl_renewalPromise c")
    case None
    let ?n = "cl_renewals c"
    let ?c = "c\<lparr>cl_renewals := Suc ?n, cl_renewalPromise := Some ?n\<rparr>"
    obtain s' s1 c1 where s: "run s ?c = (s', s1, c1)" by (metis prod.exhaust)
    obtain p' s2 c2 where p: "run (k ?n) c1 = (p', s2, c2)" by (metis prod.exhaust)
    have "tame s' \<and> all_tame s1 \<and> starts ?c (roles s1) c1"
      using Renew.IH(1) [of ?c] Renew.prems s by (simp add: well_run_def)
    moreover have "tame p' \<and> all_tame s2 \<and> starts c1 (roles s2) c2"
      using Renew.IH(2) [of "k ?n" c1] Renew.prems p by (simp add: well_run_def)
    ultimately show ?thesis
      using starts_trans [OF renewal_starts [OF None], of "roles (s1 @ s2)" c2]
        starts_trans [of ?c "roles s1" c1 "roles s2" c2]
      by (simp add: None s p well_run_def Let_def)
  qed (use Renew in simp)
qed (simp_all add: well_run_def starts_refl)

lemma answer_well: "tame p \<Longrightarrow> well_run c (answer p path r c)"
proof (induction p arbitrary: path c)
  case (Await q k)
  then show ?case by (simp add: run_well)
next
  case (Both a b k)
  have rejoin_well: "well_run c (rejoin k result pair)"
    if "well_run c result" "\<And>x. tame x \<Longrightarrow> tame (fst (pair x)) \<and> tame (snd (pair x))" for result pair
  proof -
    obtain x s1 c1 where result: "result = (x, s1, c1)" by (metis prod.exhaust)
    obtain a b where pair: "pair x = (a, b)" by (metis prod.exhaust)
    have 1: "tame x" "all_tame s1" "starts c (roles s1) c1" using that(1) by (auto simp: result well_run_def)
    have ab: "tame a" "tame b" using that(2) [OF 1(1)] by (simp_all add: pair)
    show ?thesis
    proof (cases "joined a b")
      case None
      then show ?thesis using 1 ab Both.prems by (simp add: rejoin_def result pair well_run_def)
    next
      case (Some r)
      obtain p s2 c2 where k: "run (k r) c1 = (p, s2, c2)" by (metis prod.exhaust)
      have "tame p" "all_tame s2" "starts c1 (roles s2) c2"
        using run_well [of "k r" c1] Both.prems k by (auto simp: well_run_def)
      then show ?thesis using Some 1 ab starts_orphans [OF 1(3), of s2 c2 a b]
        by (simp add: rejoin_def result pair k well_run_def)
    qed
  qed
  show ?case using Both.IH(1,2) Both.prems by (auto intro!: rejoin_well)
qed (simp_all add: well_run_def starts_refl)

subsection \<open>The invariant of the world\<close>

definition task_ok :: "task \<Rightarrow> bool" where
  "task_ok t \<longleftrightarrow> tame (ts_prog t) \<and> opt_ok tame (ts_handler t)
     \<and> (ts_handler t \<noteq> None \<longrightarrow> reads_stream t \<noteq> None)"

text \<open>The tasks \<open>ts\<close> are there, those of \<open>s\<close> are about to be added.\<close>

definition ledger :: "client \<Rightarrow> task list \<Rightarrow> spawned \<Rightarrow> bool" where
  "ledger c ts s \<longleftrightarrow> client_ok c \<and> (\<forall>t \<in> set ts. task_ok t) \<and> all_tame s
     \<and> distinct (streams_in (map ts_role ts @ roles s))
     \<and> set (streams_in (map ts_role ts @ roles s)) \<subseteq> {..<cl_controllers c}
     \<and> distinct (renewals_in (map ts_role ts @ roles s))
     \<and> set (renewals_in (map ts_role ts @ roles s)) \<subseteq> {..<cl_renewals c}
     \<and> (\<forall>t \<in> set ts. \<forall>n. ts_role t = Renewal_task n \<and> \<not> is_over (ts_prog t) \<longrightarrow> cl_renewalPromise c = Some n)
     \<and> (\<forall>n \<in> set (renewals_in (roles s)). cl_renewalPromise c = Some n)"

definition world_ok :: "world \<Rightarrow> bool" where
  "world_ok w \<longleftrightarrow> ledger (w_client w) (w_tasks w) []"

lemma in_renewals: "n \<in> set (renewals_in rs) \<longleftrightarrow> Renewal_task n \<in> set rs"
proof (induction rs)
  case (Cons r rs)
  then show ?case by (cases r) auto
qed simp

lemma follow_up_role [simp]:
  "streams_in [fst (follow_up opts rp)] = streams_in [fst rp]"
  "stream_of (fst (follow_up opts rp)) = stream_of (fst rp)"
  "renewal_of (fst (follow_up opts rp)) = renewal_of (fst rp)"
  by (auto simp: follow_up_def split: prod.splits role.splits prog.splits)

lemma follow_up_tame [simp]: "tame (snd rp) \<Longrightarrow> tame (snd (follow_up opts rp))"
  by (auto simp: follow_up_def split: prod.splits role.splits prog.splits)

lemma follow_up_renewal [simp]:
  "fst (follow_up opts rp) = Renewal_task n \<longleftrightarrow> fst rp = Renewal_task n"
  "Renewal_task n = fst (follow_up opts rp) \<longleftrightarrow> Renewal_task n = fst rp"
  "fst rp = Renewal_task n \<Longrightarrow> snd (follow_up opts rp) = snd rp"
  by (auto simp: follow_up_def split: prod.splits role.splits prog.splits)

lemma renewal_outcome_some:
  "renewal_outcome rp = Some past \<Longrightarrow> \<exists>n. fst rp = Renewal_task n \<and> is_over (snd rp)"
  by (cases rp rule: renewal_outcome.cases) (auto simp: is_over_def)

lemma renewal_outcome_none:
  "renewal_outcome rp = None \<Longrightarrow> fst rp = Renewal_task n \<Longrightarrow> \<not> is_over (snd rp)"
  by (cases rp rule: renewal_outcome.cases) (auto simp: is_over_def)

text \<open>A renewal that is over is forgotten; there is no other one.\<close>

lemma ledger_settle:
  assumes "ledger c ts s" and "Renewal_task n \<in> ts_role ` set ts"
    and "\<forall>t \<in> set ts. ts_role t = Renewal_task n \<longrightarrow> is_over (ts_prog t)"
    and "cl_renewalPromise c = Some n"
  shows "ledger (c\<lparr>cl_renewalPromise := None\<rparr>) ts s"
proof -
  have "renewals_in (roles s) = []"
  proof (rule ccontr)
    assume "renewals_in (roles s) \<noteq> []"
    then obtain m where "m \<in> set (renewals_in (roles s))" by (meson list.set_sel(1))
    then have "m = n" using assms(1,4) by (auto simp: ledger_def)
    moreover have "n \<in> set (renewals_in (map ts_role ts))" using assms(2) by (simp add: in_renewals)
    ultimately show False using assms(1) \<open>m \<in> set (renewals_in (roles s))\<close> by (auto simp: ledger_def)
  qed
  moreover have "is_over (ts_prog t)" if "t \<in> set ts" "ts_role t = Renewal_task m" for t m
  proof (rule ccontr)
    assume "\<not> is_over (ts_prog t)"
    then have "cl_renewalPromise c = Some m" using assms(1) that by (auto simp: ledger_def)
    then show False using that assms(3,4) \<open>\<not> is_over (ts_prog t)\<close> by auto
  qed
  ultimately show ?thesis using assms(1) by (auto simp: ledger_def client_ok_def aborted_def)
qed

lemma renewals_none [simp]: "renewal_of r = None \<longleftrightarrow> (\<forall>n. r \<noteq> Renewal_task n)"
  by (cases r) auto

lemma add_task_ok:
  assumes "ledger (w_client w) (w_tasks w) (x # s)"
  shows "ledger (w_client (add_task opts x w)) (w_tasks (add_task opts x w)) s"
proof -
  let ?t = "new_task (follow_up opts x)"
  have t: "ts_role ?t = fst (follow_up opts x)" "ts_prog ?t = snd (follow_up opts x)" "ts_handler ?t = None"
    by (simp_all add: new_task_def)
  have ids: "streams_in (map ts_role (w_tasks w @ [?t]) @ roles s) = streams_in (map ts_role (w_tasks w) @ roles (x # s))"
    "renewals_in (map ts_role (w_tasks w @ [?t]) @ roles s) = renewals_in (map ts_role (w_tasks w) @ roles (x # s))"
    by (simp_all add: t)
  have promise: "cl_renewalPromise (w_client w) = Some n" if "fst x = Renewal_task n" for n
    using assms that by (simp add: ledger_def)
  have added: "ledger (w_client w) (w_tasks w @ [?t]) s"
    unfolding ledger_def ids using assms promise by (auto simp: ledger_def t task_ok_def)
  show ?thesis
  proof (cases "renewal_outcome x")
    case None
    then show ?thesis using added by (simp add: add_task_def settle_def)
  next
    case (Some past)
    then obtain n where n: "fst x = Renewal_task n" and over: "is_over (snd x)" using renewal_outcome_some by blast
    have new: "n \<notin> set (renewals_in (map ts_role (w_tasks w)))" using assms n by (auto simp: ledger_def)
    have "ledger ((w_client w)\<lparr>cl_renewalPromise := None\<rparr>) (w_tasks w @ [?t]) s"
    proof (rule ledger_settle [OF added _ _ promise [OF n]])
      show "Renewal_task n \<in> ts_role ` set (w_tasks w @ [?t])" by (auto simp: t n intro: sym)
      show "\<forall>t \<in> set (w_tasks w @ [?t]). ts_role t = Renewal_task n \<longrightarrow> is_over (ts_prog t)"
        using new over n by (auto simp: t in_renewals rev_image_eqI)
    qed
    then show ?thesis using Some by (simp add: add_task_def settle_def)
  qed
qed

lemma add_tasks_ok:
  "ledger (w_client w) (w_tasks w) s \<Longrightarrow> world_ok (fold (add_task opts) s w)"
  by (induction s arbitrary: w) (auto simp: world_ok_def intro: add_task_ok)

text \<open>A run of a program leaves the tasks that were there in order, and its own can be added.\<close>

lemma ledger_run:
  assumes "ledger c ts []" and "well_run c (p, s, c')"
  shows "ledger c' ts s"
proof -
  have start: "starts c (roles s) c'" and tame: "all_tame s" using assms(2) by (auto simp: well_run_def)
  have apart: "set (streams_in (map ts_role ts)) \<inter> set (streams_in (roles s)) = {}"
    using assms(1) start by (fastforce simp: ledger_def starts_def)
  have bounds: "set (streams_in (map ts_role ts @ roles s)) \<subseteq> {..<cl_controllers c'}"
    using assms(1) start by (fastforce simp: ledger_def starts_def)
  show ?thesis
  proof (cases "cl_renewalPromise c' = cl_renewalPromise c")
    case True
    then show ?thesis using assms(1) start tame apart bounds by (fastforce simp: ledger_def starts_def)
  next
    case False
    then obtain n where n: "cl_renewalPromise c = None" "cl_renewals c \<le> n" "n < cl_renewals c'"
      "cl_renewalPromise c' = Some n" "renewals_in (roles s) = [n]"
      using start by (auto simp: starts_def)
    then show ?thesis using assms(1) start tame apart bounds by (fastforce simp: ledger_def starts_def)
  qed
qed

lemma ledger_update:
  assumes "ledger c ts s" and "i < length ts" and "task_ok t"
    and "streams_in [ts_role t] = streams_in [ts_role (ts ! i)]"
    and "renewals_in [ts_role t] = renewals_in [ts_role (ts ! i)]"
    and "\<And>n. ts_role t = Renewal_task n \<Longrightarrow> \<not> is_over (ts_prog t) \<Longrightarrow> cl_renewalPromise c = Some n"
  shows "ledger c (ts[i := t]) s"
proof -
  have split: "ts = take i ts @ ts ! i # drop (Suc i) ts" by (simp add: assms(2) id_take_nth_drop)
  have upd: "ts[i := t] = take i ts @ t # drop (Suc i) ts" by (simp add: assms(2) upd_conv_take_nth_drop)
  have "streams_in (map ts_role (ts[i := t])) = streams_in (map ts_role ts)"
    "renewals_in (map ts_role (ts[i := t])) = renewals_in (map ts_role ts)"
    using assms(4,5) arg_cong [OF split, of "\<lambda>x. streams_in (map ts_role x)"]
      arg_cong [OF split, of "\<lambda>x. renewals_in (map ts_role x)"] by (simp_all add: upd)
  then show ?thesis using assms set_update_subset_insert [of ts i t] by (fastforce simp: ledger_def)
qed

lemma world_okD: "world_ok w \<Longrightarrow> i < length (w_tasks w) \<Longrightarrow> task_ok (w_tasks w ! i)"
  by (auto simp: world_ok_def ledger_def)

lemma promise_kept:
  "starts c rs c' \<Longrightarrow> cl_renewalPromise c = Some n \<Longrightarrow> cl_renewalPromise c' = Some n"
  by (auto simp: starts_def split: if_splits)

lemma waits_not_over: "waits_for p path = Some q \<Longrightarrow> \<not> is_over p"
  by (cases p) (auto simp: is_over_def)

lemma reads_not_over: "reads_stream t \<noteq> None \<Longrightarrow> \<not> is_over (ts_prog t)"
  by (auto simp: reads_stream_def split: option.splits dest: waits_not_over)

lemma task_promise:
  "world_ok w \<Longrightarrow> i < length (w_tasks w) \<Longrightarrow> ts_role (w_tasks w ! i) = Renewal_task n
     \<Longrightarrow> \<not> is_over (ts_prog (w_tasks w ! i)) \<Longrightarrow> cl_renewalPromise (w_client w) = Some n"
  by (auto simp: world_ok_def ledger_def)

lemma renewals_same [simp]: "renewals_in [r] = renewals_in [r'] \<longleftrightarrow> renewal_of r = renewal_of r'"
  by (cases r; cases r') auto

lemma resume_ok:
  assumes "world_ok w" and "i < length (w_tasks w)" and "well_run (w_client w) result"
    and "task_ok (put (fst result) (w_tasks w ! i))"
    and "stream_of (ts_role (put (fst result) (w_tasks w ! i))) = stream_of (ts_role (w_tasks w ! i))"
    and "renewal_of (ts_role (put (fst result) (w_tasks w ! i))) = renewal_of (ts_role (w_tasks w ! i))"
    and "\<not> is_over (ts_prog (w_tasks w ! i))"
  shows "world_ok (resume opts i put result w)"
proof -
  obtain p s c where result: "result = (p, s, c)" by (metis prod.exhaust)
  have start: "starts (w_client w) (roles s) c" using assms(3) by (simp add: result well_run_def)
  have "ledger c (w_tasks w) s" using ledger_run assms(1,3) by (simp add: world_ok_def result)
  then have "ledger c ((w_tasks w)[i := put p (w_tasks w ! i)]) s"
  proof (rule ledger_update)
    fix n assume "ts_role (put p (w_tasks w ! i)) = Renewal_task n"
    then have "ts_role (w_tasks w ! i) = Renewal_task n"
      using assms(6) by (cases "ts_role (w_tasks w ! i)") (auto simp: result)
    then show "cl_renewalPromise c = Some n"
      using promise_kept [OF start] task_promise assms(1,2,7) by blast
  qed (use assms in \<open>simp_all add: result\<close>)
  then show ?thesis
    using add_tasks_ok [of "w\<lparr>w_client := c, w_tasks := (w_tasks w)[i := put p (w_tasks w ! i)]\<rparr>" s opts]
    by (simp add: resume_def result)
qed

lemma settle_frame [simp]:
  "w_tasks (settle rp w) = w_tasks w" "add_task opts rp w = settle rp (w\<lparr>w_tasks := w_tasks w @ [new_task (follow_up opts rp)]\<rparr>)"
  by (simp_all add: settle_def add_task_def split: option.split)

lemma tasks_added [simp]:
  "w_tasks (fold (add_task opts) s w) = w_tasks w @ map (new_task \<circ> follow_up opts) s"
  by (induction s arbitrary: w) simp_all

text \<open>The promise of a renewal under way is not forgotten by what else is started.\<close>

lemma promise_after_adding:
  "renewals_in (roles s) = [] \<Longrightarrow>
     cl_renewalPromise (w_client (fold (add_task opts) s w)) = cl_renewalPromise (w_client w)"
proof (induction s arbitrary: w)
  case (Cons x s)
  have "renewal_outcome x = None"
    using Cons.prems by (cases x rule: renewal_outcome.cases) auto
  then show ?case using Cons by (auto simp: settle_def split: option.splits)
qed simp

lemma renewal_index:
  assumes "distinct (renewals_in (map ts_role ts))" and "i < length ts" and "j < length ts"
    and "ts_role (ts ! i) = Renewal_task n" and "ts_role (ts ! j) = Renewal_task n"
  shows "j = i"
  using assms
proof (induction ts arbitrary: i j)
  case (Cons t ts)
  have "Renewal_task n \<notin> set (map ts_role ts)" if "ts_role t = Renewal_task n"
    using Cons.prems(1) that by (simp add: in_renewals)
  moreover have "distinct (renewals_in (map ts_role ts))" using Cons.prems(1) by simp
  ultimately show ?case using Cons.IH [of "i - 1" "j - 1"] Cons.prems(2-)
    by (cases i; cases j) (auto simp: image_iff, metis nth_mem, metis nth_mem)
qed simp

lemma run_on_ok:
  assumes "world_ok w" and "i < length (w_tasks w)" and "well_run (w_client w) result"
    and "ts_handler (w_tasks w ! i) = None" and "\<not> is_over (ts_prog (w_tasks w ! i))"
  shows "world_ok (run_on opts i result w)"
proof -
  obtain p s c where result: "result = (p, s, c)" by (metis prod.exhaust)
  let ?ro = "ts_role (w_tasks w ! i)"
  let ?w = "resume opts i (advance opts) result w"
  have start: "starts (w_client w) (roles s) c" and "tame p" using assms(3) by (simp_all add: result well_run_def)
  have put: "ts_role (advance opts p t) = fst (follow_up opts (ts_role t, p))"
    "ts_prog (advance opts p t) = snd (follow_up opts (ts_role t, p))"
    "ts_handler (advance opts p t) = ts_handler t" for t
    by (simp_all add: advance_def)
  have ok: "world_ok ?w"
    using assms \<open>tame p\<close> by (intro resume_ok) (simp_all add: result put task_ok_def)
  have tasks: "w_tasks ?w = (w_tasks w)[i := advance opts p (w_tasks w ! i)] @ map (new_task \<circ> follow_up opts) s"
    by (simp add: resume_def result del: settle_frame(2))
  show ?thesis
  proof (cases "renewal_outcome (?ro, p)")
    case None
    then show ?thesis using ok by (simp add: run_on_def settle_def result Let_def)
  next
    case (Some past)
    then obtain n where n: "?ro = Renewal_task n" and over: "is_over p" using renewal_outcome_some by fastforce
    have "cl_renewalPromise (w_client w) = Some n" using task_promise assms(1,2,5) n by blast
    then have "renewals_in (roles s) = []" "cl_renewalPromise c = Some n"
      using start by (auto simp: starts_def split: if_splits)
    then have promise: "cl_renewalPromise (w_client ?w) = Some n"
      by (simp add: resume_def result promise_after_adding del: settle_frame(2))
    have mine: "w_tasks ?w ! i = advance opts p (w_tasks w ! i)" using assms(2) by (simp add: tasks nth_append)
    have i: "i < length (w_tasks ?w)" using assms(2) by (simp add: tasks)
    have "ledger ((w_client ?w)\<lparr>cl_renewalPromise := None\<rparr>) (w_tasks ?w) []"
    proof (rule ledger_settle [OF ok [unfolded world_ok_def] _ _ promise])
      show "Renewal_task n \<in> ts_role ` set (w_tasks ?w)"
        using mine i n by (metis put(1) follow_up_renewal(1) fst_conv image_eqI nth_mem)
      show "\<forall>t \<in> set (w_tasks ?w). ts_role t = Renewal_task n \<longrightarrow> is_over (ts_prog t)"
      proof (intro ballI impI)
        fix t assume "t \<in> set (w_tasks ?w)" "ts_role t = Renewal_task n"
        then obtain j where j: "j < length (w_tasks ?w)" "t = w_tasks ?w ! j" by (metis in_set_conv_nth)
        have "j = i"
          using ok i j \<open>ts_role t = Renewal_task n\<close> mine n
          by (intro renewal_index [of "w_tasks ?w" i j n]) (simp_all add: world_ok_def ledger_def put)
        then show "is_over (ts_prog t)" using j mine over n by (simp add: put)
      qed
    qed
    then show ?thesis using Some by (simp add: run_on_def settle_def result Let_def world_ok_def)
  qed
qed

lemma handle_on_ok:
  assumes "world_ok w" and "i < length (w_tasks w)" and "well_run (w_client w) result"
    and "reads_stream (w_tasks w ! i) \<noteq> None"
  shows "world_ok (handle_on opts i result w)"
proof -
  obtain p s c where result: "result = (p, s, c)" by (metis prod.exhaust)
  have "tame p" using assms(3) by (simp add: result well_run_def)
  have t: "task_ok (w_tasks w ! i)" using world_okD assms(1,2) by blast
  have plain: "world_ok (resume opts i put result w)"
    if "\<And>q t. ts_role (put q t) = ts_role t \<and> ts_prog (put q t) = ts_prog t"
      "opt_ok tame (ts_handler (put p (w_tasks w ! i)))" for put
    using assms that t reads_not_over [OF assms(4)]
    by (intro resume_ok) (auto simp: result task_ok_def reads_stream_def)
  show ?thesis
  proof (cases "\<exists>e. p = Throw e")
    case False
    then show ?thesis using plain [of "\<lambda>_ t. t\<lparr>ts_handler := None\<rparr>"] plain [of "\<lambda>q t. t\<lparr>ts_handler := Some q\<rparr>"] \<open>tame p\<close>
      by (cases p) (simp_all add: handle_on_def result)
  next
    case True
    then obtain e where e: "p = Throw e" by blast
    let ?w = "resume opts i (\<lambda>_ t. t\<lparr>ts_handler := None, ts_buffer := []\<rparr>) result w"
    have ok: "world_ok ?w" by (rule plain) simp_all
    have mine: "w_tasks ?w ! i = (w_tasks w ! i)\<lparr>ts_handler := None, ts_buffer := []\<rparr>" "i < length (w_tasks ?w)"
      using assms(2) by (simp_all add: resume_def result nth_append del: settle_frame(2))
    have "\<not> is_over (ts_prog (w_tasks w ! i))" using assms(4) reads_not_over by blast
    then have "world_ok (run_on opts i (answer (ts_prog (w_tasks ?w ! i)) [] (Inl e) (w_client ?w)) ?w)"
      using ok mine t by (intro run_on_ok answer_well) (simp_all add: task_ok_def)
    then show ?thesis by (simp add: handle_on_def result e Let_def)
  qed
qed

lemma frame_ok: "frame c' = frame c \<Longrightarrow> cl_aborted c' = cl_aborted c \<Longrightarrow> ledger c' ts s = ledger c ts s"
  by (simp add: ledger_def client_ok_def aborted_def frame_def)

lemma launch_ok:
  assumes "world_ok w" and "tame p" and "\<forall>n. ro \<noteq> Renewal_task n" and "stream_of ro = None"
  shows "world_ok (launch opts ro p w)"
proof -
  obtain p' s c where result: "run p (w_client w) = (p', s, c)" by (metis prod.exhaust)
  have run: "well_run (w_client w) (p', s, c)" using run_well [OF assms(2), of "w_client w"] by (simp add: result)
  then have "ledger c (w_tasks w) s" using ledger_run assms(1) by (simp add: world_ok_def)
  then have "ledger c (w_tasks w) ((ro, p') # s)"
    using assms(3,4) run by (cases ro) (auto simp: ledger_def well_run_def)
  then show ?thesis
    using add_tasks_ok [of "w\<lparr>w_client := c\<rparr>" "(ro, p') # s" opts]
    by (simp add: launch_def result del: settle_frame(2) fold_simps)
qed

lemma destroy_ok:
  assumes "ledger c ts []"
  shows "ledger (destroy c) ts []"
proof -
  have "client_ok (destroy c)" and "cl_destroyed (destroy c)"
    using assms by (auto simp: ledger_def client_ok_def destroy_def abort_stream_def aborted_def clearTimer_def
        Let_def split: option.splits)
  moreover have "cl_controllers (destroy c) = cl_controllers c" "cl_renewals (destroy c) = cl_renewals c"
    "cl_renewalPromise (destroy c) = cl_renewalPromise c"
    by (simp_all add: destroy_def abort_stream_def clearTimer_def Let_def split: option.split)
  ultimately show ?thesis using assms by (simp add: ledger_def)
qed

lemma buffer_ok:
  assumes "world_ok w" and "i < length (w_tasks w)"
  shows "world_ok (w\<lparr>w_tasks := (w_tasks w)[i := (w_tasks w ! i)\<lparr>ts_buffer := es\<rparr>]\<rparr>)"
proof -
  have "ledger (w_client w) ((w_tasks w)[i := (w_tasks w ! i)\<lparr>ts_buffer := es\<rparr>]) []"
    using assms world_okD [OF assms] task_promise [OF assms]
    by (intro ledger_update) (auto simp: world_ok_def task_ok_def reads_stream_def)
  then show ?thesis by (simp add: world_ok_def)
qed

lemma step_ok:
  assumes "client_step opts w m w'" and "world_ok w"
  shows "world_ok w'"
  using assms
proof (induction rule: client_step.induct)
  case (Answer i w path q r)
  have t: "task_ok (w_tasks w ! i)" using world_okD Answer by blast
  have "ts_handler (w_tasks w ! i) = None"
  proof (rule ccontr)
    assume "ts_handler (w_tasks w ! i) \<noteq> None"
    then obtain n cid l where "waits_for (ts_prog (w_tasks w ! i)) [] = Some (Call_stream n cid l)"
      using t by (auto simp: task_ok_def reads_stream_def split: option.splits call.splits)
    then have "q = Call_stream n cid l"
      using Answer.hyps by (cases "ts_prog (w_tasks w ! i)") (auto split: if_splits)
    then show False using Answer.hyps by simp
  qed
  then show ?case using Answer t waits_not_over
    by (intro run_on_ok answer_well) (auto simp: task_ok_def)
next
  case (Arrive i w n es)
  then show ?case by (intro buffer_ok)
next
  case (Handle i w n e es)
  then have "world_ok (w\<lparr>w_tasks := (w_tasks w)[i := (w_tasks w ! i)\<lparr>ts_buffer := es\<rparr>]\<rparr>)" by (intro buffer_ok)
  then show ?case using Handle.hyps
    by (intro handle_on_ok) (simp_all add: run_well reads_stream_def)
next
  case (Handled i w p path q r)
  have "task_ok (w_tasks w ! i)" using world_okD Handled by blast
  then show ?case using Handled by (intro handle_on_ok answer_well) (auto simp: task_ok_def)
next
  case (Over i w n r e)
  have "task_ok (w_tasks w ! i)" using world_okD Over by blast
  then show ?case using Over reads_not_over [of "w_tasks w ! i"]
    by (intro run_on_ok answer_well) (auto simp: task_ok_def)
next
  case (Timer w t k due)
  then show ?case by (intro launch_ok) (simp_all add: world_ok_def frame_ok [of "clearTimer (Some t) (w_client w)" "w_client w"])
next
  case (Time w ms)
  then show ?case by (simp add: world_ok_def frame_ok [of "(w_client w)\<lparr>cl_now := cl_now (w_client w) + int ms\<rparr>" "w_client w"])
next
  case (Destroy w)
  then show ?case by (simp add: world_ok_def destroy_ok)
next
  case (External w stored rest)
  then show ?case by (intro launch_ok tame_catching) (simp_all add: world_ok_def)
next
  case (Shown w)
  then show ?case by (intro launch_ok tame_catching) simp_all
next
  case (Stored w stored)
  then show ?case by (simp add: world_ok_def)
qed (simp add: launch_ok)

lemma moves_ok: "moves opts w ms w' \<Longrightarrow> world_ok w \<Longrightarrow> world_ok w'"
  by (induction rule: moves.induct) (auto intro: step_ok)

lemma new_world_ok: "world_ok (new_world now)"
  by (simp add: world_ok_def ledger_def new_world_def new_client_def client_ok_def)

text \<open>The streams that still run and may still deliver, and the renewals that are under way.\<close>

definition live_streams :: "world \<Rightarrow> task list" where
  "live_streams w = filter (\<lambda>t. \<not> is_over (ts_prog t)
     \<and> (case stream_of (ts_role t) of None \<Rightarrow> False | Some n \<Rightarrow> \<not> aborted n (w_client w))) (w_tasks w)"

definition renewing :: "world \<Rightarrow> task list" where
  "renewing w = filter (\<lambda>t. \<not> is_over (ts_prog t) \<and> renewal_of (ts_role t) \<noteq> None) (w_tasks w)"

lemma at_most_one:
  assumes "distinct (List.map_filter f xs)" and "\<And>x. x \<in> set xs \<Longrightarrow> P x \<Longrightarrow> f x = Some n"
  shows "length (filter P xs) \<le> 1"
proof -
  have "map f (filter P xs) = replicate (length (filter P xs)) (Some n)"
    using assms(2) by (induction xs) auto
  moreover have "distinct (List.map_filter f (filter P xs))"
    using assms(1) by (induction xs) (auto simp: List.map_filter_def split: if_splits)
  moreover have "List.map_filter f ys = replicate (length ys) n" if "map f ys = replicate (length ys) (Some n)" for ys
    using that by (induction ys) (auto simp: List.map_filter_def)
  ultimately have "distinct (replicate (length (filter P xs)) n)" by metis
  moreover have "k \<le> 1" if "distinct (replicate k n)" for k
    using that by (cases k; cases "k - 1") auto
  ultimately show ?thesis by blast
qed

lemma streams_by_role: "streams_in (map ts_role ts) = List.map_filter (stream_of \<circ> ts_role) ts"
  by (simp add: streams_in_def List.map_filter_def comp_def filter_map)

lemma renewals_by_role: "renewals_in (map ts_role ts) = List.map_filter (renewal_of \<circ> ts_role) ts"
  by (simp add: renewals_in_def List.map_filter_def comp_def filter_map)

text \<open>
  C11: However commands, answers, timers, other tabs and the page's life interleave, the client listens to at
  most one event stream and renews its session at most once at a time; once it is destroyed, no stream
  is left that could still deliver an event.
\<close>

theorem one_stream_one_renewal:
  assumes "moves opts (new_world now) ms w"
  shows "length (live_streams w) \<le> 1 \<and> length (renewing w) \<le> 1
     \<and> (cl_destroyed (w_client w) \<longrightarrow> live_streams w = [])"
proof -
  have "world_ok w" using moves_ok [OF assms new_world_ok] .
  then have ok: "ledger (w_client w) (w_tasks w) []" by (simp add: world_ok_def)
  have current: "cl_streamAbort (w_client w) = Some n \<and> \<not> cl_destroyed (w_client w)"
    if "t \<in> set (w_tasks w)" "stream_of (ts_role t) = Some n" "\<not> aborted n (w_client w)" for t n
  proof -
    have "n \<in> set (streams_in (map ts_role (w_tasks w)))"
      using that(1,2) by (force simp: streams_by_role List.map_filter_def)
    then show ?thesis using ok that(3) by (auto simp: ledger_def client_ok_def)
  qed
  have "length (live_streams w) \<le> 1"
    unfolding live_streams_def
  proof (rule at_most_one [where f = "stream_of \<circ> ts_role" and n = "the (cl_streamAbort (w_client w))"])
    show "distinct (List.map_filter (stream_of \<circ> ts_role) (w_tasks w))"
      using ok by (simp add: ledger_def streams_by_role)
  qed (auto split: option.splits dest: current)
  moreover have "length (renewing w) \<le> 1"
    unfolding renewing_def
  proof (rule at_most_one [where f = "renewal_of \<circ> ts_role" and n = "the (cl_renewalPromise (w_client w))"])
    show "distinct (List.map_filter (renewal_of \<circ> ts_role) (w_tasks w))"
      using ok by (simp add: ledger_def renewals_by_role)
  qed (use ok in \<open>auto simp: ledger_def\<close>)
  moreover have "live_streams w = []" if "cl_destroyed (w_client w)"
    using current that by (auto simp: live_streams_def filter_empty_conv split: option.splits)
  ultimately show ?thesis by blast
qed

subsection \<open>A run of the client\<close>

fun play :: "'k::linorder client_options \<Rightarrow> move list \<Rightarrow> world \<Rightarrow> world option" where
  "play opts [] w = Some w"
| "play opts (m # ms) w = (case next_world opts w m of None \<Rightarrow> None | Some w' \<Rightarrow> play opts ms w')"

lemma moves_play: "play opts ms w = Some w' \<Longrightarrow> moves opts w ms w'"
  by (induction ms arbitrary: w) (auto simp: client_step_next intro: moves.intros split: option.splits)

definition plain_options :: "nat client_options" where
  "plain_options = \<lparr>op_collate = (\<lambda>_. 0), op_reconnectDelay = defaultReconnectDelay,
     op_renewalLeadMs = defaultRenewalLeadMs\<rparr>"

definition plain_session :: public_session where
  "plain_session = \<lparr>ps_tenantId = ''t1'', ps_siteId = ''s1'', ps_principal = Principal_anonymous ''p1'',
     ps_sessionId = ''x1'', ps_expiresAt = 900000\<rparr>"

definition plain_conversation :: "ident \<Rightarrow> conversation" where
  "plain_conversation cid = \<lparr>co_conversationId = cid, co_tenantId = ''t1'', co_siteId = ''s1'',
     co_principalId = ''p1'', co_agentRef = ''agent'', co_status = Conv_active, co_participants = [],
     co_createdAt = 0, co_updatedAt = 0\<rparr>"

abbreviation done_at :: "nat \<Rightarrow> move" where
  "done_at i \<equiv> Answered i [] (Inr R_done)"

text \<open>From the start to the stream of a new conversation.\<close>

definition opening_moves :: "move list" where
  "opening_moves = [Command_given Start, Answered 0 [] (Inr (R_persisted None)),
     Answered 0 [] (Inr (R_bootstrap \<lparr>sa_session = plain_session, sa_browserIdentity = Some ''b1''\<rparr>)),
     done_at 0, done_at 0, done_at 0, done_at 0, done_at 0,
     Command_given Create_conversation, done_at 1, Answered 1 [] (Inr (R_conversation (plain_conversation ''c1''))),
     done_at 1, done_at 1, done_at 1, done_at 2]"

lemma one_stream_one_renewal_witness:
  "\<exists>w. play plain_options opening_moves (new_world 0) = Some w \<and> cl_controllers (w_client w) = 1
     \<and> length (live_streams w) \<le> 1"
proof -
  have "case play plain_options opening_moves (new_world 0) of
      None \<Rightarrow> False | Some w \<Rightarrow> cl_controllers (w_client w) = 1"
    by code_simp
  then obtain w where "play plain_options opening_moves (new_world 0) = Some w" "cl_controllers (w_client w) = 1"
    by (auto split: option.splits)
  then show ?thesis using one_stream_one_renewal [OF moves_play] by blast
qed

end
