(* ===== verification/ClientBehaviour.thy ===== *)
theory ClientBehaviour
  imports BrowserClient
begin

text \<open>
  What the browser client does with its streams, snapshots and sessions, as runs of theory \<open>BrowserClient\<close>:
  how events are applied and a lost cursor is recovered, what a command does when the session has expired,
  and two races the client does not guard against.
\<close>

subsection \<open>A snapshot that comes too late\<close>

definition completed_event :: conversation_event where
  "completed_event = \<lparr>ev_eventId = ''e1'', ev_sequence = 1, ev_occurredAt = 0, ev_visibility = Public,
     ev_conversationId = ''c1'', ev_runId = Some ''r1'', ev_messageId = Some ''m1'',
     ev_data = MessageCompleted [TextPart ''hi'']\<rparr>"

text \<open>
  The stream of \<open>c1\<close> delivers \<open>message.completed\<close>, so a snapshot of \<open>c1\<close> is fetched; before it is answered
  the user selects \<open>c2\<close>, which is loaded and shown; then the answers for \<open>c1\<close> arrive.
\<close>

definition late_snapshot_moves :: "move list" where
  "late_snapshot_moves = opening_moves @
     [Events_arrive 2 [completed_event], Event_taken 2,
      Handler_answered 2 [True] (Inr R_done), Handler_answered 2 [False] (Inr R_done),
      Command_given (Select_conversation ''c2''),
      Answered 3 [True] (Inr R_done), Answered 3 [False] (Inr R_done),
      Answered 3 [True] (Inr (R_conversation (plain_conversation ''c2''))), Answered 3 [False] (Inr (R_messages [])),
      done_at 3, done_at 3, done_at 4]"

definition late_answers :: "move list" where
  "late_answers = [Handler_answered 2 [True] (Inr (R_conversation (plain_conversation ''c1''))),
     Handler_answered 2 [False] (Inr (R_messages []))]"

definition shown_id :: "world \<Rightarrow> ident option" where
  "shown_id w = map_option co_conversationId (st_conversation (cl_state (w_client w)))"

definition streamed_ids :: "world \<Rightarrow> ident list" where
  "streamed_ids w = List.map_filter (\<lambda>t. case waits_for (ts_prog t) [] of
     Some (Call_stream n cid _) \<Rightarrow> Some cid | _ \<Rightarrow> None) (live_streams w)"

text \<open>
  A snapshot that was asked for before the user changed the conversation is shown when it arrives
  afterwards. The client is then inconsistent: it shows the old conversation, while the stream it
  listens to and the state it stored are those of the new one.
\<close>

theorem late_snapshot_shown:
  "\<exists>w w'. play plain_options late_snapshot_moves (new_world 0) = Some w
     \<and> shown_id w = Some ''c2'' \<and> streamed_ids w = [''c2'']
     \<and> play plain_options late_answers w = Some w'
     \<and> shown_id w' = Some ''c1'' \<and> streamed_ids w' = [''c2'']
     \<and> pe_conversationId (cl_persisted (w_client w')) = Some ''c2''"
proof -
  have "case play plain_options late_snapshot_moves (new_world 0) of
      None \<Rightarrow> False
    | Some w \<Rightarrow> shown_id w = Some ''c2'' \<and> streamed_ids w = [''c2'']
        \<and> (case play plain_options late_answers w of
             None \<Rightarrow> False
           | Some w' \<Rightarrow> shown_id w' = Some ''c1'' \<and> streamed_ids w' = [''c2'']
               \<and> pe_conversationId (cl_persisted (w_client w')) = Some ''c2'')"
    by code_simp
  then show ?thesis by (auto split: option.splits)
qed

subsection \<open>A destroyed client\<close>

text \<open>
  A renewal is under way when the client is destroyed: its answer arms a new timer, which fires when
  the session is about to expire and starts the next renewal.
\<close>

definition renewal_answer :: "js_date \<Rightarrow> outcome" where
  "renewal_answer t = Inr (R_bootstrap \<lparr>sa_session = plain_session\<lparr>ps_expiresAt := t\<rparr>, sa_browserIdentity = Some ''b1''\<rparr>)"

definition destroyed_moves :: "move list" where
  "destroyed_moves = [Command_given Start, Answered 0 [] (Inr (R_persisted None)),
     Answered 0 [] (renewal_answer 60002), done_at 0, done_at 0, Time_passes 2, Timer_fires 0, Destroyed]"

definition next_renewal :: "move list" where
  "next_renewal = [Answered 2 [] (renewal_answer 60004), done_at 2, done_at 2, Time_passes 2, Timer_fires 1]"

text \<open>The bootstraps that were asked for and not answered yet.\<close>

definition bootstraps :: "world \<Rightarrow> nat list" where
  "bootstraps w = List.map_filter (\<lambda>t. case waits_for (ts_prog t) [] of
     Some (Call_bootstrap _ key) \<Rightarrow> Some key | _ \<Rightarrow> None) (w_tasks w)"

text \<open>
  A destroyed client can go on renewing its session. When it is destroyed while a renewal is under way, the
  answer arms another timer, and when that fires the client asks for the next session.
\<close>

theorem destroyed_client_renews:
  "\<exists>w w'. play plain_options destroyed_moves (new_world 0) = Some w
     \<and> cl_destroyed (w_client w) \<and> bootstraps w = [1]
     \<and> play plain_options next_renewal w = Some w'
     \<and> cl_destroyed (w_client w') \<and> bootstraps w' = [2]"
proof -
  have "case play plain_options destroyed_moves (new_world 0) of
      None \<Rightarrow> False
    | Some w \<Rightarrow> cl_destroyed (w_client w) \<and> bootstraps w = [1]
        \<and> (case play plain_options next_renewal w of
             None \<Rightarrow> False
           | Some w' \<Rightarrow> cl_destroyed (w_client w') \<and> bootstraps w' = [2])"
    by code_simp
  then show ?thesis by (auto split: option.splits)
qed

subsection \<open>Events of a stream\<close>

text \<open>The client after an event that needs no snapshot has been handled and the cursor stored.\<close>

definition event_applied :: "'k::linorder client_options \<Rightarrow> conversation_event \<Rightarrow> client \<Rightarrow> client" where
  "event_applied opts e c = (dispatch opts (Event_received e) c)
     \<lparr>cl_persisted := (cl_persisted c)\<lparr>pe_lastEventId := Some (ev_eventId e), pe_lastEventSequence := Some (ev_sequence e)\<rparr>,
      cl_ignoreStorage := False, cl_reconnectAttempt := 0\<rparr>"

definition taking :: "nat \<Rightarrow> move list" where
  "taking i = [Event_taken i, Handler_answered i [] (Inr R_done), Handler_answered i [] (Inr R_done)]"

lemma play_append: "play opts (ms @ ms') w = (case play opts ms w of None \<Rightarrow> None | Some w' \<Rightarrow> play opts ms' w')"
  by (induction ms arbitrary: w) (auto split: option.split)

text \<open>The event loop on a handler that waits, and on one that returns.\<close>

lemma next_taken:
  "i < length (w_tasks w) \<Longrightarrow> reads_stream (w_tasks w ! i) \<noteq> None \<Longrightarrow> ts_handler (w_tasks w ! i) = None
    \<Longrightarrow> ts_buffer (w_tasks w ! i) = e # es \<Longrightarrow> run (handleEvent opts e) (w_client w) = (Await q k, [], c)
    \<Longrightarrow> next_world opts w (Event_taken i) = Some (w\<lparr>w_client := c,
          w_tasks := (w_tasks w)[i := (w_tasks w ! i)\<lparr>ts_buffer := es, ts_handler := Some (Await q k)\<rparr>]\<rparr>)"
  by (auto simp: handle_on_def resume_def)

lemma next_handled:
  assumes "i < length (w_tasks w)" and "ts_handler (w_tasks w ! i) = Some (Await q' k')" and "may_answer (w_settled w) q' r"
  shows "run (k' r) (w_client w) = (Await q k, [], c) \<Longrightarrow> next_world opts w (Handler_answered i [] r)
      = Some (w\<lparr>w_client := c, w_tasks := (w_tasks w)[i := (w_tasks w ! i)\<lparr>ts_handler := Some (Await q k)\<rparr>]\<rparr>)"
    and "run (k' r) (w_client w) = (Return v, [], c) \<Longrightarrow> next_world opts w (Handler_answered i [] r)
      = Some (w\<lparr>w_client := c, w_tasks := (w_tasks w)[i := (w_tasks w ! i)\<lparr>ts_handler := None\<rparr>]\<rparr>)"
  using assms by (auto simp: handle_on_def resume_def guarded_def)

lemma event_taken:
  assumes "i < length (w_tasks w)" and "w_tasks w ! i = t" and "ts_prog t = Await (Call_stream n cid l) k"
    and "ts_handler t = None" and "ts_buffer t = e # es" and "\<not> needs_snapshot (ev_data e)" and "ev_data e \<noteq> SyncRequired"
  shows "play opts (taking i) w =
     Some (w\<lparr>w_client := event_applied opts e (w_client w), w_tasks := (w_tasks w)[i := t\<lparr>ts_buffer := es, ts_handler := None\<rparr>]\<rparr>)"
proof -
  have reads: "reads_stream t \<noteq> None" using assms(3) by (simp add: reads_stream_def)
  have handle: "run (handleEvent opts e) c = (Await (Save_state (cl_persisted c')) (\<lambda>r.
      Update (\<lambda>c. c\<lparr>cl_ignoreStorage := False\<rparr>) (and_do (give r) (\<lambda>v. Await Pause (\<lambda>_.
        Update (\<lambda>c. c\<lparr>cl_reconnectAttempt := 0\<rparr>) finished)))), [], c')"
    if "c' = (event_applied opts e c)\<lparr>cl_ignoreStorage := True, cl_reconnectAttempt := cl_reconnectAttempt c\<rparr>" for c c'
    using assms(6,7) by (simp add: that handleEvent_def awaiting_def persist_def event_applied_def dispatch_def)
  show ?thesis
    using assms(1-5) reads
    by (simp add: taking_def next_taken handle [OF refl] next_handled event_applied_def dispatch_def
        del: next_world.simps)
qed

lemma events_taken:
  assumes "i < length (w_tasks w)" and "ts_prog (w_tasks w ! i) = Await (Call_stream n cid l) k"
    and "ts_handler (w_tasks w ! i) = None" and "ts_buffer (w_tasks w ! i) = es"
    and "\<forall>e \<in> set es. \<not> needs_snapshot (ev_data e) \<and> ev_data e \<noteq> SyncRequired"
  shows "play opts (concat (map (\<lambda>_. taking i) es)) w = Some (w\<lparr>w_client := fold (event_applied opts) es (w_client w),
     w_tasks := (w_tasks w)[i := (w_tasks w ! i)\<lparr>ts_buffer := [], ts_handler := None\<rparr>]\<rparr>)"
  using assms
proof (induction es arbitrary: w)
  case Nil
  then have "(w_tasks w ! i)\<lparr>ts_buffer := [], ts_handler := None\<rparr> = w_tasks w ! i" by simp
  then show ?case by (simp del: list_update_id add: list_update_id [of "w_tasks w" i])
next
  case (Cons e es)
  have "play opts (taking i) w = Some (w\<lparr>w_client := event_applied opts e (w_client w),
      w_tasks := (w_tasks w)[i := (w_tasks w ! i)\<lparr>ts_buffer := es, ts_handler := None\<rparr>]\<rparr>)"
    using Cons.prems by (intro event_taken) auto
  then show ?case using Cons.prems by (simp add: play_append Cons.IH)
qed

lemma state_after_events:
  "cl_state (fold (event_applied opts) es c) = foldl receiveEvent (cl_state c) es"
  "cl_destroyed (fold (event_applied opts) es c) = cl_destroyed c"
  by (induction es arbitrary: c) (simp_all add: event_applied_def dispatch_def)

lemma persisted_after_events:
  "es \<noteq> [] \<Longrightarrow> pe_lastEventId (cl_persisted (fold (event_applied opts) es c)) = Some (ev_eventId (last es))
     \<and> pe_lastEventSequence (cl_persisted (fold (event_applied opts) es c)) = Some (ev_sequence (last es))"
  by (induction es rule: rev_induct) (simp_all add: event_applied_def)

lemma conversation_kept: "st_conversation (foldl receiveEvent s es) = st_conversation s"
proof -
  have "st_conversation (apply_event e d s) = st_conversation s" for e d s
    by (cases d) (simp_all add: withoutError_def)
  then have "st_conversation (receiveEvent s e) = st_conversation s" for s e
    by (simp add: receiveEvent_def note_event_def Let_def split: option.split)
  then show ?thesis by (induction es arbitrary: s) simp_all
qed

lemma cursor_after_events:
  assumes "fresh_events s es" and "es \<noteq> []"
  shows "st_lastEventId (foldl receiveEvent s es) = Some (ev_eventId (last es))"
proof -
  obtain es' e where es: "es = es' @ [e]" using assms(2) by (cases es rule: rev_cases) auto
  have "st_lastEventId (receiveEvent s e) = Some (ev_eventId e)"
    if "ev_eventId e \<notin> set (st_recent s)" "ev_data e \<noteq> SyncRequired" for s
    using that by (simp add: receiveEvent_def Let_def split: option.split)
  then show ?thesis using receive_new [of s es' e] assms(1) by (simp add: es)
qed


text \<open>
  No event of the protocol says that a contact request was answered. When the log is replayed from its
  beginning, to a client that recovers or selects the conversation again, an answered request is shown
  as open, whatever comes after it.
\<close>

definition asks_contact :: "event_data \<Rightarrow> bool" where
  "asks_contact d = (case d of ContactRequested _ \<Rightarrow> True | _ \<Rightarrow> False)"

lemma contact_kept: "\<forall>e \<in> set es. \<not> asks_contact (ev_data e) \<Longrightarrow> st_contact (foldl receiveEvent s es) = st_contact s"
proof (induction es arbitrary: s)
  case (Cons e es)
  then have "st_contact (apply_event e (ev_data e) s) = st_contact s" for s
    by (cases "ev_data e") (auto simp: withoutError_def asks_contact_def)
  then have "st_contact (receiveEvent s e) = st_contact s"
    by (simp add: receiveEvent_def note_event_def Let_def split: option.split)
  then show ?case using Cons by simp
qed simp

lemma answered_contact_reappears:
  assumes "ev_data e = ContactRequested contact" and "ev_eventId e \<notin> set (st_recent s)"
    and "\<forall>x \<in> set later. \<not> asks_contact (ev_data x)"
  shows "st_contact (foldl receiveEvent s (e # later)) = Some contact"
  using assms contact_kept [of later]
  by (simp add: receiveEvent_def note_event_def withoutError_def Let_def split: option.split)

text \<open>Cancelling a run that is over already (or waits for an answer) makes the client show it as cancelled.\<close>

lemma finished_run_shown_cancelled:
  assumes "cx_cancellationStatus response = Already_finished"
  shows "\<exists>c'. run (and_do (give (Inr (R_cancelled response))) (\<lambda>v. case v of
       R_cancelled response \<Rightarrow> Update (dispatch opts (Run_cancelled_by_user (cx_runId response)
           (cx_cancellationStatus response = Cancel_requested))) (Return v)
     | _ \<Rightarrow> unexpected)) c = (Return (R_cancelled response), [], c')
     \<and> map_option ru_status (st_run (cl_state c')) = Some Client_cancelled"
  using assms by (simp add: dispatch_def)

subsection \<open>A lost cursor\<close>

definition session_fresh :: "'k client_options \<Rightarrow> client \<Rightarrow> bool" where
  "session_fresh opts c \<longleftrightarrow> cl_started c \<and> \<not> cl_destroyed c
     \<and> (case st_session (cl_state c) of None \<Rightarrow> False
        | Some session \<Rightarrow> op_renewalLeadMs opts < ps_expiresAt session - cl_now c)"

definition recovering :: "nat \<Rightarrow> conversation \<Rightarrow> message list \<Rightarrow> move list" where
  "recovering i conversation snapshot = [Event_taken i,
     Handler_answered i [True] (Inr R_done), Handler_answered i [False] (Inr R_done),
     Handler_answered i [True] (Inr (R_conversation conversation)), Handler_answered i [False] (Inr (R_messages snapshot)),
     Handler_answered i [] (Inr R_done), Handler_answered i [] (Inr R_done), Handler_answered i [] (Inr R_done)]"

lemma snapshot_fields:
  "st_conversation (reduceChatState collate s (Snapshot_loaded conversation snapshot)) = Some conversation"
  "st_session (reduceChatState collate s (Snapshot_loaded conversation snapshot)) = st_session s"
  "st_messages (reduceChatState collate s (Snapshot_loaded conversation snapshot)) = canonicalMessages collate snapshot"
  "st_recent (reduceChatState collate s (Snapshot_loaded conversation snapshot)) = st_recent s"
  "st_lastEventId (reduceChatState collate s (Snapshot_loaded conversation snapshot)) = st_lastEventId s"
  "st_live s = Map.empty \<Longrightarrow> st_live (reduceChatState collate s (Snapshot_loaded conversation snapshot)) = Map.empty"
  by (simp_all add: Let_def withoutError_def fun_eq_iff)

lemmas client_run = handleEvent_def synchronize_def fetch_snapshot_def runAuthenticated_def ensureFreshSession_def
  awaiting_def persist_def await_call_def open_stream_def streamEvents_def dispatch_def withoutCursor_def
  truthy_def Let_def

lemmas event_loop = reads_stream_def handle_on_def resume_def run_on_def guarded_def joined_def rejoin_def
  orphans_def is_over_def follow_up_def new_task_def settle_def advance_def

text \<open>
  A client whose cursor the server no longer knows recovers. On \<open>sync.required\<close> it forgets the cursor and the
  messages in progress, fetches the conversation, shows exactly that, and opens a new stream from the
  beginning of what the server has kept; the stream that told it is aborted.
\<close>

theorem lost_cursor_recovered:
  assumes "i < length (w_tasks w)" and "ts_prog (w_tasks w ! i) = Await (Call_stream n old l) k"
    and "ts_handler (w_tasks w ! i) = None" and "ts_buffer (w_tasks w ! i) = e # es" and "ev_data e = SyncRequired"
    and "cl_started (w_client w)" and "\<not> cl_destroyed (w_client w)"
    and "st_session (cl_state (w_client w)) = Some session"
    and "op_renewalLeadMs opts < ps_expiresAt session - cl_now (w_client w)"
    and "pe_conversationId (cl_persisted (w_client w)) = Some cid" and "cid \<noteq> []"
    and "cl_streamAbort (w_client w) = Some n"
  shows "\<exists>w'. play opts (recovering i conversation snapshot @ [done_at (length (w_tasks w))]) w = Some w'
     \<and> st_conversation (cl_state (w_client w')) = Some conversation
     \<and> st_messages (cl_state (w_client w')) = canonicalMessages (op_collate opts) snapshot
     \<and> st_live (cl_state (w_client w')) = Map.empty \<and> st_recent (cl_state (w_client w')) = []
     \<and> pe_lastEventId (cl_persisted (w_client w')) = None
     \<and> aborted n (w_client w')
     \<and> waits_for (ts_prog (w_tasks w' ! length (w_tasks w))) []
         = Some (Call_stream (cl_controllers (w_client w)) (co_conversationId conversation) None)"
proof -
  have "abort_stream c = c\<lparr>cl_aborted := n # cl_aborted c\<rparr>" if "cl_streamAbort c = Some n" for c
    using that by (simp add: abort_stream_def)
  then show ?thesis
    using assms
    by (simp add: recovering_def client_run event_loop snapshot_fields openStream_def clearTimer_def aborted_def
        nth_append split: option.split cong: if_cong del: reduceChatState.simps(3))
qed

subsection \<open>A command with an expired session\<close>

definition unauthorized :: transport_failure where
  "unauthorized = Http_failure \<lparr>he_code = ''UNAUTHORIZED'', he_message = [], he_status = 401, he_correlationId = None\<rparr>"

definition sending :: "nat \<Rightarrow> string list \<Rightarrow> move list" where
  "sending i texts = [Command_given (Send_message texts), done_at i]"

text \<open>The server refuses the token; the client renews its session, stores its identity and goes on.\<close>

definition renewing_moves :: "nat \<Rightarrow> session_answer \<Rightarrow> move list" where
  "renewing_moves i answered = [Answered i [] (Inl unauthorized), Answered (Suc i) [] (Inr (R_bootstrap answered)),
     done_at (Suc i), done_at (Suc i), Answered i [] (Inr (R_session (sa_session answered))), done_at i]"


subsection \<open>Witnesses\<close>

definition delta_event :: conversation_event where
  "delta_event = completed_event\<lparr>ev_eventId := ''e2'', ev_sequence := 2, ev_data := MessageDelta ''hi''\<rparr>"

definition sync_event :: conversation_event where
  "sync_event = completed_event\<lparr>ev_eventId := ''e3'', ev_messageId := None, ev_data := SyncRequired\<rparr>"

definition streaming_client :: client where
  "streaming_client = (new_client 0)\<lparr>cl_started := True, cl_streamAbort := Some 0, cl_controllers := 1, cl_ids := 2,
     cl_state := initialChatState\<lparr>st_session := Some plain_session, st_conversation := Some (plain_conversation ''c1'')\<rparr>,
     cl_persisted := fresh_persisted\<lparr>pe_browserIdentity := Some ''b1'', pe_conversationId := Some ''c1''\<rparr>\<rparr>"

definition streaming_world :: "conversation_event list \<Rightarrow> world" where
  "streaming_world es = (new_world 0)\<lparr>w_client := streaming_client,
     w_tasks := [\<lparr>ts_role = Stream_task 0, ts_prog = Await (Call_stream 0 ''c1'' None) give, ts_buffer = es,
       ts_handler = None\<rparr>]\<rparr>"

lemmas example_defs = streaming_world_def streaming_client_def new_world_def new_client_def plain_session_def
  plain_conversation_def plain_options_def defaultRenewalLeadMs_def initialChatState_def fresh_persisted_def
  delta_event_def sync_event_def completed_event_def


lemma lost_cursor_recovered_witness:
  "\<exists>w'. play plain_options (recovering 0 (plain_conversation ''c1'') [] @ [done_at 1]) (streaming_world [sync_event]) = Some w'
     \<and> waits_for (ts_prog (w_tasks w' ! 1)) [] = Some (Call_stream 1 ''c1'' None)"
  using lost_cursor_recovered [of 0 "streaming_world [sync_event]" 0 "''c1''" None give sync_event "[]" plain_session
      plain_options "''c1''" "plain_conversation ''c1''" "[]"]
  by (auto simp: example_defs)


end
