(* ===== verification/Http.thy ===== *)
theory Http
  imports EmailHandoff RunService Session RateLimit Token
begin

text \<open>
  The HTTP server: \<open>apps/server/src/server.ts\<close> with its hooks, the routes of the public API
  (\<open>session/route.ts\<close>, \<open>conversation/route.ts\<close>, \<open>run/route.ts\<close>, \<open>structured-input/route.ts\<close>,
  \<open>email-handoff/route.ts\<close>), the audit sink and the request counters (\<open>security/audit.ts\<close>,
  \<open>security/metrics.ts\<close>). The event stream's route is theory \<open>EventStream\<close>, the operators' routes are
  theory \<open>AdminRoute\<close>.

  Fastify's router and validator are outside the sources: a request comes with the route it matched, its
  parameters parsed, and is refused with 400 unless the route's own schema accepts it. The durations of
  requests are not modelled.
\<close>

subsection \<open>Requests and replies\<close>

datatype route =
    Live_route
  | Ready_route
  | Metrics_route
  | Session_route bootstrap_request
  | Create_route
  | List_route "string option" "int option"
  | Get_route ident
  | Submit_route ident "string list"
  | Messages_route ident "string option" "int option"
  | Cancel_route ident
  | Input_route ident ident input_answer
  | Email_route ident string

record http_request =
  hq_id :: string
  hq_method :: string
  hq_url :: string
  hq_ip :: string
  hq_authorization :: "string option"
  hq_origin :: "string option"
  hq_key :: "string option"
  hq_route :: "route option"

datatype reply_body =
    Body_error string
  | Body_default
  | Body_ok
  | Body_counts "string \<Rightarrow> nat option"
  | Body_session bootstrap_response
  | Body_conversation conversation
  | Body_conversations "conversation list \<times> string option"
  | Body_message message
  | Body_messages "message list \<times> string option"
  | Body_cancelled cancel_response
  | Body_input structured_input
  | Body_handoff email_handoff

record http_reply =
  hy_status :: nat
  hy_body :: reply_body
  hy_correlationId :: string
  hy_limit :: "limit_result option"

record server =
  sv_db :: db
  sv_runs :: coordinator
  sv_public :: limiter
  sv_bootstrap :: limiter
  sv_admin :: limiter
  sv_requests :: "string \<Rightarrow> nat option"

text \<open>The options of \<open>buildServer\<close>, with every service configured, and what the host provides.\<close>

record server_options =
  so_windowMs :: int
  so_publicMax :: int
  so_bootstrapMax :: int
  so_adminMax :: int
  so_audit :: bool
  so_metricsToken :: "string option"

record host_services =
  ho_jwt :: jwt_verify
  ho_sha256 :: "string \<Rightarrow> string"
  ho_url :: "string \<Rightarrow> url option"
  ho_iso :: "js_date \<Rightarrow> string"
  ho_date :: "string \<Rightarrow> js_date option"
  ho_email :: "string \<Rightarrow> bool"
  ho_tokens :: token_service

text \<open>What one request draws from the clocks, the identifiers created for it and its surroundings.\<close>

record occasion =
  oc_clock :: pg_time
  oc_now :: js_date
  oc_conversation :: conversation_ids
  oc_message :: message_ids
  oc_email :: email_ids
  oc_bootstrap :: bootstrap_ids
  oc_env :: db_env
  oc_database_up :: bool

subsection \<open>Schemas of the routes\<close>

text \<open>\<open>^[\x21-\x7E]+$\<close>\<close>

definition idempotency_key_ok :: "string option \<Rightarrow> bool" where
  "idempotency_key_ok key = (case key of
     None \<Rightarrow> False
   | Some k \<Rightarrow> len_between 1 255 k \<and> list_all (\<lambda>c. 33 \<le> code_unit c \<and> code_unit c \<le> 126) k)"

definition cursor_text_ok :: "string \<Rightarrow> bool" where
  "cursor_text_ok s \<longleftrightarrow> len_between 1 512 s \<and> list_all (\<lambda>c. is_alnum c \<or> c \<in> set ''_-'') s"

definition page_query_ok :: "string option \<Rightarrow> int option \<Rightarrow> bool" where
  "page_query_ok cursor limit \<longleftrightarrow> opt_ok cursor_text_ok cursor \<and> opt_ok (\<lambda>n. 1 \<le> n \<and> n \<le> 100) limit"

definition texts_ok :: "string list \<Rightarrow> bool" where
  "texts_ok texts \<longleftrightarrow> 1 \<le> length texts \<and> length texts \<le> 100 \<and> list_all (len_between 1 100000) texts"

definition contact_ok :: "(string \<Rightarrow> bool) \<Rightarrow> string \<Rightarrow> bool" where
  "contact_ok email_format email \<longleftrightarrow> email_format email \<and> length email \<le> 320"

definition session_schema_ok :: "http_request \<Rightarrow> bootstrap_request \<Rightarrow> bool" where
  "session_schema_ok req b \<longleftrightarrow> opaque_id (br_siteKey b) \<and> opt_ok opaque_id (br_widgetKey b)
     \<and> opt_ok opaque_id (br_agentAlias b) \<and> opt_ok opaque_id (br_browserIdentity b)
     \<and> (case hq_origin req of None \<Rightarrow> False | Some o1 \<Rightarrow> len_between 1 2048 o1) \<and> idempotency_key_ok (hq_key req)"

definition create_schema_ok :: "http_request \<Rightarrow> bool" where
  "create_schema_ok req = idempotency_key_ok (hq_key req)"

definition list_schema_ok :: "string option \<Rightarrow> int option \<Rightarrow> bool" where
  "list_schema_ok cursor limit = page_query_ok cursor limit"

definition get_schema_ok :: "ident \<Rightarrow> bool" where
  "get_schema_ok cid = opaque_id cid"

definition submit_schema_ok :: "http_request \<Rightarrow> ident \<Rightarrow> string list \<Rightarrow> bool" where
  "submit_schema_ok req cid texts \<longleftrightarrow> opaque_id cid \<and> texts_ok texts \<and> idempotency_key_ok (hq_key req)"

definition messages_schema_ok :: "ident \<Rightarrow> string option \<Rightarrow> int option \<Rightarrow> bool" where
  "messages_schema_ok cid cursor limit \<longleftrightarrow> opaque_id cid \<and> page_query_ok cursor limit"

definition cancel_schema_ok :: "http_request \<Rightarrow> ident \<Rightarrow> bool" where
  "cancel_schema_ok req cid \<longleftrightarrow> opaque_id cid \<and> idempotency_key_ok (hq_key req)"

definition input_schema_ok ::
  "host_services \<Rightarrow> http_request \<Rightarrow> ident \<Rightarrow> ident \<Rightarrow> input_answer \<Rightarrow> bool" where
  "input_schema_ok host req cid rid input \<longleftrightarrow> opaque_id cid \<and> opaque_id rid \<and> idempotency_key_ok (hq_key req)
     \<and> (case input of Answer_value email \<Rightarrow> contact_ok (ho_email host) email | Answer_declined \<Rightarrow> True)"

definition email_schema_ok :: "host_services \<Rightarrow> http_request \<Rightarrow> ident \<Rightarrow> string \<Rightarrow> bool" where
  "email_schema_ok host req cid email \<longleftrightarrow>
     opaque_id cid \<and> contact_ok (ho_email host) email \<and> idempotency_key_ok (hq_key req)"

definition request_ok :: "host_services \<Rightarrow> http_request \<Rightarrow> route \<Rightarrow> bool" where
  "request_ok host req ro = (case ro of
     Session_route b \<Rightarrow> session_schema_ok req b
   | Create_route \<Rightarrow> create_schema_ok req
   | List_route cursor limit \<Rightarrow> list_schema_ok cursor limit
   | Get_route cid \<Rightarrow> get_schema_ok cid
   | Submit_route cid texts \<Rightarrow> submit_schema_ok req cid texts
   | Messages_route cid cursor limit \<Rightarrow> messages_schema_ok cid cursor limit
   | Cancel_route cid \<Rightarrow> cancel_schema_ok req cid
   | Input_route cid rid input \<Rightarrow> input_schema_ok host req cid rid input
   | Email_route cid email \<Rightarrow> email_schema_ok host req cid email
   | _ \<Rightarrow> True)"

subsection \<open>Errors\<close>

fun code_name :: "api_code \<Rightarrow> string" where
  "code_name CONVERSATION_NOT_FOUND = ''CONVERSATION_NOT_FOUND''"
| "code_name MESSAGE_NOT_FOUND = ''MESSAGE_NOT_FOUND''"
| "code_name RUN_NOT_FOUND = ''RUN_NOT_FOUND''"
| "code_name INPUT_NOT_FOUND = ''INPUT_NOT_FOUND''"
| "code_name INPUT_ALREADY_RESOLVED = ''INPUT_ALREADY_RESOLVED''"
| "code_name EMPTY_CONVERSATION = ''EMPTY_CONVERSATION''"
| "code_name INVALID_CURSOR = ''INVALID_CURSOR''"
| "code_name INVALID_DATE_RANGE = ''INVALID_DATE_RANGE''"
| "code_name NOT_FOUND = ''NOT_FOUND''"
| "code_name IDEMPOTENCY_CONFLICT = ''IDEMPOTENCY_CONFLICT''"
| "code_name IDEMPOTENCY_KEY_REUSED = ''IDEMPOTENCY_KEY_REUSED''"
| "code_name SITE_NOT_FOUND = ''SITE_NOT_FOUND''"
| "code_name ORIGIN_NOT_ALLOWED = ''ORIGIN_NOT_ALLOWED''"
| "code_name WIDGET_NOT_FOUND = ''WIDGET_NOT_FOUND''"
| "code_name AGENT_ALIAS_NOT_ALLOWED = ''AGENT_ALIAS_NOT_ALLOWED''"

text \<open>A status with a body; the hooks add the correlation identifier and the limit's headers.\<close>

type_synonym answered = "nat \<times> reply_body"

definition authorization_error :: "nat \<Rightarrow> answered" where
  "authorization_error status = (status, Body_error (if status = 401 then ''UNAUTHORIZED'' else ''FORBIDDEN''))"

text \<open>\<open>formatError\<close>; what it throws again, Fastify answers with 500.\<close>

fun formatError :: "failure \<Rightarrow> answered" where
  "formatError (ApiError code status) = (status, Body_error (code_name code))"
| "formatError Unexpected = (500, Body_default)"

text \<open>
  The shape the routes share: the token's claims, then the service with its own effect on the server,
  then the status of success. The actor is set once the token is accepted.
\<close>

definition system_actor :: audit_actor where
  "system_actor = \<lparr>aa_kind = Actor_system, aa_actorId = None, aa_tenantId = None, aa_siteId = None\<rparr>"

type_synonym handled = "answered \<times> audit_actor \<times> server"

definition with_claims ::
  "host_services \<Rightarrow> occasion \<Rightarrow> http_request \<Rightarrow> string \<Rightarrow> nat
    \<Rightarrow> (session_claims \<Rightarrow> (failure + reply_body) \<times> server) \<Rightarrow> server \<Rightarrow> handled" where
  "with_claims host oc req needed success service s =
     (case authenticate (ho_jwt host) (tk_secrets (ho_tokens host)) (hq_authorization req) needed (oc_now oc) of
        Inl status \<Rightarrow> (authorization_error status, system_actor, s)
      | Inr (claims, actor) \<Rightarrow>
          (case service claims of
             (Inl e, s') \<Rightarrow> (formatError e, actor, s')
           | (Inr b, s') \<Rightarrow> ((success, b), actor, s')))"

text \<open>A service that writes in one transaction, one that only reads, and one that reads after it wrote.\<close>

definition writing :: "server \<Rightarrow> ('a \<Rightarrow> reply_body) \<Rightarrow> failure + 'a \<times> db \<Rightarrow> (failure + reply_body) \<times> server" where
  "writing s body result = (case result of Inl e \<Rightarrow> (Inl e, s) | Inr (a, d) \<Rightarrow> (Inr (body a), s\<lparr>sv_db := d\<rparr>))"

definition reading :: "server \<Rightarrow> ('a \<Rightarrow> reply_body) \<Rightarrow> failure + 'a \<Rightarrow> (failure + reply_body) \<times> server" where
  "reading s body result = (case result of Inl e \<Rightarrow> (Inl e, s) | Inr a \<Rightarrow> (Inr (body a), s))"

definition writing_then :: "server \<Rightarrow> ('a \<Rightarrow> reply_body) \<Rightarrow> (failure + 'a) \<times> db \<Rightarrow> (failure + reply_body) \<times> server" where
  "writing_then s body result =
     (case fst result of Inl e \<Rightarrow> Inl e | Inr a \<Rightarrow> Inr (body a), s\<lparr>sv_db := snd result\<rparr>)"

definition claims_scope :: "session_claims \<Rightarrow> conversation_scope" where
  "claims_scope claims = \<lparr>sc_tenantId = ts_tenantId claims, sc_siteId = ts_siteId claims,
     sc_principalId = ts_principalId claims, sc_agentRef = ts_agentRef claims\<rparr>"

definition key_text :: "http_request \<Rightarrow> string" where
  "key_text req = (case hq_key req of None \<Rightarrow> [] | Some k \<Rightarrow> k)"

definition page_limit :: "int option \<Rightarrow> nat" where
  "page_limit limit = (case limit of None \<Rightarrow> 20 | Some n \<Rightarrow> nat n)"

subsection \<open>The handlers\<close>

definition session_handler ::
  "host_services \<Rightarrow> occasion \<Rightarrow> http_request \<Rightarrow> bootstrap_request \<Rightarrow> server \<Rightarrow> handled" where
  "session_handler host oc req b s =
     (case writing s Body_session (bootstrapAnonymous (ho_url host) (ho_sha256 host) (ho_tokens host)
             (oc_bootstrap oc) (oc_clock oc) (oc_now oc) b (case hq_origin req of None \<Rightarrow> [] | Some o1 \<Rightarrow> o1)
             (key_text req) (oc_env oc) (sv_db s)) of
        (Inl e, s') \<Rightarrow> (formatError e, system_actor, s')
      | (Inr body, s') \<Rightarrow> ((200, body), system_actor, s'))"

definition create_handler :: "host_services \<Rightarrow> occasion \<Rightarrow> http_request \<Rightarrow> server \<Rightarrow> handled" where
  "create_handler host oc req s =
     with_claims host oc req ''conversations:write'' 201 (\<lambda>claims.
       writing s Body_conversation (create_conversation (ho_sha256 host) (oc_conversation oc) (oc_clock oc)
         (claims_scope claims) (key_text req) (sv_db s))) s"

definition list_handler ::
  "host_services \<Rightarrow> occasion \<Rightarrow> http_request \<Rightarrow> string option \<Rightarrow> int option \<Rightarrow> server \<Rightarrow> handled" where
  "list_handler host oc req cursor limit s =
     with_claims host oc req ''conversations:read'' 200 (\<lambda>claims.
       reading s Body_conversations (list_conversations (ho_iso host) (ho_date host) (claims_scope claims)
         (page_limit limit) (truthy cursor) (sv_db s))) s"

definition get_handler :: "host_services \<Rightarrow> occasion \<Rightarrow> http_request \<Rightarrow> ident \<Rightarrow> server \<Rightarrow> handled" where
  "get_handler host oc req cid s =
     with_claims host oc req ''conversations:read'' 200 (\<lambda>claims.
       reading s Body_conversation (get_conversation (claims_scope claims) cid (sv_db s))) s"

definition submit_handler ::
  "host_services \<Rightarrow> occasion \<Rightarrow> http_request \<Rightarrow> ident \<Rightarrow> string list \<Rightarrow> server \<Rightarrow> handled" where
  "submit_handler host oc req cid texts s =
     with_claims host oc req ''conversations:write'' 202 (\<lambda>claims.
       writing s Body_message (submit_message (ho_sha256 host) (oc_message oc) (oc_clock oc) (oc_now oc)
         (claims_scope claims) cid texts (key_text req) (sv_db s))) s"

definition messages_handler ::
  "host_services \<Rightarrow> occasion \<Rightarrow> http_request \<Rightarrow> ident \<Rightarrow> string option \<Rightarrow> int option \<Rightarrow> server \<Rightarrow> handled" where
  "messages_handler host oc req cid cursor limit s =
     with_claims host oc req ''conversations:read'' 200 (\<lambda>claims.
       reading s Body_messages (list_messages (claims_scope claims) cid (page_limit limit) (truthy cursor)
         (sv_db s))) s"

definition cancel_handler :: "host_services \<Rightarrow> occasion \<Rightarrow> http_request \<Rightarrow> ident \<Rightarrow> server \<Rightarrow> handled" where
  "cancel_handler host oc req cid s =
     with_claims host oc req ''conversations:write'' 202 (\<lambda>claims.
       (case cancel_service (ho_sha256 host) (oc_clock oc) (oc_now oc) (claims_scope claims) cid (key_text req)
               (sv_db s, sv_runs s) of
          Inl e \<Rightarrow> (Inl e, s)
        | Inr (r, d, runs) \<Rightarrow> (Inr (Body_cancelled r), s\<lparr>sv_db := d, sv_runs := runs\<rparr>))) s"

definition input_handler ::
  "host_services \<Rightarrow> occasion \<Rightarrow> http_request \<Rightarrow> ident \<Rightarrow> ident \<Rightarrow> input_answer \<Rightarrow> server \<Rightarrow> handled" where
  "input_handler host oc req cid rid input s =
     with_claims host oc req ''inputs:write'' 200 (\<lambda>claims.
       writing_then s Body_input (submit_input (ho_sha256 host) (oc_clock oc) (oc_now oc) (claims_scope claims)
         cid rid input (key_text req) (sv_db s))) s"

definition email_handler ::
  "host_services \<Rightarrow> occasion \<Rightarrow> http_request \<Rightarrow> ident \<Rightarrow> string \<Rightarrow> server \<Rightarrow> handled" where
  "email_handler host oc req cid email s =
     with_claims host oc req ''inputs:write'' 202 (\<lambda>claims.
       writing_then s Body_handoff (create_email_handoff (ho_sha256 host) (oc_email oc) (oc_clock oc) (oc_now oc)
         (claims_scope claims) cid email (key_text req) (sv_db s))) s"

definition ready_handler :: "occasion \<Rightarrow> server \<Rightarrow> handled" where
  "ready_handler oc s =
     (if oc_database_up oc then ((200, Body_ok), system_actor, s)
      else ((503, Body_error ''DATABASE_UNAVAILABLE''), system_actor, s))"

text \<open>\<open>timingSafeEqual\<close> on the bytes of the two texts, which are first compared in length.\<close>

definition matchesBearerToken :: "string option \<Rightarrow> string \<Rightarrow> bool" where
  "matchesBearerToken authorization expected = (case authorization of
     None \<Rightarrow> False
   | Some header \<Rightarrow>
       if \<not> starts_with ''Bearer '' header then False
       else (let actual = utf8_encode (drop 7 header); wanted = utf8_encode expected
             in length actual = length wanted \<and> actual = wanted))"

definition metrics_handler :: "server_options \<Rightarrow> http_request \<Rightarrow> server \<Rightarrow> handled" where
  "metrics_handler opts req s = (case truthy (so_metricsToken opts) of
     None \<Rightarrow> ((404, Body_default), system_actor, s)
   | Some token \<Rightarrow>
       if \<not> matchesBearerToken (hq_authorization req) token
       then ((401, Body_error ''UNAUTHORIZED''), system_actor, s)
       else ((200, Body_counts (sv_requests s)), system_actor, s))"

fun handle_route ::
  "server_options \<Rightarrow> host_services \<Rightarrow> occasion \<Rightarrow> http_request \<Rightarrow> route \<Rightarrow> server \<Rightarrow> handled" where
  "handle_route opts host oc req Live_route s = ((200, Body_ok), system_actor, s)"
| "handle_route opts host oc req Ready_route s = ready_handler oc s"
| "handle_route opts host oc req Metrics_route s = metrics_handler opts req s"
| "handle_route opts host oc req (Session_route b) s = session_handler host oc req b s"
| "handle_route opts host oc req Create_route s = create_handler host oc req s"
| "handle_route opts host oc req (List_route cursor limit) s = list_handler host oc req cursor limit s"
| "handle_route opts host oc req (Get_route cid) s = get_handler host oc req cid s"
| "handle_route opts host oc req (Submit_route cid texts) s = submit_handler host oc req cid texts s"
| "handle_route opts host oc req (Messages_route cid cursor limit) s = messages_handler host oc req cid cursor limit s"
| "handle_route opts host oc req (Cancel_route cid) s = cancel_handler host oc req cid s"
| "handle_route opts host oc req (Input_route cid rid input) s = input_handler host oc req cid rid input s"
| "handle_route opts host oc req (Email_route cid email) s = email_handler host oc req cid email s"

fun route_url :: "route \<Rightarrow> string" where
  "route_url Live_route = ''/health/live''"
| "route_url Ready_route = ''/health/ready''"
| "route_url Metrics_route = ''/metrics''"
| "route_url (Session_route _) = ''/v1/sessions''"
| "route_url Create_route = ''/v1/conversations''"
| "route_url (List_route _ _) = ''/v1/conversations''"
| "route_url (Get_route _) = ''/v1/conversations/:conversationId''"
| "route_url (Submit_route _ _) = ''/v1/conversations/:conversationId/messages''"
| "route_url (Messages_route _ _ _) = ''/v1/conversations/:conversationId/messages''"
| "route_url (Cancel_route _) = ''/v1/conversations/:conversationId/cancel''"
| "route_url (Input_route _ _ _) = ''/v1/conversations/:conversationId/inputs/:requestId''"
| "route_url (Email_route _ _) = ''/v1/conversations/:conversationId/email-handoffs''"

subsection \<open>The hooks\<close>

datatype limit_group = Public_group | Bootstrap_group | Admin_group

definition limiter_group :: "string \<Rightarrow> limit_group option" where
  "limiter_group url =
     (if \<not> starts_with ''/v1/'' url \<and> \<not> starts_with ''/auth/'' url then None
      else Some (if starts_with ''/v1/admin'' url \<or> starts_with ''/auth/'' url then Admin_group
                 else if starts_with ''/v1/sessions'' url then Bootstrap_group else Public_group))"

fun group_name :: "limit_group \<Rightarrow> string" where
  "group_name Public_group = ''public''"
| "group_name Bootstrap_group = ''bootstrap''"
| "group_name Admin_group = ''admin''"

definition limiter_options_for :: "server_options \<Rightarrow> limit_group \<Rightarrow> limiter_options" where
  "limiter_options_for opts g = \<lparr>lo_windowMs = so_windowMs opts,
     lo_max = (case g of Public_group \<Rightarrow> so_publicMax opts | Bootstrap_group \<Rightarrow> so_bootstrapMax opts
       | Admin_group \<Rightarrow> so_adminMax opts), lo_maxKeys = 10000\<rparr>"

definition limiter_at :: "limit_group \<Rightarrow> server \<Rightarrow> limiter" where
  "limiter_at g s = (case g of Public_group \<Rightarrow> sv_public s | Bootstrap_group \<Rightarrow> sv_bootstrap s | Admin_group \<Rightarrow> sv_admin s)"

definition set_limiter :: "limit_group \<Rightarrow> limiter \<Rightarrow> server \<Rightarrow> server" where
  "set_limiter g ws s = (case g of Public_group \<Rightarrow> s\<lparr>sv_public := ws\<rparr> | Bootstrap_group \<Rightarrow> s\<lparr>sv_bootstrap := ws\<rparr>
     | Admin_group \<Rightarrow> s\<lparr>sv_admin := ws\<rparr>)"

definition limit_key :: "limit_group \<Rightarrow> http_request \<Rightarrow> string" where
  "limit_key g req = group_name g @ '':'' @ hq_ip req"

text \<open>The \<open>onRequest\<close> hook.\<close>

definition on_request :: "server_options \<Rightarrow> occasion \<Rightarrow> http_request \<Rightarrow> server \<Rightarrow> limit_result option \<times> server" where
  "on_request opts oc req s = (case limiter_group (hq_url req) of
     None \<Rightarrow> (None, s)
   | Some g \<Rightarrow>
       (let (result, ws) = consume (limiter_options_for opts g) (limit_key g req) (oc_now oc) (limiter_at g s)
        in (Some result, set_limiter g ws s)))"

definition outcome_of :: "nat \<Rightarrow> audit_outcome" where
  "outcome_of status = (if status = 401 \<or> status = 403 then Outcome_denied
     else if 500 \<le> status then Outcome_failure else Outcome_success)"

definition audit_event_of :: "occasion \<Rightarrow> http_request \<Rightarrow> audit_actor \<Rightarrow> nat \<Rightarrow> audit_row" where
  "audit_event_of oc req actor status =
     \<lparr>a_correlation_id = hq_id req, a_actor_kind = aa_kind actor, a_actor_id = aa_actorId actor,
      a_tenant_id = aa_tenantId actor, a_site_id = aa_siteId actor,
      a_action = hq_method req @ '' '' @ (case hq_route req of None \<Rightarrow> ''/v1/unmatched'' | Some ro \<Rightarrow> route_url ro),
      a_outcome = outcome_of status, a_status_code = int status, a_occurred_at = oc_clock oc\<rparr>"

text \<open>
  The two \<open>onResponse\<close> hooks, in their order; when the database refuses the audit row the first one
  rejects, and Fastify does not run the second.
\<close>

definition record_audit ::
  "server_options \<Rightarrow> occasion \<Rightarrow> http_request \<Rightarrow> audit_actor \<Rightarrow> nat \<Rightarrow> server \<Rightarrow> failure + server" where
  "record_audit opts oc req actor status s =
     (if \<not> so_audit opts \<or> \<not> starts_with ''/v1/'' (hq_url req) then Inr s
      else (case insert_audit_event (audit_event_of oc req actor status) (sv_db s) of
          Inl e \<Rightarrow> Inl e
        | Inr d \<Rightarrow> Inr (s\<lparr>sv_db := d\<rparr>)))"

definition status_group :: "http_request \<Rightarrow> nat \<Rightarrow> string" where
  "status_group req status = hq_method req @ '' '' @ show_nat (status div 100) @ ''xx''"

definition finish_metrics :: "http_request \<Rightarrow> nat \<Rightarrow> server \<Rightarrow> server" where
  "finish_metrics req status s =
     (let g = status_group req status
      in s\<lparr>sv_requests := (sv_requests s)(g \<mapsto> (case sv_requests s g of None \<Rightarrow> 0 | Some n \<Rightarrow> n) + 1)\<rparr>)"

definition on_response :: "server_options \<Rightarrow> occasion \<Rightarrow> http_request \<Rightarrow> audit_actor \<Rightarrow> nat \<Rightarrow> server \<Rightarrow> server" where
  "on_response opts oc req actor status s =
     (case record_audit opts oc req actor status s of Inl e \<Rightarrow> s | Inr s' \<Rightarrow> finish_metrics req status s')"

definition run_handler ::
  "server_options \<Rightarrow> host_services \<Rightarrow> occasion \<Rightarrow> http_request \<Rightarrow> limit_result option \<Rightarrow> server \<Rightarrow> handled" where
  "run_handler opts host oc req limit s =
     (if map_option lr_allowed limit = Some False then ((429, Body_error ''RATE_LIMITED''), system_actor, s)
      else (case hq_route req of
          None \<Rightarrow> ((404, Body_default), system_actor, s)
        | Some ro \<Rightarrow>
            if \<not> request_ok host req ro then ((400, Body_default), system_actor, s)
            else handle_route opts host oc req ro s))"

definition serve :: "server_options \<Rightarrow> host_services \<Rightarrow> occasion \<Rightarrow> http_request \<Rightarrow> server \<Rightarrow> http_reply \<times> server" where
  "serve opts host oc req s =
     (let (limit, s1) = on_request opts oc req s;
          ((status, body), actor, s2) = run_handler opts host oc req limit s1;
          s3 = on_response opts oc req actor status s2
      in (\<lparr>hy_status = status, hy_body = body, hy_correlationId = hq_id req, hy_limit = limit\<rparr>, s3))"

fun serve_all ::
  "server_options \<Rightarrow> host_services \<Rightarrow> (occasion \<times> http_request) list \<Rightarrow> server \<Rightarrow> http_reply list \<times> server" where
  "serve_all opts host [] s = ([], s)"
| "serve_all opts host ((oc, req) # reqs) s =
     (let (reply, s1) = serve opts host oc req s; (replies, s2) = serve_all opts host reqs s1
      in (reply # replies, s2))"

subsection \<open>What the services leave alone\<close>

named_theorems audit_kept

lemma and_then_keeps:
  "and_then r f = Inr y \<Longrightarrow> (\<And>x. r = Inr x \<Longrightarrow> f x = Inr y \<Longrightarrow> P y) \<Longrightarrow> P y"
  by (cases r) auto

lemma audit_create [audit_kept]:
  "create_conversation sha ids clock scope key d = Inr (c, d') \<Longrightarrow> audit_events d' = audit_events d"
  by (auto simp: create_conversation_def create_transaction_def Let_def insert_defs and_then_Inr_iff
      split: option.splits if_splits)

lemma audit_submit [audit_kept]:
  "submit_message sha ids clock now scope cid texts key d = Inr (m, d') \<Longrightarrow> audit_events d' = audit_events d"
  by (auto simp: submit_message_def submit_transaction_def bump_message_sequence_def Let_def insert_defs
      and_then_Inr_iff split: option.splits if_splits)

lemma audit_cancel [audit_kept]:
  "cancel_service sha clock now scope cid key (d, c) = Inr (r, d', c') \<Longrightarrow> audit_events d' = audit_events d"
  by (auto simp: cancel_service_def cancel_transaction_def apply_cancellation_def update_run_def Let_def insert_defs
      and_then_Inr_iff split: option.splits if_splits cancellation_status.splits)

lemma audit_input [audit_kept]:
  "audit_events (snd (submit_input sha clock now scope cid rid input key d)) = audit_events d"
  by (auto simp: submit_input_def submit_input_transaction_def Let_def insert_defs
      and_then_Inr_iff split: sum.splits option.splits if_splits)

lemma audit_email [audit_kept]:
  "audit_events (snd (create_email_handoff sha ids clock now scope cid email key d)) = audit_events d"
  by (auto simp: create_email_handoff_def email_transaction_def Let_def insert_defs
      and_then_Inr_iff split: sum.splits option.splits if_splits)

definition env_audits :: "db_env \<Rightarrow> bool" where
  "env_audits env \<longleftrightarrow> (\<forall>k d. audit_events (env k d) = audit_events d)"

lemma env_auditsD [simp]: "env_audits env \<Longrightarrow> audit_events (env k d) = audit_events d"
  by (simp add: env_audits_def)

lemma audit_principal:
  "require_principal ids clock site b env d = Inr (p, d') \<Longrightarrow> env_audits env \<Longrightarrow> audit_events d' = audit_events d"
  by (auto simp: require_principal_def insert_principal_if_new_def insert_principal_def Let_def and_then_Inr_iff split: option.splits if_splits)

lemma audit_session:
  "require_session ids clock e site p env d = Inr (b, d') \<Longrightarrow> env_audits env \<Longrightarrow> audit_events d' = audit_events d"
  by (auto simp: require_session_def insert_or_extend_session_def insert_browser_session_def extend_session_def
      Let_def and_then_Inr_iff split: option.splits if_splits)

lemma audit_bootstrap_key:
  "insert_bootstrap_key r d = Inr d' \<Longrightarrow> audit_events d' = audit_events d"
  by (auto simp: insert_bootstrap_key_def split: if_splits)

lemma audit_bootstrap_transaction:
  assumes "bootstrap_transaction ids clock e site b key hash env d = Inr (r, d')" and "env_audits env"
  shows "audit_events d' = audit_events d"
  using assms
  by (auto simp: bootstrap_transaction_def Let_def and_then_Inr_iff split: option.splits if_splits
      dest!: audit_principal audit_session audit_bootstrap_key)

lemma audit_bootstrap [audit_kept]:
  "bootstrapAnonymous url_of sha tk ids clock now b origin key env d = Inr (r, d') \<Longrightarrow> env_audits env
     \<Longrightarrow> audit_events d' = audit_events d"
  by (auto simp: bootstrapAnonymous_def Let_def and_then_Inr_iff case_prod_unfold split: option.splits if_splits
      dest!: audit_bootstrap_transaction)

lemma audit_writing:
  "(\<And>a d. result = Inr (a, d) \<Longrightarrow> audit_events d = audit_events (sv_db s)) \<Longrightarrow>
     audit_events (sv_db (snd (writing s body result))) = audit_events (sv_db s)"
  by (auto simp: writing_def split: sum.split)

lemma reading_keeps [simp]: "snd (reading s body result) = s"
  by (simp add: reading_def split: sum.split)

lemma writing_then_db [simp]: "snd (writing_then s body result) = s\<lparr>sv_db := snd result\<rparr>"
  by (simp add: writing_then_def)

lemma with_claims_keeps:
  assumes "P s" and "\<And>claims. P (snd (service claims))"
  shows "P (snd (snd (with_claims host oc req needed success service s)))"
proof -
  have "P b" if "service claims = (a, b)" for claims a b using assms(2) [of claims] that by simp
  then show ?thesis using assms(1) by (auto simp: with_claims_def split: sum.split prod.split)
qed

lemma audit_handlers:
  assumes "env_audits (oc_env oc)"
  shows "audit_events (sv_db (snd (snd (handle_route opts host oc req ro s)))) = audit_events (sv_db s)"
proof (cases ro)
  case (Session_route b)
  then show ?thesis using assms
    by (auto simp: session_handler_def writing_def split: sum.split prod.split dest: audit_bootstrap)
qed (auto simp: create_handler_def list_handler_def get_handler_def submit_handler_def messages_handler_def
    cancel_handler_def input_handler_def email_handler_def ready_handler_def metrics_handler_def audit_input audit_email
    intro!: with_claims_keeps [where P = "\<lambda>s'. audit_events (sv_db s') = audit_events (sv_db s)"] audit_writing
    dest: audit_create audit_submit audit_cancel split: sum.split prod.split option.split)

definition row_storable :: "audit_row \<Rightarrow> bool" where
  "row_storable a \<longleftrightarrow> fits 128 (a_correlation_id a) \<and> opt_ok (fits 128) (a_actor_id a)
     \<and> opt_ok (fits 128) (a_tenant_id a) \<and> opt_ok (fits 128) (a_site_id a) \<and> fits 200 (a_action a)"

lemma insert_audit_row:
  "insert_audit_event a d =
     (if row_storable a then Inr (d\<lparr>audit_events := audit_events d @ [a]\<rparr>) else Inl Unexpected)"
  by (simp add: insert_audit_event_def row_storable_def)

lemma on_request_keeps [simp]:
  "on_request opts oc req s = (limit, s') \<Longrightarrow> sv_db s' = sv_db s"
  "on_request opts oc req s = (limit, s') \<Longrightarrow> sv_runs s' = sv_runs s"
  "on_request opts oc req s = (limit, s') \<Longrightarrow> sv_requests s' = sv_requests s"
  by (auto simp: on_request_def set_limiter_def split: option.splits prod.splits limit_group.splits)

subsection \<open>The actor a row names\<close>

definition known_actor :: "host_services \<Rightarrow> occasion \<Rightarrow> http_request \<Rightarrow> audit_actor \<Rightarrow> bool" where
  "known_actor host oc req actor \<longleftrightarrow> actor = system_actor \<or>
     (\<exists>needed claims. authenticate (ho_jwt host) (tk_secrets (ho_tokens host)) (hq_authorization req) needed
        (oc_now oc) = Inr (claims, actor))"

lemma known_system [simp]: "known_actor host oc req system_actor"
  by (simp add: known_actor_def)

lemma with_claims_actor [simp]:
  "known_actor host oc req (fst (snd (with_claims host oc req needed success service s)))"
  by (auto simp: with_claims_def known_actor_def split: sum.split prod.split)

lemma run_handler_actor:
  "known_actor host oc req (fst (snd (run_handler opts host oc req limit s)))"
proof -
  have "known_actor host oc req (fst (snd (handle_route opts host oc req ro s)))" for ro
    by (cases ro) (auto simp: session_handler_def create_handler_def list_handler_def get_handler_def
      submit_handler_def messages_handler_def cancel_handler_def input_handler_def email_handler_def
      ready_handler_def metrics_handler_def split: sum.split prod.split option.split)
  then show ?thesis by (auto simp: run_handler_def split: option.split)
qed

lemma handlers_keep_counts:
  "sv_requests (snd (snd (handle_route opts host oc req ro s))) = sv_requests s"
proof (cases ro)
  case (Session_route b)
  then show ?thesis by (auto simp: session_handler_def writing_def split: sum.split prod.split)
qed (auto simp: create_handler_def list_handler_def get_handler_def submit_handler_def messages_handler_def
    cancel_handler_def input_handler_def email_handler_def ready_handler_def metrics_handler_def writing_def
    intro!: with_claims_keeps [where P = "\<lambda>s'. sv_requests s' = sv_requests s"]
    split: sum.split prod.split option.split)

lemma run_handler_keeps:
  "P s \<Longrightarrow> (\<And>ro. P (snd (snd (handle_route opts host oc req ro s)))) \<Longrightarrow>
     P (snd (snd (run_handler opts host oc req limit s)))"
  by (simp add: run_handler_def split: option.split)


subsection \<open>Refused requests\<close>

text \<open>What a 4xx reply leaves untouched: everything but the limiter, the counters and the audit trail.\<close>

definition refused :: "answered \<Rightarrow> bool" where
  "refused a \<longleftrightarrow> 400 \<le> fst a \<and> fst a < 500"

lemma get_input_found:
  assumes "find_conversation scope cid d \<noteq> None"
  shows "get_input scope cid rid d =
     (case find_input scope cid rid d of None \<Rightarrow> Inl (ApiError INPUT_NOT_FOUND 404) | Some row \<Rightarrow> mapInput row)"
proof -
  have "exists_row (\<lambda>c. c_tenant_id c = sc_tenantId scope \<and> c_site_id c = sc_siteId scope
      \<and> c_conversation_id c = cid \<and> c_principal_id c = sc_principalId scope) (conversations d)"
    using assms by (auto simp: find_conversation_def exists_row_def find_None_iff)
  then have "(\<lambda>i :: input_row. i_tenant_id i = sc_tenantId scope \<and> i_site_id i = sc_siteId scope
       \<and> i_conversation_id i = cid \<and> i_request_id i = rid
       \<and> exists_row (\<lambda>c. c_tenant_id c = i_tenant_id i \<and> c_site_id c = i_site_id i
            \<and> c_conversation_id c = i_conversation_id i \<and> c_principal_id c = sc_principalId scope) (conversations d))
     = (\<lambda>i :: input_row. i_tenant_id i = sc_tenantId scope \<and> i_site_id i = sc_siteId scope
         \<and> i_conversation_id i = cid \<and> i_request_id i = rid)"
    unfolding exists_row_def by (intro ext) metis
  then show ?thesis by (simp only: get_input_def find_input_def)
qed

lemma submit_input_refused:
  assumes "submit_input sha clock now scope cid rid input key d = (Inl (ApiError code status), d')"
  shows "d' = d"
proof (cases "submit_input_transaction sha clock now scope cid rid input key d")
  case (Inr x)
  then have tx: "submit_input_transaction sha clock now scope cid rid input key d = Inr ((), d')"
    and get: "get_input scope cid rid d' = Inl (ApiError code status)"
    using assms by (cases x; simp add: submit_input_def)+
  show ?thesis using tx
  proof (cases rule: submit_input_cases)
    case (fresh i)
    have "find_conversation scope cid d \<noteq> None"
      using tx fresh(1) by (auto simp: submit_input_transaction_def Let_def split: option.splits)
    then have "find_conversation scope cid d' \<noteq> None" by (simp add: fresh find_conversation_def)
    moreover have "find_input scope cid rid d' \<noteq> None"
      by (subst find_input_update [of _ "\<lambda>x. i_request_id x = rid" input now d]) (simp_all add: fresh)
    ultimately show ?thesis using get by (auto simp: get_input_found mapInput_def split: if_splits)
  qed
qed (use assms in \<open>simp add: submit_input_def\<close>)

lemma create_handoff_refused:
  assumes "create_email_handoff sha ids clock now scope cid email key d = (Inl (ApiError code status), d')"
  shows "d' = d"
  using assms by (auto simp: create_email_handoff_def get_handoff_def split: sum.splits option.splits)

lemma formatError_refused: "refused (formatError e) \<Longrightarrow> \<exists>code status. e = ApiError code status"
  by (cases e) (simp_all add: refused_def)

lemma with_claims_refused:
  assumes "with_claims host oc req needed success service s = (a, actor, s')" and "refused a"
    and "success < 400" and "\<And>claims code status s1. service claims = (Inl (ApiError code status), s1) \<Longrightarrow> s1 = s"
  shows "s' = s"
  using assms formatError_refused
  by (fastforce simp: with_claims_def refused_def [where a = "(success, _)"] split: sum.splits prod.splits)

lemma writing_refused [simp]: "writing s body result = (Inl e, s1) \<Longrightarrow> s1 = s"
  by (auto simp: writing_def split: sum.splits)

lemma reading_same [simp]: "reading s body result = (r, s1) \<Longrightarrow> s1 = s"
  by (auto simp: reading_def split: sum.splits)

lemma writing_then_refused:
  "writing_then s body result = (Inl e, s1) \<Longrightarrow> (\<And>d'. result = (Inl e, d') \<Longrightarrow> d' = sv_db s) \<Longrightarrow> s1 = s"
  by (cases result) (auto simp: writing_then_def split: sum.splits)

lemma handlers_refused:
  assumes "handle_route opts host oc req ro s = (a, actor, s')" and "refused a"
  shows "s' = s"
proof (cases ro)
  case (Session_route b)
  then show ?thesis using assms
    by (auto simp: session_handler_def refused_def split: sum.splits prod.splits)
next
  case Create_route
  then show ?thesis using assms by (auto simp: create_handler_def elim!: with_claims_refused)
next
  case (List_route cursor limit)
  then show ?thesis using assms by (auto simp: list_handler_def elim!: with_claims_refused)
next
  case (Get_route cid)
  then show ?thesis using assms by (auto simp: get_handler_def elim!: with_claims_refused)
next
  case (Submit_route cid texts)
  then show ?thesis using assms by (auto simp: submit_handler_def elim!: with_claims_refused)
next
  case (Messages_route cid cursor limit)
  then show ?thesis using assms by (auto simp: messages_handler_def elim!: with_claims_refused)
next
  case (Cancel_route cid)
  then show ?thesis using assms
    by (auto simp: cancel_handler_def split: sum.splits prod.splits elim!: with_claims_refused)
next
  case (Input_route cid rid input)
  then show ?thesis using assms
    by (auto simp: input_handler_def elim!: with_claims_refused intro: submit_input_refused dest!: writing_then_refused)
next
  case (Email_route cid email)
  then show ?thesis using assms
    by (auto simp: email_handler_def elim!: with_claims_refused intro: create_handoff_refused dest!: writing_then_refused)
qed (use assms in \<open>auto simp: ready_handler_def metrics_handler_def refused_def split: option.splits if_splits\<close>)

text \<open>
  C12: a request answered with a 4xx status (a bad or missing token, a missing scope, a schema or cursor
  refused, a resource of another visitor, a key used for other input, a limit reached, an unknown route)
  changes no row of the database and aborts no run: the only trace it leaves there is its row of the audit
  trail. Not even the commands that commit and then read their answer back are an exception.
\<close>

theorem refused_requests_change_nothing:
  assumes "serve opts host oc req s = (reply, s')" and "400 \<le> hy_status reply" and "hy_status reply < 500"
  shows "sv_runs s' = sv_runs s \<and>
    (\<exists>rows. length rows \<le> 1 \<and> sv_db s' = (sv_db s)\<lparr>audit_events := audit_events (sv_db s) @ rows\<rparr>)"
proof -
  obtain limit s1 where hook: "on_request opts oc req s = (limit, s1)" by fastforce
  obtain status body actor s2 where ran: "run_handler opts host oc req limit s1 = ((status, body), actor, s2)"
    by (metis prod.exhaust)
  have reply: "hy_status reply = status" "s' = on_response opts oc req actor status s2"
    using assms(1) hook ran by (auto simp: serve_def)
  then have "s2 = s1"
    using ran assms(2,3) handlers_refused
    by (fastforce simp: run_handler_def refused_def split: option.splits if_splits)
  then show ?thesis
    using hook reply(2)
    by (auto simp: on_response_def record_audit_def insert_audit_row finish_metrics_def Let_def
        intro: exI [of _ "[]"] exI [of _ "[_]"])
qed

subsection \<open>One limiter per group\<close>

lemma limiter_at_set [simp]:
  "limiter_at g (set_limiter h ws s) = (if g = h then ws else limiter_at g s)"
  by (cases g; cases h) (simp_all add: limiter_at_def set_limiter_def)

lemma limiters_kept:
  "limiter_at g (s\<lparr>sv_db := d\<rparr>) = limiter_at g s" "limiter_at g (s\<lparr>sv_runs := r\<rparr>) = limiter_at g s"
  "limiter_at g (s\<lparr>sv_requests := q\<rparr>) = limiter_at g s"
  by (cases g; simp add: limiter_at_def)+

lemma handlers_keep_limiters:
  "limiter_at g (snd (snd (handle_route opts host oc req ro s))) = limiter_at g s"
proof (cases ro)
  case (Session_route b)
  then show ?thesis by (auto simp: session_handler_def writing_def limiters_kept split: sum.split prod.split)
qed (auto simp: create_handler_def list_handler_def get_handler_def submit_handler_def messages_handler_def
    cancel_handler_def input_handler_def email_handler_def ready_handler_def metrics_handler_def writing_def
    limiters_kept intro!: with_claims_keeps [where P = "\<lambda>s'. limiter_at g s' = limiter_at g s"]
    split: sum.split prod.split option.split)

lemma on_response_limiters [simp]: "limiter_at g (on_response opts oc req actor status s) = limiter_at g s"
  by (simp add: on_response_def record_audit_def finish_metrics_def Let_def limiters_kept split: sum.split)

lemma serve_limits:
  assumes "serve opts host oc req s = (reply, s')"
  shows "hy_limit reply = fst (on_request opts oc req s)"
    and "limiter_at g s' = limiter_at g (snd (on_request opts oc req s))"
  using assms run_handler_keeps [of "\<lambda>x. limiter_at g x = limiter_at g (snd (on_request opts oc req s))"
      "snd (on_request opts oc req s)" opts host oc req "fst (on_request opts oc req s)"] handlers_keep_limiters
  by (auto simp: serve_def split: prod.splits)

definition in_group :: "limit_group \<Rightarrow> occasion \<times> http_request \<Rightarrow> bool" where
  "in_group g = (\<lambda>(oc, req). limiter_group (hq_url req) = Some g)"

definition group_requests :: "limit_group \<Rightarrow> (occasion \<times> http_request) list \<Rightarrow> (string \<times> js_date) list" where
  "group_requests g reqs = map (\<lambda>(oc, req). (limit_key g req, oc_now oc)) (filter (in_group g) reqs)"

text \<open>
  The limits the server announces to the requests of one group (public, bootstrap or operators) are
  the decisions of that group's limiter on the group's own requests: whatever the requests of the other
  groups do in between, and whatever any handler does, they neither use up nor free its budget.
\<close>

theorem groups_isolated:
  "map (hy_limit \<circ> snd) (filter (in_group g \<circ> fst) (zip reqs (fst (serve_all opts host reqs s))))
     = map Some (fst (consume_all (limiter_options_for opts g) (group_requests g reqs) (limiter_at g s)))"
proof (induction reqs arbitrary: s)
  case (Cons x reqs)
  obtain oc req where x: "x = (oc, req)" by fastforce
  obtain reply s1 where here: "serve opts host oc req s = (reply, s1)" by fastforce
  show ?case
    using Cons.IH [of s1] serve_limits(1) [OF here] serve_limits(2) [OF here, of g]
    by (auto simp: x here group_requests_def in_group_def on_request_def case_prod_unfold Let_def
        split: option.splits)
qed (simp add: group_requests_def)

subsection \<open>Concrete requests\<close>

definition sample_options :: server_options where
  "sample_options = \<lparr>so_windowMs = 1000, so_publicMax = 10, so_bootstrapMax = 10, so_adminMax = 10,
     so_audit = True, so_metricsToken = None\<rparr>"

definition sample_services :: host_services where
  "sample_services = \<lparr>ho_jwt = sample_jwt, ho_sha256 = (\<lambda>_. []), ho_url = sample_url_of, ho_iso = show_int,
     ho_date = (\<lambda>_. None), ho_email = (\<lambda>_. True), ho_tokens = sample_tokens\<rparr>"

definition sample_occasion :: occasion where
  "sample_occasion = \<lparr>oc_clock = 5000000, oc_now = 5000,
     oc_conversation = \<lparr>id_conversation = ''c1'', id_userParticipant = ''u1'', id_agentParticipant = ''a1''\<rparr>,
     oc_message = sample_ids, oc_email = sample_email_ids, oc_bootstrap = sample_bootstrap_ids,
     oc_env = (\<lambda>_ d. d), oc_database_up = True\<rparr>"

definition sample_request :: "string \<Rightarrow> route \<Rightarrow> http_request" where
  "sample_request url ro = \<lparr>hq_id = ''r1'', hq_method = ''POST'', hq_url = url, hq_ip = ''10.0.0.1'',
     hq_authorization = None, hq_origin = Some ''https://a'', hq_key = Some ''k'', hq_route = Some ro\<rparr>"

definition sample_server :: server where
  "sample_server = \<lparr>sv_db = sample_db, sv_runs = Map.empty, sv_public = [], sv_bootstrap = [], sv_admin = [],
     sv_requests = Map.empty\<rparr>"

lemmas sample_http_defs = sample_options_def sample_services_def sample_occasion_def sample_request_def sample_server_def

lemma sample_refusal:
  assumes "serve opts host oc (sample_request url Create_route) s = (reply, s')"
  shows "hy_status reply = 401 \<or> hy_status reply = 429"
proof -
  have "idempotency_key_ok (hq_key (sample_request url Create_route))"
    by (simp add: idempotency_key_ok_def sample_request_def len_between_def code_unit_def)
  moreover have "fst (fst (create_handler host oc (sample_request url Create_route) s1)) = 401" for s1
    by (simp add: create_handler_def with_claims_def authenticate_def sample_request_def authorization_error_def)
  moreover have "hq_route (sample_request url Create_route) = Some Create_route"
    by (simp add: sample_request_def)
  ultimately have "fst (fst (run_handler opts host oc (sample_request url Create_route) limit s1)) \<in> {401, 429}"
    for limit s1
    by (simp add: run_handler_def request_ok_def create_schema_ok_def)
  then show ?thesis using assms by (auto simp: serve_def split: prod.splits) (metis fst_conv)+
qed

lemma refused_requests_change_nothing_witness:
  "\<exists>reply s'. serve sample_options sample_services sample_occasion
       (sample_request ''/v1/conversations'' Create_route) sample_server = (reply, s')
     \<and> sv_runs s' = sv_runs sample_server
     \<and> (\<exists>rows. length rows \<le> 1 \<and> sv_db s' = (sv_db sample_server)\<lparr>audit_events :=
          audit_events (sv_db sample_server) @ rows\<rparr>)"
proof -
  obtain reply s' where run: "serve sample_options sample_services sample_occasion
      (sample_request ''/v1/conversations'' Create_route) sample_server = (reply, s')" by fastforce
  then have "400 \<le> hy_status reply" "hy_status reply < 500" using sample_refusal by fastforce+
  then show ?thesis using refused_requests_change_nothing [OF run] run by blast
qed


end
