(* ===== verification/Provisioning.thy ===== *)
theory Provisioning
  imports Session Message
begin

text \<open>
  \<open>apps/server/src/provisioning/widget.ts\<close>: the operator's registration of a tenant, its site and a
  widget, the move of a site to another tenant with everything that belongs to it, and the export of the
  registry for the gateway. The messages of the errors are not modelled; the URL parser is a parameter.
\<close>

subsection \<open>Reading a configuration\<close>

record web_url = url +
  u_hostname :: string
  u_params :: "(string \<times> string) list"

datatype provisioning_error = Config_error | Database_error | Export_error

record tenant_config =
  tn_tenantId :: ident
  tn_displayName :: string

record site_config =
  sn_siteId :: ident
  sn_siteKey :: ident
  sn_displayName :: string
  sn_allowedOrigins :: "string list"
  sn_agentRef :: ident

record widget_settings =
  wg_widgetId :: ident
  wg_widgetKey :: ident
  wg_displayName :: string
  wg_version :: ident
  wg_theme :: ident
  wg_launcher :: ident
  wg_placement :: ident
  wg_defaultAgentAlias :: ident
  wg_agentAliases :: "agent_alias list"

record provisioning_config =
  pc_tenant :: tenant_config
  pc_site :: site_config
  pc_widget :: widget_settings

definition privateFieldNames :: "string list" where
  "privateFieldNames = [''agentSlug'', ''apiKey'', ''baseUrl'', ''connectorToken'', ''credential'', ''credentials'',
     ''haystackTenantKey'', ''model'', ''provider'', ''secret'', ''tenantKey'', ''token'']"

text \<open>
  Whether \<open>rejectPrivateFields\<close> throws. Of a key written twice the parsed object has only the last.
\<close>

fun private_field :: "json \<Rightarrow> bool" and private_elements :: "json list \<Rightarrow> bool"
  and private_members :: "(string \<times> json) list \<Rightarrow> bool" where
  "private_field (JArray js) = private_elements js"
| "private_field (JObject ps) = private_members ps"
| "private_field _ = False"
| "private_elements [] = False"
| "private_elements (j # js) = (private_field j \<or> private_elements js)"
| "private_members [] = False"
| "private_members ((k, v) # ps) =
     ((k \<notin> fst ` set ps \<and> (k \<in> set privateFieldNames \<or> private_field v)) \<or> private_members ps)"

fun is_record :: "json option \<Rightarrow> bool" where
  "is_record (Some (JObject ps)) = True"
| "is_record _ = False"

definition config_field :: "json option \<Rightarrow> string \<Rightarrow> json option" where
  "config_field value k = (case value of None \<Rightarrow> None | Some j \<Rightarrow> json_get j k)"

fun publicToken :: "json option \<Rightarrow> provisioning_error + string" where
  "publicToken (Some (JString s)) = (if opaque_id s then Inr s else Inl Config_error)"
| "publicToken _ = Inl Config_error"

fun displayText :: "nat \<Rightarrow> json option \<Rightarrow> provisioning_error + string" where
  "displayText maxLength (Some (JString s)) =
     (if trim s = [] \<or> maxLength < length s then Inl Config_error else Inr s)"
| "displayText maxLength _ = Inl Config_error"

fun exactHttpsOrigin :: "(string \<Rightarrow> web_url option) \<Rightarrow> json \<Rightarrow> provisioning_error + string" where
  "exactHttpsOrigin url_of (JString s) = (case url_of s of
       None \<Rightarrow> Inl Config_error
     | Some u \<Rightarrow> if u_protocol u \<noteq> ''https:'' \<or> u_origin u \<noteq> s then Inl Config_error else Inr (u_origin u))"
| "exactHttpsOrigin url_of _ = Inl Config_error"

fun parse_all :: "('a \<Rightarrow> 'e + 'b) \<Rightarrow> 'a list \<Rightarrow> 'e + 'b list" where
  "parse_all parser [] = Inr []"
| "parse_all parser (x # xs) =
     and_then (parser x) (\<lambda>y. and_then (parse_all parser xs) (\<lambda>ys. Inr (y # ys)))"

fun arrayOf :: "(json \<Rightarrow> provisioning_error + 'b) \<Rightarrow> json option \<Rightarrow> provisioning_error + 'b list" where
  "arrayOf parser (Some (JArray js)) = parse_all parser js"
| "arrayOf parser _ = Inl Config_error"

definition parseAgentAlias :: "json \<Rightarrow> provisioning_error + agent_alias" where
  "parseAgentAlias input =
     (if \<not> is_record (Some input) then Inl Config_error
      else and_then (publicToken (json_get input ''alias'')) (\<lambda>alias.
        and_then (displayText 80 (json_get input ''label'')) (\<lambda>label.
        and_then (publicToken (json_get input ''agentRef'')) (\<lambda>agentRef.
        Inr \<lparr>al_alias = alias, al_label = label, al_agentRef = agentRef,
             al_emailHandoff = (json_get input ''emailHandoff'' = Some (JBool True))\<rparr>))))"

definition parseTenant :: "json option \<Rightarrow> provisioning_error + tenant_config" where
  "parseTenant input =
     (if \<not> is_record input then Inl Config_error
      else and_then (publicToken (config_field input ''tenantId'')) (\<lambda>tenantId.
        and_then (displayText 200 (config_field input ''displayName'')) (\<lambda>name.
        Inr \<lparr>tn_tenantId = tenantId, tn_displayName = name\<rparr>)))"

text \<open>The agent of the site is known only after the widget is read.\<close>

definition parseSite ::
  "(string \<Rightarrow> web_url option) \<Rightarrow> json option \<Rightarrow> provisioning_error + (ident \<Rightarrow> site_config)" where
  "parseSite url_of input =
     (if \<not> is_record input then Inl Config_error
      else and_then (arrayOf (exactHttpsOrigin url_of) (config_field input ''allowedOrigins'')) (\<lambda>origins.
        if length origins = 0 \<or> 20 < length origins then Inl Config_error
        else and_then (publicToken (config_field input ''siteId'')) (\<lambda>siteId.
        and_then (publicToken (config_field input ''siteKey'')) (\<lambda>siteKey.
        and_then (displayText 200 (config_field input ''displayName'')) (\<lambda>name.
        Inr (\<lambda>agentRef. \<lparr>sn_siteId = siteId, sn_siteKey = siteKey, sn_displayName = name,
          sn_allowedOrigins = origins, sn_agentRef = agentRef\<rparr>))))))"

definition parseWidget :: "json option \<Rightarrow> provisioning_error + widget_settings" where
  "parseWidget input =
     (if \<not> is_record input then Inl Config_error
      else and_then (arrayOf parseAgentAlias (config_field input ''agentAliases'')) (\<lambda>aliases.
        if length aliases = 0 \<or> 20 < length aliases then Inl Config_error
        else if \<not> distinct (map al_alias aliases) then Inl Config_error
        else and_then (publicToken (config_field input ''widgetId'')) (\<lambda>widgetId.
        and_then (publicToken (config_field input ''widgetKey'')) (\<lambda>widgetKey.
        and_then (displayText 200 (config_field input ''displayName'')) (\<lambda>name.
        and_then (publicToken (config_field input ''version'')) (\<lambda>version.
        and_then (publicToken (config_field input ''theme'')) (\<lambda>theme.
        and_then (publicToken (config_field input ''launcher'')) (\<lambda>launcher.
        and_then (publicToken (config_field input ''placement'')) (\<lambda>placement.
        and_then (publicToken (config_field input ''defaultAgentAlias'')) (\<lambda>defaultAlias.
        Inr \<lparr>wg_widgetId = widgetId, wg_widgetKey = widgetKey, wg_displayName = name, wg_version = version,
          wg_theme = theme, wg_launcher = launcher, wg_placement = placement,
          wg_defaultAgentAlias = defaultAlias, wg_agentAliases = aliases\<rparr>))))))))))"

definition parseWidgetProvisioningConfig ::
  "(string \<Rightarrow> web_url option) \<Rightarrow> json \<Rightarrow> provisioning_error + provisioning_config" where
  "parseWidgetProvisioningConfig url_of input =
     (if private_field input then Inl Config_error
      else if \<not> is_record (Some input) then Inl Config_error
      else and_then (parseTenant (json_get input ''tenant'')) (\<lambda>tenant.
        and_then (parseSite url_of (json_get input ''site'')) (\<lambda>site.
        and_then (parseWidget (json_get input ''widget'')) (\<lambda>widget.
        case find (\<lambda>alias. al_alias alias = wg_defaultAgentAlias widget) (wg_agentAliases widget) of
          None \<Rightarrow> Inl Config_error
        | Some defaultAlias \<Rightarrow>
            Inr \<lparr>pc_tenant = tenant, pc_site = site (al_agentRef defaultAlias), pc_widget = widget\<rparr>))))"

subsection \<open>Registration\<close>

definition upsert_tenant :: "pg_time \<Rightarrow> tenant_config \<Rightarrow> db \<Rightarrow> db" where
  "upsert_tenant clock t d =
     (if exists_row (\<lambda>r. t_tenant_id r = tn_tenantId t) (tenants d)
      then d\<lparr>tenants := update_where (\<lambda>r. t_tenant_id r = tn_tenantId t)
             (\<lambda>r. r\<lparr>t_display_name := tn_displayName t\<rparr>) (tenants d)\<rparr>
      else d\<lparr>tenants := tenants d @ [\<lparr>t_tenant_id = tn_tenantId t, t_display_name = tn_displayName t,
             t_created_at = clock\<rparr>]\<rparr>)"

text \<open>
  The updates that move a site's rows. They can only clash with rows of the same site under the other
  tenant, which the keys into \<open>sites\<close>, whose primary key is the site, exclude.
\<close>

definition move_site :: "ident \<Rightarrow> ident \<Rightarrow> ident \<Rightarrow> db \<Rightarrow> db" where
  "move_site fromTenant siteId toTenant d =
     d\<lparr>browser_sessions := update_where (\<lambda>r. bs_tenant_id r = fromTenant \<and> bs_site_id r = siteId)
          (\<lambda>r. r\<lparr>bs_tenant_id := toTenant\<rparr>) (browser_sessions d),
       command_idempotency := update_where (\<lambda>r. k_tenant_id r = fromTenant \<and> k_site_id r = siteId)
          (\<lambda>r. r\<lparr>k_tenant_id := toTenant\<rparr>) (command_idempotency d),
       messages := update_where (\<lambda>r. m_tenant_id r = fromTenant \<and> m_site_id r = siteId)
          (\<lambda>r. r\<lparr>m_tenant_id := toTenant\<rparr>) (messages d),
       conversation_events := update_where (\<lambda>r. e_tenant_id r = fromTenant \<and> e_site_id r = siteId)
          (\<lambda>r. r\<lparr>e_tenant_id := toTenant\<rparr>) (conversation_events d),
       conversation_participants := update_where (\<lambda>r. cp_tenant_id r = fromTenant \<and> cp_site_id r = siteId)
          (\<lambda>r. r\<lparr>cp_tenant_id := toTenant\<rparr>) (conversation_participants d),
       agent_runs := update_where (\<lambda>r. r_tenant_id r = fromTenant \<and> r_site_id r = siteId)
          (\<lambda>r. r\<lparr>r_tenant_id := toTenant\<rparr>) (agent_runs d),
       handoffs := update_where (\<lambda>r. h_tenant_id r = fromTenant \<and> h_site_id r = siteId)
          (\<lambda>r. r\<lparr>h_tenant_id := toTenant\<rparr>) (handoffs d),
       structured_input_requests := update_where (\<lambda>r. i_tenant_id r = fromTenant \<and> i_site_id r = siteId)
          (\<lambda>r. r\<lparr>i_tenant_id := toTenant\<rparr>) (structured_input_requests d),
       conversations := update_where (\<lambda>r. c_tenant_id r = fromTenant \<and> c_site_id r = siteId)
          (\<lambda>r. r\<lparr>c_tenant_id := toTenant\<rparr>) (conversations d),
       principals := update_where (\<lambda>r. pr_tenant_id r = fromTenant \<and> pr_site_id r = siteId)
          (\<lambda>r. r\<lparr>pr_tenant_id := toTenant\<rparr>) (principals d),
       site_widgets := update_where (\<lambda>r. w_tenant_id r = fromTenant \<and> w_site_id r = siteId)
          (\<lambda>r. r\<lparr>w_tenant_id := toTenant\<rparr>) (site_widgets d),
       audit_events := update_where (\<lambda>r. a_tenant_id r = Some fromTenant \<and> a_site_id r = Some siteId)
          (\<lambda>r. r\<lparr>a_tenant_id := Some toTenant\<rparr>) (audit_events d)\<rparr>"

text \<open>\<open>ON CONFLICT (site_key) DO UPDATE\<close>: the identifier of a known site stays.\<close>

definition upsert_site :: "pg_time \<Rightarrow> ident \<Rightarrow> site_config \<Rightarrow> db \<Rightarrow> provisioning_error + db" where
  "upsert_site clock tenantId s d =
     (if exists_row (\<lambda>r. s_site_key r = sn_siteKey s) (sites d)
      then Inr (d\<lparr>sites := update_where (\<lambda>r. s_site_key r = sn_siteKey s)
             (\<lambda>r. r\<lparr>s_tenant_id := tenantId, s_display_name := sn_displayName s,
                s_allowed_origins := sn_allowedOrigins s, s_agent_ref := sn_agentRef s\<rparr>) (sites d)\<rparr>)
      else if exists_row (\<lambda>r. s_site_id r = sn_siteId s) (sites d) then Inl Database_error
      else Inr (d\<lparr>sites := sites d @ [\<lparr>s_site_id = sn_siteId s, s_tenant_id = tenantId,
             s_site_key = sn_siteKey s, s_display_name = sn_displayName s,
             s_allowed_origins = sn_allowedOrigins s, s_agent_ref = sn_agentRef s, s_created_at = clock\<rparr>]\<rparr>))"

definition widget_values :: "ident \<Rightarrow> ident \<Rightarrow> pg_time \<Rightarrow> widget_settings \<Rightarrow> widget_row \<Rightarrow> widget_row" where
  "widget_values tenantId siteId updated w r =
     r\<lparr>w_tenant_id := tenantId, w_site_id := siteId, w_widget_key := wg_widgetKey w,
       w_display_name := wg_displayName w, w_version := wg_version w, w_theme := wg_theme w,
       w_launcher := wg_launcher w, w_placement := wg_placement w,
       w_default_agent_alias := wg_defaultAgentAlias w, w_agent_aliases := wg_agentAliases w,
       w_updated_at := updated\<rparr>"

definition new_widget :: "ident \<Rightarrow> ident \<Rightarrow> pg_time \<Rightarrow> widget_settings \<Rightarrow> widget_row" where
  "new_widget tenantId siteId clock w =
     \<lparr>w_widget_id = wg_widgetId w, w_tenant_id = tenantId, w_site_id = siteId, w_widget_key = wg_widgetKey w,
      w_display_name = wg_displayName w, w_version = wg_version w, w_theme = wg_theme w,
      w_launcher = wg_launcher w, w_placement = wg_placement w,
      w_default_agent_alias = wg_defaultAgentAlias w, w_agent_aliases = wg_agentAliases w,
      w_created_at = clock, w_updated_at = clock\<rparr>"

definition upsert_widget ::
  "pg_time \<Rightarrow> js_date \<Rightarrow> ident \<Rightarrow> ident \<Rightarrow> widget_settings \<Rightarrow> db \<Rightarrow> provisioning_error + db" where
  "upsert_widget clock now tenantId siteId w d =
     (if exists_row (\<lambda>r. w_widget_id r \<noteq> wg_widgetId w \<and> w_tenant_id r = tenantId \<and> w_site_id r = siteId
           \<and> w_widget_key r = wg_widgetKey w) (site_widgets d)
      then Inl Database_error
      else if exists_row (\<lambda>r. w_widget_id r = wg_widgetId w) (site_widgets d)
      then Inr (d\<lparr>site_widgets := update_where (\<lambda>r. w_widget_id r = wg_widgetId w)
             (widget_values tenantId siteId (to_pg now) w) (site_widgets d)\<rparr>)
      else Inr (d\<lparr>site_widgets := site_widgets d @ [new_widget tenantId siteId clock w]\<rparr>))"

text \<open>The keys of migration 011, which the transaction may defer to its end, and the site's own.\<close>

definition scope_keys_hold :: "db \<Rightarrow> bool" where
  "scope_keys_hold d \<longleftrightarrow>
     list_all (\<lambda>s. exists_row (\<lambda>t. t_tenant_id t = s_tenant_id s) (tenants d)) (sites d)
   \<and> list_all (\<lambda>w. site_exists d (w_tenant_id w) (w_site_id w)) (site_widgets d)
   \<and> list_all (\<lambda>p. site_exists d (pr_tenant_id p) (pr_site_id p)) (principals d)
   \<and> list_all (\<lambda>b. principal_exists d (bs_tenant_id b) (bs_site_id b) (bs_principal_id b)) (browser_sessions d)
   \<and> list_all (\<lambda>c. principal_exists d (c_tenant_id c) (c_site_id c) (c_principal_id c)) (conversations d)
   \<and> list_all (\<lambda>p. conversation_exists d (cp_tenant_id p) (cp_site_id p) (cp_conversation_id p))
       (conversation_participants d)
   \<and> list_all (\<lambda>m. participant_exists d (m_tenant_id m) (m_site_id m) (m_conversation_id m) (m_participant_id m))
       (messages d)
   \<and> list_all (\<lambda>e. conversation_exists d (e_tenant_id e) (e_site_id e) (e_conversation_id e))
       (conversation_events d)
   \<and> list_all (\<lambda>r. conversation_exists d (r_tenant_id r) (r_site_id r) (r_conversation_id r)) (agent_runs d)"

definition provision_transaction ::
  "pg_time \<Rightarrow> js_date \<Rightarrow> provisioning_config \<Rightarrow> db \<Rightarrow> provisioning_error + db" where
  "provision_transaction clock now config d =
     (let tenantId = tn_tenantId (pc_tenant config);
          d1 = upsert_tenant clock (pc_tenant config) d;
          d2 = (case find (\<lambda>s. s_site_key s = sn_siteKey (pc_site config)) (sites d1) of
              None \<Rightarrow> d1
            | Some site \<Rightarrow>
                if s_tenant_id site \<noteq> tenantId then move_site (s_tenant_id site) (s_site_id site) tenantId d1
                else d1)
      in and_then (upsert_site clock tenantId (pc_site config) d2) (\<lambda>d3.
         and_then (upsert_widget clock now tenantId (sn_siteId (pc_site config)) (pc_widget config) d3) (\<lambda>d4.
         if scope_keys_hold d4 then Inr d4 else Inl Database_error)))"

definition provisionWidgetRegistry ::
  "(string \<Rightarrow> web_url option) \<Rightarrow> pg_time \<Rightarrow> js_date \<Rightarrow> json \<Rightarrow> db
    \<Rightarrow> provisioning_error + (provisioning_config \<times> db)" where
  "provisionWidgetRegistry url_of clock now input d =
     and_then (parseWidgetProvisioningConfig url_of input) (\<lambda>config.
       and_then (provision_transaction clock now config d) (\<lambda>d'. Inr (config, d')))"

subsection \<open>Export\<close>

record worker_alias =
  wa_siteKey :: ident
  wa_label :: string
  wa_emailHandoff :: bool

record worker_site =
  ws_siteKey :: ident
  ws_allowedOrigins :: "string list"
  ws_widgetKey :: ident
  ws_version :: ident
  ws_defaultAgent :: ident
  ws_theme :: ident
  ws_launcher :: ident
  ws_placement :: ident
  ws_agentAliases :: "(ident \<times> worker_alias) list"

text \<open>
  A property read of a plain object also finds what the object inherits from \<open>Object.prototype\<close>; the
  names that begin with an underscore are not possible keys here.
\<close>

definition inherited_name :: "string \<Rightarrow> bool" where
  "inherited_name k \<longleftrightarrow> k \<in> {''constructor'', ''hasOwnProperty'', ''isPrototypeOf'', ''propertyIsEnumerable'',
     ''toLocaleString'', ''toString'', ''valueOf''}"

definition defines_property :: "(string \<times> 'a) list \<Rightarrow> string \<Rightarrow> bool" where
  "defines_property ps k \<longleftrightarrow> k \<in> fst ` set ps \<or> inherited_name k"

text \<open>An assignment keeps the place of a key already there.\<close>

fun put_property :: "string \<Rightarrow> 'a \<Rightarrow> (string \<times> 'a) list \<Rightarrow> (string \<times> 'a) list" where
  "put_property k v [] = [(k, v)]"
| "put_property k v ((k', v') # ps) = (if k' = k then (k, v) # ps else (k', v') # put_property k v ps)"

definition worker_aliases :: "ident \<Rightarrow> agent_alias list \<Rightarrow> (ident \<times> worker_alias) list" where
  "worker_aliases siteKey aliases = fold (\<lambda>alias ps. put_property (al_alias alias)
     \<lparr>wa_siteKey = siteKey, wa_label = al_label alias, wa_emailHandoff = al_emailHandoff alias\<rparr> ps) aliases []"

definition hostnameForOrigin :: "(string \<Rightarrow> web_url option) \<Rightarrow> string \<Rightarrow> provisioning_error + string" where
  "hostnameForOrigin url_of origin = (case url_of origin of
     None \<Rightarrow> Inl Export_error
   | Some u \<Rightarrow> if u_protocol u \<noteq> ''https:'' \<or> u_origin u \<noteq> origin then Inl Export_error
              else Inr (map lower_char (u_hostname u)))"

text \<open>The rows of the join, by site and then by widget.\<close>

definition export_rows :: "db \<Rightarrow> (widget_row \<times> site_row) list" where
  "export_rows d = order_asc (\<lambda>(w, s). s_site_id s) (order_asc (\<lambda>(w, s). w_widget_id w)
     [(w, s). w \<leftarrow> site_widgets d, s \<leftarrow> sites d,
        s_tenant_id s = w_tenant_id w \<and> s_site_id s = w_site_id w])"

definition worker_entry :: "widget_row \<Rightarrow> site_row \<Rightarrow> worker_site" where
  "worker_entry w s =
     \<lparr>ws_siteKey = s_site_key s, ws_allowedOrigins = s_allowed_origins s, ws_widgetKey = w_widget_key w,
      ws_version = w_version w, ws_defaultAgent = w_default_agent_alias w, ws_theme = w_theme w,
      ws_launcher = w_launcher w, ws_placement = w_placement w,
      ws_agentAliases = worker_aliases (s_site_key s) (w_agent_aliases w)\<rparr>"

fun export_origins ::
  "(string \<Rightarrow> web_url option) \<Rightarrow> worker_site \<Rightarrow> string list \<Rightarrow> (string \<times> worker_site) list
    \<Rightarrow> provisioning_error + (string \<times> worker_site) list" where
  "export_origins url_of entry [] out = Inr out"
| "export_origins url_of entry (origin # origins) out =
     and_then (hostnameForOrigin url_of origin) (\<lambda>hostname.
       if defines_property out hostname then Inl Export_error
       else export_origins url_of entry origins (put_property hostname entry out))"

fun export_widgets ::
  "(string \<Rightarrow> web_url option) \<Rightarrow> (widget_row \<times> site_row) list \<Rightarrow> (string \<times> worker_site) list
    \<Rightarrow> provisioning_error + (string \<times> worker_site) list" where
  "export_widgets url_of [] out = Inr out"
| "export_widgets url_of ((w, s) # rows) out =
     (let entry = worker_entry w s
      in if \<not> defines_property (ws_agentAliases entry) (w_default_agent_alias w) then Inl Export_error
         else and_then (export_origins url_of entry (s_allowed_origins s) out) (export_widgets url_of rows))"

definition exportWorkerChatSites ::
  "(string \<Rightarrow> web_url option) \<Rightarrow> db \<Rightarrow> provisioning_error + (string \<times> worker_site) list" where
  "exportWorkerChatSites url_of d = export_widgets url_of (export_rows d) []"

subsection \<open>A table whose rows belong to a site\<close>

lemma order_asc_map:
  assumes "\<And>x. k (f x) = k x"
  shows "order_asc k (map f xs) = map f (order_asc k xs)"
proof -
  have "insort_key k (f x) (map f ys) = map f (insort_key k x ys)" for x ys
    using assms by (induction ys) auto
  then show ?thesis by (induction xs) (auto simp: order_asc_def)
qed

text \<open>
  What a move needs of a table: its rows carry a tenant and a site, and setting the tenant leaves the
  site. Then a query under the new tenant finds, moved, what the query under the old one found.
\<close>

locale scoped_table =
  fixes tenant :: "'r \<Rightarrow> ident" and site :: "'r \<Rightarrow> ident" and retenant :: "ident \<Rightarrow> 'r \<Rightarrow> 'r"
  assumes tenant_retenant [simp]: "tenant (retenant b r) = b"
    and site_retenant [simp]: "site (retenant b r) = site r"
begin

lemma filter_moved:
  assumes "\<forall>r \<in> set rs. site r = s \<longrightarrow> tenant r = a" and "\<And>r. Q (retenant b r) = Q r"
  shows "filter (\<lambda>r. tenant r = b \<and> site r = s \<and> Q r) (update_where (\<lambda>r. tenant r = a \<and> site r = s) (retenant b) rs)
     = map (retenant b) (filter (\<lambda>r. tenant r = a \<and> site r = s \<and> Q r) rs)"
  using assms(1) by (induction rs) (auto simp: update_where_def assms(2))

lemma find_moved:
  assumes "\<forall>r \<in> set rs. site r = s \<longrightarrow> tenant r = a" and "\<And>r. Q (retenant b r) = Q r"
  shows "find (\<lambda>r. tenant r = b \<and> site r = s \<and> Q r) (update_where (\<lambda>r. tenant r = a \<and> site r = s) (retenant b) rs)
     = map_option (retenant b) (find (\<lambda>r. tenant r = a \<and> site r = s \<and> Q r) rs)"
  using assms(1) by (induction rs) (auto simp: update_where_def assms(2))

lemma none_left:
  assumes "a \<noteq> b"
  shows "find (\<lambda>r. tenant r = a \<and> site r = s \<and> Q r) (update_where (\<lambda>r. tenant r = a \<and> site r = s) (retenant b) rs)
     = None"
  using assms by (induction rs) (auto simp: update_where_def)

lemma exists_moved:
  assumes "\<exists>r \<in> set rs. tenant r = t \<and> site r = s' \<and> Q r" and "\<And>r. Q (retenant b r) = Q r"
  shows "\<exists>r \<in> set (update_where (\<lambda>r. tenant r = a \<and> site r = s) (retenant b) rs).
     tenant r = (if t = a \<and> s' = s then b else t) \<and> site r = s' \<and> Q r"
proof -
  obtain r where r: "r \<in> set rs" "tenant r = t" "site r = s'" "Q r" using assms(1) by blast
  then have "(if tenant r = a \<and> site r = s then retenant b r else r)
      \<in> set (update_where (\<lambda>r. tenant r = a \<and> site r = s) (retenant b) rs)"
    by (auto simp: update_where_def)
  then show ?thesis using r assms(2) by (intro bexI) auto
qed

text \<open>A key of the rows that a move carries along.\<close>

lemma key_moved:
  assumes "list_all (\<lambda>r. E (tenant r) (site r) r) rs"
    and "\<And>t s' r. E t s' r \<Longrightarrow> E' (if t = a \<and> s' = s then b else t) s' r"
    and "\<And>t s' r. E' t s' (retenant b r) = E' t s' r"
  shows "list_all (\<lambda>r. E' (tenant r) (site r) r) (update_where (\<lambda>r. tenant r = a \<and> site r = s) (retenant b) rs)"
proof -
  have "E' (tenant (if tenant r = a \<and> site r = s then retenant b r else r))
      (site (if tenant r = a \<and> site r = s then retenant b r else r))
      (if tenant r = a \<and> site r = s then retenant b r else r)" if "r \<in> set rs" for r
    using assms(1,3) assms(2) [of "tenant r" "site r" r] that by (auto simp: list_all_iff split: if_splits)
  then show ?thesis by (simp only: list_all_iff update_where_def set_map) blast
qed

end

interpretation principal_table: scoped_table pr_tenant_id pr_site_id "\<lambda>b r. r\<lparr>pr_tenant_id := b\<rparr>"
  by unfold_locales simp_all

interpretation conversation_table: scoped_table c_tenant_id c_site_id "\<lambda>b r. r\<lparr>c_tenant_id := b\<rparr>"
  by unfold_locales simp_all

interpretation participant_table: scoped_table cp_tenant_id cp_site_id "\<lambda>b r. r\<lparr>cp_tenant_id := b\<rparr>"
  by unfold_locales simp_all

interpretation message_table: scoped_table m_tenant_id m_site_id "\<lambda>b r. r\<lparr>m_tenant_id := b\<rparr>"
  by unfold_locales simp_all

interpretation session_table: scoped_table bs_tenant_id bs_site_id "\<lambda>b r. r\<lparr>bs_tenant_id := b\<rparr>"
  by unfold_locales simp_all

interpretation event_table: scoped_table e_tenant_id e_site_id "\<lambda>b r. r\<lparr>e_tenant_id := b\<rparr>"
  by unfold_locales simp_all

interpretation run_table: scoped_table r_tenant_id r_site_id "\<lambda>b r. r\<lparr>r_tenant_id := b\<rparr>"
  by unfold_locales simp_all

subsection \<open>One tenant for each site\<close>

definition one_tenant :: "db \<Rightarrow> ident \<Rightarrow> ident \<Rightarrow> bool" where
  "one_tenant d s a \<longleftrightarrow> (\<forall>c \<in> set (conversations d). c_site_id c = s \<longrightarrow> c_tenant_id c = a)
     \<and> (\<forall>p \<in> set (conversation_participants d). cp_site_id p = s \<longrightarrow> cp_tenant_id p = a)
     \<and> (\<forall>m \<in> set (messages d). m_site_id m = s \<longrightarrow> m_tenant_id m = a)"

lemma keys_one_tenant:
  assumes keys: "scope_keys_hold d" and ids: "distinct (map s_site_id (sites d))" and s: "s \<in> set (sites d)"
  shows "one_tenant d (s_site_id s) (s_tenant_id s)"
proof -
  have site: "t = s_tenant_id s" if "site_exists d t (s_site_id s)" for t
    using that distinct_map_inj [OF ids _ s] by (auto simp: site_exists_def)
  have prin: "t = s_tenant_id s" if "principal_exists d t (s_site_id s) p" for t p
    using that keys site by (auto simp: principal_exists_def scope_keys_hold_def list_all_iff)
  have conv: "t = s_tenant_id s" if "conversation_exists d t (s_site_id s) c" for t c
    using that keys prin by (fastforce simp: conversation_exists_def scope_keys_hold_def list_all_iff)
  have part: "t = s_tenant_id s" if "participant_exists d t (s_site_id s) c p" for t c p
    using that keys conv by (fastforce simp: participant_exists_def scope_keys_hold_def list_all_iff)
  show ?thesis
    using keys prin conv part by (fastforce simp: one_tenant_def scope_keys_hold_def list_all_iff)
qed

subsection \<open>A move changes who owns the rows, not what they say\<close>

definition for_tenant :: "ident \<Rightarrow> conversation_scope \<Rightarrow> conversation_scope" where
  "for_tenant b scope = scope\<lparr>sc_tenantId := b\<rparr>"

lemma find_conversation_moved:
  assumes "one_tenant d (sc_siteId scope) (sc_tenantId scope)"
  shows "find_conversation (for_tenant b scope) cid (move_site (sc_tenantId scope) (sc_siteId scope) b d)
     = map_option (\<lambda>c. c\<lparr>c_tenant_id := b\<rparr>) (find_conversation scope cid d)"
  using assms conversation_table.find_moved [of "conversations d" "sc_siteId scope" "sc_tenantId scope"
      "\<lambda>c. c_principal_id c = sc_principalId scope \<and> c_conversation_id c = cid" b]
  by (simp add: find_conversation_def for_tenant_def move_site_def one_tenant_def)

lemma get_conversation_moved:
  assumes "one_tenant d (sc_siteId scope) (sc_tenantId scope)"
  shows "get_conversation (for_tenant b scope) cid (move_site (sc_tenantId scope) (sc_siteId scope) b d)
     = map_sum (\<lambda>e. e) (\<lambda>c. c\<lparr>co_tenantId := b\<rparr>) (get_conversation scope cid d)"
proof -
  have "filter (\<lambda>p. cp_tenant_id p = b \<and> cp_site_id p = sc_siteId scope \<and> cp_conversation_id p = cid)
      (conversation_participants (move_site (sc_tenantId scope) (sc_siteId scope) b d))
    = map (\<lambda>r. r\<lparr>cp_tenant_id := b\<rparr>) (filter (\<lambda>p. cp_tenant_id p = sc_tenantId scope
        \<and> cp_site_id p = sc_siteId scope \<and> cp_conversation_id p = cid) (conversation_participants d))"
    using assms participant_table.filter_moved [of "conversation_participants d" "sc_siteId scope"
        "sc_tenantId scope" "\<lambda>p. cp_conversation_id p = cid" b]
    by (simp add: move_site_def one_tenant_def)
  then show ?thesis
    using find_conversation_moved [OF assms, of b cid]
    by (auto simp: get_conversation_def for_tenant_def users_first_def order_asc_map comp_def Let_def
        split: option.split participant_ref.split)
qed

lemma page_of_map:
  "page_of limit (map f query) = (map f (fst (page_of limit query)), map_option f (snd (page_of limit query)))"
  by (simp add: page_of_def Let_def take_map last_map)

lemma list_messages_moved:
  assumes "one_tenant d (sc_siteId scope) (sc_tenantId scope)"
  shows "list_messages (for_tenant b scope) cid limit cursor (move_site (sc_tenantId scope) (sc_siteId scope) b d)
     = list_messages scope cid limit cursor d"
proof -
  let ?f = "\<lambda>r :: message_row. r\<lparr>m_tenant_id := b\<rparr>"
  have rows: "scoped_messages (for_tenant b scope) cid (move_site (sc_tenantId scope) (sc_siteId scope) b d)
      = map ?f (scoped_messages scope cid d)"
    using assms message_table.filter_moved [of "messages d" "sc_siteId scope"
        "sc_tenantId scope" "\<lambda>m. m_conversation_id m = cid" b]
    by (simp add: scoped_messages_def for_tenant_def move_site_def one_tenant_def)
  have found: "requireConversation (for_tenant b scope) cid (move_site (sc_tenantId scope) (sc_siteId scope) b d)
      = requireConversation scope cid d"
    using find_conversation_moved [OF assms, of b cid] by (simp add: requireConversation_def)
  have query: "order_asc m_sequence (filter (\<lambda>m. case after of None \<Rightarrow> True | Some sequence \<Rightarrow> m_sequence m > sequence)
      (map ?f ms)) = map ?f (order_asc m_sequence
        (filter (\<lambda>m. case after of None \<Rightarrow> True | Some sequence \<Rightarrow> m_sequence m > sequence) ms))"
    for after :: "int option" and ms
    by (cases after) (simp_all add: filter_map comp_def order_asc_map)
  have same: "mapMessage (?f r) = mapMessage r" "m_sequence (?f r) = m_sequence r" for r by (simp_all add: mapMessage_def)
  show ?thesis
    by (simp only: list_messages_def found rows query page_of_map Let_def case_prod_unfold fst_conv snd_conv map_map
        comp_def same option.map_comp)
qed

subsection \<open>What the registration leaves of the rows\<close>

definition same_chats :: "db \<Rightarrow> db \<Rightarrow> bool" where
  "same_chats d d' \<longleftrightarrow> conversations d' = conversations d \<and> messages d' = messages d
     \<and> conversation_participants d' = conversation_participants d"

lemma same_chats_trans: "same_chats d d1 \<Longrightarrow> same_chats d1 d2 \<Longrightarrow> same_chats d d2"
  by (simp add: same_chats_def)

lemma same_chats_upserts:
  "same_chats d (upsert_tenant clock t d)"
  "upsert_site clock tenantId s d = Inr d' \<Longrightarrow> same_chats d d'"
  "upsert_widget clock now tenantId siteId w d = Inr d' \<Longrightarrow> same_chats d d'"
  by (auto simp: same_chats_def upsert_tenant_def upsert_site_def upsert_widget_def split: if_splits)

lemma same_chats_find: "same_chats d d' \<Longrightarrow> find_conversation scope cid d' = find_conversation scope cid d"
  by (simp add: same_chats_def find_conversation_def)

lemma same_chats_get: "same_chats d d' \<Longrightarrow> get_conversation scope cid d' = get_conversation scope cid d"
  using same_chats_find [of d d' scope cid]
  by (cases "find_conversation scope cid d") (simp_all add: get_conversation_def same_chats_def)

lemma same_chats_list:
  "same_chats d d' \<Longrightarrow> list_messages scope cid limit cursor d' = list_messages scope cid limit cursor d"
  using same_chats_find [of d d' scope cid]
  by (simp add: list_messages_def requireConversation_def scoped_messages_def same_chats_def)

lemma same_chats_one_tenant: "same_chats d d' \<Longrightarrow> one_tenant d' s a = one_tenant d s a"
  by (simp add: same_chats_def one_tenant_def)

lemma upsert_tenant_sites [simp]:
  "sites (upsert_tenant clock t d) = sites d" "site_widgets (upsert_tenant clock t d) = site_widgets d"
  by (simp_all add: upsert_tenant_def)

lemma provision_moves:
  assumes "provision_transaction clock now config d = Inr d'"
    and "find (\<lambda>s. s_site_key s = sn_siteKey (pc_site config)) (sites d) = Some site"
    and "s_tenant_id site \<noteq> tn_tenantId (pc_tenant config)"
  shows "same_chats (move_site (s_tenant_id site) (s_site_id site) (tn_tenantId (pc_tenant config))
     (upsert_tenant clock (pc_tenant config) d)) d'"
  using assms by (auto simp: provision_transaction_def Let_def split: if_splits
      dest!: same_chats_upserts(2,3) intro: same_chats_trans)

text \<open>
  C28: when the operator registers a site under another tenant, every visitor finds, under the new tenant,
  exactly the conversations and the pages of messages that the old tenant had for that visitor: the
  answers differ in nothing but the tenant's name. Under the old tenant, whose name the tokens issued
  before still carry, no conversation of the site is found any more.
\<close>

theorem moved_site_reads_same:
  assumes "provision_transaction clock now config d = Inr d'"
    and "find (\<lambda>s. s_site_key s = sn_siteKey (pc_site config)) (sites d) = Some site"
    and "s_tenant_id site \<noteq> tn_tenantId (pc_tenant config)"
    and "scope_keys_hold d" and "distinct (map s_site_id (sites d))"
    and "sc_tenantId scope = s_tenant_id site" and "sc_siteId scope = s_site_id site"
  shows "get_conversation (for_tenant (tn_tenantId (pc_tenant config)) scope) cid d'
       = map_sum (\<lambda>e. e) (\<lambda>c. c\<lparr>co_tenantId := tn_tenantId (pc_tenant config)\<rparr>) (get_conversation scope cid d)
     \<and> list_messages (for_tenant (tn_tenantId (pc_tenant config)) scope) cid limit cursor d'
       = list_messages scope cid limit cursor d
     \<and> get_conversation scope cid d' = Inl (ApiError CONVERSATION_NOT_FOUND 404)"
proof -
  let ?b = "tn_tenantId (pc_tenant config)" and ?d1 = "upsert_tenant clock (pc_tenant config) d"
  let ?d2 = "move_site (sc_tenantId scope) (sc_siteId scope) ?b ?d1"
  have d1: "same_chats d ?d1" by (rule same_chats_upserts(1))
  have d2: "same_chats ?d2 d'" using provision_moves [OF assms(1-3)] assms(6,7) by simp
  have one: "one_tenant ?d1 (sc_siteId scope) (sc_tenantId scope)"
    using keys_one_tenant [OF assms(4,5)] find_SomeD [OF assms(2)] assms(6,7) same_chats_one_tenant [OF d1] by simp
  have "find_conversation scope cid ?d2 = None"
    using conversation_table.none_left [of "sc_tenantId scope" ?b "sc_siteId scope"
        "\<lambda>c. c_principal_id c = sc_principalId scope \<and> c_conversation_id c = cid"] assms(3,6)
    by (simp add: find_conversation_def move_site_def)
  then have "get_conversation scope cid ?d2 = Inl (ApiError CONVERSATION_NOT_FOUND 404)"
    by (simp add: get_conversation_def)
  then show ?thesis
    using get_conversation_moved [OF one, of ?b cid] list_messages_moved [OF one, of ?b cid limit cursor]
    by (simp add: same_chats_get [OF d2] same_chats_list [OF d2] same_chats_get [OF d1] same_chats_list [OF d1])
qed

subsection \<open>The keys survive a move\<close>

lemma move_site_tables:
  "browser_sessions (move_site a s b d) = update_where (\<lambda>r. bs_tenant_id r = a \<and> bs_site_id r = s)
     (\<lambda>r. r\<lparr>bs_tenant_id := b\<rparr>) (browser_sessions d)"
  "conversations (move_site a s b d) = update_where (\<lambda>r. c_tenant_id r = a \<and> c_site_id r = s)
     (\<lambda>r. r\<lparr>c_tenant_id := b\<rparr>) (conversations d)"
  "conversation_participants (move_site a s b d) = update_where (\<lambda>r. cp_tenant_id r = a \<and> cp_site_id r = s)
     (\<lambda>r. r\<lparr>cp_tenant_id := b\<rparr>) (conversation_participants d)"
  "messages (move_site a s b d) = update_where (\<lambda>r. m_tenant_id r = a \<and> m_site_id r = s)
     (\<lambda>r. r\<lparr>m_tenant_id := b\<rparr>) (messages d)"
  "conversation_events (move_site a s b d) = update_where (\<lambda>r. e_tenant_id r = a \<and> e_site_id r = s)
     (\<lambda>r. r\<lparr>e_tenant_id := b\<rparr>) (conversation_events d)"
  "agent_runs (move_site a s b d) = update_where (\<lambda>r. r_tenant_id r = a \<and> r_site_id r = s)
     (\<lambda>r. r\<lparr>r_tenant_id := b\<rparr>) (agent_runs d)"
  "principals (move_site a s b d) = update_where (\<lambda>r. pr_tenant_id r = a \<and> pr_site_id r = s)
     (\<lambda>r. r\<lparr>pr_tenant_id := b\<rparr>) (principals d)"
  "site_widgets (move_site a s b d) = update_where (\<lambda>r. w_tenant_id r = a \<and> w_site_id r = s)
     (\<lambda>r. r\<lparr>w_tenant_id := b\<rparr>) (site_widgets d)"
  by (simp_all add: move_site_def)

lemma moved_parents:
  "principal_exists d t s' p \<Longrightarrow> principal_exists (move_site a s b d) (if t = a \<and> s' = s then b else t) s' p"
  "conversation_exists d t s' c \<Longrightarrow> conversation_exists (move_site a s b d) (if t = a \<and> s' = s then b else t) s' c"
  "participant_exists d t s' c p \<Longrightarrow> participant_exists (move_site a s b d) (if t = a \<and> s' = s then b else t) s' c p"
  unfolding principal_exists_def conversation_exists_def participant_exists_def exists_row_iff
  by (drule principal_table.exists_moved [where Q = "\<lambda>r. pr_principal_id r = p" and a = a and s = s and b = b]
        conversation_table.exists_moved [where Q = "\<lambda>r. c_conversation_id r = c" and a = a and s = s and b = b]
        participant_table.exists_moved [where Q = "\<lambda>r. cp_conversation_id r = c \<and> cp_participant_id r = p"
          and a = a and s = s and b = b];
      simp add: move_site_def)+

definition lower_keys_hold :: "db \<Rightarrow> bool" where
  "lower_keys_hold d \<longleftrightarrow>
     list_all (\<lambda>b. principal_exists d (bs_tenant_id b) (bs_site_id b) (bs_principal_id b)) (browser_sessions d)
   \<and> list_all (\<lambda>c. principal_exists d (c_tenant_id c) (c_site_id c) (c_principal_id c)) (conversations d)
   \<and> list_all (\<lambda>p. conversation_exists d (cp_tenant_id p) (cp_site_id p) (cp_conversation_id p))
       (conversation_participants d)
   \<and> list_all (\<lambda>m. participant_exists d (m_tenant_id m) (m_site_id m) (m_conversation_id m) (m_participant_id m))
       (messages d)
   \<and> list_all (\<lambda>e. conversation_exists d (e_tenant_id e) (e_site_id e) (e_conversation_id e))
       (conversation_events d)
   \<and> list_all (\<lambda>r. conversation_exists d (r_tenant_id r) (r_site_id r) (r_conversation_id r)) (agent_runs d)"

lemma lower_keys_moved:
  assumes "lower_keys_hold d"
  shows "lower_keys_hold (move_site a s b d)"
proof -
  let ?m = "move_site a s b d"
  have "list_all (\<lambda>r. principal_exists ?m (bs_tenant_id r) (bs_site_id r) (bs_principal_id r)) (browser_sessions ?m)"
    unfolding move_site_tables(1)
    by (rule session_table.key_moved [where E = "\<lambda>t s r. principal_exists d t s (bs_principal_id r)"
        and E' = "\<lambda>t s r. principal_exists ?m t s (bs_principal_id r)"])
      (use assms moved_parents(1) [of d] in \<open>simp_all add: lower_keys_hold_def\<close>)
  moreover have "list_all (\<lambda>r. principal_exists ?m (c_tenant_id r) (c_site_id r) (c_principal_id r)) (conversations ?m)"
    unfolding move_site_tables(2)
    by (rule conversation_table.key_moved [where E = "\<lambda>t s r. principal_exists d t s (c_principal_id r)"
        and E' = "\<lambda>t s r. principal_exists ?m t s (c_principal_id r)"])
      (use assms moved_parents(1) [of d] in \<open>simp_all add: lower_keys_hold_def\<close>)
  moreover have "list_all (\<lambda>r. conversation_exists ?m (cp_tenant_id r) (cp_site_id r) (cp_conversation_id r)) (conversation_participants ?m)"
    unfolding move_site_tables(3)
    by (rule participant_table.key_moved [where E = "\<lambda>t s r. conversation_exists d t s (cp_conversation_id r)"
        and E' = "\<lambda>t s r. conversation_exists ?m t s (cp_conversation_id r)"])
      (use assms moved_parents(2) [of d] in \<open>simp_all add: lower_keys_hold_def\<close>)
  moreover have "list_all (\<lambda>r. participant_exists ?m (m_tenant_id r) (m_site_id r) (m_conversation_id r) (m_participant_id r)) (messages ?m)"
    unfolding move_site_tables(4)
    by (rule message_table.key_moved [where E = "\<lambda>t s r. participant_exists d t s (m_conversation_id r) (m_participant_id r)"
        and E' = "\<lambda>t s r. participant_exists ?m t s (m_conversation_id r) (m_participant_id r)"])
      (use assms moved_parents(3) [of d] in \<open>simp_all add: lower_keys_hold_def\<close>)
  moreover have "list_all (\<lambda>r. conversation_exists ?m (e_tenant_id r) (e_site_id r) (e_conversation_id r)) (conversation_events ?m)"
    unfolding move_site_tables(5)
    by (rule event_table.key_moved [where E = "\<lambda>t s r. conversation_exists d t s (e_conversation_id r)"
        and E' = "\<lambda>t s r. conversation_exists ?m t s (e_conversation_id r)"])
      (use assms moved_parents(2) [of d] in \<open>simp_all add: lower_keys_hold_def\<close>)
  moreover have "list_all (\<lambda>r. conversation_exists ?m (r_tenant_id r) (r_site_id r) (r_conversation_id r)) (agent_runs ?m)"
    unfolding move_site_tables(6)
    by (rule run_table.key_moved [where E = "\<lambda>t s r. conversation_exists d t s (r_conversation_id r)"
        and E' = "\<lambda>t s r. conversation_exists ?m t s (r_conversation_id r)"])
      (use assms moved_parents(2) [of d] in \<open>simp_all add: lower_keys_hold_def\<close>)
  ultimately show ?thesis unfolding lower_keys_hold_def by (intro conjI)
qed

lemma scope_keys_split:
  "scope_keys_hold d \<longleftrightarrow> list_all (\<lambda>s. exists_row (\<lambda>t. t_tenant_id t = s_tenant_id s) (tenants d)) (sites d)
     \<and> list_all (\<lambda>w. site_exists d (w_tenant_id w) (w_site_id w)) (site_widgets d)
     \<and> list_all (\<lambda>p. site_exists d (pr_tenant_id p) (pr_site_id p)) (principals d) \<and> lower_keys_hold d"
  by (simp add: scope_keys_hold_def lower_keys_hold_def)

definition same_scopes :: "db \<Rightarrow> db \<Rightarrow> bool" where
  "same_scopes d d' \<longleftrightarrow> same_chats d d' \<and> principals d' = principals d \<and> browser_sessions d' = browser_sessions d
     \<and> conversation_events d' = conversation_events d \<and> agent_runs d' = agent_runs d"

lemma same_scopes_lower: "same_scopes d d' \<Longrightarrow> lower_keys_hold d' = lower_keys_hold d"
  by (simp add: same_scopes_def same_chats_def lower_keys_hold_def principal_exists_def conversation_exists_def
      participant_exists_def)

lemma same_scopes_upserts:
  "same_scopes d (upsert_tenant clock t d)"
  "upsert_site clock tenantId s d = Inr d' \<Longrightarrow> same_scopes d d' \<and> tenants d' = tenants d \<and> site_widgets d' = site_widgets d"
  "upsert_widget clock now tenantId siteId w d = Inr d' \<Longrightarrow> same_scopes d d' \<and> tenants d' = tenants d \<and> sites d' = sites d"
  by (auto simp: same_scopes_def same_chats_def upsert_tenant_def upsert_site_def upsert_widget_def split: if_splits)

lemma upsert_widget_rows:
  assumes "upsert_widget clock now t s w d = Inr d'" and "x \<in> set (site_widgets d')"
  shows "x \<in> set (site_widgets d) \<or> w_tenant_id x = t \<and> w_site_id x = s"
  using assms
  by (auto simp: upsert_widget_def set_update_where widget_values_def new_widget_def simp del: exists_row_iff
      split: if_splits)

lemma upsert_tenant_known:
  assumes "exists_row (\<lambda>r. t_tenant_id r = t) (tenants d) \<or> t = tn_tenantId c"
  shows "exists_row (\<lambda>r. t_tenant_id r = t) (tenants (upsert_tenant clock c d))"
proof -
  have names: "exists_row (\<lambda>r. t_tenant_id r = t) ts \<longleftrightarrow> t \<in> set (map t_tenant_id ts)" for ts
    by auto
  have "set (map t_tenant_id (tenants (upsert_tenant clock c d)))
      = insert (tn_tenantId c) (set (map t_tenant_id (tenants d)))"
    by (auto simp: upsert_tenant_def map_update_where simp del: set_map) (metis image_eqI image_set)
  then show ?thesis using assms unfolding names by blast
qed

interpretation widget_table: scoped_table w_tenant_id w_site_id "\<lambda>b r. r\<lparr>w_tenant_id := b\<rparr>"
  by unfold_locales simp_all

text \<open>Moving to the tenant that owns the site already changes nothing.\<close>

lemma update_same: "(\<And>r. P r \<Longrightarrow> f r = r) \<Longrightarrow> update_where P f rs = rs"
  by (simp add: update_where_def map_idI)

lemma move_site_same: "move_site a s a d = d"
  by (auto simp: move_site_def intro!: db.equality update_same)

lemma site_exists_updated:
  assumes "site_exists d t s'" and "distinct (map s_site_id (sites d))" and "site \<in> set (sites d)"
    and "\<forall>r \<in> set (sites d). s_site_key r = K \<longleftrightarrow> r = site"
    and "sites d' = update_where (\<lambda>r. s_site_key r = K) f (sites d)"
    and "\<And>r. s_tenant_id (f r) = b \<and> s_site_id (f r) = s_site_id r"
  shows "site_exists d' (if t = s_tenant_id site \<and> s' = s_site_id site then b else t) s'"
proof -
  obtain r where r: "r \<in> set (sites d)" "s_tenant_id r = t" "s_site_id r = s'"
    using assms(1) by (auto simp: site_exists_def)
  have "(if r = site then f r else r) \<in> set (sites d')"
    using r(1) assms(4) by (auto simp: assms(5) update_where_def)
  moreover have "(t = s_tenant_id site \<and> s' = s_site_id site) = (r = site)"
    using r distinct_map_inj [OF assms(2) r(1) assms(3)] by auto
  ultimately show ?thesis
    using r assms(6) unfolding site_exists_def exists_row_iff
    by (intro bexI [of _ "if r = site then f r else r"]) auto
qed

text \<open>What the registration of a known site computes before the keys are checked.\<close>

definition renamed_site :: "ident \<Rightarrow> site_config \<Rightarrow> site_row \<Rightarrow> site_row" where
  "renamed_site b c r = r\<lparr>s_tenant_id := b, s_display_name := sn_displayName c,
     s_allowed_origins := sn_allowedOrigins c, s_agent_ref := sn_agentRef c\<rparr>"

lemma registration_effects:
  assumes "find (\<lambda>s. s_site_key s = sn_siteKey (pc_site config)) (sites d) = Some site"
    and "\<forall>w \<in> set (site_widgets d). w_site_id w = sn_siteId (pc_site config)
       \<and> w_widget_key w = wg_widgetKey (pc_widget config) \<longrightarrow> w_widget_id w = wg_widgetId (pc_widget config)"
    and b: "b = tn_tenantId (pc_tenant config)"
  obtains d' where "same_scopes (move_site (s_tenant_id site) (s_site_id site) b d) d'"
    and "tenants d' = tenants (upsert_tenant clock (pc_tenant config) d)"
    and "sites d' = update_where (\<lambda>r. s_site_key r = sn_siteKey (pc_site config)) (renamed_site b (pc_site config)) (sites d)"
    and "\<forall>w \<in> set (site_widgets d'). w \<in> set (site_widgets (move_site (s_tenant_id site) (s_site_id site) b d))
       \<or> w_tenant_id w = b \<and> w_site_id w = sn_siteId (pc_site config)"
    and "provision_transaction clock now config d = (if scope_keys_hold d' then Inr d' else Inl Database_error)"
proof -
  let ?d1 = "upsert_tenant clock (pc_tenant config) d" and ?S = "sn_siteId (pc_site config)"
  let ?d2 = "move_site (s_tenant_id site) (s_site_id site) b ?d1"
  define d3 where "d3 = ?d2\<lparr>sites := update_where (\<lambda>r. s_site_key r = sn_siteKey (pc_site config))
      (renamed_site b (pc_site config)) (sites d)\<rparr>"
  have "exists_row (\<lambda>r. s_site_key r = sn_siteKey (pc_site config)) (sites ?d2)"
    using find_SomeD [OF assms(1)] by (auto simp: move_site_def)
  then have d3: "upsert_site clock b (pc_site config) ?d2 = Inr d3"
    by (simp add: upsert_site_def d3_def renamed_site_def [abs_def] move_site_def del: exists_row_iff)
  have "\<not> exists_row (\<lambda>r. w_widget_id r \<noteq> wg_widgetId (pc_widget config) \<and> w_tenant_id r = b
      \<and> w_site_id r = ?S \<and> w_widget_key r = wg_widgetKey (pc_widget config)) (site_widgets d3)"
  proof -
    have "\<forall>w \<in> set (site_widgets d3). w_site_id w = ?S \<and> w_widget_key w = wg_widgetKey (pc_widget config)
        \<longrightarrow> w_widget_id w = wg_widgetId (pc_widget config)"
      using assms(2) by (auto simp: d3_def move_site_def upsert_tenant_def update_where_def)
    then show ?thesis by auto
  qed
  then have "\<exists>d4. upsert_widget clock now b ?S (pc_widget config) d3 = Inr d4"
    by (simp add: upsert_widget_def del: exists_row_iff)
  then obtain d4 where d4: "upsert_widget clock now b ?S (pc_widget config) d3 = Inr d4" by blast
  note kept = same_scopes_upserts(3) [OF d4]
  show thesis
  proof (rule that [of d4])
    show "same_scopes (move_site (s_tenant_id site) (s_site_id site) b d) d4"
      using kept by (simp add: same_scopes_def same_chats_def d3_def move_site_def upsert_tenant_def)
    show "\<forall>w \<in> set (site_widgets d4). w \<in> set (site_widgets (move_site (s_tenant_id site) (s_site_id site) b d))
       \<or> w_tenant_id w = b \<and> w_site_id w = ?S"
      using upsert_widget_rows [OF d4] by (auto simp: d3_def move_site_def)
    show "provision_transaction clock now config d = (if scope_keys_hold d4 then Inr d4 else Inl Database_error)"
      using d3 d4 assms(1) move_site_same [of "s_tenant_id site" "s_site_id site" ?d1] b
      by (cases "s_tenant_id site = b") (simp_all add: provision_transaction_def Let_def)
  qed (use kept in \<open>simp_all add: d3_def move_site_def\<close>)
qed

lemma moved_site_references:
  assumes "list_all (\<lambda>p. site_exists d (pr_tenant_id p) (pr_site_id p)) (principals d)"
    and "list_all (\<lambda>w. site_exists d (w_tenant_id w) (w_site_id w)) (site_widgets d)"
    and "\<And>t s'. site_exists d t s' \<Longrightarrow> site_exists d' (if t = a \<and> s' = s then b else t) s'"
  shows "list_all (\<lambda>p. site_exists d' (pr_tenant_id p) (pr_site_id p)) (principals (move_site a s b d))"
    and "list_all (\<lambda>w. site_exists d' (w_tenant_id w) (w_site_id w)) (site_widgets (move_site a s b d))"
  unfolding move_site_tables
  by (rule principal_table.key_moved [where E = "\<lambda>t s r. site_exists d t s" and E' = "\<lambda>t s r. site_exists d' t s"]
        widget_table.key_moved [where E = "\<lambda>t s r. site_exists d t s" and E' = "\<lambda>t s r. site_exists d' t s"];
      use assms in simp)+


subsection \<open>Registering again\<close>

lemma rows_update_where:
  assumes "\<And>r. P r \<Longrightarrow> Q (f r) = Q r"
  shows "exists_row Q (update_where P f rs) = exists_row Q rs" and "list_all Q (update_where P f rs) = list_all Q rs"
  using assms by (induction rs) (auto simp: update_where_def)

lemma update_where_twice:
  "(\<And>r. P r \<Longrightarrow> P (f r)) \<Longrightarrow> (\<And>r. P r \<Longrightarrow> g (f r) = h r) \<Longrightarrow>
     update_where P g (update_where P f rs) = update_where P h rs"
  by (simp add: update_where_def)

lemma upsert_tenant_again: "upsert_tenant clock' c (upsert_tenant clock c d) = upsert_tenant clock c d"
proof (cases "exists_row (\<lambda>r. t_tenant_id r = tn_tenantId c) (tenants d)")
  case True
  then show ?thesis
    by (simp add: upsert_tenant_def exists_row_update_where update_where_twice del: exists_row_iff)
next
  case False
  then have "update_where (\<lambda>r. t_tenant_id r = tn_tenantId c) f (tenants d) = tenants d" for f
    by (auto intro: update_where_none)
  then show ?thesis using False by (simp add: upsert_tenant_def update_where_def)
qed

definition touch_widget :: "ident \<Rightarrow> pg_time \<Rightarrow> db \<Rightarrow> db" where
  "touch_widget widgetId updated d =
     d\<lparr>site_widgets := update_where (\<lambda>w. w_widget_id w = widgetId) (\<lambda>w. w\<lparr>w_updated_at := updated\<rparr>) (site_widgets d)\<rparr>"

lemma upsert_site_again:
  assumes "upsert_site clock t c d = Inr d'"
  shows "upsert_site clock' t c d' = Inr d'"
proof (cases "exists_row (\<lambda>r. s_site_key r = sn_siteKey c) (sites d)")
  case True
  then show ?thesis using assms
    by (simp add: upsert_site_def update_where_twice exists_row_update_where del: exists_row_iff) (auto simp: exists_row_update_where update_where_twice simp del: exists_row_iff)
next
  case False
  then have "update_where (\<lambda>r. s_site_key r = sn_siteKey c) f (sites d) = sites d" for f
    by (auto intro: update_where_none)
  then show ?thesis using False assms by (auto simp: upsert_site_def update_where_def split: if_splits)
qed

lemma upsert_site_fixed:
  assumes "upsert_site clock t c y = Inr y" and "sites x = sites y"
  shows "upsert_site clock t c x = Inr x"
proof (cases "exists_row (\<lambda>r. s_site_key r = sn_siteKey c) (sites y)")
  case True
  then have "sites (y\<lparr>sites := update_where (\<lambda>r. s_site_key r = sn_siteKey c) (renamed_site t c) (sites y)\<rparr>) = sites y"
    using assms(1) by (simp add: upsert_site_def renamed_site_def [abs_def] del: exists_row_iff)
  then show ?thesis using True assms(2) by (simp add: upsert_site_def renamed_site_def [abs_def] del: exists_row_iff)
next
  case False
  then have "length (sites y) = length (sites (y\<lparr>sites := sites y @ [undefined]\<rparr>))"
    using assms(1) by (auto simp: upsert_site_def split: if_splits dest: arg_cong [of _ _ "\<lambda>z. length (sites z)"])
  then show ?thesis by simp
qed

lemma upsert_site_owner:
  assumes "upsert_site clock t c d = Inr d'" and "s \<in> set (sites d')" and "s_site_key s = sn_siteKey c"
  shows "s_tenant_id s = t"
  using assms by (auto simp: upsert_site_def set_update_where split: if_splits)

lemma upsert_widget_again:
  assumes "upsert_widget clock now t s w d = Inr d'"
  shows "upsert_widget clock' now' t s w d' = Inr (touch_widget (wg_widgetId w) (to_pg now') d')"
proof -
  let ?known = "\<lambda>r. w_widget_id r = wg_widgetId w"
  let ?clash = "\<lambda>r. w_widget_id r \<noteq> wg_widgetId w \<and> w_tenant_id r = t \<and> w_site_id r = s \<and> w_widget_key r = wg_widgetKey w"
  have same: "widget_values t s u w (widget_values t s u' w r) = (widget_values t s u' w r)\<lparr>w_updated_at := u\<rparr>" for u u' r
    by (simp add: widget_values_def)
  have clash: "\<not> exists_row ?clash (site_widgets d)" using assms by (auto simp: upsert_widget_def split: if_splits)
  show ?thesis
  proof (cases "exists_row ?known (site_widgets d)")
    case True
    then have d': "d' = d\<lparr>site_widgets := update_where ?known (widget_values t s (to_pg now) w) (site_widgets d)\<rparr>"
      using assms clash by (simp add: upsert_widget_def del: exists_row_iff)
    have "exists_row ?known (site_widgets d')" "\<not> exists_row ?clash (site_widgets d')"
      using True clash by (simp_all add: d' rows_update_where widget_values_def del: exists_row_iff)
    moreover have "update_where ?known (widget_values t s u w) (site_widgets d')
        = update_where ?known (\<lambda>r. r\<lparr>w_updated_at := u\<rparr>) (site_widgets d')" for u
      by (simp add: d' update_where_def same)
    ultimately show ?thesis by (simp add: upsert_widget_def touch_widget_def del: exists_row_iff)
  next
    case False
    then have d': "d' = d\<lparr>site_widgets := site_widgets d @ [new_widget t s clock w]\<rparr>"
      using assms clash by (simp add: upsert_widget_def del: exists_row_iff)
    have "update_where ?known f (site_widgets d) = site_widgets d" for f
      using False by (auto intro: update_where_none)
    then show ?thesis
      using clash by (auto simp: d' upsert_widget_def touch_widget_def new_widget_def widget_values_def update_where_def)
  qed
qed

lemma touch_keeps_keys: "scope_keys_hold (touch_widget i t d) = scope_keys_hold d"
  by (simp add: scope_keys_hold_def touch_widget_def site_exists_def principal_exists_def conversation_exists_def
      participant_exists_def rows_update_where)

text \<open>
  Registering the same configuration again, at any later time, changes nothing but the time the widget
  was last updated: no row is added, no site moves, and the transaction is not refused.
\<close>

theorem registration_idempotent:
  assumes "provision_transaction clock now config d = Inr d'"
  shows "provision_transaction clock' now' config d'
     = Inr (touch_widget (wg_widgetId (pc_widget config)) (to_pg now') d')"
proof -
  let ?b = "tn_tenantId (pc_tenant config)"
  obtain d2 d3 where d3: "upsert_site clock ?b (pc_site config) d2 = Inr d3"
      and d4: "upsert_widget clock now ?b (sn_siteId (pc_site config)) (pc_widget config) d3 = Inr d'"
      and keys: "scope_keys_hold d'" and d2: "tenants d2 = tenants (upsert_tenant clock (pc_tenant config) d)"
    using assms by (auto simp: provision_transaction_def move_site_def Let_def split: if_splits option.splits)
  have t: "upsert_tenant clock' (pc_tenant config) d' = d'"
  proof -
    have "tenants (upsert_tenant clock' (pc_tenant config) x) = tenants (upsert_tenant clock' (pc_tenant config) y)"
      if "tenants x = tenants y" for x y
      using that by (simp add: upsert_tenant_def)
    then have "tenants (upsert_tenant clock' (pc_tenant config) d') = tenants d'"
      using upsert_tenant_again [of clock' "pc_tenant config" clock d] same_scopes_upserts(2) [OF d3]
        same_scopes_upserts(3) [OF d4] d2 by metis
    then show ?thesis by (auto simp: upsert_tenant_def split: if_splits intro!: db.equality)
  qed
  have sites: "sites d' = sites d3" using same_scopes_upserts(3) [OF d4] by simp
  have "upsert_site clock' ?b (pc_site config) d' = Inr d'"
    by (rule upsert_site_fixed [OF upsert_site_again [OF d3] sites])
  moreover have "s_tenant_id r = ?b" if "find (\<lambda>s. s_site_key s = sn_siteKey (pc_site config)) (sites d') = Some r" for r
    using find_SomeD [OF that] upsert_site_owner [OF d3] by (simp add: sites)
  ultimately show ?thesis
    using upsert_widget_again [OF d4, of clock' now'] keys
    by (auto simp: provision_transaction_def t touch_keeps_keys Let_def split: option.split)
qed

subsection \<open>What is accepted as a configuration\<close>

text \<open>The values a parsed input holds at any depth.\<close>

inductive holds :: "json \<Rightarrow> json \<Rightarrow> bool" for input where
  itself: "holds input input"
| element: "holds input (JArray js) \<Longrightarrow> j \<in> set js \<Longrightarrow> holds input j"
| member: "holds input v \<Longrightarrow> json_get v k = Some j \<Longrightarrow> holds input j"

lemma private_elements_iff: "private_elements js \<longleftrightarrow> (\<exists>j \<in> set js. private_field j)"
  by (induction js) auto

lemma private_members_iff:
  "private_members ps \<longleftrightarrow> (\<exists>k v. map_of (rev ps) k = Some v \<and> (k \<in> set privateFieldNames \<or> private_field v))"
proof (induction ps)
  case (Cons p ps)
  obtain k v where p: "p = (k, v)" by fastforce
  show ?case
  proof (cases "k \<in> fst ` set ps")
    case True
    then have "map_of (rev ps) k \<noteq> None" by (simp add: map_of_eq_None_iff)
    then have "map_of (rev (p # ps)) = map_of (rev ps)" by (auto simp: p fun_eq_iff map_add_def split: option.split)
    then show ?thesis using Cons.IH True by (simp add: p)
  next
    case False
    then have none: "map_of (rev ps) k = None" by (simp add: map_of_eq_None_iff)
    then have "map_of (rev (p # ps)) = (map_of (rev ps))(k \<mapsto> v)"
      by (auto simp: p fun_eq_iff map_add_def split: option.split)
    then have "map_of (rev (p # ps)) k' = Some v' \<longleftrightarrow> k' = k \<and> v' = v \<or> map_of (rev ps) k' = Some v'" for k' v'
      using none by auto
    then show ?thesis using Cons.IH False by (auto simp: p)
  qed
qed simp

lemma private_fieldD:
  assumes "\<not> private_field j"
  shows "json_get j k = Some v \<Longrightarrow> k \<notin> set privateFieldNames \<and> \<not> private_field v"
    and "j = JArray js \<Longrightarrow> x \<in> set js \<Longrightarrow> \<not> private_field x"
  using assms by (cases j; auto simp: private_members_iff private_elements_iff)+

lemma holds_public:
  assumes "holds input v" and "\<not> private_field input"
  shows "\<not> private_field v"
  using assms by (induction rule: holds.induct) (auto simp: private_elements_iff dest: private_fieldD)

definition alias_ok :: "agent_alias \<Rightarrow> bool" where
  "alias_ok a \<longleftrightarrow> opaque_id (al_alias a) \<and> trim (al_label a) \<noteq> [] \<and> length (al_label a) \<le> 80
     \<and> opaque_id (al_agentRef a)"

definition https_origin :: "(string \<Rightarrow> web_url option) \<Rightarrow> string \<Rightarrow> bool" where
  "https_origin url_of s \<longleftrightarrow> (\<exists>u. url_of s = Some u \<and> u_protocol u = ''https:'' \<and> u_origin u = s)"

definition widget_ok :: "widget_settings \<Rightarrow> bool" where
  "widget_ok w \<longleftrightarrow> opaque_id (wg_widgetId w) \<and> opaque_id (wg_widgetKey w) \<and> opaque_id (wg_version w)
     \<and> opaque_id (wg_theme w) \<and> opaque_id (wg_launcher w) \<and> opaque_id (wg_placement w)
     \<and> opaque_id (wg_defaultAgentAlias w) \<and> 1 \<le> length (wg_agentAliases w) \<and> length (wg_agentAliases w) \<le> 20
     \<and> list_all alias_ok (wg_agentAliases w) \<and> distinct (map al_alias (wg_agentAliases w))"

definition site_ok :: "(string \<Rightarrow> web_url option) \<Rightarrow> site_config \<Rightarrow> bool" where
  "site_ok url_of s \<longleftrightarrow> opaque_id (sn_siteId s) \<and> opaque_id (sn_siteKey s)
     \<and> 1 \<le> length (sn_allowedOrigins s) \<and> length (sn_allowedOrigins s) \<le> 20
     \<and> (\<forall>x \<in> set (sn_allowedOrigins s). https_origin url_of x)"

lemma publicToken_Inr: "publicToken j = Inr s \<Longrightarrow> j = Some (JString s) \<and> opaque_id s"
  by (cases j rule: publicToken.cases) (auto split: if_splits)

lemma displayText_Inr: "displayText n j = Inr s \<Longrightarrow> j = Some (JString s) \<and> trim s \<noteq> [] \<and> length s \<le> n"
  by (cases "(n, j)" rule: displayText.cases) (auto split: if_splits)

lemma parse_all_Inr:
  "parse_all f xs = Inr ys \<Longrightarrow> length ys = length xs \<and> (\<forall>y \<in> set ys. \<exists>x \<in> set xs. f x = Inr y)"
  by (induction xs arbitrary: ys) fastforce+

lemma arrayOf_Inr: "arrayOf f j = Inr ys \<Longrightarrow> y \<in> set ys \<Longrightarrow> \<exists>x. f x = Inr y"
  by (cases "(f, j)" rule: arrayOf.cases) (auto dest!: parse_all_Inr)

lemma exactHttpsOrigin_Inr: "exactHttpsOrigin url_of j = Inr s \<Longrightarrow> https_origin url_of s"
  by (cases "(url_of, j)" rule: exactHttpsOrigin.cases) (auto simp: https_origin_def split: option.splits if_splits)

lemma parseAgentAlias_Inr: "parseAgentAlias j = Inr a \<Longrightarrow> alias_ok a"
  by (auto simp: parseAgentAlias_def alias_ok_def split: if_splits dest!: publicToken_Inr displayText_Inr)

lemma parseSite_Inr: "parseSite url_of j = Inr f \<Longrightarrow> site_ok url_of (f a)"
  by (auto simp: parseSite_def site_ok_def Suc_le_eq split: if_splits
      dest!: publicToken_Inr displayText_Inr dest: arrayOf_Inr exactHttpsOrigin_Inr)

lemma parseWidget_Inr: "parseWidget j = Inr w \<Longrightarrow> widget_ok w"
  by (auto simp: parseWidget_def widget_ok_def Suc_le_eq list_all_iff split: if_splits
      dest!: publicToken_Inr displayText_Inr dest: arrayOf_Inr parseAgentAlias_Inr)

text \<open>
  A configuration that is accepted carries no connector wiring: nowhere in it, at any depth, does an
  object have one of the private names; its identifiers are public tokens, its origins are 1 to 20 exact
  https origins, its aliases are distinct, and the agent of the site is that of the default alias, which
  is among them.
\<close>

theorem accepted_config_public:
  assumes "parseWidgetProvisioningConfig url_of input = Inr config"
  shows "(\<forall>v k. holds input v \<and> json_get v k \<noteq> None \<longrightarrow> k \<notin> set privateFieldNames)
     \<and> opaque_id (tn_tenantId (pc_tenant config)) \<and> site_ok url_of (pc_site config) \<and> widget_ok (pc_widget config)
     \<and> (\<exists>a \<in> set (wg_agentAliases (pc_widget config)).
          al_alias a = wg_defaultAgentAlias (pc_widget config) \<and> al_agentRef a = sn_agentRef (pc_site config))"
proof -
  obtain f w a where parts: "\<not> private_field input" "parseTenant (json_get input ''tenant'') = Inr (pc_tenant config)"
    "parseSite url_of (json_get input ''site'') = Inr f" "parseWidget (json_get input ''widget'') = Inr w"
    "find (\<lambda>alias. al_alias alias = wg_defaultAgentAlias w) (wg_agentAliases w) = Some a"
    and config: "pc_site config = f (al_agentRef a)" "pc_widget config = w"
    using assms by (auto simp: parseWidgetProvisioningConfig_def split: if_splits option.splits)
  have "sn_agentRef (f r) = r" for r
    using parts(3) by (auto simp: parseSite_def split: if_splits)
  moreover have "opaque_id (tn_tenantId (pc_tenant config))"
    using parts(2) by (cases "pc_tenant config") (auto simp: parseTenant_def split: if_splits dest!: publicToken_Inr)
  moreover have "k \<notin> set privateFieldNames" if "holds input v" "json_get v k \<noteq> None" for v k
    using that holds_public [OF that(1) parts(1)] private_fieldD(1) by fastforce
  ultimately show ?thesis
    using parseSite_Inr [OF parts(3)] parseWidget_Inr [OF parts(4)] find_SomeD [OF parts(5)]
    by (auto simp: config)
qed

subsection \<open>A concrete registration\<close>

definition sample_web_url :: "string \<Rightarrow> web_url option" where
  "sample_web_url v =
     (if starts_with ''https://'' v then Some \<lparr>u_protocol = ''https:'', u_username = [], u_password = [],
        u_pathname = ''/'', u_search = [], u_hash = [], u_origin = v, u_href = v @ ''/'',
        u_hostname = drop 8 v, u_params = []\<rparr> else None)"

definition sample_registration :: json where
  "sample_registration = JObject
     [(''tenant'', JObject [(''tenantId'', JString ''t2''), (''displayName'', JString ''T'')]),
      (''site'', JObject [(''siteId'', JString ''s1''), (''siteKey'', JString ''key''), (''displayName'', JString ''S''),
         (''allowedOrigins'', JArray [JString ''https://a''])]),
      (''widget'', JObject [(''widgetId'', JString ''w1''), (''widgetKey'', JString ''main''),
         (''displayName'', JString ''W''), (''version'', JString ''1''), (''theme'', JString ''pink''),
         (''launcher'', JString ''agent''), (''placement'', JString ''right''),
         (''defaultAgentAlias'', JString ''support''),
         (''agentAliases'', JArray [JObject [(''alias'', JString ''support''), (''label'', JString ''Support''),
            (''agentRef'', JString ''agent'')]])])]"

definition sample_alias :: agent_alias where
  "sample_alias = \<lparr>al_alias = ''support'', al_label = ''Support'', al_agentRef = ''agent'', al_emailHandoff = False\<rparr>"

definition sample_provisioning :: provisioning_config where
  "sample_provisioning = \<lparr>pc_tenant = \<lparr>tn_tenantId = ''t2'', tn_displayName = ''T''\<rparr>,
     pc_site = \<lparr>sn_siteId = ''s1'', sn_siteKey = ''key'', sn_displayName = ''S'', sn_allowedOrigins = [''https://a''],
       sn_agentRef = ''agent''\<rparr>,
     pc_widget = \<lparr>wg_widgetId = ''w1'', wg_widgetKey = ''main'', wg_displayName = ''W'', wg_version = ''1'',
       wg_theme = ''pink'', wg_launcher = ''agent'', wg_placement = ''right'', wg_defaultAgentAlias = ''support'',
       wg_agentAliases = [sample_alias]\<rparr>\<rparr>"

lemma sample_parsed: "parseWidgetProvisioningConfig sample_web_url sample_registration = Inr sample_provisioning"
  by code_simp

lemma sample_moved: "\<exists>d'. provision_transaction 7 8 sample_provisioning sample_chat = Inr d'"
proof -
  have "(case provision_transaction 7 8 sample_provisioning sample_chat of Inl e \<Rightarrow> False | Inr d \<Rightarrow> True)"
    by code_simp
  then show ?thesis by (auto split: sum.splits)
qed

lemma sample_keys: "scope_keys_hold sample_chat"
  by code_simp

lemma sample_site:
  "find (\<lambda>s. s_site_key s = sn_siteKey (pc_site sample_provisioning)) (sites sample_chat) = Some (hd (sites sample_chat))"
  by (simp add: sample_provisioning_def sample_defs)

lemma accepted_config_public_witness:
  "parseWidgetProvisioningConfig sample_web_url sample_registration = Inr sample_provisioning
     \<and> site_ok sample_web_url (pc_site sample_provisioning) \<and> widget_ok (pc_widget sample_provisioning)"
  using accepted_config_public [OF sample_parsed] sample_parsed by blast

lemma moved_site_reads_same_witness:
  "\<exists>d'. provision_transaction 7 8 sample_provisioning sample_chat = Inr d'
     \<and> get_conversation (for_tenant ''t2'' sample_scope) ''c1'' d'
       = map_sum (\<lambda>e. e) (\<lambda>c. c\<lparr>co_tenantId := ''t2''\<rparr>) (get_conversation sample_scope ''c1'' sample_chat)"
proof -
  obtain d' where moved: "provision_transaction 7 8 sample_provisioning sample_chat = Inr d'" using sample_moved by blast
  have "s_tenant_id (hd (sites sample_chat)) \<noteq> tn_tenantId (pc_tenant sample_provisioning)"
      "distinct (map s_site_id (sites sample_chat))"
      "sc_tenantId sample_scope = s_tenant_id (hd (sites sample_chat))"
      "sc_siteId sample_scope = s_site_id (hd (sites sample_chat))"
    by (simp_all add: sample_provisioning_def sample_defs)
  from moved_site_reads_same [OF moved sample_site this(1) sample_keys this(2-4)] moved show ?thesis
    by (auto simp: sample_provisioning_def)
qed


lemma registration_idempotent_witness:
  "\<exists>d'. provision_transaction 7 8 sample_provisioning sample_chat = Inr d'
     \<and> provision_transaction 9 10 sample_provisioning d' = Inr (touch_widget ''w1'' 10000 d')"
proof -
  obtain d' where moved: "provision_transaction 7 8 sample_provisioning sample_chat = Inr d'" using sample_moved by blast
  then show ?thesis using registration_idempotent [OF moved, of 9 10] by (auto simp: sample_provisioning_def to_pg_def)
qed

end
