(* ===== verification/Gateway.thy ===== *)
theory Gateway
  imports Provisioning AdminAuth
begin

text \<open>
  The shared gateway in front of the server, \<open>examples/cloudflare-worker/src/index.ts\<close>: the routes it lets
  through, its configuration, the choice of the site by the browser's origin, the public configuration of a
  widget, the bodies and headers it forwards and the answers it gives itself.

  The URL parser and the server behind the gateway are parameters. A request has its URL parsed, its
  headers by lower-case name and its body as the chunks that arrive. The texts of the error messages and the
  correlation identifiers are not modelled. A parsed object keeps its properties in the order they are
  written; names that look like array indices, which ECMAScript lists first, do not occur.
\<close>

subsection \<open>Routes\<close>

datatype route_kind = Kind_admin | Kind_auth | Kind_bootstrap | Kind_public | Kind_widget_config

text \<open>A pattern is a list of segments: one of some words, or an opaque identifier.\<close>

datatype segment = Words "string list" | Opaque_word

fun segment_matches :: "segment \<Rightarrow> string \<Rightarrow> bool" where
  "segment_matches (Words ws) s = (s \<in> set ws)"
| "segment_matches Opaque_word s = opaque_id s"

record gateway_route =
  gr_patterns :: "segment list list"
  gr_methods :: "string list"
  gr_kind :: route_kind

definition words :: "string list \<Rightarrow> segment list" where
  "words ws = Words [[]] # map (\<lambda>w. Words [w]) ws"

definition conversation_path :: "segment list \<Rightarrow> segment list" where
  "conversation_path rest = words [''v1'', ''conversations''] @ [Opaque_word] @ rest"

definition ROUTES :: "gateway_route list" where
  "ROUTES =
    [\<lparr>gr_patterns = [words [''auth''] @ [Words [''login'', ''callback'', ''session'']]], gr_methods = [''GET''],
      gr_kind = Kind_auth\<rparr>,
     \<lparr>gr_patterns = [words [''auth'', ''logout'']], gr_methods = [''POST''], gr_kind = Kind_auth\<rparr>,
     \<lparr>gr_patterns = [words [''widget'', ''config'']], gr_methods = [''GET''], gr_kind = Kind_widget_config\<rparr>,
     \<lparr>gr_patterns = [words [''v1'', ''admin'', ''overview'']], gr_methods = [''GET''], gr_kind = Kind_admin\<rparr>,
     \<lparr>gr_patterns = [words [''v1'', ''admin'', ''conversations''],
         words [''v1'', ''admin'', ''conversations''] @ [Opaque_word],
         words [''v1'', ''admin'', ''conversations''] @ [Opaque_word, Words [''messages'', ''events'']]],
       gr_methods = [''GET''], gr_kind = Kind_admin\<rparr>,
     \<lparr>gr_patterns = [words [''v1'', ''admin''] @ [Words [''runs'', ''failures'', ''handoffs'']]],
       gr_methods = [''GET''], gr_kind = Kind_admin\<rparr>,
     \<lparr>gr_patterns = [words [''v1'', ''sessions'']], gr_methods = [''POST''], gr_kind = Kind_bootstrap\<rparr>,
     \<lparr>gr_patterns = [words [''v1'', ''conversations'']], gr_methods = [''GET'', ''POST''], gr_kind = Kind_public\<rparr>,
     \<lparr>gr_patterns = [conversation_path []], gr_methods = [''GET''], gr_kind = Kind_public\<rparr>,
     \<lparr>gr_patterns = [conversation_path [Words [''messages'']]], gr_methods = [''GET'', ''POST''],
       gr_kind = Kind_public\<rparr>,
     \<lparr>gr_patterns = [conversation_path [Words [''events'']]], gr_methods = [''GET''], gr_kind = Kind_public\<rparr>,
     \<lparr>gr_patterns = [conversation_path [Words [''inputs''], Opaque_word]], gr_methods = [''POST''],
       gr_kind = Kind_public\<rparr>,
     \<lparr>gr_patterns = [conversation_path [Words [''email-handoffs'']]], gr_methods = [''POST''],
       gr_kind = Kind_public\<rparr>,
     \<lparr>gr_patterns = [conversation_path [Words [''cancel'', ''retry'']]], gr_methods = [''POST''],
       gr_kind = Kind_public\<rparr>]"

definition route_matches :: "string \<Rightarrow> gateway_route \<Rightarrow> bool" where
  "route_matches path r = list_ex (\<lambda>p. list_all2 segment_matches p (split_on (CHR ''/'') path)) (gr_patterns r)"

definition FORWARDED_REQUEST_HEADERS :: "string list" where
  "FORWARDED_REQUEST_HEADERS =
     [''accept'', ''authorization'', ''cookie'', ''content-type'', ''idempotency-key'', ''last-event-id'']"

definition FORWARDED_RESPONSE_HEADERS :: "string list" where
  "FORWARDED_RESPONSE_HEADERS =
     [''cache-control'', ''content-type'', ''etag'', ''retry-after'', ''location'', ''set-cookie'']"

definition MAX_REQUEST_BYTES :: nat where
  "MAX_REQUEST_BYTES = 131072"

subsection \<open>Plain objects\<close>

text \<open>What reading a property finds: its own value, what every object inherits, or nothing.\<close>

datatype 'a property = Own 'a | Inherited | Missing

definition read_property :: "(string \<times> 'a) list \<Rightarrow> string \<Rightarrow> 'a property" where
  "read_property ps k = (case map_of ps k of
     Some v \<Rightarrow> Own v | None \<Rightarrow> if inherited_name k then Inherited else Missing)"

definition object_entries :: "(string \<times> 'a) list \<Rightarrow> (string \<times> 'a) list" where
  "object_entries ps = fold (\<lambda>(k, v). put_property k v) ps []"

text \<open>The value that \<open>JSON.parse\<close> builds: one property per name.\<close>

fun plain :: "json \<Rightarrow> json" where
  "plain (JArray js) = JArray (map plain js)"
| "plain (JObject ps) = JObject (object_entries (map (\<lambda>p. (fst p, plain (snd p))) ps))"
| "plain j = j"

subsection \<open>Configuration\<close>

record alias_config =
  ac_siteKey :: ident
  ac_label :: string
  ac_emailHandoff :: bool

record widget_config =
  wc_widgetKey :: ident
  wc_version :: ident
  wc_defaultAgent :: ident
  wc_theme :: ident
  wc_launcher :: ident
  wc_placement :: ident
  wc_agentAliases :: "(ident \<times> alias_config) list"

record gateway_site =
  gs_siteKey :: ident
  gs_allowedOrigins :: "string list"
  gs_dashboardOrigins :: "string list option"
  gs_analytics :: "json option"
  gs_widget :: "widget_config option"

record gateway_env =
  ge_baseUrl :: string
  ge_sites :: string
  ge_haystackToken :: "string option"
  ge_serviceToken :: "string option"

record gateway_configuration =
  gc_coreBaseUrl :: web_url
  gc_sites :: "(string \<times> gateway_site list) list"
  gc_serviceToken :: string

definition token_of :: "json \<Rightarrow> string \<Rightarrow> ident option" where
  "token_of j k = (case json_get j k of Some (JString s) \<Rightarrow> if opaque_id s then Some s else None | _ \<Rightarrow> None)"

definition strings_of :: "json \<Rightarrow> string list option" where
  "strings_of j = (case j of
     JArray js \<Rightarrow> if js \<noteq> [] \<and> length js \<le> 20 \<and> list_all (\<lambda>x. case x of JString s \<Rightarrow> True | _ \<Rightarrow> False) js
       then Some (map (\<lambda>x. case x of JString s \<Rightarrow> s | _ \<Rightarrow> []) js) else None
   | _ \<Rightarrow> None)"

text \<open>The predicates of the source narrow a value to a type; here they return what it is narrowed to.\<close>

definition isAgentAliasConfig :: "json \<Rightarrow> alias_config option" where
  "isAgentAliasConfig j = (case (token_of j ''siteKey'', json_get j ''label'', json_get j ''emailHandoff'') of
     (Some key, Some (JString label), handoff) \<Rightarrow>
       if len_between 1 80 label \<and> (case handoff of None \<Rightarrow> True | Some (JBool _) \<Rightarrow> True | _ \<Rightarrow> False)
       then Some \<lparr>ac_siteKey = key, ac_label = label, ac_emailHandoff = (handoff = Some (JBool True))\<rparr> else None
   | _ \<Rightarrow> None)"

fun alias_configs :: "(string \<times> json) list \<Rightarrow> (string \<times> alias_config) list option" where
  "alias_configs [] = Some []"
| "alias_configs ((k, j) # ps) = (case (isAgentAliasConfig j, alias_configs ps) of
     (Some c, Some cs) \<Rightarrow> if opaque_id k then Some ((k, c) # cs) else None
   | _ \<Rightarrow> None)"

definition isWidgetConfig :: "json \<Rightarrow> widget_config option" where
  "isWidgetConfig j =
     (case (token_of j ''widgetKey'', token_of j ''version'', token_of j ''defaultAgent'', token_of j ''theme'',
            token_of j ''launcher'', token_of j ''placement'', json_get j ''agentAliases'') of
        (Some key, Some version, Some agent, Some theme, Some launcher, Some placement, Some (JObject ps)) \<Rightarrow>
          (case alias_configs (object_entries ps) of
             None \<Rightarrow> None
           | Some aliases \<Rightarrow>
               if aliases = [] \<or> read_property aliases agent = Missing then None
               else Some \<lparr>wc_widgetKey = key, wc_version = version, wc_defaultAgent = agent, wc_theme = theme,
                  wc_launcher = launcher, wc_placement = placement, wc_agentAliases = aliases\<rparr>)
      | _ \<Rightarrow> None)"

definition analytics_char :: "char \<Rightarrow> bool" where
  "analytics_char c \<longleftrightarrow> is_alnum c \<or> c \<in> set ''_.:-''"

definition isAnalyticsConfig :: "(string \<Rightarrow> web_url option) \<Rightarrow> json \<Rightarrow> bool" where
  "isAnalyticsConfig url_of j = (case (json_get j ''endpoint'', json_get j ''siteId'') of
     (Some (JString endpoint), Some (JString siteId)) \<Rightarrow>
       len_between 1 128 siteId \<and> list_all analytics_char siteId
       \<and> (case url_of endpoint of
            None \<Rightarrow> False
          | Some u \<Rightarrow> u_protocol u = ''https:'' \<and> u_username u = [] \<and> u_password u = [] \<and> u_hash u = [])
   | _ \<Rightarrow> False)"

definition optional_value :: "('a \<Rightarrow> 'b option) \<Rightarrow> 'a option \<Rightarrow> 'b option option" where
  "optional_value f x = (case x of None \<Rightarrow> Some None | Some a \<Rightarrow> map_option Some (f a))"

definition isSiteConfig :: "(string \<Rightarrow> web_url option) \<Rightarrow> json \<Rightarrow> gateway_site option" where
  "isSiteConfig url_of j =
     (case (token_of j ''siteKey'', Option.bind (json_get j ''allowedOrigins'') strings_of,
            optional_value strings_of (json_get j ''dashboardOrigins''),
            optional_value (\<lambda>a. if isAnalyticsConfig url_of a then Some a else None) (json_get j ''analytics''),
            optional_value isWidgetConfig (json_get j ''widget'')) of
        (Some key, Some origins, Some dashboard, Some analytics, Some widget) \<Rightarrow>
          Some \<lparr>gs_siteKey = key, gs_allowedOrigins = origins, gs_dashboardOrigins = dashboard,
             gs_analytics = analytics, gs_widget = widget\<rparr>
      | _ \<Rightarrow> None)"

definition normalizeConfiguredOrigin :: "(string \<Rightarrow> web_url option) \<Rightarrow> string \<Rightarrow> string option" where
  "normalizeConfiguredOrigin url_of v = (case url_of v of
     None \<Rightarrow> None
   | Some u \<Rightarrow> if u_origin u \<noteq> v \<or> u_protocol u \<noteq> ''https:'' then None else Some (u_origin u))"

fun collect :: "('a \<Rightarrow> 'b option) \<Rightarrow> 'a list \<Rightarrow> 'b list option" where
  "collect f [] = Some []"
| "collect f (x # xs) = (case (f x, collect f xs) of (Some y, Some ys) \<Rightarrow> Some (y # ys) | _ \<Rightarrow> None)"

definition normalizeSiteConfig :: "(string \<Rightarrow> web_url option) \<Rightarrow> gateway_site \<Rightarrow> gateway_site option" where
  "normalizeSiteConfig url_of s =
     (case (collect (normalizeConfiguredOrigin url_of) (gs_allowedOrigins s),
            optional_value (collect (normalizeConfiguredOrigin url_of)) (gs_dashboardOrigins s)) of
        (Some origins, Some dashboard) \<Rightarrow>
          Some (s\<lparr>gs_allowedOrigins := origins, gs_dashboardOrigins := dashboard\<rparr>)
      | _ \<Rightarrow> None)"

definition host_char :: "char \<Rightarrow> bool" where
  "host_char c \<longleftrightarrow> (97 \<le> code_unit c \<and> code_unit c \<le> 122) \<or> is_digit c"

definition host_label :: "string \<Rightarrow> bool" where
  "host_label s \<longleftrightarrow> len_between 1 63 s \<and> host_char (hd s) \<and> host_char (last s)
     \<and> list_all (\<lambda>c. host_char c \<or> c = CHR ''-'') s"

definition isHostname :: "string \<Rightarrow> bool" where
  "isHostname v \<longleftrightarrow> length v \<le> 253 \<and> list_all host_label (split_on (CHR ''.'') v)"

definition site_candidates :: "(string \<Rightarrow> web_url option) \<Rightarrow> json \<Rightarrow> gateway_site list option" where
  "site_candidates url_of j =
     (let candidates = (case j of JArray js \<Rightarrow> js | _ \<Rightarrow> [j])
      in if candidates = [] \<or> 20 < length candidates then None
         else Option.bind (collect (isSiteConfig url_of) candidates) (collect (normalizeSiteConfig url_of)))"

fun parse_sites ::
  "(string \<Rightarrow> web_url option) \<Rightarrow> (string \<times> json) list \<Rightarrow> (string \<times> gateway_site list) list
    \<Rightarrow> (string \<times> gateway_site list) list option" where
  "parse_sites url_of [] out = Some out"
| "parse_sites url_of ((hostname, j) # ps) out =
     (let normalizedHostname = map lower_char hostname
      in if \<not> isHostname normalizedHostname then None
         else (case site_candidates url_of j of
            None \<Rightarrow> None
          | Some siteList \<Rightarrow> parse_sites url_of ps (put_property normalizedHostname siteList out)))"

definition parseGatewayConfiguration ::
  "(string \<Rightarrow> web_url option) \<Rightarrow> gateway_env \<Rightarrow> gateway_configuration option" where
  "parseGatewayConfiguration url_of env =
     (case url_of (ge_baseUrl env) of
        None \<Rightarrow> None
      | Some base \<Rightarrow>
          if u_protocol base \<noteq> ''https:'' \<or> u_username base \<noteq> [] \<or> u_password base \<noteq> [] then None
          else if u_pathname base \<noteq> ''/'' \<or> u_search base \<noteq> [] \<or> u_hash base \<noteq> [] then None
          else (case truthy_text (case ge_haystackToken env of Some t \<Rightarrow> Some t | None \<Rightarrow> ge_serviceToken env) of
              None \<Rightarrow> None
            | Some token \<Rightarrow>
                (case map_option plain (json_parse (ge_sites env)) of
                   Some (JObject ps) \<Rightarrow>
                     if ps = [] then None
                     else map_option (\<lambda>siteList. \<lparr>gc_coreBaseUrl = base, gc_sites = siteList, gc_serviceToken = token\<rparr>)
                       (parse_sites url_of ps [])
                 | _ \<Rightarrow> None)))"

subsection \<open>Requests and answers\<close>

record gateway_request =
  gq_method :: string
  gq_url :: web_url
  gq_headers :: "string \<Rightarrow> string option"
  gq_body :: "nat list list option"

datatype gateway_body = Error_body string | Config_body json | No_body | Upstream_body "nat list list"

record gateway_response =
  gp_status :: nat
  gp_headers :: "(string \<times> string) list"
  gp_body :: gateway_body

record upstream_request =
  up_url :: string
  up_search :: string
  up_method :: string
  up_headers :: "(string \<times> string) list"
  up_body :: "string option"

record upstream_response =
  us_status :: nat
  us_headers :: "string \<Rightarrow> string option"
  us_body :: "nat list list"

definition cors_headers :: "string \<Rightarrow> (string \<times> string) list" where
  "cors_headers origin = [(''Access-Control-Allow-Origin'', origin), (''Vary'', ''Origin'')]"

definition errorResponse :: "nat \<Rightarrow> string \<Rightarrow> string option \<Rightarrow> gateway_response" where
  "errorResponse status code origin =
     \<lparr>gp_status = status,
      gp_headers = [(''Cache-Control'', ''no-store''), (''Content-Type'', ''application/json; charset=utf-8'')]
        @ (case truthy_text origin of None \<Rightarrow> [] | Some v \<Rightarrow> cors_headers v),
      gp_body = Error_body code\<rparr>"

subsection \<open>The site\<close>

definition validatedOrigin ::
  "(string \<Rightarrow> web_url option) \<Rightarrow> string option \<Rightarrow> string list \<Rightarrow> string \<Rightarrow> string option \<Rightarrow> string option" where
  "validatedOrigin url_of v allowedOrigins requestOrigin fetchSite =
     (case truthy_text v of
        None \<Rightarrow> if fetchSite = Some ''same-origin'' \<and> requestOrigin \<in> set allowedOrigins then Some requestOrigin else None
      | Some text \<Rightarrow>
          (case url_of text of
             None \<Rightarrow> None
           | Some u \<Rightarrow> if u_origin u \<noteq> text \<or> u_origin u \<notin> set allowedOrigins then None else Some (u_origin u)))"

definition dashboardOrigins :: "gateway_site \<Rightarrow> web_url \<Rightarrow> string list" where
  "dashboardOrigins site requestUrl = (case gs_dashboardOrigins site of None \<Rightarrow> [u_origin requestUrl] | Some os \<Rightarrow> os)"

fun resolveSiteForRequest ::
  "(string \<Rightarrow> web_url option) \<Rightarrow> gateway_site list \<Rightarrow> gateway_route \<Rightarrow> web_url \<Rightarrow> string option \<Rightarrow> string option
    \<Rightarrow> bool \<Rightarrow> (gateway_site \<times> string) option" where
  "resolveSiteForRequest url_of [] route requestUrl requestOrigin fetchSite isAuthNavigation = None"
| "resolveSiteForRequest url_of (site # siteList) route requestUrl requestOrigin fetchSite isAuthNavigation =
     (let allowedOrigins = (if gr_kind route = Kind_admin then dashboardOrigins site requestUrl
            else gs_allowedOrigins site);
          origin = (if isAuthNavigation then Some (u_origin requestUrl)
            else validatedOrigin url_of requestOrigin
              (if gr_kind route = Kind_auth then [u_origin requestUrl] else allowedOrigins)
              (u_origin requestUrl) fetchSite)
      in case truthy_text origin of
           Some v \<Rightarrow> Some (site, v)
         | None \<Rightarrow> resolveSiteForRequest url_of siteList route requestUrl requestOrigin fetchSite isAuthNavigation)"

subsection \<open>Widgets\<close>

type_synonym request_error = "nat \<times> string"

definition publicTokenParam :: "web_url \<Rightarrow> string \<Rightarrow> request_error + string option" where
  "publicTokenParam requestUrl name = (case truthy_text (map_of (u_params requestUrl) name) of
     None \<Rightarrow> Inr None
   | Some v \<Rightarrow> if opaque_id v then Inr (Some v) else Inl (400, ''INVALID_WIDGET_REQUEST''))"

definition resolveWidget :: "web_url \<Rightarrow> gateway_site \<Rightarrow> request_error + widget_config option" where
  "resolveWidget requestUrl site =
     and_then (publicTokenParam requestUrl ''widgetKey'') (\<lambda>key.
       (case key of
          None \<Rightarrow> Inr None
        | Some k \<Rightarrow> (case gs_widget site of
              None \<Rightarrow> Inl (404, ''WIDGET_NOT_FOUND'')
            | Some w \<Rightarrow> if wc_widgetKey w \<noteq> k then Inl (404, ''WIDGET_NOT_FOUND'') else Inr (Some w))))"

definition chosen_agent :: "web_url \<Rightarrow> widget_config \<Rightarrow> request_error + string" where
  "chosen_agent requestUrl widget =
     and_then (publicTokenParam requestUrl ''agent'') (\<lambda>agent.
       Inr (case agent of None \<Rightarrow> wc_defaultAgent widget | Some a \<Rightarrow> a))"

definition validatedWidgetForRequest :: "web_url \<Rightarrow> gateway_site \<Rightarrow> request_error + widget_config option" where
  "validatedWidgetForRequest requestUrl site =
     (if u_pathname requestUrl \<noteq> ''/v1/sessions'' then Inr None
      else and_then (resolveWidget requestUrl site) (\<lambda>widget.
        (case widget of
           None \<Rightarrow> Inr None
         | Some w \<Rightarrow>
             and_then (chosen_agent requestUrl w) (\<lambda>agent.
               if read_property (wc_agentAliases w) agent = Missing then Inl (403, ''AGENT_NOT_ALLOWED'')
               else Inr (Some w)))))"

text \<open>
  The answer to \<open>/widget/config\<close>. The parameters read while the answer is built are outside its \<open>try\<close>: their
  errors leave the handler, which is \<open>None\<close>. A property the object only inherits has neither label nor flag,
  and \<open>JSON.stringify\<close> leaves out what is undefined.
\<close>

definition config_param :: "web_url \<Rightarrow> string \<Rightarrow> string \<Rightarrow> string option" where
  "config_param requestUrl name preset = (case publicTokenParam requestUrl name of
     Inl e \<Rightarrow> None
   | Inr None \<Rightarrow> Some preset
   | Inr (Some v) \<Rightarrow> Some v)"

definition widget_config_json ::
  "web_url \<Rightarrow> gateway_site \<Rightarrow> widget_config \<Rightarrow> string \<Rightarrow> (string \<times> json) list \<Rightarrow> json option" where
  "widget_config_json requestUrl site widget agent labels =
     (case (config_param requestUrl ''version'' (wc_version widget), config_param requestUrl ''theme'' (wc_theme widget),
            config_param requestUrl ''launcher'' (wc_launcher widget),
            config_param requestUrl ''placement'' (wc_placement widget)) of
        (Some version, Some theme, Some launcher, Some placement) \<Rightarrow>
          Some (JObject ([(''widgetKey'', JString (wc_widgetKey widget)), (''siteKey'', JString (gs_siteKey site)),
            (''agent'', JString agent)] @ labels @ [(''version'', JString version), (''theme'', JString theme),
            (''launcher'', JString launcher), (''placement'', JString placement),
            (''transportBaseUrl'', JString (u_origin requestUrl))]
            @ (case gs_analytics site of None \<Rightarrow> [] | Some a \<Rightarrow> [(''analytics'', a)])))
      | _ \<Rightarrow> None)"

definition alias_labels :: "alias_config property \<Rightarrow> (string \<times> json) list" where
  "alias_labels p = (case p of
     Own c \<Rightarrow> (''agentLabel'', JString (ac_label c))
       # (if ac_emailHandoff c then [(''emailHandoff'', JBool True)] else [])
   | _ \<Rightarrow> [])"

definition widgetConfigurationResponse :: "web_url \<Rightarrow> gateway_site \<Rightarrow> string \<Rightarrow> gateway_response option" where
  "widgetConfigurationResponse requestUrl site origin =
     (let refused = (\<lambda>(status, code). Some (errorResponse status code (Some origin)))
      in case resolveWidget requestUrl site of
           Inl e \<Rightarrow> refused e
         | Inr None \<Rightarrow> refused (404, ''WIDGET_NOT_FOUND'')
         | Inr (Some widget) \<Rightarrow>
             (case chosen_agent requestUrl widget of
                Inl e \<Rightarrow> refused e
              | Inr agent \<Rightarrow>
                  (let alias = read_property (wc_agentAliases widget) agent
                   in if alias = Missing then refused (403, ''AGENT_NOT_ALLOWED'')
                      else map_option (\<lambda>config. \<lparr>gp_status = 200,
                          gp_headers = [(''Cache-Control'', ''public, max-age=60''),
                            (''Content-Type'', ''application/json; charset=utf-8'')] @ cors_headers origin,
                          gp_body = Config_body config\<rparr>)
                        (widget_config_json requestUrl site widget agent (alias_labels alias)))))"

subsection \<open>Bodies\<close>

text \<open>HTTP allows only digits in \<open>Content-Length\<close>; \<open>Number\<close> of anything else is not greater than the limit.\<close>

definition declared_length :: "string \<Rightarrow> nat" where
  "declared_length s = (if s \<noteq> [] \<and> list_all is_digit s then read_nat s else 0)"

text \<open>The loop of \<open>readBoundedBody\<close>.\<close>

fun read_body_chunks :: "nat \<Rightarrow> nat \<Rightarrow> nat list list \<Rightarrow> request_error + nat list" where
  "read_body_chunks maximumBytes length_read [] = Inr []"
| "read_body_chunks maximumBytes length_read (chunk # chunks) =
     (let n = length_read + length chunk
      in if maximumBytes < n then Inl (413, ''REQUEST_TOO_LARGE'')
         else and_then (read_body_chunks maximumBytes n chunks) (\<lambda>bytes. Inr (chunk @ bytes)))"

text \<open>\<open>TextDecoder\<close> drops a byte order mark.\<close>

definition decode_text :: "nat list \<Rightarrow> string option" where
  "decode_text bytes = utf8_decode (if take 3 bytes = [239, 187, 191] then drop 3 bytes else bytes)"

definition readBoundedBody :: "gateway_request \<Rightarrow> nat \<Rightarrow> request_error + string" where
  "readBoundedBody request maximumBytes =
     (if (case truthy_text (gq_headers request ''content-length'') of
            None \<Rightarrow> False | Some n \<Rightarrow> maximumBytes < declared_length n)
      then Inl (413, ''REQUEST_TOO_LARGE'')
      else (case gq_body request of
          None \<Rightarrow> Inl (400, ''INVALID_JSON'')
        | Some chunks \<Rightarrow>
            and_then (read_body_chunks maximumBytes 0 chunks) (\<lambda>bytes.
              (case decode_text bytes of None \<Rightarrow> Inl (400, ''INVALID_JSON'') | Some s \<Rightarrow> Inr s))))"

definition session_fields :: "ident \<Rightarrow> (widget_config \<times> string) option \<Rightarrow> (string \<times> json) list" where
  "session_fields siteKey widget = (''siteKey'', JString siteKey)
     # (case widget of None \<Rightarrow> []
        | Some (w, agent) \<Rightarrow> [(''widgetKey'', JString (wc_widgetKey w)), (''agentAlias'', JString agent)])"

definition session_body :: "json \<Rightarrow> ident \<Rightarrow> (widget_config \<times> string) option \<Rightarrow> request_error + string" where
  "session_body v siteKey widget =
     (case v of
        JObject ps \<Rightarrow>
          (let body = (\<lambda>identity. stringify (JObject (identity @ session_fields siteKey widget)))
           in case map_of ps ''browserIdentity'' of
                None \<Rightarrow> Inr (body [])
              | Some (JString b) \<Rightarrow> Inr (body (if b = [] then [] else [(''browserIdentity'', JString b)]))
              | Some _ \<Rightarrow> Inl (400, ''INVALID_REQUEST''))
      | _ \<Rightarrow> Inl (400, ''INVALID_REQUEST''))"

definition prepareBody ::
  "gateway_request \<Rightarrow> route_kind \<Rightarrow> ident \<Rightarrow> widget_config option \<Rightarrow> request_error + string" where
  "prepareBody request kind siteKey widget =
     and_then (readBoundedBody request MAX_REQUEST_BYTES) (\<lambda>raw.
       (case map_option plain (json_parse raw) of
          None \<Rightarrow> Inl (400, ''INVALID_JSON'')
        | Some v \<Rightarrow>
            if kind \<noteq> Kind_bootstrap then Inr (stringify v)
            else (case widget of
                None \<Rightarrow> session_body v siteKey None
              | Some w \<Rightarrow> and_then (chosen_agent (gq_url request) w) (\<lambda>agent. session_body v siteKey (Some (w, agent))))))"

definition isJsonContentType :: "string option \<Rightarrow> bool" where
  "isJsonContentType v = (case v of
     None \<Rightarrow> False
   | Some s \<Rightarrow> map lower_char (trim (hd (split_on (CHR '';'') s))) = ''application/json'')"

subsection \<open>Forwarding\<close>

definition forwardedRequestHeaders ::
  "(string \<Rightarrow> string option) \<Rightarrow> route_kind \<Rightarrow> string \<Rightarrow> string \<Rightarrow> (string \<times> string) list" where
  "forwardedRequestHeaders incoming kind origin serviceToken =
     concat (map (\<lambda>name.
         if kind = Kind_bootstrap \<and> name = ''authorization'' then []
         else if name = ''cookie'' \<and> kind \<noteq> Kind_admin \<and> kind \<noteq> Kind_auth then []
         else (case truthy_text (incoming name) of None \<Rightarrow> [] | Some v \<Rightarrow> [(name, v)])) FORWARDED_REQUEST_HEADERS)
     @ [(''Origin'', origin), (''X-Formation-Chat-Service-Token'', serviceToken)]"

definition streamedResponse :: "upstream_response \<Rightarrow> string \<Rightarrow> gateway_response" where
  "streamedResponse upstream origin =
     \<lparr>gp_status = us_status upstream,
      gp_headers = concat (map (\<lambda>name. case truthy_text (us_headers upstream name) of
          None \<Rightarrow> [] | Some v \<Rightarrow> [(name, v)]) FORWARDED_RESPONSE_HEADERS) @ cors_headers origin,
      gp_body = Upstream_body (us_body upstream)\<rparr>"

fun join_text :: "string \<Rightarrow> string list \<Rightarrow> string" where
  "join_text sep [] = []"
| "join_text sep [s] = s"
| "join_text sep (s # t # ss) = s @ sep @ join_text sep (t # ss)"

definition preflightResponse :: "gateway_request \<Rightarrow> gateway_route \<Rightarrow> string \<Rightarrow> gateway_response" where
  "preflightResponse request route origin =
     (if (case truthy_text (gq_headers request ''access-control-request-method'') of
            None \<Rightarrow> True | Some m \<Rightarrow> concat (map upper_char m) \<notin> set (gr_methods route))
      then errorResponse 405 ''METHOD_NOT_ALLOWED'' (Some origin)
      else (let requested = filter (\<lambda>s. s \<noteq> []) (map (\<lambda>s. map lower_char (trim s))
              (split_on (CHR '','') (case gq_headers request ''access-control-request-headers'' of
                 None \<Rightarrow> [] | Some v \<Rightarrow> v)))
            in if list_ex (\<lambda>name. name \<notin> set FORWARDED_REQUEST_HEADERS) requested
               then errorResponse 403 ''HEADER_NOT_ALLOWED'' (Some origin)
               else \<lparr>gp_status = 204,
                 gp_headers = [(''Access-Control-Allow-Methods'', join_text '', '' (gr_methods route)),
                   (''Access-Control-Allow-Headers'', join_text '', '' FORWARDED_REQUEST_HEADERS),
                   (''Access-Control-Max-Age'', ''600'')] @ cors_headers origin,
                 gp_body = No_body\<rparr>))"

definition upstreamCoreUrl :: "web_url \<Rightarrow> web_url \<Rightarrow> route_kind \<Rightarrow> string \<times> string" where
  "upstreamCoreUrl requestUrl coreBaseUrl kind =
     (u_origin coreBaseUrl @ u_pathname requestUrl, if kind = Kind_bootstrap then [] else u_search requestUrl)"

subsection \<open>The handler\<close>

text \<open>
  What the handler does up to the call of the server: it answers itself, its promise is rejected, or it
  forwards a request for a trusted origin.
\<close>

datatype gateway_step = Answer gateway_response | Rejected | Forward upstream_request string

definition serve_site ::
  "gateway_configuration \<Rightarrow> gateway_request \<Rightarrow> gateway_route \<Rightarrow> gateway_site \<Rightarrow> string \<Rightarrow> gateway_step" where
  "serve_site configuration request route site origin =
     (let requestUrl = gq_url request; refused = (\<lambda>(status, code). Answer (errorResponse status code (Some origin)))
      in if gq_method request = ''OPTIONS'' then Answer (preflightResponse request route origin)
         else if gq_method request \<notin> set (gr_methods route)
         then (let r = errorResponse 405 ''METHOD_NOT_ALLOWED'' (Some origin)
               in Answer (r\<lparr>gp_headers := gp_headers r @ [(''Allow'', join_text '', '' (gr_methods route))]\<rparr>))
         else if gr_kind route = Kind_widget_config
         then (case widgetConfigurationResponse requestUrl site origin of None \<Rightarrow> Rejected | Some r \<Rightarrow> Answer r)
         else (case validatedWidgetForRequest requestUrl site of
             Inl e \<Rightarrow> refused e
           | Inr widget \<Rightarrow>
               (let forward = (\<lambda>body. Forward
                      \<lparr>up_url = fst (upstreamCoreUrl requestUrl (gc_coreBaseUrl configuration) (gr_kind route)),
                       up_search = snd (upstreamCoreUrl requestUrl (gc_coreBaseUrl configuration) (gr_kind route)),
                       up_method = gq_method request,
                       up_headers = forwardedRequestHeaders (gq_headers request) (gr_kind route) origin
                         (gc_serviceToken configuration), up_body = body\<rparr> origin)
                in if gq_method request = ''GET'' \<or> gq_method request = ''HEAD'' \<or> gr_kind route = Kind_auth
                   then forward None
                   else if \<not> isJsonContentType (gq_headers request ''content-type'')
                   then refused (415, ''UNSUPPORTED_MEDIA_TYPE'')
                   else (case prepareBody request (gr_kind route) (gs_siteKey site) widget of
                       Inl e \<Rightarrow> refused e
                     | Inr body \<Rightarrow> forward (Some body)))))"

definition is_auth_navigation :: "gateway_request \<Rightarrow> gateway_route \<Rightarrow> bool" where
  "is_auth_navigation request route \<longleftrightarrow> gr_kind route = Kind_auth \<and> gq_method request = ''GET''
     \<and> (u_pathname (gq_url request) = ''/auth/login'' \<or> u_pathname (gq_url request) = ''/auth/callback'')"

definition gateway_step_of ::
  "(string \<Rightarrow> web_url option) \<Rightarrow> gateway_env \<Rightarrow> gateway_request \<Rightarrow> gateway_step" where
  "gateway_step_of url_of env request =
     (let requestUrl = gq_url request
      in case parseGatewayConfiguration url_of env of
           None \<Rightarrow> Answer (errorResponse 500 ''GATEWAY_MISCONFIGURED'' None)
         | Some configuration \<Rightarrow>
             (let siteList = read_property (gc_sites configuration) (map lower_char (u_hostname requestUrl))
              in if siteList = Missing then Answer (errorResponse 404 ''SITE_NOT_FOUND'' None)
                 else (case find (route_matches (u_pathname requestUrl)) ROUTES of
                     None \<Rightarrow> Answer (errorResponse 404 ''ROUTE_NOT_FOUND'' None)
                   | Some route \<Rightarrow>
                       (case siteList of
                          Own candidates \<Rightarrow>
                            (case resolveSiteForRequest url_of candidates route requestUrl
                                    (gq_headers request ''origin'') (gq_headers request ''sec-fetch-site'')
                                    (is_auth_navigation request route) of
                               None \<Rightarrow> Answer (errorResponse 403 ''ORIGIN_NOT_ALLOWED'' None)
                             | Some (site, origin) \<Rightarrow> serve_site configuration request route site origin)
                        | _ \<Rightarrow> Rejected))))"

text \<open>The answer; \<open>None\<close> when the handler's promise is rejected. The server may fail to answer.\<close>

definition handleGatewayRequest ::
  "(string \<Rightarrow> web_url option) \<Rightarrow> (upstream_request \<Rightarrow> upstream_response option) \<Rightarrow> gateway_env
    \<Rightarrow> gateway_request \<Rightarrow> gateway_response option" where
  "handleGatewayRequest url_of fetch env request =
     (case gateway_step_of url_of env request of
        Answer r \<Rightarrow> Some r
      | Rejected \<Rightarrow> None
      | Forward upstream origin \<Rightarrow>
          (case fetch upstream of
             None \<Rightarrow> Some (errorResponse 502 ''CORE_UNAVAILABLE'' (Some origin))
           | Some response \<Rightarrow> Some (streamedResponse response origin)))"

subsection \<open>Reading a body\<close>

lemma read_body_chunks_eq:
  "n \<le> m \<Longrightarrow> read_body_chunks m n chunks =
     (if n + length (concat chunks) \<le> m then Inr (concat chunks) else Inl (413, ''REQUEST_TOO_LARGE''))"
  by (induction chunks arbitrary: n) (auto simp: Let_def)

text \<open>
  How a body arrives does not matter: it is read exactly when its bytes, counted over all chunks, and the
  length it declares are within the limit, and then the text is that of all its bytes together, so a body
  that lies about its length is still refused with 413 and one that is cut inside a character is not damaged.
\<close>

theorem body_read_any_chunks:
  "readBoundedBody request maximumBytes =
     (case gq_body request of
        None \<Rightarrow> Inl (if (case truthy_text (gq_headers request ''content-length'') of
            None \<Rightarrow> False | Some n \<Rightarrow> maximumBytes < declared_length n)
          then (413, ''REQUEST_TOO_LARGE'') else (400, ''INVALID_JSON''))
      | Some chunks \<Rightarrow>
          if (case truthy_text (gq_headers request ''content-length'') of
              None \<Rightarrow> False | Some n \<Rightarrow> maximumBytes < declared_length n)
             \<or> maximumBytes < length (concat chunks)
          then Inl (413, ''REQUEST_TOO_LARGE'')
          else (case decode_text (concat chunks) of None \<Rightarrow> Inl (400, ''INVALID_JSON'') | Some s \<Rightarrow> Inr s))"
  by (auto simp: readBoundedBody_def read_body_chunks_eq split: option.split)

subsection \<open>What is forwarded\<close>

lemma validatedOrigin_Some:
  "validatedOrigin url_of v allowed requestOrigin fetchSite = Some origin \<Longrightarrow>
     origin \<in> set allowed \<and> (origin = requestOrigin \<or> v = Some origin)"
  by (auto simp: validatedOrigin_def truthy_text_def split: option.splits if_splits)

definition origins_for :: "gateway_request \<Rightarrow> gateway_route \<Rightarrow> gateway_site \<Rightarrow> string list" where
  "origins_for request route site = (case gr_kind route of
     Kind_admin \<Rightarrow> dashboardOrigins site (gq_url request)
   | Kind_auth \<Rightarrow> [u_origin (gq_url request)]
   | _ \<Rightarrow> gs_allowedOrigins site)"

lemma resolveSite_Some:
  assumes "resolveSiteForRequest url_of cs route (gq_url request) requestOrigin fetchSite
      (is_auth_navigation request route) = Some (site, origin)"
  shows "site \<in> set cs \<and> origin \<noteq> [] \<and> origin \<in> set (origins_for request route site)"
  using assms
proof (induction cs)
  case (Cons c cs)
  let ?nav = "is_auth_navigation request route" and ?url = "gq_url request"
  let ?origin = "if ?nav then Some (u_origin ?url) else validatedOrigin url_of requestOrigin
      (if gr_kind route = Kind_auth then [u_origin ?url] else if gr_kind route = Kind_admin
       then dashboardOrigins c ?url else gs_allowedOrigins c) (u_origin ?url) fetchSite"
  have step: "resolveSiteForRequest url_of (c # cs) route ?url requestOrigin fetchSite ?nav =
      (case truthy_text ?origin of Some v \<Rightarrow> Some (c, v)
       | None \<Rightarrow> resolveSiteForRequest url_of cs route ?url requestOrigin fetchSite ?nav)"
    by (simp only: resolveSiteForRequest.simps Let_def)
  show ?case
  proof (cases "truthy_text ?origin")
    case None
    then show ?thesis using Cons step by simp
  next
    case (Some v)
    then have "?origin = Some v" "v \<noteq> []" by (auto simp: truthy_text_def split: if_splits)
    moreover have "?nav \<Longrightarrow> gr_kind route = Kind_auth" by (simp add: is_auth_navigation_def)
    ultimately have "v \<in> set (origins_for request route c)"
      by (cases ?nav; cases "gr_kind route") (auto simp: origins_for_def dest: validatedOrigin_Some)
    then show ?thesis using Some Cons.prems step \<open>v \<noteq> []\<close> by simp
  qed
qed simp

definition trusted_header :: "gateway_request \<Rightarrow> route_kind \<Rightarrow> string \<Rightarrow> string \<Rightarrow> string \<times> string \<Rightarrow> bool" where
  "trusted_header request kind origin token = (\<lambda>(name, v).
     (name = ''Origin'' \<and> v = origin) \<or> (name = ''X-Formation-Chat-Service-Token'' \<and> v = token)
     \<or> (name \<in> set FORWARDED_REQUEST_HEADERS \<and> gq_headers request name = Some v
        \<and> (name = ''authorization'' \<longrightarrow> kind \<noteq> Kind_bootstrap)
        \<and> (name = ''cookie'' \<longrightarrow> kind = Kind_admin \<or> kind = Kind_auth)))"

lemma forwarded_headers:
  "\<forall>h \<in> set (forwardedRequestHeaders (gq_headers request) kind origin token). trusted_header request kind origin token h"
  by (auto simp: forwardedRequestHeaders_def trusted_header_def truthy_text_def split: if_splits option.splits)

lemma serve_site_Forward:
  assumes "serve_site configuration request route site origin = Forward up origin'"
  shows "origin' = origin \<and> up_method up = gq_method request \<and> gq_method request \<in> set (gr_methods route)
     \<and> up_headers up = forwardedRequestHeaders (gq_headers request) (gr_kind route) origin (gc_serviceToken configuration)
     \<and> up_url up = u_origin (gc_coreBaseUrl configuration) @ u_pathname (gq_url request)
     \<and> (\<exists>widget. validatedWidgetForRequest (gq_url request) site = Inr widget \<and>
          (case up_body up of
             None \<Rightarrow> gq_method request = ''GET'' \<or> gq_method request = ''HEAD'' \<or> gr_kind route = Kind_auth
           | Some body \<Rightarrow> prepareBody request (gr_kind route) (gs_siteKey site) widget = Inr body))"
  using assms by (auto simp: serve_site_def upstreamCoreUrl_def Let_def split: if_splits sum.splits option.splits)

lemma gateway_Forward:
  assumes "gateway_step_of url_of env request = Forward up origin"
  obtains configuration candidates route site where
    "parseGatewayConfiguration url_of env = Some configuration"
    "map_of (gc_sites configuration) (map lower_char (u_hostname (gq_url request))) = Some candidates"
    "find (route_matches (u_pathname (gq_url request))) ROUTES = Some route"
    "site \<in> set candidates" "origin \<in> set (origins_for request route site)"
    "serve_site configuration request route site origin = Forward up origin"
proof -
  obtain configuration candidates route site v where run:
    "parseGatewayConfiguration url_of env = Some configuration"
    "read_property (gc_sites configuration) (map lower_char (u_hostname (gq_url request))) = Own candidates"
    "find (route_matches (u_pathname (gq_url request))) ROUTES = Some route"
    "resolveSiteForRequest url_of candidates route (gq_url request) (gq_headers request ''origin'')
       (gq_headers request ''sec-fetch-site'') (is_auth_navigation request route) = Some (site, v)"
    "serve_site configuration request route site v = Forward up origin"
    using assms by (auto simp: gateway_step_of_def Let_def split: option.splits if_splits property.splits)
  then have "v = origin" using serve_site_Forward [OF run(5)] by simp
  moreover have "map_of (gc_sites configuration) (map lower_char (u_hostname (gq_url request))) = Some candidates"
    using run(2) by (auto simp: read_property_def split: option.splits if_splits)
  ultimately show thesis using that run resolveSite_Some [OF run(4)] by blast
qed


subsection \<open>Opening a session\<close>

definition bootstrap_route :: gateway_route where
  "bootstrap_route = \<lparr>gr_patterns = [words [''v1'', ''sessions'']], gr_methods = [''POST''], gr_kind = Kind_bootstrap\<rparr>"

definition widget_config_route :: gateway_route where
  "widget_config_route =
     \<lparr>gr_patterns = [words [''widget'', ''config'']], gr_methods = [''GET''], gr_kind = Kind_widget_config\<rparr>"

lemma find_routes:
  "find (route_matches ''/v1/sessions'') ROUTES = Some bootstrap_route"
  "find (route_matches ''/widget/config'') ROUTES = Some widget_config_route"
  by code_simp+

lemma validated_widget:
  assumes "validatedWidgetForRequest url site = Inr (Some w)" and "chosen_agent url w = Inr agent"
  shows "gs_widget site = Some w \<and> read_property (wc_agentAliases w) agent \<noteq> Missing"
  using assms by (auto simp: validatedWidgetForRequest_def resolveWidget_def split: if_splits option.splits)

lemma session_body_Inr:
  assumes "session_body v siteKey widget = Inr body"
  shows "\<exists>identity. (identity = [] \<or> (\<exists>b. identity = [(''browserIdentity'', JString b)]))
     \<and> json_parse body = Some (JObject (identity @ session_fields siteKey widget))"
proof -
  let ?body = "\<lambda>identity. stringify (JObject (identity @ session_fields siteKey widget))"
  obtain ps where v: "v = JObject ps" using assms by (auto simp: session_body_def split: json.splits)
  have "body = ?body [] \<or> (\<exists>b. body = ?body [(''browserIdentity'', JString b)])"
    using assms by (auto simp: v session_body_def Let_def simp del: stringify.simps
        split: json.splits option.splits if_splits)
  then obtain identity where identity: "identity = [] \<or> (\<exists>b. identity = [(''browserIdentity'', JString b)])"
    and body: "body = ?body identity"
    by blast
  have "no_fraction (JObject (identity @ session_fields siteKey widget))"
    using identity by (auto simp: session_fields_def split: option.split)
  then show ?thesis using identity body json_parse_stringify_gen by blast
qed

text \<open>How a request for a session that is forwarded was resolved.\<close>

lemma session_forward:
  assumes "gateway_step_of url_of env request = Forward up origin" and "u_pathname (gq_url request) = ''/v1/sessions''"
  obtains configuration candidates site v chosen body where
    "parseGatewayConfiguration url_of env = Some configuration"
    "map_of (gc_sites configuration) (map lower_char (u_hostname (gq_url request))) = Some candidates"
    "site \<in> set candidates" "origin \<in> set (gs_allowedOrigins site)"
    "serve_site configuration request bootstrap_route site origin = Forward up origin"
    "up_body up = Some body" "session_body v (gs_siteKey site) chosen = Inr body"
    "\<forall>w agent. chosen = Some (w, agent) \<longrightarrow>
       gs_widget site = Some w \<and> read_property (wc_agentAliases w) agent \<noteq> Missing"
proof -
  from assms(1) obtain configuration candidates route site where run:
    "parseGatewayConfiguration url_of env = Some configuration"
    "map_of (gc_sites configuration) (map lower_char (u_hostname (gq_url request))) = Some candidates"
    "find (route_matches (u_pathname (gq_url request))) ROUTES = Some route"
    "site \<in> set candidates" "origin \<in> set (origins_for request route site)"
    "serve_site configuration request route site origin = Forward up origin"
    by (rule gateway_Forward)
  have route: "route = bootstrap_route" using run(3) find_routes(1) assms(2) by simp
  obtain widget where widget: "validatedWidgetForRequest (gq_url request) site = Inr widget"
    and body: "case up_body up of None \<Rightarrow> gq_method request = ''GET'' \<or> gq_method request = ''HEAD''
       \<or> gr_kind route = Kind_auth | Some body \<Rightarrow> prepareBody request (gr_kind route) (gs_siteKey site) widget = Inr body"
    using serve_site_Forward [OF run(6)] by blast
  have "gq_method request = ''POST''" using serve_site_Forward [OF run(6)] by (simp add: route bootstrap_route_def)
  then obtain sent where sent: "up_body up = Some sent"
      "prepareBody request Kind_bootstrap (gs_siteKey site) widget = Inr sent"
    using body by (auto simp: route bootstrap_route_def split: option.splits)
  obtain v chosen where chosen: "session_body v (gs_siteKey site) chosen = Inr sent"
      "\<forall>w agent. chosen = Some (w, agent) \<longrightarrow> widget = Some w \<and> chosen_agent (gq_url request) w = Inr agent"
    using sent(2) by (cases widget) (auto simp: prepareBody_def split: option.splits)
  have "origin \<in> set (gs_allowedOrigins site)"
    using run(5) by (simp add: origins_for_def route bootstrap_route_def)
  moreover have "\<forall>w agent. chosen = Some (w, agent) \<longrightarrow>
      gs_widget site = Some w \<and> read_property (wc_agentAliases w) agent \<noteq> Missing"
    using chosen(2) widget validated_widget by blast
  ultimately show thesis using that run(1,2,4,6) sent(1) chosen(1) unfolding route by blast
qed


subsection \<open>The public configuration of a widget\<close>

text \<open>
  A request for a widget's configuration whose \<open>version\<close>, \<open>theme\<close>, \<open>launcher\<close> or \<open>placement\<close> is not a public
  token is not refused with 400 as every other malformed parameter is: the error is thrown while the answer
  is built, outside the handler's \<open>try\<close>, and the handler's promise is rejected.
\<close>

theorem malformed_style_rejects:
  assumes "parseGatewayConfiguration url_of env = Some configuration"
    and "map_of (gc_sites configuration) (map lower_char (u_hostname (gq_url request))) = Some candidates"
    and "resolveSiteForRequest url_of candidates widget_config_route (gq_url request) (gq_headers request ''origin'')
       (gq_headers request ''sec-fetch-site'') False = Some (site, origin)"
    and "u_pathname (gq_url request) = ''/widget/config''" and "gq_method request = ''GET''"
    and "resolveWidget (gq_url request) site = Inr (Some widget)"
    and "chosen_agent (gq_url request) widget = Inr agent"
    and "read_property (wc_agentAliases widget) agent \<noteq> Missing"
    and "name \<in> {''version'', ''theme'', ''launcher'', ''placement''}"
    and "map_of (u_params (gq_url request)) name = Some v" and "v \<noteq> []" and "\<not> opaque_id v"
  shows "handleGatewayRequest url_of fetch env request = None"
proof -
  have "publicTokenParam (gq_url request) name = Inl (400, ''INVALID_WIDGET_REQUEST'')"
    using assms(10-12) by (simp add: publicTokenParam_def truthy_text_def)
  then have "config_param (gq_url request) name preset = None" for preset
    by (simp add: config_param_def)
  then have "widget_config_json (gq_url request) site widget agent labels = None" for labels
    using assms(9) by (auto simp: widget_config_json_def split: option.splits)
  then have "widgetConfigurationResponse (gq_url request) site origin = None"
    using assms(6-8) by (simp add: widgetConfigurationResponse_def Let_def)
  then have "serve_site configuration request widget_config_route site origin = Rejected"
    using assms(5) by (simp add: serve_site_def widget_config_route_def Let_def)
  moreover have "is_auth_navigation request widget_config_route = False"
    by (simp add: is_auth_navigation_def widget_config_route_def)
  ultimately show ?thesis
    using assms(1-4) find_routes(2)
    by (simp add: handleGatewayRequest_def gateway_step_of_def read_property_def Let_def)
qed

text \<open>
  An alias that no widget defines passes the check when it is the name of a property every object inherits;
  the configuration then lacks the agent's label.
\<close>

lemma inherited_alias_allowed:
  assumes "resolveWidget url site = Inr (Some widget)" and "chosen_agent url widget = Inr agent"
    and "inherited_name agent" and "agent \<notin> fst ` set (wc_agentAliases widget)"
  shows "u_pathname url = ''/v1/sessions'' \<Longrightarrow> validatedWidgetForRequest url site = Inr (Some widget)"
    and "widgetConfigurationResponse url site origin = Some r \<Longrightarrow>
      gp_status r = 200 \<and> (\<exists>ps. gp_body r = Config_body (JObject ps) \<and> ''agentLabel'' \<notin> fst ` set ps)"
proof -
  have "read_property (wc_agentAliases widget) agent = Inherited"
    using assms(3) iffD2 [OF map_of_eq_None_iff assms(4)] by (simp add: read_property_def)
  then show "u_pathname url = ''/v1/sessions'' \<Longrightarrow> validatedWidgetForRequest url site = Inr (Some widget)"
    and "widgetConfigurationResponse url site origin = Some r \<Longrightarrow>
      gp_status r = 200 \<and> (\<exists>ps. gp_body r = Config_body (JObject ps) \<and> ''agentLabel'' \<notin> fst ` set ps)"
    using assms(1,2)
    by (auto simp: validatedWidgetForRequest_def widgetConfigurationResponse_def widget_config_json_def alias_labels_def
        Let_def split: option.splits)
qed

subsection \<open>What the registry exports, the gateway accepts\<close>

lemma put_property_new: "k \<notin> fst ` set ps \<Longrightarrow> put_property k v ps = ps @ [(k, v)]"
  by (induction ps) auto

lemma keys_put_property: "fst ` set (put_property k v ps) = insert k (fst ` set ps)"
  by (induction k v ps rule: put_property.induct) (auto split: if_splits)

lemma set_put_property: "set (put_property k v ps) \<subseteq> insert (k, v) (set ps)"
  by (induction k v ps rule: put_property.induct) (auto split: if_splits)

lemma distinct_put_property: "distinct (map fst ps) \<Longrightarrow> distinct (map fst (put_property k v ps))"
proof (induction ps)
  case (Cons p ps)
  then show ?case using keys_put_property [of k v ps] by (cases p) auto
qed simp

lemma object_entries_distinct: "distinct (map fst ps) \<Longrightarrow> object_entries ps = ps"
proof -
  have "fold (\<lambda>(k, v). put_property k v) ps acc = acc @ ps" if "distinct (map fst (acc @ ps))" for acc
    using that by (induction ps arbitrary: acc) (auto simp: put_property_new)
  then show "distinct (map fst ps) \<Longrightarrow> object_entries ps = ps" by (simp add: object_entries_def)
qed

text \<open>The JSON of an export, as \<open>JSON.stringify\<close> prints the object that \<open>exportWorkerChatSites\<close> returns.\<close>

definition alias_json :: "worker_alias \<Rightarrow> json" where
  "alias_json a = JObject ([(''siteKey'', JString (wa_siteKey a)), (''label'', JString (wa_label a))]
     @ (if wa_emailHandoff a then [(''emailHandoff'', JBool True)] else []))"

definition widget_json :: "worker_site \<Rightarrow> json" where
  "widget_json e = JObject [(''widgetKey'', JString (ws_widgetKey e)), (''version'', JString (ws_version e)),
     (''defaultAgent'', JString (ws_defaultAgent e)), (''theme'', JString (ws_theme e)),
     (''launcher'', JString (ws_launcher e)), (''placement'', JString (ws_placement e)),
     (''agentAliases'', JObject (map (\<lambda>(k, a). (k, alias_json a)) (ws_agentAliases e)))]"

definition site_json :: "worker_site \<Rightarrow> json" where
  "site_json e = JObject [(''siteKey'', JString (ws_siteKey e)),
     (''allowedOrigins'', JArray (map JString (ws_allowedOrigins e))), (''widget'', widget_json e)]"

definition export_json :: "(string \<times> worker_site) list \<Rightarrow> json" where
  "export_json out = JObject (map (\<lambda>(h, e). (h, site_json e)) out)"

text \<open>The site the gateway reads from an entry.\<close>

definition alias_read :: "worker_alias \<Rightarrow> alias_config" where
  "alias_read a = \<lparr>ac_siteKey = wa_siteKey a, ac_label = wa_label a, ac_emailHandoff = wa_emailHandoff a\<rparr>"

definition site_read :: "worker_site \<Rightarrow> gateway_site" where
  "site_read e = \<lparr>gs_siteKey = ws_siteKey e, gs_allowedOrigins = ws_allowedOrigins e, gs_dashboardOrigins = None,
     gs_analytics = None,
     gs_widget = Some \<lparr>wc_widgetKey = ws_widgetKey e, wc_version = ws_version e, wc_defaultAgent = ws_defaultAgent e,
       wc_theme = ws_theme e, wc_launcher = ws_launcher e, wc_placement = ws_placement e,
       wc_agentAliases = map (\<lambda>(k, a). (k, alias_read a)) (ws_agentAliases e)\<rparr>\<rparr>"

definition entry_ok :: "(string \<Rightarrow> web_url option) \<Rightarrow> worker_site \<Rightarrow> bool" where
  "entry_ok url_of e \<longleftrightarrow> list_all opaque_id [ws_siteKey e, ws_widgetKey e, ws_version e, ws_defaultAgent e, ws_theme e,
       ws_launcher e, ws_placement e]
     \<and> ws_allowedOrigins e \<noteq> [] \<and> length (ws_allowedOrigins e) \<le> 20
     \<and> list_all (https_origin url_of) (ws_allowedOrigins e)
     \<and> ws_agentAliases e \<noteq> [] \<and> distinct (map fst (ws_agentAliases e))
     \<and> list_all (\<lambda>(k, a). opaque_id k \<and> opaque_id (wa_siteKey a) \<and> len_between 1 80 (wa_label a)) (ws_agentAliases e)
     \<and> defines_property (ws_agentAliases e) (ws_defaultAgent e)"

lemma isAgentAliasConfig_json:
  "opaque_id (wa_siteKey a) \<Longrightarrow> len_between 1 80 (wa_label a) \<Longrightarrow> isAgentAliasConfig (alias_json a) = Some (alias_read a)"
  by (simp add: isAgentAliasConfig_def token_of_def alias_json_def alias_read_def)

lemma alias_configs_json:
  "list_all (\<lambda>(k, a). opaque_id k \<and> opaque_id (wa_siteKey a) \<and> len_between 1 80 (wa_label a)) as \<Longrightarrow>
     alias_configs (map (\<lambda>(k, a). (k, alias_json a)) as) = Some (map (\<lambda>(k, a). (k, alias_read a)) as)"
  by (induction as) (auto simp: isAgentAliasConfig_json)

lemma isWidgetConfig_json:
  assumes "entry_ok url_of e"
  shows "isWidgetConfig (widget_json e) = gs_widget (site_read e)"
proof -
  let ?as = "map (\<lambda>(k, a). (k, alias_json a)) (ws_agentAliases e)"
  have keys: "map fst ?as = map fst (ws_agentAliases e)" by (simp add: case_prod_unfold comp_def)
  have "distinct (map fst ?as)" unfolding keys using assms by (simp add: entry_ok_def)
  then have "object_entries ?as = ?as" by (rule object_entries_distinct)
  moreover have "read_property (map (\<lambda>(k, a). (k, alias_read a)) (ws_agentAliases e)) (ws_defaultAgent e) \<noteq> Missing"
    using assms by (auto simp: entry_ok_def read_property_def defines_property_def map_of_eq_None_iff image_iff
        split: option.split)
  ultimately show ?thesis
    using assms alias_configs_json [of "ws_agentAliases e"]
    by (simp add: isWidgetConfig_def widget_json_def token_of_def entry_ok_def site_read_def)
qed

lemma collect_id: "list_all (\<lambda>x. f x = Some x) xs \<Longrightarrow> collect f xs = Some xs"
  by (induction xs) auto

lemma site_candidates_json:
  assumes "entry_ok url_of e"
  shows "site_candidates url_of (site_json e) = Some [site_read e]"
proof -
  have "strings_of (JArray (map JString (ws_allowedOrigins e))) = Some (ws_allowedOrigins e)"
    using assms by (auto simp: strings_of_def entry_ok_def list_all_iff comp_def)
  then have "isSiteConfig url_of (site_json e) = Some (site_read e)"
    using isWidgetConfig_json [OF assms] assms
    by (simp add: isSiteConfig_def site_json_def token_of_def entry_ok_def optional_value_def site_read_def)
  moreover have "list_all (\<lambda>x. normalizeConfiguredOrigin url_of x = Some x) (ws_allowedOrigins e)"
    using assms by (auto simp: entry_ok_def list_all_iff https_origin_def normalizeConfiguredOrigin_def)
  then have "normalizeSiteConfig url_of (site_read e) = Some (site_read e)"
    using collect_id [of "normalizeConfiguredOrigin url_of"]
    by (simp add: normalizeSiteConfig_def site_read_def optional_value_def)
  ultimately show ?thesis by (simp add: site_candidates_def site_json_def)
qed

lemma hostname_lower: "hostnameForOrigin url_of x = Inr h \<Longrightarrow> map lower_char h = h \<and> https_origin url_of x"
  by (auto simp: hostnameForOrigin_def https_origin_def split: option.splits if_splits)

lemma export_origins_Inr:
  assumes "export_origins url_of entry origins out = Inr out'"
  shows "list_all (https_origin url_of) origins \<and> (distinct (map fst out) \<longrightarrow> distinct (map fst out'))
     \<and> (\<forall>(h, e) \<in> set out'. (h, e) \<in> set out \<or> e = entry \<and> map lower_char h = h)"
  using assms
proof (induction origins arbitrary: out)
  case (Cons x xs)
  then obtain h where h: "hostnameForOrigin url_of x = Inr h"
      and rest: "export_origins url_of entry xs (put_property h entry out) = Inr out'"
    by (auto split: if_splits)
  show ?case
    using Cons.IH [OF rest] hostname_lower [OF h] distinct_put_property [of out h entry] set_put_property [of h entry out]
    by fastforce
qed auto

definition row_entry_ok :: "(string \<Rightarrow> web_url option) \<Rightarrow> widget_row \<times> site_row \<Rightarrow> worker_site \<Rightarrow> bool" where
  "row_entry_ok url_of = (\<lambda>(w, s) e. e = worker_entry w s \<and> list_all (https_origin url_of) (s_allowed_origins s)
     \<and> defines_property (ws_agentAliases e) (w_default_agent_alias w))"

lemma export_widgets_Inr:
  assumes "export_widgets url_of rows out = Inr out'"
  shows "(distinct (map fst out) \<longrightarrow> distinct (map fst out'))
     \<and> (\<forall>(h, e) \<in> set out'. (h, e) \<in> set out \<or> map lower_char h = h \<and> (\<exists>r \<in> set rows. row_entry_ok url_of r e))"
  using assms
proof (induction rows arbitrary: out)
  case (Cons r rows)
  obtain w s where r: "r = (w, s)" by fastforce
  then obtain out1 where def_ok: "defines_property (ws_agentAliases (worker_entry w s)) (w_default_agent_alias w)"
      and here: "export_origins url_of (worker_entry w s) (s_allowed_origins s) out = Inr out1"
      and rest: "export_widgets url_of rows out1 = Inr out'"
    using Cons.prems by (auto simp: Let_def split: if_splits)
  have "row_entry_ok url_of r (worker_entry w s)"
    using export_origins_Inr [OF here] def_ok by (simp add: row_entry_ok_def r)
  then show ?case using Cons.IH [OF rest] export_origins_Inr [OF here] by fastforce
qed auto

text \<open>The rows that registrations write.\<close>

definition registry_ok :: "db \<Rightarrow> bool" where
  "registry_ok d \<longleftrightarrow> (\<forall>s \<in> set (sites d). opaque_id (s_site_key s) \<and> s_allowed_origins s \<noteq> []
        \<and> length (s_allowed_origins s) \<le> 20)
     \<and> (\<forall>w \<in> set (site_widgets d). list_all opaque_id [w_widget_key w, w_version w, w_default_agent_alias w, w_theme w,
          w_launcher w, w_placement w] \<and> w_agent_aliases w \<noteq> [] \<and> list_all alias_ok (w_agent_aliases w))"

lemma worker_aliases_inv:
  assumes "list_all alias_ok as" and "opaque_id key" and "distinct (map fst acc)"
    and "list_all (\<lambda>(k, a). opaque_id k \<and> opaque_id (wa_siteKey a) \<and> len_between 1 80 (wa_label a)) acc"
  shows "let ps = fold (\<lambda>alias ps. put_property (al_alias alias)
       \<lparr>wa_siteKey = key, wa_label = al_label alias, wa_emailHandoff = al_emailHandoff alias\<rparr> ps) as acc
     in distinct (map fst ps) \<and> (as \<noteq> [] \<or> acc \<noteq> [] \<longrightarrow> ps \<noteq> [])
       \<and> list_all (\<lambda>(k, a). opaque_id k \<and> opaque_id (wa_siteKey a) \<and> len_between 1 80 (wa_label a)) ps"
  using assms
proof (induction as arbitrary: acc)
  case (Cons x xs)
  let ?v = "\<lparr>wa_siteKey = key, wa_label = al_label x, wa_emailHandoff = al_emailHandoff x\<rparr>"
  have "al_label x \<noteq> []" using Cons.prems(1) by (auto simp: alias_ok_def trim_def)
  then have "opaque_id (al_alias x) \<and> len_between 1 80 (al_label x)"
    using Cons.prems(1) by (cases "al_label x") (auto simp: alias_ok_def len_between_def)
  then have "list_all (\<lambda>(k, a). opaque_id k \<and> opaque_id (wa_siteKey a) \<and> len_between 1 80 (wa_label a))
      (put_property (al_alias x) ?v acc)"
    using Cons.prems(2,4) set_put_property [of "al_alias x" ?v acc] by (fastforce simp: list_all_iff)
  moreover have "put_property (al_alias x) ?v acc \<noteq> []"
    using keys_put_property [of "al_alias x" ?v acc] by auto
  moreover have "distinct (map fst (put_property (al_alias x) ?v acc))"
    using Cons.prems(3) by (rule distinct_put_property)
  ultimately show ?case
    using Cons.IH [of "put_property (al_alias x) ?v acc"] Cons.prems(1,2) by (simp add: Let_def)
qed simp

lemma registry_entry_ok:
  assumes "registry_ok d" and "(w, s) \<in> set (export_rows d)" and "row_entry_ok url_of (w, s) e"
  shows "entry_ok url_of e"
proof -
  have rows: "w \<in> set (site_widgets d)" "s \<in> set (sites d)" using assms(2) by (auto simp: export_rows_def)
  then show ?thesis
    using assms(1,3) worker_aliases_inv [of "w_agent_aliases w" "s_site_key s" "[]"]
    by (auto simp: registry_ok_def row_entry_ok_def entry_ok_def worker_entry_def worker_aliases_def Let_def)
qed

lemma plain_distinct:
  "distinct (map fst ps) \<Longrightarrow> \<forall>(k, v) \<in> set ps. plain v = v \<Longrightarrow> plain (JObject ps) = JObject ps"
proof -
  assume keys: "distinct (map fst ps)" and same: "\<forall>(k, v) \<in> set ps. plain v = v"
  have "map (\<lambda>p. (fst p, plain (snd p))) ps = ps" using same by (auto intro!: map_idI)
  then show ?thesis using keys by (simp add: object_entries_distinct)
qed

lemma plain_alias: "plain (alias_json a) = alias_json a"
  unfolding alias_json_def by (rule plain_distinct) auto

lemma plain_site: "entry_ok url_of e \<Longrightarrow> plain (site_json e) = site_json e"
proof -
  assume ok: "entry_ok url_of e"
  have "map fst (map (\<lambda>(k, a). (k, alias_json a)) (ws_agentAliases e)) = map fst (ws_agentAliases e)"
    by (simp add: case_prod_unfold comp_def)
  then have "plain (JObject (map (\<lambda>(k, a). (k, alias_json a)) (ws_agentAliases e)))
      = JObject (map (\<lambda>(k, a). (k, alias_json a)) (ws_agentAliases e))"
    using ok by (intro plain_distinct) (auto simp only: entry_ok_def plain_alias set_map)
  then have "plain (widget_json e) = widget_json e"
    unfolding widget_json_def by (intro plain_distinct) auto
  then show ?thesis unfolding site_json_def by (intro plain_distinct) (auto simp: comp_def)
qed

lemma export_keys [simp]: "map fst (map (\<lambda>(h, e). (h, f e)) out) = map fst out"
  by (simp add: case_prod_unfold comp_def)

lemma export_json_read:
  assumes "distinct (map fst out)" and "\<forall>(h, e) \<in> set out. entry_ok url_of e"
  shows "map_option plain (json_parse (stringify (export_json out))) = Some (export_json out)"
proof -
  have "no_fraction (export_json out)"
    by (auto simp: export_json_def site_json_def widget_json_def alias_json_def list_all_iff)
  moreover have "plain (export_json out) = export_json out"
    unfolding export_json_def using assms plain_site by (intro plain_distinct) (auto simp del: map_map)
  ultimately show ?thesis by (simp add: json_parse_stringify_gen del: stringify.simps)
qed

lemma parse_sites_json:
  assumes "\<forall>(h, e) \<in> set out. isHostname h \<and> map lower_char h = h \<and> entry_ok url_of e"
    and "distinct (map fst acc @ map fst out)"
  shows "parse_sites url_of (map (\<lambda>(h, e). (h, site_json e)) out) acc
     = Some (acc @ map (\<lambda>(h, e). (h, [site_read e])) out)"
  using assms
proof (induction out arbitrary: acc)
  case (Cons p out)
  obtain h e where p: "p = (h, e)" by fastforce
  then have "put_property h [site_read e] acc = acc @ [(h, [site_read e])]"
    using Cons.prems(2) by (intro put_property_new) auto
  then show ?case
    using Cons.IH [of "acc @ [(h, [site_read e])]"] Cons.prems site_candidates_json [of url_of e] by (simp add: p Let_def)
qed simp

definition core_url_ok :: "web_url \<Rightarrow> bool" where
  "core_url_ok base \<longleftrightarrow> u_protocol base = ''https:'' \<and> u_username base = [] \<and> u_password base = []
     \<and> u_pathname base = ''/'' \<and> u_search base = [] \<and> u_hash base = []"

lemma export_configuration:
  assumes "distinct (map fst out)" and "out \<noteq> []"
    and "\<forall>(h, e) \<in> set out. isHostname h \<and> map lower_char h = h \<and> entry_ok url_of e"
    and "url_of (ge_baseUrl env) = Some base" and "core_url_ok base"
    and "ge_haystackToken env = Some token" and "token \<noteq> []" and "ge_sites env = stringify (export_json out)"
  shows "parseGatewayConfiguration url_of env = Some \<lparr>gc_coreBaseUrl = base,
     gc_sites = map (\<lambda>(h, e). (h, [site_read e])) out, gc_serviceToken = token\<rparr>"
proof -
  have "parse_sites url_of (map (\<lambda>(h, e). (h, site_json e)) out) [] = Some (map (\<lambda>(h, e). (h, [site_read e])) out)"
    using parse_sites_json [of out url_of "[]"] assms(1,3) by simp
  moreover have "map_option plain (json_parse (ge_sites env)) = Some (JObject (map (\<lambda>(h, e). (h, site_json e)) out))"
    using export_json_read [of out url_of] assms(1,3) by (auto simp: assms(8) export_json_def simp del: stringify.simps)
  ultimately show ?thesis
    using assms(2,4-7) by (auto simp: parseGatewayConfiguration_def truthy_text_def core_url_ok_def)
qed

text \<open>
  C16: what the registry exports, the gateway takes as it is: when the rows are those that registrations
  write and the hostnames of the origins are ordinary ones, the exported object, printed as JSON into the
  gateway's environment, is a valid configuration, in which each hostname has exactly the one site that was
  exported for it, with its key, its origins, its widget and the labels and flags of its aliases.
\<close>

theorem exported_sites_accepted:
  assumes "exportWorkerChatSites url_of d = Inr out" and "registry_ok d" and "out \<noteq> []"
    and "\<forall>(h, e) \<in> set out. isHostname h"
    and "url_of (ge_baseUrl env) = Some base" and "core_url_ok base"
    and "ge_haystackToken env = Some token" and "token \<noteq> []" and "ge_sites env = stringify (export_json out)"
  shows "\<exists>configuration. parseGatewayConfiguration url_of env = Some configuration
     \<and> gc_serviceToken configuration = token
     \<and> (\<forall>(h, e) \<in> set out. map_of (gc_sites configuration) h = Some [site_read e])"
proof -
  have rows: "distinct (map fst out)"
      "\<forall>(h, e) \<in> set out. map lower_char h = h \<and> (\<exists>r \<in> set (export_rows d). row_entry_ok url_of r e)"
    using export_widgets_Inr [OF assms(1) [unfolded exportWorkerChatSites_def]] by auto
  then have ok: "\<forall>(h, e) \<in> set out. isHostname h \<and> map lower_char h = h \<and> entry_ok url_of e"
    using assms(4) registry_entry_ok [OF assms(2)] by fastforce
  have "map_of (map (\<lambda>(h, e). (h, [site_read e])) out) h = Some [site_read e]" if "(h, e) \<in> set out" for h e
    using that rows(1) by (intro map_of_is_SomeI) (auto simp del: map_map)
  then show ?thesis
    using export_configuration [OF rows(1) assms(3) ok assms(5-9)] by auto
qed

subsection \<open>A concrete gateway\<close>

definition sample_registry :: db where
  "sample_registry = sample_db\<lparr>site_widgets := [new_widget ''t1'' ''s1'' 7 (pc_widget sample_provisioning)]\<rparr>"

definition sample_entry :: worker_site where
  "sample_entry = worker_entry (new_widget ''t1'' ''s1'' 7 (pc_widget sample_provisioning)) (hd (sites sample_db))"

definition sample_env :: gateway_env where
  "sample_env = \<lparr>ge_baseUrl = ''https://core'', ge_sites = stringify (export_json [(''a'', sample_entry)]),
     ge_haystackToken = Some ''secret'', ge_serviceToken = None\<rparr>"

definition sample_gateway_request :: "string \<Rightarrow> string \<Rightarrow> (string \<times> string) list \<Rightarrow> gateway_request" where
  "sample_gateway_request verb path params =
     \<lparr>gq_method = verb, gq_url = (the (sample_web_url ''https://a''))\<lparr>u_pathname := path, u_params := params\<rparr>,
      gq_headers = map_of [(''origin'', ''https://a''), (''content-type'', ''application/json'')],
      gq_body = Some [[123], [125]]\<rparr>"

definition sample_gateway :: gateway_configuration where
  "sample_gateway = \<lparr>gc_coreBaseUrl = the (sample_web_url ''https://core''),
     gc_sites = [(''a'', [site_read sample_entry])], gc_serviceToken = ''secret''\<rparr>"

lemma sample_exported: "exportWorkerChatSites sample_web_url sample_registry = Inr [(''a'', sample_entry)]"
  by code_simp

lemma sample_core: "sample_web_url (ge_baseUrl sample_env) = Some (the (sample_web_url ''https://core''))"
    "core_url_ok (the (sample_web_url ''https://core''))"
  by (simp_all add: sample_env_def sample_web_url_def starts_with_def core_url_ok_def)

lemma sample_entry_ok: "entry_ok sample_web_url sample_entry"
proof -
  have "https_origin sample_web_url ''https://a''"
    by (simp add: https_origin_def sample_web_url_def starts_with_def)
  moreover have "ws_allowedOrigins sample_entry = [''https://a'']"
    by (simp add: sample_entry_def worker_entry_def sample_db_def)
  moreover have "list_all opaque_id [ws_siteKey sample_entry, ws_widgetKey sample_entry, ws_version sample_entry,
      ws_defaultAgent sample_entry, ws_theme sample_entry, ws_launcher sample_entry, ws_placement sample_entry]
     \<and> ws_agentAliases sample_entry \<noteq> [] \<and> distinct (map fst (ws_agentAliases sample_entry))
     \<and> list_all (\<lambda>(k, a). opaque_id k \<and> opaque_id (wa_siteKey a) \<and> len_between 1 80 (wa_label a))
         (ws_agentAliases sample_entry)
     \<and> defines_property (ws_agentAliases sample_entry) (ws_defaultAgent sample_entry)"
    by code_simp
  ultimately show ?thesis by (simp add: entry_ok_def)
qed

lemma sample_configured: "parseGatewayConfiguration sample_web_url sample_env = Some sample_gateway"
proof -
  have "isHostname ''a'' \<and> map lower_char ''a'' = ''a''" by code_simp
  then show ?thesis
    using export_configuration [of "[(''a'', sample_entry)]" sample_web_url sample_env, OF _ _ _ sample_core]
      sample_entry_ok
    by (simp add: sample_env_def sample_gateway_def)
qed

definition sample_opening :: gateway_request where
  "sample_opening = sample_gateway_request ''POST'' ''/v1/sessions'' [(''widgetKey'', ''main'')]"

definition sample_styled :: gateway_request where
  "sample_styled = sample_gateway_request ''GET'' ''/widget/config'' [(''widgetKey'', ''main''), (''version'', ''!'')]"

lemma sample_sent:
  "gq_headers (sample_gateway_request verb path params) ''origin'' = Some ''https://a''"
  "gq_headers (sample_gateway_request verb path params) ''sec-fetch-site'' = None"
  "gq_method (sample_gateway_request verb path params) = verb"
  "u_pathname (gq_url (sample_gateway_request verb path params)) = path"
  "u_params (gq_url (sample_gateway_request verb path params)) = params"
  "u_hostname (gq_url (sample_gateway_request verb path params)) = ''a''"
  by (simp_all add: sample_gateway_request_def sample_web_url_def starts_with_def)

lemma sample_origins: "gs_allowedOrigins (site_read sample_entry) = [''https://a'']"
  by (simp add: site_read_def sample_entry_def worker_entry_def sample_db_def)

lemma sample_resolved:
  assumes "gr_kind route = Kind_bootstrap \<or> gr_kind route = Kind_widget_config"
  shows "resolveSiteForRequest sample_web_url [site_read sample_entry] route
     (gq_url (sample_gateway_request verb path params)) (gq_headers (sample_gateway_request verb path params) ''origin'')
     (gq_headers (sample_gateway_request verb path params) ''sec-fetch-site'') False
   = Some (site_read sample_entry, ''https://a'')"
  using assms
  by (auto simp: sample_sent sample_origins validatedOrigin_def truthy_text_def sample_web_url_def starts_with_def)

lemma sample_hosts:
  "map_of (gc_sites sample_gateway) (map lower_char (u_hostname (gq_url (sample_gateway_request verb path params))))
     = Some [site_read sample_entry]"
proof -
  have "map lower_char ''a'' = ''a''" by code_simp
  then show ?thesis by (simp add: sample_sent sample_gateway_def)
qed

definition sample_widget_config :: widget_config where
  "sample_widget_config = \<lparr>wc_widgetKey = ''main'', wc_version = ''1'',
     wc_defaultAgent = ''support'', wc_theme = ''pink'', wc_launcher = ''agent'', wc_placement = ''right'',
     wc_agentAliases = [(''support'', alias_read (snd (hd (ws_agentAliases sample_entry))))]\<rparr>"

lemma sample_widget:
  "gs_siteKey (site_read sample_entry) = ''key''"
  "gs_widget (site_read sample_entry) = Some sample_widget_config"
  by code_simp+

lemma sample_tokens: "opaque_id ''main''" "opaque_id ''support''" "\<not> opaque_id ''!''"
  by code_simp+

lemma sample_asked:
  "resolveWidget (gq_url (sample_gateway_request verb path ((''widgetKey'', ''main'') # params))) (site_read sample_entry)
     = Inr (Some sample_widget_config)"
  by (simp add: resolveWidget_def publicTokenParam_def sample_sent truthy_text_def sample_widget sample_tokens
      sample_widget_config_def)

lemma sample_agent:
  assumes "map_of params ''agent'' = None"
  shows "chosen_agent (gq_url (sample_gateway_request verb path params)) (sample_widget_config)
     = Inr ''support''"
    and "read_property (wc_agentAliases (sample_widget_config)) ''support'' \<noteq> Missing"
  using assms
  by (simp_all add: chosen_agent_def publicTokenParam_def sample_sent truthy_text_def sample_widget_config_def read_property_def)

lemma sample_body: "json_parse ''{}'' = Some (JObject [])"
    "readBoundedBody (sample_gateway_request verb path params) MAX_REQUEST_BYTES = Inr ''{}''"
proof -
  have "decode_text [123, 125] = Some ''{}''" by code_simp
  then show "readBoundedBody (sample_gateway_request verb path params) MAX_REQUEST_BYTES = Inr ''{}''"
    by (simp add: readBoundedBody_def sample_gateway_request_def truthy_text_def MAX_REQUEST_BYTES_def)
  show "json_parse ''{}'' = Some (JObject [])" by code_simp
qed

definition sample_asked_body :: json where
  "sample_asked_body = JObject (session_fields ''key'' (Some (sample_widget_config, ''support'')))"

lemma sample_prepared:
  "prepareBody sample_opening Kind_bootstrap ''key'' (Some sample_widget_config) = Inr (stringify sample_asked_body)"
  using sample_agent [of "[(''widgetKey'', ''main'')]"]
  by (simp add: prepareBody_def sample_opening_def sample_body object_entries_def session_body_def Let_def
      sample_asked_body_def del: stringify.simps)

lemma sample_forwarded_body:
  "\<exists>up. gateway_step_of sample_web_url sample_env sample_opening = Forward up ''https://a''
     \<and> up_body up = Some (stringify sample_asked_body)"
proof -
  have "validatedWidgetForRequest (gq_url sample_opening) (site_read sample_entry) = Inr (Some sample_widget_config)"
    using sample_agent [of "[(''widgetKey'', ''main'')]"]
    by (simp add: validatedWidgetForRequest_def sample_opening_def sample_asked sample_sent)
  moreover have "isJsonContentType (gq_headers sample_opening ''content-type'')" by code_simp
  moreover have "gq_method sample_opening = ''POST''" by (simp add: sample_opening_def sample_sent)
  ultimately have "\<exists>up. serve_site sample_gateway sample_opening bootstrap_route (site_read sample_entry) ''https://a''
      = Forward up ''https://a'' \<and> up_body up = Some (stringify sample_asked_body)"
    using sample_prepared by (simp add: serve_site_def bootstrap_route_def sample_widget Let_def del: stringify.simps)
  moreover have "is_auth_navigation sample_opening bootstrap_route = False"
    by (simp add: is_auth_navigation_def bootstrap_route_def)
  moreover have "resolveSiteForRequest sample_web_url [site_read sample_entry] bootstrap_route (gq_url sample_opening)
      (gq_headers sample_opening ''origin'') (gq_headers sample_opening ''sec-fetch-site'') False
      = Some (site_read sample_entry, ''https://a'')"
    unfolding sample_opening_def by (rule sample_resolved) (simp add: bootstrap_route_def)
  moreover have "read_property (gc_sites sample_gateway) (map lower_char (u_hostname (gq_url sample_opening)))
      = Own [site_read sample_entry]"
    using sample_hosts by (simp add: read_property_def sample_opening_def)
  moreover have "u_pathname (gq_url sample_opening) = ''/v1/sessions''"
    by (simp add: sample_opening_def sample_sent)
  ultimately show ?thesis
    using find_routes(1)
    by (auto simp del: resolveSiteForRequest.simps stringify.simps simp: gateway_step_of_def sample_configured Let_def)
qed

lemma sample_forwarded:
  obtains up where "gateway_step_of sample_web_url sample_env sample_opening = Forward up ''https://a''"
  using sample_forwarded_body by blast



lemma malformed_style_rejects_witness:
  "handleGatewayRequest sample_web_url (\<lambda>_. None) sample_env sample_styled = None"
proof -
  have asked: "resolveWidget (gq_url sample_styled) (site_read sample_entry) = Inr (Some sample_widget_config)"
    unfolding sample_styled_def by (rule sample_asked)
  have agent: "chosen_agent (gq_url sample_styled) sample_widget_config = Inr ''support''"
      "read_property (wc_agentAliases sample_widget_config) ''support'' \<noteq> Missing"
    using sample_agent [of "[(''widgetKey'', ''main''), (''version'', ''!'')]"] by (simp_all add: sample_styled_def)
  have request: "u_pathname (gq_url sample_styled) = ''/widget/config''" "gq_method sample_styled = ''GET''"
      "map_of (u_params (gq_url sample_styled)) ''version'' = Some ''!''"
    by (simp_all add: sample_styled_def sample_sent)
  have site: "resolveSiteForRequest sample_web_url [site_read sample_entry] widget_config_route (gq_url sample_styled)
      (gq_headers sample_styled ''origin'') (gq_headers sample_styled ''sec-fetch-site'') False
      = Some (site_read sample_entry, ''https://a'')"
    unfolding sample_styled_def by (rule sample_resolved) (simp add: widget_config_route_def)
  have host: "map_of (gc_sites sample_gateway) (map lower_char (u_hostname (gq_url sample_styled)))
      = Some [site_read sample_entry]"
    unfolding sample_styled_def by (rule sample_hosts)
  show ?thesis
    by (rule malformed_style_rejects [OF sample_configured host site request(1,2) asked agent _ request(3) _
          sample_tokens(3)]) simp_all
qed

lemma exported_sites_accepted_witness:
  "\<exists>configuration. parseGatewayConfiguration sample_web_url sample_env = Some configuration
     \<and> gc_serviceToken configuration = ''secret''
     \<and> map_of (gc_sites configuration) ''a'' = Some [site_read sample_entry]"
proof -
  have "registry_ok sample_registry" "isHostname ''a''" by code_simp+
  then show ?thesis
    using exported_sites_accepted [OF sample_exported, of sample_env _ "''secret''", OF _ _ _ sample_core]
    by (simp add: sample_env_def)
qed

end
