(* ===== verification/DirectChat.thy ===== *)
theory DirectChat
  imports Gateway Sse
begin

text \<open>
  The chat without a server, \<open>examples/direct-chat-widget\<close>: the worker that answers a widget itself or
  forwards its history to a Haystack connector (\<open>src/index.ts\<close>), the widget's reader of the answer
  (\<open>site/stream.ts\<close>) and the conversation the widget keeps (\<open>site/widget.ts\<close>, without its markup).

  The URL parser, the connector behind the worker and the network are parameters. The two typographic
  quotes of the preview's answer, which lie outside the characters of the model, are a parameter too.
  A response arrives as the texts that the streaming decoder makes of its chunks, its flush last; the
  ellipsis that ends a status is left out.
\<close>

subsection \<open>The worker's configuration\<close>

datatype backend_mode = Mock_mode | Haystack_mode

record direct_env =
  de_mode :: string
  de_origins :: string
  de_baseUrl :: string
  de_agentRef :: string
  de_tenantKey :: string
  de_agentSlug :: string
  de_token :: "string option"

record direct_configuration =
  dc_mode :: backend_mode
  dc_origins :: "string list"
  dc_haystackBaseUrl :: string
  dc_agentRef :: ident
  dc_tenantKey :: string
  dc_agentSlug :: string
  dc_connectorToken :: string

definition isHttpsOrigin :: "(string \<Rightarrow> web_url option) \<Rightarrow> string \<Rightarrow> bool" where
  "isHttpsOrigin url_of v = (case url_of v of
     None \<Rightarrow> False | Some u \<Rightarrow> u_protocol u = ''https:'' \<and> u_origin u = v)"

definition isTrustedName :: "string \<Rightarrow> bool" where
  "isTrustedName v = len_between 1 200 v"

definition configured_origins :: "(string \<Rightarrow> web_url option) \<Rightarrow> json \<Rightarrow> string list option" where
  "configured_origins url_of j = (case j of
     JArray js \<Rightarrow>
       if 20 < length js then None
       else collect (\<lambda>x. case x of JString s \<Rightarrow> if isHttpsOrigin url_of s then Some s else None | _ \<Rightarrow> None) js
   | _ \<Rightarrow> None)"

definition backend_of :: "string \<Rightarrow> backend_mode option" where
  "backend_of mode = (if mode = ''mock'' then Some Mock_mode
     else if mode = ''haystack'' then Some Haystack_mode else None)"

definition direct_base_ok :: "backend_mode \<Rightarrow> web_url \<Rightarrow> bool" where
  "direct_base_ok mode base \<longleftrightarrow> u_protocol base \<in> {''http:'', ''https:''}
     \<and> (mode = Haystack_mode \<longrightarrow> u_protocol base = ''https:'')
     \<and> u_username base = [] \<and> u_password base = [] \<and> u_pathname base = ''/'' \<and> u_search base = []
     \<and> u_hash base = []"

definition parseDirectConfiguration ::
  "(string \<Rightarrow> web_url option) \<Rightarrow> direct_env \<Rightarrow> direct_configuration option" where
  "parseDirectConfiguration url_of env =
     (case (backend_of (de_mode env), Option.bind (json_parse (de_origins env)) (configured_origins url_of),
            url_of (de_baseUrl env)) of
        (Some mode, Some origins, Some base) \<Rightarrow>
          if \<not> direct_base_ok mode base \<or> \<not> opaque_id (de_agentRef env)
             \<or> \<not> isTrustedName (de_tenantKey env) \<or> \<not> isTrustedName (de_agentSlug env)
             \<or> mode = Haystack_mode \<and> truthy_text (de_token env) = None
          then None
          else Some \<lparr>dc_mode = mode, dc_origins = origins, dc_haystackBaseUrl = u_origin base,
             dc_agentRef = de_agentRef env, dc_tenantKey = de_tenantKey env, dc_agentSlug = de_agentSlug env,
             dc_connectorToken = (case de_token env of None \<Rightarrow> [] | Some t \<Rightarrow> t)\<rparr>
      | _ \<Rightarrow> None)"

subsection \<open>The request of a widget\<close>

definition MAX_BODY_BYTES :: nat where "MAX_BODY_BYTES = 65536"
definition MAX_MESSAGES :: nat where "MAX_MESSAGES = 30"
definition MAX_MESSAGE_CHARS :: nat where "MAX_MESSAGE_CHARS = 4000"

datatype chat_role = By_user | By_assistant

record chat_message =
  cm_role :: chat_role
  cm_text :: string

record chat_request =
  cq_conversationId :: ident
  cq_visitorId :: ident
  cq_messages :: "chat_message list"

definition role_of :: "json option \<Rightarrow> chat_role option" where
  "role_of j = (case j of
     Some (JString s) \<Rightarrow> if s = ''user'' then Some By_user else if s = ''assistant'' then Some By_assistant else None
   | _ \<Rightarrow> None)"

definition opaque_of :: "json option \<Rightarrow> ident option" where
  "opaque_of j = (case j of Some (JString s) \<Rightarrow> if opaque_id s then Some s else None | _ \<Rightarrow> None)"

definition parse_chat_message :: "json \<Rightarrow> chat_message option" where
  "parse_chat_message j = (case (role_of (json_get j ''role''), json_get j ''text'') of
     (Some role, Some (JString s)) \<Rightarrow>
       (let text' = trim s
        in if text' = [] \<or> MAX_MESSAGE_CHARS < length text' then None
           else Some \<lparr>cm_role = role, cm_text = text'\<rparr>)
   | _ \<Rightarrow> None)"

definition parseChatRequest :: "json \<Rightarrow> chat_request option" where
  "parseChatRequest j =
     (case (opaque_of (json_get j ''conversationId''), opaque_of (json_get j ''visitorId''), json_get j ''messages'') of
        (Some conversationId, Some visitorId, Some (JArray js)) \<Rightarrow>
          if js = [] \<or> MAX_MESSAGES < length js then None
          else (case collect parse_chat_message js of
              None \<Rightarrow> None
            | Some ms \<Rightarrow>
                if cm_role (last ms) \<noteq> By_user then None
                else Some \<lparr>cq_conversationId = conversationId, cq_visitorId = visitorId, cq_messages = ms\<rparr>)
      | _ \<Rightarrow> None)"

text \<open>\<open>None\<close> is an error without a name, \<open>Too_large\<close> the class \<open>BodyTooLargeError\<close>.\<close>

datatype body_error = Too_large | Unreadable

definition readDirectBody :: "gateway_request \<Rightarrow> body_error + string" where
  "readDirectBody request =
     (if (case truthy_text (gq_headers request ''content-length'') of
            None \<Rightarrow> False | Some n \<Rightarrow> \<not> list_all is_digit n \<or> MAX_BODY_BYTES < read_nat n)
      then Inl Too_large
      else (case gq_body request of
          None \<Rightarrow> Inl Unreadable
        | Some chunks \<Rightarrow>
            (case read_body_chunks MAX_BODY_BYTES 0 chunks of
               Inl _ \<Rightarrow> Inl Too_large
             | Inr bytes \<Rightarrow> (case decode_text bytes of None \<Rightarrow> Inl Unreadable | Some s \<Rightarrow> Inr s))))"

definition readChatRequest :: "gateway_request \<Rightarrow> body_error + chat_request" where
  "readChatRequest request = and_then (readDirectBody request) (\<lambda>raw.
     case Option.bind (json_parse raw) parseChatRequest of None \<Rightarrow> Inl Unreadable | Some input \<Rightarrow> Inr input)"

definition directOrigin ::
  "(string \<Rightarrow> web_url option) \<Rightarrow> string option \<Rightarrow> string \<Rightarrow> string list \<Rightarrow> string option" where
  "directOrigin url_of v requestOrigin allowed = (case truthy_text v of
     None \<Rightarrow> None
   | Some text' \<Rightarrow> (case url_of text' of
       None \<Rightarrow> None
     | Some u \<Rightarrow> if u_origin u = text' \<and> (u_origin u = requestOrigin \<or> u_origin u \<in> set allowed)
         then Some (u_origin u) else None))"

subsection \<open>The execution sent to Haystack\<close>

text \<open>The three identifiers of a request, from \<open>crypto.randomUUID\<close>.\<close>

record direct_ids =
  di_current :: string
  di_assistant :: string
  di_run :: string

definition history_message :: "direct_ids \<Rightarrow> js_date \<Rightarrow> chat_request \<Rightarrow> nat \<times> chat_message \<Rightarrow> message" where
  "history_message ids now input = (\<lambda>(i, m).
     \<lparr>ms_messageId = (if Suc i = length (cq_messages input) then ''message-'' @ di_current ids
        else ''history-'' @ show_nat (Suc i)),
      ms_conversationId = cq_conversationId input, ms_sequence = int (Suc i),
      ms_participantId = (if cm_role m = By_user then cq_visitorId input else ''widget-agent''),
      ms_role = (if cm_role m = By_user then Role_user else Role_assistant), ms_status = Msg_completed,
      ms_parts = [TextPart (cm_text m)], ms_createdAt = now, ms_completedAt = Some now\<rparr>)"

definition haystackExecution ::
  "direct_ids \<Rightarrow> js_date \<Rightarrow> chat_request \<Rightarrow> direct_configuration \<Rightarrow> string \<Rightarrow> connector_run_request \<times> ident" where
  "haystackExecution ids now input configuration origin =
     (let history = map (history_message ids now input) (enumerate 0 (cq_messages input))
      in (\<lparr>rq_runId = ''run-'' @ di_run ids, rq_conversationId = cq_conversationId input,
           rq_agentRef = dc_agentRef configuration, rq_triggerType = Trigger_message,
           rq_currentMessage = last history, rq_userParticipantId = cq_visitorId input, rq_history = history,
           rq_principalId = cq_visitorId input, rq_resolvedInputs = [],
           rq_trustedMetadata = [(''origin'', origin), (''haystack.tenant_key'', dc_tenantKey configuration),
             (''haystack.agent_slug'', dc_agentSlug configuration)]\<rparr>,
          ''message-'' @ di_assistant ids))"

subsection \<open>The answers of the worker\<close>

datatype direct_body = Direct_error string | Direct_empty | Direct_text string | Direct_stream "string list"

record direct_response =
  dr_status :: nat
  dr_headers :: "(string \<times> string) list"
  dr_body :: direct_body

definition directError :: "nat \<Rightarrow> string \<Rightarrow> string option \<Rightarrow> direct_response" where
  "directError status code origin =
     \<lparr>dr_status = status,
      dr_headers = [(''Cache-Control'', ''no-store''), (''Content-Type'', ''application/json; charset=utf-8'')]
        @ (case truthy_text origin of None \<Rightarrow> [] | Some v \<Rightarrow> cors_headers v),
      dr_body = Direct_error code\<rparr>"

definition streamResponse :: "direct_body \<Rightarrow> string \<Rightarrow> string option \<Rightarrow> direct_response" where
  "streamResponse body origin cacheControl =
     \<lparr>dr_status = 200,
      dr_headers = [(''Cache-Control'', case cacheControl of None \<Rightarrow> ''no-cache, no-transform'' | Some v \<Rightarrow> v),
         (''Content-Type'', ''text/event-stream; charset=utf-8''), (''X-Accel-Buffering'', ''no''),
         (''X-Content-Type-Options'', ''nosniff'')] @ cors_headers origin,
      dr_body = body\<rparr>"

definition preview_text :: string where
  "preview_text = ''This preview is working. ''"

definition preview_echo :: "string \<times> string \<Rightarrow> string \<Rightarrow> string" where
  "preview_echo quotes s = ''You said: '' @ fst quotes @ s @ snd quotes"

definition mock_frames :: "direct_ids \<Rightarrow> string \<times> string \<Rightarrow> chat_request \<Rightarrow> (string \<times> (string \<times> json) list) list" where
  "mock_frames ids quotes input =
     [(''run.started'', [(''data'', JObject [(''agentRef'', JString ''preview'')])]),
      (''message.started'', [(''messageId'', JString (''message-'' @ di_assistant ids)),
         (''data'', JObject [(''role'', JString ''assistant'')])]),
      (''message.delta'', [(''data'', JObject [(''delta'', JString preview_text)])]),
      (''message.delta'',
         [(''data'', JObject [(''delta'', JString (preview_echo quotes (cm_text (last (cq_messages input)))))])]),
      (''run.completed'', [(''data'', JObject [])])]"

definition mock_event :: "direct_ids \<Rightarrow> chat_request \<Rightarrow> string \<times> (string \<times> json) list \<Rightarrow> json" where
  "mock_event ids input = (\<lambda>(type', fields). JObject ([(''visibility'', JString ''public''),
     (''conversationId'', JString (cq_conversationId input)), (''runId'', JString (''run-'' @ di_run ids)),
     (''type'', JString type')] @ fields))"

definition mock_frame :: "direct_ids \<Rightarrow> chat_request \<Rightarrow> string \<times> (string \<times> json) list \<Rightarrow> string" where
  "mock_frame ids input f =
     ''event: '' @ fst f @ [LF] @ ''data: '' @ stringify (mock_event ids input f) @ [LF, LF]"

definition mockResponse :: "direct_ids \<Rightarrow> string \<times> string \<Rightarrow> chat_request \<Rightarrow> string \<Rightarrow> direct_response" where
  "mockResponse ids quotes input origin =
     streamResponse (Direct_text (concat (map (mock_frame ids input) (mock_frames ids quotes input)))) origin None"

definition directPreflight :: "gateway_request \<Rightarrow> string \<Rightarrow> direct_response" where
  "directPreflight request origin =
     (if map_option (\<lambda>m. concat (map upper_char m)) (gq_headers request ''access-control-request-method'')
         \<noteq> Some ''POST''
      then directError 405 ''METHOD_NOT_ALLOWED'' (Some origin)
      else if list_ex (\<lambda>name. name \<noteq> ''content-type'') (filter (\<lambda>s. s \<noteq> [])
          (map (\<lambda>s. map lower_char (trim s)) (split_on (CHR '','')
             (case gq_headers request ''access-control-request-headers'' of None \<Rightarrow> [] | Some v \<Rightarrow> v))))
      then directError 403 ''HEADER_NOT_ALLOWED'' (Some origin)
      else \<lparr>dr_status = 204,
        dr_headers = [(''Access-Control-Allow-Headers'', ''content-type''), (''Access-Control-Allow-Methods'', ''POST''),
          (''Access-Control-Max-Age'', ''600'')] @ cors_headers origin,
        dr_body = Direct_empty\<rparr>)"

subsection \<open>The worker\<close>

record direct_upstream =
  du_url :: string
  du_headers :: "(string \<times> string) list"
  du_body :: "connector_run_request \<times> ident"

record direct_upstream_response =
  ur_status :: nat
  ur_headers :: "string \<Rightarrow> string option"
  ur_body :: "string list option"

text \<open>An answer, or a request for the connector with the origin the answer is for.\<close>

datatype direct_step = Reply direct_response | Execute direct_upstream string

definition direct_step_of ::
  "(string \<Rightarrow> web_url option) \<Rightarrow> string \<times> string \<Rightarrow> direct_ids \<Rightarrow> js_date \<Rightarrow> direct_env
    \<Rightarrow> gateway_request \<Rightarrow> direct_step" where
  "direct_step_of url_of quotes ids now env request =
     (let url = gq_url request
      in if u_pathname url \<noteq> ''/api/chat'' then Reply (directError 404 ''NOT_FOUND'' None)
         else (case parseDirectConfiguration url_of env of
             None \<Rightarrow> Reply (directError 500 ''WIDGET_MISCONFIGURED'' None)
           | Some configuration \<Rightarrow>
               (case truthy_text (directOrigin url_of (gq_headers request ''origin'') (u_origin url)
                       (dc_origins configuration)) of
                  None \<Rightarrow> Reply (directError 403 ''ORIGIN_NOT_ALLOWED'' None)
                | Some origin \<Rightarrow>
                    if gq_method request = ''OPTIONS'' then Reply (directPreflight request origin)
                    else if gq_method request \<noteq> ''POST''
                    then (let r = directError 405 ''METHOD_NOT_ALLOWED'' (Some origin)
                          in Reply (r\<lparr>dr_headers := dr_headers r @ [(''Allow'', ''POST, OPTIONS'')]\<rparr>))
                    else if \<not> isJsonContentType (gq_headers request ''content-type'')
                    then Reply (directError 415 ''UNSUPPORTED_MEDIA_TYPE'' (Some origin))
                    else (case readChatRequest request of
                        Inl Too_large \<Rightarrow> Reply (directError 413 ''REQUEST_TOO_LARGE'' (Some origin))
                      | Inl Unreadable \<Rightarrow> Reply (directError 400 ''INVALID_REQUEST'' (Some origin))
                      | Inr input \<Rightarrow>
                          if dc_mode configuration = Mock_mode then Reply (mockResponse ids quotes input origin)
                          else Execute
                            \<lparr>du_url = dc_haystackBaseUrl configuration @ ''/api/connectors/v1/runs'',
                             du_headers = [(''Accept'', ''text/event-stream''),
                               (''Authorization'', ''Bearer '' @ dc_connectorToken configuration),
                               (''Content-Type'', ''application/json'')],
                             du_body = haystackExecution ids now input configuration origin\<rparr> origin))))"

definition isEventStreamType :: "string option \<Rightarrow> bool" where
  "isEventStreamType v = (case v of None \<Rightarrow> False
   | Some s \<Rightarrow> map lower_char (trim (takeWhile (\<lambda>c. c \<noteq> CHR '';'') s)) = ''text/event-stream'')"

definition handleWidgetRequest ::
  "(string \<Rightarrow> web_url option) \<Rightarrow> string \<times> string \<Rightarrow> direct_ids \<Rightarrow> js_date
    \<Rightarrow> (direct_upstream \<Rightarrow> direct_upstream_response option) \<Rightarrow> direct_env \<Rightarrow> gateway_request
    \<Rightarrow> direct_response" where
  "handleWidgetRequest url_of quotes ids now fetch env request =
     (case direct_step_of url_of quotes ids now env request of
        Reply r \<Rightarrow> r
      | Execute upstream origin \<Rightarrow>
          (case fetch upstream of
             None \<Rightarrow> directError 502 ''AGENT_UNAVAILABLE'' (Some origin)
           | Some response \<Rightarrow>
               (case ur_body response of
                  None \<Rightarrow> directError 502 ''AGENT_UNAVAILABLE'' (Some origin)
                | Some body \<Rightarrow>
                    if ur_status response < 200 \<or> 299 < ur_status response
                       \<or> \<not> isEventStreamType (ur_headers response ''content-type'')
                    then directError 502 ''AGENT_UNAVAILABLE'' (Some origin)
                    else streamResponse (Direct_stream body) origin (ur_headers response ''cache-control''))))"

subsection \<open>The widget's reader\<close>

definition MAX_EVENT_FRAME_CHARS :: nat where "MAX_EVENT_FRAME_CHARS = 65536"

record widget_event =
  we_type :: string
  we_data :: json

text \<open>\<open>replaceAll('\r\n', '\n')\<close>.\<close>

fun crlf :: "string \<Rightarrow> string" where
  "crlf (c # d # s) = (if c = CR \<and> d = LF then LF # crlf s else c # crlf (d # s))"
| "crlf s = s"

text \<open>The text before and after the first empty line.\<close>

fun split_blank :: "string \<Rightarrow> (string \<times> string) option" where
  "split_blank (c # d # s) =
     (if c = LF \<and> d = LF then Some ([], s) else map_option (\<lambda>(x, y). (c # x, y)) (split_blank (d # s)))"
| "split_blank s = None"

definition parseFrame :: "string \<Rightarrow> widget_event option" where
  "parseFrame frame =
     (case json_parse (join_lines (map (\<lambda>l. dropWhile js_space (drop 5 l))
             (filter (starts_with ''data:'') (split_on LF frame)))) of
        Some j \<Rightarrow> (case (json_get j ''type'', json_get j ''data'') of
            (Some (JString t), Some v) \<Rightarrow> Some \<lparr>we_type = t, we_data = v\<rparr>
          | _ \<Rightarrow> None)
      | None \<Rightarrow> None)"

lemma split_blank_length: "split_blank s = Some (x, y) \<Longrightarrow> length y < length s"
  by (induction s arbitrary: x rule: split_blank.induct) (fastforce split: if_splits)+

text \<open>
  The loop over the frames of the buffer. A callback that throws, like the reader itself, gives the
  message of the error; the state is what the callbacks left.
\<close>

type_synonym 'st on_event = "widget_event \<Rightarrow> 'st \<Rightarrow> string + 'st"

function read_frames :: "'st on_event \<Rightarrow> string \<Rightarrow> 'st \<Rightarrow> 'st \<times> (string + string)" where
  "read_frames onEvent buffer st =
     (case split_blank buffer of
        None \<Rightarrow> (st, Inr buffer)
      | Some (frame, rest) \<Rightarrow>
          if MAX_EVENT_FRAME_CHARS < length frame then (st, Inl ''Event frame is too large.'')
          else if trim frame = [] then read_frames onEvent rest st
          else (case parseFrame frame of
              None \<Rightarrow> (st, Inl ''Invalid event stream.'')
            | Some event \<Rightarrow> (case onEvent event st of
                Inl e \<Rightarrow> (st, Inl e)
              | Inr st' \<Rightarrow> read_frames onEvent rest st')))"
  by pat_completeness auto
termination
  by (relation "measure (\<lambda>(f, buffer, st). length buffer)") (auto dest: split_blank_length)

declare read_frames.simps [simp del]

fun read_texts :: "'st on_event \<Rightarrow> string list \<Rightarrow> string \<Rightarrow> 'st \<Rightarrow> 'st \<times> (string + string)" where
  "read_texts onEvent [] buffer st = (st, Inr buffer)"
| "read_texts onEvent (piece # pieces) buffer st =
     (case read_frames onEvent (crlf (buffer @ piece)) st of
        (st', Inl e) \<Rightarrow> (st', Inl e)
      | (st', Inr rest) \<Rightarrow>
          if MAX_EVENT_FRAME_CHARS < length rest then (st', Inl ''Event frame is too large.'')
          else read_texts onEvent pieces rest st')"

definition readEventStream :: "'st on_event \<Rightarrow> string list \<Rightarrow> 'st \<Rightarrow> 'st \<times> (string + unit)" where
  "readEventStream onEvent pieces st =
     (case read_texts onEvent pieces [] st of
        (st', Inl e) \<Rightarrow> (st', Inl e)
      | (st', Inr rest) \<Rightarrow> (st', if trim rest = [] then Inr () else Inl ''Invalid event stream.''))"

subsection \<open>The widget's conversation\<close>

record stored_chat =
  sd_conversationId :: ident
  sd_visitorId :: ident
  sd_messages :: "chat_message list"

text \<open>While an exchange runs, its answer is the last message.\<close>

record direct_widget =
  dw_chat :: stored_chat
  dw_busy :: bool
  dw_status :: string
  dw_storage :: "string option"

definition last_messages :: "'a list \<Rightarrow> 'a list" where
  "last_messages xs = drop (length xs - 30) xs"

definition role_text :: "chat_role \<Rightarrow> string" where
  "role_text r = (case r of By_user \<Rightarrow> ''user'' | By_assistant \<Rightarrow> ''assistant'')"

definition chat_message_json :: "chat_message \<Rightarrow> json" where
  "chat_message_json m = JObject [(''role'', JString (role_text (cm_role m))), (''text'', JString (cm_text m))]"

definition chat_json :: "stored_chat \<Rightarrow> json" where
  "chat_json c = JObject [(''conversationId'', JString (sd_conversationId c)),
     (''visitorId'', JString (sd_visitorId c)), (''messages'', JArray (map chat_message_json (sd_messages c)))]"

definition new_chat :: "ident \<Rightarrow> ident \<Rightarrow> stored_chat" where
  "new_chat conversationId visitorId =
     \<lparr>sd_conversationId = conversationId, sd_visitorId = visitorId, sd_messages = []\<rparr>"

definition text_of :: "json option \<Rightarrow> string option" where
  "text_of j = (case j of Some (JString s) \<Rightarrow> Some s | _ \<Rightarrow> None)"

definition stored_message :: "json \<Rightarrow> chat_message option" where
  "stored_message j = (case (role_of (json_get j ''role''), text_of (json_get j ''text'')) of
     (Some role, Some s) \<Rightarrow> Some \<lparr>cm_role = role, cm_text = s\<rparr> | _ \<Rightarrow> None)"

definition isStoredChat :: "json \<Rightarrow> stored_chat option" where
  "isStoredChat j = (case (text_of (json_get j ''conversationId''), text_of (json_get j ''visitorId''),
         json_get j ''messages'') of
     (Some conversationId, Some visitorId, Some (JArray js)) \<Rightarrow>
       map_option (\<lambda>ms. \<lparr>sd_conversationId = conversationId, sd_visitorId = visitorId, sd_messages = ms\<rparr>)
         (collect stored_message js)
   | _ \<Rightarrow> None)"

definition loadChat :: "stored_chat \<Rightarrow> string option \<Rightarrow> stored_chat" where
  "loadChat fresh storage =
     (case Option.bind (Option.bind storage json_parse) isStoredChat of
        None \<Rightarrow> fresh
      | Some c \<Rightarrow> c\<lparr>sd_messages := last_messages (sd_messages c)\<rparr>)"

text \<open>Storage may refuse, which is ignored.\<close>

definition saveChat :: "bool \<Rightarrow> direct_widget \<Rightarrow> direct_widget" where
  "saveChat accepts w =
     (let chat = (dw_chat w)\<lparr>sd_messages :=
            last_messages (filter (\<lambda>m. trim (cm_text m) \<noteq> []) (sd_messages (dw_chat w)))\<rparr>
      in w\<lparr>dw_chat := chat, dw_storage := (if accepts then Some (stringify (chat_json chat)) else dw_storage w)\<rparr>)"

text \<open>The body of the request, and the widget while it waits.\<close>

definition submit_started :: "string \<Rightarrow> direct_widget \<Rightarrow> (string \<times> direct_widget) option" where
  "submit_started input w =
     (let s = trim input
      in if s = [] \<or> dw_busy w then None
         else (let ms = sd_messages (dw_chat w) @ [\<lparr>cm_role = By_user, cm_text = s\<rparr>]
               in Some (stringify (chat_json ((dw_chat w)\<lparr>sd_messages := last_messages ms\<rparr>)),
                    w\<lparr>dw_chat := (dw_chat w)\<lparr>sd_messages := ms @ [\<lparr>cm_role = By_assistant, cm_text = []\<rparr>]\<rparr>,
                      dw_busy := True, dw_status := ''Thinking''\<rparr>)))"

text \<open>What the callback changes: the text of the answer and the status.\<close>

definition applyEvent :: "(string \<times> string) on_event" where
  "applyEvent event = (\<lambda>(answer, status).
     case (we_type event = ''message.delta'', text_of (json_get (we_data event) ''delta''),
           we_type event = ''tool.started'', text_of (json_get (we_data event) ''label'')) of
       (True, Some delta, _, _) \<Rightarrow> Inr (answer @ delta, [])
     | (_, _, True, Some label) \<Rightarrow> Inr (answer, label)
     | _ \<Rightarrow> if we_type event = ''run.failed'' then Inl ''The assistant could not complete this request.''
            else Inr (answer, status))"

text \<open>
  How an exchange ends: no response, a response with its texts, a response that broke off after some
  texts with an error of the network or the decoder, or an abort while some had come.
\<close>

datatype chat_exchange = No_response string | Response nat "string list"
  | Broken_off nat "string list" string | Aborted "string list"

definition exchange_result :: "chat_exchange \<Rightarrow> string \<Rightarrow> (string \<times> string) \<times> (string + unit)" where
  "exchange_result x status = (case x of
     No_response e \<Rightarrow> (([], status), Inl e)
   | Response code pieces \<Rightarrow>
       if code < 200 \<or> 299 < code
       then (([], status), Inl (''Chat request failed with '' @ show_nat code @ ''.''))
       else (case readEventStream applyEvent pieces ([], status) of
           (st, Inl e) \<Rightarrow> (st, Inl e)
         | (st, Inr _) \<Rightarrow> (st, if trim (fst st) = [] then Inl ''The agent returned no answer.'' else Inr ()))
   | Broken_off code pieces failure \<Rightarrow>
       if code < 200 \<or> 299 < code
       then (([], status), Inl (''Chat request failed with '' @ show_nat code @ ''.''))
       else (case read_texts applyEvent pieces [] ([], status) of
           (st, Inl e) \<Rightarrow> (st, Inl e) | (st, Inr _) \<Rightarrow> (st, Inl failure))
   | Aborted pieces \<Rightarrow> (case read_texts applyEvent pieces [] ([], status) of
       (st, Inl e) \<Rightarrow> (st, Inl e) | (st, Inr _) \<Rightarrow> (st, Inr ())))"

definition apology :: string where
  "apology = ''Sorry, I could not reach the assistant. Please try again.''"

definition set_answer :: "string \<Rightarrow> direct_widget \<Rightarrow> direct_widget" where
  "set_answer s w = (let ms = sd_messages (dw_chat w)
     in w\<lparr>dw_chat := (dw_chat w)\<lparr>sd_messages := butlast ms @ [(last ms)\<lparr>cm_text := s\<rparr>]\<rparr>\<rparr>)"

definition submit_finished :: "bool \<Rightarrow> chat_exchange \<Rightarrow> direct_widget \<Rightarrow> direct_widget" where
  "submit_finished accepts x w =
     (case exchange_result x (dw_status w) of
        ((answer, status), Inl e) \<Rightarrow> (set_answer apology w)\<lparr>dw_status := e, dw_busy := False\<rparr>
      | ((answer, status), Inr _) \<Rightarrow>
          (case x of
             Aborted _ \<Rightarrow> (set_answer answer w)\<lparr>dw_status := status, dw_busy := False\<rparr>
           | _ \<Rightarrow> (saveChat accepts ((set_answer answer w)\<lparr>dw_status := []\<rparr>))\<lparr>dw_busy := False\<rparr>))"

definition clear_chat :: "ident \<Rightarrow> ident \<Rightarrow> bool \<Rightarrow> direct_widget \<Rightarrow> direct_widget" where
  "clear_chat conversationId visitorId accepts w =
     w\<lparr>dw_chat := new_chat conversationId visitorId,
       dw_storage := (if accepts then None else dw_storage w), dw_status := []\<rparr>"

subsection \<open>Reading does not depend on the chunks\<close>

lemma crlf_none: "CR \<notin> set s \<Longrightarrow> crlf s = s"
  by (induction s rule: crlf.induct) auto

lemma split_blank_append: "split_blank a = Some (x, y) \<Longrightarrow> split_blank (a @ b) = Some (x, y @ b)"
  by (induction a arbitrary: x rule: split_blank.induct) (auto split: if_splits)

lemma split_blank_set: "split_blank a = Some (x, y) \<Longrightarrow> set y \<subseteq> set a"
  by (induction a arbitrary: x rule: split_blank.induct) (fastforce split: if_splits)+

lemma read_frames_append:
  "read_frames onEvent (a @ b) st = (case read_frames onEvent a st of
     (st', Inl e) \<Rightarrow> (st', Inl e) | (st', Inr rest) \<Rightarrow> read_frames onEvent (rest @ b) st')"
proof (induction onEvent a st rule: read_frames.induct)
  case (1 onEvent buffer st)
  show ?case
  proof (cases "split_blank buffer")
    case None
    then show ?thesis by (subst (2) read_frames.simps) simp
  next
    case (Some p)
    obtain frame rest where p: "p = (frame, rest)" by fastforce
    note split = Some [unfolded p] split_blank_append [OF Some [unfolded p], of b]
    note IH = "1.IH" [OF Some [unfolded p] refl]
    show ?thesis
      by (subst (1) read_frames.simps, subst (2) read_frames.simps)
        (use IH in \<open>auto simp: split split: option.split sum.split\<close>)
  qed
qed

lemma read_frames_rest:
  "read_frames onEvent buffer st = (st', Inr rest) \<Longrightarrow>
     split_blank rest = None \<and> length rest \<le> length buffer \<and> set rest \<subseteq> set buffer"
proof (induction onEvent buffer st rule: read_frames.induct)
  case (1 onEvent buffer st)
  show ?case
  proof (cases "split_blank buffer")
    case None
    then show ?thesis using "1.prems" by (simp add: read_frames.simps)
  next
    case (Some p)
    obtain frame tail where p: "p = (frame, tail)" by fastforce
    note split = Some [unfolded p]
    have shorter: "length tail \<le> length buffer" "set tail \<subseteq> set buffer"
      using split_blank_length [OF split] split_blank_set [OF split] by simp_all
    have "\<exists>st1. read_frames onEvent tail st1 = (st', Inr rest)
        \<and> split_blank rest = None \<and> length rest \<le> length tail \<and> set rest \<subseteq> set tail"
      using "1.prems" "1.IH" [OF Some [unfolded p] refl] split
      by (subst (asm) read_frames.simps) (auto split: if_splits option.splits sum.splits)
    then show ?thesis using shorter by fastforce
  qed
qed

lemma read_texts_concat:
  assumes "split_blank buffer = None" and "CR \<notin> set (buffer @ concat pieces)"
    and "length (buffer @ concat pieces) \<le> MAX_EVENT_FRAME_CHARS"
  shows "read_texts onEvent pieces buffer st = read_frames onEvent (buffer @ concat pieces) st"
  using assms
proof (induction pieces arbitrary: buffer st)
  case Nil
  then show ?case by (simp add: read_frames.simps)
next
  case (Cons piece pieces)
  have crlf: "crlf (buffer @ piece) = buffer @ piece" using Cons.prems(2) by (intro crlf_none) auto
  obtain st' r where first: "read_frames onEvent (buffer @ piece) st = (st', r)" by fastforce
  show ?case
  proof (cases r)
    case (Inl e)
    then show ?thesis
      using first crlf read_frames_append [of onEvent "buffer @ piece" "concat pieces" st] by simp
  next
    case (Inr rest)
    note drained = read_frames_rest [OF first [unfolded Inr]]
    have len: "length (rest @ concat pieces) \<le> MAX_EVENT_FRAME_CHARS"
      using drained Cons.prems(3) by simp
    moreover have "CR \<notin> set (rest @ concat pieces)" using drained Cons.prems(2) by auto
    ultimately have "read_texts onEvent pieces rest st' = read_frames onEvent (rest @ concat pieces) st'"
      using drained by (intro Cons.IH) auto
    then show ?thesis
      using first crlf Inr len read_frames_append [of onEvent "buffer @ piece" "concat pieces" st] by simp
  qed
qed

text \<open>
  However the network cuts an answer of line feeds into chunks, the widget calls back the same events and
  ends the same way, as long as the answer is within the limit of a frame.
\<close>

lemma direct_stream_any_chunks:
  assumes "CR \<notin> set (concat pieces)" and "length (concat pieces) \<le> MAX_EVENT_FRAME_CHARS"
    and "concat pieces' = concat pieces"
  shows "readEventStream onEvent pieces' st = readEventStream onEvent pieces st"
  using assms read_texts_concat [of "[]" pieces onEvent st] read_texts_concat [of "[]" pieces' onEvent st]
  by (simp add: readEventStream_def)

subsection \<open>The preview's answer read back\<close>

lemma split_blank_line: "LF \<notin> set l \<Longrightarrow> l \<noteq> [] \<Longrightarrow> split_blank (l @ LF # LF # s) = Some (l, s)"
proof (induction l)
  case (Cons c l)
  then show ?case by (cases l) auto
qed simp

lemma split_blank_lines:
  assumes "LF \<notin> set l" and "LF \<notin> set m" and "m \<noteq> []"
  shows "split_blank (l @ LF # m @ LF # LF # s) = Some (l @ LF # m, s)"
  using assms(1)
proof (induction l)
  case Nil
  obtain c m' where m: "m = c # m'" using assms(3) by (cases m) auto
  have "split_blank (m @ LF # LF # s) = Some (m, s)" using assms by (intro split_blank_line)
  moreover have "c \<noteq> LF" using assms(2) m by auto
  ultimately show ?case by (simp add: m)
next
  case (Cons c l)
  then have "split_blank (c # l @ LF # m @ LF # LF # s)
      = map_option (\<lambda>(x, y). (c # x, y)) (split_blank (l @ LF # m @ LF # LF # s))"
    by (cases l) auto
  then show ?case using Cons by simp
qed

lemma split_on_none: "c \<notin> set s \<Longrightarrow> split_on c s = [s]"
  by (induction s) auto

lemma split_on_line: "c \<notin> set l \<Longrightarrow> split_on c (l @ c # s) = l # split_on c s"
  by (induction l) auto

lemma field_names: "LF \<notin> set ''event: ''" "LF \<notin> set ''data: ''"
  by (simp_all add: LF_def)

text \<open>A frame with one data line, as the worker prints it.\<close>

lemma parse_printed_frame:
  assumes "no_fraction (JObject ps)" and "LF \<notin> set t"
    and "map_of (rev ps) ''type'' = Some (JString t)" and "map_of (rev ps) ''data'' = Some v"
  shows "parseFrame (''event: '' @ t @ LF # ''data: '' @ stringify (JObject ps)) = Some \<lparr>we_type = t, we_data = v\<rparr>"
proof -
  let ?body = "stringify (JObject ps)"
  have "LF \<notin> set ?body" using assms(1) by (intro printable_plain printable_stringify)
  then have "split_on LF (''event: '' @ t @ LF # ''data: '' @ ?body) = [''event: '' @ t, ''data: '' @ ?body]"
    using assms(2) split_on_line [of LF "''event: '' @ t" "''data: '' @ ?body"]
      split_on_none [of LF "''data: '' @ ?body"] field_names
    by (simp only: set_append Un_iff simp_thms append_assoc)
  moreover have "starts_with ''data:'' (''data: '' @ ?body)" "\<not> starts_with ''data:'' (''event: '' @ t)"
    by (simp_all add: starts_with_def)
  moreover have "dropWhile js_space (drop 5 (''data: '' @ ?body)) = ?body"
    by (simp add: js_space_def code_unit_def)
  moreover have "json_parse ?body = Some (JObject ps)" using assms(1) by (rule json_parse_stringify_gen)
  ultimately show ?thesis using assms(3,4) by (simp add: parseFrame_def del: stringify.simps)
qed

lemma trim_starts: "\<not> js_space c \<Longrightarrow> trim (c # s) \<noteq> []"
  by (simp add: trim_def dropWhile_append)

definition frame_fields_ok :: "string \<times> (string \<times> json) list \<Rightarrow> json \<Rightarrow> bool" where
  "frame_fields_ok f v \<longleftrightarrow> LF \<notin> set (fst f) \<and> list_all (\<lambda>p. no_fraction (snd p)) (snd f)
     \<and> map_of (rev (snd f)) ''type'' = None \<and> map_of (rev (snd f)) ''data'' = Some v"

lemma read_mock_frame:
  assumes "frame_fields_ok f v" and "length (mock_frame ids input f) \<le> MAX_EVENT_FRAME_CHARS"
  shows "read_frames onEvent (mock_frame ids input f @ s) st =
     (case onEvent \<lparr>we_type = fst f, we_data = v\<rparr> st of
        Inl e \<Rightarrow> (st, Inl e) | Inr st' \<Rightarrow> read_frames onEvent s st')"
proof -
  obtain t fields where f: "f = (t, fields)" by fastforce
  obtain ps where ps: "mock_event ids input f = JObject ps" "no_fraction (JObject ps)"
      "map_of (rev ps) ''type'' = Some (JString t)" "map_of (rev ps) ''data'' = Some v"
    using assms(1) by (simp add: f mock_event_def frame_fields_ok_def map_add_def list_all_iff)
  let ?l = "''event: '' @ t" and ?m = "''data: '' @ stringify (JObject ps)"
  have lines: "LF \<notin> set ?l" "LF \<notin> set ?m" "?m \<noteq> []"
    using assms(1) field_names printable_plain(1) [OF printable_stringify [OF ps(2)]]
    by (simp_all only: set_append Un_iff simp_thms f frame_fields_ok_def fst_conv append_is_Nil_conv list.distinct)
  have frame: "mock_frame ids input f @ s = ?l @ LF # ?m @ LF # LF # s"
    using ps(1) by (simp only: mock_frame_def f fst_conv append_assoc append_Cons append_Nil)
  have "split_blank (mock_frame ids input f @ s) = Some (?l @ LF # ?m, s)"
    unfolding frame by (rule split_blank_lines [OF lines])
  moreover have "length (?l @ LF # ?m) \<le> MAX_EVENT_FRAME_CHARS"
    using assms(2) arg_cong [OF frame, of length] by (simp del: stringify.simps)
  moreover have "trim (?l @ LF # ?m) \<noteq> []"
    using trim_starts [of "CHR ''e''"] by (simp add: js_space_def code_unit_def del: stringify.simps)
  moreover have "parseFrame (?l @ LF # ?m) = Some \<lparr>we_type = t, we_data = v\<rparr>"
    using parse_printed_frame [OF ps(2) _ ps(3,4)] assms(1)
    by (simp add: frame_fields_ok_def f del: stringify.simps)
  ultimately show ?thesis
    by (subst read_frames.simps) (simp add: f del: stringify.simps)
qed

text \<open>The events of a stream, given to the callback one after the other.\<close>

fun deliver :: "'st on_event \<Rightarrow> (string \<times> json) list \<Rightarrow> 'st \<Rightarrow> 'st \<times> (string + unit)" where
  "deliver onEvent [] st = (st, Inr ())"
| "deliver onEvent ((t, v) # es) st =
     (case onEvent \<lparr>we_type = t, we_data = v\<rparr> st of Inl e \<Rightarrow> (st, Inl e) | Inr st' \<Rightarrow> deliver onEvent es st')"

lemma read_mock_frames:
  assumes "list_all2 frame_fields_ok fs vs"
    and "\<forall>f \<in> set fs. length (mock_frame ids input f) \<le> MAX_EVENT_FRAME_CHARS"
  shows "read_frames onEvent (concat (map (mock_frame ids input) fs)) st =
     (case deliver onEvent (zip (map fst fs) vs) st of (st', Inl e) \<Rightarrow> (st', Inl e) | (st', Inr _) \<Rightarrow> (st', Inr []))"
  using assms
proof (induction fs vs arbitrary: st rule: list_all2_induct)
  case Nil
  then show ?case by (simp add: read_frames.simps)
next
  case (Cons f fs v vs)
  then show ?case by (simp add: read_mock_frame split: sum.split)
qed

definition mock_data :: "string \<times> string \<Rightarrow> chat_request \<Rightarrow> json list" where
  "mock_data quotes input = [JObject [(''agentRef'', JString ''preview'')],
     JObject [(''role'', JString ''assistant'')], JObject [(''delta'', JString preview_text)],
     JObject [(''delta'', JString (preview_echo quotes (cm_text (last (cq_messages input)))))], JObject []]"

lemma mock_frames_ok:
  "list_all2 frame_fields_ok (mock_frames ids quotes input) (mock_data quotes input)"
  "\<forall>f \<in> set (mock_frames ids quotes input). CR \<notin> set (fst f)"
  by (simp_all add: mock_frames_def mock_data_def frame_fields_ok_def LF_def CR_def)

lemma mock_delivered:
  "deliver applyEvent (zip (map fst (mock_frames ids quotes input)) (mock_data quotes input)) ([], status)
   = ((preview_text @ preview_echo quotes (cm_text (last (cq_messages input))), []), Inr ())"
  by (simp add: mock_frames_def mock_data_def applyEvent_def text_of_def)

lemma mock_frame_chars:
  assumes "frame_fields_ok f v" and "CR \<notin> set (fst f)"
  shows "CR \<notin> set (mock_frame ids input f)"
proof -
  have "no_fraction (mock_event ids input f)"
    using assms(1) by (auto simp: mock_event_def frame_fields_ok_def list_all_iff split: prod.split)
  then have "\<forall>c \<in> set (stringify (mock_event ids input f)). printable c"
    using printable_stringify by (simp add: list_all_iff)
  moreover have "\<not> printable CR" by (simp add: printable_def CR_def code_unit_def)
  ultimately show ?thesis using assms(2) by (auto simp: mock_frame_def LF_def CR_def)
qed

text \<open>The preview's answer, whole.\<close>

lemma preview_read:
  assumes "length (concat (map (mock_frame ids input) (mock_frames ids quotes input))) \<le> MAX_EVENT_FRAME_CHARS"
    and "concat pieces = concat (map (mock_frame ids input) (mock_frames ids quotes input))"
  shows "readEventStream applyEvent pieces ([], status) =
     ((preview_text @ preview_echo quotes (cm_text (last (cq_messages input))), []), Inr ())"
proof -
  let ?fs = "mock_frames ids quotes input"
  have fits: "\<forall>f \<in> set ?fs. length (mock_frame ids input f) \<le> MAX_EVENT_FRAME_CHARS"
    using assms(1) member_le_sum_list [of _ "map (length \<circ> mock_frame ids input) ?fs"]
    by (fastforce simp: length_concat comp_def)
  have plain: "\<forall>f \<in> set ?fs. CR \<notin> set (mock_frame ids input f)"
    using mock_frames_ok [where ids = ids and quotes = quotes and input = input] mock_frame_chars
    by (metis in_set_conv_nth list_all2_conv_all_nth)
  have "readEventStream applyEvent pieces ([], status)
      = readEventStream applyEvent [concat (map (mock_frame ids input) ?fs)] ([], status)"
    using assms plain by (intro direct_stream_any_chunks) auto
  also have "read_texts applyEvent [concat (map (mock_frame ids input) ?fs)] [] ([], status)
      = read_frames applyEvent (concat (map (mock_frame ids input) ?fs)) ([], status)"
    using assms(1) plain by (subst read_texts_concat) auto
  then have "readEventStream applyEvent [concat (map (mock_frame ids input) ?fs)] ([], status)
      = ((preview_text @ preview_echo quotes (cm_text (last (cq_messages input))), []), Inr ())"
    using read_mock_frames [OF mock_frames_ok(1) fits, of applyEvent "([], status)"]
    by (simp add: readEventStream_def mock_delivered trim_def del: read_texts.simps)
  finally show ?thesis .
qed

subsection \<open>The widget's requests\<close>

text \<open>The messages the worker accepts.\<close>

definition sendable :: "chat_message \<Rightarrow> bool" where
  "sendable m \<longleftrightarrow> trim (cm_text m) \<noteq> [] \<and> length (trim (cm_text m)) \<le> MAX_MESSAGE_CHARS"

definition trimmed :: "chat_message \<Rightarrow> chat_message" where
  "trimmed m = m\<lparr>cm_text := trim (cm_text m)\<rparr>"

lemma collect_map: "\<forall>x \<in> set xs. f (g x) = Some (h x) \<Longrightarrow> collect f (map g xs) = Some (map h xs)"
  by (induction xs) auto

lemma collect_None: "x \<in> set xs \<Longrightarrow> f x = None \<Longrightarrow> collect f xs = None"
  by (induction xs) (auto split: option.split)

lemma role_of_text [simp]: "role_of (Some (JString (role_text r))) = Some r"
  by (cases r) (simp_all add: role_of_def role_text_def)

lemma parse_printed_message:
  "parse_chat_message (chat_message_json m) = (if sendable m then Some (trimmed m) else None)"
  by (simp add: parse_chat_message_def chat_message_json_def sendable_def trimmed_def Let_def)

lemma stored_printed_message [simp]: "stored_message (chat_message_json m) = Some m"
  by (simp add: stored_message_def chat_message_json_def text_of_def)

lemma no_fraction_chat: "no_fraction (chat_json c)"
  by (simp add: chat_json_def chat_message_json_def list_all_iff)

lemma chat_json_fields:
  "json_get (chat_json c) ''conversationId'' = Some (JString (sd_conversationId c))"
  "json_get (chat_json c) ''visitorId'' = Some (JString (sd_visitorId c))"
  "json_get (chat_json c) ''messages'' = Some (JArray (map chat_message_json (sd_messages c)))"
  by (simp_all add: chat_json_def)

text \<open>What is stored is what is loaded.\<close>

lemma load_saved:
  assumes "length (sd_messages c) \<le> 30"
  shows "loadChat fresh (Some (stringify (chat_json c))) = c"
proof -
  have "isStoredChat (chat_json c) = Some c"
    using collect_map [of "sd_messages c" stored_message chat_message_json id]
    by (simp add: isStoredChat_def chat_json_fields text_of_def)
  then show ?thesis
    using assms by (simp add: loadChat_def json_parse_stringify_gen no_fraction_chat last_messages_def)
qed

lemma length_last_messages: "length (last_messages xs) \<le> 30"
  by (simp add: last_messages_def)

lemma last_messages_snoc: "last_messages (xs @ [x]) = drop (length xs - 29) xs @ [x]"
  by (simp add: last_messages_def Suc_diff_le)

lemma last_messages_set: "set (last_messages xs) \<subseteq> set xs"
  by (simp add: last_messages_def set_drop_subset)

definition chat_sendable :: "stored_chat \<Rightarrow> bool" where
  "chat_sendable c \<longleftrightarrow> opaque_id (sd_conversationId c) \<and> opaque_id (sd_visitorId c)
     \<and> list_all sendable (drop (length (sd_messages c) - 29) (sd_messages c))"

text \<open>A request is read, whatever its chunks, as the text that was sent.\<close>

lemma read_sent_body:
  assumes "gq_headers request ''content-length'' = None" and "gq_body request = Some chunks"
    and "concat chunks = utf8_encode body" and "length (concat chunks) \<le> MAX_BODY_BYTES"
    and "body = CHR ''{'' # rest"
  shows "readDirectBody request = Inr body"
proof -
  have "decode_text (utf8_encode body) = Some body"
    using utf8_decode_encode [of body] assms(5) by (simp add: decode_text_def code_unit_def)
  then show ?thesis
    using assms(1-4) by (simp add: readDirectBody_def truthy_text_def read_body_chunks_eq)
qed

lemma read_sent_chat:
  assumes "gq_headers request ''content-length'' = None" and "gq_body request = Some chunks"
    and "concat chunks = utf8_encode (stringify (chat_json c))" and "length (concat chunks) \<le> MAX_BODY_BYTES"
  shows "readChatRequest request =
     (case parseChatRequest (chat_json c) of None \<Rightarrow> Inl Unreadable | Some input \<Rightarrow> Inr input)"
proof -
  obtain rest where "stringify (chat_json c) = CHR ''{'' # rest" by (simp add: chat_json_def)
  then have "readDirectBody request = Inr (stringify (chat_json c))"
    using assms by (intro read_sent_body)
  then show ?thesis
    by (simp add: readChatRequest_def json_parse_stringify_gen no_fraction_chat del: stringify.simps)
qed

lemma parse_sent_chat:
  assumes "chat_sendable c" and "sendable m" and "cm_role m = By_user"
  shows "parseChatRequest (chat_json (c\<lparr>sd_messages := last_messages (sd_messages c @ [m])\<rparr>))
     = Some \<lparr>cq_conversationId = sd_conversationId c, cq_visitorId = sd_visitorId c,
         cq_messages = map trimmed (last_messages (sd_messages c @ [m]))\<rparr>"
proof -
  have "\<forall>x \<in> set (last_messages (sd_messages c @ [m])). parse_chat_message (chat_message_json x) = Some (trimmed x)"
    using assms by (auto simp: last_messages_snoc parse_printed_message chat_sendable_def list_all_iff)
  then have parsed: "collect parse_chat_message (map chat_message_json (last_messages (sd_messages c @ [m])))
      = Some (map trimmed (last_messages (sd_messages c @ [m])))"
    by (rule collect_map)
  have count: "length (last_messages (sd_messages c @ [m])) \<le> MAX_MESSAGES"
    using length_last_messages by (simp add: MAX_MESSAGES_def)
  moreover have "last (map trimmed (last_messages (sd_messages c @ [m]))) = trimmed m"
      "last_messages (sd_messages c @ [m]) \<noteq> []"
    by (simp_all add: last_messages_snoc)
  ultimately show ?thesis
    using parsed assms by (simp add: parseChatRequest_def chat_json_fields opaque_of_def chat_sendable_def trimmed_def)
qed

lemma directOrigin_Some:
  "directOrigin url_of v requestOrigin allowed = Some origin \<Longrightarrow>
     truthy_text (Some origin) = Some origin \<and> v = Some origin \<and> (origin = requestOrigin \<or> origin \<in> set allowed)"
  by (auto simp: directOrigin_def truthy_text_def split: option.splits if_splits)

text \<open>A request for the chat, which the worker's checks let through.\<close>

definition chat_call ::
  "(string \<Rightarrow> web_url option) \<Rightarrow> direct_env \<Rightarrow> gateway_request \<Rightarrow> direct_configuration \<Rightarrow> string \<Rightarrow> string \<Rightarrow> bool" where
  "chat_call url_of env request configuration origin body \<longleftrightarrow>
     parseDirectConfiguration url_of env = Some configuration
     \<and> u_pathname (gq_url request) = ''/api/chat'' \<and> gq_method request = ''POST''
     \<and> isJsonContentType (gq_headers request ''content-type'') \<and> gq_headers request ''content-length'' = None
     \<and> directOrigin url_of (gq_headers request ''origin'') (u_origin (gq_url request)) (dc_origins configuration)
         = Some origin
     \<and> (\<exists>chunks. gq_body request = Some chunks \<and> concat chunks = utf8_encode body
          \<and> length (concat chunks) \<le> MAX_BODY_BYTES)"

lemma chat_call_step:
  assumes "chat_call url_of env request configuration origin (stringify (chat_json c))"
  shows "direct_step_of url_of quotes ids now env request =
     (case parseChatRequest (chat_json c) of
        None \<Rightarrow> Reply (directError 400 ''INVALID_REQUEST'' (Some origin))
      | Some input \<Rightarrow>
          if dc_mode configuration = Mock_mode then Reply (mockResponse ids quotes input origin)
          else Execute
            \<lparr>du_url = dc_haystackBaseUrl configuration @ ''/api/connectors/v1/runs'',
             du_headers = [(''Accept'', ''text/event-stream''),
               (''Authorization'', ''Bearer '' @ dc_connectorToken configuration),
               (''Content-Type'', ''application/json'')],
             du_body = haystackExecution ids now input configuration origin\<rparr> origin)"
proof -
  have "readChatRequest request = (case parseChatRequest (chat_json c) of
      None \<Rightarrow> Inl Unreadable | Some input \<Rightarrow> Inr input)"
    using assms read_sent_chat [of request _ c] by (fastforce simp: chat_call_def)
  moreover have "truthy_text (Some origin) = Some origin"
    using assms directOrigin_Some by (fastforce simp: chat_call_def)
  ultimately show ?thesis
    using assms by (simp add: direct_step_of_def chat_call_def Let_def split: option.split)
qed

lemma finished_chat:
  assumes "sd_messages (dw_chat w) = ms @ [\<lparr>cm_role = By_assistant, cm_text = []\<rparr>]"
    and "exchange_result (Response code pieces) (dw_status w) = ((answer, status), Inr ())"
    and "trim answer \<noteq> []"
  shows "let w' = submit_finished accepts (Response code pieces) w in
     sd_messages (dw_chat w') = last_messages (filter (\<lambda>m. trim (cm_text m) \<noteq> []) ms
       @ [\<lparr>cm_role = By_assistant, cm_text = answer\<rparr>])
     \<and> dw_status w' = [] \<and> \<not> dw_busy w' \<and> (accepts \<longrightarrow> loadChat fresh (dw_storage w') = dw_chat w')"
proof -
  have "loadChat fresh (Some (stringify (chat_json (c\<lparr>sd_messages := last_messages xs\<rparr>))))
      = c\<lparr>sd_messages := last_messages xs\<rparr>" for c xs
    using length_last_messages [of xs] by (intro load_saved) simp
  then show ?thesis
    using assms by (simp add: submit_finished_def saveChat_def set_answer_def Let_def del: stringify.simps)
qed


subsection \<open>A history the worker refuses\<close>

text \<open>The bodies of submissions that are each answered by 400.\<close>

fun refused_bodies :: "string list \<Rightarrow> direct_widget \<Rightarrow> string list" where
  "refused_bodies [] w = []"
| "refused_bodies (input # inputs) w = (case submit_started input w of
     None \<Rightarrow> []
   | Some (body, w') \<Rightarrow> body # refused_bodies inputs (submit_finished True (Response 400 []) w'))"

lemma unsendable_refused:
  assumes "m \<in> set (sd_messages c)" and "\<not> sendable m"
  shows "parseChatRequest (chat_json c) = None"
proof -
  have "collect parse_chat_message (map chat_message_json (sd_messages c)) = None"
    using assms by (intro collect_None [of "chat_message_json m"]) (auto simp: parse_printed_message)
  then show ?thesis by (simp add: parseChatRequest_def chat_json_fields split: option.split)
qed

lemma last_messages_member:
  assumes "length ys \<le> 29"
  shows "y \<in> set (last_messages (xs @ y # ys))"
proof -
  have "drop (length (xs @ y # ys) - 30) (xs @ y # ys) = drop (length (xs @ y # ys) - 30) xs @ y # ys"
    using assms by simp
  then show ?thesis by (simp add: last_messages_def)
qed

lemma refused_round:
  assumes "trim input \<noteq> []" and "\<not> dw_busy w"
  obtains w' where "submit_started input w = Some (stringify (chat_json ((dw_chat w)\<lparr>sd_messages :=
        last_messages (sd_messages (dw_chat w) @ [\<lparr>cm_role = By_user, cm_text = trim input\<rparr>])\<rparr>)), w')"
    and "\<not> dw_busy (submit_finished True (Response 400 []) w')"
    and "sd_messages (dw_chat (submit_finished True (Response 400 []) w')) = sd_messages (dw_chat w)
       @ [\<lparr>cm_role = By_user, cm_text = trim input\<rparr>, \<lparr>cm_role = By_assistant, cm_text = apology\<rparr>]"
  using assms that
  by (simp add: submit_started_def Let_def submit_finished_def exchange_result_def set_answer_def
      butlast_append del: stringify.simps)

lemma refused_bodies_hold:
  assumes "sd_messages (dw_chat w) = ms @ m # rest" and "length rest + 2 * length inputs \<le> 30"
    and "\<not> dw_busy w" and "list_all (\<lambda>s. trim s \<noteq> []) inputs"
  shows "length (refused_bodies inputs w) = length inputs
     \<and> (\<forall>body \<in> set (refused_bodies inputs w). \<exists>c. body = stringify (chat_json c) \<and> m \<in> set (sd_messages c))"
  using assms
proof (induction inputs arbitrary: w rest)
  case (Cons input inputs)
  let ?u = "\<lparr>cm_role = By_user, cm_text = trim input\<rparr>"
  have "trim input \<noteq> []" using Cons.prems(4) by simp
  then obtain w' where started: "submit_started input w = Some (stringify (chat_json ((dw_chat w)\<lparr>sd_messages :=
        last_messages (sd_messages (dw_chat w) @ [?u])\<rparr>)), w')"
    and idle: "\<not> dw_busy (submit_finished True (Response 400 []) w')"
    and grown: "sd_messages (dw_chat (submit_finished True (Response 400 []) w'))
       = sd_messages (dw_chat w) @ [?u, \<lparr>cm_role = By_assistant, cm_text = apology\<rparr>]"
    using Cons.prems(3) by (rule refused_round)
  then have messages: "sd_messages (dw_chat (submit_finished True (Response 400 []) w'))
       = ms @ m # rest @ [?u, \<lparr>cm_role = By_assistant, cm_text = apology\<rparr>]"
    using Cons.prems(1) by simp
  have "m \<in> set (last_messages (sd_messages (dw_chat w) @ [?u]))"
    using Cons.prems(1,2) last_messages_member [of "rest @ [?u]" m ms] by simp
  then show ?case
    using Cons.IH [OF messages _ idle] Cons.prems(2,4) started
    by (simp del: stringify.simps) (metis stored_chat.select_convs(3) stored_chat.surjective stored_chat.update_convs(3))
qed simp


subsection \<open>The execution that Haystack receives\<close>

text \<open>\<open>ConnectorRunRequestSchema\<close>.\<close>

definition metadata_key_ok :: "string \<Rightarrow> bool" where
  "metadata_key_ok k = (case k of [] \<Rightarrow> False
   | c # cs \<Rightarrow> (is_upper c \<or> is_lower c) \<and> length cs \<le> 127 \<and> list_all (\<lambda>d. is_alnum d \<or> d \<in> set ''_.-'') cs)"

definition run_request_ok :: "(string \<Rightarrow> bool) \<Rightarrow> connector_run_request \<Rightarrow> bool" where
  "run_request_ok uri r \<longleftrightarrow> opaque_id (rq_runId r) \<and> opaque_id (rq_conversationId r) \<and> opaque_id (rq_agentRef r)
     \<and> message_ok uri (rq_currentMessage r) \<and> ms_role (rq_currentMessage r) = Role_user
     \<and> ms_status (rq_currentMessage r) = Msg_completed \<and> opaque_id (rq_userParticipantId r)
     \<and> rq_history r \<noteq> [] \<and> length (rq_history r) \<le> 1000 \<and> list_all (message_ok uri) (rq_history r)
     \<and> opaque_id (rq_principalId r) \<and> length (rq_resolvedInputs r) \<le> 10
     \<and> list_all (\<lambda>(k, v). metadata_key_ok k \<and> length v \<le> 2000) (rq_trustedMetadata r)"

definition ids_opaque :: "direct_ids \<Rightarrow> bool" where
  "ids_opaque ids \<longleftrightarrow> list_all (\<lambda>u. length u \<le> 100 \<and> list_all opaque_tail_char u)
     [di_current ids, di_assistant ids, di_run ids]"

lemma configured_agent:
  "parseDirectConfiguration url_of env = Some configuration \<Longrightarrow>
     opaque_id (dc_agentRef configuration) \<and> length (de_tenantKey env) \<le> 200 \<and> length (de_agentSlug env) \<le> 200
     \<and> dc_tenantKey configuration = de_tenantKey env \<and> dc_agentSlug configuration = de_agentSlug env"
  by (auto simp: parseDirectConfiguration_def isTrustedName_def len_between_def split: option.splits if_splits)

lemma collected: "collect f xs = Some ys \<Longrightarrow> length ys = length xs \<and> (\<forall>y \<in> set ys. \<exists>x. f x = Some y)"
  by (induction xs arbitrary: ys) (fastforce split: option.splits)+

lemma parsed_message: "parse_chat_message j = Some m \<Longrightarrow> len_between 1 100000 (cm_text m)"
  by (auto simp: parse_chat_message_def Let_def MAX_MESSAGE_CHARS_def len_between_def
      split: option.splits json.splits if_splits) (metis Suc_leI length_greater_0_conv)

lemma parsed_request:
  assumes "parseChatRequest j = Some input"
  shows "opaque_id (cq_conversationId input) \<and> opaque_id (cq_visitorId input) \<and> cq_messages input \<noteq> []
     \<and> length (cq_messages input) \<le> 30 \<and> cm_role (last (cq_messages input)) = By_user
     \<and> (\<forall>m \<in> set (cq_messages input). len_between 1 100000 (cm_text m))"
  using assms parsed_message collected [of parse_chat_message]
  by (auto simp: parseChatRequest_def opaque_of_def MAX_MESSAGES_def split: option.splits json.splits if_splits; fastforce)

lemma opaque_prefixed:
  assumes "opaque_id prefix" and "length prefix \<le> 20" and "length u \<le> 100" and "list_all opaque_tail_char u"
  shows "opaque_id (prefix @ u)"
  using assms by (cases prefix) (auto simp: opaque_id_def)

lemma direct_prefixes: "opaque_id ''message-''" "opaque_id ''run-''" "opaque_id ''history-''" "opaque_id ''widget-agent''"
  by (simp_all add: opaque_id_def is_alnum_def is_upper_def is_lower_def is_digit_def opaque_tail_char_def code_unit_def)

lemma drawn_ids:
  assumes "ids_opaque ids"
  shows "opaque_id (''message-'' @ di_current ids)" and "opaque_id (''message-'' @ di_assistant ids)"
    and "opaque_id (''run-'' @ di_run ids)"
  by (use assms in \<open>auto intro!: opaque_prefixed direct_prefixes simp: ids_opaque_def simp del: append_Cons append_Nil\<close>)

lemma show_nat_tail: "n \<le> 30 \<Longrightarrow> length (show_nat n) \<le> 100 \<and> list_all opaque_tail_char (show_nat n)"
proof -
  assume "n \<le> 30"
  then have "length (show_nat n) \<le> 2" by (cases "n < 10") (simp_all add: show_nat.simps)
  moreover have "is_digit d \<Longrightarrow> opaque_tail_char d" for d
    by (simp add: opaque_tail_char_def is_alnum_def)
  ultimately show ?thesis using show_nat_digits [of n] by (auto simp: list_all_iff)
qed

lemma executed_message:
  assumes "parseChatRequest j = Some input" and "ids_opaque ids" and "p \<in> set (enumerate 0 (cq_messages input))"
  shows "message_ok uri (history_message ids now input p)"
proof -
  obtain i m where p: "p = (i, m)" by fastforce
  note input = parsed_request [OF assms(1)]
  have m: "i < length (cq_messages input)" "m \<in> set (cq_messages input)"
    using assms(3) by (auto simp: p in_set_enumerate_eq)
  then have "opaque_id (''history-'' @ show_nat (Suc i))"
    using input show_nat_tail [of "Suc i"] by (intro opaque_prefixed direct_prefixes) auto
  moreover have "opaque_id (''message-'' @ di_current ids)"
    using assms(2) by (rule drawn_ids)
  ultimately show ?thesis
    using input m direct_prefixes by (auto simp: p history_message_def message_ok_def max_safe_integer_def)
qed

lemma enumerate_Nil [simp]: "enumerate n xs = [] \<longleftrightarrow> xs = []"
  by (cases xs) simp_all

lemma last_enumerate: "xs \<noteq> [] \<Longrightarrow> last (enumerate n xs) = (n + length xs - 1, last xs)"
  by (induction xs arbitrary: n) auto

lemma executed_current:
  assumes "parseChatRequest j = Some input"
  shows "last (map (history_message ids now input) (enumerate 0 (cq_messages input)))
     = history_message ids now input (length (cq_messages input) - 1, last (cq_messages input))"
  using parsed_request [OF assms] last_enumerate [of "cq_messages input" 0]
  by (simp add: last_map enumerate_eq_zip)

lemma direct_step_Execute:
  assumes "direct_step_of url_of quotes ids now env request = Execute up origin"
  obtains configuration j input where "parseDirectConfiguration url_of env = Some configuration"
    "gq_headers request ''origin'' = Some origin"
    "origin = u_origin (gq_url request) \<or> origin \<in> set (dc_origins configuration)"
    "parseChatRequest j = Some input" "du_body up = haystackExecution ids now input configuration origin"
    "du_url up = dc_haystackBaseUrl configuration @ ''/api/connectors/v1/runs''"
proof -
  let ?origin = "\<lambda>configuration. truthy_text (directOrigin url_of (gq_headers request ''origin'')
      (u_origin (gq_url request)) (dc_origins configuration))"
  obtain configuration where configuration: "parseDirectConfiguration url_of env = Some configuration"
    using assms by (cases "parseDirectConfiguration url_of env") (simp_all add: direct_step_of_def Let_def split: if_splits)
  moreover obtain origin' where origin': "?origin configuration = Some origin'"
    using assms configuration by (cases "?origin configuration") (simp_all add: direct_step_of_def Let_def split: if_splits)
  moreover obtain input where input: "readChatRequest request = Inr input"
    using assms configuration origin'
    by (cases "readChatRequest request") (simp_all add: direct_step_of_def Let_def split: if_splits body_error.splits)
  ultimately have up: "origin = origin'" "du_body up = haystackExecution ids now input configuration origin"
      "du_url up = dc_haystackBaseUrl configuration @ ''/api/connectors/v1/runs''"
    using assms by (auto simp: direct_step_of_def Let_def split: if_splits)
  have "directOrigin url_of (gq_headers request ''origin'') (u_origin (gq_url request))
       (dc_origins configuration) = Some origin"
    using origin' up(1) by (simp add: truthy_text_def split: if_splits)
  moreover obtain j where "parseChatRequest j = Some input"
    using input by (auto simp: readChatRequest_def bind_eq_Some_conv split: option.splits)
  ultimately show thesis using that configuration up directOrigin_Some by blast
qed


subsection \<open>A concrete worker and its widget\<close>

text \<open>
  The reader fails on a frame without data, such as the comment that keeps a connection alive, which the
  other two readers of the repository skip.
\<close>

lemma comment_frame_fails:
  "readEventStream onEvent ['': ping'' @ [LF, LF]] st = (st, Inl ''Invalid event stream.'')"
proof -
  have "split_blank ('': ping'' @ [LF, LF]) = Some ('': ping'', [])"
    by (rule split_blank_line) (simp_all add: LF_def)
  moreover have "crlf ('': ping'' @ [LF, LF]) = '': ping'' @ [LF, LF]"
    by (rule crlf_none) (simp add: LF_def CR_def)
  moreover have "trim '': ping'' \<noteq> []" using trim_starts [of "CHR '':''"] by (simp add: js_space_def code_unit_def)
  moreover have "parseFrame '': ping'' = None" by code_simp
  moreover have "\<not> MAX_EVENT_FRAME_CHARS < length '': ping''" by (simp add: MAX_EVENT_FRAME_CHARS_def)
  ultimately have "read_frames onEvent (crlf ([] @ '': ping'' @ [LF, LF])) st = (st, Inl ''Invalid event stream.'')"
    by (subst read_frames.simps) (simp del: append_Cons)
  then show ?thesis by (simp add: readEventStream_def)
qed

text \<open>A line end that a chunk splits after its second carriage return is read differently.\<close>

lemma doubled_return_depends_on_chunks: "crlf (crlf [CR, CR, LF] @ [LF]) \<noteq> crlf [CR, CR, LF, LF]"
  by (simp add: CR_def LF_def)

definition sample_direct_env :: "string \<Rightarrow> direct_env" where
  "sample_direct_env mode = \<lparr>de_mode = mode, de_origins = ''[]'', de_baseUrl = ''https://agents'', de_agentRef = ''agent'',
     de_tenantKey = ''acme'', de_agentSlug = ''support'', de_token = Some ''secret''\<rparr>"

definition sample_direct_configuration :: "backend_mode \<Rightarrow> direct_configuration" where
  "sample_direct_configuration mode = \<lparr>dc_mode = mode, dc_origins = [], dc_haystackBaseUrl = ''https://agents'',
     dc_agentRef = ''agent'', dc_tenantKey = ''acme'', dc_agentSlug = ''support'', dc_connectorToken = ''secret''\<rparr>"

definition sample_call :: "string \<Rightarrow> gateway_request" where
  "sample_call body = (sample_gateway_request ''POST'' ''/api/chat'' [])\<lparr>gq_body := Some [utf8_encode body]\<rparr>"

definition sample_direct_ids :: direct_ids where
  "sample_direct_ids = \<lparr>di_current = ''1'', di_assistant = ''2'', di_run = ''3''\<rparr>"

definition sample_direct_widget :: "chat_message list \<Rightarrow> direct_widget" where
  "sample_direct_widget ms = \<lparr>dw_chat = \<lparr>sd_conversationId = ''c1'', sd_visitorId = ''v1'', sd_messages = ms\<rparr>,
     dw_busy = False, dw_status = [], dw_storage = None\<rparr>"

lemma sample_direct_configured:
  "parseDirectConfiguration sample_web_url (sample_direct_env ''mock'') = Some (sample_direct_configuration Mock_mode)"
  "parseDirectConfiguration sample_web_url (sample_direct_env ''haystack'') = Some (sample_direct_configuration Haystack_mode)"
  by code_simp+

lemma sample_chat_call:
  assumes "parseDirectConfiguration sample_web_url env = Some configuration"
    and "length (utf8_encode body) \<le> MAX_BODY_BYTES"
  shows "chat_call sample_web_url env (sample_call body) configuration ''https://a'' body"
proof -
  have "isJsonContentType (Some ''application/json'')" by code_simp
  then show ?thesis
    using assms
    by (simp add: chat_call_def sample_call_def sample_gateway_request_def directOrigin_def truthy_text_def
        sample_web_url_def starts_with_def)
qed

definition sample_stored_chat :: stored_chat where
  "sample_stored_chat = \<lparr>sd_conversationId = ''c1'', sd_visitorId = ''v1'',
     sd_messages = [\<lparr>cm_role = By_user, cm_text = ''Hi''\<rparr>]\<rparr>"

definition sample_chat_request :: chat_request where
  "sample_chat_request = \<lparr>cq_conversationId = ''c1'', cq_visitorId = ''v1'',
     cq_messages = [\<lparr>cm_role = By_user, cm_text = ''Hi''\<rparr>]\<rparr>"

definition sample_waiting :: direct_widget where
  "sample_waiting = (sample_direct_widget (sd_messages sample_stored_chat @ [\<lparr>cm_role = By_assistant, cm_text = []\<rparr>]))
     \<lparr>dw_busy := True, dw_status := ''Thinking''\<rparr>"

lemma sample_trim: "trim ''Hi'' = ''Hi''"
  by code_simp

lemma sample_started: "submit_started ''Hi'' (sample_direct_widget []) = Some (stringify (chat_json sample_stored_chat), sample_waiting)"
  by (simp add: submit_started_def sample_trim sample_direct_widget_def sample_stored_chat_def sample_waiting_def
      last_messages_def Let_def del: stringify.simps)

lemma utf8_length: "length (utf8_encode s) \<le> 2 * length s"
  by (induction s rule: utf8_encode.induct) auto

lemma quote_length: "length (quote_string s) = 2 + (\<Sum>c \<leftarrow> s. length (escape_char c))"
  by (simp add: quote_string_def length_concat comp_def)

lemma sample_body_fits: "length (utf8_encode (stringify (chat_json sample_stored_chat))) \<le> MAX_BODY_BYTES"
proof -
  have "length (stringify (chat_json sample_stored_chat)) \<le> 200"
    by (simp add: chat_json_def chat_message_json_def sample_stored_chat_def role_text_def quote_length escape_char_def code_unit_def)
  then show ?thesis using utf8_length [of "stringify (chat_json sample_stored_chat)"] by (simp add: MAX_BODY_BYTES_def del: stringify.simps)
qed

lemma sample_parsed_chat: "parseChatRequest (chat_json sample_stored_chat) = Some sample_chat_request"
  by code_simp

lemma sample_answer_fits:
  "length (concat (map (mock_frame sample_direct_ids sample_chat_request)
     (mock_frames sample_direct_ids (''<'', ''>'') sample_chat_request))) \<le> MAX_EVENT_FRAME_CHARS"
  by (simp add: mock_frames_def mock_frame_def mock_event_def sample_chat_request_def sample_direct_ids_def preview_text_def
      preview_echo_def quote_length escape_char_def code_unit_def MAX_EVENT_FRAME_CHARS_def)


definition sample_long_answer :: chat_message where
  "sample_long_answer = \<lparr>cm_role = By_assistant, cm_text = replicate 5000 CHR ''a''\<rparr>"



end
