(* ===== verification/WidgetView.thy ===== *)
theory WidgetView
  imports BrowserState BrowserStorage Provisioning Text
begin

text \<open>
  The site widget's functions of the chat state, \<open>examples/cloudflare-worker/site\<close>: the rows it shows and the
  texts it writes into markup (\<open>widget.ts\<close>), what it counts for the site's statistics
  (\<open>widget-analytics.ts\<close>) and the kept state of the conversation. The components of the widget that only
  build markup are not modelled.

  \<open>Object.values\<close> lists the live messages in the order in which the object got its keys: a list of these
  keys, \<open>order\<close>, is an argument.
\<close>

subsection \<open>Rows\<close>

datatype row_role = Row_assistant | Row_user

record rendered_message =
  rm_id :: ident
  rm_role :: row_role
  rm_text :: string
  rm_createdAt :: js_date

type_synonym row_times = "ident \<Rightarrow> js_date option"

definition last_rows :: "'a list \<Rightarrow> 'a list" where
  "last_rows xs = drop (length xs - 30) xs"

definition messageText :: "message \<Rightarrow> string" where
  "messageText m = trim (textFromParts (ms_parts m))"

definition shown_message :: "message \<Rightarrow> rendered_message" where
  "shown_message m = \<lparr>rm_id = ms_messageId m,
     rm_role = (if ms_role m = Role_assistant then Row_assistant else Row_user),
     rm_text = messageText m, rm_createdAt = ms_createdAt m\<rparr>"

text \<open>A row without a time of its own keeps the time at which it was first shown.\<close>

definition first_shown :: "js_date \<Rightarrow> ident \<Rightarrow> row_times \<Rightarrow> js_date \<times> row_times" where
  "first_shown now i ts = (case ts i of Some t \<Rightarrow> (t, ts) | None \<Rightarrow> (now, ts(i \<mapsto> now)))"

fun live_rows :: "js_date \<Rightarrow> live_message list \<Rightarrow> row_times \<Rightarrow> rendered_message list \<times> row_times" where
  "live_rows now [] ts = ([], ts)"
| "live_rows now (l # ls) ts =
     (let (createdAt, ts1) = first_shown now (lm_messageId l) ts;
          (rows, ts2) = live_rows now ls ts1
      in (\<lparr>rm_id = lm_messageId l, rm_role = Row_assistant, rm_text = lm_text l, rm_createdAt = createdAt\<rparr> # rows,
          ts2))"

definition contact_id :: "contact_request \<Rightarrow> ident" where
  "contact_id c = ''contact-'' @ cr_requestId c"

definition contact_rows ::
  "js_date \<Rightarrow> contact_request option \<Rightarrow> row_times \<Rightarrow> rendered_message list \<times> row_times" where
  "contact_rows now contact ts = (case contact of
     None \<Rightarrow> ([], ts)
   | Some c \<Rightarrow>
       (let (createdAt, ts1) = first_shown now (contact_id c) ts
        in ([\<lparr>rm_id = contact_id c, rm_role = Row_assistant, rm_text = cr_prompt c, rm_createdAt = createdAt\<rparr>],
            ts1)))"

definition live_list :: "ident list \<Rightarrow> chat_state \<Rightarrow> live_message list" where
  "live_list order s = List.map_filter (st_live s) order"

definition renderedMessages ::
  "ident list \<Rightarrow> js_date \<Rightarrow> chat_state option \<Rightarrow> row_times \<Rightarrow> rendered_message list \<times> row_times" where
  "renderedMessages order now state ts = (case state of
     None \<Rightarrow> ([], ts)
   | Some s \<Rightarrow>
       (let (live, ts1) = live_rows now (live_list order s) ts;
            (contact, ts2) = contact_rows now (st_contact s) ts1
        in (last_rows (filter (\<lambda>r. trim (rm_text r) \<noteq> []) (map shown_message (st_messages s) @ live @ contact)),
            ts2)))"

subsection \<open>Texts in markup\<close>

definition replace_char :: "char \<Rightarrow> string \<Rightarrow> string \<Rightarrow> string" where
  "replace_char c by' s = concat (map (\<lambda>d. if d = c then by' else [d]) s)"

definition escapeHtml :: "string \<Rightarrow> string" where
  "escapeHtml s = replace_char CHR ''>'' ''&gt;'' (replace_char CHR ''<'' ''&lt;'' (replace_char CHR ''&'' ''&amp;'' s))"

definition escapeAttribute :: "string \<Rightarrow> string" where
  "escapeAttribute s = replace_char CHR 0x22 ''&quot;'' (escapeHtml s)"

text \<open>What an HTML parser reads, of the four references the widget writes.\<close>

function html_text :: "string \<Rightarrow> string" where
  "html_text s =
     (if s = [] then []
      else if starts_with ''&amp;'' s then CHR ''&'' # html_text (drop 5 s)
      else if starts_with ''&lt;'' s then CHR ''<'' # html_text (drop 4 s)
      else if starts_with ''&gt;'' s then CHR ''>'' # html_text (drop 4 s)
      else if starts_with ''&quot;'' s then CHR 0x22 # html_text (drop 6 s)
      else hd s # html_text (tl s))"
  by pat_completeness auto
termination
  by (relation "measure length") auto

declare html_text.simps [simp del]

definition escaped_char :: "char \<Rightarrow> string" where
  "escaped_char c = (if c = CHR ''&'' then ''&amp;'' else if c = CHR ''<'' then ''&lt;''
     else if c = CHR ''>'' then ''&gt;'' else if c = CHR 0x22 then ''&quot;'' else [c])"

lemma escapeAttribute_map: "escapeAttribute s = concat (map escaped_char s)"
  by (induction s) (auto simp: escapeAttribute_def escapeHtml_def replace_char_def escaped_char_def)

lemma html_text_escaped: "html_text (escaped_char c @ s) = c # html_text s"
  by (subst html_text.simps) (auto simp: escaped_char_def starts_with_def)


text \<open>The link to the privacy policy: \<open>url_of\<close> reads relative to the page.\<close>

definition resolvePrivacyPolicyUrl :: "(string \<Rightarrow> url option) \<Rightarrow> string option \<Rightarrow> string option" where
  "resolvePrivacyPolicyUrl url_of value = (case truthy (map_option trim value) of
     None \<Rightarrow> None
   | Some candidate \<Rightarrow> (case url_of candidate of
       None \<Rightarrow> None
     | Some u \<Rightarrow> if u_protocol u = ''http:'' \<or> u_protocol u = ''https:'' then Some (u_href u) else None))"

datatype widget_theme = Hot_pink | Blue | Dark_green | Light | Rgb_neon
datatype color_mode = Light_mode | Dark_mode

definition normalizeTheme :: "string option \<Rightarrow> widget_theme" where
  "normalizeTheme value = (case map_option (\<lambda>v. map lower_char (trim v)) value of
     Some v \<Rightarrow> if v = ''blue'' then Blue else if v = ''dark-green'' then Dark_green else if v = ''light'' then Light
       else if v = ''rgb-neon'' then Rgb_neon else Hot_pink
   | None \<Rightarrow> Hot_pink)"

definition normalizeColorMode :: "string option \<Rightarrow> color_mode" where
  "normalizeColorMode value =
     (if map_option (\<lambda>v. map lower_char (trim v)) value = Some ''dark'' then Dark_mode else Light_mode)"

text \<open>\<open>/^[^\s@]+@[^\s@]+\.[^\s@]+$/\<close>: the last dot that has text on both sides.\<close>

definition isEmail :: "string \<Rightarrow> bool" where
  "isEmail v \<longleftrightarrow> (let local' = takeWhile (\<lambda>c. c \<noteq> CHR ''@'') v; domain = drop (Suc (length local')) v
     in local' \<noteq> [] \<and> length local' < length v \<and> list_all (\<lambda>c. \<not> js_space c) v \<and> CHR ''@'' \<notin> set domain
        \<and> CHR ''.'' \<in> set (tl (butlast domain))) \<and> length v \<le> 320"

definition isActiveRun :: "chat_state \<Rightarrow> bool" where
  "isActiveRun s \<longleftrightarrow> map_option ru_status (st_run s) \<in> {Some Client_queued, Some Client_running}"

subsection \<open>The kept state\<close>

definition number_or_absent :: "(string \<times> json) list \<Rightarrow> bool" where
  "number_or_absent fs = (case map_of fs ''lastEventSequence'' of
     None \<Rightarrow> True | Some (JNumber _) \<Rightarrow> True | Some (JFraction _) \<Rightarrow> True | _ \<Rightarrow> False)"

text \<open>The object is used as it was parsed; its fields are read by their names; a number that is not an
  integer is read as none.\<close>

definition isPersistedChatState :: "json \<Rightarrow> persisted option" where
  "isPersistedChatState j = (case j of
     JObject fs \<Rightarrow>
       if map_of (rev fs) ''version'' = Some (JNumber 1)
          \<and> list_all (string_or_absent (rev fs)) [''browserIdentity'', ''conversationId'', ''lastEventId'']
          \<and> number_or_absent (rev fs)
       then Some \<lparr>pe_browserIdentity = string_at (rev fs) ''browserIdentity'',
              pe_conversationId = string_at (rev fs) ''conversationId'',
              pe_lastEventId = string_at (rev fs) ''lastEventId'',
              pe_lastEventSequence = number_at (rev fs) ''lastEventSequence''\<rparr>
       else None
   | _ \<Rightarrow> None)"

definition widget_load :: "string \<Rightarrow> local_storage \<Rightarrow> persisted option" where
  "widget_load key storage = Option.bind (Option.bind (storage key) json_parse) isPersistedChatState"

definition widget_save :: "string \<Rightarrow> persisted \<Rightarrow> local_storage \<Rightarrow> local_storage" where
  "widget_save key state storage = storage(key \<mapsto> stringify (persisted_json state))"

definition widgetStorageKey :: "ident \<Rightarrow> string \<Rightarrow> string" where
  "widgetStorageKey widgetKey agent = ''formation-chat-widget:'' @ widgetKey @ '':'' @ agent"

subsection \<open>Statistics\<close>

record message_counts =
  mc_all :: nat
  mc_user :: nat
  mc_assistant :: nat

definition message_roles :: "ident list \<Rightarrow> chat_state \<Rightarrow> (ident \<times> message_role) list" where
  "message_roles order s =
     fold (\<lambda>l ps. if lm_status l = Live_completed \<and> lm_messageId l \<notin> fst ` set ps
         then put_property (lm_messageId l) Role_assistant ps else ps) (live_list order s)
       (fold (\<lambda>m ps. put_property (ms_messageId m) (ms_role m) ps) (st_messages s) [])"

definition messageCounts :: "ident list \<Rightarrow> chat_state \<Rightarrow> message_counts" where
  "messageCounts order s = (let roles = map snd (message_roles order s)
     in \<lparr>mc_all = length roles, mc_user = length (filter (\<lambda>r. r = Role_user) roles),
         mc_assistant = length (filter (\<lambda>r. r = Role_assistant) roles)\<rparr>)"

datatype analytics_event = Session_started | Conversation_started | Conversation_length | Handoff_requested_event
  | Handoff_completed_event | Message_sent

record reporter =
  ob_conversation :: "ident option"
  ob_count :: nat
  ob_handoff :: "handoff_state option"

definition new_reporter :: reporter where
  "new_reporter = \<lparr>ob_conversation = None, ob_count = 0, ob_handoff = None\<rparr>"

type_synonym reports = "(analytics_event \<times> message_counts) list"

definition conversation_id :: "chat_state \<Rightarrow> ident option" where
  "conversation_id s = map_option co_conversationId (st_conversation s)"

definition sessionStarted :: "ident list \<Rightarrow> chat_state \<Rightarrow> reports" where
  "sessionStarted order s = (case st_session s of None \<Rightarrow> [] | Some _ \<Rightarrow> [(Session_started, messageCounts order s)])"

definition observe_length :: "ident list \<Rightarrow> chat_state \<Rightarrow> reporter \<Rightarrow> reports \<times> reporter" where
  "observe_length order s r =
     (let counts = messageCounts order s
      in if conversation_id s \<noteq> ob_conversation r
         then ([], \<lparr>ob_conversation = conversation_id s, ob_count = mc_all counts, ob_handoff = None\<rparr>)
         else if truthy (conversation_id s) \<noteq> None \<and> mc_all counts \<noteq> ob_count r
         then ([(Conversation_length, counts)], r\<lparr>ob_count := mc_all counts\<rparr>)
         else ([], r))"

text \<open>The key \<open>handoffId:status\<close> is the pair of the two.\<close>

definition observe_handoff :: "ident list \<Rightarrow> chat_state \<Rightarrow> reporter \<Rightarrow> reports \<times> reporter" where
  "observe_handoff order s r = (case st_handoff s of
     None \<Rightarrow> ([], r)
   | Some h \<Rightarrow>
       if ob_handoff r = Some h then ([], r)
       else ([(if hf_completed h then Handoff_completed_event else Handoff_requested_event, messageCounts order s)],
             r\<lparr>ob_handoff := Some h\<rparr>))"

definition observe :: "ident list \<Rightarrow> chat_state \<Rightarrow> reporter \<Rightarrow> reports \<times> reporter" where
  "observe order s r =
     (let (first, r1) = observe_length order s r; (second, r2) = observe_handoff order s r1 in (first @ second, r2))"

definition conversationStarted :: "ident list \<Rightarrow> ident \<Rightarrow> chat_state \<Rightarrow> reports \<times> reporter" where
  "conversationStarted order conversationId s =
     (let counts = messageCounts order s
      in ([(Conversation_started, counts)],
          \<lparr>ob_conversation = Some conversationId, ob_count = mc_all counts, ob_handoff = None\<rparr>))"

definition messageSent :: "ident list \<Rightarrow> chat_state \<Rightarrow> reports" where
  "messageSent order s = [(Message_sent, messageCounts order s)]"

fun observe_all :: "ident list \<Rightarrow> chat_state list \<Rightarrow> reporter \<Rightarrow> reports \<times> reporter" where
  "observe_all order [] r = ([], r)"
| "observe_all order (s # ss) r =
     (let (first, r1) = observe order s r; (rest, r2) = observe_all order ss r1 in (first @ rest, r2))"

subsection \<open>Every message once\<close>

definition row_time :: "row_times \<Rightarrow> js_date \<Rightarrow> ident \<Rightarrow> js_date" where
  "row_time ts now i = (case ts i of Some t \<Rightarrow> t | None \<Rightarrow> now)"

lemma live_rows_times:
  "snd (live_rows now ls ts) = (\<lambda>i. if ts i = None \<and> i \<in> lm_messageId ` set ls then Some now else ts i)"
proof (induction ls arbitrary: ts)
  case (Cons l ls)
  then show ?case
    by (cases "ts (lm_messageId l)") (auto simp: first_shown_def case_prod_unfold Let_def fun_eq_iff)
qed simp

lemma live_rows_shown:
  "fst (live_rows now ls ts) = map (\<lambda>l. \<lparr>rm_id = lm_messageId l, rm_role = Row_assistant, rm_text = lm_text l,
     rm_createdAt = row_time ts now (lm_messageId l)\<rparr>) ls"
proof (induction ls arbitrary: ts)
  case (Cons l ls)
  then show ?case
    by (cases "ts (lm_messageId l)") (auto simp: first_shown_def case_prod_unfold Let_def row_time_def)
qed simp

lemma contact_rows_shown:
  "fst (contact_rows now contact ts) = (case contact of None \<Rightarrow> [] | Some c \<Rightarrow>
     [\<lparr>rm_id = contact_id c, rm_role = Row_assistant, rm_text = cr_prompt c,
       rm_createdAt = row_time ts now (contact_id c)\<rparr>])"
  "snd (contact_rows now contact ts)
     = (\<lambda>i. if ts i = None \<and> contact \<noteq> None \<and> i = contact_id (the contact) then Some now else ts i)"
  by (auto simp: contact_rows_def first_shown_def case_prod_unfold Let_def fun_eq_iff row_time_def split: option.split)

text \<open>A submission's message is not one that is being streamed.\<close>

fun submissions_apart :: "(ident \<Rightarrow> 'k::linorder) \<Rightarrow> chat_action list \<Rightarrow> chat_state \<Rightarrow> bool" where
  "submissions_apart collate [] s \<longleftrightarrow> True"
| "submissions_apart collate (a # as) s \<longleftrightarrow>
     (case a of Message_submitted m \<Rightarrow> st_live s (ms_messageId m) = None | _ \<Rightarrow> True)
     \<and> submissions_apart collate as (reduceChatState collate s a)"

definition live_apart :: "chat_state \<Rightarrow> bool" where
  "live_apart s \<longleftrightarrow> (\<forall>m \<in> set (st_messages s). st_live s (ms_messageId m) = None)"

lemma canonical_ids: "ms_messageId ` set (canonicalMessages collate ms) = ms_messageId ` set ms"
proof -
  have "ms_messageId ` set (fold put_message ms acc) = ms_messageId ` set acc \<union> ms_messageId ` set ms" for acc
  proof (induction ms arbitrary: acc)
    case (Cons m ms)
    have "ms_messageId ` set (put_message m acc) = insert (ms_messageId m) (ms_messageId ` set acc)"
      by (auto simp: put_message_def list_ex_iff image_iff)
    then show ?case by (simp add: Cons.IH)
  qed simp
  then show ?thesis by (simp add: canonicalMessages_def)
qed

lemma receive_apart: "live_apart s \<Longrightarrow> live_apart (receiveEvent s event)"
  by (auto simp: live_apart_def receiveEvent_def Let_def list_ex_iff split: option.split)

lemma reduce_apart:
  assumes "live_apart s" and "case a of Message_submitted m \<Rightarrow> st_live s (ms_messageId m) = None | _ \<Rightarrow> True"
  shows "live_apart (reduceChatState collate s a)"
proof (cases a)
  case (Message_submitted m)
  have "st_live s (ms_messageId x) = None" if "x \<in> set (canonicalMessages collate (st_messages s @ [m]))" for x
  proof -
    have "ms_messageId x \<in> ms_messageId ` set (st_messages s @ [m])"
      using that canonical_ids [of collate "st_messages s @ [m]"] by blast
    then show ?thesis using assms by (auto simp: live_apart_def Message_submitted)
  qed
  then show ?thesis by (simp add: live_apart_def Message_submitted)
next
  case (Event_received e)
  then show ?thesis using assms(1) by (simp add: receive_apart)
qed (use assms(1) in \<open>auto simp: live_apart_def withoutError_def Let_def\<close>)

lemma reached_apart:
  "submissions_apart collate as s \<Longrightarrow> live_apart s \<Longrightarrow>
     live_apart (fold (\<lambda>a s. reduceChatState collate s a) as s)"
proof (induction as arbitrary: s)
  case (Cons a as)
  then show ?case using reduce_apart [of s a collate] by simp
qed simp

lemma live_list_ids:
  assumes "chat_inv collate s"
  shows "map lm_messageId (live_list order s) = filter (\<lambda>i. st_live s i \<noteq> None) order"
  using assms by (induction order) (auto simp: live_list_def map_filter_def chat_inv_def)

text \<open>The rows for given times.\<close>

definition rows_with :: "(ident \<Rightarrow> js_date) \<Rightarrow> live_message list \<Rightarrow> chat_state \<Rightarrow> rendered_message list" where
  "rows_with T live s = map shown_message (st_messages s)
     @ map (\<lambda>l. \<lparr>rm_id = lm_messageId l, rm_role = Row_assistant, rm_text = lm_text l,
         rm_createdAt = T (lm_messageId l)\<rparr>) live
     @ (case st_contact s of None \<Rightarrow> [] | Some c \<Rightarrow>
         [\<lparr>rm_id = contact_id c, rm_role = Row_assistant, rm_text = cr_prompt c, rm_createdAt = T (contact_id c)\<rparr>])"

lemma rendered_rows:
  "fst (renderedMessages order now (Some s) ts)
     = last_rows (filter (\<lambda>r. trim (rm_text r) \<noteq> []) (rows_with (row_time ts now) (live_list order s) s))"
proof -
  have "row_time (snd (live_rows now (live_list order s) ts)) now i = row_time ts now i" for i
    by (simp add: row_time_def live_rows_times)
  then show ?thesis
    by (simp add: renderedMessages_def case_prod_unfold Let_def live_rows_shown contact_rows_shown rows_with_def
        split: option.split)
qed

lemma rendered_times:
  "snd (renderedMessages order now (Some s) ts) i =
     (if ts i = None \<and> (i \<in> lm_messageId ` set (live_list order s) \<or> map_option contact_id (st_contact s) = Some i)
      then Some now else ts i)"
  by (auto simp: renderedMessages_def case_prod_unfold Let_def contact_rows_shown live_rows_times)

lemma rows_with_cong:
  assumes "\<And>i. i \<in> lm_messageId ` set live \<or> map_option contact_id (st_contact s) = Some i \<Longrightarrow> T i = T' i"
  shows "rows_with T live s = rows_with T' live s"
  using assms by (cases "st_contact s") (auto simp: rows_with_def)

lemma rows_with_ids:
  "map rm_id (rows_with T live s) = map ms_messageId (st_messages s) @ map lm_messageId live
     @ (case st_contact s of None \<Rightarrow> [] | Some c \<Rightarrow> [contact_id c])"
  by (simp add: rows_with_def shown_message_def comp_def split: option.split)

text \<open>
  Whatever the chat client is told, in whatever order, the widget shows each message once: no two of the
  at most thirty rows have the same identifier. Showing the same state again later changes nothing: a row
  without a time of its own keeps the time at which it was first shown.
\<close>

theorem rows_shown_once:
  assumes "s = fold (\<lambda>a s. reduceChatState collate s a) actions initialChatState"
    and "submissions_apart collate actions initialChatState" and "distinct order"
    and "\<And>c. st_contact s = Some c \<Longrightarrow> contact_id c \<notin> ms_messageId ` set (st_messages s) \<and> st_live s (contact_id c) = None"
  shows "distinct (map rm_id (fst (renderedMessages order now (Some s) ts)))
     \<and> length (fst (renderedMessages order now (Some s) ts)) \<le> 30
     \<and> fst (renderedMessages order later (Some s) (snd (renderedMessages order now (Some s) ts)))
       = fst (renderedMessages order now (Some s) ts)"
proof -
  have inv: "chat_inv collate s"
    unfolding assms(1) by (intro reached_inv) (simp add: chat_inv_def initialChatState_def)
  have apart: "live_apart s"
    unfolding assms(1) by (intro reached_apart assms(2)) (simp add: live_apart_def initialChatState_def)
  have "distinct (map ms_messageId (st_messages s))" using inv by (simp add: chat_inv_def)
  then have "distinct (map rm_id (rows_with T (live_list order s) s))" for T
    using assms(3,4) apart
    by (auto simp: rows_with_ids live_list_ids [OF inv] live_apart_def split: option.splits)
  then have "distinct (map rm_id (fst (renderedMessages order now (Some s) ts)))"
    by (simp add: rendered_rows last_rows_def distinct_map_filter flip: drop_map)
  moreover have "length (fst (renderedMessages order now (Some s) ts)) \<le> 30"
    by (simp add: rendered_rows last_rows_def)
  moreover have "rows_with (row_time (snd (renderedMessages order now (Some s) ts)) later) (live_list order s) s
      = rows_with (row_time ts now) (live_list order s) s"
    by (rule rows_with_cong) (auto simp: row_time_def rendered_times split: option.split)
  then have "fst (renderedMessages order later (Some s) (snd (renderedMessages order now (Some s) ts)))
      = fst (renderedMessages order now (Some s) ts)"
    by (simp add: rendered_rows)
  ultimately show ?thesis by simp
qed

subsection \<open>What the site counts\<close>

definition handoff_reports :: "reports \<Rightarrow> analytics_event list" where
  "handoff_reports rs = filter (\<lambda>e. e = Handoff_requested_event \<or> e = Handoff_completed_event) (map fst rs)"

definition handoff_event :: "handoff_state \<Rightarrow> analytics_event" where
  "handoff_event h = (if hf_completed h then Handoff_completed_event else Handoff_requested_event)"

text \<open>A handoff's request and its completion are reported once each, when they first appear.\<close>

lemma handoffs_reported_once:
  assumes "\<forall>s \<in> set ss. conversation_id s = ob_conversation r"
  shows "(case ob_handoff r of
       None \<Rightarrow> handoff_reports (fst (observe_all order ss r)) = map handoff_event (remdups_adj (List.map_filter st_handoff ss))
     | Some h \<Rightarrow> handoff_event h # handoff_reports (fst (observe_all order ss r))
         = map handoff_event (remdups_adj (h # List.map_filter st_handoff ss)))"
  using assms
proof (induction ss arbitrary: r)
  case Nil
  then show ?case by (simp add: handoff_reports_def map_filter_def split: option.split)
next
  case (Cons s ss)
  have same: "conversation_id s = ob_conversation r" using Cons.prems by simp
  define r1 where "r1 = snd (observe order s r)"
  have r1: "ob_conversation r1 = ob_conversation r"
      "ob_handoff r1 = (case st_handoff s of None \<Rightarrow> ob_handoff r | Some h \<Rightarrow> Some h)"
    using same by (auto simp: r1_def observe_def observe_length_def observe_handoff_def Let_def split: option.split)
  have here: "handoff_reports (fst (observe order s r)) = (case st_handoff s of None \<Rightarrow> []
      | Some h \<Rightarrow> if ob_handoff r = Some h then [] else [handoff_event h])"
    using same by (auto simp: observe_def observe_length_def observe_handoff_def Let_def handoff_reports_def handoff_event_def
        split: option.split)
  have split: "handoff_reports (fst (observe_all order (s # ss) r))
      = handoff_reports (fst (observe order s r)) @ handoff_reports (fst (observe_all order ss r1))"
    by (simp add: case_prod_unfold Let_def handoff_reports_def r1_def)
  have "\<forall>s \<in> set ss. conversation_id s = ob_conversation r1" using Cons.prems r1 by simp
  note IH = Cons.IH [OF this]
  show ?case
    using IH unfolding split here r1(2) by (auto simp: map_filter_def split: option.splits)
qed

subsection \<open>A concrete chat\<close>

definition sample_delta :: conversation_event where
  "sample_delta = \<lparr>ev_eventId = ''e1'', ev_sequence = 1, ev_occurredAt = 0, ev_visibility = Public,
     ev_conversationId = ''c1'', ev_runId = Some ''r1'', ev_messageId = Some ''m1'', ev_data = MessageDelta ''Hi''\<rparr>"

definition sample_streaming :: chat_state where
  "sample_streaming = fold (\<lambda>a s. reduceChatState (\<lambda>i. length i) s a) [Event_received sample_delta] initialChatState"

lemma rows_shown_once_witness:
  "distinct (map rm_id (fst (renderedMessages [''m1''] 5 (Some sample_streaming) Map.empty)))
     \<and> map rm_text (fst (renderedMessages [''m1''] 5 (Some sample_streaming) Map.empty)) = [''Hi'']"
proof -
  have live: "st_live sample_streaming ''m1'' = Some \<lparr>lm_messageId = ''m1'', lm_status = Live_streaming,
      lm_text = ''Hi'', lm_parts = []\<rparr>" "st_messages sample_streaming = []" "st_contact sample_streaming = None"
    by (simp_all add: sample_streaming_def sample_delta_def receiveEvent_def initialChatState_def truthy_def
        note_event_def liveMessage_def)
  have "trim ''Hi'' \<noteq> []" by code_simp
  then have "map rm_text (fst (renderedMessages [''m1''] 5 (Some sample_streaming) Map.empty)) = [''Hi'']"
    by (simp add: renderedMessages_def live live_list_def map_filter_def first_shown_def contact_rows_def last_rows_def)
  then show ?thesis
    using rows_shown_once [OF sample_streaming_def, of "[''m1'']" 5 Map.empty 6] live by simp
qed

end
