(* ===== verification/SiteWidget.thy ===== *)
theory SiteWidget
  imports WidgetView
begin

text \<open>
  The site widget, \<open>examples/cloudflare-worker/site/widget.ts\<close>: how the element starts its chat client,
  listens to it, submits messages and email handoffs, clears the chat and leaves the page. Every callback is
  an event; what the code does until it waits is one step. The clients are numbered by the calls of
  \<open>startClient\<close>; what a client does by itself (its states, what it saves) are events too, and what the
  widget asks of it is collected. Markup, focus, avatars and the panel's size are not modelled, and of the
  texts the dots of an ellipsis are left out.
\<close>

record widget_configuration =
  vc_widgetKey :: ident
  vc_siteKey :: ident
  vc_agent :: string
  vc_agentLabel :: string
  vc_emailHandoff :: bool
  vc_theme :: string
  vc_analytics :: bool

datatype widget_page = Chat_page | Menu_page | About_page | Mail_page | Avatar_page

datatype start_stage = Loading_configuration | Starting_client

text \<open>Where \<open>submit\<close> or \<open>mailConversation\<close> waits: for a start, a conversation or an answer.\<close>

datatype widget_task =
    Text_awaits_client nat string
  | Text_creating nat string
  | Text_sending nat
  | Contact_sending nat
  | Mail_awaits_client nat string
  | Mail_creating nat string
  | Mail_sending nat

datatype client_call = Create_conversation | Send_text string | Answer_contact ident string | Hand_off string

record site_widget =
  sw_starts :: nat
  sw_client :: "nat option"
  sw_clientPromise :: "nat option"
  sw_starting :: "(nat \<times> start_stage) list"
  sw_openers :: "nat list"
  sw_unsubscribe :: "nat option"
  sw_listening :: "nat list"
  sw_destroyed :: "nat list"
  sw_getState :: "nat \<Rightarrow> chat_state"
  sw_keys :: "nat \<Rightarrow> string option"
  sw_state :: "chat_state option"
  sw_configuration :: "widget_configuration option"
  sw_theme :: widget_theme
  sw_storageKey :: "string option"
  sw_storage :: local_storage
  sw_busy :: bool
  sw_task :: "widget_task option"
  sw_input :: string
  sw_mailInput :: string
  sw_status :: string
  sw_mailStatus :: string
  sw_notice :: string
  sw_page :: widget_page
  sw_analytics :: "reporter option"
  sw_reports :: reports
  sw_calls :: "(nat \<times> client_call) list"

definition new_widget_element :: "string option \<Rightarrow> local_storage \<Rightarrow> site_widget" where
  "new_widget_element theme storage =
     \<lparr>sw_starts = 0, sw_client = None, sw_clientPromise = None, sw_starting = [], sw_openers = [],
      sw_unsubscribe = None, sw_listening = [], sw_destroyed = [], sw_getState = (\<lambda>_. initialChatState),
      sw_keys = (\<lambda>_. None), sw_state = None, sw_configuration = None, sw_theme = normalizeTheme theme,
      sw_storageKey = None, sw_storage = storage, sw_busy = False, sw_task = None, sw_input = [],
      sw_mailInput = [], sw_status = [], sw_mailStatus = [], sw_notice = [], sw_page = Chat_page,
      sw_analytics = None, sw_reports = [], sw_calls = []\<rparr>"

subsection \<open>The client\<close>

text \<open>\<open>ensureClient\<close>: a client that is there, or the start to wait for, which may be a new one.\<close>

definition ensureClient :: "site_widget \<Rightarrow> (nat + nat) \<times> site_widget" where
  "ensureClient w = (case sw_client w of
     Some k \<Rightarrow> (Inl k, w)
   | None \<Rightarrow> (case sw_clientPromise w of
       Some n \<Rightarrow> (Inr n, w)
     | None \<Rightarrow> (let n = sw_starts w
         in (Inr n, w\<lparr>sw_starts := Suc n, sw_clientPromise := Some n,
               sw_starting := sw_starting w @ [(n, Loading_configuration)]\<rparr>))))"

definition report :: "reports \<Rightarrow> site_widget \<Rightarrow> site_widget" where
  "report rs w = (case sw_analytics w of None \<Rightarrow> w | Some _ \<Rightarrow> w\<lparr>sw_reports := sw_reports w @ rs\<rparr>)"

definition reporting :: "(reporter \<Rightarrow> reports \<times> reporter) \<Rightarrow> site_widget \<Rightarrow> site_widget" where
  "reporting f w = (case sw_analytics w of
     None \<Rightarrow> w
   | Some r \<Rightarrow> (let (rs, r') = f r in w\<lparr>sw_analytics := Some r', sw_reports := sw_reports w @ rs\<rparr>))"

text \<open>\<open>startClient\<close> after the configuration has come.\<close>

definition configuration_loaded :: "nat \<Rightarrow> widget_configuration \<Rightarrow> site_widget \<Rightarrow> site_widget" where
  "configuration_loaded n c w =
     (let key = widgetStorageKey (vc_widgetKey c) (vc_agent c)
      in w\<lparr>sw_configuration := Some c, sw_theme := normalizeTheme (Some (vc_theme c)),
           sw_analytics := (if vc_analytics c then Some new_reporter else None),
           sw_storageKey := Some key, sw_keys := (sw_keys w)(n \<mapsto> key),
           sw_getState := (sw_getState w)(n := initialChatState), sw_unsubscribe := Some n,
           sw_listening := sw_listening w @ [n],
           sw_starting := map (\<lambda>(m, stage). (m, if m = n then Starting_client else stage)) (sw_starting w)\<rparr>)"

subsection \<open>Submitting\<close>

definition task_done :: "site_widget \<Rightarrow> site_widget" where
  "task_done w = w\<lparr>sw_busy := False, sw_task := None\<rparr>"

definition call_client :: "nat \<Rightarrow> client_call \<Rightarrow> widget_task \<Rightarrow> site_widget \<Rightarrow> site_widget" where
  "call_client k c task w = w\<lparr>sw_calls := sw_calls w @ [(k, c)], sw_task := Some task\<rparr>"

definition invalid_contact_text :: string where
  "invalid_contact_text = ''Enter a valid email address so our team can follow up.''"

definition submit_with_client :: "nat \<Rightarrow> string \<Rightarrow> site_widget \<Rightarrow> site_widget" where
  "submit_with_client k s w = (case st_contact (sw_getState w k) of
     Some contact \<Rightarrow>
       if \<not> isEmail s then task_done (w\<lparr>sw_status := invalid_contact_text\<rparr>)
       else call_client k (Answer_contact (cr_requestId contact) s) (Contact_sending k) w
   | None \<Rightarrow>
       if st_conversation (sw_getState w k) \<noteq> None then call_client k (Send_text s) (Text_sending k) w
       else call_client k Create_conversation (Text_creating k s) w)"

definition mail_with_client :: "nat \<Rightarrow> string \<Rightarrow> site_widget \<Rightarrow> site_widget" where
  "mail_with_client k email w =
     (if st_conversation (sw_getState w k) \<noteq> None then call_client k (Hand_off email) (Mail_sending k) w
      else call_client k Create_conversation (Mail_creating k email) w)"

definition submit :: "site_widget \<Rightarrow> site_widget" where
  "submit w = (let s = trim (sw_input w)
     in if s = [] \<or> sw_busy w then w
        else (case ensureClient (w\<lparr>sw_busy := True, sw_notice := [], sw_status := ''Thinking''\<rparr>) of
            (Inl k, w1) \<Rightarrow> submit_with_client k s w1
          | (Inr n, w1) \<Rightarrow> w1\<lparr>sw_task := Some (Text_awaits_client n s)\<rparr>))"

definition mailConversation :: "site_widget \<Rightarrow> site_widget" where
  "mailConversation w = (let email = trim (sw_mailInput w)
     in if \<not> isEmail email \<or> sw_busy w then w\<lparr>sw_mailStatus := ''Enter a valid email address.''\<rparr>
        else (case ensureClient (w\<lparr>sw_busy := True, sw_mailStatus := ''Preparing your email handoff''\<rparr>) of
            (Inl k, w1) \<Rightarrow> mail_with_client k email w1
          | (Inr n, w1) \<Rightarrow> w1\<lparr>sw_task := Some (Mail_awaits_client n email)\<rparr>))"

text \<open>The waiting submission goes on with the client, or is told of the failed start.\<close>

definition client_ready :: "nat \<Rightarrow> site_widget \<Rightarrow> site_widget" where
  "client_ready n w = (case sw_task w of
     Some (Text_awaits_client m s) \<Rightarrow> if m = n then submit_with_client n s w else w
   | Some (Mail_awaits_client m email) \<Rightarrow> if m = n then mail_with_client n email w else w
   | _ \<Rightarrow> w)"

definition task_failed :: "string \<Rightarrow> site_widget \<Rightarrow> site_widget" where
  "task_failed e w = (case sw_task w of
     Some (Mail_awaits_client _ _) \<Rightarrow> task_done (w\<lparr>sw_mailStatus := e\<rparr>)
   | Some (Mail_creating _ _) \<Rightarrow> task_done (w\<lparr>sw_mailStatus := e\<rparr>)
   | Some (Mail_sending _) \<Rightarrow> task_done (w\<lparr>sw_mailStatus := e\<rparr>)
   | Some _ \<Rightarrow> task_done (w\<lparr>sw_status := e\<rparr>)
   | None \<Rightarrow> w)"

definition awaits_start :: "nat \<Rightarrow> site_widget \<Rightarrow> bool" where
  "awaits_start n w \<longleftrightarrow> (case sw_task w of
     Some (Text_awaits_client m _) \<Rightarrow> m = n | Some (Mail_awaits_client m _) \<Rightarrow> m = n | _ \<Rightarrow> False)"

text \<open>The \<open>catch\<close> of \<open>ensureClient\<close>, and of those that wait for this start.\<close>

definition start_failed :: "nat \<Rightarrow> string \<Rightarrow> site_widget \<Rightarrow> site_widget" where
  "start_failed n e w =
     (let w1 = w\<lparr>sw_clientPromise := None, sw_starting := filter (\<lambda>p. fst p \<noteq> n) (sw_starting w),
                sw_status := (if n \<in> set (sw_openers w) then e else sw_status w)\<rparr>
      in if awaits_start n w1 then task_failed e w1 else w1)"

definition start_succeeded :: "ident list \<Rightarrow> nat \<Rightarrow> site_widget \<Rightarrow> site_widget" where
  "start_succeeded order n w =
     client_ready n ((report (sessionStarted order (sw_getState w n)) w)
       \<lparr>sw_client := Some n, sw_state := Some (sw_getState w n),
        sw_starting := filter (\<lambda>p. fst p \<noteq> n) (sw_starting w)\<rparr>)"

definition conversation_created :: "ident list \<Rightarrow> ident \<Rightarrow> site_widget \<Rightarrow> site_widget" where
  "conversation_created order cid w = (case sw_task w of
     Some (Text_creating k s) \<Rightarrow>
       call_client k (Send_text s) (Text_sending k) (reporting (\<lambda>_. conversationStarted order cid (sw_getState w k)) w)
   | Some (Mail_creating k email) \<Rightarrow>
       call_client k (Hand_off email) (Mail_sending k) (reporting (\<lambda>_. conversationStarted order cid (sw_getState w k)) w)
   | _ \<Rightarrow> w)"

definition mailed_text :: string where
  "mailed_text = ''The email agent is preparing your conversation summary.''"

definition command_answered :: "ident list \<Rightarrow> site_widget \<Rightarrow> site_widget" where
  "command_answered order w = (case sw_task w of
     Some (Text_sending k) \<Rightarrow> task_done (report (messageSent order (sw_getState w k)) (w\<lparr>sw_input := []\<rparr>))
   | Some (Contact_sending k) \<Rightarrow> task_done (w\<lparr>sw_input := []\<rparr>)
   | Some (Mail_sending k) \<Rightarrow>
       task_done (w\<lparr>sw_mailInput := [], sw_page := Chat_page, sw_notice := mailed_text, sw_status := mailed_text\<rparr>)
   | _ \<Rightarrow> w)"

subsection \<open>Listening, clearing, leaving\<close>

definition updateStatusFromState :: "chat_state \<Rightarrow> site_widget \<Rightarrow> site_widget" where
  "updateStatusFromState s w =
     (if sw_busy w then w
      else w\<lparr>sw_status :=
        (if sw_notice w \<noteq> [] then sw_notice w
         else if st_contact s \<noteq> None then ''Enter your email address to complete the handoff.''
         else if st_phase s = Phase_reconnecting \<and> isActiveRun s then ''Reconnecting''
         else (case st_error s of Some e \<Rightarrow> er_message e | None \<Rightarrow> []))\<rparr>)"

definition notified :: "ident list \<Rightarrow> nat \<Rightarrow> chat_state \<Rightarrow> site_widget \<Rightarrow> site_widget" where
  "notified order k s w =
     (let w1 = w\<lparr>sw_getState := (sw_getState w)(k := s)\<rparr>
      in if k \<notin> set (sw_listening w) then w1
         else updateStatusFromState s (reporting (observe order s) (w1\<lparr>sw_state := Some s\<rparr>)))"

definition unsubscribe_widget :: "site_widget \<Rightarrow> site_widget" where
  "unsubscribe_widget w = w\<lparr>sw_listening := filter (\<lambda>k. Some k \<noteq> sw_unsubscribe w) (sw_listening w)\<rparr>"

definition destroy_client :: "site_widget \<Rightarrow> site_widget" where
  "destroy_client w = (case sw_client w of
     None \<Rightarrow> w
   | Some k \<Rightarrow> w\<lparr>sw_destroyed := sw_destroyed w @ [k], sw_listening := filter (\<lambda>m. m \<noteq> k) (sw_listening w)\<rparr>)"

definition clear_widget :: "site_widget \<Rightarrow> site_widget" where
  "clear_widget w =
     (let w1 = unsubscribe_widget (destroy_client w)
      in w1\<lparr>sw_storage := (case sw_storageKey w of None \<Rightarrow> sw_storage w | Some key \<Rightarrow> (sw_storage w)(key := None)),
           sw_client := None, sw_clientPromise := None, sw_unsubscribe := None, sw_state := None,
           sw_analytics := None, sw_configuration := None, sw_notice := [], sw_status := [], sw_page := Chat_page\<rparr>)"

definition disconnected :: "site_widget \<Rightarrow> site_widget" where
  "disconnected w = destroy_client (unsubscribe_widget w)"

definition opened :: "site_widget \<Rightarrow> site_widget" where
  "opened w = (let w1 = w\<lparr>sw_page := Chat_page\<rparr> in case ensureClient w1 of
     (Inl k, w2) \<Rightarrow> w2 | (Inr n, w2) \<Rightarrow> w2\<lparr>sw_openers := sw_openers w2 @ [n]\<rparr>)"

text \<open>The controls that \<open>updateControls\<close> disables.\<close>

definition clear_disabled :: "site_widget \<Rightarrow> bool" where
  "clear_disabled w = sw_busy w"

definition mail_disabled :: "site_widget \<Rightarrow> bool" where
  "mail_disabled w \<longleftrightarrow> sw_busy w \<or> map_option vc_emailHandoff (sw_configuration w) \<noteq> Some True
     \<or> \<not> (case sw_state w of None \<Rightarrow> False | Some s \<Rightarrow> list_ex (\<lambda>m. ms_role m = Role_user) (st_messages s))"

subsection \<open>Steps\<close>

datatype element_event =
    Opened
  | Pointer_entered
  | Typed string
  | Mail_typed string
  | Page_shown widget_page
  | Submitted
  | Mail_submitted
  | Cleared
  | Disconnected
  | Configuration_answered nat "string + widget_configuration"
  | Start_settled nat "string + unit"
  | Conversation_answered "string + ident"
  | Command_settled "string + unit"
  | Notified nat chat_state
  | Client_saved nat persisted

definition creating :: "site_widget \<Rightarrow> bool" where
  "creating w \<longleftrightarrow> (case sw_task w of
     Some (Text_creating _ _) \<Rightarrow> True | Some (Mail_creating _ _) \<Rightarrow> True | _ \<Rightarrow> False)"

definition sending_command :: "site_widget \<Rightarrow> bool" where
  "sending_command w \<longleftrightarrow> (case sw_task w of
     Some (Text_sending _) \<Rightarrow> True | Some (Contact_sending _) \<Rightarrow> True | Some (Mail_sending _) \<Rightarrow> True | _ \<Rightarrow> False)"

text \<open>An event that cannot happen in a state, such as a click on a disabled button, changes nothing.\<close>

fun widget_step :: "ident list \<Rightarrow> element_event \<Rightarrow> site_widget \<Rightarrow> site_widget" where
  "widget_step order Opened w = opened w"
| "widget_step order Pointer_entered w = snd (ensureClient w)"
| "widget_step order (Typed s) w = (if sw_busy w then w else w\<lparr>sw_input := s\<rparr>)"
| "widget_step order (Mail_typed s) w = (if sw_busy w then w else w\<lparr>sw_mailInput := s\<rparr>)"
| "widget_step order (Page_shown p) w = w\<lparr>sw_page := p\<rparr>"
| "widget_step order Submitted w = submit w"
| "widget_step order Mail_submitted w = mailConversation w"
| "widget_step order Cleared w = (if clear_disabled w then w else clear_widget w)"
| "widget_step order Disconnected w = disconnected w"
| "widget_step order (Configuration_answered n answer) w =
     (if (n, Loading_configuration) \<notin> set (sw_starting w) then w
      else (case answer of Inl e \<Rightarrow> start_failed n e w | Inr c \<Rightarrow> configuration_loaded n c w))"
| "widget_step order (Start_settled n result) w =
     (if (n, Starting_client) \<notin> set (sw_starting w) then w
      else (case result of Inl e \<Rightarrow> start_failed n e w | Inr _ \<Rightarrow> start_succeeded order n w))"
| "widget_step order (Conversation_answered answer) w =
     (if \<not> creating w then w
      else (case answer of Inl e \<Rightarrow> task_failed e w | Inr cid \<Rightarrow> conversation_created order cid w))"
| "widget_step order (Command_settled result) w =
     (if \<not> sending_command w then w
      else (case result of Inl e \<Rightarrow> task_failed e w | Inr _ \<Rightarrow> command_answered order w))"
| "widget_step order (Notified k s) w = (if sw_keys w k = None then w else notified order k s w)"
| "widget_step order (Client_saved k state) w = (case sw_keys w k of
     None \<Rightarrow> w | Some key \<Rightarrow> w\<lparr>sw_storage := widget_save key state (sw_storage w)\<rparr>)"

definition widget_run :: "ident list \<Rightarrow> element_event list \<Rightarrow> site_widget \<Rightarrow> site_widget" where
  "widget_run order es w = fold (widget_step order) es w"

subsection \<open>One client\<close>

text \<open>
  The events that leave the widget with one client: no start fails once its client exists, and the chat is
  neither cleared nor removed from the page while a client starts.
\<close>

fun calm_event :: "site_widget \<Rightarrow> element_event \<Rightarrow> bool" where
  "calm_event w (Start_settled n (Inl e)) \<longleftrightarrow> False"
| "calm_event w Cleared \<longleftrightarrow> sw_starting w = []"
| "calm_event w Disconnected \<longleftrightarrow> sw_starting w = []"
| "calm_event w e \<longleftrightarrow> True"

fun calm_run :: "ident list \<Rightarrow> element_event list \<Rightarrow> site_widget \<Rightarrow> bool" where
  "calm_run order [] w \<longleftrightarrow> True"
| "calm_run order (e # es) w \<longleftrightarrow> calm_event w e \<and> calm_run order es (widget_step order e w)"

definition task_client :: "widget_task \<Rightarrow> nat + nat" where
  "task_client t = (case t of Text_awaits_client n _ \<Rightarrow> Inr n | Mail_awaits_client n _ \<Rightarrow> Inr n
     | Text_creating k _ \<Rightarrow> Inl k | Mail_creating k _ \<Rightarrow> Inl k | Text_sending k \<Rightarrow> Inl k
     | Contact_sending k \<Rightarrow> Inl k | Mail_sending k \<Rightarrow> Inl k)"

text \<open>
  Either no start is on its way, and only the widget's own client tells it of states, or exactly one is,
  which everybody waits for.
\<close>

fun starting_ok :: "nat \<Rightarrow> nat option \<Rightarrow> nat option \<Rightarrow> nat list \<Rightarrow> nat list \<Rightarrow> (nat \<times> start_stage) list \<Rightarrow> bool" where
  "starting_ok starts client promise listening destroyed [] \<longleftrightarrow>
     set listening \<subseteq> set_option client \<and> (client = None \<longrightarrow> promise = None)"
| "starting_ok starts client promise listening destroyed [(n, stage)] \<longleftrightarrow>
     client = None \<and> promise = Some n \<and> n < starts \<and> n \<notin> set destroyed
     \<and> listening = (if stage = Starting_client then [n] else [])"
| "starting_ok starts client promise listening destroyed (p # q # ps) \<longleftrightarrow> False"

definition clients_ok ::
  "nat \<Rightarrow> nat option \<Rightarrow> nat option \<Rightarrow> (nat \<times> start_stage) list \<Rightarrow> nat list \<Rightarrow> nat list \<Rightarrow> bool" where
  "clients_ok starts client promise starting listening destroyed \<longleftrightarrow>
     starting_ok starts client promise listening destroyed starting
     \<and> length listening \<le> 1 \<and> set listening \<inter> set destroyed = {} \<and> (\<forall>k \<in> set destroyed. k < starts)
     \<and> (\<forall>k. client = Some k \<longrightarrow> k < starts)"

definition clients_inv :: "site_widget \<Rightarrow> bool" where
  "clients_inv w \<longleftrightarrow> clients_ok (sw_starts w) (sw_client w) (sw_clientPromise w) (sw_starting w) (sw_listening w)
     (sw_destroyed w)"

definition waiting_ok :: "nat option \<Rightarrow> (nat \<times> start_stage) list \<Rightarrow> bool \<Rightarrow> widget_task option \<Rightarrow> bool" where
  "waiting_ok client starting busy task \<longleftrightarrow> (busy \<longleftrightarrow> task \<noteq> None)
     \<and> (case task of None \<Rightarrow> True | Some t \<Rightarrow>
          (case task_client t of Inl k \<Rightarrow> client = Some k | Inr n \<Rightarrow> n \<in> fst ` set starting))"

definition task_inv :: "site_widget \<Rightarrow> bool" where
  "task_inv w \<longleftrightarrow> waiting_ok (sw_client w) (sw_starting w) (sw_busy w) (sw_task w)"

lemma inv_new: "clients_inv (new_widget_element theme storage) \<and> task_inv (new_widget_element theme storage)"
  by (simp add: clients_inv_def clients_ok_def task_inv_def waiting_ok_def new_widget_element_def)

lemma start_cases:
  assumes "clients_inv w"
  obtains (idle) "sw_starting w = []"
  | (starting) n stage where "sw_starting w = [(n, stage)]" "sw_client w = None" "sw_clientPromise w = Some n"
proof (cases "sw_starting w")
  case Nil
  then show thesis by (rule idle)
next
  case (Cons p ps)
  then show thesis
    using assms starting [of "fst p" "snd p"] by (cases p; cases ps) (auto simp: clients_inv_def clients_ok_def)
qed

lemma reporting_fields [simp]:
  "sw_starts (reporting f w) = sw_starts w" "sw_client (reporting f w) = sw_client w"
  "sw_clientPromise (reporting f w) = sw_clientPromise w" "sw_starting (reporting f w) = sw_starting w"
  "sw_listening (reporting f w) = sw_listening w" "sw_destroyed (reporting f w) = sw_destroyed w"
  "sw_busy (reporting f w) = sw_busy w" "sw_task (reporting f w) = sw_task w"
  "sw_state (reporting f w) = sw_state w" "sw_getState (reporting f w) = sw_getState w"
  "sw_input (reporting f w) = sw_input w" "sw_calls (reporting f w) = sw_calls w"
  by (simp_all add: reporting_def split: option.split prod.split)

lemma report_fields [simp]:
  "sw_starts (report rs w) = sw_starts w" "sw_client (report rs w) = sw_client w"
  "sw_clientPromise (report rs w) = sw_clientPromise w" "sw_starting (report rs w) = sw_starting w"
  "sw_listening (report rs w) = sw_listening w" "sw_destroyed (report rs w) = sw_destroyed w"
  "sw_busy (report rs w) = sw_busy w" "sw_task (report rs w) = sw_task w"
  "sw_state (report rs w) = sw_state w" "sw_getState (report rs w) = sw_getState w"
  "sw_input (report rs w) = sw_input w" "sw_calls (report rs w) = sw_calls w"
  by (simp_all add: report_def split: option.split)

lemma task_ok_idle [simp]: "waiting_ok client starting False None"
  by (simp add: waiting_ok_def)

lemma submitting_inv:
  assumes "clients_inv w" and "sw_client w = Some k" and "sw_busy w"
  shows "clients_inv (submit_with_client k s w) \<and> task_inv (submit_with_client k s w)"
    and "clients_inv (mail_with_client k s w) \<and> task_inv (mail_with_client k s w)"
  using assms
  by (auto simp: submit_with_client_def mail_with_client_def call_client_def task_done_def clients_inv_def task_inv_def
      waiting_ok_def task_client_def split: option.split)

lemma ensure_inv:
  assumes "clients_inv w" and "ensureClient w = (r, w1)"
  shows "clients_inv w1" and "sw_busy w1 \<longleftrightarrow> sw_busy w" and "sw_task w1 = sw_task w"
    and "case r of Inl k \<Rightarrow> sw_client w1 = Some k | Inr n \<Rightarrow> n \<in> fst ` set (sw_starting w1)"
    and "set (sw_starting w) \<subseteq> set (sw_starting w1) \<and> sw_client w1 = sw_client w"
proof -
  from assms(1) show "clients_inv w1"
    by (rule start_cases) (use assms in \<open>auto simp: ensureClient_def clients_inv_def clients_ok_def Let_def less_Suc_eq
        split: option.splits\<close>)
  from assms(1) show "case r of Inl k \<Rightarrow> sw_client w1 = Some k | Inr n \<Rightarrow> n \<in> fst ` set (sw_starting w1)"
    by (rule start_cases) (use assms in \<open>auto simp: ensureClient_def clients_inv_def clients_ok_def Let_def
        split: option.splits\<close>)
  show "sw_busy w1 \<longleftrightarrow> sw_busy w" "sw_task w1 = sw_task w"
      "set (sw_starting w) \<subseteq> set (sw_starting w1) \<and> sw_client w1 = sw_client w"
    using assms(2) by (auto simp: ensureClient_def Let_def split: option.splits)
qed

lemma waiting_inv:
  assumes "clients_inv w" and "sw_busy w" and "n \<in> fst ` set (sw_starting w)" and "task_client t = Inr n"
  shows "clients_inv (w\<lparr>sw_task := Some t\<rparr>) \<and> task_inv (w\<lparr>sw_task := Some t\<rparr>)"
  using assms by (simp add: clients_inv_def task_inv_def waiting_ok_def)

lemma submit_inv:
  assumes "clients_inv w" and "task_inv w"
  shows "clients_inv (submit w) \<and> task_inv (submit w)"
proof (cases "trim (sw_input w) = [] \<or> sw_busy w")
  case False
  define w0 where "w0 = w\<lparr>sw_busy := True, sw_notice := [], sw_status := ''Thinking''\<rparr>"
  obtain r w1 where ensured: "ensureClient w0 = (r, w1)" by fastforce
  have "clients_inv w0" using assms(1) by (simp add: w0_def clients_inv_def)
  note w1 = ensure_inv [OF this ensured]
  have "submit w = (case r of Inl k \<Rightarrow> submit_with_client k (trim (sw_input w)) w1
      | Inr n \<Rightarrow> w1\<lparr>sw_task := Some (Text_awaits_client n (trim (sw_input w)))\<rparr>)"
    using False ensured by (simp add: submit_def Let_def flip: w0_def split: sum.split)
  moreover have busy: "sw_busy w1" using w1(2) by (simp add: w0_def)
  moreover have "clients_inv (submit_with_client k t w1) \<and> task_inv (submit_with_client k t w1)" if "r = Inl k" for k t
    using w1(1,4) busy that by (intro submitting_inv(1)) simp_all
  moreover have "clients_inv (w1\<lparr>sw_task := Some (Text_awaits_client n t)\<rparr>)
      \<and> task_inv (w1\<lparr>sw_task := Some (Text_awaits_client n t)\<rparr>)" if "r = Inr n" for n t
    using w1(1,4) busy that by (intro waiting_inv) (simp_all add: task_client_def)
  ultimately show ?thesis by (cases r) simp_all
qed (use assms in \<open>auto simp: submit_def Let_def\<close>)

lemma mail_inv:
  assumes "clients_inv w" and "task_inv w"
  shows "clients_inv (mailConversation w) \<and> task_inv (mailConversation w)"
proof (cases "\<not> isEmail (trim (sw_mailInput w)) \<or> sw_busy w")
  case True
  then show ?thesis using assms by (auto simp: mailConversation_def Let_def clients_inv_def task_inv_def)
next
  case False
  define w0 where "w0 = w\<lparr>sw_busy := True, sw_mailStatus := ''Preparing your email handoff''\<rparr>"
  obtain r w1 where ensured: "ensureClient w0 = (r, w1)" by fastforce
  have "clients_inv w0" using assms(1) by (simp add: w0_def clients_inv_def)
  note w1 = ensure_inv [OF this ensured]
  have "mailConversation w = (case r of Inl k \<Rightarrow> mail_with_client k (trim (sw_mailInput w)) w1
      | Inr n \<Rightarrow> w1\<lparr>sw_task := Some (Mail_awaits_client n (trim (sw_mailInput w)))\<rparr>)"
    using False ensured by (simp add: mailConversation_def Let_def flip: w0_def split: sum.split)
  moreover have busy: "sw_busy w1" using w1(2) by (simp add: w0_def)
  moreover have "clients_inv (mail_with_client k t w1) \<and> task_inv (mail_with_client k t w1)" if "r = Inl k" for k t
    using w1(1,4) busy that by (intro submitting_inv(2)) simp_all
  moreover have "clients_inv (w1\<lparr>sw_task := Some (Mail_awaits_client n t)\<rparr>)
      \<and> task_inv (w1\<lparr>sw_task := Some (Mail_awaits_client n t)\<rparr>)" if "r = Inr n" for n t
    using w1(1,4) busy that by (intro waiting_inv) (simp_all add: task_client_def)
  ultimately show ?thesis by (cases r) simp_all
qed

text \<open>The end of the only start.\<close>

lemma only_start:
  assumes "clients_inv w" and "(n, stage) \<in> set (sw_starting w)"
  shows "sw_starting w = [(n, stage)]"
  using assms(1) by (rule start_cases) (use assms(2) in auto)

lemma task_failed_clients [simp]: "clients_inv (task_failed e w) = clients_inv w"
  by (simp add: task_failed_def task_done_def clients_inv_def split: option.split widget_task.split)

lemma task_failed_task: "sw_task w \<noteq> None \<Longrightarrow> task_inv (task_failed e w)"
  by (auto simp: task_failed_def task_done_def task_inv_def split: option.split widget_task.split)

lemma task_stays:
  assumes "waiting_ok client starting busy task" and "\<And>t n. task = Some t \<Longrightarrow> task_client t \<noteq> Inr n"
  shows "waiting_ok client starting' busy task"
  using assms by (auto simp: waiting_ok_def split: option.splits sum.splits)

lemma awaits_start_iff: "awaits_start n w \<longleftrightarrow> (\<exists>t. sw_task w = Some t \<and> task_client t = Inr n)"
  by (simp add: awaits_start_def task_client_def split: option.split widget_task.split)

lemma start_failed_inv:
  assumes "clients_inv w" and "task_inv w" and "(n, Loading_configuration) \<in> set (sw_starting w)"
  shows "clients_inv (start_failed n e w) \<and> task_inv (start_failed n e w)"
proof -
  note only = only_start [OF assms(1,3)]
  define w1 where "w1 = w\<lparr>sw_clientPromise := None, sw_starting := filter (\<lambda>p. fst p \<noteq> n) (sw_starting w),
     sw_status := (if n \<in> set (sw_openers w) then e else sw_status w)\<rparr>"
  have failed: "start_failed n e w = (if awaits_start n w1 then task_failed e w1 else w1)"
    by (simp add: start_failed_def Let_def w1_def)
  have clients: "clients_inv w1"
    using assms(1) by (simp add: w1_def clients_inv_def clients_ok_def only)
  have task: "task_inv w1" if "\<not> awaits_start n w1"
  proof -
    have "task_client t \<noteq> Inr m" if "sw_task w = Some t" for t m
      using assms(2) that \<open>\<not> awaits_start n w1\<close>
      by (auto simp: task_inv_def waiting_ok_def only awaits_start_iff w1_def)
    then show ?thesis
      using assms(2) task_stays [of "sw_client w" "sw_starting w" "sw_busy w" "sw_task w"] by (simp add: task_inv_def w1_def)
  qed
  show ?thesis
    using clients task task_failed_task [of w1 e] by (auto simp: failed awaits_start_iff)
qed

lemma client_ready_inv:
  assumes "clients_inv w" and "sw_client w = Some n" and "sw_busy w \<longleftrightarrow> sw_task w \<noteq> None"
    and "\<And>t. sw_task w = Some t \<Longrightarrow> task_client t = Inr n"
  shows "clients_inv (client_ready n w) \<and> task_inv (client_ready n w)"
proof (cases "sw_task w")
  case None
  then show ?thesis using assms(1,3) by (simp add: client_ready_def task_inv_def)
next
  case (Some t)
  then have "sw_busy w" "task_client t = Inr n" using assms(3,4) by simp_all
  then show ?thesis
    using submitting_inv [OF assms(1,2)] Some
    by (cases t) (simp_all add: client_ready_def task_client_def)
qed

lemma start_succeeded_inv:
  assumes "clients_inv w" and "task_inv w" and "(n, Starting_client) \<in> set (sw_starting w)"
  shows "clients_inv (start_succeeded order n w) \<and> task_inv (start_succeeded order n w)"
proof -
  note only = only_start [OF assms(1,3)]
  define w1 where "w1 = (report (sessionStarted order (sw_getState w n)) w)\<lparr>sw_client := Some n,
     sw_state := Some (sw_getState w n), sw_starting := filter (\<lambda>p. fst p \<noteq> n) (sw_starting w)\<rparr>"
  have "clients_inv w1" using assms(1) by (simp add: w1_def clients_inv_def clients_ok_def only)
  moreover have "sw_client w1 = Some n" by (simp add: w1_def)
  moreover have "sw_busy w1 \<longleftrightarrow> sw_task w1 \<noteq> None"
    using assms(2) by (simp add: w1_def task_inv_def waiting_ok_def)
  moreover have "task_client t = Inr n" if "sw_task w1 = Some t" for t
    using assms(1,2) that
    by (auto simp: w1_def task_inv_def waiting_ok_def only clients_inv_def clients_ok_def split: sum.splits)
  ultimately have "clients_inv (client_ready n w1) \<and> task_inv (client_ready n w1)" by (rule client_ready_inv)
  then show ?thesis by (simp add: start_succeeded_def w1_def)
qed

lemma settled_inv: "clients_inv (task_done w) = clients_inv w" "task_inv (task_done w)"
  by (simp_all add: task_done_def clients_inv_def task_inv_def)

lemma call_client_inv:
  assumes "clients_inv w" and "sw_busy w" and "sw_client w = Some k" and "task_client t = Inl k"
  shows "clients_inv (call_client k c t w) \<and> task_inv (call_client k c t w)"
  using assms by (simp add: call_client_def clients_inv_def task_inv_def waiting_ok_def)

lemma ensure_only_inv:
  assumes "clients_inv w" and "task_inv w" and "ensureClient w = (r, w1)"
  shows "clients_inv w1 \<and> task_inv w1"
  using ensure_inv [OF assms(1,3)] assms(2)
  by (auto simp: task_inv_def waiting_ok_def split: option.splits sum.splits)

lemma opened_inv:
  assumes "clients_inv w" and "task_inv w"
  shows "clients_inv (opened w) \<and> task_inv (opened w)"
proof -
  obtain r w2 where ensured: "ensureClient (w\<lparr>sw_page := Chat_page\<rparr>) = (r, w2)" by fastforce
  have "clients_inv w2 \<and> task_inv w2"
    using ensure_only_inv [OF _ _ ensured] assms by (simp add: clients_inv_def task_inv_def)
  then show ?thesis using ensured by (cases r) (simp_all add: opened_def clients_inv_def task_inv_def)
qed

lemma idle_listening:
  assumes "clients_inv w" and "sw_starting w = []"
  shows "sw_listening w = [] \<or> (\<exists>k. sw_client w = Some k \<and> sw_listening w = [k])"
  using assms by (cases "sw_listening w"; cases "sw_client w") (auto simp: clients_inv_def clients_ok_def)

lemma cleared_inv:
  assumes "clients_inv w" and "task_inv w" and "\<not> sw_busy w" and "sw_starting w = []"
  shows "clients_inv (clear_widget w) \<and> task_inv (clear_widget w)"
  using idle_listening [OF assms(1,4)] assms
  by (auto simp: clear_widget_def destroy_client_def unsubscribe_widget_def clients_inv_def clients_ok_def task_inv_def
      waiting_ok_def Let_def split: option.split)

lemma disconnected_inv:
  assumes "clients_inv w" and "task_inv w" and "sw_starting w = []"
  shows "clients_inv (disconnected w) \<and> task_inv (disconnected w)"
  using idle_listening [OF assms(1,3)] assms
  by (auto simp: disconnected_def destroy_client_def unsubscribe_widget_def clients_inv_def clients_ok_def task_inv_def
      split: option.split)

lemma conversation_inv:
  assumes "clients_inv w" and "task_inv w" and "creating w"
  shows "clients_inv (conversation_created order cid w) \<and> task_inv (conversation_created order cid w)"
proof -
  obtain t where t: "sw_task w = Some t" "sw_busy w" using assms(2,3) by (auto simp: creating_def task_inv_def waiting_ok_def)
  have "clients_inv (reporting f w)" for f using assms(1) by (simp add: clients_inv_def)
  then show ?thesis
    using assms(2,3) t call_client_inv
    by (cases t) (simp_all add: creating_def conversation_created_def task_inv_def waiting_ok_def task_client_def)
qed

lemma command_inv:
  assumes "clients_inv w" and "sending_command w"
  shows "clients_inv (command_answered order w) \<and> task_inv (command_answered order w)"
  using assms
  by (auto simp: sending_command_def command_answered_def task_done_def clients_inv_def task_inv_def
      split: option.splits widget_task.splits)

lemma loaded_inv:
  assumes "clients_inv w" and "task_inv w" and "(n, Loading_configuration) \<in> set (sw_starting w)"
  shows "clients_inv (configuration_loaded n c w) \<and> task_inv (configuration_loaded n c w)"
  using assms only_start [OF assms(1,3)]
  by (auto simp: configuration_loaded_def Let_def clients_inv_def clients_ok_def task_inv_def waiting_ok_def
      split: option.splits sum.splits)

lemma step_inv:
  assumes "clients_inv w" and "task_inv w" and "calm_event w e"
  shows "clients_inv (widget_step order e w) \<and> task_inv (widget_step order e w)"
proof (cases e)
  case Pointer_entered
  then show ?thesis using ensure_only_inv [OF assms(1,2), of "fst (ensureClient w)" "snd (ensureClient w)"] by simp
next
  case (Configuration_answered n answer)
  then show ?thesis using assms start_failed_inv loaded_inv by (cases answer) simp_all
next
  case (Start_settled n result)
  then show ?thesis using assms start_succeeded_inv by (cases result) simp_all
next
  case (Conversation_answered answer)
  then have "creating w \<Longrightarrow> sw_task w \<noteq> None" by (auto simp: creating_def split: option.splits)
  then show ?thesis
    using assms Conversation_answered conversation_inv task_failed_task by (cases answer) simp_all
next
  case (Command_settled result)
  then have "sending_command w \<Longrightarrow> sw_task w \<noteq> None" by (auto simp: sending_command_def split: option.splits)
  then show ?thesis using assms Command_settled command_inv task_failed_task by (cases result) simp_all
next
  case (Notified k st)
  then show ?thesis
    using assms by (auto simp: notified_def Let_def clients_inv_def task_inv_def updateStatusFromState_def)
qed (use assms opened_inv submit_inv mail_inv cleared_inv disconnected_inv
    in \<open>auto simp: clear_disabled_def clients_inv_def task_inv_def split: option.split\<close>)

lemma run_inv:
  "calm_run order es w \<Longrightarrow> clients_inv w \<Longrightarrow> task_inv w \<Longrightarrow>
     clients_inv (widget_run order es w) \<and> task_inv (widget_run order es w)"
proof (induction es arbitrary: w)
  case (Cons e es)
  then show ?case using step_inv [of w e order] by (simp add: widget_run_def)
qed (simp add: widget_run_def)


subsection \<open>A widget that no longer hears its client\<close>

text \<open>The widget has a client that does not tell it of states, and nothing will replace it.\<close>

definition deaf :: "nat \<Rightarrow> site_widget \<Rightarrow> bool" where
  "deaf k w \<longleftrightarrow> sw_client w = Some k \<and> sw_starting w = [] \<and> sw_listening w = []"

lemma deaf_ensure: "deaf k w \<Longrightarrow> ensureClient w = (Inl k, w)"
  by (simp add: deaf_def ensureClient_def)

definition hearing_part where
  "hearing_part w = (sw_client w, sw_starting w, sw_listening w, sw_state w)"

lemma settled_hearing [simp]: "hearing_part (task_done w) = hearing_part w" "hearing_part (call_client k c t w) = hearing_part w"
    "hearing_part (task_failed e w) = hearing_part w"
    "hearing_part (submit_with_client k s w) = hearing_part w" "hearing_part (mail_with_client k s w) = hearing_part w"
    "hearing_part (reporting f w) = hearing_part w" "hearing_part (report rs w) = hearing_part w"
    "hearing_part (updateStatusFromState st w) = hearing_part w"
  by (simp_all add: hearing_part_def task_done_def call_client_def task_failed_def submit_with_client_def
      mail_with_client_def updateStatusFromState_def split: option.split widget_task.split)

lemma deaf_step:
  assumes "deaf k w" and "e \<noteq> Cleared"
  shows "hearing_part (widget_step order e w) = hearing_part w"
proof -
  have ensure: "ensureClient v = (Inl k, v)" if "hearing_part v = hearing_part w" for v
    using assms(1) that by (intro deaf_ensure) (simp add: deaf_def hearing_part_def)
  have updates: "hearing_part (w\<lparr>sw_busy := b, sw_notice := n, sw_status := st\<rparr>) = hearing_part w"
      "hearing_part (w\<lparr>sw_busy := b, sw_mailStatus := st\<rparr>) = hearing_part w"
      "hearing_part (w\<lparr>sw_page := p\<rparr>) = hearing_part w" for b n st p
    by (simp_all add: hearing_part_def)
  show ?thesis
  proof (cases e)
    case Submitted
    then show ?thesis using ensure [OF updates(1)] updates(1) by (simp add: submit_def Let_def)
  next
    case Mail_submitted
    then show ?thesis
      using ensure [OF updates(2)] updates(2) by (simp add: mailConversation_def Let_def) (simp add: hearing_part_def)
  next
    case Opened
    then show ?thesis using ensure [OF updates(3)] updates(3) by (simp add: opened_def Let_def)
  next
    case Pointer_entered
    then show ?thesis using deaf_ensure [OF assms(1)] by simp
  next
    case (Notified m s)
    then show ?thesis using assms(1) by (simp add: notified_def deaf_def hearing_part_def Let_def)
  next
    case (Conversation_answered answer)
    then show ?thesis
      by (cases answer) (simp_all add: conversation_created_def split: option.split widget_task.split)
  next
    case (Command_settled result)
    then show ?thesis
      by (cases result) (simp_all add: command_answered_def split: option.split widget_task.split,
        simp_all add: hearing_part_def)
  qed (use assms in \<open>auto simp: deaf_def hearing_part_def disconnected_def destroy_client_def unsubscribe_widget_def
      split: option.split\<close>)
qed

lemma deaf_run:
  assumes "deaf k w" and "Cleared \<notin> set es"
  shows "hearing_part (widget_run order es w) = hearing_part w"
  using assms
proof (induction es arbitrary: w)
  case (Cons e es)
  have "e \<noteq> Cleared" using Cons.prems(2) by auto
  note step = deaf_step [OF Cons.prems(1) this, of order]
  have "deaf k (widget_step order e w)"
    using step Cons.prems(1) by (simp add: deaf_def hearing_part_def)
  then show ?case using Cons.IH [of "widget_step order e w"] step Cons.prems(2) by (simp add: widget_run_def)
qed (simp add: widget_run_def)

text \<open>
  C26: clearing the chat while it starts does not clear it. The client that was on its way becomes the widget's
  client and its conversation is shown again; and since clearing has ended the widget's subscription, nothing
  that this client learns is shown any more: whatever happens until the chat is cleared again, the widget
  shows that same state.
\<close>

theorem cleared_chat_returns:
  assumes "sw_starting w = [(n, Starting_client)]" and "sw_client w = None" and "sw_unsubscribe w = Some n"
    and "sw_listening w = [n]" and "\<not> sw_busy w" and "sw_task w = None" and "n \<notin> set (sw_destroyed w)"
    and "Cleared \<notin> set es"
    and "w' = widget_run order ([Cleared, Start_settled n (Inr ())] @ es) w"
  shows "sw_client w' = Some n \<and> sw_state w' = Some (sw_getState w n) \<and> sw_listening w' = []"
proof -
  define w1 where "w1 = widget_run order [Cleared, Start_settled n (Inr ())] w"
  have "sw_client w1 = Some n \<and> sw_starting w1 = [] \<and> sw_listening w1 = [] \<and> sw_state w1 = Some (sw_getState w n)"
    using assms(1-6)
    by (simp add: w1_def widget_run_def clear_disabled_def clear_widget_def unsubscribe_widget_def destroy_client_def
        start_succeeded_def client_ready_def Let_def)
  moreover have "w' = widget_run order es w1" by (simp add: assms(9) w1_def widget_run_def)
  ultimately show ?thesis
    using deaf_run [OF _ assms(8), of n w1 order] by (simp add: deaf_def hearing_part_def)
qed

text \<open>An element that is moved in its page leaves it and comes back: its client is destroyed, and stays its client.\<close>

lemma moved_widget_deaf:
  assumes "sw_client w = Some k" and "sw_starting w = []" and "sw_listening w = [k]" and "Cleared \<notin> set es"
    and "w' = widget_run order (Disconnected # es) w"
  shows "sw_client w' = Some k \<and> k \<in> set (sw_destroyed (disconnected w)) \<and> sw_state w' = sw_state w \<and> sw_listening w' = []"
proof -
  have "deaf k (disconnected w)" "k \<in> set (sw_destroyed (disconnected w))" "sw_state (disconnected w) = sw_state w"
    using assms(1-3) by (simp_all add: deaf_def disconnected_def destroy_client_def unsubscribe_widget_def)
  then show ?thesis
    using deaf_run [OF _ assms(4), of k "disconnected w" order] assms(5) by (simp add: widget_run_def deaf_def hearing_part_def)
qed

text \<open>A client whose start failed goes on telling the widget of its states, beside the one that replaces it.\<close>

lemma failed_client_still_heard:
  assumes "sw_starting w = [(n, Starting_client)]" and "sw_client w = None" and "sw_listening w = [n]"
    and "sw_starts w = Suc n" and "\<not> sw_busy w" and "sw_task w = None"
    and "w' = widget_run order [Start_settled n (Inl e), Pointer_entered, Configuration_answered (Suc n) (Inr c)] w"
  shows "sw_listening w' = [n, Suc n] \<and> sw_destroyed w' = sw_destroyed w"
  using assms
  by (simp add: widget_run_def start_failed_def awaits_start_def ensureClient_def configuration_loaded_def Let_def)

subsection \<open>A concrete visit\<close>

definition sample_widget_settings :: widget_configuration where
  "sample_widget_settings = \<lparr>vc_widgetKey = ''main'', vc_siteKey = ''key'', vc_agent = ''support'',
     vc_agentLabel = ''Support'', vc_emailHandoff = False, vc_theme = ''blue'', vc_analytics = False\<rparr>"

definition starting_visit :: "element_event list" where
  "starting_visit = [Opened, Configuration_answered 0 (Inr sample_widget_settings)]"

definition starting_element :: site_widget where
  "starting_element = widget_run [] starting_visit (new_widget_element None Map.empty)"

lemma starting_element_fields:
  "sw_starting starting_element = [(0, Starting_client)]" "sw_client starting_element = None"
  "sw_unsubscribe starting_element = Some 0" "sw_listening starting_element = [0]" "\<not> sw_busy starting_element"
  "sw_task starting_element = None" "sw_destroyed starting_element = []"
  "sw_getState starting_element 0 = initialChatState"
  by (simp_all add: starting_element_def starting_visit_def widget_run_def new_widget_element_def opened_def
      ensureClient_def configuration_loaded_def Let_def sample_widget_settings_def)


lemma cleared_chat_returns_witness:
  "sw_state (widget_run [] [Cleared, Start_settled 0 (Inr ()), Notified 0 initialChatState] starting_element)
     = Some initialChatState
   \<and> sw_listening (widget_run [] [Cleared, Start_settled 0 (Inr ()), Notified 0 initialChatState] starting_element) = []"
proof -
  have "0 \<notin> set (sw_destroyed starting_element)" by (simp add: starting_element_fields(7))
  moreover have "Cleared \<notin> set [Notified 0 initialChatState]" by simp
  moreover have "[Cleared, Start_settled 0 (Inr ())] @ [Notified 0 initialChatState]
      = [Cleared, Start_settled 0 (Inr ()), Notified 0 initialChatState]" by simp
  ultimately show ?thesis
    using cleared_chat_returns [OF starting_element_fields(1-6) _ _ refl, of "[Notified 0 initialChatState]" "[]"]
    by (simp only: starting_element_fields(8) simp_thms)
qed

end
