(* ===== verification/AdminCursor.thy ===== *)
theory AdminCursor
  imports Conversation
begin

text \<open>
  \<open>admin/cursor.ts\<close> and the part the admin listings share: a cursor names the kind of listing it
  belongs to, and the listings by time all query the rows after the cursor's time and identifier,
  newest first. \<open>time_listing\<close> is that query with its page; the interpretation of
  \<open>keyset_listing\<close> holds for every table and filter.
\<close>

datatype cursor_kind = Cur_conversation | Cur_message | Cur_event | Cur_run | Cur_failure | Cur_handoff

fun kind_text :: "cursor_kind \<Rightarrow> string" where
  "kind_text Cur_conversation = ''conversation''"
| "kind_text Cur_message = ''message''"
| "kind_text Cur_event = ''event''"
| "kind_text Cur_run = ''run''"
| "kind_text Cur_failure = ''failure''"
| "kind_text Cur_handoff = ''handoff''"

definition encode_cursor :: "json \<Rightarrow> string" where
  "encode_cursor value = to_base64url (stringify value)"

definition decode_cursor :: "string \<Rightarrow> json option" where
  "decode_cursor value = Option.bind (from_base64url value) json_parse"

definition encodeTimeCursor :: "(js_date \<Rightarrow> string) \<Rightarrow> cursor_kind \<Rightarrow> js_date \<Rightarrow> ident \<Rightarrow> string" where
  "encodeTimeCursor iso_text kind timestamp cid =
     encode_cursor (JArray [JString (kind_text kind), JString (iso_text timestamp), JString cid])"

definition decodeTimeCursor ::
  "(string \<Rightarrow> js_date option) \<Rightarrow> cursor_kind \<Rightarrow> string \<Rightarrow> (string \<times> ident) option" where
  "decodeTimeCursor date_parse kind value =
     (case decode_cursor value of
        Some (JArray [JString k, JString timestamp, JString cid]) \<Rightarrow>
          if k = kind_text kind \<and> date_parse timestamp \<noteq> None \<and> cid \<noteq> []
          then Some (timestamp, cid) else None
      | _ \<Rightarrow> None)"

definition encodeSequenceCursor :: "cursor_kind \<Rightarrow> int \<Rightarrow> string" where
  "encodeSequenceCursor kind sequence =
     encode_cursor (JArray [JString (kind_text kind), JNumber sequence])"

definition decodeSequenceCursor :: "cursor_kind \<Rightarrow> string \<Rightarrow> int option" where
  "decodeSequenceCursor kind value =
     (case decode_cursor value of
        Some (JArray [JString k, JNumber n]) \<Rightarrow>
          if k = kind_text kind \<and> \<bar>n\<bar> \<le> max_safe_integer \<and> 1 \<le> n then Some n else None
      | _ \<Rightarrow> None)"

subsection \<open>Reading back\<close>

lemma kind_text_inj [simp]: "kind_text a = kind_text b \<longleftrightarrow> a = b"
  by (cases a; cases b) auto

lemma decode_encode_cursor [simp]: "no_fraction v \<Longrightarrow> decode_cursor (encode_cursor v) = Some v"
  by (simp add: decode_cursor_def encode_cursor_def json_parse_stringify_gen)

lemma decode_time_cursor:
  "decodeTimeCursor date_parse kind (encodeTimeCursor iso_text kind' t cid)
   = (if kind' = kind \<and> date_parse (iso_text t) \<noteq> None \<and> cid \<noteq> [] then Some (iso_text t, cid) else None)"
  by (simp add: decodeTimeCursor_def encodeTimeCursor_def)

lemma decode_sequence_cursor:
  "decodeSequenceCursor kind (encodeSequenceCursor kind' n)
   = (if kind' = kind \<and> 1 \<le> n \<and> n \<le> max_safe_integer then Some n else None)"
  by (auto simp: decodeSequenceCursor_def encodeSequenceCursor_def)

lemma decode_cursor_mixed:
  "decodeTimeCursor date_parse kind (encodeSequenceCursor kind' n) = None"
  "decodeSequenceCursor kind (encodeTimeCursor iso_text kind' t cid) = None"
  by (simp_all add: decodeTimeCursor_def encodeSequenceCursor_def decodeSequenceCursor_def
      encodeTimeCursor_def)

lemma encode_time_nonempty [simp]: "encodeTimeCursor iso_text kind t cid \<noteq> []"
  by (simp add: encodeTimeCursor_def encode_cursor_def base64url_nonempty)

subsection \<open>A listing by time\<close>

text \<open>
  \<open>time\<close> and \<open>name\<close> are the columns the listing is ordered by; \<open>rows\<close> what its filters leave.
\<close>

definition after_cursor :: "('r \<Rightarrow> pg_time) \<Rightarrow> ('r \<Rightarrow> ident) \<Rightarrow> (js_date \<times> ident) option \<Rightarrow> 'r \<Rightarrow> bool" where
  "after_cursor time name cursor r =
     (case cursor of
        None \<Rightarrow> True
      | Some (timestamp, i) \<Rightarrow> time r < to_pg timestamp \<or> time r = to_pg timestamp \<and> name r < i)"

definition time_query ::
  "('r \<Rightarrow> pg_time) \<Rightarrow> ('r \<Rightarrow> ident) \<Rightarrow> (js_date \<times> ident) option \<Rightarrow> 'r list \<Rightarrow> 'r list" where
  "time_query time name cursor rows =
     order_desc (\<lambda>r. Page_key (time r) (name r)) (filter (after_cursor time name cursor) rows)"

definition time_cursor_of ::
  "(string \<Rightarrow> js_date option) \<Rightarrow> cursor_kind \<Rightarrow> string option \<Rightarrow> failure + (js_date \<times> ident) option" where
  "time_cursor_of date_parse kind cursor =
     (case cursor of
        None \<Rightarrow> Inr None
      | Some text \<Rightarrow>
          if text = [] then Inr None
          else (case decodeTimeCursor date_parse kind text of
              None \<Rightarrow> Inl (ApiError INVALID_CURSOR 400)
            | Some (timestamp, i) \<Rightarrow> Inr (Some (the (date_parse timestamp), i))))"

definition time_page ::
  "(js_date \<Rightarrow> string) \<Rightarrow> cursor_kind \<Rightarrow> ('r \<Rightarrow> pg_time) \<Rightarrow> ('r \<Rightarrow> ident) \<Rightarrow> nat
    \<Rightarrow> (js_date \<times> ident) option \<Rightarrow> 'r list \<Rightarrow> 'r list \<times> string option" where
  "time_page iso_text kind time name limit cursor rows =
     (let (page, tail) = page_of limit (time_query time name cursor rows)
      in (page, map_option (\<lambda>r. encodeTimeCursor iso_text kind (to_js (time r)) (name r)) tail))"

definition time_listing ::
  "(js_date \<Rightarrow> string) \<Rightarrow> (string \<Rightarrow> js_date option) \<Rightarrow> cursor_kind \<Rightarrow> ('r \<Rightarrow> pg_time) \<Rightarrow> ('r \<Rightarrow> ident)
    \<Rightarrow> nat \<Rightarrow> string option \<Rightarrow> 'r list \<Rightarrow> failure + ('r list \<times> string option)" where
  "time_listing iso_text date_parse kind time name limit cursor rows =
     and_then (time_cursor_of date_parse kind cursor) (\<lambda>c.
       Inr (time_page iso_text kind time name limit c rows))"

lemma set_time_query [simp]: "set (time_query time name None rows) = set rows"
  by (auto simp: time_query_def after_cursor_def)

lemma set_time_page: "set (fst (time_page iso_text kind time name limit cursor rows)) \<subseteq> set rows"
  by (auto simp: time_page_def page_of_def time_query_def Let_def dest!: in_set_takeD)

lemma length_time_page: "length (fst (time_page iso_text kind time name limit cursor rows)) \<le> limit"
  by (simp add: time_page_def page_of_def Let_def)

lemma length_time_query: "length (time_query time name cursor rows) \<le> length rows"
  by (simp add: time_query_def)

lemma time_query_after:
  "time_query time name (Some (timestamp, i)) rows
   = filter (\<lambda>r. Page_key (time r) (name r) < Page_key (to_pg timestamp) i) (time_query time name None rows)"
  by (simp add: time_query_def after_cursor_def [abs_def] order_desc_filter)

lemma time_query_strict:
  assumes "distinct (map name rows)"
  shows "sorted_wrt (>) (map (\<lambda>r. Page_key (time r) (name r)) (time_query time name None rows))"
proof -
  have "distinct (map (\<lambda>r. Page_key (time r) (name r)) rows)"
    using assms by (auto simp: distinct_map inj_on_def)
  then show ?thesis by (auto simp: time_query_def after_cursor_def intro!: strict_order_desc distinct_map_filter)
qed

text \<open>
  What following the cursors needs: names of their own, times that are whole milliseconds, and a
  host that reads back the times it writes. \<open>'r listing\<close> is a listing's columns, rows and limit.
\<close>

record 'r listing =
  ls_kind :: cursor_kind
  ls_time :: "'r \<Rightarrow> pg_time"
  ls_name :: "'r \<Rightarrow> ident"
  ls_rows :: "'r list"
  ls_limit :: nat

definition ls_all :: "'r listing \<Rightarrow> 'r list" where
  "ls_all l = time_query (ls_time l) (ls_name l) None (ls_rows l)"

definition ls_fetch ::
  "(js_date \<Rightarrow> string) \<Rightarrow> (string \<Rightarrow> js_date option) \<Rightarrow> 'r listing \<Rightarrow> string option
    \<Rightarrow> failure + ('r list \<times> string option)" where
  "ls_fetch iso_text date_parse l cursor =
     time_listing iso_text date_parse (ls_kind l) (ls_time l) (ls_name l) (ls_limit l) cursor (ls_rows l)"

definition ls_cursor :: "(js_date \<Rightarrow> string) \<Rightarrow> 'r listing \<Rightarrow> nat \<Rightarrow> string" where
  "ls_cursor iso_text l n = encodeTimeCursor iso_text (ls_kind l)
     (to_js (ls_time l (ls_all l ! n))) (ls_name l (ls_all l ! n))"

definition ls_ok :: "(js_date \<Rightarrow> string) \<Rightarrow> (string \<Rightarrow> js_date option) \<Rightarrow> 'r listing \<Rightarrow> bool" where
  "ls_ok iso_text date_parse l \<longleftrightarrow> 0 < ls_limit l \<and> distinct (map (ls_name l) (ls_rows l))
     \<and> list_all (\<lambda>r. whole_ms (ls_time l r) \<and> ls_name l r \<noteq> []) (ls_rows l)
     \<and> (\<forall>t. date_parse (iso_text t) = Some t)"

lemma ls_fetch_page:
  assumes "0 < ls_limit l" and "time_cursor_of date_parse (ls_kind l) cursor = Inr c"
    and "time_query (ls_time l) (ls_name l) c (ls_rows l) = drop n (ls_all l)"
  shows "ls_fetch iso_text date_parse l cursor =
     Inr (take (ls_limit l) (drop n (ls_all l)),
          if n + ls_limit l < length (ls_all l) then Some (ls_cursor iso_text l (n + ls_limit l - 1)) else None)"
  by (simp add: ls_fetch_def time_listing_def assms(2,3) time_page_def page_of_drop [OF assms(1)] ls_cursor_def)

lemma ls_next:
  assumes "ls_ok iso_text date_parse l" and "n < length (ls_all l)"
  shows "\<exists>c. time_cursor_of date_parse (ls_kind l) (Some (ls_cursor iso_text l n)) = Inr c
     \<and> time_query (ls_time l) (ls_name l) c (ls_rows l) = drop (Suc n) (ls_all l)"
proof -
  let ?r = "ls_all l ! n"
  have "?r \<in> set (ls_rows l)" using assms(2) by (metis ls_all_def nth_mem set_time_query)
  then have ok: "whole_ms (ls_time l ?r)" "ls_name l ?r \<noteq> []" "date_parse (iso_text t) = Some t" for t
    using assms(1) by (auto simp: ls_ok_def list_all_iff)
  have sorted: "sorted_wrt (>) (map (\<lambda>r. Page_key (ls_time l r) (ls_name l r)) (ls_all l))"
    unfolding ls_all_def using assms(1) by (intro time_query_strict) (simp add: ls_ok_def)
  have "time_query (ls_time l) (ls_name l) (Some (to_js (ls_time l ?r), ls_name l ?r)) (ls_rows l)
      = drop (Suc n) (ls_all l)"
    unfolding time_query_after ls_all_def [symmetric]
    using filter_strict_desc_drop [OF sorted assms(2)] ok(1) by (simp add: whole_ms_def)
  moreover have "time_cursor_of date_parse (ls_kind l) (Some (ls_cursor iso_text l n))
      = Inr (Some (to_js (ls_time l ?r), ls_name l ?r))"
    using ok by (simp add: time_cursor_of_def ls_cursor_def decode_time_cursor)
  ultimately show ?thesis by blast
qed

interpretation time_listings: keyset_listing "ls_fetch iso_text date_parse" ls_all "ls_cursor iso_text"
  ls_limit "ls_ok iso_text date_parse"
  for iso_text date_parse
proof (unfold_locales, goal_cases)
  case (1 s)
  then show ?case by (simp add: ls_ok_def)
next
  case (2 s)
  then show ?case
    using ls_fetch_page [of s date_parse None None 0 iso_text]
    by (simp add: ls_ok_def time_cursor_of_def ls_all_def)
next
  case (3 s n)
  then obtain c where "time_cursor_of date_parse (ls_kind s) (Some (ls_cursor iso_text s n)) = Inr c"
    "time_query (ls_time s) (ls_name s) c (ls_rows s) = drop (Suc n) (ls_all s)"
    using ls_next by blast
  then show ?case
    using ls_fetch_page [of s date_parse "Some (ls_cursor iso_text s n)" c "Suc n" iso_text] 3(1)
    by (simp add: ls_ok_def)
qed

text \<open>Pages whose rows are rendered: following them is following the rows.\<close>

definition rendered :: "('r \<Rightarrow> 'v) \<Rightarrow> ('c \<Rightarrow> failure + ('r list \<times> 'k)) \<Rightarrow> 'c \<Rightarrow> failure + ('v list \<times> 'k)" where
  "rendered g fetch c = and_then (fetch c) (\<lambda>(page, k). Inr (map g page, k))"

lemma follow_rendered:
  "follow (rendered g fetch) n c = and_then (follow fetch n c) (\<lambda>rows. Inr (map g rows))"
proof (induction n arbitrary: c)
  case (Suc n)
  have step: "rendered g fetch c = and_then (fetch c) (\<lambda>(page, k). Inr (map g page, k))"
    by (simp add: rendered_def)
  show ?case
  proof (cases "fetch c")
    case (Inr x)
    obtain page k where x: "x = (page, k)" by (cases x)
    show ?thesis
    proof (cases k)
      case (Some c')
      then show ?thesis by (cases "follow fetch n (Some c')") (simp_all add: Inr x step Suc.IH)
    qed (simp add: Inr x step)
  qed (simp add: step)
qed simp

end
