(* ===== verification/AdminQuery.thy ===== *)
theory AdminQuery
  imports AdminCursor Message EventStore Text "HOL-Library.Product_Lexorder" "HOL-Library.Multiset"
begin

text \<open>
  \<open>admin/service.ts\<close>: the read-only queries of the operators' dashboard. Every query is scoped by
  the tenant of the token; events of internal visibility need the scope \<open>admin:internal\<close>.

  The columns sorted by the database's collation (display names) are compared by the keys
  \<open>collate\<close>, a parameter. \<open>iso_text\<close> and \<open>date_parse\<close> are \<open>toISOString\<close> and \<open>Date.parse\<close>; a date of a
  filter that the host cannot read becomes an invalid parameter of the query.
\<close>

datatype admin_access = Admin_read | Admin_internal

record admin_scope =
  as_tenantId :: ident
  as_scopes :: "admin_access list"

record 'st admin_filter =
  af_siteId :: "ident option"
  af_agentRef :: "ident option"
  af_status :: "'st option"
  af_createdAfter :: "string option"
  af_createdBefore :: "string option"
  af_cursor :: "string option"
  af_limit :: nat

subsection \<open>Filters\<close>

definition validateFilter :: "(string \<Rightarrow> js_date option) \<Rightarrow> 'st admin_filter \<Rightarrow> failure + unit" where
  "validateFilter date_parse f =
     (case (Option.bind (truthy (af_createdAfter f)) date_parse,
            Option.bind (truthy (af_createdBefore f)) date_parse) of
        (Some after, Some before) \<Rightarrow>
          if before \<le> after then Inl (ApiError INVALID_DATE_RANGE 400) else Inr ()
      | _ \<Rightarrow> Inr ())"

definition readable_date :: "(string \<Rightarrow> js_date option) \<Rightarrow> string option \<Rightarrow> bool" where
  "readable_date date_parse date \<longleftrightarrow> opt_ok (\<lambda>t. date_parse t \<noteq> None) (truthy date)"

definition created_within :: "(string \<Rightarrow> js_date option) \<Rightarrow> 'st admin_filter \<Rightarrow> pg_time \<Rightarrow> bool" where
  "created_within date_parse f created \<longleftrightarrow>
     opt_ok (\<lambda>t. to_pg t \<le> created) (Option.bind (truthy (af_createdAfter f)) date_parse)
     \<and> opt_ok (\<lambda>t. created < to_pg t) (Option.bind (truthy (af_createdBefore f)) date_parse)"

definition matches :: "ident option \<Rightarrow> ident \<Rightarrow> bool" where
  "matches wanted value \<longleftrightarrow> opt_ok (\<lambda>w. value = w) (truthy wanted)"

definition has_status :: "'st option \<Rightarrow> 'st \<Rightarrow> bool" where
  "has_status wanted status \<longleftrightarrow> opt_ok (\<lambda>w. status = w) wanted"

text \<open>The checks before a listing's query, and the query's page.\<close>

definition admin_listing ::
  "(js_date \<Rightarrow> string) \<Rightarrow> (string \<Rightarrow> js_date option) \<Rightarrow> cursor_kind \<Rightarrow> ('r \<Rightarrow> pg_time) \<Rightarrow> ('r \<Rightarrow> ident)
    \<Rightarrow> 'st admin_filter \<Rightarrow> 'r list \<Rightarrow> failure + ('r list \<times> string option)" where
  "admin_listing iso_text date_parse kind time name f rows =
     and_then (validateFilter date_parse f) (\<lambda>_.
     and_then (time_cursor_of date_parse kind (af_cursor f)) (\<lambda>cursor.
       if readable_date date_parse (af_createdAfter f) \<and> readable_date date_parse (af_createdBefore f)
       then Inr (time_page iso_text kind time name (af_limit f) cursor rows)
       else Inl Unexpected))"

subsection \<open>Conversations\<close>

definition scopedConversation :: "'a admin_scope_scheme \<Rightarrow> ident \<Rightarrow> db \<Rightarrow> failure + conversation_row" where
  "scopedConversation scope conversationId d =
     (case find (\<lambda>c. c_tenant_id c = as_tenantId scope \<and> c_conversation_id c = conversationId)
           (conversations d) of
        None \<Rightarrow> Inl (ApiError NOT_FOUND 404)
      | Some row \<Rightarrow> Inr row)"

text \<open>The groups of the map, by conversation.\<close>

definition participantsFor ::
  "'a admin_scope_scheme \<Rightarrow> ident list \<Rightarrow> db \<Rightarrow> ident \<Rightarrow> participant_row list" where
  "participantsFor scope conversationIds d conversationId =
     filter (\<lambda>p. cp_conversation_id p = conversationId)
       (order_asc cp_created_at (filter (\<lambda>p. cp_tenant_id p = as_tenantId scope
           \<and> cp_conversation_id p \<in> set conversationIds) (conversation_participants d)))"

definition map_admin_conversation :: "conversation_row \<Rightarrow> participant_row list \<Rightarrow> conversation" where
  "map_admin_conversation row participants =
     \<lparr>co_conversationId = c_conversation_id row, co_tenantId = c_tenant_id row,
      co_siteId = c_site_id row, co_principalId = c_principal_id row, co_agentRef = c_agent_ref row,
      co_status = c_status row, co_participants = map map_participant participants,
      co_createdAt = to_js (c_created_at row), co_updatedAt = to_js (c_updated_at row)\<rparr>"

text \<open>\<open>text.replaceAll(/\s+/g, ' ')\<close>\<close>

fun squeeze :: "string \<Rightarrow> string" where
  "squeeze [] = []"
| "squeeze (c # cs) =
     (if js_space c then
        (if cs \<noteq> [] \<and> js_space (hd cs) then squeeze cs else CHR '' '' # squeeze cs)
      else c # squeeze cs)"

fun first_text :: "content_part list \<Rightarrow> string option" where
  "first_text [] = None"
| "first_text (TextPart t # _) = Some t"
| "first_text (_ # ps) = first_text ps"

definition preview_of :: "content_part list \<Rightarrow> string option" where
  "preview_of parts =
     (case truthy (first_text parts) of
        None \<Rightarrow> None
      | Some text \<Rightarrow> truthy (Some (take 500 (trim (squeeze text)))))"

fun first_preview :: "content_part list list \<Rightarrow> string option" where
  "first_preview [] = None"
| "first_preview (ps # rest) = (case preview_of ps of Some p \<Rightarrow> Some p | None \<Rightarrow> first_preview rest)"

definition firstUserMessagePreviews ::
  "'a admin_scope_scheme \<Rightarrow> ident list \<Rightarrow> db \<Rightarrow> ident \<Rightarrow> string option" where
  "firstUserMessagePreviews scope conversationIds d conversationId =
     first_preview (map m_parts (filter (\<lambda>m. m_conversation_id m = conversationId)
       (order_asc m_sequence (filter (\<lambda>m. m_tenant_id m = as_tenantId scope
           \<and> m_conversation_id m \<in> set conversationIds \<and> m_role m = Role_user) (messages d)))))"

definition admin_conversation_rows ::
  "(string \<Rightarrow> js_date option) \<Rightarrow> 'a admin_scope_scheme \<Rightarrow> conversation_status admin_filter \<Rightarrow> db
    \<Rightarrow> conversation_row list" where
  "admin_conversation_rows date_parse scope f d =
     filter (\<lambda>c. c_tenant_id c = as_tenantId scope \<and> matches (af_siteId f) (c_site_id c)
         \<and> matches (af_agentRef f) (c_agent_ref c) \<and> has_status (af_status f) (c_status c)
         \<and> created_within date_parse f (c_created_at c)) (conversations d)"

definition admin_conversations ::
  "(js_date \<Rightarrow> string) \<Rightarrow> (string \<Rightarrow> js_date option) \<Rightarrow> 'a admin_scope_scheme
    \<Rightarrow> conversation_status admin_filter \<Rightarrow> db
    \<Rightarrow> failure + ((conversation \<times> string option) list \<times> string option)" where
  "admin_conversations iso_text date_parse scope f d =
     and_then (admin_listing iso_text date_parse Cur_conversation c_updated_at c_conversation_id f
         (admin_conversation_rows date_parse scope f d)) (\<lambda>(page, cursor).
       let ids = map c_conversation_id page
       in Inr (map (\<lambda>row. (map_admin_conversation row (participantsFor scope ids d (c_conversation_id row)),
                firstUserMessagePreviews scope ids d (c_conversation_id row))) page, cursor))"

definition admin_conversation ::
  "'a admin_scope_scheme \<Rightarrow> ident \<Rightarrow> db \<Rightarrow> failure + conversation" where
  "admin_conversation scope conversationId d =
     and_then (scopedConversation scope conversationId d) (\<lambda>row.
       Inr (map_admin_conversation row (participantsFor scope [conversationId] d conversationId)))"

subsection \<open>Messages and events of a conversation\<close>

definition sequence_cursor_of :: "cursor_kind \<Rightarrow> string option \<Rightarrow> failure + int option" where
  "sequence_cursor_of kind cursor =
     (case truthy cursor of
        None \<Rightarrow> Inr None
      | Some text \<Rightarrow>
          (case decodeSequenceCursor kind text of
             None \<Rightarrow> Inl (ApiError INVALID_CURSOR 400)
           | Some n \<Rightarrow> if int4_max < n then Inl Unexpected else Inr (Some n)))"

definition sequence_page ::
  "cursor_kind \<Rightarrow> ('r \<Rightarrow> int) \<Rightarrow> nat \<Rightarrow> int option \<Rightarrow> 'r list \<Rightarrow> 'r list \<times> string option" where
  "sequence_page kind seq limit cursor rows =
     (let (page, tail) = page_of limit (order_asc seq (filter (\<lambda>r. opt_ok (\<lambda>n. n < seq r) cursor) rows))
      in (page, map_option (\<lambda>r. encodeSequenceCursor kind (seq r)) tail))"

definition admin_messages ::
  "'a admin_scope_scheme \<Rightarrow> ident \<Rightarrow> nat \<Rightarrow> string option \<Rightarrow> db
    \<Rightarrow> failure + (message list \<times> string option)" where
  "admin_messages scope conversationId limit cursor d =
     and_then (scopedConversation scope conversationId d) (\<lambda>_.
     and_then (sequence_cursor_of Cur_message cursor) (\<lambda>c.
       let (page, next_cursor) = sequence_page Cur_message m_sequence limit c
             (filter (\<lambda>m. m_tenant_id m = as_tenantId scope \<and> m_conversation_id m = conversationId)
               (messages d))
       in Inr (map mapMessage page, next_cursor)))"

definition mapEvent :: "event_row \<Rightarrow> conversation_event" where
  "mapEvent row =
     \<lparr>ev_eventId = e_event_id row, ev_sequence = e_sequence row, ev_occurredAt = to_js (e_occurred_at row),
      ev_visibility = e_visibility row, ev_conversationId = e_conversation_id row,
      ev_runId = truthy (e_run_id row), ev_messageId = truthy (e_message_id row), ev_data = e_data row\<rparr>"

definition admin_event_rows :: "'a admin_scope_scheme \<Rightarrow> ident \<Rightarrow> db \<Rightarrow> event_row list" where
  "admin_event_rows scope conversationId d =
     filter (\<lambda>e. e_tenant_id e = as_tenantId scope \<and> e_conversation_id e = conversationId
         \<and> (Admin_internal \<in> set (as_scopes scope) \<or> e_visibility e = Public \<or> e_visibility e = Operator))
       (conversation_events d)"

definition admin_events ::
  "'a admin_scope_scheme \<Rightarrow> ident \<Rightarrow> nat \<Rightarrow> string option \<Rightarrow> db
    \<Rightarrow> failure + (conversation_event list \<times> string option)" where
  "admin_events scope conversationId limit cursor d =
     and_then (scopedConversation scope conversationId d) (\<lambda>_.
     and_then (sequence_cursor_of Cur_event cursor) (\<lambda>c.
       let (page, next_cursor) = sequence_page Cur_event e_sequence limit c
             (admin_event_rows scope conversationId d)
       in Inr (map mapEvent page, next_cursor)))"

subsection \<open>Runs, failures and handoffs\<close>

record admin_run =
  ar_runId :: ident
  ar_tenantId :: ident
  ar_siteId :: ident
  ar_conversationId :: ident
  ar_userMessageId :: ident
  ar_assistantMessageId :: ident
  ar_agentRef :: ident
  ar_status :: run_status
  ar_attempt :: int
  ar_errorCode :: "string option"
  ar_createdAt :: js_date
  ar_updatedAt :: js_date
  ar_completedAt :: "js_date option"

definition mapRun :: "run_row \<Rightarrow> admin_run" where
  "mapRun row =
     \<lparr>ar_runId = r_run_id row, ar_tenantId = r_tenant_id row, ar_siteId = r_site_id row,
      ar_conversationId = r_conversation_id row, ar_userMessageId = r_trigger_message_id row,
      ar_assistantMessageId = r_assistant_message_id row, ar_agentRef = r_agent_ref row,
      ar_status = r_status row, ar_attempt = r_attempt row, ar_errorCode = truthy (r_error_code row),
      ar_createdAt = to_js (r_created_at row), ar_updatedAt = to_js (r_updated_at row),
      ar_completedAt = map_option to_js (r_completed_at row)\<rparr>"

definition admin_run_rows ::
  "(string \<Rightarrow> js_date option) \<Rightarrow> 'a admin_scope_scheme \<Rightarrow> run_status admin_filter \<Rightarrow> db \<Rightarrow> run_row list" where
  "admin_run_rows date_parse scope f d =
     filter (\<lambda>r. r_tenant_id r = as_tenantId scope \<and> matches (af_siteId f) (r_site_id r)
         \<and> matches (af_agentRef f) (r_agent_ref r) \<and> has_status (af_status f) (r_status r)
         \<and> created_within date_parse f (r_created_at r)) (agent_runs d)"

definition admin_runs ::
  "(js_date \<Rightarrow> string) \<Rightarrow> (string \<Rightarrow> js_date option) \<Rightarrow> 'a admin_scope_scheme \<Rightarrow> run_status admin_filter
    \<Rightarrow> db \<Rightarrow> failure + (admin_run list \<times> string option)" where
  "admin_runs iso_text date_parse scope f d =
     and_then (admin_listing iso_text date_parse Cur_run r_created_at r_run_id f
         (admin_run_rows date_parse scope f d)) (\<lambda>(page, cursor). Inr (map mapRun page, cursor))"

definition map_failure :: "run_row \<Rightarrow> admin_run" where
  "map_failure row = (mapRun row)\<lparr>ar_status := Run_failed,
     ar_errorCode := Some (case r_error_code row of None \<Rightarrow> ''RUN_FAILED'' | Some code \<Rightarrow> code)\<rparr>"

definition admin_failure_rows ::
  "(string \<Rightarrow> js_date option) \<Rightarrow> 'a admin_scope_scheme \<Rightarrow> unit admin_filter \<Rightarrow> db \<Rightarrow> run_row list" where
  "admin_failure_rows date_parse scope f d =
     filter (\<lambda>r. r_tenant_id r = as_tenantId scope \<and> r_status r = Run_failed
         \<and> matches (af_siteId f) (r_site_id r) \<and> matches (af_agentRef f) (r_agent_ref r)
         \<and> created_within date_parse f (r_created_at r)) (agent_runs d)"

definition admin_failures ::
  "(js_date \<Rightarrow> string) \<Rightarrow> (string \<Rightarrow> js_date option) \<Rightarrow> 'a admin_scope_scheme \<Rightarrow> unit admin_filter
    \<Rightarrow> db \<Rightarrow> failure + (admin_run list \<times> string option)" where
  "admin_failures iso_text date_parse scope f d =
     and_then (admin_listing iso_text date_parse Cur_failure r_created_at r_run_id f
         (admin_failure_rows date_parse scope f d)) (\<lambda>(page, cursor). Inr (map map_failure page, cursor))"

record admin_handoff =
  ah_handoffId :: ident
  ah_tenantId :: ident
  ah_siteId :: ident
  ah_conversationId :: ident
  ah_runId :: ident
  ah_kind :: handoff_kind
  ah_status :: handoff_status
  ah_createdAt :: js_date
  ah_updatedAt :: js_date

definition mapHandoff :: "handoff_row \<Rightarrow> admin_handoff" where
  "mapHandoff row =
     \<lparr>ah_handoffId = h_handoff_id row, ah_tenantId = h_tenant_id row, ah_siteId = h_site_id row,
      ah_conversationId = h_conversation_id row, ah_runId = h_run_id row, ah_kind = h_kind row,
      ah_status = h_status row, ah_createdAt = to_js (h_created_at row),
      ah_updatedAt = to_js (h_updated_at row)\<rparr>"

text \<open>The inner join: a handoff once per run of its identifier.\<close>

definition admin_handoff_rows ::
  "(string \<Rightarrow> js_date option) \<Rightarrow> 'a admin_scope_scheme \<Rightarrow> handoff_status admin_filter \<Rightarrow> db
    \<Rightarrow> handoff_row list" where
  "admin_handoff_rows date_parse scope f d =
     concat (map (\<lambda>h. map (\<lambda>_. h) (filter (\<lambda>r. r_run_id r = h_run_id h
           \<and> h_tenant_id h = as_tenantId scope \<and> matches (af_siteId f) (h_site_id h)
           \<and> matches (af_agentRef f) (r_agent_ref r) \<and> has_status (af_status f) (h_status h)
           \<and> created_within date_parse f (h_created_at h)) (agent_runs d))) (handoffs d))"

definition admin_handoffs ::
  "(js_date \<Rightarrow> string) \<Rightarrow> (string \<Rightarrow> js_date option) \<Rightarrow> 'a admin_scope_scheme \<Rightarrow> handoff_status admin_filter
    \<Rightarrow> db \<Rightarrow> failure + (admin_handoff list \<times> string option)" where
  "admin_handoffs iso_text date_parse scope f d =
     and_then (admin_listing iso_text date_parse Cur_handoff h_created_at h_handoff_id f
         (admin_handoff_rows date_parse scope f d)) (\<lambda>(page, cursor). Inr (map mapHandoff page, cursor))"

subsection \<open>The overview\<close>

record site_stats =
  ss_conversations :: nat
  ss_activeConversations :: nat
  ss_runs :: nat
  ss_failures :: nat
  ss_handoffs :: nat

record admin_widget =
  aw_widgetId :: ident
  aw_widgetKey :: ident
  aw_displayName :: string
  aw_version :: ident
  aw_theme :: ident
  aw_launcher :: ident
  aw_placement :: ident
  aw_defaultAgentAlias :: ident
  aw_agentAliases :: "agent_alias list"
  aw_createdAt :: js_date
  aw_updatedAt :: js_date

record site_overview =
  so_siteId :: ident
  so_displayName :: string
  so_siteKey :: ident
  so_allowedOrigins :: "string list"
  so_agentRef :: ident
  so_widgets :: "admin_widget list"
  so_stats :: site_stats
  so_recentActivityAt :: "js_date option"

record admin_overview =
  ao_tenantId :: ident
  ao_displayName :: string
  ao_sites :: "site_overview list"
  ao_totals :: site_stats

definition mapSiteWidget :: "widget_row \<Rightarrow> admin_widget" where
  "mapSiteWidget row =
     \<lparr>aw_widgetId = w_widget_id row, aw_widgetKey = w_widget_key row, aw_displayName = w_display_name row,
      aw_version = w_version row, aw_theme = w_theme row, aw_launcher = w_launcher row,
      aw_placement = w_placement row, aw_defaultAgentAlias = w_default_agent_alias row,
      aw_agentAliases = w_agent_aliases row, aw_createdAt = to_js (w_created_at row),
      aw_updatedAt = to_js (w_updated_at row)\<rparr>"

definition widgetsForSite ::
  "(string \<Rightarrow> 'k::linorder) \<Rightarrow> 'a admin_scope_scheme \<Rightarrow> ident \<Rightarrow> db \<Rightarrow> admin_widget list" where
  "widgetsForSite collate scope siteId d =
     map mapSiteWidget (order_asc (\<lambda>w. (collate (w_display_name w), w_widget_id w))
       (filter (\<lambda>w. w_tenant_id w = as_tenantId scope \<and> w_site_id w = siteId) (site_widgets d)))"

text \<open>The rows of a table that belong to a site of the tenant.\<close>

definition conversations_at :: "ident \<Rightarrow> ident \<Rightarrow> db \<Rightarrow> conversation_row list" where
  "conversations_at tenant site d =
     filter (\<lambda>c. c_tenant_id c = tenant \<and> c_site_id c = site) (conversations d)"

definition runs_at :: "ident \<Rightarrow> ident \<Rightarrow> db \<Rightarrow> run_row list" where
  "runs_at tenant site d = filter (\<lambda>r. r_tenant_id r = tenant \<and> r_site_id r = site) (agent_runs d)"

definition handoffs_at :: "ident \<Rightarrow> ident \<Rightarrow> db \<Rightarrow> handoff_row list" where
  "handoffs_at tenant site d = filter (\<lambda>h. h_tenant_id h = tenant \<and> h_site_id h = site) (handoffs d)"

definition site_counts :: "'a admin_scope_scheme \<Rightarrow> ident \<Rightarrow> db \<Rightarrow> site_stats" where
  "site_counts scope siteId d =
     (let cs = conversations_at (as_tenantId scope) siteId d; rs = runs_at (as_tenantId scope) siteId d
      in \<lparr>ss_conversations = length cs, ss_activeConversations = count_where (\<lambda>c. c_status c = Conv_active) cs,
          ss_runs = length rs, ss_failures = count_where (\<lambda>r. r_status r = Run_failed) rs,
          ss_handoffs = length (handoffs_at (as_tenantId scope) siteId d)\<rparr>)"

text \<open>\<open>max(updated_at)\<close>, as the driver reads it.\<close>

definition latestDate :: "('r \<Rightarrow> pg_time) \<Rightarrow> 'r list \<Rightarrow> js_date option" where
  "latestDate updated rows = (if rows = [] then None else Some (to_js (Max (set (map updated rows)))))"

definition recentActivity :: "'a admin_scope_scheme \<Rightarrow> ident \<Rightarrow> db \<Rightarrow> js_date option" where
  "recentActivity scope siteId d =
     (let dates = List.map_filter (\<lambda>x. x)
            [latestDate c_updated_at (conversations_at (as_tenantId scope) siteId d),
             latestDate r_updated_at (runs_at (as_tenantId scope) siteId d),
             latestDate h_updated_at (handoffs_at (as_tenantId scope) siteId d)]
      in case order_desc (\<lambda>t. t) dates of [] \<Rightarrow> None | t # _ \<Rightarrow> Some t)"

definition siteOverview ::
  "(string \<Rightarrow> 'k::linorder) \<Rightarrow> 'a admin_scope_scheme \<Rightarrow> db \<Rightarrow> site_row \<Rightarrow> site_overview" where
  "siteOverview collate scope d site =
     \<lparr>so_siteId = s_site_id site, so_displayName = s_display_name site, so_siteKey = s_site_key site,
      so_allowedOrigins = s_allowed_origins site, so_agentRef = s_agent_ref site,
      so_widgets = widgetsForSite collate scope (s_site_id site) d,
      so_stats = site_counts scope (s_site_id site) d,
      so_recentActivityAt = recentActivity scope (s_site_id site) d\<rparr>"

definition add_stats :: "site_stats \<Rightarrow> site_stats \<Rightarrow> site_stats" where
  "add_stats a b =
     \<lparr>ss_conversations = ss_conversations a + ss_conversations b,
      ss_activeConversations = ss_activeConversations a + ss_activeConversations b,
      ss_runs = ss_runs a + ss_runs b, ss_failures = ss_failures a + ss_failures b,
      ss_handoffs = ss_handoffs a + ss_handoffs b\<rparr>"

definition no_stats :: site_stats where
  "no_stats = \<lparr>ss_conversations = 0, ss_activeConversations = 0, ss_runs = 0, ss_failures = 0,
     ss_handoffs = 0\<rparr>"

definition getOverview ::
  "(string \<Rightarrow> 'k::linorder) \<Rightarrow> 'a admin_scope_scheme \<Rightarrow> db \<Rightarrow> failure + admin_overview" where
  "getOverview collate scope d =
     (case find (\<lambda>t. t_tenant_id t = as_tenantId scope) (tenants d) of
        None \<Rightarrow> Inl (ApiError NOT_FOUND 404)
      | Some tenant \<Rightarrow>
          (let sites = map (siteOverview collate scope d)
                 (order_asc (\<lambda>s. (collate (s_display_name s), s_site_id s))
                   (filter (\<lambda>s. s_tenant_id s = as_tenantId scope) (sites d)))
           in Inr \<lparr>ao_tenantId = t_tenant_id tenant, ao_displayName = t_display_name tenant,
                   ao_sites = sites,
                   ao_totals = foldl (\<lambda>sum site. add_stats sum (so_stats site)) no_stats sites\<rparr>))"

subsection \<open>The dashboard stays inside its tenant\<close>

lemma admin_listing_page:
  "admin_listing iso_text date_parse kind time name f rows = Inr (page, k) \<Longrightarrow>
     set page \<subseteq> set rows \<and> length page \<le> af_limit f"
  by (auto simp: admin_listing_def split: if_splits
      dest!: arg_cong [where f = fst] set_time_page [THEN subsetD] intro: length_time_page [THEN order_trans])

lemma sequence_page_rows [simp]:
  "r \<in> set (fst (sequence_page kind seq limit cursor rows)) \<Longrightarrow> r \<in> set rows"
  "length (fst (sequence_page kind seq limit cursor rows)) \<le> limit"
  by (auto simp: sequence_page_def page_of_def Let_def order_asc_def dest!: in_set_takeD)

lemma tenant_rows:
  "c \<in> set (admin_conversation_rows date_parse scope cf d) \<Longrightarrow> c_tenant_id c = as_tenantId scope"
  "r \<in> set (admin_run_rows date_parse scope rf d) \<Longrightarrow> r_tenant_id r = as_tenantId scope"
  "r \<in> set (admin_failure_rows date_parse scope ff d) \<Longrightarrow> r_tenant_id r = as_tenantId scope"
  "h \<in> set (admin_handoff_rows date_parse scope hf d) \<Longrightarrow> h_tenant_id h = as_tenantId scope"
  by (auto simp: admin_conversation_rows_def admin_run_rows_def admin_failure_rows_def admin_handoff_rows_def)

lemma admin_sel [simp]:
  "co_tenantId (map_admin_conversation row ps) = c_tenant_id row"
  "co_conversationId (map_admin_conversation row ps) = c_conversation_id row"
  "ar_tenantId (mapRun run) = r_tenant_id run" "ar_tenantId (map_failure run) = r_tenant_id run"
  "ar_status (map_failure run) = Run_failed" "ah_tenantId (mapHandoff h) = h_tenant_id h"
  "ev_visibility (mapEvent e) = e_visibility e"
  by (simp_all add: map_admin_conversation_def mapRun_def map_failure_def mapHandoff_def mapEvent_def)

lemma admin_conversations_rows:
  assumes "admin_conversations iso_text date_parse scope f d = Inr (cs, k)"
  shows "length cs \<le> af_limit f \<and> (\<forall>(c, p) \<in> set cs. co_tenantId c = as_tenantId scope)"
  using assms by (fastforce simp: admin_conversations_def Let_def dest!: admin_listing_page
      dest: tenant_rows)

lemma admin_conversation_row:
  "admin_conversation scope cid d = Inr c \<Longrightarrow> co_tenantId c = as_tenantId scope \<and> co_conversationId c = cid"
  by (auto simp: admin_conversation_def scopedConversation_def split: option.splits dest: find_SomeD)

lemma admin_messages_rows:
  assumes "admin_messages scope cid limit cursor d = Inr (ms, k)"
  shows "length ms \<le> limit \<and> (\<forall>m \<in> set ms. \<exists>row \<in> set (messages d). m = mapMessage row
      \<and> m_tenant_id row = as_tenantId scope \<and> m_conversation_id row = cid)"
proof -
  have "length ms \<le> limit" and rows: "set ms \<subseteq> mapMessage `
      {row \<in> set (messages d). m_tenant_id row = as_tenantId scope \<and> m_conversation_id row = cid}"
    using assms by (auto simp: admin_messages_def case_prod_unfold Let_def dest!: sequence_page_rows(1))
  then show ?thesis by blast
qed

lemma admin_events_rows:
  assumes "admin_events scope cid limit cursor d = Inr (es, k)"
  shows "length es \<le> limit \<and> (\<forall>e \<in> set es. (\<exists>row \<in> set (conversation_events d). e = mapEvent row
      \<and> e_tenant_id row = as_tenantId scope \<and> e_conversation_id row = cid)
    \<and> (ev_visibility e = Internal \<longrightarrow> Admin_internal \<in> set (as_scopes scope)))"
proof -
  have "length es \<le> limit" and rows: "set es \<subseteq> mapEvent ` set (admin_event_rows scope cid d)"
    using assms by (auto simp: admin_events_def case_prod_unfold Let_def dest: sequence_page_rows(1))
  moreover have "(\<exists>row \<in> set (conversation_events d). e = mapEvent row \<and> e_tenant_id row = as_tenantId scope
      \<and> e_conversation_id row = cid) \<and> (ev_visibility e = Internal \<longrightarrow> Admin_internal \<in> set (as_scopes scope))"
    if "e \<in> set es" for e
    using that rows by (auto simp: admin_event_rows_def)
  ultimately show ?thesis by blast
qed

lemma admin_runs_rows:
  assumes "admin_runs iso_text date_parse scope f d = Inr (rs, k)"
  shows "length rs \<le> af_limit f \<and> (\<forall>r \<in> set rs. ar_tenantId r = as_tenantId scope)"
  using assms by (fastforce simp: admin_runs_def dest!: admin_listing_page dest: tenant_rows)

lemma admin_failures_rows:
  assumes "admin_failures iso_text date_parse scope f d = Inr (rs, k)"
  shows "length rs \<le> af_limit f
    \<and> (\<forall>r \<in> set rs. ar_tenantId r = as_tenantId scope \<and> ar_status r = Run_failed)"
  using assms
  by (fastforce simp: admin_failures_def dest!: admin_listing_page dest: tenant_rows)

lemma admin_handoffs_rows:
  assumes "admin_handoffs iso_text date_parse scope f d = Inr (hs, k)"
  shows "length hs \<le> af_limit f \<and> (\<forall>h \<in> set hs. ah_tenantId h = as_tenantId scope)"
  using assms
  by (fastforce simp: admin_handoffs_def dest!: admin_listing_page dest: tenant_rows)

text \<open>
  Every query of the dashboard stays inside the tenant of the token: the conversations, messages,
  events, runs, failures and handoffs it returns all belong to conversations, or carry the identifier,
  of that tenant, each page has at most \<open>limit\<close> rows, and an event of internal visibility is only
  shown to a token with the scope \<open>admin:internal\<close>.
\<close>

theorem admin_scope_isolation:
  "(admin_conversations iso_text date_parse scope cf d = Inr (cs, k1) \<longrightarrow>
      length cs \<le> af_limit cf \<and> (\<forall>(c, p) \<in> set cs. co_tenantId c = as_tenantId scope))
   \<and> (admin_conversation scope cid d = Inr c \<longrightarrow> co_tenantId c = as_tenantId scope \<and> co_conversationId c = cid)
   \<and> (admin_messages scope cid limit cursor d = Inr (ms, k2) \<longrightarrow>
      length ms \<le> limit \<and> (\<forall>m \<in> set ms. \<exists>row \<in> set (messages d). m = mapMessage row
        \<and> m_tenant_id row = as_tenantId scope \<and> m_conversation_id row = cid))
   \<and> (admin_events scope cid limit cursor d = Inr (es, k3) \<longrightarrow>
      length es \<le> limit \<and> (\<forall>e \<in> set es. (\<exists>row \<in> set (conversation_events d). e = mapEvent row
        \<and> e_tenant_id row = as_tenantId scope \<and> e_conversation_id row = cid)
        \<and> (ev_visibility e = Internal \<longrightarrow> Admin_internal \<in> set (as_scopes scope))))
   \<and> (admin_runs iso_text date_parse scope rf d = Inr (rs, k4) \<longrightarrow>
      length rs \<le> af_limit rf \<and> (\<forall>r \<in> set rs. ar_tenantId r = as_tenantId scope))
   \<and> (admin_failures iso_text date_parse scope ff d = Inr (fs, k5) \<longrightarrow>
      length fs \<le> af_limit ff \<and> (\<forall>r \<in> set fs. ar_tenantId r = as_tenantId scope \<and> ar_status r = Run_failed))
   \<and> (admin_handoffs iso_text date_parse scope hf d = Inr (hs, k6) \<longrightarrow>
      length hs \<le> af_limit hf \<and> (\<forall>h \<in> set hs. ah_tenantId h = as_tenantId scope))"
  by (intro conjI impI)
    (auto dest!: admin_conversations_rows admin_conversation_row admin_messages_rows admin_events_rows
      admin_runs_rows admin_failures_rows admin_handoffs_rows)

subsection \<open>Following the cursors\<close>

definition filter_ok :: "(string \<Rightarrow> js_date option) \<Rightarrow> 'st admin_filter \<Rightarrow> bool" where
  "filter_ok date_parse f \<longleftrightarrow> validateFilter date_parse f = Inr () \<and> 0 < af_limit f
     \<and> readable_date date_parse (af_createdAfter f) \<and> readable_date date_parse (af_createdBefore f)"

text \<open>A table's identifiers are its own and not empty, and its times are whole milliseconds.\<close>

definition keyed :: "('r \<Rightarrow> pg_time) \<Rightarrow> ('r \<Rightarrow> ident) \<Rightarrow> 'r list \<Rightarrow> bool" where
  "keyed time name rows \<longleftrightarrow> distinct (map name rows) \<and> list_all (\<lambda>r. whole_ms (time r) \<and> name r \<noteq> []) rows"

lemma filter_ok_cursor [simp]:
  "validateFilter date_parse (f\<lparr>af_cursor := c\<rparr>) = validateFilter date_parse f"
  "created_within date_parse (f\<lparr>af_cursor := c\<rparr>) = created_within date_parse f"
  "admin_run_rows date_parse scope (g\<lparr>af_cursor := c\<rparr>) d = admin_run_rows date_parse scope g d"
  "admin_failure_rows date_parse scope (h\<lparr>af_cursor := c\<rparr>) d = admin_failure_rows date_parse scope h d"
  by (simp_all add: validateFilter_def created_within_def [abs_def] admin_run_rows_def admin_failure_rows_def)

lemma keyed_filter: "keyed time name rows \<Longrightarrow> keyed time name (filter P rows)"
  by (auto simp: keyed_def list_all_iff distinct_map_filter)

lemma admin_listing_follow:
  assumes "filter_ok date_parse f" and "keyed time name rows" and "\<forall>t. date_parse (iso_text t) = Some t"
    and "length rows < fuel * af_limit f"
  shows "follow (\<lambda>cursor. admin_listing iso_text date_parse kind time name (f\<lparr>af_cursor := cursor\<rparr>) rows) fuel None
     = Inr (time_query time name None rows)"
proof -
  let ?l = "\<lparr>ls_kind = kind, ls_time = time, ls_name = name, ls_rows = rows, ls_limit = af_limit f\<rparr>"
  have "(\<lambda>cursor. admin_listing iso_text date_parse kind time name (f\<lparr>af_cursor := cursor\<rparr>) rows)
      = ls_fetch iso_text date_parse ?l"
    using assms(1) by (auto simp: admin_listing_def ls_fetch_def time_listing_def filter_ok_def)
  moreover have "ls_ok iso_text date_parse ?l"
    using assms(1-3) by (simp add: ls_ok_def filter_ok_def keyed_def)
  moreover have "length (ls_all ?l) < fuel * ls_limit ?l"
    using assms(4) length_time_query [of time name None rows] by (simp add: ls_all_def)
  ultimately show ?thesis using time_listings.follow_all [of iso_text date_parse ?l fuel] by (simp add: ls_all_def)
qed

text \<open>
  An operator who follows the cursors of the run listing, or of the failure listing, collects each
  run of the tenant that the filter admits exactly once, newest first, and the failures among them
  with an error code, when the creation times are whole milliseconds.
\<close>

theorem admin_runs_complete:
  assumes "filter_ok date_parse f" and "filter_ok date_parse g" and "\<forall>t. date_parse (iso_text t) = Some t"
    and "keyed r_created_at r_run_id (agent_runs d)"
    and "length (agent_runs d) < fuel * af_limit f" and "length (agent_runs d) < fuel * af_limit g"
  shows "follow (\<lambda>cursor. admin_runs iso_text date_parse scope (f\<lparr>af_cursor := cursor\<rparr>) d) fuel None
       = Inr (map mapRun (time_query r_created_at r_run_id None (admin_run_rows date_parse scope f d)))
     \<and> follow (\<lambda>cursor. admin_failures iso_text date_parse scope (g\<lparr>af_cursor := cursor\<rparr>) d) fuel None
       = Inr (map map_failure (time_query r_created_at r_run_id None (admin_failure_rows date_parse scope g d)))
     \<and> sorted_wrt (>) (map (\<lambda>r. Page_key (r_created_at r) (r_run_id r))
         (time_query r_created_at r_run_id None (admin_run_rows date_parse scope f d)))
     \<and> (\<forall>r. r \<in> set (time_query r_created_at r_run_id None (admin_run_rows date_parse scope f d)) \<longleftrightarrow>
         r \<in> set (agent_runs d) \<and> r_tenant_id r = as_tenantId scope \<and> matches (af_siteId f) (r_site_id r)
         \<and> matches (af_agentRef f) (r_agent_ref r) \<and> has_status (af_status f) (r_status r)
         \<and> created_within date_parse f (r_created_at r))"
proof -
  have runs: "keyed r_created_at r_run_id (admin_run_rows date_parse scope f d)"
    and failures: "keyed r_created_at r_run_id (admin_failure_rows date_parse scope g d)"
    using keyed_filter [OF assms(4)] by (auto simp: admin_run_rows_def admin_failure_rows_def)
  have "length (admin_run_rows date_parse scope f d) \<le> length (agent_runs d)"
    and "length (admin_failure_rows date_parse scope g d) \<le> length (agent_runs d)"
    by (simp_all add: admin_run_rows_def admin_failure_rows_def)
  then have follow: "length (admin_run_rows date_parse scope f d) < fuel * af_limit f"
    "length (admin_failure_rows date_parse scope g d) < fuel * af_limit g"
    using assms(5,6) by linarith+
  have "(\<lambda>cursor. admin_runs iso_text date_parse scope (f\<lparr>af_cursor := cursor\<rparr>) d)
      = rendered mapRun (\<lambda>cursor. admin_listing iso_text date_parse Cur_run r_created_at r_run_id
          (f\<lparr>af_cursor := cursor\<rparr>) (admin_run_rows date_parse scope f d))"
    and "(\<lambda>cursor. admin_failures iso_text date_parse scope (g\<lparr>af_cursor := cursor\<rparr>) d)
      = rendered map_failure (\<lambda>cursor. admin_listing iso_text date_parse Cur_failure r_created_at r_run_id
          (g\<lparr>af_cursor := cursor\<rparr>) (admin_failure_rows date_parse scope g d))"
    by (auto simp: admin_runs_def admin_failures_def rendered_def)
  moreover have "sorted_wrt (>) (map (\<lambda>r. Page_key (r_created_at r) (r_run_id r))
      (time_query r_created_at r_run_id None (admin_run_rows date_parse scope f d)))"
    using runs by (intro time_query_strict) (simp add: keyed_def)
  ultimately show ?thesis
    by (simp add: follow_rendered admin_listing_follow [OF assms(1) runs assms(3) follow(1)]
        admin_listing_follow [OF assms(2) failures assms(3) follow(2)]) (auto simp: admin_run_rows_def)
qed

subsection \<open>The totals\<close>

lemma sum_one: "distinct ks \<Longrightarrow> sum_list (map (\<lambda>k. if x = k then 1 else 0 :: nat) ks) = (if x \<in> set ks then 1 else 0)"
  by (induction ks) auto

lemma count_by_key:
  assumes "distinct ks" and "\<forall>r \<in> set rows. P r \<longrightarrow> key r \<in> set ks"
  shows "sum_list (map (\<lambda>k. count_where (\<lambda>r. P r \<and> key r = k) rows) ks) = count_where P rows"
  using assms(2)
proof (induction rows)
  case (Cons r rows)
  have "count_where Q (r # rows) = (if Q r then 1 else 0) + count_where Q rows" for Q
    by (simp add: count_where_def)
  then show ?case using Cons sum_one [OF assms(1), of "key r"]
    by (cases "P r") (simp_all add: sum_list_addf)
qed (simp add: count_where_def)

lemma foldl_stats:
  "foldl (\<lambda>sum x. add_stats sum (g x)) s xs =
     \<lparr>ss_conversations = ss_conversations s + sum_list (map (ss_conversations \<circ> g) xs),
      ss_activeConversations = ss_activeConversations s + sum_list (map (ss_activeConversations \<circ> g) xs),
      ss_runs = ss_runs s + sum_list (map (ss_runs \<circ> g) xs),
      ss_failures = ss_failures s + sum_list (map (ss_failures \<circ> g) xs),
      ss_handoffs = ss_handoffs s + sum_list (map (ss_handoffs \<circ> g) xs)\<rparr>"
  by (induction xs arbitrary: s) (simp_all add: add_stats_def)

text \<open>Rows of the tenant belong to one of its sites, as the foreign keys of the schema have it.\<close>

definition sited :: "('r \<Rightarrow> ident) \<Rightarrow> ('r \<Rightarrow> ident) \<Rightarrow> 'r list \<Rightarrow> db \<Rightarrow> bool" where
  "sited tenant site rows d \<longleftrightarrow> (\<forall>r \<in> set rows. site_exists d (tenant r) (site r))"

lemma sited_total:
  assumes "sited tenant site rows d" and "distinct (map s_site_id (sites d))"
    and "mset ss = mset (filter (\<lambda>s. s_tenant_id s = t) (sites d))"
  shows "sum_list (map (\<lambda>s. count_where (\<lambda>r. (tenant r = t \<and> Q r) \<and> site r = s_site_id s) rows) ss)
    = count_where (\<lambda>r. tenant r = t \<and> Q r) rows"
proof -
  have set: "set ss = {s \<in> set (sites d). s_tenant_id s = t}"
    using assms(3) by (metis set_filter set_mset_mset)
  have "mset (map s_site_id ss) = mset (map s_site_id (filter (\<lambda>s. s_tenant_id s = t) (sites d)))"
    using assms(3) by simp
  then have "distinct (map s_site_id ss)"
    using distinct_map_filter [OF assms(2)] by (metis mset_eq_imp_distinct_iff)
  moreover have "site r \<in> set (map s_site_id ss)" if r: "r \<in> set rows" "tenant r = t" for r
  proof -
    obtain s where "s \<in> set (sites d)" "s_tenant_id s = tenant r" "s_site_id s = site r"
      using assms(1) r(1) by (auto simp: sited_def site_exists_def exists_row_iff)
    then show ?thesis using set r(2) by (auto intro!: image_eqI [of _ s_site_id s])
  qed
  ultimately show ?thesis
    using count_by_key [of "map s_site_id ss" rows "\<lambda>r. tenant r = t \<and> Q r" site] by (simp add: comp_def)
qed

text \<open>
  The totals of the overview, added up over the sites, are the tenant's own counts: of all its
  conversations, its active ones, its runs, the failed ones and its handoffs. Nothing is counted twice
  and nothing is missed.
\<close>

theorem overview_totals:
  assumes "find (\<lambda>t. t_tenant_id t = as_tenantId scope) (tenants d) = Some tenant"
    and "distinct (map s_site_id (sites d))"
    and "sited c_tenant_id c_site_id (conversations d) d" and "sited r_tenant_id r_site_id (agent_runs d) d"
    and "sited h_tenant_id h_site_id (handoffs d) d"
  shows "\<exists>ov. getOverview collate scope d = Inr ov \<and> ao_totals ov =
     \<lparr>ss_conversations = count_where (\<lambda>c. c_tenant_id c = as_tenantId scope) (conversations d),
      ss_activeConversations = count_where (\<lambda>c. c_tenant_id c = as_tenantId scope \<and> c_status c = Conv_active)
        (conversations d),
      ss_runs = count_where (\<lambda>r. r_tenant_id r = as_tenantId scope) (agent_runs d),
      ss_failures = count_where (\<lambda>r. r_tenant_id r = as_tenantId scope \<and> r_status r = Run_failed) (agent_runs d),
      ss_handoffs = count_where (\<lambda>h. h_tenant_id h = as_tenantId scope) (handoffs d)\<rparr>"
proof -
  let ?t = "as_tenantId scope"
  let ?ss = "order_asc (\<lambda>s. (collate (s_display_name s), s_site_id s))
      (filter (\<lambda>s. s_tenant_id s = ?t) (sites d))"
  have ss: "mset ?ss = mset (filter (\<lambda>s. s_tenant_id s = ?t) (sites d))" by (simp add: order_asc_def)
  note total = sited_total [OF assms(3,2) ss] sited_total [OF assms(4,2) ss] sited_total [OF assms(5,2) ss]
  have "site_counts scope k d =
    \<lparr>ss_conversations = count_where (\<lambda>c. (c_tenant_id c = ?t \<and> True) \<and> c_site_id c = k) (conversations d),
     ss_activeConversations = count_where (\<lambda>c. (c_tenant_id c = ?t \<and> c_status c = Conv_active) \<and> c_site_id c = k)
       (conversations d),
     ss_runs = count_where (\<lambda>r. (r_tenant_id r = ?t \<and> True) \<and> r_site_id r = k) (agent_runs d),
     ss_failures = count_where (\<lambda>r. (r_tenant_id r = ?t \<and> r_status r = Run_failed) \<and> r_site_id r = k) (agent_runs d),
     ss_handoffs = count_where (\<lambda>h. (h_tenant_id h = ?t \<and> True) \<and> h_site_id h = k) (handoffs d)\<rparr>" for k
    by (simp add: site_counts_def conversations_at_def runs_at_def handoffs_at_def count_where_def Let_def
        conj_ac filter_filter)
  then show ?thesis
    using total(1) [of "\<lambda>_. True"] total(1) [of "\<lambda>c. c_status c = Conv_active"] total(2) [of "\<lambda>_. True"]
      total(2) [of "\<lambda>r. r_status r = Run_failed"] total(3) [of "\<lambda>_. True"]
    by (simp add: getOverview_def assms(1) Let_def foldl_stats no_stats_def siteOverview_def comp_def)
qed

subsection \<open>Witnesses\<close>

definition sample_admin :: admin_scope where
  "sample_admin = \<lparr>as_tenantId = ''t1'', as_scopes = [Admin_read]\<rparr>"

definition no_filter :: "'st admin_filter" where
  "no_filter = \<lparr>af_siteId = None, af_agentRef = None, af_status = None, af_createdAfter = None,
     af_createdBefore = None, af_cursor = None, af_limit = 1\<rparr>"

definition failed_run :: "ident \<Rightarrow> pg_time \<Rightarrow> run_row" where
  "failed_run rid t = \<lparr>r_run_id = rid, r_tenant_id = ''t1'', r_site_id = ''s1'', r_conversation_id = ''c1'',
     r_trigger_message_id = ''m1'', r_trigger_type = Trigger_message, r_assistant_message_id = ''am1'',
     r_agent_ref = ''agent'', r_status = Run_failed, r_attempt = 1, r_available_at = t, r_claimed_at = None,
     r_lease_expires_at = None, r_cancel_requested_at = None, r_error_code = None, r_created_at = t,
     r_updated_at = t, r_completed_at = Some t\<rparr>"

definition sample_event_row :: "visibility \<Rightarrow> event_row" where
  "sample_event_row v = \<lparr>e_event_id = ''e1'', e_tenant_id = ''t1'', e_site_id = ''s1'',
     e_conversation_id = ''c1'', e_sequence = 1, e_visibility = v, e_run_id = Some ''r1'',
     e_message_id = None, e_data = RunCompleted, e_occurred_at = 1000\<rparr>"

lemma admin_scope_isolation_witness:
  "\<exists>es k. admin_events sample_admin ''c1'' 5 None
       (sample_chat\<lparr>conversation_events := [sample_event_row Internal]\<rparr>) = Inr (es, k)
     \<and> (\<forall>e \<in> set es. ev_visibility e \<noteq> Internal)"
proof -
  let ?d = "sample_chat\<lparr>conversation_events := [sample_event_row Internal]\<rparr>"
  obtain es k where es: "admin_events sample_admin ''c1'' 5 None ?d = Inr (es, k)"
    by (simp add: admin_events_def scopedConversation_def sample_defs sample_admin_def
        sequence_cursor_of_def truthy_def case_prod_unfold Let_def)
  with admin_scope_isolation [of "\<lambda>_. []" "\<lambda>_. None" sample_admin no_filter ?d "[]" None "''c1''"]
  have "\<forall>e \<in> set es. ev_visibility e = Internal \<longrightarrow> Admin_internal \<in> set (as_scopes sample_admin)" by blast
  with es show ?thesis by (auto simp: sample_admin_def)
qed

lemma admin_runs_complete_witness:
  "follow (\<lambda>cursor. admin_failures show_int read_int sample_admin (no_filter\<lparr>af_cursor := cursor\<rparr>)
      (sample_chat\<lparr>agent_runs := [failed_run ''r1'' 1000, failed_run ''r2'' 2000]\<rparr>)) 3 None
   = Inr [map_failure (failed_run ''r2'' 2000), map_failure (failed_run ''r1'' 1000)]"
proof -
  let ?d = "sample_chat\<lparr>agent_runs := [failed_run ''r1'' 1000, failed_run ''r2'' 2000]\<rparr>"
  have "filter_ok read_int no_filter"
    by (simp add: filter_ok_def validateFilter_def no_filter_def readable_date_def truthy_def)
  moreover have "keyed r_created_at r_run_id (agent_runs ?d)"
    by (simp add: keyed_def failed_run_def whole_ms_def to_pg_def to_js_def)
  ultimately have "follow (\<lambda>cursor. admin_failures show_int read_int sample_admin
      (no_filter\<lparr>af_cursor := cursor\<rparr>) ?d) 3 None
    = Inr (map map_failure (time_query r_created_at r_run_id None
        (admin_failure_rows read_int sample_admin no_filter ?d)))"
    by (intro admin_runs_complete [where f = no_filter, THEN conjunct2, THEN conjunct1])
      (simp_all add: filter_ok_def validateFilter_def no_filter_def readable_date_def truthy_def)
  then show ?thesis
    by (simp add: admin_failure_rows_def failed_run_def sample_admin_def no_filter_def matches_def
        created_within_def truthy_def time_query_def after_cursor_def order_desc_def)
qed

lemma overview_totals_witness:
  "\<exists>ov. getOverview (\<lambda>s. s) sample_admin (sample_chat\<lparr>agent_runs := [failed_run ''r1'' 1000]\<rparr>) = Inr ov
     \<and> ss_failures (ao_totals ov) = 1 \<and> ss_conversations (ao_totals ov) = 1"
proof -
  let ?d = "sample_chat\<lparr>agent_runs := [failed_run ''r1'' 1000]\<rparr>"
  have "\<exists>ov. getOverview (\<lambda>s. s) sample_admin ?d = Inr ov \<and> ao_totals ov =
     \<lparr>ss_conversations = count_where (\<lambda>c. c_tenant_id c = as_tenantId sample_admin) (conversations ?d),
      ss_activeConversations = count_where (\<lambda>c. c_tenant_id c = as_tenantId sample_admin
        \<and> c_status c = Conv_active) (conversations ?d),
      ss_runs = count_where (\<lambda>r. r_tenant_id r = as_tenantId sample_admin) (agent_runs ?d),
      ss_failures = count_where (\<lambda>r. r_tenant_id r = as_tenantId sample_admin \<and> r_status r = Run_failed)
        (agent_runs ?d),
      ss_handoffs = count_where (\<lambda>h. h_tenant_id h = as_tenantId sample_admin) (handoffs ?d)\<rparr>"
    by (rule overview_totals [where tenant = "\<lparr>t_tenant_id = ''t1'', t_display_name = ''T'', t_created_at = 0\<rparr>"])
      (simp_all add: sample_defs sample_admin_def failed_run_def sited_def site_exists_def exists_row_def)
  then show ?thesis by (auto simp: sample_defs sample_admin_def failed_run_def count_where_def)
qed

end
