(* ===== verification/AdminRoute.thy ===== *)
theory AdminRoute
  imports AdminQuery AdminAuth Http
begin

text \<open>
  \<open>admin/route.ts\<close>: the routes of the operators' dashboard, from a request's query to the answer, over the
  queries of theory \<open>AdminQuery\<close> and the tokens of theory \<open>AdminAuth\<close>.

  As in theory \<open>Http\<close>, the router is outside: a request comes with the route it matched, and its \<open>limit\<close> as the
  number that the validator makes of it. A parameter that a route does not know is dropped by the validator.
  \<open>date_time\<close> is the validator's format of that name. Tokens name their tenant by a text, as the server issues
  them.
\<close>

record admin_query =
  aq_siteId :: "string option"
  aq_agentRef :: "string option"
  aq_status :: "string option"
  aq_createdAfter :: "string option"
  aq_createdBefore :: "string option"
  aq_cursor :: "string option"
  aq_limit :: "int option"

datatype admin_target =
    To_overview
  | To_conversations
  | To_conversation ident
  | To_messages ident
  | To_events ident
  | To_runs
  | To_failures
  | To_handoffs

record admin_request =
  am_target :: admin_target
  am_query :: admin_query
  am_authorization :: "string option"
  am_cookie :: "string option"

datatype admin_body =
    Overview_body admin_overview
  | Conversations_body "(conversation \<times> string option) list" "string option"
  | Conversation_body conversation
  | Messages_body "message list" "string option"
  | Events_body "conversation_event list" "string option"
  | Runs_body "admin_run list" "string option"
  | Failures_body "admin_run list" "string option"
  | Handoffs_body "admin_handoff list" "string option"
  | Error_body string
  | Default_body

record 'k admin_host =
  hm_tokens :: token_host
  hm_collate :: "string \<Rightarrow> 'k"
  hm_date_time :: "string \<Rightarrow> bool"

subsection \<open>Schemas\<close>

definition timestamp_ok :: "(string \<Rightarrow> bool) \<Rightarrow> string \<Rightarrow> bool" where
  "timestamp_ok date_time s \<longleftrightarrow> date_time s \<and> s \<noteq> [] \<and> last s = CHR ''Z''"

definition page_ok :: "admin_query \<Rightarrow> bool" where
  "page_ok q = page_query_ok (aq_cursor q) (aq_limit q)"

definition common_ok :: "(string \<Rightarrow> bool) \<Rightarrow> admin_query \<Rightarrow> bool" where
  "common_ok date_time q \<longleftrightarrow> opt_ok opaque_id (aq_siteId q) \<and> opt_ok opaque_id (aq_agentRef q)
     \<and> opt_ok (timestamp_ok date_time) (aq_createdAfter q) \<and> opt_ok (timestamp_ok date_time) (aq_createdBefore q)
     \<and> page_ok q"

definition conversation_statuses :: "(string \<times> conversation_status) list" where
  "conversation_statuses =
     [(''active'', Conv_active), (''completed'', Conv_completed), (''cancelled'', Conv_cancelled)]"

definition run_statuses :: "(string \<times> run_status) list" where
  "run_statuses =
     [(''queued'', Run_queued), (''running'', Run_running), (''waiting_for_input'', Run_waiting_for_input),
      (''completed'', Run_completed), (''failed'', Run_failed), (''cancel_requested'', Run_cancel_requested),
      (''cancelled'', Run_cancelled)]"

definition handoff_statuses :: "(string \<times> handoff_status) list" where
  "handoff_statuses =
     [(''requested'', Handoff_requested), (''awaiting_contact'', Handoff_awaiting_contact),
      (''delivering'', Handoff_delivering), (''completed'', Handoff_completed), (''failed'', Handoff_failed)]"

text \<open>A value of a union of literals, which may be absent.\<close>

definition status_ok :: "(string \<times> 'st) list \<Rightarrow> admin_query \<Rightarrow> bool" where
  "status_ok names q = opt_ok (\<lambda>s. map_of names s \<noteq> None) (aq_status q)"

definition admin_schema_ok :: "(string \<Rightarrow> bool) \<Rightarrow> admin_target \<Rightarrow> admin_query \<Rightarrow> bool" where
  "admin_schema_ok date_time target q = (case target of
     To_overview \<Rightarrow> True
   | To_conversations \<Rightarrow> common_ok date_time q \<and> status_ok conversation_statuses q
   | To_conversation cid \<Rightarrow> opaque_id cid
   | To_messages cid \<Rightarrow> opaque_id cid \<and> page_ok q
   | To_events cid \<Rightarrow> opaque_id cid \<and> page_ok q
   | To_runs \<Rightarrow> common_ok date_time q \<and> status_ok run_statuses q
   | To_failures \<Rightarrow> common_ok date_time q
   | To_handoffs \<Rightarrow> common_ok date_time q \<and> status_ok handoff_statuses q)"

subsection \<open>Handlers\<close>

definition filter_of :: "(string \<times> 'st) list \<Rightarrow> admin_query \<Rightarrow> 'st admin_filter" where
  "filter_of names q = \<lparr>af_siteId = aq_siteId q, af_agentRef = aq_agentRef q,
     af_status = Option.bind (aq_status q) (map_of names), af_createdAfter = aq_createdAfter q,
     af_createdBefore = aq_createdBefore q, af_cursor = aq_cursor q, af_limit = page_limit (aq_limit q)\<rparr>"

definition access_of :: "json list \<Rightarrow> admin_access list" where
  "access_of scopes = List.map_filter (\<lambda>s. if s = JString ''admin:read'' then Some Admin_read
     else if s = JString ''admin:internal'' then Some Admin_internal else None) scopes"

definition scope_of :: "admin_claims \<Rightarrow> admin_scope" where
  "scope_of c = \<lparr>as_tenantId = (case an_tenantId c of None \<Rightarrow> [] | Some v \<Rightarrow> js_text v),
     as_scopes = (case an_scopes c of Some (JArray scopes) \<Rightarrow> access_of scopes | _ \<Rightarrow> [])\<rparr>"

definition query_service ::
  "'k::linorder admin_host \<Rightarrow> admin_scope \<Rightarrow> admin_target \<Rightarrow> admin_query \<Rightarrow> db \<Rightarrow> failure + admin_body" where
  "query_service host scope target q d =
     (let iso = th_iso_text (hm_tokens host); dates = th_date_parse (hm_tokens host);
          limit = page_limit (aq_limit q); cursor = truthy (aq_cursor q)
      in case target of
        To_overview \<Rightarrow> and_then (getOverview (hm_collate host) scope d) (\<lambda>ov. Inr (Overview_body ov))
      | To_conversations \<Rightarrow> and_then (admin_conversations iso dates scope (filter_of conversation_statuses q) d)
          (\<lambda>(rows, k). Inr (Conversations_body rows k))
      | To_conversation cid \<Rightarrow> and_then (admin_conversation scope cid d) (\<lambda>c. Inr (Conversation_body c))
      | To_messages cid \<Rightarrow> and_then (admin_messages scope cid limit cursor d) (\<lambda>(rows, k). Inr (Messages_body rows k))
      | To_events cid \<Rightarrow> and_then (admin_events scope cid limit cursor d) (\<lambda>(rows, k). Inr (Events_body rows k))
      | To_runs \<Rightarrow> and_then (admin_runs iso dates scope (filter_of run_statuses q) d)
          (\<lambda>(rows, k). Inr (Runs_body rows k))
      | To_failures \<Rightarrow> and_then (admin_failures iso dates scope (filter_of [] q) d)
          (\<lambda>(rows, k). Inr (Failures_body rows k))
      | To_handoffs \<Rightarrow> and_then (admin_handoffs iso dates scope (filter_of handoff_statuses q) d)
          (\<lambda>(rows, k). Inr (Handoffs_body rows k)))"

text \<open>\<open>sendError\<close>; what it throws again, Fastify answers with 500.\<close>

fun sendError :: "failure \<Rightarrow> nat \<times> admin_body" where
  "sendError (ApiError code status) = (status, Error_body (code_name code))"
| "sendError Unexpected = (500, Default_body)"

definition admin_refused :: "nat \<Rightarrow> nat \<times> admin_body" where
  "admin_refused status = (status, Error_body (if status = 401 then ''UNAUTHORIZED'' else ''FORBIDDEN''))"

definition admin_handle ::
  "'k::linorder admin_host \<Rightarrow> js_date \<Rightarrow> admin_request \<Rightarrow> db \<Rightarrow> (nat \<times> admin_body) \<times> audit_actor" where
  "admin_handle host now req d =
     (if \<not> admin_schema_ok (hm_date_time host) (am_target req) (am_query req) then ((400, Default_body), system_actor)
      else case authenticateAdmin (hm_tokens host) (am_authorization req) (am_cookie req) now of
        Inl status \<Rightarrow> (admin_refused status, system_actor)
      | Inr (claims, actor) \<Rightarrow>
          (case query_service host (scope_of claims) (am_target req) (am_query req) d of
             Inl e \<Rightarrow> (sendError e, actor)
           | Inr body \<Rightarrow> ((200, body), actor)))"

subsection \<open>What an answer depends on\<close>

text \<open>
  The part of the database an operator may see: the rows of the tenant, without internal events unless the
  token allows them, and nothing of the other tables.
\<close>

definition operator_view :: "'a admin_scope_scheme \<Rightarrow> db \<Rightarrow> db" where
  "operator_view scope d =
     \<lparr>tenants = filter (\<lambda>t. t_tenant_id t = as_tenantId scope) (tenants d),
      sites = filter (\<lambda>s. s_tenant_id s = as_tenantId scope) (sites d),
      site_widgets = filter (\<lambda>w. w_tenant_id w = as_tenantId scope) (site_widgets d),
      principals = [], browser_sessions = [], session_bootstrap_idempotency = [],
      conversations = filter (\<lambda>c. c_tenant_id c = as_tenantId scope) (conversations d),
      conversation_participants = filter (\<lambda>p. cp_tenant_id p = as_tenantId scope) (conversation_participants d),
      messages = filter (\<lambda>m. m_tenant_id m = as_tenantId scope) (messages d),
      command_idempotency = [],
      conversation_events = filter (\<lambda>e. e_tenant_id e = as_tenantId scope
        \<and> (Admin_internal \<in> set (as_scopes scope) \<or> e_visibility e \<noteq> Internal)) (conversation_events d),
      agent_runs = filter (\<lambda>r. r_tenant_id r = as_tenantId scope) (agent_runs d),
      handoffs = filter (\<lambda>h. h_tenant_id h = as_tenantId scope) (handoffs d),
      structured_input_requests = [], audit_events = []\<rparr>"

text \<open>A handoff is of the tenant of its run, as \<open>materialize\<close> and \<open>createEmailHandoff\<close> write it.\<close>

definition handoffs_with_runs :: "db \<Rightarrow> bool" where
  "handoffs_with_runs d \<longleftrightarrow>
     (\<forall>h \<in> set (handoffs d). \<forall>r \<in> set (agent_runs d). r_run_id r = h_run_id h \<longrightarrow> r_tenant_id r = h_tenant_id h)"

lemma view_sel [simp]:
  "tenants (operator_view scope d) = filter (\<lambda>t. t_tenant_id t = as_tenantId scope) (tenants d)"
  "sites (operator_view scope d) = filter (\<lambda>s. s_tenant_id s = as_tenantId scope) (sites d)"
  "site_widgets (operator_view scope d) = filter (\<lambda>w. w_tenant_id w = as_tenantId scope) (site_widgets d)"
  "conversations (operator_view scope d) = filter (\<lambda>c. c_tenant_id c = as_tenantId scope) (conversations d)"
  "conversation_participants (operator_view scope d)
     = filter (\<lambda>p. cp_tenant_id p = as_tenantId scope) (conversation_participants d)"
  "messages (operator_view scope d) = filter (\<lambda>m. m_tenant_id m = as_tenantId scope) (messages d)"
  "conversation_events (operator_view scope d) = filter (\<lambda>e. e_tenant_id e = as_tenantId scope
     \<and> (Admin_internal \<in> set (as_scopes scope) \<or> e_visibility e \<noteq> Internal)) (conversation_events d)"
  "agent_runs (operator_view scope d) = filter (\<lambda>r. r_tenant_id r = as_tenantId scope) (agent_runs d)"
  "handoffs (operator_view scope d) = filter (\<lambda>h. h_tenant_id h = as_tenantId scope) (handoffs d)"
  by (simp_all only: operator_view_def db.select_convs)

lemma filter_within:
  assumes "\<And>x. x \<in> set xs \<Longrightarrow> P x \<Longrightarrow> Q x"
  shows "filter P (filter Q xs) = filter P xs"
  unfolding filter_filter using assms by (blast intro: filter_cong)

lemma filter_tenant: "filter (\<lambda>x. f x = t \<and> P x) (filter (\<lambda>x. f x = t) xs) = filter (\<lambda>x. f x = t \<and> P x) xs"
  by (rule filter_within) simp

lemma find_within:
  assumes "\<And>x. P x \<Longrightarrow> Q x"
  shows "find P (filter Q xs) = find P xs"
  using assms by (induction xs) auto

lemma view_rows:
  "admin_conversation_rows dates scope cf (operator_view scope d) = admin_conversation_rows dates scope cf d"
  "admin_run_rows dates scope rf (operator_view scope d) = admin_run_rows dates scope rf d"
  "admin_failure_rows dates scope ff (operator_view scope d) = admin_failure_rows dates scope ff d"
  "admin_event_rows scope cid (operator_view scope d) = admin_event_rows scope cid d"
  by (simp_all only: admin_conversation_rows_def admin_run_rows_def admin_failure_rows_def admin_event_rows_def
      view_sel filter_tenant) (rule filter_within, auto)

lemma view_parts:
  "participantsFor scope ids (operator_view scope d) = participantsFor scope ids d"
  "firstUserMessagePreviews scope ids (operator_view scope d) = firstUserMessagePreviews scope ids d"
  "scopedConversation scope cid (operator_view scope d) = scopedConversation scope cid d"
  by (simp_all only: participantsFor_def [abs_def] firstUserMessagePreviews_def [abs_def] scopedConversation_def
      view_sel filter_tenant) (subst find_within, simp_all)

lemma view_handoff_rows:
  assumes "handoffs_with_runs d"
  shows "admin_handoff_rows dates scope f (operator_view scope d) = admin_handoff_rows dates scope f d"
proof -
  let ?P = "\<lambda>h r. r_run_id r = h_run_id h \<and> h_tenant_id h = as_tenantId scope \<and> matches (af_siteId f) (h_site_id h)
     \<and> matches (af_agentRef f) (r_agent_ref r) \<and> has_status (af_status f) (h_status h)
     \<and> created_within dates f (h_created_at h)"
  have runs: "filter (?P h) (filter (\<lambda>r. r_tenant_id r = as_tenantId scope) (agent_runs d)) = filter (?P h) (agent_runs d)"
    if "h \<in> set (handoffs d)" for h
    using assms that by (intro filter_within) (auto simp: handoffs_with_runs_def)
  have own: "concat (map (\<lambda>h. map (\<lambda>_. h) (filter (?P h) rs)) (filter (\<lambda>h. h_tenant_id h = as_tenantId scope) hs))
      = concat (map (\<lambda>h. map (\<lambda>_. h) (filter (?P h) rs)) hs)" for hs and rs :: "run_row list"
    by (induction hs) auto
  have "map (\<lambda>h. map (\<lambda>_. h) (filter (?P h) (filter (\<lambda>r. r_tenant_id r = as_tenantId scope) (agent_runs d)))) (handoffs d)
      = map (\<lambda>h. map (\<lambda>_. h) (filter (?P h) (agent_runs d))) (handoffs d)"
    by (rule map_cong [OF refl]) (simp only: runs)
  then show ?thesis by (simp only: admin_handoff_rows_def view_sel own)
qed

lemma view_overview:
  "getOverview collate scope (operator_view scope d) = getOverview collate scope d"
proof -
  have "siteOverview collate scope (operator_view scope d) = siteOverview collate scope d"
    by (rule ext) (simp only: siteOverview_def widgetsForSite_def site_counts_def recentActivity_def
        conversations_at_def runs_at_def handoffs_at_def view_sel filter_tenant)
  moreover have "filter (\<lambda>s. s_tenant_id s = as_tenantId scope) (sites (operator_view scope d))
      = filter (\<lambda>s. s_tenant_id s = as_tenantId scope) (sites d)"
    unfolding view_sel by (rule filter_within) simp
  moreover have "find (\<lambda>t. t_tenant_id t = as_tenantId scope) (tenants (operator_view scope d))
      = find (\<lambda>t. t_tenant_id t = as_tenantId scope) (tenants d)"
    unfolding view_sel by (rule find_within) simp
  ultimately show ?thesis by (simp only: getOverview_def)
qed

lemma query_service_view:
  assumes "handoffs_with_runs d"
  shows "query_service host scope target q (operator_view scope d) = query_service host scope target q d"
proof (cases target)
  case (To_messages cid)
  have "admin_messages scope cid limit cursor (operator_view scope d) = admin_messages scope cid limit cursor d"
    for limit cursor
    by (subst (1 2) admin_messages_def) (simp only: view_parts view_sel filter_tenant)
  then show ?thesis by (simp add: query_service_def To_messages)
next
  case To_handoffs
  then show ?thesis by (simp add: query_service_def admin_handoffs_def view_handoff_rows [OF assms])
qed (simp_all add: query_service_def view_overview admin_conversations_def admin_conversation_def admin_events_def
    admin_runs_def admin_failures_def view_rows view_parts)

lemma query_service_events:
  assumes "query_service host scope target q d = Inr (Events_body es k)" and "e \<in> set es"
  shows "ev_visibility e = Internal \<longrightarrow> Admin_internal \<in> set (as_scopes scope)"
proof -
  obtain cid limit cursor where "admin_events scope cid limit cursor d = Inr (es, k)"
    using assms(1) by (auto simp: query_service_def Let_def split: admin_target.splits)
  then show ?thesis using assms(2) admin_events_rows [of scope cid limit cursor d es k] by blast
qed

text \<open>
  C21: whatever an operator asks for, and whatever else the database holds, the answer is made of the rows of
  the tenant of the token alone, and of internal events only with the scope for them: with all other rows
  removed the answer is the same. Without a valid token nothing of the database matters.
\<close>

theorem operator_sees_own_tenant:
  assumes "handoffs_with_runs d"
  shows "admin_handle host now req d = admin_handle host now req
     (case authenticateAdmin (hm_tokens host) (am_authorization req) (am_cookie req) now of
        Inl status \<Rightarrow> empty_db
      | Inr (claims, actor) \<Rightarrow> operator_view (scope_of claims) d)"
  by (auto simp: admin_handle_def query_service_view [OF assms] split: sum.split prod.split)

subsection \<open>Following the cursors\<close>

text \<open>The cursors the listings hand out pass the routes' schema.\<close>

lemma b64_digit_text: "n < 64 \<Longrightarrow> is_alnum (b64_digit n) \<or> b64_digit n \<in> set ''_-''"
  by (auto simp: b64_digit_def char_class_defs)

lemma length_b64_encode: "length (b64_encode bs) \<le> 2 * length bs"
  by (induction bs rule: b64_encode.induct) simp_all

lemma length_utf8_encode: "length (utf8_encode s) \<le> 2 * length s"
  by (induction s) simp_all

lemma length_show_nat_le: "n < 10 ^ Suc k \<Longrightarrow> length (show_nat n) \<le> Suc k"
proof (induction k arbitrary: n)
  case 0
  then show ?case by (subst show_nat.simps) simp
next
  case (Suc k)
  then have "n div 10 < 10 ^ Suc k" by (simp add: less_mult_imp_div_less)
  then show ?case using Suc.IH [of "n div 10"] by (subst show_nat.simps) simp
qed

lemma sequence_cursor_text:
  assumes "1 \<le> n" and "n \<le> int4_max"
  shows "cursor_text_ok (encodeSequenceCursor kind n)"
proof -
  let ?text = "stringify (JArray [JString (kind_text kind), JNumber n])"
  have "list_all (\<lambda>kind. length (quote_string (kind_text kind)) \<le> 20)
      [Cur_conversation, Cur_message, Cur_event, Cur_run, Cur_failure, Cur_handoff]" by code_simp
  then have "length (quote_string (kind_text kind)) \<le> 20" by (cases kind) simp_all
  moreover have "length (show_nat (nat n)) \<le> Suc 9"
    using assms by (intro length_show_nat_le) (simp add: int4_max_def)
  ultimately have "length ?text \<le> 40" using assms(1) by (simp add: show_int_def)
  then have "length (to_base64url ?text) \<le> 160"
    using length_b64_encode [of "utf8_encode ?text"] length_utf8_encode [of ?text]
    unfolding to_base64url_def by linarith
  moreover have "is_alnum c \<or> c \<in> set ''_-''" if "c \<in> set (to_base64url ?text)" for c
    using that b64_encode_chars [of "utf8_encode ?text" c] utf8_encode_bytes b64_digit_text
    unfolding to_base64url_def by blast
  moreover have "to_base64url ?text \<noteq> []" by (rule base64url_nonempty) simp
  ultimately show ?thesis
    by (simp add: cursor_text_ok_def len_between_def encodeSequenceCursor_def encode_cursor_def list_all_iff Suc_le_eq
        del: stringify.simps)
qed

text \<open>The rows of a conversation as the listing reads them.\<close>

definition operator_messages :: "'a admin_scope_scheme \<Rightarrow> ident \<Rightarrow> db \<Rightarrow> message_row list" where
  "operator_messages scope cid d = order_asc m_sequence
     (filter (\<lambda>m. m_tenant_id m = as_tenantId scope \<and> m_conversation_id m = cid) (messages d))"

definition transcript_ok :: "'a admin_scope_scheme \<Rightarrow> ident \<Rightarrow> db \<Rightarrow> bool" where
  "transcript_ok scope cid d \<longleftrightarrow> (\<exists>row. scopedConversation scope cid d = Inr row)
     \<and> distinct (map m_sequence (operator_messages scope cid d))
     \<and> list_all (\<lambda>m. 1 \<le> m_sequence m \<and> m_sequence m \<le> int4_max) (operator_messages scope cid d)"

lemma sequence_page_first:
  assumes "0 < limit"
  shows "sequence_page kind seq limit None rows = (take limit (order_asc seq rows),
     if limit < length rows then Some (encodeSequenceCursor kind (seq (order_asc seq rows ! (limit - 1)))) else None)"
proof -
  have "filter (\<lambda>r. opt_ok (\<lambda>n. n < seq r) None) rows = rows" by simp
  then show ?thesis
    unfolding sequence_page_def using page_of_drop [OF assms, of 0 "order_asc seq rows"]
    by (simp only: drop_0 prod.case length_order_asc add_0) simp
qed

lemma sequence_page_next:
  assumes "0 < limit" and "sorted_wrt (<) (map seq (order_asc seq rows))" and "n < length rows"
  shows "sequence_page kind seq limit (Some (seq (order_asc seq rows ! n))) rows
     = (take limit (drop (Suc n) (order_asc seq rows)),
        if Suc n + limit < length rows
        then Some (encodeSequenceCursor kind (seq (order_asc seq rows ! (n + limit)))) else None)"
proof -
  have "order_asc seq (filter (\<lambda>r. opt_ok (\<lambda>m. m < seq r) (Some (seq (order_asc seq rows ! n)))) rows)
      = drop (Suc n) (order_asc seq rows)"
    using filter_strict_asc_take_drop [OF assms(2), of n] assms(3) by (simp only: order_asc_filter length_order_asc opt_ok.simps)
  then show ?thesis
    unfolding sequence_page_def using page_of_drop [OF assms(1), of "Suc n" "order_asc seq rows"]
    by (simp only: prod.case length_order_asc) simp
qed

lemma admin_messages_page:
  assumes "transcript_ok scope cid d" and "sequence_cursor_of Cur_message cursor = Inr c"
  shows "admin_messages scope cid limit cursor d = Inr (map_prod (map mapMessage) (\<lambda>k. k)
     (sequence_page Cur_message m_sequence limit c
       (filter (\<lambda>m. m_tenant_id m = as_tenantId scope \<and> m_conversation_id m = cid) (messages d))))"
  using assms by (auto simp: admin_messages_def transcript_ok_def case_prod_unfold map_prod_def Let_def)

lemma encode_sequence_nonempty: "encodeSequenceCursor kind n \<noteq> []"
  by (simp add: encodeSequenceCursor_def encode_cursor_def base64url_nonempty)

lemma read_sequence_cursor:
  "1 \<le> n \<Longrightarrow> n \<le> int4_max \<Longrightarrow> sequence_cursor_of kind (Some (encodeSequenceCursor kind n)) = Inr (Some n)"
  by (simp add: sequence_cursor_of_def truthy_def decode_sequence_cursor max_safe_integer_def encode_sequence_nonempty)
    (simp add: int4_max_def)

interpretation operator_transcript: keyset_listing
  "\<lambda>(scope, cid, d, limit) cursor. admin_messages scope cid limit cursor d"
  "\<lambda>(scope, cid, d, limit). map mapMessage (operator_messages scope cid d)"
  "\<lambda>(scope, cid, d, limit) n. encodeSequenceCursor Cur_message (m_sequence (operator_messages scope cid d ! n))"
  "\<lambda>(scope, cid, d, limit). limit"
  "\<lambda>(scope, cid, d, limit). 0 < limit \<and> transcript_ok scope cid d"
proof (unfold_locales, goal_cases)
  case (1 s)
  then show ?case by auto
next
  case (2 s)
  obtain scope cid d limit where s: "s = (scope, cid, d, limit)" by (metis prod.exhaust)
  have first: "sequence_cursor_of Cur_message None = Inr None" by (simp add: sequence_cursor_of_def truthy_def)
  show ?case
    using 2 admin_messages_page [OF _ first, of scope cid d limit]
    by (simp add: s sequence_page_first operator_messages_def take_map)
next
  case (3 s n)
  obtain scope cid d limit where s: "s = (scope, cid, d, limit)" by (metis prod.exhaust)
  let ?rows = "operator_messages scope cid d"
  from 3 have ok: "transcript_ok scope cid d" "0 < limit" and n: "n < length ?rows" by (simp_all add: s)
  then have "1 \<le> m_sequence (?rows ! n)" "m_sequence (?rows ! n) \<le> int4_max"
    by (auto simp: transcript_ok_def list_all_length)
  note cursor = read_sequence_cursor [OF this, of Cur_message]
  have sorted: "sorted_wrt (<) (map m_sequence ?rows)"
    using ok(1) unfolding transcript_ok_def operator_messages_def by (intro sorted_distinct_strict sorted_order_asc) blast
  note page = sequence_page_next [OF ok(2) sorted [unfolded operator_messages_def], folded operator_messages_def]
  show ?case
    using n unfolding s split_conv admin_messages_page [OF ok(1) cursor] page [OF n [unfolded operator_messages_def length_order_asc]]
    by (simp add: operator_messages_def take_map drop_map)
qed

subsection \<open>A concrete question\<close>

definition sample_admin_host :: "nat admin_host" where
  "sample_admin_host = \<lparr>hm_tokens = sample_host, hm_collate = length, hm_date_time = (\<lambda>_. True)\<rparr>"

definition no_query :: admin_query where
  "no_query = \<lparr>aq_siteId = None, aq_agentRef = None, aq_status = None, aq_createdAfter = None,
     aq_createdBefore = None, aq_cursor = None, aq_limit = None\<rparr>"

definition sample_question :: "string \<Rightarrow> admin_request" where
  "sample_question token = \<lparr>am_target = To_conversation ''c1'', am_query = no_query,
     am_authorization = Some (''Bearer '' @ token), am_cookie = None\<rparr>"

lemma sample_admin_token:
  "\<exists>token. token \<noteq> [] \<and> admin_verify sample_jwt read_int [replicate 32 (CHR ''k'')] token 5000
     = Some (admin_issued show_int 60 sample_operator 5000)"
proof -
  let ?keys = "[replicate 32 (CHR ''k'')]"
  have "\<exists>token. admin_issue sample_sign show_int ?keys 60 sample_operator 5000
        = Some (token, admin_issued show_int 60 sample_operator 5000)
      \<and> (\<forall>ring t. admin_verify sample_jwt read_int ring token t =
          (if hd ?keys \<in> set ring \<and> seconds t < seconds 5000 + 60
           then Some (admin_issued show_int 60 sample_operator 5000) else None))"
    using admin_token_roundtrip [OF sample_jwt_laws sample_operator_valid, of read_int show_int ?keys 60 5000
        sample_subject] by auto
  then obtain token where issued: "admin_issue sample_sign show_int ?keys 60 sample_operator 5000
        = Some (token, admin_issued show_int 60 sample_operator 5000)"
    and verified: "\<forall>ring t. admin_verify sample_jwt read_int ring token t =
          (if hd ?keys \<in> set ring \<and> seconds t < seconds 5000 + 60
           then Some (admin_issued show_int 60 sample_operator 5000) else None)"
    by blast
  have "token \<noteq> []" using issued by (auto simp: admin_issue_def sample_sign_def split: if_splits)
  then show ?thesis using verified by (intro exI [of _ token]) (simp add: seconds_def)
qed

definition sample_scope_of_operator :: admin_scope where
  "sample_scope_of_operator = scope_of (admin_issued show_int 60 sample_operator 5000)"

lemma sample_authenticated:
  assumes "token \<noteq> []" and "admin_verify sample_jwt read_int [replicate 32 (CHR ''k'')] token 5000
     = Some (admin_issued show_int 60 sample_operator 5000)"
  shows "\<exists>actor. authenticateAdmin (hm_tokens sample_admin_host) (am_authorization (sample_question token))
     (am_cookie (sample_question token)) 5000 = Inr (admin_issued show_int 60 sample_operator 5000, actor)"
  using assms by (simp add: authenticateAdmin_def adminTokenFromRequest_def sample_question_def starts_with_def
      truthy_text_def sample_admin_host_def sample_host_def admin_issued_def sample_operator_def admin_scope_names_def)

lemma operator_sees_own_tenant_witness:
  "\<exists>token. fst (admin_handle sample_admin_host 5000 (sample_question token) sample_chat)
       = fst (admin_handle sample_admin_host 5000 (sample_question token) (operator_view sample_scope_of_operator sample_chat))
     \<and> fst (fst (admin_handle sample_admin_host 5000 (sample_question token) sample_chat)) = 200"
proof -
  obtain token where token: "token \<noteq> []" "admin_verify sample_jwt read_int [replicate 32 (CHR ''k'')] token 5000
     = Some (admin_issued show_int 60 sample_operator 5000)"
    using sample_admin_token by blast
  note known = sample_authenticated [OF token]
  have "handoffs_with_runs sample_chat" by (simp add: handoffs_with_runs_def sample_defs)
  from operator_sees_own_tenant [OF this, of sample_admin_host 5000 "sample_question token"]
  have same: "admin_handle sample_admin_host 5000 (sample_question token) sample_chat
      = admin_handle sample_admin_host 5000 (sample_question token) (operator_view sample_scope_of_operator sample_chat)"
    using known by (auto simp: sample_scope_of_operator_def)
  have "scopedConversation sample_scope_of_operator ''c1'' sample_chat = Inr (sample_conversation ''c1'' 1000)"
    by (simp add: scopedConversation_def sample_defs sample_scope_of_operator_def scope_of_def admin_issued_def sample_operator_def)
  then have "fst (fst (admin_handle sample_admin_host 5000 (sample_question token) sample_chat)) = 200"
    using known by (auto simp: admin_handle_def admin_schema_ok_def sample_question_def id_defs query_service_def
        admin_conversation_def sample_scope_of_operator_def)
  with same show ?thesis by (intro exI [of _ token]) simp
qed

end
