(* ===== verification/Dashboard.thy ===== *)
theory Dashboard
  imports AdminRoute
begin

text \<open>
  The operators' dashboard, \<open>apps/dashboard/src\<close>: its client of the admin API (\<open>admin-client.ts\<close>), the loading
  of a resource (\<open>use-resource.ts\<close>), the inspector of a conversation (\<open>conversations.tsx\<close>) and the lists of
  runs, failures and handoffs (\<open>operations.tsx\<close>). A component's hooks are a record, its effects and callbacks
  are steps on it. What a component draws is modelled as the rows it shows; the markup is not.

  \<open>check\<close> is \<open>Value.Check\<close> with the schema of the target, and \<open>get\<close> the network with the server behind it,
  \<open>None\<close> when it could not be reached.
\<close>

subsection \<open>The client\<close>

record api_failure =
  ce_code :: string
  ce_message :: string
  ce_status :: nat

type_synonym admin_get = "admin_target \<Rightarrow> admin_query \<Rightarrow> (nat \<times> admin_body) option"
type_synonym body_check = "admin_target \<Rightarrow> admin_body \<Rightarrow> bool"

definition safeResponseError :: "nat \<Rightarrow> api_failure" where
  "safeResponseError status =
     (if status = 401 \<or> status = 403
      then \<lparr>ce_code = ''UNAUTHORIZED'', ce_message = ''Your admin session is not authorized.'', ce_status = status\<rparr>
      else if status = 404
      then \<lparr>ce_code = ''NOT_FOUND'', ce_message = ''The requested record was not found.'', ce_status = status\<rparr>
      else if status = 429
      then \<lparr>ce_code = ''RATE_LIMITED'', ce_message = ''Too many requests. Try again shortly.'', ce_status = status\<rparr>
      else \<lparr>ce_code = ''REQUEST_FAILED'', ce_message = ''The dashboard request failed.'', ce_status = status\<rparr>)"

definition invalid_response :: "nat \<Rightarrow> api_failure" where
  "invalid_response status = \<lparr>ce_code = ''INVALID_RESPONSE'',
     ce_message = ''Chat Core returned an invalid response.'', ce_status = status\<rparr>"

definition client_get :: "body_check \<Rightarrow> admin_get \<Rightarrow> admin_target \<Rightarrow> admin_query \<Rightarrow> api_failure + admin_body" where
  "client_get check get target q = (case get target q of
     None \<Rightarrow> Inl \<lparr>ce_code = ''NETWORK_ERROR'', ce_message = ''Chat Core could not be reached.'', ce_status = 0\<rparr>
   | Some (status, body) \<Rightarrow>
       if \<not> (200 \<le> status \<and> status \<le> 299) then Inl (safeResponseError status)
       else if check target body then Inr body else Inl (invalid_response status))"

text \<open>A parameter that is undefined or empty is not sent.\<close>

definition sent_query :: "admin_query \<Rightarrow> admin_query" where
  "sent_query q = \<lparr>aq_siteId = truthy (aq_siteId q), aq_agentRef = truthy (aq_agentRef q),
     aq_status = truthy (aq_status q), aq_createdAfter = truthy (aq_createdAfter q),
     aq_createdBefore = truthy (aq_createdBefore q), aq_cursor = truthy (aq_cursor q), aq_limit = aq_limit q\<rparr>"

definition more_query :: "string option \<Rightarrow> admin_query" where
  "more_query cursor = no_query\<lparr>aq_cursor := truthy cursor, aq_limit := Some 100\<rparr>"

text \<open>The body is of the kind its schema describes; what \<open>check\<close> lets through beyond that is invalid too.\<close>

definition listMessages ::
  "body_check \<Rightarrow> admin_get \<Rightarrow> ident \<Rightarrow> string option \<Rightarrow> api_failure + message list \<times> string option" where
  "listMessages check get cid cursor =
     (case client_get check get (To_messages cid) (sent_query (more_query cursor)) of
        Inr (Messages_body ms k) \<Rightarrow> Inr (ms, k) | Inr _ \<Rightarrow> Inl (invalid_response 200) | Inl e \<Rightarrow> Inl e)"

definition listEvents ::
  "body_check \<Rightarrow> admin_get \<Rightarrow> ident \<Rightarrow> string option \<Rightarrow> api_failure + conversation_event list \<times> string option" where
  "listEvents check get cid cursor =
     (case client_get check get (To_events cid) (sent_query (more_query cursor)) of
        Inr (Events_body es k) \<Rightarrow> Inr (es, k) | Inr _ \<Rightarrow> Inl (invalid_response 200) | Inl e \<Rightarrow> Inl e)"

definition getConversation :: "body_check \<Rightarrow> admin_get \<Rightarrow> ident \<Rightarrow> api_failure + conversation" where
  "getConversation check get cid =
     (case client_get check get (To_conversation cid) (sent_query no_query) of
        Inr (Conversation_body c) \<Rightarrow> Inr c | Inr _ \<Rightarrow> Inl (invalid_response 200) | Inl e \<Rightarrow> Inl e)"

definition listConversations ::
  "body_check \<Rightarrow> admin_get \<Rightarrow> admin_query \<Rightarrow> api_failure + (conversation \<times> string option) list \<times> string option" where
  "listConversations check get filters =
     (case client_get check get To_conversations (sent_query filters) of
        Inr (Conversations_body cs k) \<Rightarrow> Inr (cs, k) | Inr _ \<Rightarrow> Inl (invalid_response 200) | Inl e \<Rightarrow> Inl e)"

subsection \<open>A resource\<close>

text \<open>
  An effect's controller is the number of the effect: a newer effect has aborted it. A load tells its
  error's message.
\<close>

record 'a resource =
  rs_data :: "'a option"
  rs_error :: "string option"
  rs_pending :: bool
  rs_hasData :: bool
  rs_effect :: nat

definition run_effect :: "'a resource \<Rightarrow> 'a resource" where
  "run_effect r = r\<lparr>rs_effect := Suc (rs_effect r), rs_pending := True, rs_error := None\<rparr>"

definition new_resource :: "'a resource" where
  "new_resource = run_effect
     \<lparr>rs_data = None, rs_error = None, rs_pending = True, rs_hasData = False, rs_effect = 0\<rparr>"

definition load_settled :: "nat \<Rightarrow> api_failure + 'a \<Rightarrow> 'a resource \<Rightarrow> 'a resource" where
  "load_settled n result r =
     (if n \<noteq> rs_effect r then r
      else (case result of
          Inl e \<Rightarrow> r\<lparr>rs_error := Some (ce_message e), rs_pending := False\<rparr>
        | Inr x \<Rightarrow> r\<lparr>rs_data := Some x, rs_hasData := True, rs_pending := False\<rparr>))"

definition loading :: "'a resource \<Rightarrow> bool" where
  "loading r \<longleftrightarrow> rs_pending r \<and> \<not> rs_hasData r"

definition refreshing :: "'a resource \<Rightarrow> bool" where
  "refreshing r \<longleftrightarrow> rs_pending r \<and> rs_hasData r"

text \<open>What a component draws of a resource: neither while it loads first nor after an error its data.\<close>

definition drawn :: "'a resource \<Rightarrow> 'a option" where
  "drawn r = (if loading r \<or> truthy (rs_error r) \<noteq> None then None else rs_data r)"

subsection \<open>The inspector of a conversation\<close>

datatype detail_tab = Transcript_tab | Events_tab

text \<open>A page's pagination is its next cursor, if there is more. \<open>cd_more\<close> is the page under way.\<close>

record conversation_detail =
  cd_conversationId :: ident
  cd_tab :: detail_tab
  cd_conversation :: "conversation resource"
  cd_messages :: "(message list \<times> string option) resource"
  cd_events :: "(conversation_event list \<times> string option) resource"
  cd_additionalMessages :: "message list"
  cd_additionalEvents :: "conversation_event list"
  cd_messageContinuation :: "string option option"
  cd_eventContinuation :: "string option option"
  cd_more :: "(detail_tab \<times> ident \<times> string option) option"
  cd_continuationError :: string

definition new_detail :: "ident \<Rightarrow> conversation_detail" where
  "new_detail cid = \<lparr>cd_conversationId = cid, cd_tab = Transcript_tab, cd_conversation = new_resource,
     cd_messages = new_resource, cd_events = new_resource, cd_additionalMessages = [], cd_additionalEvents = [],
     cd_messageContinuation = None, cd_eventContinuation = None, cd_more = None, cd_continuationError = []\<rparr>"

text \<open>The effects of another conversation or another refresh.\<close>

definition detail_effects :: "conversation_detail \<Rightarrow> conversation_detail" where
  "detail_effects d = d\<lparr>cd_conversation := run_effect (cd_conversation d), cd_messages := run_effect (cd_messages d),
     cd_events := run_effect (cd_events d), cd_additionalMessages := [], cd_additionalEvents := [],
     cd_messageContinuation := None, cd_eventContinuation := None, cd_continuationError := []\<rparr>"

definition messagePagination :: "conversation_detail \<Rightarrow> string option option" where
  "messagePagination d = (case cd_messageContinuation d of
     Some k \<Rightarrow> Some k | None \<Rightarrow> map_option snd (rs_data (cd_messages d)))"

definition eventPagination :: "conversation_detail \<Rightarrow> string option option" where
  "eventPagination d = (case cd_eventContinuation d of
     Some k \<Rightarrow> Some k | None \<Rightarrow> map_option snd (rs_data (cd_events d)))"

definition loadMore :: "conversation_detail \<Rightarrow> conversation_detail" where
  "loadMore d =
     (case (case cd_tab d of Transcript_tab \<Rightarrow> messagePagination d | Events_tab \<Rightarrow> eventPagination d) of
        Some (Some cursor) \<Rightarrow>
          if cd_more d \<noteq> None then d
          else d\<lparr>cd_more := Some (cd_tab d, cd_conversationId d, Some cursor), cd_continuationError := []\<rparr>
      | _ \<Rightarrow> d)"

definition more_failed :: "api_failure \<Rightarrow> conversation_detail \<Rightarrow> conversation_detail" where
  "more_failed e d = d\<lparr>cd_continuationError := ce_message e, cd_more := None\<rparr>"

definition more_messages :: "message list \<times> string option \<Rightarrow> conversation_detail \<Rightarrow> conversation_detail" where
  "more_messages page d = d\<lparr>cd_additionalMessages := cd_additionalMessages d @ fst page,
     cd_messageContinuation := Some (snd page), cd_more := None\<rparr>"

definition more_events :: "conversation_event list \<times> string option \<Rightarrow> conversation_detail \<Rightarrow> conversation_detail" where
  "more_events page d = d\<lparr>cd_additionalEvents := cd_additionalEvents d @ fst page,
     cd_eventContinuation := Some (snd page), cd_more := None\<rparr>"

datatype detail_step =
    Selected_conversation ident
  | Refreshed
  | Tab_chosen detail_tab
  | Retried_conversation
  | Retried_messages
  | Retried_events
  | Conversation_loaded nat "api_failure + conversation"
  | Messages_loaded nat "api_failure + message list \<times> string option"
  | Events_loaded nat "api_failure + conversation_event list \<times> string option"
  | More_clicked
  | More_messages_answered "api_failure + message list \<times> string option"
  | More_events_answered "api_failure + conversation_event list \<times> string option"

fun detail_next :: "detail_step \<Rightarrow> conversation_detail \<Rightarrow> conversation_detail" where
  "detail_next (Selected_conversation cid) d =
     (if cid = cd_conversationId d then d else detail_effects (d\<lparr>cd_conversationId := cid\<rparr>))"
| "detail_next Refreshed d = detail_effects d"
| "detail_next (Tab_chosen t) d = d\<lparr>cd_tab := t\<rparr>"
| "detail_next Retried_conversation d = d\<lparr>cd_conversation := run_effect (cd_conversation d)\<rparr>"
| "detail_next Retried_messages d = d\<lparr>cd_messages := run_effect (cd_messages d)\<rparr>"
| "detail_next Retried_events d = d\<lparr>cd_events := run_effect (cd_events d)\<rparr>"
| "detail_next (Conversation_loaded n result) d = d\<lparr>cd_conversation := load_settled n result (cd_conversation d)\<rparr>"
| "detail_next (Messages_loaded n result) d = d\<lparr>cd_messages := load_settled n result (cd_messages d)\<rparr>"
| "detail_next (Events_loaded n result) d = d\<lparr>cd_events := load_settled n result (cd_events d)\<rparr>"
| "detail_next More_clicked d = loadMore d"
| "detail_next (More_messages_answered result) d =
     (if map_option fst (cd_more d) \<noteq> Some Transcript_tab then d
      else (case result of Inl e \<Rightarrow> more_failed e d | Inr page \<Rightarrow> more_messages page d))"
| "detail_next (More_events_answered result) d =
     (if map_option fst (cd_more d) \<noteq> Some Events_tab then d
      else (case result of Inl e \<Rightarrow> more_failed e d | Inr page \<Rightarrow> more_events page d))"

text \<open>The transcript and the timeline that are drawn.\<close>

definition shown_transcript :: "conversation_detail \<Rightarrow> message list option" where
  "shown_transcript d = (if drawn (cd_conversation d) = None then None
     else map_option (\<lambda>page. fst page @ cd_additionalMessages d) (drawn (cd_messages d)))"

definition shown_timeline :: "conversation_detail \<Rightarrow> conversation_event list option" where
  "shown_timeline d = (if drawn (cd_conversation d) = None then None
     else map_option (\<lambda>page. fst page @ cd_additionalEvents d) (drawn (cd_events d)))"

subsection \<open>The lists of runs, failures and handoffs\<close>

datatype operations_view = Runs_view | Failures_view | Handoffs_view

text \<open>The statuses the views offer.\<close>

fun viewStatuses :: "operations_view \<Rightarrow> string list" where
  "viewStatuses Runs_view = [''queued'', ''running'', ''waiting_for_input'', ''completed'', ''failed'',
     ''cancel_requested'', ''cancelled'']"
| "viewStatuses Failures_view = []"
| "viewStatuses Handoffs_view = [''requested'', ''awaiting_contact'', ''delivering'', ''completed'', ''failed'']"

record operations_list =
  ol_view :: operations_view
  ol_siteId :: ident
  ol_status :: string
  ol_resource :: "admin_body resource"

definition new_operations :: "operations_view \<Rightarrow> ident \<Rightarrow> operations_list" where
  "new_operations view siteId =
     \<lparr>ol_view = view, ol_siteId = siteId, ol_status = [], ol_resource = new_resource\<rparr>"

definition operations_loader ::
  "body_check \<Rightarrow> admin_get \<Rightarrow> operations_list \<Rightarrow> api_failure + admin_body" where
  "operations_loader check get ol =
     (let q = no_query\<lparr>aq_limit := Some 100, aq_siteId := Some (ol_siteId ol)\<rparr>;
          filtered = q\<lparr>aq_status := truthy (Some (ol_status ol))\<rparr>
      in case ol_view ol of
        Runs_view \<Rightarrow> client_get check get To_runs (sent_query filtered)
      | Failures_view \<Rightarrow> client_get check get To_failures (sent_query q)
      | Handoffs_view \<Rightarrow> client_get check get To_handoffs (sent_query filtered))"

datatype operations_step =
    View_opened operations_view
  | Status_chosen string
  | Site_selected ident
  | List_refreshed
  | List_loaded nat "api_failure + admin_body"

text \<open>The views share one component, whose status outlives a change of the view.\<close>

definition operations_effect :: "operations_list \<Rightarrow> operations_list" where
  "operations_effect ol = ol\<lparr>ol_resource := run_effect (ol_resource ol)\<rparr>"

fun operations_next :: "operations_step \<Rightarrow> operations_list \<Rightarrow> operations_list" where
  "operations_next (View_opened v) ol = (if v = ol_view ol then ol else operations_effect (ol\<lparr>ol_view := v\<rparr>))"
| "operations_next (Status_chosen s) ol =
     (if s = ol_status ol \<or> s \<notin> set ([] # viewStatuses (ol_view ol)) then ol
      else operations_effect (ol\<lparr>ol_status := s\<rparr>))"
| "operations_next (Site_selected site) ol =
     (if site = ol_siteId ol then ol else operations_effect (ol\<lparr>ol_siteId := site\<rparr>))"
| "operations_next List_refreshed ol = operations_effect ol"
| "operations_next (List_loaded n result) ol = ol\<lparr>ol_resource := load_settled n result (ol_resource ol)\<rparr>"

text \<open>The loader's answer to the current effect.\<close>

definition list_answered :: "body_check \<Rightarrow> admin_get \<Rightarrow> operations_list \<Rightarrow> operations_list" where
  "list_answered check get ol =
     operations_next (List_loaded (rs_effect (ol_resource ol)) (operations_loader check get ol)) ol"

subsection \<open>The server behind the client\<close>

definition server_get ::
  "'k::linorder admin_host \<Rightarrow> js_date \<Rightarrow> string option \<Rightarrow> string option \<Rightarrow> db \<Rightarrow> admin_get" where
  "server_get host now authorization cookie d target q = Some (fst (admin_handle host now
     \<lparr>am_target = target, am_query = q, am_authorization = authorization, am_cookie = cookie\<rparr> d))"

lemma truthy_twice [simp]: "truthy (truthy x) = truthy x"
  by (auto simp: truthy_def)

lemma server_refuses_status:
  assumes "s \<in> set (viewStatuses v)" and "s \<notin> set (viewStatuses (ol_view ol))" and "ol_view ol \<noteq> Failures_view"
    and "ol_status ol = s"
  shows "operations_loader check (server_get host now authorization cookie d) ol = Inl (safeResponseError 400)"
proof -
  have "s \<noteq> []" using assms(1) by (cases v) auto
  moreover have "ol_view ol = Runs_view \<Longrightarrow> map_of run_statuses s = None"
    using assms(2) by (auto simp: run_statuses_def)
  moreover have "ol_view ol = Handoffs_view \<Longrightarrow> map_of handoff_statuses s = None"
    using assms(2) by (auto simp: handoff_statuses_def)
  ultimately show ?thesis
    using assms(3,4) by (cases "ol_view ol")
      (auto simp: operations_loader_def client_get_def server_get_def admin_handle_def admin_schema_ok_def
        status_ok_def sent_query_def truthy_def Let_def)
qed

text \<open>
  C24: a status chosen in one of the dashboard's lists makes a list without that status unusable: choosing a
  status of runs, such as \<open>queued\<close>, and opening the handoffs, the status is kept and asked for, the server
  refuses the request whatever the database holds, and instead of the list an error is shown, however often
  the list is loaded again.
\<close>

theorem status_kept_between_views:
  assumes "s \<in> set (viewStatuses (ol_view ol))" and "s \<notin> set (viewStatuses v)" and "v \<noteq> Failures_view"
    and "answered = list_answered check (server_get host now authorization cookie d)"
    and "shown = ((answered \<circ> operations_next List_refreshed) ^^ n)
       (answered (fold operations_next [Status_chosen s, View_opened v] ol))"
  shows "ol_view shown = v \<and> ol_status shown = s \<and> drawn (ol_resource shown) = None
     \<and> rs_error (ol_resource shown) = Some ''The dashboard request failed.''"
proof -
  let ?ok = "\<lambda>ol. ol_view ol = v \<and> ol_status ol = s"
  have kept: "?ok (answered ol') \<and> rs_error (ol_resource (answered ol')) = Some ''The dashboard request failed.''"
    if "?ok ol'" for ol'
  proof -
    have "operations_loader check (server_get host now authorization cookie d) ol' = Inl (safeResponseError 400)"
      by (rule server_refuses_status [OF assms(1)]) (use assms(2,3) that in auto)
    then show ?thesis using that by (simp add: assms(4) list_answered_def load_settled_def safeResponseError_def)
  qed
  define start where "start = answered (fold operations_next [Status_chosen s, View_opened v] ol)"
  have "?ok (fold operations_next [Status_chosen s, View_opened v] ol)"
    using assms(1,2) by (auto simp: operations_effect_def)
  then have first: "?ok start \<and> rs_error (ol_resource start) = Some ''The dashboard request failed.''"
    unfolding start_def by (rule kept)
  define again where "again = answered \<circ> operations_next List_refreshed"
  have again: "?ok (again x) \<and> rs_error (ol_resource (again x)) = Some ''The dashboard request failed.''"
    if "?ok x" for x
    unfolding again_def comp_def by (rule kept) (use that in \<open>simp add: operations_effect_def\<close>)
  have "?ok ((again ^^ n) start)
      \<and> rs_error (ol_resource ((again ^^ n) start)) = Some ''The dashboard request failed.''"
    by (induction n) (use first again in simp_all)
  then show ?thesis by (simp add: drawn_def truthy_def assms(5) start_def again_def)
qed

lemma status_kept_between_views_witness:
  "rs_error (ol_resource (list_answered (\<lambda>_ _. True) (server_get sample_admin_host 5000 None None sample_chat)
     (fold operations_next [Status_chosen ''queued'', View_opened Handoffs_view] (new_operations Runs_view ''s1''))))
   = Some ''The dashboard request failed.''"
  using status_kept_between_views [of "''queued''" "new_operations Runs_view ''s1''" Handoffs_view
      "list_answered (\<lambda>_ _. True) (server_get sample_admin_host 5000 None None sample_chat)" "\<lambda>_ _. True"
      sample_admin_host 5000 None None sample_chat _ 0]
  by (simp add: new_operations_def)

subsection \<open>The whole transcript\<close>

definition open_conversation :: "body_check \<Rightarrow> admin_get \<Rightarrow> ident \<Rightarrow> conversation_detail" where
  "open_conversation check get cid = fold detail_next
     [Conversation_loaded 1 (getConversation check get cid), Messages_loaded 1 (listMessages check get cid None),
      Events_loaded 1 (listEvents check get cid None)] (new_detail cid)"

text \<open>A click on \<open>Load more history\<close> and its answer.\<close>

definition load_more_once :: "body_check \<Rightarrow> admin_get \<Rightarrow> conversation_detail \<Rightarrow> conversation_detail" where
  "load_more_once check get d = (let d1 = loadMore d in case cd_more d1 of
     None \<Rightarrow> d1
   | Some (Transcript_tab, cid, k) \<Rightarrow> detail_next (More_messages_answered (listMessages check get cid k)) d1
   | Some (Events_tab, cid, k) \<Rightarrow> detail_next (More_events_answered (listEvents check get cid k)) d1)"

text \<open>The server answers this operator and the client accepts what it answers.\<close>

definition admitted ::
  "body_check \<Rightarrow> 'k admin_host \<Rightarrow> js_date \<Rightarrow> string option \<Rightarrow> string option \<Rightarrow> admin_claims \<Rightarrow> bool" where
  "admitted check host now authorization cookie claims \<longleftrightarrow>
     map_sum id fst (authenticateAdmin (hm_tokens host) authorization cookie now) = Inr claims
     \<and> (\<forall>target body. check target body)"

lemma listMessages_server:
  assumes "admitted check host now authorization cookie claims" and "opaque_id cid"
    and "opt_ok cursor_text_ok (truthy cursor)"
    and "admin_messages (scope_of claims) cid 100 (truthy cursor) d = Inr page"
  shows "listMessages check (server_get host now authorization cookie d) cid cursor = Inr page"
  using assms
  by (auto simp: admitted_def listMessages_def client_get_def server_get_def admin_handle_def admin_schema_ok_def
      page_ok_def page_query_ok_def sent_query_def more_query_def no_query_def page_limit_def query_service_def Let_def
      split: sum.splits prod.splits)

lemma getConversation_server:
  assumes "admitted check host now authorization cookie claims" and "opaque_id cid"
    and "admin_conversation (scope_of claims) cid d = Inr c"
  shows "getConversation check (server_get host now authorization cookie d) cid = Inr c"
  using assms
  by (auto simp: admitted_def getConversation_def client_get_def server_get_def admin_handle_def admin_schema_ok_def
      query_service_def split: sum.splits prod.splits)

text \<open>The cursor after the first \<open>n\<close> rows, if there are more.\<close>

definition cursor_after :: "message_row list \<Rightarrow> nat \<Rightarrow> string option" where
  "cursor_after rows n =
     (if n < length rows then Some (encodeSequenceCursor Cur_message (m_sequence (rows ! (n - 1)))) else None)"

lemma listed_first:
  assumes "admitted check host now authorization cookie claims" and "opaque_id cid"
    and "transcript_ok (scope_of claims) cid d" and "rows = operator_messages (scope_of claims) cid d"
  shows "listMessages check (server_get host now authorization cookie d) cid None
     = Inr (map mapMessage (take 100 rows), cursor_after rows 100)"
proof (rule listMessages_server [OF assms(1,2)])
  show "admin_messages (scope_of claims) cid 100 (truthy None) d
      = Inr (map mapMessage (take 100 rows), cursor_after rows 100)"
    using operator_transcript.first_page [of "(scope_of claims, cid, d, 100)"] assms(3)
    by (simp add: truthy_def take_map cursor_after_def assms(4))
qed (simp add: truthy_def)

lemma listed_next:
  assumes "admitted check host now authorization cookie claims" and "opaque_id cid"
    and "transcript_ok (scope_of claims) cid d" and "rows = operator_messages (scope_of claims) cid d"
    and "cursor_after rows (Suc n) = Some k"
  shows "listMessages check (server_get host now authorization cookie d) cid (Some k)
     = Inr (map mapMessage (take 100 (drop (Suc n) rows)), cursor_after rows (Suc n + 100))"
proof -
  have n: "Suc n < length rows" and k: "k = encodeSequenceCursor Cur_message (m_sequence (rows ! n))"
    using assms(5) by (auto simp: cursor_after_def split: if_splits)
  have "1 \<le> m_sequence (rows ! n)" "m_sequence (rows ! n) \<le> int4_max"
    using assms(3) n by (auto simp: transcript_ok_def list_all_length assms(4))
  then have ok: "cursor_text_ok k" unfolding k by (rule sequence_cursor_text)
  have truthy: "truthy (Some (encodeSequenceCursor Cur_message m)) = Some (encodeSequenceCursor Cur_message m)" for m
    by (simp add: truthy_def encode_sequence_nonempty)
  show ?thesis
  proof (rule listMessages_server [OF assms(1,2)])
    show "admin_messages (scope_of claims) cid 100 (truthy (Some k)) d
        = Inr (map mapMessage (take 100 (drop (Suc n) rows)), cursor_after rows (Suc n + 100))"
      using operator_transcript.next_page [of "(scope_of claims, cid, d, 100)" n] assms(3) n
      by (simp add: truthy k take_map drop_map cursor_after_def assms(4) add.commute)
  qed (use ok in \<open>simp add: k truthy\<close>)
qed

text \<open>The inspector after \<open>n\<close> further pages.\<close>

definition inspecting :: "ident \<Rightarrow> message_row list \<Rightarrow> nat \<Rightarrow> conversation_detail \<Rightarrow> bool" where
  "inspecting cid rows n d \<longleftrightarrow> cd_conversationId d = cid \<and> cd_tab d = Transcript_tab \<and> cd_more d = None
     \<and> shown_transcript d = Some (map mapMessage (take (100 * Suc n) rows))
     \<and> messagePagination d = Some (cursor_after rows (100 * Suc n))"

lemma open_inspecting:
  assumes "admitted check host now authorization cookie claims" and "opaque_id cid"
    and "transcript_ok (scope_of claims) cid d"
  shows "inspecting cid (operator_messages (scope_of claims) cid d) 0
     (open_conversation check (server_get host now authorization cookie d) cid)"
proof -
  obtain c where "admin_conversation (scope_of claims) cid d = Inr c"
    using assms(3) by (auto simp: transcript_ok_def admin_conversation_def)
  note conversation = getConversation_server [OF assms(1,2) this]
  show ?thesis
    by (simp add: open_conversation_def conversation listed_first [OF assms refl] inspecting_def new_detail_def
        new_resource_def run_effect_def load_settled_def shown_transcript_def drawn_def loading_def truthy_def
        messagePagination_def)
qed

lemma more_inspecting:
  assumes "admitted check host now authorization cookie claims" and "opaque_id cid"
    and "transcript_ok (scope_of claims) cid d" and "rows = operator_messages (scope_of claims) cid d"
    and "inspecting cid rows n v"
  shows "inspecting cid rows (Suc n) (load_more_once check (server_get host now authorization cookie d) v)"
proof (cases "cursor_after rows (100 * Suc n)")
  case None
  have "length rows \<le> 100 * Suc n" using None by (auto simp: cursor_after_def split: if_splits)
  then have "take (100 * Suc n) rows = rows" "take (100 * Suc (Suc n)) rows = rows"
      "cursor_after rows (100 * Suc (Suc n)) = None"
    by (auto simp: cursor_after_def)
  moreover have "load_more_once check get v = v" for get
    using assms(5) None by (simp add: load_more_once_def loadMore_def inspecting_def)
  ultimately show ?thesis using assms(5) None by (simp add: inspecting_def)
next
  case (Some k)
  have after: "cursor_after rows (Suc (100 * n + 99)) = Some k" using Some by simp
  note page = listed_next [OF assms(1-4) after]
  have all: "take (200 + 100 * n) rows = take (100 + 100 * n) rows @ take 100 (drop (100 + 100 * n) rows)"
    using take_add [of "100 + 100 * n" 100 rows] by (simp add: add.commute)
  obtain shown where shown: "drawn (cd_conversation v) \<noteq> None" "drawn (cd_messages v) = Some shown"
      "fst shown @ cd_additionalMessages v = map mapMessage (take (100 * Suc n) rows)"
    using assms(5) by (auto simp: inspecting_def shown_transcript_def split: if_splits)
  have "load_more_once check (server_get host now authorization cookie d) v
      = more_messages (map mapMessage (take 100 (drop (Suc (100 * n + 99)) rows)), cursor_after rows (200 + 100 * n))
          (v\<lparr>cd_more := Some (Transcript_tab, cid, Some k), cd_continuationError := []\<rparr>)"
    using assms(5) Some page by (simp add: load_more_once_def loadMore_def inspecting_def Let_def)
  then show ?thesis
    using assms(5) shown
    by (simp add: inspecting_def more_messages_def shown_transcript_def messagePagination_def all
        flip: append_assoc)
qed


subsection \<open>Another conversation's history\<close>

lemma listMessages_rows:
  assumes "listMessages check (server_get host now authorization cookie d) cid cursor = Inr (ms, k)"
  shows "\<forall>m \<in> set ms. ms_conversationId m = cid"
proof -
  obtain scope :: admin_scope and c where "admin_messages scope cid 100 c d = Inr (ms, k)"
    using assms
    by (auto simp: listMessages_def client_get_def server_get_def admin_handle_def query_service_def sent_query_def
        more_query_def page_limit_def Let_def admin_refused_def elim!: sendError.elims
        split: sum.splits prod.splits if_splits admin_body.splits)
  from admin_messages_rows [OF this] show ?thesis by (auto simp: mapMessage_def)
qed

text \<open>
  C23: a page of history that is on its way when the operator selects another conversation is added to that
  conversation's transcript: the inspector of the second conversation ends with messages of the first, and
  its next page is asked for with the first conversation's cursor.
\<close>

theorem other_transcript_appended:
  assumes "cd_more v = Some (Transcript_tab, c1, cursor)" and "cd_conversationId v = c1" and "c2 \<noteq> c1"
    and "cd_tab v = Transcript_tab" and "get = server_get host now authorization cookie d"
    and "getConversation check get c2 = Inr conversation" and "listMessages check get c2 None = Inr (own, k2)"
    and "listMessages check get c1 cursor = Inr (others, k1)"
    and "v' = fold detail_next [Selected_conversation c2,
       Conversation_loaded (Suc (rs_effect (cd_conversation v))) (getConversation check get c2),
       Messages_loaded (Suc (rs_effect (cd_messages v))) (listMessages check get c2 None),
       More_messages_answered (listMessages check get c1 cursor)] v"
  shows "cd_conversationId v' = c2 \<and> shown_transcript v' = Some (own @ others)
     \<and> (\<forall>m \<in> set own. ms_conversationId m = c2) \<and> (\<forall>m \<in> set others. ms_conversationId m = c1)
     \<and> (\<forall>k. k1 = Some k \<longrightarrow> cd_more (loadMore v') = Some (Transcript_tab, c2, Some k))"
proof -
  have "cd_conversationId v' = c2 \<and> shown_transcript v' = Some (own @ others)
     \<and> (\<forall>k. k1 = Some k \<longrightarrow> cd_more (loadMore v') = Some (Transcript_tab, c2, Some k))"
    using assms(1-4,6-8)
    by (simp add: assms(9) detail_effects_def run_effect_def load_settled_def more_messages_def shown_transcript_def
        drawn_def loading_def truthy_def loadMore_def messagePagination_def)
  then show ?thesis using listMessages_rows assms(5,7,8) by blast
qed

text \<open>Until the new conversation's answers come, the old one's are shown under its name.\<close>

lemma stale_transcript_shown:
  assumes "c2 \<noteq> cd_conversationId v" and "drawn (cd_conversation v) = Some conversation"
    and "drawn (cd_messages v) = Some page" and "\<not> rs_pending (cd_conversation v)" and "rs_hasData (cd_conversation v)"
    and "rs_hasData (cd_messages v)"
  shows "cd_conversationId (detail_next (Selected_conversation c2) v) = c2
     \<and> shown_transcript (detail_next (Selected_conversation c2) v) = Some (fst page)
     \<and> drawn (cd_conversation (detail_next (Selected_conversation c2) v)) = Some conversation"
  using assms
  by (cases page) (auto simp: detail_effects_def run_effect_def shown_transcript_def drawn_def loading_def truthy_def
      split: if_splits)

subsection \<open>A concrete conversation\<close>

definition sample_row :: "ident \<Rightarrow> int \<Rightarrow> message_row" where
  "sample_row i n = \<lparr>m_message_id = i, m_tenant_id = ''t1'', m_site_id = ''s1'', m_conversation_id = ''c1'',
     m_sequence = n, m_participant_id = ''u1'', m_role = Role_user, m_status = Msg_completed,
     m_parts = [TextPart i], m_created_at = 1000, m_completed_at = Some 1000\<rparr>"

definition sample_history :: db where
  "sample_history = sample_chat\<lparr>conversations := [sample_conversation ''c1'' 1000, sample_conversation ''c2'' 1000],
     messages := [sample_row ''m2'' 2, sample_row ''m1'' 1]\<rparr>"

abbreviation sample_operator_claims :: admin_claims where
  "sample_operator_claims \<equiv> admin_issued show_int 60 sample_operator 5000"

lemma sample_admitted:
  "\<exists>token. admitted (\<lambda>_ _. True) sample_admin_host 5000 (Some (''Bearer '' @ token)) None sample_operator_claims"
proof -
  obtain token where token: "token \<noteq> []" "admin_verify sample_jwt read_int [replicate 32 (CHR ''k'')] token 5000
     = Some sample_operator_claims"
    using sample_admin_token by blast
  from sample_authenticated [OF this] show ?thesis
    by (intro exI [of _ token]) (auto simp: admitted_def sample_question_def)
qed

lemma sample_transcripts:
  "operator_messages (scope_of sample_operator_claims) ''c1'' sample_history = [sample_row ''m1'' 1, sample_row ''m2'' 2]"
  "operator_messages (scope_of sample_operator_claims) ''c2'' sample_history = []"
  "transcript_ok (scope_of sample_operator_claims) ''c1'' sample_history"
  "transcript_ok (scope_of sample_operator_claims) ''c2'' sample_history"
  by (simp_all add: transcript_ok_def operator_messages_def order_asc_def sample_history_def sample_row_def sample_defs
      scope_of_def admin_issued_def sample_operator_def scopedConversation_def int4_max_def)

lemma sample_conversation_ids: "opaque_id ''c1''" "opaque_id ''c2''"
  by (simp_all add: id_defs)


definition loading_detail :: conversation_detail where
  "loading_detail = (new_detail ''c1'')\<lparr>cd_more := Some (Transcript_tab, ''c1'', Some (encodeSequenceCursor Cur_message 1))\<rparr>"

lemma other_transcript_appended_witness:
  "\<exists>v' get. v' = fold detail_next [Selected_conversation ''c2'',
       Conversation_loaded 2 (getConversation (\<lambda>_ _. True) get ''c2''),
       Messages_loaded 2 (listMessages (\<lambda>_ _. True) get ''c2'' None),
       More_messages_answered (listMessages (\<lambda>_ _. True) get ''c1'' (Some (encodeSequenceCursor Cur_message 1)))]
     loading_detail \<and> cd_conversationId v' = ''c2'' \<and> shown_transcript v' = Some [mapMessage (sample_row ''m2'' 2)]"
proof -
  obtain token where ok: "admitted (\<lambda>_ _. True) sample_admin_host 5000 (Some (''Bearer '' @ token)) None sample_operator_claims"
    using sample_admitted by blast
  let ?get = "server_get sample_admin_host 5000 (Some (''Bearer '' @ token)) None sample_history"
  obtain c where "admin_conversation (scope_of sample_operator_claims) ''c2'' sample_history = Inr c"
    using sample_transcripts(4) by (auto simp: transcript_ok_def admin_conversation_def)
  note conversation = getConversation_server [OF ok sample_conversation_ids(2) this]
  have own: "listMessages (\<lambda>_ _. True) ?get ''c2'' None = Inr ([], None)"
    using listed_first [OF ok sample_conversation_ids(2) sample_transcripts(4) refl]
    by (simp add: sample_transcripts cursor_after_def)
  have others: "listMessages (\<lambda>_ _. True) ?get ''c1'' (Some (encodeSequenceCursor Cur_message 1))
      = Inr ([mapMessage (sample_row ''m2'' 2)], None)"
    using listed_next [OF ok sample_conversation_ids(1) sample_transcripts(3) refl, of 0 "encodeSequenceCursor Cur_message 1"]
    by (simp add: sample_transcripts cursor_after_def sample_row_def)
  have waiting: "cd_more loading_detail = Some (Transcript_tab, ''c1'', Some (encodeSequenceCursor Cur_message 1))"
      "cd_conversationId loading_detail = ''c1''" "''c2'' \<noteq> ''c1''" "cd_tab loading_detail = Transcript_tab"
      "Suc (rs_effect (cd_conversation loading_detail)) = 2" "Suc (rs_effect (cd_messages loading_detail)) = 2"
    by (simp_all add: loading_detail_def new_detail_def new_resource_def run_effect_def)
  show ?thesis
    using other_transcript_appended [OF waiting(1-4) refl conversation own others refl, unfolded waiting(5,6) append_Nil]
    by blast
qed

end
