(* ===== verification/Spec2Isabelle.thy ===== *)
theory Spec2Isabelle
  imports EmailHandoff RateLimit Retention Config BrowserStorage ClientBehaviour Http Gateway DirectChat SiteWidget Dashboard
begin

text \<open>
  A verification library of the chat core: the server (\<open>apps/server/src\<close>), its contracts
  (\<open>packages/protocol/src\<close>), the connectors to agents (\<open>connectors\<close>, \<open>packages/server-sdk/src\<close>), the browser
  client (\<open>packages/browser-client/src\<close>), the operators' dashboard (\<open>apps/dashboard/src\<close>) and the two example
  deployments with their widgets (\<open>examples/cloudflare-worker\<close>, \<open>examples/direct-chat-widget\<close>).

  \<^bold>\<open>How the parts work together.\<close> A visitor's browser bootstraps a session for a site, creates a conversation and
  submits messages; each submission stores the message and queues a run. A worker claims the run under a lease,
  lets a connector execute it, stores the connector's events in the conversation's log and publishes them; the
  browser follows the log through a stream of server-sent events and shows what it reads. A run may ask for an
  input or hand the conversation off by email. Operators read everything of their tenant through the admin
  routes. In front of the server may stand the gateway, which knows the sites that the provisioning registered.

  \<^bold>\<open>Vocabulary.\<close> \<open>Prelude\<close>: strings, clocks, failures and the table operations of the queries. \<open>Encoding\<close>,
  \<open>Json\<close>, \<open>Text\<close>: the parts of the standard library the code uses, executable and with their round trips.
  \<open>Protocol\<close>: the schemas of \<open>packages/protocol/src\<close>. \<open>Schema\<close>: the database as a record of tables with one
  insertion per table that checks the constraints of the migrations. An exception or an error answer is the left
  side of a sum, a transaction a function from the database to a failure or to a result with the new database.

  \<^bold>\<open>The server's services.\<close> \<open>Command\<close> and \<open>Paging\<close> hold what they share: idempotency keys (\<open>idempotent_command\<close>,
  \<open>hash_checked_command\<close>) and keyset paging (\<open>keyset_listing\<close>, whose \<open>follow_all\<close> says that a client that
  follows the cursors reads every row once), interpreted on every service and listing that promises them.
  \<open>Conversation\<close>, \<open>Message\<close>, \<open>StructuredInput\<close>, \<open>EmailHandoff\<close>, \<open>RunService\<close> (cancellation), \<open>Session\<close>
  (\<open>session/service.ts\<close>), \<open>Token\<close>, \<open>RateLimit\<close>, \<open>Retention\<close>, \<open>Provisioning\<close> and \<open>Config\<close> each model one service:
  its functions on every branch, the invariant of its tables, what a retry does, and its error paths.

  \<^bold>\<open>Events.\<close> \<open>EventStore\<close> (\<open>event/store.ts\<close>), \<open>EventBroker\<close> (\<open>event/broker.ts\<close>, with the sets it shares kept as
  references in a store) and \<open>EventStream\<close> (\<open>event/service.ts\<close>, \<open>event/route.ts\<close>). The broker refines the log a
  subscription would read, and a stream writes the log without gap or repetition after its cursor. \<open>Sse\<close> holds
  the parsers of the streams in the browser client and in the connector: what is written is read, however the
  network cuts it.

  \<^bold>\<open>Runs.\<close> \<open>Worker\<close> is \<open>run/worker.ts\<close>; every await of the worker lets the others commit (\<open>it_env\<close>). \<open>RunExecution\<close>
  proves that a claim is exclusive, that a claimed run is settled whatever the connector does, that the numbering
  is kept (locale \<open>worker_invariant\<close>), and where a stale worker overwrites a result. \<open>Connectors\<close> states the
  contract \<open>chat_connector\<close>; \<open>MockConnector\<close> and \<open>HaystackConnector\<close> model the two connectors and interpret it.

  \<^bold>\<open>The HTTP server.\<close> \<open>Http\<close> is \<open>server.ts\<close> with the public routes: schemas, authentication, handlers, limits,
  audit and counters, and the serving of a sequence of requests.

  \<^bold>\<open>Operators.\<close> \<open>AdminAuth\<close> (sign-in and tokens), \<open>AdminCursor\<close> and \<open>AdminQuery\<close> (\<open>admin/service.ts\<close>), \<open>AdminRoute\<close>
  (\<open>admin/route.ts\<close>) and \<open>Dashboard\<close> (\<open>admin-client.ts\<close>, \<open>use-resource.ts\<close>, the inspector of a conversation and
  the lists of operations). An answer depends on the rows of the token's tenant alone; the inspector reads whole
  transcripts; and the races and stale states of the dashboard are exhibited.

  \<^bold>\<open>The browser client.\<close> \<open>BrowserState\<close> is the reducer, \<open>BrowserStorage\<close> the storages (locale \<open>chat_storage\<close>),
  \<open>BrowserTransport\<close> the requests and the paging of messages. \<open>ClientPrograms\<close> has every asynchronous function of
  \<open>client.ts\<close> as a program that runs until it waits; \<open>BrowserClient\<close> is the relation \<open>client_step\<close> that interleaves
  the programs with answers, timers and other tabs, with its invariants by rule induction; \<open>ClientBehaviour\<close>
  follows runs of it.

  \<^bold>\<open>Widgets and gateway.\<close> \<open>Gateway\<close> is the worker in front of the server, \<open>WidgetView\<close> and \<open>SiteWidget\<close> the
  widget it serves (its rows, texts and statistics, and the element's life with its client), \<open>DirectChat\<close> the
  widget that talks to an agent without the server, with its worker.

  \<^bold>\<open>This theory\<close> joins the parts: what the provisioning exports for the gateway is resolved by the session service
  to the same widget and agent when the gateway forwards a session request.

  \<^bold>\<open>Parameters.\<close> The host's URL parser, SHA-256, the JWT library, \<open>Date.parse\<close> and \<open>toISOString\<close>, the email format,
  the collation, the connectors' network and the schema checker of the dashboard are arguments; what the proofs
  need of them (\<open>jwt_laws\<close>, that a written date is read back) are named hypotheses, each with a concrete
  instance in a witness. Identifiers and times that the code draws are arguments as well.

  \<^bold>\<open>Bounds.\<close> Loops over data are structural recursion or \<open>function\<close> with a measure; a worker's loop runs over the
  list of what its connector yields. Fuel occurs three times: \<open>json_parse\<close> takes more than the length of the text
  and consumes a character per call; \<open>follow\<close> and the browser's \<open>listMessages\<close> count pages, the latter with the
  bound of the source, and the theorems ask for as many pages as the rows need. A database integer is bounded by
  \<open>int4_max\<close> and overflow is an error, as in PostgreSQL; a string is a list of code units below 256.

  \<^bold>\<open>Not modelled.\<close> What draws: the React components of \<open>packages/ui-react\<close>, the markup of the dashboard and of the
  widgets, avatars, colours and printing. What wraps a library: \<open>packages/markdown\<close>, logging, the Kysely set-up
  and the migration runner. What runs processes: the server's \<open>index.ts\<close>, the polling loops and timers of the
  worker, the retention and the heartbeat, and the scripts of the examples and of the release. Indexes and the
  down migrations, which change no answer. The generated contract artifacts.
\<close>

subsection \<open>From the registry through the gateway to a session\<close>

text \<open>
  The body of \<open>POST /v1/sessions\<close> by \<open>AnonymousBootstrapRequestSchema\<close>. What Fastify makes of values that
  are not strings is left out: the gateway prints strings only.
\<close>

definition opaque_field :: "(string \<times> json) list \<Rightarrow> string \<Rightarrow> ident option option" where
  "opaque_field ps name = (case map_of (rev ps) name of
     None \<Rightarrow> Some None
   | Some (JString s) \<Rightarrow> if opaque_id s then Some (Some s) else None
   | Some _ \<Rightarrow> None)"

definition bootstrap_body :: "json \<Rightarrow> bootstrap_request option" where
  "bootstrap_body j = (case j of
     JObject ps \<Rightarrow>
       (case (opaque_field ps ''siteKey'', opaque_field ps ''widgetKey'', opaque_field ps ''agentAlias'',
              opaque_field ps ''browserIdentity'') of
          (Some (Some siteKey), Some widgetKey, Some agentAlias, Some browserIdentity) \<Rightarrow>
            Some \<lparr>br_siteKey = siteKey, br_widgetKey = widgetKey, br_agentAlias = agentAlias,
              br_browserIdentity = browserIdentity\<rparr>
        | _ \<Rightarrow> None)
   | _ \<Rightarrow> None)"

text \<open>The unique keys of the tables \<open>sites\<close> and \<open>site_widgets\<close>.\<close>

definition registry_keys :: "db \<Rightarrow> bool" where
  "registry_keys d \<longleftrightarrow> distinct (map s_site_key (sites d))
     \<and> distinct (map (\<lambda>w. (w_tenant_id w, w_site_id w, w_widget_key w)) (site_widgets d))"

text \<open>The URL parser of the server, which reads less of a URL.\<close>

definition server_url :: "(string \<Rightarrow> web_url option) \<Rightarrow> string \<Rightarrow> url option" where
  "server_url url_of s = map_option url.truncate (url_of s)"

lemma find_key:
  "distinct (map f xs) \<Longrightarrow> x \<in> set xs \<Longrightarrow> find (\<lambda>y. f y = f x) xs = Some x"
  by (rule find_distinct [where g = f]) simp_all

lemma https_origin_normal: "https_origin url_of x \<Longrightarrow> normalizeOrigin (server_url url_of) x = Some x"
  by (auto simp: https_origin_def normalizeOrigin_def server_url_def url.truncate_def)

lemma opaque_field_Some:
  "opaque_field ps name = Some v \<Longrightarrow> map_of (rev ps) name = Some (JString t) \<Longrightarrow> v = Some t"
  "opaque_field ps name = Some v \<Longrightarrow> map_of (rev ps) name = None \<Longrightarrow> v = None"
  by (simp_all add: opaque_field_def split: if_splits)

lemma bootstrap_body_Some:
  assumes "bootstrap_body (JObject ps) = Some request"
  shows "opaque_field ps ''siteKey'' = Some (Some (br_siteKey request))
     \<and> opaque_field ps ''widgetKey'' = Some (br_widgetKey request)
     \<and> opaque_field ps ''agentAlias'' = Some (br_agentAlias request)"
  using assms unfolding bootstrap_body_def by (auto split: option.splits)

lemma session_fields_read:
  assumes "bootstrap_body (JObject (identity @ session_fields siteKey chosen)) = Some request"
    and "identity = [] \<or> (\<exists>b. identity = [(''browserIdentity'', JString b)])"
  shows "br_siteKey request = siteKey
     \<and> (case chosen of None \<Rightarrow> br_widgetKey request = None \<and> br_agentAlias request = None
        | Some (w, agent) \<Rightarrow> br_widgetKey request = Some (wc_widgetKey w) \<and> br_agentAlias request = Some agent)"
proof -
  let ?ps = "identity @ session_fields siteKey chosen"
  note fields = bootstrap_body_Some [OF assms(1)]
  have "map_of (rev ?ps) ''siteKey'' = Some (JString siteKey)"
    using assms(2) by (auto simp: session_fields_def split: option.split)
  moreover have "map_of (rev ?ps) ''widgetKey'' = map_option (\<lambda>(w, agent). JString (wc_widgetKey w)) chosen"
    using assms(2) by (auto simp: session_fields_def split: option.split)
  moreover have "map_of (rev ?ps) ''agentAlias'' = map_option (\<lambda>(w, agent). JString agent) chosen"
    using assms(2) by (auto simp: session_fields_def split: option.split)
  ultimately show ?thesis
    using fields opaque_field_Some [of ?ps "''siteKey''"] opaque_field_Some [of ?ps "''widgetKey''"]
      opaque_field_Some [of ?ps "''agentAlias''"]
    by (cases chosen) (fastforce split: prod.split)+
qed

lemma bootstrap_transaction_refusal:
  "bootstrap_transaction hash ids clock e site request key env d = Inl failure \<Longrightarrow>
     failure = Unexpected \<or> failure = ApiError IDEMPOTENCY_KEY_REUSED 409"
proof -
  have principal: "require_principal ids clock site b env d = Inl f \<Longrightarrow> f = Unexpected" for b d f
    by (auto simp: require_principal_def insert_principal_if_new_def insert_principal_def Let_def
        split: option.splits if_splits)
  have session: "require_session ids clock e site p env d = Inl f \<Longrightarrow> f = Unexpected" for p d f
    by (auto simp: require_session_def insert_or_extend_session_def insert_browser_session_def Let_def
        split: option.splits if_splits)
  have key_row: "insert_bootstrap_key k d = Inl f \<Longrightarrow> f = Unexpected" for k d f
    by (auto simp: insert_bootstrap_key_def split: if_splits)
  have seq: "and_then r g = Inl f \<Longrightarrow> r = Inl f \<or> (\<exists>x. r = Inr x \<and> g x = Inl f)"
    for r :: "failure + 'a" and g :: "'a \<Rightarrow> failure + 'b" and f
    by (cases r) auto
  show "bootstrap_transaction hash ids clock e site request key env d = Inl failure \<Longrightarrow> ?thesis"
    unfolding bootstrap_transaction_def Let_def
    by (auto split: if_splits dest!: seq principal session key_row)
qed

lemma worker_aliases_names:
  "fst ` set (worker_aliases key aliases) = al_alias ` set aliases"
proof -
  have "fst ` set (fold (\<lambda>alias ps. put_property (al_alias alias)
      \<lparr>wa_siteKey = key, wa_label = al_label alias, wa_emailHandoff = al_emailHandoff alias\<rparr> ps) aliases acc)
    = al_alias ` set aliases \<union> fst ` set acc" for acc
    by (induction aliases arbitrary: acc) (auto simp: keys_put_property)
  then show ?thesis by (simp add: worker_aliases_def)
qed

text \<open>The agent of a session for an exported site, when its widget and its alias are the registered ones.\<close>

lemma registered_agent:
  assumes "registry_keys d" and "(w, s) \<in> set (export_rows d)" and "opaque_id (w_widget_key w)"
    and "site_widgets d' = site_widgets d" and "e = worker_entry w s"
    and "case chosen of None \<Rightarrow> key = None \<and> asked = None
       | Some (c, agent) \<Rightarrow> key = Some (wc_widgetKey c) \<and> asked = Some agent \<and> gs_widget (site_read e) = Some c
           \<and> read_property (wc_agentAliases c) agent \<noteq> Missing"
  shows "case resolveAgentRef (s_tenant_id s) (s_site_id s) (s_agent_ref s) key asked d' of
     Inl f \<Rightarrow> f = ApiError AGENT_ALIAS_NOT_ALLOWED 403 \<and> (\<exists>a. asked = Some a \<and> inherited_name a)
   | Inr agentRef \<Rightarrow> agentRef = s_agent_ref s \<or> agentRef \<in> al_agentRef ` set (w_agent_aliases w)"
proof (cases chosen)
  case None
  then show ?thesis using assms(6) by (simp add: resolveAgentRef_def)
next
  case (Some p)
  obtain c agent where p: "p = (c, agent)" by fastforce
  have w: "w \<in> set (site_widgets d')" "s_tenant_id s = w_tenant_id w" "s_site_id s = w_site_id w"
    using assms(2,4) by (auto simp: export_rows_def)
  have "find (\<lambda>v. (w_tenant_id v, w_site_id v, w_widget_key v) = (w_tenant_id w, w_site_id w, w_widget_key w))
      (site_widgets d') = Some w"
    using assms(1,4) w(1) by (intro find_key) (simp_all add: registry_keys_def)
  then have found: "find (\<lambda>v. w_tenant_id v = s_tenant_id s \<and> w_site_id v = s_site_id s
      \<and> Some (w_widget_key v) = Some (w_widget_key w)) (site_widgets d') = Some w"
    by (simp add: w)
  have key: "key = Some (w_widget_key w)" "w_widget_key w \<noteq> []" and asked: "asked = Some agent"
    and listed: "read_property (map (\<lambda>(k, a). (k, alias_read a)) (worker_aliases (s_site_key s) (w_agent_aliases w))) agent \<noteq> Missing"
    using assms(3,5,6) by (auto simp: Some p site_read_def worker_entry_def opaque_id_def)
  have "agent \<in> al_alias ` set (w_agent_aliases w) \<or> inherited_name agent"
    using listed unfolding worker_aliases_names [of "s_site_key s", symmetric]
    by (force simp: read_property_def split: option.splits if_splits dest!: map_of_SomeD)
  moreover have "resolveAgentRef (s_tenant_id s) (s_site_id s) (s_agent_ref s) key asked d' =
      (case find (\<lambda>alias. al_alias alias = agent) (w_agent_aliases w) of
         None \<Rightarrow> Inl (ApiError AGENT_ALIAS_NOT_ALLOWED 403) | Some match \<Rightarrow> Inr (al_agentRef match))"
    using found key(2) by (simp add: resolveAgentRef_def key(1) asked)
  ultimately show ?thesis
    using asked by (auto simp: find_None_iff dest: find_SomeD split: option.split)
qed

lemma forwarded_origin: "gateway_step_of url_of env request = Forward up origin \<Longrightarrow> origin \<noteq> []"
  by (auto simp: gateway_step_of_def Let_def split: option.splits if_splits property.splits
      dest!: resolveSite_Some serve_site_Forward)

lemma exported_candidate:
  assumes "exportWorkerChatSites url_of d = Inr out" and "registry_ok d" and "out \<noteq> []"
    and "\<forall>(h, e) \<in> set out. isHostname h"
    and "url_of (ge_baseUrl env) = Some base" and "core_url_ok base"
    and "ge_haystackToken env = Some token" and "token \<noteq> []" and "ge_sites env = stringify (export_json out)"
    and "parseGatewayConfiguration url_of env = Some configuration"
    and "map_of (gc_sites configuration) host = Some candidates" and "site \<in> set candidates"
  shows "\<exists>w s e. (w, s) \<in> set (export_rows d) \<and> e = worker_entry w s \<and> site = site_read e \<and> entry_ok url_of e"
proof -
  have rows: "distinct (map fst out)"
      "\<forall>(h, e) \<in> set out. map lower_char h = h \<and> (\<exists>r \<in> set (export_rows d). row_entry_ok url_of r e)"
    using export_widgets_Inr [OF assms(1) [unfolded exportWorkerChatSites_def]] by auto
  then have "\<forall>(h, e) \<in> set out. isHostname h \<and> map lower_char h = h \<and> entry_ok url_of e"
    using assms(4) registry_entry_ok [OF assms(2)] by fastforce
  note export_configuration [OF rows(1) assms(3) this assms(5-9)]
  then have "gc_sites configuration = map (\<lambda>(h, e). (h, [site_read e])) out" using assms(10) by simp
  then obtain e where "(host, e) \<in> set out" "site = site_read e"
    using assms(11,12) by (auto dest!: map_of_SomeD)
  then show ?thesis
    using rows(2) registry_entry_ok [OF assms(2)] by (fastforce simp: row_entry_ok_def)
qed

text \<open>
  C15: the registry, the gateway and the server agree. When the gateway runs on an export of the registry and
  forwards a browser's request for a session, the server, on the same registry, finds the site, accepts the
  origin and finds the widget: it refuses neither of them, and an alias only if its name is one that every
  object inherits. The session it opens belongs to a registered site that lists the origin, and its agent is
  that site's or one that the registered widget lists.
\<close>

theorem exported_session_resolved:
  assumes "exportWorkerChatSites url_of d = Inr out" and "registry_ok d" and "registry_keys d" and "out \<noteq> []"
    and "\<forall>(h, e) \<in> set out. isHostname h"
    and "url_of (ge_baseUrl env) = Some base" and "core_url_ok base"
    and "ge_haystackToken env = Some token" and "token \<noteq> []" and "ge_sites env = stringify (export_json out)"
    and "gateway_step_of url_of env request = Forward up origin" and "u_pathname (gq_url request) = ''/v1/sessions''"
    and "Option.bind (Option.bind (up_body up) json_parse) bootstrap_body = Some asking"
    and "sites d' = sites d" and "site_widgets d' = site_widgets d"
  shows "\<exists>(w, s) \<in> set (export_rows d). origin \<in> set (s_allowed_origins s) \<and> br_siteKey asking = s_site_key s
     \<and> (case bootstrapAnonymous (server_url url_of) sha256 tk ids clock now asking origin key others d' of
          Inl f \<Rightarrow> f \<in> {Unexpected, ApiError IDEMPOTENCY_KEY_REUSED 409, ApiError AGENT_ALIAS_NOT_ALLOWED 403}
            \<and> (f = ApiError AGENT_ALIAS_NOT_ALLOWED 403 \<longrightarrow>
                 (\<exists>a. br_agentAlias asking = Some a \<and> inherited_name a))
        | Inr (r, d'') \<Rightarrow> bp_tenantId r = s_tenant_id s \<and> bp_siteId r = s_site_id s
            \<and> (bp_agentRef r = s_agent_ref s \<or> bp_agentRef r \<in> al_agentRef ` set (w_agent_aliases w)))"
proof -
  from assms(11,12) obtain configuration candidates site v chosen body where run:
    "parseGatewayConfiguration url_of env = Some configuration"
    "map_of (gc_sites configuration) (map lower_char (u_hostname (gq_url request))) = Some candidates"
    "site \<in> set candidates" "origin \<in> set (gs_allowedOrigins site)"
    and body: "up_body up = Some body" "session_body v (gs_siteKey site) chosen = Inr body"
    and chosen: "\<forall>w agent. chosen = Some (w, agent) \<longrightarrow>
       gs_widget site = Some w \<and> read_property (wc_agentAliases w) agent \<noteq> Missing"
    by (rule session_forward)
  obtain w s e where row: "(w, s) \<in> set (export_rows d)" "e = worker_entry w s" "site = site_read e"
    and ok: "entry_ok url_of e"
    using exported_candidate [OF assms(1,2,4-10) run(1-3)] by blast
  obtain identity where identity: "identity = [] \<or> (\<exists>b. identity = [(''browserIdentity'', JString b)])"
      "json_parse body = Some (JObject (identity @ session_fields (gs_siteKey site) chosen))"
    using session_body_Inr [OF body(2)] by blast
  have "bootstrap_body (JObject (identity @ session_fields (gs_siteKey site) chosen)) = Some asking"
    using assms(13) by (simp add: body(1) identity(2))
  note fields = session_fields_read [OF this identity(1)]
  have site_key: "br_siteKey asking = s_site_key s"
    using fields by (simp add: row(2,3) site_read_def worker_entry_def)
  have asked: "case chosen of None \<Rightarrow> br_widgetKey asking = None \<and> br_agentAlias asking = None
       | Some (c, agent) \<Rightarrow> br_widgetKey asking = Some (wc_widgetKey c) \<and> br_agentAlias asking = Some agent
           \<and> gs_widget (site_read e) = Some c \<and> read_property (wc_agentAliases c) agent \<noteq> Missing"
    using fields chosen by (auto simp: row(3) split: option.splits)
  have origins: "gs_allowedOrigins site = s_allowed_origins s" by (simp add: row site_read_def worker_entry_def)
  have site: "find (\<lambda>r. s_site_key r = br_siteKey asking) (sites d') = Some s"
    unfolding site_key using assms(3,14) row(1) by (intro find_key) (auto simp: registry_keys_def export_rows_def)
  have normal: "normalizeOrigin (server_url url_of) origin = Some origin"
    using ok run(4) row(2,3) by (auto simp: entry_ok_def site_read_def list_all_iff intro: https_origin_normal)
  have listed: "list_ex (\<lambda>c. normalizeOrigin (server_url url_of) c = Some origin) (s_allowed_origins s)"
    using run(4) normal by (auto simp: list_ex_iff origins)
  have "opaque_id (w_widget_key w)" using ok by (simp add: entry_ok_def row(2) worker_entry_def)
  note agent = registered_agent [OF assms(3) row(1) this assms(15) row(2) asked]
  have "bootstrapAnonymous (server_url url_of) sha256 tk ids clock now asking origin key others d' =
      and_then (resolveAgentRef (s_tenant_id s) (s_site_id s) (s_agent_ref s) (br_widgetKey asking)
        (br_agentAlias asking) d') (\<lambda>agentRef.
      and_then (bootstrap_transaction (sha256 (bootstrap_text asking)) ids clock
        (now + tk_ttlSeconds tk * 1000) s asking key others d') (\<lambda>(identity, d'').
      let (token, claims) = issue (tk_sign tk) (tk_isoText tk) (tk_secrets tk) (tk_ttlSeconds tk)
            \<lparr>ts_tenantId = s_tenant_id s, ts_siteId = s_site_id s, ts_agentRef = agentRef,
             ts_principalId = si_principalId identity, ts_sessionId = si_sessionId identity\<rparr> now
      in Inr (\<lparr>bp_accessToken = token, bp_expiresAt = cl_expiresAt claims, bp_tenantId = s_tenant_id s,
          bp_siteId = s_site_id s, bp_agentRef = agentRef, bp_identity = identity\<rparr>, d'')))"
    using normal listed forwarded_origin [OF assms(11)] by (simp add: bootstrapAnonymous_def site)
  then show ?thesis
    using agent run(4) site_key row(1) unfolding origins
    by (intro bexI [OF _ row(1)]) (auto split: sum.splits simp: case_prod_unfold Let_def and_then_Inl_iff and_then_Inr_iff
        dest!: bootstrap_transaction_refusal)
qed

definition sample_asking :: bootstrap_request where
  "sample_asking = \<lparr>br_siteKey = ''key'', br_widgetKey = Some ''main'', br_agentAlias = Some ''support'',
     br_browserIdentity = None\<rparr>"

lemma sample_asking_read: "Option.bind (json_parse (stringify sample_asked_body)) bootstrap_body = Some sample_asking"
proof -
  have "no_fraction sample_asked_body" by (simp add: sample_asked_body_def session_fields_def)
  moreover have "bootstrap_body sample_asked_body = Some sample_asking" by code_simp
  ultimately show ?thesis by (simp add: json_parse_stringify_gen)
qed

lemma exported_session_resolved_witness:
  "case bootstrapAnonymous (server_url sample_web_url) (\<lambda>_. []) sample_tokens sample_bootstrap_ids 5000000 5000
       sample_asking ''https://a'' ''k'' (\<lambda>_ d. d) sample_registry of
     Inl f \<Rightarrow> f \<noteq> ApiError SITE_NOT_FOUND 404 \<and> f \<noteq> ApiError ORIGIN_NOT_ALLOWED 403
   | Inr (r, d') \<Rightarrow> bp_tenantId r = ''t1'' \<and> bp_siteId r = ''s1''"
proof -
  obtain up where up: "gateway_step_of sample_web_url sample_env sample_opening = Forward up ''https://a''"
      "up_body up = Some (stringify sample_asked_body)"
    using sample_forwarded_body by blast
  have asked: "Option.bind (Option.bind (up_body up) json_parse) bootstrap_body = Some sample_asking"
    using sample_asking_read by (simp add: up(2) del: stringify.simps)
  have registry: "registry_ok sample_registry" "registry_keys sample_registry" "isHostname ''a''"
    by code_simp+
  have rows: "\<forall>(w, s) \<in> set (export_rows sample_registry). s_tenant_id s = ''t1'' \<and> s_site_id s = ''s1''"
    by code_simp
  have env: "ge_haystackToken sample_env = Some ''secret''"
      "ge_sites sample_env = stringify (export_json [(''a'', sample_entry)])"
    by (simp_all add: sample_env_def del: stringify.simps)
  have path: "u_pathname (gq_url sample_opening) = ''/v1/sessions''" by (simp add: sample_opening_def sample_sent)
  have "[(''a'', sample_entry)] \<noteq> []" "\<forall>(h, e) \<in> set [(''a'', sample_entry)]. isHostname h" "''secret'' \<noteq> []"
    using registry(3) by simp_all
  note resolved = exported_session_resolved [OF sample_exported registry(1,2) this(1,2) sample_core env(1) this(3) env(2)
      up(1) path asked refl refl, of "\<lambda>_. []" sample_tokens sample_bootstrap_ids 5000000 5000 "''k''" "\<lambda>_ d. d"]
  then show ?thesis using rows by (fastforce split: sum.splits prod.splits)
qed

end
